(* ===== verification/Prelude.thy ===== *)
theory Prelude
  imports Main "HOL-Library.Word" "HOL-Library.Monad_Syntax"
begin

text \<open>
  Shared vocabulary of the development: the C integer types, bounds-checked access to C
  arrays, the result convention for operations that may have undefined behaviour, and the
  interface of self-delimiting byte encodings.

  Conventions. A C array is a HOL list whose length is the size of the allocation. An
  operation of type \<open>'a option\<close> is \<open>None\<close> exactly when the C code would have undefined
  behaviour (an access outside an allocation, a write through a null pointer, a signed
  overflow) or would stop in a failed \<open>assert\<close>; error codes of the C code are ordinary
  values. \<open>size_t\<close> is 32 bits wide (the target is a Cortex-A5).
\<close>

unbundle bit_operations_syntax

type_synonym u8 = "8 word"
type_synonym u16 = "16 word"
type_synonym u32 = "32 word"
type_synonym u64 = "64 word"
type_synonym bytes = "u8 list"

named_theorems wp \<open>introduction rules that establish \<open>yields\<close> for the model's operations\<close>

section \<open>Operations that may have undefined behaviour\<close>

text \<open>\<open>yields m Q\<close>: the operation is defined and its result satisfies \<open>Q\<close>.\<close>

definition yields :: "'a option \<Rightarrow> ('a \<Rightarrow> bool) \<Rightarrow> bool" where
  "yields m Q \<longleftrightarrow> (case m of None \<Rightarrow> False | Some x \<Rightarrow> Q x)"

lemma yields_Some [simp]: "yields (Some x) Q = Q x"
  by (simp add: yields_def)

lemma yields_None [simp]: "yields None Q = False"
  by (simp add: yields_def)

lemma yields_iff: "yields m Q \<longleftrightarrow> (\<exists>x. m = Some x \<and> Q x)"
  by (cases m) auto

lemma yields_bind [simp]: "yields (m \<bind> f) Q = yields m (\<lambda>x. yields (f x) Q)"
  by (cases m) auto

lemma yields_mono: "yields m P \<Longrightarrow> (\<And>x. P x \<Longrightarrow> Q x) \<Longrightarrow> yields m Q"
  by (cases m) auto

lemma yieldsE: "yields m Q \<Longrightarrow> (\<And>x. m = Some x \<Longrightarrow> Q x \<Longrightarrow> R) \<Longrightarrow> R"
  by (cases m) auto

section \<open>C arrays\<close>

definition aload :: "'a list \<Rightarrow> nat \<Rightarrow> 'a option" where
  "aload xs i = (if i < length xs then Some (xs ! i) else None)"

definition astore :: "'a list \<Rightarrow> nat \<Rightarrow> 'a \<Rightarrow> 'a list option" where
  "astore xs i v = (if i < length xs then Some (xs[i := v]) else None)"

text \<open>\<open>memcpy (xs + off, ys, length ys)\<close> and reading \<open>n\<close> bytes at \<open>xs + off\<close>.\<close>

definition ablit :: "'a list \<Rightarrow> nat \<Rightarrow> 'a list \<Rightarrow> 'a list option" where
  "ablit xs off ys =
     (if off + length ys \<le> length xs
      then Some (take off xs @ ys @ drop (off + length ys) xs) else None)"

definition aslice :: "'a list \<Rightarrow> nat \<Rightarrow> nat \<Rightarrow> 'a list option" where
  "aslice xs off n = (if off + n \<le> length xs then Some (take n (drop off xs)) else None)"

lemma aload_in [simp]: "i < length xs \<Longrightarrow> aload xs i = Some (xs ! i)"
  by (simp add: aload_def)

lemma astore_in [simp]: "i < length xs \<Longrightarrow> astore xs i v = Some (xs[i := v])"
  by (simp add: astore_def)

lemma ablit_in [simp]:
  "off + length ys \<le> length xs \<Longrightarrow>
   ablit xs off ys = Some (take off xs @ ys @ drop (off + length ys) xs)"
  by (simp add: ablit_def)

lemma aslice_in [simp]:
  "off + n \<le> length xs \<Longrightarrow> aslice xs off n = Some (take n (drop off xs))"
  by (simp add: aslice_def)

lemma take_list_update_Suc:
  "i < length xs \<Longrightarrow> take (Suc i) (xs[i := v]) = take i xs @ [v]"
  by (simp add: take_Suc_conv_app_nth)

section \<open>Words\<close>

lemma unat_of_nat_id [simp]:
  "n < 2 ^ LENGTH('a::len) \<Longrightarrow> unat (of_nat n :: 'a word) = n"
  by (simp add: unat_of_nat take_bit_nat_eq_self)

lemma unat_add_id:
  "unat (x :: 'a::len word) + unat y < 2 ^ LENGTH('a) \<Longrightarrow> unat (x + y) = unat x + unat y"
  by (simp add: unat_word_ariths)

lemma unat_ucast_up:
  "unat x < 2 ^ LENGTH('b) \<Longrightarrow> unat (ucast (x :: 'a::len word) :: 'b::len word) = unat x"
  by (simp add: unsigned_ucast_eq take_bit_nat_eq_self)

lemma unat_ucast_sizes [simp]:
  "unat (ucast (x :: u8) :: u16) = unat x"
  "unat (ucast (x :: u8) :: u32) = unat x"
  "unat (ucast (y :: u16) :: u32) = unat y"
proof -
  have "unat x < 2 ^ LENGTH(8)" "unat y < 2 ^ LENGTH(16)" by (rule unsigned_less)+
  then show "unat (ucast x :: u16) = unat x" "unat (ucast x :: u32) = unat x"
    "unat (ucast y :: u32) = unat y"
    by (simp_all add: unat_ucast_up)
qed

lemma unat_u8_less [simp]: "unat (x :: u8) < 256"
proof -
  have "unat x < 2 ^ LENGTH(8)" by (rule unsigned_less)
  then show ?thesis by simp
qed

lemma unat_u16_less [simp]: "unat (x :: u16) < 65536"
proof -
  have "unat x < 2 ^ LENGTH(16)" by (rule unsigned_less)
  then show ?thesis by simp
qed

lemma unat_u32_less [simp]: "unat (x :: u32) < 4294967296"
proof -
  have "unat x < 2 ^ LENGTH(32)" by (rule unsigned_less)
  then show ?thesis by simp
qed

lemma unat_of_nat_mod: "unat (of_nat n :: 'a::len word) = n mod 2 ^ LENGTH('a)"
  by (simp add: unat_of_nat take_bit_eq_mod)

lemma unat_sub_id: "(y :: 'a::len word) \<le> x \<Longrightarrow> unat (x - y) = unat x - unat y"
  by (simp add: unat_sub)

lemma sint_of_nat_small: "n < 2 ^ 31 \<Longrightarrow> sint (of_nat n :: u32) = int n"
  by (simp add: signed_of_nat signed_take_bit_int_eq_self)

lemma sint_small: "unat (w :: u32) < 2 ^ 31 \<Longrightarrow> sint w = int (unat w)"
  using sint_of_nat_small [of "unat w"] by simp

text \<open>The masks of the C code as bit ranges.\<close>

lemma and_masks:
  "(x :: 'a::len word) AND 1 = take_bit 1 x"
  "x AND 7 = take_bit 3 x"
  "x AND 15 = take_bit 4 x"
  "x AND 127 = take_bit 7 x"
  "x AND 255 = take_bit 8 x"
  "x AND 65535 = take_bit 16 x"
  by (simp_all add: take_bit_eq_mask mask_eq_exp_minus_1 and.commute)

lemma bit_255:
  "bit (255 :: 'a::len word) n \<longleftrightarrow> n < 8 \<and> n < LENGTH('a)"
  "bit (255 :: int) n \<longleftrightarrow> n < 8"
  "bit (255 :: nat) n \<longleftrightarrow> n < 8"
proof -
  have "(255 :: 'a word) = mask 8" "(255 :: int) = mask 8" "(255 :: nat) = mask 8"
    by (simp_all add: mask_eq_exp_minus_1 mask_nat_def)
  then show "bit (255 :: 'a word) n \<longleftrightarrow> n < 8 \<and> n < LENGTH('a)"
    "bit (255 :: int) n \<longleftrightarrow> n < 8" "bit (255 :: nat) n \<longleftrightarrow> n < 8"
    by (auto simp only: bit_mask_iff possible_bit_word possible_bit_int possible_bit_nat)
qed

text \<open>Big-endian layouts, most significant byte first.\<close>

definition be16 :: "u16 \<Rightarrow> bytes" where
  "be16 x = [ucast (drop_bit 8 x), ucast x]"

definition be32 :: "u32 \<Rightarrow> bytes" where
  "be32 x = [ucast (drop_bit 24 x), ucast (drop_bit 16 x), ucast (drop_bit 8 x), ucast x]"

lemma length_be16 [simp]: "length (be16 x) = 2"
  by (simp add: be16_def)

lemma length_be32 [simp]: "length (be32 x) = 4"
  by (simp add: be32_def)

lemma be16_join: "push_bit 8 (ucast (ucast (drop_bit 8 x) :: u8)) + ucast (ucast x :: u8) = (x :: u16)"
proof -
  have "push_bit 8 (ucast (ucast (drop_bit 8 x) :: u8)) + ucast (ucast x :: u8)
      = push_bit 8 (ucast (ucast (drop_bit 8 x) :: u8)) OR ucast (ucast x :: u8)"
    by (rule disjunctive_add) (auto simp: bit_simps)
  also have "\<dots> = x" by (auto intro!: bit_word_eqI simp: bit_simps)
  finally show ?thesis .
qed

lemma be32_join:
  "push_bit 8 (push_bit 8 (push_bit 8 (ucast (ucast (drop_bit 24 x) :: u8))
      OR ucast (ucast (drop_bit 16 x) :: u8)) OR ucast (ucast (drop_bit 8 x) :: u8))
      OR ucast (ucast x :: u8) = (x :: u32)" (is "?l = x")
proof (rule bit_word_eqI)
  fix n :: nat
  assume "n < LENGTH(32)"
  then consider "n < 8" | "8 \<le> n" "n < 16" | "16 \<le> n" "n < 24" | "24 \<le> n" "n < 32"
    by fastforce
  then show "bit ?l n = bit x n"
    by cases (auto simp: bit_simps)
qed

section \<open>Allocators\<close>

text \<open>\<open>malloc\<close>: the fresh block, or the null pointer.\<close>

type_synonym allocator = "u32 \<Rightarrow> bytes option"

text \<open>
  The allocator serves every request below half the address space with a block of the
  requested size. With \<open>alloc_sane\<close> larger requests fail, as on any 32-bit machine.
\<close>

definition alloc_ok :: "allocator \<Rightarrow> bool" where
  "alloc_ok mal \<longleftrightarrow> (\<forall>n. unat n < 2 ^ 31 \<longrightarrow> (\<exists>d. mal n = Some d \<and> length d = unat n))"

definition alloc_sane :: "allocator \<Rightarrow> bool" where
  "alloc_sane mal \<longleftrightarrow> alloc_ok mal \<and> (\<forall>n. 2 ^ 31 \<le> unat n \<longrightarrow> mal n = None)"

lemma alloc_okE:
  assumes "alloc_ok mal" and "unat n < 2 ^ 31"
  obtains d where "mal n = Some d" and "length d = unat n"
  using assms by (auto simp: alloc_ok_def)

lemma alloc_sane_ok: "alloc_sane mal \<Longrightarrow> alloc_ok mal"
  by (simp add: alloc_sane_def)

text \<open>An allocator that zeroes its blocks, for the witnesses.\<close>

definition calloc :: allocator where
  "calloc n = (if n < 0x80000000 then Some (replicate (unat n) 0) else None)"

lemma alloc_sane_calloc [simp]: "alloc_sane calloc"
  by (simp add: alloc_sane_def alloc_ok_def calloc_def word_less_nat_alt)

lemma alloc_ok_calloc [simp]: "alloc_ok calloc"
  using alloc_sane_calloc by (rule alloc_sane_ok)

section \<open>Self-delimiting encodings\<close>

text \<open>
  The interface every wire format of the program offers its callers: a decoder that, given
  an encoding followed by anything, returns the value and exactly what followed.
\<close>

locale prefix_codec =
  fixes valid :: "'a \<Rightarrow> bool"
    and enc :: "'a \<Rightarrow> bytes"
    and dec :: "bytes \<Rightarrow> ('a \<times> bytes) option"
  assumes dec_enc: "valid x \<Longrightarrow> dec (enc x @ rest) = Some (x, rest)"
begin

lemma enc_unambiguous:
  assumes "valid x" and "valid y" and "enc x @ r = enc y @ s"
  shows "x = y \<and> r = s"
proof -
  have "Some (x, r) = dec (enc y @ s)"
    using assms(1,3) dec_enc by metis
  also have "\<dots> = Some (y, s)"
    using assms(2) by (rule dec_enc)
  finally show ?thesis by simp
qed

lemma enc_injective: "valid x \<Longrightarrow> valid y \<Longrightarrow> enc x = enc y \<Longrightarrow> x = y"
  using enc_unambiguous [of x y "[]" "[]"] by simp

fun dec_many :: "nat \<Rightarrow> bytes \<Rightarrow> ('a list \<times> bytes) option" where
  "dec_many 0 bs = Some ([], bs)"
| "dec_many (Suc n) bs =
     (case dec bs of None \<Rightarrow> None
      | Some (x, rest) \<Rightarrow>
          (case dec_many n rest of None \<Rightarrow> None | Some (xs, rest') \<Rightarrow> Some (x # xs, rest')))"

lemma dec_many_enc:
  "(\<forall>x \<in> set xs. valid x) \<Longrightarrow> dec_many (length xs) (concat (map enc xs) @ rest) = Some (xs, rest)"
  by (induction xs) (auto simp: dec_enc)

end

end
