(* ===== verification/Cis_List.thy ===== *)
theory Cis_List
  imports Prelude
begin

text \<open>
  \<open>cis_list.c\<close>: the singly linked list, ordered by node identifier, that the LwM2M client
  uses for its objects, transactions, requests, notifications and observations. A list is
  the HOL list of its nodes from the head; the identifier field is reached through \<open>idf\<close>,
  since the C code casts every node type to \<open>cis_list_t\<close> (fields \<open>next\<close> and \<open>id\<close>).
\<close>

section \<open>Operations\<close>

text \<open>The \<open>while\<close> loop of \<open>cis_list_add\<close>: advance while the next node is smaller.\<close>

fun cis_list_add_after :: "('a \<Rightarrow> u32) \<Rightarrow> 'a \<Rightarrow> 'a list \<Rightarrow> 'a list" where
  "cis_list_add_after idf node [] = [node]"
| "cis_list_add_after idf node (t # ts) =
     (if idf t < idf node then t # cis_list_add_after idf node ts else node # t # ts)"

definition cis_list_add :: "('a \<Rightarrow> u32) \<Rightarrow> 'a list \<Rightarrow> 'a \<Rightarrow> 'a list" where
  "cis_list_add idf head node =
     (case head of
        [] \<Rightarrow> [node]
      | h # t \<Rightarrow>
          if idf node < idf h then node # h # t
          else h # cis_list_add_after idf node t)"

fun cis_list_find :: "('a \<Rightarrow> u32) \<Rightarrow> 'a list \<Rightarrow> u32 \<Rightarrow> 'a option" where
  "cis_list_find idf [] i = None"
| "cis_list_find idf (h # t) i =
     (if idf h < i then cis_list_find idf t i
      else if idf h = i then Some h else None)"

fun cis_list_find_u16 :: "('a \<Rightarrow> u32) \<Rightarrow> 'a list \<Rightarrow> u16 \<Rightarrow> 'a option" where
  "cis_list_find_u16 idf [] i = None"
| "cis_list_find_u16 idf (h # t) i =
     (if idf h AND 0xFFFF < ucast i then cis_list_find_u16 idf t i
      else if idf h AND 0xFFFF = ucast i then Some h else None)"

text \<open>
  \<open>cis_list_remove\<close> returns the new head and, through \<open>nodeP\<close>, the unlinked node. The loop
  looks at the node after \<open>target\<close>.
\<close>

fun cis_list_remove_after :: "('a \<Rightarrow> u32) \<Rightarrow> u32 \<Rightarrow> 'a list \<Rightarrow> 'a list \<times> 'a option" where
  "cis_list_remove_after idf i [] = ([], None)"
| "cis_list_remove_after idf i (t # ts) =
     (if idf t < i then (let (ts', r) = cis_list_remove_after idf i ts in (t # ts', r))
      else if idf t = i then (ts, Some t)
      else (t # ts, None))"

definition cis_list_remove :: "('a \<Rightarrow> u32) \<Rightarrow> 'a list \<Rightarrow> u32 \<Rightarrow> 'a list \<times> 'a option" where
  "cis_list_remove idf head i =
     (case head of
        [] \<Rightarrow> ([], None)
      | h # t \<Rightarrow>
          if idf h = i then (t, Some h)
          else (let (t', r) = cis_list_remove_after idf i t in (h # t', r)))"

fun cis_list_newId_loop :: "('a \<Rightarrow> u32) \<Rightarrow> u32 \<Rightarrow> 'a list \<Rightarrow> u32" where
  "cis_list_newId_loop idf i [] = i"
| "cis_list_newId_loop idf i (t # ts) =
     (if i = idf t then cis_list_newId_loop idf (idf t + 1) ts else i)"

definition cis_list_newId :: "('a \<Rightarrow> u32) \<Rightarrow> 'a list \<Rightarrow> u32" where
  "cis_list_newId idf head = cis_list_newId_loop idf 0 head"

text \<open>
  \<open>cis_list_free\<close> on the set of live allocations: each node is freed once, in list order;
  freeing a node that is not live is undefined.
\<close>

fun cis_list_free :: "'a set \<Rightarrow> 'a list \<Rightarrow> 'a set option" where
  "cis_list_free heap [] = Some heap"
| "cis_list_free heap (h # t) =
     (if h \<in> heap then cis_list_free (heap - {h}) t else None)"

fun cis_list_count_loop :: "u32 \<Rightarrow> 'a list \<Rightarrow> u32" where
  "cis_list_count_loop count [] = count"
| "cis_list_count_loop count (t # ts) = cis_list_count_loop (count + 1) ts"

definition cis_list_count :: "'a list \<Rightarrow> u32" where
  "cis_list_count head = cis_list_count_loop 0 head"

section \<open>The list invariant\<close>

definition cis_list_ok :: "('a \<Rightarrow> u32) \<Rightarrow> 'a list \<Rightarrow> bool" where
  "cis_list_ok idf xs \<longleftrightarrow> sorted_wrt (\<lambda>a b. idf a < idf b) xs"

lemma cis_list_ok_Nil [simp]: "cis_list_ok idf []"
  by (simp add: cis_list_ok_def)

lemma cis_list_ok_Cons [simp]:
  "cis_list_ok idf (x # xs) \<longleftrightarrow> (\<forall>y \<in> set xs. idf x < idf y) \<and> cis_list_ok idf xs"
  by (simp add: cis_list_ok_def)

lemma cis_list_ok_distinct: "cis_list_ok idf xs \<Longrightarrow> distinct (map idf xs)"
  by (induction xs) auto

lemma cis_list_ok_inj:
  assumes "cis_list_ok idf xs" and "x \<in> set xs" and "y \<in> set xs" and "idf x = idf y"
  shows "x = y"
proof -
  from assms(1) have "inj_on idf (set xs)"
    using cis_list_ok_distinct distinct_map by blast
  then show ?thesis using assms(2-4) by (simp add: inj_on_def)
qed

lemma set_add_after [simp]: "set (cis_list_add_after idf n xs) = insert n (set xs)"
  by (induction xs) auto

lemma set_cis_list_add [simp]: "set (cis_list_add idf xs n) = insert n (set xs)"
  by (auto simp: cis_list_add_def split: list.splits)

lemma length_add_after [simp]: "length (cis_list_add_after idf n xs) = Suc (length xs)"
  by (induction xs) auto

lemma length_cis_list_add [simp]: "length (cis_list_add idf xs n) = Suc (length xs)"
  by (auto simp: cis_list_add_def split: list.splits)

lemma ok_add_after:
  "cis_list_ok idf xs \<Longrightarrow> idf n \<notin> idf ` set xs \<Longrightarrow> cis_list_ok idf (cis_list_add_after idf n xs)"
proof (induction xs)
  case (Cons t ts)
  show ?case
  proof (cases "idf t < idf n")
    case True
    with Cons show ?thesis by simp
  next
    case False
    moreover from Cons.prems(2) have "idf n \<noteq> idf t" by simp
    ultimately have "idf n < idf t" by (metis linorder_neqE)
    with Cons.prems(1) show ?thesis by (auto intro: order.strict_trans)
  qed
qed simp

lemma cis_list_add_ok:
  "cis_list_ok idf xs \<Longrightarrow> idf n \<notin> idf ` set xs \<Longrightarrow> cis_list_ok idf (cis_list_add idf xs n)"
proof (cases xs)
  case (Cons h t)
  assume "cis_list_ok idf xs" and "idf n \<notin> idf ` set xs"
  with Cons show ?thesis
    by (auto simp: cis_list_add_def ok_add_after intro: order.strict_trans)
qed (simp add: cis_list_add_def)

lemma cis_list_find_iff:
  "cis_list_ok idf xs \<Longrightarrow> cis_list_find idf xs i = Some x \<longleftrightarrow> x \<in> set xs \<and> idf x = i"
  by (induction xs) auto

lemma cis_list_find_None:
  "cis_list_ok idf xs \<Longrightarrow> cis_list_find idf xs i = None \<longleftrightarrow> i \<notin> idf ` set xs"
  by (induction xs) (auto simp: less_le)

lemma cis_list_remove_filter:
  assumes "cis_list_ok idf xs"
  shows "cis_list_remove idf xs i = (filter (\<lambda>x. idf x \<noteq> i) xs, cis_list_find idf xs i)"
proof -
  have after: "cis_list_ok idf ys \<Longrightarrow>
      cis_list_remove_after idf i ys = (filter (\<lambda>x. idf x \<noteq> i) ys, cis_list_find idf ys i)" for ys
    by (induction ys) (auto intro!: filter_True [symmetric] simp: less_le)
  show ?thesis
  proof (cases xs)
    case (Cons h t)
    with assms have "idf h < i \<or> idf h = i \<or> (i < idf h \<and> cis_list_find idf t i = None)"
      by (auto simp: cis_list_find_None)
    with assms Cons show ?thesis
      by (auto simp: cis_list_remove_def after intro!: filter_True [symmetric])
  qed (simp add: cis_list_remove_def)
qed

lemma cis_list_ok_filter: "cis_list_ok idf xs \<Longrightarrow> cis_list_ok idf (filter P xs)"
  by (simp add: cis_list_ok_def sorted_wrt_filter)

section \<open>The registry contract\<close>

text \<open>
  What the clients of the list rely on: a registry of nodes under unique identifiers. Adding
  a node under a fresh identifier and removing an identifier act on lookups like updates of a
  finite map.
\<close>

locale id_registry =
  fixes idf :: "'a \<Rightarrow> u32"
    and empty :: 's
    and inv :: "'s \<Rightarrow> bool"
    and add :: "'s \<Rightarrow> 'a \<Rightarrow> 's"
    and find :: "'s \<Rightarrow> u32 \<Rightarrow> 'a option"
    and remove :: "'s \<Rightarrow> u32 \<Rightarrow> 's \<times> 'a option"
  assumes inv_empty: "inv empty"
    and find_empty: "find empty i = None"
    and inv_add: "inv r \<Longrightarrow> find r (idf n) = None \<Longrightarrow> inv (add r n)"
    and find_add: "inv r \<Longrightarrow> find r (idf n) = None \<Longrightarrow>
                     find (add r n) i = (if i = idf n then Some n else find r i)"
    and inv_remove: "inv r \<Longrightarrow> inv (fst (remove r i))"
    and find_remove: "inv r \<Longrightarrow> find (fst (remove r i)) j = (if j = i then None else find r j)"
    and removed: "inv r \<Longrightarrow> snd (remove r i) = find r i"
    and find_id: "inv r \<Longrightarrow> find r i = Some n \<Longrightarrow> idf n = i"
begin

definition as_map :: "'s \<Rightarrow> (u32 \<rightharpoonup> 'a)" where
  "as_map r = find r"

lemma as_map_apply: "as_map r i = find r i"
  by (simp add: as_map_def)

lemma as_map_empty: "as_map empty = Map.empty"
  by (auto simp: as_map_def find_empty)

lemma as_map_add: "inv r \<Longrightarrow> idf n \<notin> dom (as_map r) \<Longrightarrow> as_map (add r n) = (as_map r)(idf n \<mapsto> n)"
  by (auto simp: as_map_def find_add dom_def)

lemma as_map_remove: "inv r \<Longrightarrow> as_map (fst (remove r i)) = (as_map r)(i := None)"
  by (auto simp: as_map_def find_remove)

lemma remove_add_cancel:
  assumes "inv r" and "find r (idf n) = None"
  shows "as_map (fst (remove (add r n) (idf n))) = as_map r" and "snd (remove (add r n) (idf n)) = Some n"
  using assms inv_add [OF assms] by (auto simp: as_map_def find_remove find_add removed)

end

lemma cis_list_find_cong:
  assumes "cis_list_ok idf xs" and "cis_list_ok idf ys"
    and "\<And>x. idf x = i \<Longrightarrow> x \<in> set xs \<longleftrightarrow> x \<in> set ys"
  shows "cis_list_find idf xs i = cis_list_find idf ys i"
proof (cases "cis_list_find idf xs i")
  case None
  then have "i \<notin> idf ` set ys" using assms by (auto simp: cis_list_find_None [OF assms(1)])
  with None show ?thesis by (simp add: cis_list_find_None [OF assms(2), symmetric])
next
  case (Some x)
  then have "x \<in> set ys \<and> idf x = i" using assms by (auto simp: cis_list_find_iff [OF assms(1)])
  with Some show ?thesis by (simp add: cis_list_find_iff [OF assms(2), symmetric])
qed

lemma cis_list_find_add:
  assumes "cis_list_ok idf xs" and "idf n \<notin> idf ` set xs"
  shows "cis_list_find idf (cis_list_add idf xs n) i = (if i = idf n then Some n else cis_list_find idf xs i)"
  using assms cis_list_add_ok [OF assms]
  by (auto simp: cis_list_find_iff intro!: cis_list_find_cong)

lemma cis_list_find_removed:
  assumes "cis_list_ok idf xs"
  shows "cis_list_find idf (fst (cis_list_remove idf xs i)) j = (if j = i then None else cis_list_find idf xs j)"
  using assms cis_list_ok_filter [OF assms]
  by (auto simp: cis_list_remove_filter cis_list_find_None intro!: cis_list_find_cong)

lemma cis_list_removed:
  assumes "cis_list_ok idf xs"
  shows "cis_list_ok idf (fst (cis_list_remove idf xs i))"
    and "snd (cis_list_remove idf xs i) = cis_list_find idf xs i"
  using assms by (simp_all add: cis_list_remove_filter cis_list_ok_filter)

interpretation cis_registry: id_registry idf "[]" "cis_list_ok idf" "cis_list_add idf"
  "cis_list_find idf" "cis_list_remove idf" for idf :: "'a \<Rightarrow> u32"
  by unfold_locales
    (simp_all add: cis_list_find_None cis_list_add_ok cis_list_find_add cis_list_find_removed
      cis_list_removed cis_list_find_iff)

section \<open>Identifiers in use twice\<close>

lemma list_sum_induct [case_names Nil Inl Inr]:
  assumes "P []" and "\<And>x xs. P xs \<Longrightarrow> P (Inl x # xs)" and "\<And>y xs. P xs \<Longrightarrow> P (Inr y # xs)"
  shows "P xs"
proof (induction xs)
  case (Cons z zs)
  then show ?case using assms(2,3) by (cases z) simp_all
qed (rule assms(1))

text \<open>
  The interface without the promise that identifiers are unique: under each identifier there is a list
  of nodes, of which the first is found and removed.
\<close>

definition first :: "'a list \<Rightarrow> 'a option" where
  "first xs = (case xs of [] \<Rightarrow> None | x # _ \<Rightarrow> Some x)"

definition bag_push :: "u32 \<Rightarrow> 'a \<Rightarrow> (u32 \<Rightarrow> 'a list) \<Rightarrow> u32 \<Rightarrow> 'a list" where
  "bag_push i n m =
     m(i := if m i \<noteq> [] \<and> (\<forall>j < i. m j = []) then hd (m i) # n # tl (m i) else n # m i)"

locale id_bags =
  fixes idf :: "'a \<Rightarrow> u32"
    and inv :: "'s \<Rightarrow> bool"
    and bag :: "'s \<Rightarrow> u32 \<Rightarrow> 'a list"
    and add :: "'s \<Rightarrow> 'a \<Rightarrow> 's"
    and find :: "'s \<Rightarrow> u32 \<Rightarrow> 'a option"
    and remove :: "'s \<Rightarrow> u32 \<Rightarrow> 's \<times> 'a option"
  assumes inv_add: "inv r \<Longrightarrow> inv (add r n)"
    and bag_add: "inv r \<Longrightarrow> bag (add r n) = bag_push (idf n) n (bag r)"
    and inv_remove: "inv r \<Longrightarrow> inv (fst (remove r i))"
    and bag_remove: "inv r \<Longrightarrow> bag (fst (remove r i)) = (bag r)(i := tl (bag r i))"
    and removed: "inv r \<Longrightarrow> snd (remove r i) = first (bag r i)"
    and found: "inv r \<Longrightarrow> find r i = first (bag r i)"
begin

fun run :: "'s \<Rightarrow> ('a + u32) list \<Rightarrow> 's \<times> 'a option list" where
  "run r [] = (r, [])"
| "run r (Inl n # ops) = run (add r n) ops"
| "run r (Inr i # ops) = (let (r, x) = remove r i; (r', out) = run r ops in (r', x # out))"

fun run_bags :: "(u32 \<Rightarrow> 'a list) \<Rightarrow> ('a + u32) list \<Rightarrow> (u32 \<Rightarrow> 'a list) \<times> 'a option list" where
  "run_bags m [] = (m, [])"
| "run_bags m (Inl n # ops) = run_bags (bag_push (idf n) n m) ops"
| "run_bags m (Inr i # ops) =
     (let (m', out) = run_bags (m(i := tl (m i))) ops in (m', first (m i) # out))"

lemma run_refines:
  "inv r \<Longrightarrow> inv (fst (run r ops)) \<and> run_bags (bag r) ops = (bag (fst (run r ops)), snd (run r ops))"
proof (induction ops arbitrary: r rule: list_sum_induct)
  case (Inl n ops)
  then show ?case using Inl.IH [OF inv_add [OF Inl.prems]] by (simp add: bag_add)
next
  case (Inr i ops)
  then show ?case using Inr.IH [OF inv_remove [OF Inr.prems]] by (simp add: bag_remove removed split_beta del: fun_upd_apply)
qed simp

end

definition nodes_at :: "('a \<Rightarrow> u32) \<Rightarrow> 'a list \<Rightarrow> u32 \<Rightarrow> 'a list" where
  "nodes_at idf xs i = filter (\<lambda>x. idf x = i) xs"

lemma sorted_add_after: "sorted (map idf xs) \<Longrightarrow> sorted (map idf (cis_list_add_after idf n xs))"
  by (induction xs) auto

lemma sorted_add: "sorted (map idf xs) \<Longrightarrow> sorted (map idf (cis_list_add idf xs n))"
  by (cases xs) (auto simp: cis_list_add_def sorted_add_after)

lemma nodes_Cons: "nodes_at idf (x # xs) i = (if idf x = i then x # nodes_at idf xs i else nodes_at idf xs i)"
  by (simp add: nodes_at_def)

lemma nodes_add_after:
  "sorted (map idf xs) \<Longrightarrow>
   nodes_at idf (cis_list_add_after idf n xs) i = (if i = idf n then n # nodes_at idf xs i else nodes_at idf xs i)"
  by (induction xs) (auto simp: nodes_at_def)

lemma filter_head: "filter (\<lambda>x. idf x = i) xs = y # ys \<Longrightarrow> y \<in> set xs \<and> idf y = i"
  by (auto simp: filter_eq_Cons_iff)

lemma nodes_empty: "nodes_at idf xs i = [] \<longleftrightarrow> i \<notin> idf ` set xs"
  by (auto simp: nodes_at_def filter_empty_conv)

lemma nodes_add:
  assumes "sorted (map idf xs)"
  shows "nodes_at idf (cis_list_add idf xs n) = bag_push (idf n) n (nodes_at idf xs)"
proof (cases xs)
  case (Cons h t)
  have t: "sorted (map idf t)" "\<forall>x \<in> set t. idf h \<le> idf x" using assms Cons by auto
  have least: "(\<forall>j < idf n. nodes_at idf xs j = []) \<longleftrightarrow> idf n \<le> idf h"
    using t(2) by (auto simp: nodes_empty Cons not_le [symmetric])
  have here: "nodes_at idf xs (idf n) \<noteq> [] \<and> (\<forall>j < idf n. nodes_at idf xs j = []) \<longleftrightarrow> idf n = idf h"
    using t(2) unfolding least by (auto simp: nodes_empty Cons)
  show ?thesis
    unfolding bag_push_def here
    by (auto simp: fun_eq_iff cis_list_add_def Cons nodes_add_after [OF t(1)] nodes_Cons)
qed (auto simp: cis_list_add_def nodes_at_def bag_push_def)

lemma remove_after_nodes:
  "sorted (map idf xs) \<Longrightarrow>
   snd (cis_list_remove_after idf i xs) = first (nodes_at idf xs i) \<and>
   nodes_at idf (fst (cis_list_remove_after idf i xs)) = (nodes_at idf xs)(i := tl (nodes_at idf xs i)) \<and>
   sorted (map idf (fst (cis_list_remove_after idf i xs))) \<and>
   set (fst (cis_list_remove_after idf i xs)) \<subseteq> set xs"
proof (induction xs)
  case (Cons t ts)
  then show ?case
    by (auto simp: nodes_at_def first_def fun_eq_iff split_beta filter_empty_conv split: list.splits
        dest!: filter_head)
qed (auto simp: nodes_at_def first_def)

lemma remove_nodes:
  assumes "sorted (map idf xs)"
  shows "snd (cis_list_remove idf xs i) = first (nodes_at idf xs i)"
    and "nodes_at idf (fst (cis_list_remove idf xs i)) = (nodes_at idf xs)(i := tl (nodes_at idf xs i))"
    and "sorted (map idf (fst (cis_list_remove idf xs i)))"
  using assms
  by (cases xs; auto simp: cis_list_remove_def split_beta nodes_at_def first_def fun_eq_iff
      dest: remove_after_nodes [of idf _ i])+

lemma find_nodes: "sorted (map idf xs) \<Longrightarrow> cis_list_find idf xs i = first (nodes_at idf xs i)"
  by (induction xs) (auto simp: nodes_at_def first_def filter_empty_conv split: list.splits dest!: filter_head)

interpretation cis_bags: id_bags idf "\<lambda>xs. sorted (map idf xs)" "nodes_at idf" "cis_list_add idf"
  "cis_list_find idf" "cis_list_remove idf" for idf :: "'a \<Rightarrow> u32"
  by unfold_locales (simp_all add: sorted_add nodes_add remove_nodes find_nodes)

section \<open>Counting, freeing, new identifiers\<close>

lemma cis_list_count_length: "cis_list_count xs = of_nat (length xs)"
proof -
  have "cis_list_count_loop c xs = c + of_nat (length xs)" for c
    by (induction xs arbitrary: c) (simp_all add: algebra_simps)
  then show ?thesis by (simp add: cis_list_count_def)
qed

lemma cis_list_free_all:
  "distinct xs \<Longrightarrow> set xs \<subseteq> heap \<Longrightarrow> cis_list_free heap xs = Some (heap - set xs)"
proof (induction xs arbitrary: heap)
  case (Cons h t)
  then have "cis_list_free (heap - {h}) t = Some (heap - {h} - set t)" by (intro Cons.IH) auto
  with Cons.prems show ?case by (simp add: Diff_insert2 [symmetric])
qed simp

lemma newId_loop:
  assumes "cis_list_ok idf xs" and "\<forall>x \<in> set xs. i \<le> idf x" and "unat i + length xs < 2 ^ 32"
  shows "i \<le> cis_list_newId_loop idf i xs \<and> cis_list_newId_loop idf i xs \<notin> idf ` set xs \<and>
         (\<forall>j. i \<le> j \<and> j < cis_list_newId_loop idf i xs \<longrightarrow> j \<in> idf ` set xs)"
  using assms
proof (induction xs arbitrary: i)
  case (Cons t ts)
  show ?case
  proof (cases "i = idf t")
    case False
    with Cons.prems show ?thesis by (auto simp: leD order.strict_implies_order)
  next
    case True
    from Cons.prems(3) have suc: "unat (i + 1) = Suc (unat i)" by (simp add: unat_word_ariths)
    have gt: "i < j \<longleftrightarrow> i + 1 \<le> j" for j
      using suc by (simp add: word_less_nat_alt word_le_nat_alt Suc_le_eq)
    let ?r = "cis_list_newId_loop idf (i + 1) ts"
    have "i + 1 \<le> ?r \<and> ?r \<notin> idf ` set ts \<and> (\<forall>j. i + 1 \<le> j \<and> j < ?r \<longrightarrow> j \<in> idf ` set ts)"
    proof (rule Cons.IH)
      show "\<forall>x \<in> set ts. i + 1 \<le> idf x"
        using Cons.prems(1) True gt by auto
    qed (use Cons.prems suc in simp_all)
    then have r: "i < ?r" "?r \<notin> idf ` set ts" "\<forall>j. i < j \<and> j < ?r \<longrightarrow> j \<in> idf ` set ts"
      using gt by auto
    from r(1) have "i \<le> ?r" "?r \<noteq> i" by auto
    moreover have "\<forall>j. i \<le> j \<and> j < ?r \<longrightarrow> j = i \<or> j \<in> idf ` set ts"
      using r(3) by (metis order.order_iff_strict)
    ultimately show ?thesis using True r(2) by auto
  qed
qed auto

section \<open>Properties\<close>

text \<open>
  A history of the list, \<open>Inl n\<close> for the addition of a node and \<open>Inr i\<close> for a removal: the list and the
  nodes that the removals gave back, in order. Nothing keeps a caller from adding a node whose
  identifier is in use.
\<close>

fun cis_list_history :: "('a \<Rightarrow> u32) \<Rightarrow> 'a list \<Rightarrow> ('a + u32) list \<Rightarrow> 'a list \<times> 'a option list" where
  "cis_list_history idf xs [] = (xs, [])"
| "cis_list_history idf xs (Inl n # ops) = cis_list_history idf (cis_list_add idf xs n) ops"
| "cis_list_history idf xs (Inr i # ops) =
     (let (xs, r) = cis_list_remove idf xs i; (ys, out) = cis_list_history idf xs ops in (ys, r # out))"

text \<open>The same history of a map from identifiers to the nodes under them.\<close>

fun bag_history :: "('a \<Rightarrow> u32) \<Rightarrow> (u32 \<Rightarrow> 'a list) \<Rightarrow> ('a + u32) list \<Rightarrow> (u32 \<Rightarrow> 'a list) \<times> 'a option list" where
  "bag_history idf m [] = (m, [])"
| "bag_history idf m (Inl n # ops) = bag_history idf (bag_push (idf n) n m) ops"
| "bag_history idf m (Inr i # ops) =
     (let (m', out) = bag_history idf (m(i := tl (m i))) ops in (m', first (m i) # out))"

lemma cis_list_history_run: "cis_list_history idf xs ops = cis_bags.run idf xs ops"
  by (induction ops arbitrary: xs rule: list_sum_induct) (simp_all add: split_beta)

lemma bag_history_run: "bag_history idf m ops = cis_bags.run_bags idf m ops"
  by (induction ops arbitrary: m rule: list_sum_induct) (simp_all add: split_beta del: fun_upd_apply)

text \<open>C15. The sorted list implements a map from identifiers to the nodes under them, whatever is added
  and removed, from the empty list on: the list is sorted by identifier, the nodes under each
  identifier are those of the map in the same order, a lookup finds the first of them, and each removal
  gives back and takes away the first of them. A node whose identifier is in use becomes the first,
  except under the smallest identifier, where it becomes the second.\<close>

theorem cis_list_implements_map:
  "\<exists>xs out m. cis_list_history idf [] ops = (xs, out) \<and>
     bag_history idf (\<lambda>_. []) ops = (m, out) \<and> sorted (map idf xs) \<and>
     (\<forall>i. filter (\<lambda>x. idf x = i) xs = m i \<and> cis_list_find idf xs i = first (m i))"
proof -
  obtain xs out where xs: "cis_list_history idf [] ops = (xs, out)" by fastforce
  have "sorted (map idf ([] :: 'a list))" by simp
  from cis_bags.run_refines [OF this, of ops]
  have "sorted (map idf xs)" "bag_history idf (nodes_at idf []) ops = (nodes_at idf xs, out)"
    by (simp_all add: xs flip: cis_list_history_run bag_history_run)
  moreover have "nodes_at idf ([] :: 'a list) = (\<lambda>_. [])" by (simp add: nodes_at_def fun_eq_iff)
  ultimately show ?thesis
    using cis_bags.found [of idf xs] by (simp add: xs nodes_at_def)
qed

text \<open>While no identifier is added that is in use, the list is a finite map.\<close>

fun fresh_history :: "('a \<Rightarrow> u32) \<Rightarrow> (u32 \<rightharpoonup> 'a) \<Rightarrow> ('a + u32) list \<Rightarrow> bool" where
  "fresh_history idf m [] = True"
| "fresh_history idf m (Inl n # ops) \<longleftrightarrow> m (idf n) = None \<and> fresh_history idf (m(idf n \<mapsto> n)) ops"
| "fresh_history idf m (Inr i # ops) = fresh_history idf (m(i := None)) ops"

fun map_history :: "('a \<Rightarrow> u32) \<Rightarrow> (u32 \<rightharpoonup> 'a) \<Rightarrow> ('a + u32) list \<Rightarrow> (u32 \<rightharpoonup> 'a)" where
  "map_history idf m [] = m"
| "map_history idf m (Inl n # ops) = map_history idf (m(idf n \<mapsto> n)) ops"
| "map_history idf m (Inr i # ops) = map_history idf (m(i := None)) ops"

lemma fresh_history_run:
  "cis_list_ok idf xs \<Longrightarrow> fresh_history idf (cis_registry.as_map idf xs) ops \<Longrightarrow>
   cis_list_ok idf (fst (cis_list_history idf xs ops)) \<and>
   cis_registry.as_map idf (fst (cis_list_history idf xs ops)) = map_history idf (cis_registry.as_map idf xs) ops"
proof (induction ops arbitrary: xs rule: list_sum_induct)
  case (Inl n ops)
  from Inl.prems have n: "idf n \<notin> dom (cis_registry.as_map idf xs)" "cis_list_find idf xs (idf n) = None"
    by (simp_all add: domIff cis_registry.as_map_apply)
  from Inl.IH [OF cis_registry.inv_add [OF Inl.prems(1) n(2)]] Inl.prems(2) show ?case
    unfolding cis_registry.as_map_add [OF Inl.prems(1) n(1)] by (simp del: fun_upd_apply)
next
  case (Inr i ops)
  from Inr.IH [OF cis_registry.inv_remove [OF Inr.prems(1)], of i] Inr.prems(2) show ?case
    unfolding cis_registry.as_map_remove [OF Inr.prems(1)] by (simp add: split_beta del: fun_upd_apply)
qed simp

theorem cis_list_finite_map:
  assumes "fresh_history idf Map.empty ops"
  shows "cis_list_ok idf (fst (cis_list_history idf [] ops)) \<and>
    cis_list_find idf (fst (cis_list_history idf [] ops)) = map_history idf Map.empty ops"
  using fresh_history_run [of idf "[]" ops] assms cis_registry.as_map_empty [of idf]
  by (simp add: cis_registry.as_map_def)

text \<open>\<open>cis_list_remove\<close> unlinks exactly the node with the given identifier, reports it, and
  keeps every other node in its place.\<close>

theorem cis_list_remove_exact:
  assumes "cis_list_ok idf xs"
  shows "cis_list_remove idf xs i = (filter (\<lambda>x. idf x \<noteq> i) xs, cis_list_find idf xs i)"
  using assms by (rule cis_list_remove_filter)

text \<open>\<open>cis_list_newId\<close> returns the lowest unused identifier of a sorted list.\<close>

theorem cis_list_newId_lowest:
  assumes "cis_list_ok idf xs" and "length xs < 2 ^ 32"
  shows "cis_list_newId idf xs \<notin> idf ` set xs \<and> (\<forall>j < cis_list_newId idf xs. j \<in> idf ` set xs)"
  using newId_loop [of idf xs 0] assms by (auto simp: cis_list_newId_def)

text \<open>\<open>cis_list_free\<close> frees every node exactly once and nothing else.\<close>

theorem cis_list_free_exact:
  assumes "cis_list_ok idf xs" and "set xs \<subseteq> heap"
  shows "cis_list_free heap xs = Some (heap - set xs)"
  using assms by (intro cis_list_free_all) (auto dest: cis_list_ok_distinct simp: distinct_map)

end
