(* ===== verification/Edp_Buffer.thy ===== *)
theory Edp_Buffer
  imports Prelude
begin

text \<open>
  \<open>EdpKit.c\<close>, first half: the growable byte buffer of the EDP kit and its primitive readers
  and writers. A \<open>Buffer\<close> is a record; \<open>buf_data\<close> is the heap block \<open>_data\<close> points to, so its
  length is the size of that block. A \<open>float\<close> is its IEEE-754 bit pattern.

  Allocation is a parameter: \<open>mal n\<close> is \<open>None\<close> when \<open>malloc(n)\<close> returns \<open>NULL\<close> and otherwise
  the (unspecified) initial contents of the new block. A reader returns the C return code in
  \<open>Inl\<close> when it fails and the value stored through its out-parameter in \<open>Inr\<close> when it
  returns 0.
\<close>

section \<open>State\<close>

record edp_buffer =
  buf_data :: bytes
  buf_write_pos :: u32
  buf_read_pos :: u32
  buf_capacity :: u32


text \<open>A C string is the list of its characters before the terminating zero.\<close>

type_synonym cstring = bytes

abbreviation BUFFER_SIZE :: u32 where "BUFFER_SIZE \<equiv> 10240"

definition NewBuffer :: "allocator \<Rightarrow> edp_buffer option" where
  "NewBuffer mal =
     (case mal 16 of
        None \<Rightarrow> None
      | Some _ \<Rightarrow>
          (case mal BUFFER_SIZE of
             None \<Rightarrow> None
           | Some d \<Rightarrow> Some \<lparr>buf_data = d, buf_write_pos = 0, buf_read_pos = 0,
                             buf_capacity = BUFFER_SIZE\<rparr>))"

text \<open>The pointer variable after \<open>DeleteBuffer\<close>; a null pointer is dereferenced.\<close>

definition DeleteBuffer :: "edp_buffer option \<Rightarrow> edp_buffer option option" where
  "DeleteBuffer buf = (case buf of None \<Rightarrow> None | Some _ \<Rightarrow> Some None)"

section \<open>Capacity\<close>

function CheckCapacity_loop :: "u32 \<Rightarrow> u32 \<Rightarrow> nat \<Rightarrow> u32 \<Rightarrow> nat \<times> u32" where
  "CheckCapacity_loop wpos len flag cap_len =
     (if cap_len - wpos < len
      then (let cap_len' = push_bit 1 cap_len; flag' = Suc flag in
            if flag' > 32 then (flag', cap_len')
            else CheckCapacity_loop wpos len flag' cap_len')
      else (flag, cap_len))"
  by pat_completeness auto
termination
  by (relation "measure (\<lambda>(w, l, flag, c). 33 - flag)") auto

declare CheckCapacity_loop.simps [simp del]

definition CheckCapacity :: "allocator \<Rightarrow> edp_buffer \<Rightarrow> u32 \<Rightarrow> (int \<times> edp_buffer) option" where
  "CheckCapacity mal buf len =
     (let (flag, cap_len) = CheckCapacity_loop (buf_write_pos buf) len 0 (buf_capacity buf) in
      if flag > 32 then Some (-1, buf)
      else if buf_capacity buf < cap_len
      then (case mal cap_len of
              None \<Rightarrow> None
            | Some pdata \<Rightarrow> do {
                old \<leftarrow> aslice (buf_data buf) 0 (unat (buf_write_pos buf));
                pdata' \<leftarrow> ablit pdata 0 old;
                Some (0, buf\<lparr>buf_data := pdata', buf_capacity := cap_len\<rparr>) })
      else Some (0, buf))"

section \<open>Readers\<close>

definition ReadByte :: "edp_buffer \<Rightarrow> ((int + u8) \<times> edp_buffer) option" where
  "ReadByte pkg =
     (if buf_write_pos pkg < buf_read_pos pkg + 1 then Some (Inl (-1), pkg)
      else do {
        v \<leftarrow> aload (buf_data pkg) (unat (buf_read_pos pkg));
        Some (Inr v, pkg\<lparr>buf_read_pos := buf_read_pos pkg + 1\<rparr>) })"

definition ReadBytes :: "allocator \<Rightarrow> edp_buffer \<Rightarrow> u32 \<Rightarrow> ((int + bytes) \<times> edp_buffer) option" where
  "ReadBytes mal pkg count =
     (if buf_write_pos pkg < buf_read_pos pkg + count then Some (Inl (-1), pkg)
      else (case mal count of
              None \<Rightarrow> Some (Inl (-1), pkg)
            | Some val \<Rightarrow> do {
                src \<leftarrow> aslice (buf_data pkg) (unat (buf_read_pos pkg)) (unat count);
                val' \<leftarrow> ablit val 0 src;
                Some (Inr val', pkg\<lparr>buf_read_pos := buf_read_pos pkg + count\<rparr>) }))"

definition ReadUint16 :: "edp_buffer \<Rightarrow> ((int + u16) \<times> edp_buffer) option" where
  "ReadUint16 pkg =
     (if buf_write_pos pkg < buf_read_pos pkg + 2 then Some (Inl (-1), pkg)
      else do {
        msb \<leftarrow> aload (buf_data pkg) (unat (buf_read_pos pkg));
        lsb \<leftarrow> aload (buf_data pkg) (unat (buf_read_pos pkg + 1));
        Some (Inr (push_bit 8 (ucast msb) + ucast lsb),
              pkg\<lparr>buf_read_pos := buf_read_pos pkg + 1 + 1\<rparr>) })"

text \<open>The four rounds of the loop of \<open>ReadUint32\<close>.\<close>

fun ReadUint32_loop :: "nat \<Rightarrow> u32 \<Rightarrow> edp_buffer \<Rightarrow> (u32 \<times> edp_buffer) option" where
  "ReadUint32_loop 0 tmpval pkg = Some (tmpval, pkg)"
| "ReadUint32_loop (Suc n) tmpval pkg = do {
     v \<leftarrow> aload (buf_data pkg) (unat (buf_read_pos pkg));
     ReadUint32_loop n (push_bit 8 tmpval OR ucast v)
       (pkg\<lparr>buf_read_pos := buf_read_pos pkg + 1\<rparr>) }"

definition ReadUint32 :: "edp_buffer \<Rightarrow> ((int + u32) \<times> edp_buffer) option" where
  "ReadUint32 pkg =
     (if buf_write_pos pkg < buf_read_pos pkg + 4 then Some (Inl (-1), pkg)
      else do {
        (v, pkg') \<leftarrow> ReadUint32_loop 4 0 pkg;
        Some (Inr v, pkg') })"

text \<open>
  \<open>memcpy(val, ..., sizeof(float))\<close> on the little-endian target. The out-parameter is zeroed
  first, so it is the result on failure too.
\<close>

definition le32_word :: "bytes \<Rightarrow> u32" where
  "le32_word bs = foldr (\<lambda>b acc. push_bit 8 acc OR ucast b) bs 0"

definition ReadFloat :: "edp_buffer \<Rightarrow> (int \<times> u32 \<times> edp_buffer) option" where
  "ReadFloat pkg =
     (if buf_write_pos pkg < buf_read_pos pkg + 4 then Some (-1, 0, pkg)
      else do {
        src \<leftarrow> aslice (buf_data pkg) (unat (buf_read_pos pkg)) 4;
        Some (0, le32_word src, pkg\<lparr>buf_read_pos := buf_read_pos pkg + 4\<rparr>) })"

text \<open>
  \<open>ReadStr\<close>: the allocation is not checked before \<open>memset\<close>; \<open>strncpy\<close> stops at a zero byte,
  so the string the caller sees ends there, while \<open>_read_pos\<close> passes the whole field.
\<close>

definition ReadStr :: "allocator \<Rightarrow> edp_buffer \<Rightarrow> ((int + cstring) \<times> edp_buffer) option" where
  "ReadStr mal pkg = do {
     (r, pkg) \<leftarrow> ReadUint16 pkg;
     (case r of
        Inl rc \<Rightarrow> Some (Inl rc, pkg)
      | Inr len \<Rightarrow>
          if buf_write_pos pkg < buf_read_pos pkg + ucast len then Some (Inl (-1), pkg)
          else (case mal (ucast len + 1) of
                  None \<Rightarrow> None
                | Some _ \<Rightarrow> do {
                    src \<leftarrow> aslice (buf_data pkg) (unat (buf_read_pos pkg)) (unat len);
                    Some (Inr (takeWhile (\<lambda>c. c \<noteq> 0) src),
                          pkg\<lparr>buf_read_pos := buf_read_pos pkg + ucast len\<rparr>) })) }"

record DataTime =
  dt_year :: u16
  dt_month :: u8
  dt_day :: u8
  dt_hour :: u8
  dt_minute :: u8
  dt_second :: u8

definition DataTime_zero :: DataTime where
  "DataTime_zero = \<lparr>dt_year = 0, dt_month = 0, dt_day = 0, dt_hour = 0, dt_minute = 0,
                    dt_second = 0\<rparr>"

text \<open>
  One \<open>if (ReadByte(pkg, &data_time) || <bad data_time>) return -1; val-><field> = data_time\<close>
  of \<open>ReadDataTime\<close>: \<open>set\<close> stores the field.
\<close>

definition read_time_field ::
  "(u8 \<Rightarrow> bool) \<Rightarrow> (u8 \<Rightarrow> DataTime \<Rightarrow> DataTime) \<Rightarrow> (int \<times> DataTime \<times> edp_buffer)
   \<Rightarrow> (int \<times> DataTime \<times> edp_buffer) option" where
  "read_time_field bad upd s =
     (case s of (rc, val, pkg) \<Rightarrow>
        if rc \<noteq> 0 then Some s
        else do {
          (r, pkg) \<leftarrow> ReadByte pkg;
          (case r of
             Inl _ \<Rightarrow> Some (-1, val, pkg)
           | Inr v \<Rightarrow> if bad v then Some (-1, val, pkg) else Some (0, upd v val, pkg)) })"

definition ReadDataTime ::
  "edp_buffer \<Rightarrow> DataTime option \<Rightarrow> (int \<times> DataTime option \<times> edp_buffer) option" where
  "ReadDataTime pkg val =
     (case val of
        None \<Rightarrow> Some (-1, None, pkg)
      | Some _ \<Rightarrow>
          if buf_write_pos pkg \<le> buf_read_pos pkg + 6 then Some (-1, Some DataTime_zero, pkg)
          else do {
            six \<leftarrow> aslice (buf_data pkg) (unat (buf_read_pos pkg)) 6;
            if six = replicate 6 0
            then Some (0, Some DataTime_zero, pkg\<lparr>buf_read_pos := buf_read_pos pkg + 6\<rparr>)
            else do {
              s \<leftarrow> read_time_field (\<lambda>v. v \<le> 0) (\<lambda>v t. t\<lparr>dt_year := 2000 + ucast v\<rparr>)
                     (0, DataTime_zero, pkg);
              s \<leftarrow> read_time_field (\<lambda>v. v < 1 \<or> 12 < v) (\<lambda>v t. t\<lparr>dt_month := v\<rparr>) s;
              s \<leftarrow> read_time_field (\<lambda>v. v < 1 \<or> 31 < v) (\<lambda>v t. t\<lparr>dt_day := v\<rparr>) s;
              s \<leftarrow> read_time_field (\<lambda>v. 23 < v) (\<lambda>v t. t\<lparr>dt_hour := v\<rparr>) s;
              s \<leftarrow> read_time_field (\<lambda>v. 59 < v) (\<lambda>v t. t\<lparr>dt_minute := v\<rparr>) s;
              s \<leftarrow> read_time_field (\<lambda>v. 59 < v) (\<lambda>v t. t\<lparr>dt_second := v\<rparr>) s;
              Some (case s of (rc, t, pkg) \<Rightarrow> (rc, Some t, pkg)) } })"

function ReadRemainlen_loop ::
  "u32 \<Rightarrow> nat \<Rightarrow> u32 \<Rightarrow> edp_buffer \<Rightarrow> ((int + u32) \<times> edp_buffer) option" where
  "ReadRemainlen_loop multiplier len_len len_val pkg =
     (case ReadByte pkg of
        None \<Rightarrow> None
      | Some (Inl rc, pkg') \<Rightarrow> Some (Inl rc, pkg')
      | Some (Inr onebyte, pkg') \<Rightarrow>
          (let len_val' = len_val + ucast (onebyte AND 0x7f) * multiplier;
               len_len' = Suc len_len
           in if len_len' > 4 then Some (Inl (-1), pkg')
              else if onebyte AND 0x80 \<noteq> 0
              then ReadRemainlen_loop (multiplier * 0x80) len_len' len_val' pkg'
              else Some (Inr len_val', pkg')))"
  by pat_completeness auto
termination
  by (relation "measure (\<lambda>(m, len_len, v, p). 5 - len_len)") auto

declare ReadRemainlen_loop.simps [simp del]

definition ReadRemainlen :: "edp_buffer \<Rightarrow> ((int + u32) \<times> edp_buffer) option" where
  "ReadRemainlen pkg = ReadRemainlen_loop 1 0 0 pkg"

section \<open>Writers\<close>

definition WriteByte :: "allocator \<Rightarrow> edp_buffer \<Rightarrow> u8 \<Rightarrow> (int \<times> edp_buffer) option" where
  "WriteByte mal buf byte =
     (if buf_read_pos buf \<noteq> 0 then None
      else do {
        (rc, buf) \<leftarrow> CheckCapacity mal buf 1;
        if rc \<noteq> 0 then Some (-1, buf)
        else do {
          d \<leftarrow> astore (buf_data buf) (unat (buf_write_pos buf)) byte;
          Some (0, buf\<lparr>buf_data := d, buf_write_pos := buf_write_pos buf + 1\<rparr>) } })"

definition WriteBytes :: "allocator \<Rightarrow> edp_buffer \<Rightarrow> bytes \<Rightarrow> u32 \<Rightarrow> (int \<times> edp_buffer) option" where
  "WriteBytes mal buf bs count =
     (if buf_read_pos buf \<noteq> 0 then None
      else do {
        (rc, buf) \<leftarrow> CheckCapacity mal buf count;
        if rc \<noteq> 0 then Some (-1, buf)
        else do {
          src \<leftarrow> aslice bs 0 (unat count);
          d \<leftarrow> ablit (buf_data buf) (unat (buf_write_pos buf)) src;
          Some (0, buf\<lparr>buf_data := d, buf_write_pos := buf_write_pos buf + count\<rparr>) } })"

text \<open>C's \<open>f || g\<close> on return codes: \<open>g\<close> runs only when \<open>f\<close> returned 0.\<close>

definition c_or ::
  "(edp_buffer \<Rightarrow> (int \<times> edp_buffer) option) \<Rightarrow> (edp_buffer \<Rightarrow> (int \<times> edp_buffer) option)
   \<Rightarrow> edp_buffer \<Rightarrow> (int \<times> edp_buffer) option" where
  "c_or f g buf = do {
     (rc, buf) \<leftarrow> f buf;
     if rc \<noteq> 0 then Some (1, buf)
     else do {
       (rc, buf) \<leftarrow> g buf;
       Some (if rc \<noteq> 0 then 1 else 0, buf) } }"

definition WriteUint16 :: "allocator \<Rightarrow> edp_buffer \<Rightarrow> u16 \<Rightarrow> (int \<times> edp_buffer) option" where
  "WriteUint16 mal buf val =
     (if buf_read_pos buf \<noteq> 0 then None
      else c_or (\<lambda>b. WriteByte mal b (ucast (drop_bit 8 (val AND 0xFF00))))
                (\<lambda>b. WriteByte mal b (ucast (val AND 0x00FF))) buf)"

definition WriteUint32 :: "allocator \<Rightarrow> edp_buffer \<Rightarrow> u32 \<Rightarrow> (int \<times> edp_buffer) option" where
  "WriteUint32 mal buf val =
     (if buf_read_pos buf \<noteq> 0 then None
      else c_or (c_or (c_or
             (\<lambda>b. WriteByte mal b (ucast (drop_bit 24 val AND 0x00FF)))
             (\<lambda>b. WriteByte mal b (ucast (drop_bit 16 val AND 0x00FF))))
             (\<lambda>b. WriteByte mal b (ucast (drop_bit 8 val AND 0x00FF))))
             (\<lambda>b. WriteByte mal b (ucast (val AND 0x00FF))) buf)"

definition le32_bytes :: "u32 \<Rightarrow> bytes" where
  "le32_bytes v = [ucast v, ucast (drop_bit 8 v), ucast (drop_bit 16 v), ucast (drop_bit 24 v)]"

definition WriteFloat :: "allocator \<Rightarrow> edp_buffer \<Rightarrow> u32 \<Rightarrow> (int \<times> edp_buffer) option" where
  "WriteFloat mal buf val =
     (if buf_read_pos buf \<noteq> 0 then None
      else do {
        (rc, buf) \<leftarrow> CheckCapacity mal buf 4;
        if rc \<noteq> 0 then Some (-1, buf)
        else WriteBytes mal buf (le32_bytes val) 4 })"

text \<open>\<open>length\<close> is a \<open>uint16\<close>: the length of a longer string is truncated.\<close>

definition WriteStr :: "allocator \<Rightarrow> edp_buffer \<Rightarrow> cstring \<Rightarrow> (int \<times> edp_buffer) option" where
  "WriteStr mal buf str =
     (if buf_read_pos buf \<noteq> 0 then None
      else (let len = (of_nat (length str) :: u16) in
            c_or (\<lambda>b. WriteUint16 mal b len)
                 (\<lambda>b. WriteBytes mal b str (ucast len)) buf))"

text \<open>\<open>WriteRemainlen\<close> stores without checking the capacity, and asserts at most four digits.\<close>

function WriteRemainlen_loop :: "u32 \<Rightarrow> nat \<Rightarrow> edp_buffer \<Rightarrow> (nat \<times> edp_buffer) option" where
  "WriteRemainlen_loop remaining_length remaining_count buf =
     (let byte = ucast (remaining_length mod 128) :: u8;
          rest = remaining_length div 128;
          byte = (if rest > 0 then byte OR 0x80 else byte);
          count = Suc remaining_count
      in case astore (buf_data buf) (unat (buf_write_pos buf)) byte of
           None \<Rightarrow> None
         | Some d \<Rightarrow>
             (let buf = buf\<lparr>buf_data := d, buf_write_pos := buf_write_pos buf + 1\<rparr>
              in if rest > 0 \<and> count < 5 then WriteRemainlen_loop rest count buf
                 else Some (count, buf)))"
  by pat_completeness auto
termination
  by (relation "measure (\<lambda>(l, c, b). 5 - c)") auto

declare WriteRemainlen_loop.simps [simp del]

definition WriteRemainlen :: "edp_buffer \<Rightarrow> u32 \<Rightarrow> (int \<times> edp_buffer) option" where
  "WriteRemainlen buf len_val =
     (if buf_read_pos buf \<noteq> 0 then None
      else do {
        (remaining_count, buf) \<leftarrow> WriteRemainlen_loop len_val 0 buf;
        if remaining_count = 5 then None else Some (0, buf) })"

end
