(* ===== verification/Edp_Buffer_Laws.thy ===== *)
theory Edp_Buffer_Laws
  imports Edp_Buffer
begin

text \<open>
  What the EDP buffer promises its users. The abstract view of a buffer is its content (the
  bytes written) and its unread part; every writer appends to the content and every reader
  takes its value off the unread part, or fails and says so. The byte encodings are
  interpretations of \<open>prefix_codec\<close>.
\<close>

section \<open>Abstraction and invariant\<close>

definition buf_content :: "edp_buffer \<Rightarrow> bytes" where
  "buf_content b = take (unat (buf_write_pos b)) (buf_data b)"

definition buf_unread :: "edp_buffer \<Rightarrow> bytes" where
  "buf_unread b = drop (unat (buf_read_pos b)) (buf_content b)"

definition buf_ok :: "edp_buffer \<Rightarrow> bool" where
  "buf_ok b \<longleftrightarrow>
     length (buf_data b) = unat (buf_capacity b) \<and>
     buf_read_pos b \<le> buf_write_pos b \<and> buf_write_pos b \<le> buf_capacity b \<and>
     unat (buf_write_pos b) < 2 ^ 31"

text \<open>A buffer under construction that holds exactly \<open>bs\<close>.\<close>

definition holds :: "edp_buffer \<Rightarrow> bytes \<Rightarrow> bool" where
  "holds b bs \<longleftrightarrow>
     buf_ok b \<and> buf_read_pos b = 0 \<and> BUFFER_SIZE \<le> buf_capacity b \<and> buf_content b = bs"

lemma holds_length: "holds b bs \<Longrightarrow> unat (buf_write_pos b) = length bs"
  by (auto simp: holds_def buf_ok_def buf_content_def word_le_nat_alt)

lemma holds_capacity: "holds b bs \<Longrightarrow> 10240 \<le> length (buf_data b)"
  by (auto simp: holds_def buf_ok_def word_le_nat_alt)

lemma NewBuffer_holds:
  assumes "alloc_ok mal"
  obtains b where "NewBuffer mal = Some b" and "holds b []"
proof -
  obtain d where "mal 16 = Some d" using assms by (rule alloc_okE [where n = 16]) auto
  moreover obtain e where "mal BUFFER_SIZE = Some e" and "length e = unat BUFFER_SIZE"
    using assms by (rule alloc_okE [where n = BUFFER_SIZE]) auto
  ultimately show ?thesis
    by (intro that) (auto simp: NewBuffer_def holds_def buf_ok_def buf_content_def)
qed

section \<open>Capacity\<close>

lemma unat_double: "unat (c :: u32) < 2 ^ 31 \<Longrightarrow> unat (push_bit 1 c) = 2 * unat c"
  by (simp add: push_bit_eq_mult unat_word_ariths)

lemma CheckCapacity_loop_enough:
  assumes "unat wpos \<le> unat cap" and "2 ^ flag \<le> unat cap" and "flag \<le> 32"
    and "unat wpos + unat len < 2 ^ 30"
  shows "\<exists>flag' cap'. CheckCapacity_loop wpos len flag cap = (flag', cap') \<and> flag' \<le> 32 \<and>
           unat cap \<le> unat cap' \<and> unat wpos + unat len \<le> unat cap' \<and>
           (cap' = cap \<or> unat cap' < 2 * (unat wpos + unat len))"
  using assms
proof (induction wpos len flag cap rule: CheckCapacity_loop.induct)
  case (1 wpos len flag cap)
  from "1.prems"(1) have le: "wpos \<le> cap" by (simp add: word_le_nat_alt)
  show ?case
  proof (cases "cap - wpos < len")
    case False
    with le "1.prems"(1) have "unat wpos + unat len \<le> unat cap"
      by (simp add: word_less_nat_alt unat_sub_id not_less)
    with False "1.prems"(3) show ?thesis by (simp add: CheckCapacity_loop.simps [of wpos len flag cap])
  next
    case True
    with le "1.prems"(1) have lt: "unat cap < unat wpos + unat len"
      by (simp add: word_less_nat_alt unat_sub_id)
    with "1.prems"(4) have small: "unat cap < 2 ^ 31" by simp
    then have dbl: "unat (push_bit 1 cap) = 2 * unat cap" by (rule unat_double)
    from "1.prems"(2) small have "(2::nat) ^ flag < 2 ^ 31" by linarith
    then have flag: "flag < 31" using power_less_imp_less_exp [of "2::nat" flag 31] by simp
    have "\<exists>flag' cap'. CheckCapacity_loop wpos len (Suc flag) (push_bit 1 cap) = (flag', cap') \<and>
        flag' \<le> 32 \<and> unat (push_bit 1 cap) \<le> unat cap' \<and> unat wpos + unat len \<le> unat cap' \<and>
        (cap' = push_bit 1 cap \<or> unat cap' < 2 * (unat wpos + unat len))"
      using flag "1.prems" dbl by (intro "1.IH" [OF True refl refl]) auto
    with True flag dbl lt show ?thesis
      by (auto simp: CheckCapacity_loop.simps [of wpos len flag cap] Let_def)
  qed
qed

text \<open>
  Growth keeps the content and makes room; the write position is unchanged.
\<close>

lemma CheckCapacity_holds:
  assumes "alloc_ok mal" and "holds b bs" and "length bs + unat len < 2 ^ 30"
  shows "yields (CheckCapacity mal b len)
           (\<lambda>(rc, b'). rc = 0 \<and> holds b' bs \<and> length bs + unat len \<le> length (buf_data b'))"
proof -
  note hl = holds_length [OF assms(2)]
  from assms(2) have ok: "buf_ok b" "BUFFER_SIZE \<le> buf_capacity b" by (auto simp: holds_def)
  then have "(2::nat) ^ 0 \<le> unat (buf_capacity b)" by (simp add: word_le_nat_alt)
  with CheckCapacity_loop_enough [of "buf_write_pos b" "buf_capacity b" 0 len] ok(1) assms(3) hl
  obtain flag' cap' where loop:
    "CheckCapacity_loop (buf_write_pos b) len 0 (buf_capacity b) = (flag', cap')"
    "flag' \<le> 32" "unat (buf_capacity b) \<le> unat cap'" "length bs + unat len \<le> unat cap'"
    "cap' = buf_capacity b \<or> unat cap' < 2 * (length bs + unat len)"
    by (auto simp: buf_ok_def word_le_nat_alt)
  show ?thesis
  proof (cases "buf_capacity b < cap'")
    case False
    with loop have "cap' = buf_capacity b" by (simp add: word_less_nat_alt word_unat_eq_iff)
    with loop ok assms(2) show ?thesis
      by (auto simp: CheckCapacity_def buf_ok_def)
  next
    case True
    with loop(5) assms(3) have "unat cap' < 2 ^ 31" by auto
    with assms(1) obtain d where "mal cap' = Some d" and "length d = unat cap'" by (rule alloc_okE)
    with True loop ok hl assms(2) show ?thesis
      by (auto simp: CheckCapacity_def holds_def buf_ok_def buf_content_def word_le_nat_alt)
  qed
qed

section \<open>Writers append\<close>

lemma store_holds:
  assumes "holds b bs" and "length bs < length (buf_data b)" and "length bs + 1 < 2 ^ 30"
  shows "holds (b\<lparr>buf_data := (buf_data b)[unat (buf_write_pos b) := x],
                  buf_write_pos := buf_write_pos b + 1\<rparr>) (bs @ [x])"
proof -
  note hl = holds_length [OF assms(1)]
  from assms(3) hl have "unat (buf_write_pos b + 1) = Suc (length bs)"
    by (simp add: unat_word_ariths)
  with assms hl show ?thesis
    by (auto simp: holds_def buf_ok_def buf_content_def word_le_nat_alt take_list_update_Suc)
qed

lemma blit_holds:
  assumes "holds b bs" and "length bs + unat n \<le> length (buf_data b)"
    and "length bs + unat n < 2 ^ 30" and "length xs = unat n"
  shows "holds (b\<lparr>buf_data := take (unat (buf_write_pos b)) (buf_data b) @ xs @
                               drop (unat (buf_write_pos b) + unat n) (buf_data b),
                  buf_write_pos := buf_write_pos b + n\<rparr>) (bs @ xs)"
proof -
  note hl = holds_length [OF assms(1)]
  from assms(3) hl have "unat (buf_write_pos b + n) = length bs + unat n"
    by (simp add: unat_add_id)
  with assms hl show ?thesis
    by (auto simp: holds_def buf_ok_def buf_content_def word_le_nat_alt)
qed

lemma WriteByte_wp [wp]:
  assumes "alloc_ok mal" and "holds b bs" and "length bs + 1 < 2 ^ 30"
    and "\<And>b'. holds b' (bs @ [x]) \<Longrightarrow> Q (0, b')"
  shows "yields (WriteByte mal b x) Q"
proof -
  have "yields (CheckCapacity mal b 1)
      (\<lambda>(rc, b'). rc = 0 \<and> holds b' bs \<and> length bs + unat (1::u32) \<le> length (buf_data b'))"
    using assms(1-3) by (intro CheckCapacity_holds) auto
  then obtain b' where c: "CheckCapacity mal b 1 = Some (0, b')" and h: "holds b' bs"
    and r: "length bs < length (buf_data b')"
    by (auto elim: yieldsE)
  have "holds (b'\<lparr>buf_data := (buf_data b')[unat (buf_write_pos b') := x],
                  buf_write_pos := buf_write_pos b' + 1\<rparr>) (bs @ [x])"
    using h r assms(3) by (intro store_holds) auto
  moreover have "buf_read_pos b = 0" using assms(2) by (simp add: holds_def)
  ultimately show ?thesis
    using c r holds_length [OF h] assms(4) by (simp add: WriteByte_def)
qed

lemma WriteBytes_wp [wp]:
  assumes "alloc_ok mal" and "holds b bs" and "length bs + unat n < 2 ^ 30"
    and "unat n \<le> length xs"
    and "\<And>b'. holds b' (bs @ take (unat n) xs) \<Longrightarrow> Q (0, b')"
  shows "yields (WriteBytes mal b xs n) Q"
proof -
  have "yields (CheckCapacity mal b n)
      (\<lambda>(rc, b'). rc = 0 \<and> holds b' bs \<and> length bs + unat n \<le> length (buf_data b'))"
    using assms(1-3) by (intro CheckCapacity_holds) auto
  then obtain b' where c: "CheckCapacity mal b n = Some (0, b')" and h: "holds b' bs"
    and r: "length bs + unat n \<le> length (buf_data b')"
    by (auto elim: yieldsE)
  have "holds (b'\<lparr>buf_data := take (unat (buf_write_pos b')) (buf_data b') @ take (unat n) xs @
                     drop (unat (buf_write_pos b') + unat n) (buf_data b'),
                  buf_write_pos := buf_write_pos b' + n\<rparr>) (bs @ take (unat n) xs)"
    using h r assms(3,4) by (intro blit_holds) auto
  moreover have "buf_read_pos b = 0" using assms(2) by (simp add: holds_def)
  ultimately show ?thesis
    using c r holds_length [OF h] assms(4,5) by (simp add: WriteBytes_def min_absorb2)
qed

lemma c_or_wp [wp]:
  assumes "yields (f b) (\<lambda>(rc, b'). rc = 0 \<and> yields (g b') (\<lambda>(rc, b'). rc = 0 \<and> Q (0, b')))"
  shows "yields (c_or f g b) Q"
  using assms by (auto simp: c_or_def elim!: yieldsE)

lemma holds_read_pos: "holds b bs \<Longrightarrow> buf_read_pos b = 0"
  by (simp add: holds_def)

lemma WriteUint16_wp [wp]:
  assumes "alloc_ok mal" and "holds b bs" and "length bs + 2 < 2 ^ 30"
    and "\<And>b'. holds b' (bs @ be16 x) \<Longrightarrow> Q (0, b')"
  shows "yields (WriteUint16 mal b x) Q"
proof -
  have "ucast (drop_bit 8 (x AND 0xFF00)) = (ucast (drop_bit 8 x) :: u8)"
    "ucast (x AND 0xFF) = (ucast x :: u8)"
    by (auto intro!: bit_word_eqI simp: bit_simps bit_255)
  then show ?thesis using assms
    by (auto simp: WriteUint16_def holds_read_pos be16_def intro!: wp)
qed

lemma WriteUint32_wp [wp]:
  assumes "alloc_ok mal" and "holds b bs" and "length bs + 4 < 2 ^ 30"
    and "\<And>b'. holds b' (bs @ be32 x) \<Longrightarrow> Q (0, b')"
  shows "yields (WriteUint32 mal b x) Q"
proof -
  have "ucast (drop_bit 24 x AND 0xFF) = (ucast (drop_bit 24 x) :: u8)"
    "ucast (drop_bit 16 x AND 0xFF) = (ucast (drop_bit 16 x) :: u8)"
    "ucast (drop_bit 8 x AND 0xFF) = (ucast (drop_bit 8 x) :: u8)"
    "ucast (x AND 0xFF) = (ucast x :: u8)"
    by (auto intro!: bit_word_eqI simp: bit_simps bit_255)
  then show ?thesis using assms
    by (auto simp: WriteUint32_def holds_read_pos be32_def intro!: wp)
qed

lemma WriteFloat_wp [wp]:
  assumes "alloc_ok mal" and "holds b bs" and "length bs + 4 < 2 ^ 30"
    and "\<And>b'. holds b' (bs @ le32_bytes x) \<Longrightarrow> Q (0, b')"
  shows "yields (WriteFloat mal b x) Q"
proof -
  have "yields (CheckCapacity mal b 4)
      (\<lambda>(rc, b'). rc = 0 \<and> holds b' bs \<and> length bs + unat (4::u32) \<le> length (buf_data b'))"
    using assms(1-3) by (intro CheckCapacity_holds) auto
  with assms show ?thesis
    by (auto simp: WriteFloat_def holds_read_pos le32_bytes_def elim!: yieldsE intro!: wp)
qed

definition enc_str :: "cstring \<Rightarrow> bytes" where
  "enc_str s = be16 (of_nat (length s)) @ s"

lemma length_enc_str [simp]: "length (enc_str s) = 2 + length s"
  by (simp add: enc_str_def)

lemma WriteStr_wp [wp]:
  assumes "alloc_ok mal" and "holds b bs" and "length bs + 2 + length s < 2 ^ 30"
    and "length s < 2 ^ 16"
    and "\<And>b'. holds b' (bs @ enc_str s) \<Longrightarrow> Q (0, b')"
  shows "yields (WriteStr mal b s) Q"
proof -
  have "unat (ucast (of_nat (length s) :: u16) :: u32) = length s"
    using assms(4) by (simp add: unat_ucast_up)
  with assms show ?thesis
    by (auto simp: WriteStr_def Let_def holds_read_pos enc_str_def intro!: wp)
qed

text \<open>The remaining-length field: base 128, least significant digit first.\<close>

fun enc_remlen :: "nat \<Rightarrow> bytes" where
  "enc_remlen n =
     (if n < 128 then [of_nat n] else of_nat (n mod 128 + 128) # enc_remlen (n div 128))"

declare enc_remlen.simps [simp del]

lemma enc_remlen_small: "n < 128 \<Longrightarrow> enc_remlen n = [of_nat n]"
  by (simp add: enc_remlen.simps)

lemma enc_remlen_big:
  "128 \<le> n \<Longrightarrow> enc_remlen n = of_nat (n mod 128 + 128) # enc_remlen (n div 128)"
  by (subst enc_remlen.simps) simp

lemma length_enc_remlen: "n < 128 ^ k \<Longrightarrow> 0 < k \<Longrightarrow> length (enc_remlen n) \<le> k"
proof (induction n arbitrary: k rule: enc_remlen.induct)
  case (1 n)
  show ?case
  proof (cases "n < 128")
    case True
    with 1(3) show ?thesis by (simp add: enc_remlen_small)
  next
    case False
    with 1(2,3) obtain j where k: "k = Suc j" "0 < j" by (cases k; cases "k - 1") auto
    with 1(2) have "n div 128 < 128 ^ j" by (simp add: less_mult_imp_div_less)
    with 1(1) False k have "length (enc_remlen (n div 128)) \<le> j" by simp
    with False k show ?thesis by (simp add: enc_remlen_big)
  qed
qed

lemma remlen_digit:
  "ucast ((l::u32) mod 128) = (of_nat (unat l mod 128) :: u8)"
  "(of_nat (unat l mod 128) :: u8) OR 0x80 = of_nat (unat l mod 128) + 128"
proof -
  show a: "ucast (l mod 128) = (of_nat (unat l mod 128) :: u8)"
    using mod_less_divisor [of 128 "unat l"]
    by (simp add: word_unat_eq_iff unsigned_ucast_eq unat_mod unat_of_nat take_bit_nat_eq_self)
  have "ucast (l mod 128) OR 0x80 = ucast (l mod 128) + (0x80 :: u8)"
  proof (rule disjunctive_add [symmetric])
    fix n
    have "l mod 128 = take_bit 7 l" by (simp add: take_bit_eq_mod)
    then show "\<not> bit (ucast (l mod 128) :: u8) n \<or> \<not> bit (0x80 :: u8) n"
      using bit_exp_iff [of 7 n, where ?'a = u8] by (auto simp: bit_simps)
  qed
  then show "(of_nat (unat l mod 128) :: u8) OR 0x80 = of_nat (unat l mod 128) + 128"
    by (simp add: a)
qed

lemma WriteRemainlen_loop_holds:
  assumes "holds b bs" and "unat l < 128 ^ (4 - c)" and "c < 4" and "length bs + 4 - c \<le> 10240"
  shows "yields (WriteRemainlen_loop l c b)
           (\<lambda>(n, b'). n \<le> 4 \<and> holds b' (bs @ enc_remlen (unat l)))"
  using assms
proof (induction l c b arbitrary: bs rule: WriteRemainlen_loop.induct)
  case (1 l c b)
  note len = holds_length [OF "1.prems"(1)] and cap = holds_capacity [OF "1.prems"(1)]
  have room: "length bs < length (buf_data b)" "length bs + 1 < 2 ^ 30"
    using cap "1.prems"(3,4) by auto
  let ?b = "\<lambda>x. b\<lparr>buf_data := (buf_data b)[unat (buf_write_pos b) := x],
                   buf_write_pos := buf_write_pos b + 1\<rparr>"
  have h: "holds (?b x) (bs @ [x])" for x
    using "1.prems"(1) room by (rule store_holds)
  show ?case
  proof (cases "unat l < 128")
    case True
    then have "l div 128 = 0" by (simp add: word_unat_eq_iff unat_div)
    with True show ?thesis
      using h len room "1.prems"(3)
      by (simp add: WriteRemainlen_loop.simps [of l c b] enc_remlen_small remlen_digit)
  next
    case False
    have div: "unat (l div 128) = unat l div 128" by (simp add: unat_div)
    with False have pos: "0 < l div 128" by (simp add: word_less_nat_alt)
    have c: "c < 3"
    proof (rule ccontr)
      assume "\<not> c < 3"
      with "1.prems"(3) have "c = 3" by simp
      with "1.prems"(2) False show False by simp
    qed
    have "4 - c = Suc (4 - Suc c)" using c by simp
    with "1.prems"(2) have "unat l < 128 ^ (4 - Suc c) * 128" by (simp add: mult.commute)
    then have "unat (l div 128) < 128 ^ (4 - Suc c)"
      unfolding div by (rule less_mult_imp_div_less)
    moreover have "length (bs @ [x]) + 4 - Suc c \<le> 10240" for x
      using "1.prems"(4) c by simp
    ultimately have "yields (WriteRemainlen_loop (l div 128) (Suc c) (?b (ucast (l mod 128) OR 0x80)))
      (\<lambda>(n, b'). n \<le> 4 \<and> holds b' ((bs @ [ucast (l mod 128) OR 0x80]) @ enc_remlen (unat (l div 128))))"
      using h pos c len room by (intro "1.IH") auto
    with False pos c show ?thesis
      using len room div
      by (simp add: WriteRemainlen_loop.simps [of l c b] enc_remlen_big remlen_digit)
  qed
qed

lemma WriteRemainlen_wp:
  assumes "holds b bs" and "unat l < 2 ^ 28" and "length bs + 4 \<le> 10240"
    and "\<And>b'. holds b' (bs @ enc_remlen (unat l)) \<Longrightarrow> Q (0, b')"
  shows "yields (WriteRemainlen b l) Q"
proof -
  have "yields (WriteRemainlen_loop l 0 b)
      (\<lambda>(n, b'). n \<le> 4 \<and> holds b' (bs @ enc_remlen (unat l)))"
    using assms(1-3) by (intro WriteRemainlen_loop_holds) auto
  with assms(1,4) show ?thesis
    by (auto simp: WriteRemainlen_def holds_read_pos elim!: yieldsE)
qed

section \<open>Readers consume\<close>

text \<open>The byte-list decoders the readers implement.\<close>

fun dec_u8 :: "bytes \<Rightarrow> (u8 \<times> bytes) option" where
  "dec_u8 (b # r) = Some (b, r)"
| "dec_u8 [] = None"

fun dec_u16 :: "bytes \<Rightarrow> (u16 \<times> bytes) option" where
  "dec_u16 (m # l # r) = Some (push_bit 8 (ucast m) + ucast l, r)"
| "dec_u16 _ = None"

fun dec_u32 :: "bytes \<Rightarrow> (u32 \<times> bytes) option" where
  "dec_u32 (a # b # c # d # r) =
     Some (push_bit 8 (push_bit 8 (push_bit 8 (ucast a) OR ucast b) OR ucast c) OR ucast d, r)"
| "dec_u32 _ = None"

definition dec_bytes :: "nat \<Rightarrow> bytes \<Rightarrow> (bytes \<times> bytes) option" where
  "dec_bytes n bs = (if n \<le> length bs then Some (take n bs, drop n bs) else None)"

definition dec_str :: "bytes \<Rightarrow> (cstring \<times> bytes) option" where
  "dec_str bs =
     (case dec_u16 bs of
        None \<Rightarrow> None
      | Some (len, r) \<Rightarrow>
          (case dec_bytes (unat len) r of
             None \<Rightarrow> None
           | Some (s, r') \<Rightarrow> Some (takeWhile (\<lambda>c. c \<noteq> 0) s, r')))"

text \<open>At most \<open>k\<close> digits, as a number below \<open>128 ^ k\<close>.\<close>

fun dec_remlen :: "nat \<Rightarrow> bytes \<Rightarrow> (u32 \<times> bytes) option" where
  "dec_remlen 0 bs = None"
| "dec_remlen (Suc k) [] = None"
| "dec_remlen (Suc k) (b # r) =
     (if b AND 0x80 \<noteq> 0
      then (case dec_remlen k r of
              None \<Rightarrow> None
            | Some (v, r') \<Rightarrow> Some (ucast (b AND 0x7f) + 0x80 * v, r'))
      else Some (ucast (b AND 0x7f), r))"

text \<open>
  A reader implements a decoder: on a well-formed buffer it is defined, fails with
  code -1 where the decoder fails, and otherwise yields the decoded value and leaves the rest
  unread, keeping the content.
\<close>

definition implements ::
  "(edp_buffer \<Rightarrow> ((int + 'a) \<times> edp_buffer) option) \<Rightarrow> (bytes \<Rightarrow> ('a \<times> bytes) option) \<Rightarrow> bool" where
  "implements rd dec \<longleftrightarrow>
     (\<forall>b. buf_ok b \<longrightarrow>
        yields (rd b) (\<lambda>(r, b').
          buf_ok b' \<and> buf_content b' = buf_content b \<and>
          (case dec (buf_unread b) of
             None \<Rightarrow> r = Inl (-1)
           | Some (v, rest) \<Rightarrow> r = Inr v \<and> buf_unread b' = rest)))"

lemma implements_wp:
  assumes "implements rd dec" and "buf_ok b" and "dec (buf_unread b) = Some (v, rest)"
    and "\<And>b'. buf_ok b' \<Longrightarrow> buf_content b' = buf_content b \<Longrightarrow> buf_unread b' = rest \<Longrightarrow> Q (Inr v, b')"
  shows "yields (rd b) Q"
  using assms unfolding implements_def by (fastforce elim!: yieldsE)

lemma unread_length: "buf_ok b \<Longrightarrow>
    length (buf_unread b) = unat (buf_write_pos b) - unat (buf_read_pos b)"
  by (auto simp: buf_unread_def buf_content_def buf_ok_def word_le_nat_alt min_def)

text \<open>The bounds check of every reader, in terms of the unread part.\<close>

lemma read_check:
  assumes "buf_ok b" and "unat n < 2 ^ 31"
  shows "buf_write_pos b < buf_read_pos b + n \<longleftrightarrow> length (buf_unread b) < unat n"
proof -
  from assms have "unat (buf_read_pos b) \<le> unat (buf_write_pos b)" "unat (buf_write_pos b) < 2 ^ 31"
    by (auto simp: buf_ok_def word_le_nat_alt)
  with assms show ?thesis
    by (auto simp: unread_length word_less_nat_alt unat_add_id)
qed

text \<open>Moving the read position by \<open>n\<close> bytes that are there.\<close>

lemma advance:
  assumes "buf_ok b" and "unat n \<le> length (buf_unread b)"
  shows "buf_ok (b\<lparr>buf_read_pos := buf_read_pos b + n\<rparr>)"
    and "buf_content (b\<lparr>buf_read_pos := buf_read_pos b + n\<rparr>) = buf_content b"
    and "buf_unread (b\<lparr>buf_read_pos := buf_read_pos b + n\<rparr>) = drop (unat n) (buf_unread b)"
proof -
  from assms have "unat (buf_read_pos b) \<le> unat (buf_write_pos b)" "unat (buf_write_pos b) < 2 ^ 31"
    by (auto simp: buf_ok_def word_le_nat_alt)
  moreover from this assms have "unat (buf_read_pos b + n) = unat (buf_read_pos b) + unat n"
    by (simp add: unread_length unat_add_id)
  ultimately show "buf_ok (b\<lparr>buf_read_pos := buf_read_pos b + n\<rparr>)"
    and "buf_content (b\<lparr>buf_read_pos := buf_read_pos b + n\<rparr>) = buf_content b"
    and "buf_unread (b\<lparr>buf_read_pos := buf_read_pos b + n\<rparr>) = drop (unat n) (buf_unread b)"
    using assms
    by (auto simp: buf_ok_def buf_content_def buf_unread_def word_le_nat_alt unread_length
        add.commute)
qed

lemma unread_slice:
  assumes "buf_ok b" and "n \<le> length (buf_unread b)"
  shows "aslice (buf_data b) (unat (buf_read_pos b)) n = Some (take n (buf_unread b))"
proof -
  from assms have "unat (buf_read_pos b) + n \<le> unat (buf_write_pos b)"
    "unat (buf_write_pos b) \<le> length (buf_data b)"
    using unread_length [OF assms(1)] by (auto simp: buf_ok_def word_le_nat_alt)
  then show ?thesis
    by (simp add: buf_unread_def buf_content_def drop_take min_def)
qed

lemma unread_load:
  assumes "buf_ok b" and "i < length (buf_unread b)"
  shows "aload (buf_data b) (unat (buf_read_pos b) + i) = Some (buf_unread b ! i)"
proof -
  from assms have "unat (buf_read_pos b) + i < unat (buf_write_pos b)"
    "unat (buf_write_pos b) \<le> length (buf_data b)"
    using unread_length [OF assms(1)] by (auto simp: buf_ok_def word_le_nat_alt)
  then show ?thesis
    by (simp add: buf_unread_def buf_content_def)
qed

lemma ReadByte_implements: "implements ReadByte dec_u8"
  unfolding implements_def
proof (intro allI impI)
  fix b assume ok: "buf_ok b"
  show "yields (ReadByte b) (\<lambda>(r, b'). buf_ok b' \<and> buf_content b' = buf_content b \<and>
      (case dec_u8 (buf_unread b) of None \<Rightarrow> r = Inl (-1)
       | Some (v, rest) \<Rightarrow> r = Inr v \<and> buf_unread b' = rest))"
  proof (cases "buf_unread b")
    case Nil
    with ok show ?thesis by (auto simp: ReadByte_def read_check)
  next
    case (Cons x r)
    then show ?thesis
      using ok unread_load [OF ok, of 0] advance [OF ok, of 1]
      by (auto simp: ReadByte_def read_check)
  qed
qed

lemma ReadUint16_implements: "implements ReadUint16 dec_u16"
  unfolding implements_def
proof (intro allI impI)
  fix b assume ok: "buf_ok b"
  show "yields (ReadUint16 b) (\<lambda>(r, b'). buf_ok b' \<and> buf_content b' = buf_content b \<and>
      (case dec_u16 (buf_unread b) of None \<Rightarrow> r = Inl (-1)
       | Some (v, rest) \<Rightarrow> r = Inr v \<and> buf_unread b' = rest))"
  proof (cases "2 \<le> length (buf_unread b)")
    case False
    with ok show ?thesis
      by (cases "buf_unread b" rule: dec_u16.cases) (auto simp: ReadUint16_def read_check)
  next
    case True
    then obtain m l r where u: "buf_unread b = m # l # r"
      by (cases "buf_unread b" rule: dec_u16.cases) auto
    from ok True have "unat (buf_read_pos b) + unat (1::u32) < 2 ^ LENGTH(32)"
      using unread_length [OF ok] by (auto simp: buf_ok_def)
    then have "unat (buf_read_pos b + 1) = unat (buf_read_pos b) + 1"
      by (subst unat_add_id) auto
    then show ?thesis
      using ok u unread_load [OF ok, of 0] unread_load [OF ok, of 1] advance [OF ok, of 2]
      by (auto simp: ReadUint16_def read_check add.assoc)
  qed
qed

lemma ReadUint32_loop_implements:
  assumes "buf_ok b" and "n \<le> length (buf_unread b)"
  shows "yields (ReadUint32_loop n v b) (\<lambda>(v', b').
    buf_ok b' \<and> buf_content b' = buf_content b \<and>
    v' = foldl (\<lambda>acc x. push_bit 8 acc OR ucast x) v (take n (buf_unread b)) \<and>
    buf_unread b' = drop n (buf_unread b))"
  using assms
proof (induction n arbitrary: v b)
  case (Suc n)
  then obtain x r where u: "buf_unread b = x # r" by (cases "buf_unread b") auto
  let ?b = "b\<lparr>buf_read_pos := buf_read_pos b + 1\<rparr>"
  from Suc.prems u have adv: "buf_ok ?b" "buf_content ?b = buf_content b" "buf_unread ?b = r"
    using advance [of b 1] by auto
  moreover from Suc.prems u have "aload (buf_data b) (unat (buf_read_pos b)) = Some x"
    using unread_load [of b 0] by simp
  ultimately show ?case
    using Suc.IH [of ?b "push_bit 8 v OR ucast x"] Suc.prems u by simp
qed simp

lemma ReadUint32_implements: "implements ReadUint32 dec_u32"
  unfolding implements_def
proof (intro allI impI)
  fix b assume ok: "buf_ok b"
  show "yields (ReadUint32 b) (\<lambda>(r, b'). buf_ok b' \<and> buf_content b' = buf_content b \<and>
      (case dec_u32 (buf_unread b) of None \<Rightarrow> r = Inl (-1)
       | Some (v, rest) \<Rightarrow> r = Inr v \<and> buf_unread b' = rest))"
  proof (cases "4 \<le> length (buf_unread b)")
    case False
    with ok show ?thesis
      by (cases "buf_unread b" rule: dec_u32.cases) (auto simp: ReadUint32_def read_check)
  next
    case True
    then obtain w x y z r where u: "buf_unread b = w # x # y # z # r"
      by (cases "buf_unread b" rule: dec_u32.cases) auto
    from ReadUint32_loop_implements [OF ok True, of 0] obtain v b' where
      "ReadUint32_loop 4 0 b = Some (v, b')" "buf_ok b'" "buf_content b' = buf_content b"
      "v = foldl (\<lambda>acc x. push_bit 8 acc OR ucast x) 0 (take 4 (buf_unread b))"
      "buf_unread b' = drop 4 (buf_unread b)"
      by (auto elim!: yieldsE)
    with ok u show ?thesis
      by (simp add: ReadUint32_def read_check)
  qed
qed

lemma ReadBytes_implements:
  assumes "alloc_ok mal" and "unat n < 2 ^ 31"
  shows "implements (\<lambda>b. ReadBytes mal b n) (dec_bytes (unat n))"
  unfolding implements_def
proof (intro allI impI)
  fix b assume ok: "buf_ok b"
  obtain d where "mal n = Some d" "length d = unat n" using assms by (rule alloc_okE)
  then show "yields (ReadBytes mal b n) (\<lambda>(r, b'). buf_ok b' \<and> buf_content b' = buf_content b \<and>
      (case dec_bytes (unat n) (buf_unread b) of None \<Rightarrow> r = Inl (-1)
       | Some (v, rest) \<Rightarrow> r = Inr v \<and> buf_unread b' = rest))"
    using ok assms(2) unread_slice [OF ok] advance [OF ok]
    by (auto simp: ReadBytes_def dec_bytes_def read_check not_le not_less)
qed

text \<open>With a sane allocator any count is fine: an oversized one fails cleanly.\<close>

lemma ReadBytes_implements_sane:
  assumes "alloc_sane mal"
  shows "implements (\<lambda>b. ReadBytes mal b n) (dec_bytes (unat n))"
proof (cases "unat n < 2 ^ 31")
  case True
  with assms show ?thesis by (intro ReadBytes_implements) (auto simp: alloc_sane_def)
next
  case False
  with assms have "mal n = None" by (simp add: alloc_sane_def)
  moreover have "\<not> unat n \<le> length (buf_unread b)" if "buf_ok b" for b
    using that False unread_length [OF that] by (auto simp: buf_ok_def)
  ultimately show ?thesis
    by (auto simp: implements_def ReadBytes_def dec_bytes_def)
qed

lemma ReadStr_implements:
  assumes "alloc_ok mal"
  shows "implements (ReadStr mal) dec_str"
  unfolding implements_def
proof (intro allI impI)
  fix b assume "buf_ok b"
  then have "yields (ReadUint16 b) (\<lambda>(r, b'). buf_ok b' \<and> buf_content b' = buf_content b \<and>
      (case dec_u16 (buf_unread b) of None \<Rightarrow> r = Inl (-1)
       | Some (v, rest) \<Rightarrow> r = Inr v \<and> buf_unread b' = rest))"
    using ReadUint16_implements by (simp add: implements_def)
  then obtain r b' where rd: "ReadUint16 b = Some (r, b')" and ok: "buf_ok b'"
    and cont: "buf_content b' = buf_content b"
    and dec: "case dec_u16 (buf_unread b) of None \<Rightarrow> r = Inl (-1)
       | Some (v, rest) \<Rightarrow> r = Inr v \<and> buf_unread b' = rest"
    by (auto elim: yieldsE)
  show "yields (ReadStr mal b) (\<lambda>(r, b'). buf_ok b' \<and> buf_content b' = buf_content b \<and>
      (case dec_str (buf_unread b) of None \<Rightarrow> r = Inl (-1)
       | Some (v, rest) \<Rightarrow> r = Inr v \<and> buf_unread b' = rest))"
  proof (cases r)
    case (Inl rc)
    with rd ok cont dec show ?thesis
      by (auto simp: ReadStr_def dec_str_def split: option.splits)
  next
    case (Inr len)
    have "unat (ucast len + 1 :: u32) = unat len + 1"
      using unat_u16_less [of len] by (subst unat_add_id) (auto simp: unat_ucast_up simp del: unat_u16_less)
    then have "unat (ucast len + 1 :: u32) < 2 ^ 31"
      using unat_u16_less [of len] by (simp del: unat_u16_less)
    with assms obtain d where "mal (ucast len + 1) = Some d" by (rule alloc_okE)
    moreover have "unat (ucast len :: u32) = unat len" "unat len < 2 ^ 31"
      using unat_u16_less [of len] by (auto simp: unat_ucast_up simp del: unat_u16_less)
    ultimately show ?thesis
      using rd ok cont dec Inr unread_slice [OF ok] advance [OF ok, of "ucast len"]
      by (auto simp: ReadStr_def dec_str_def dec_bytes_def read_check not_le not_less
          split: option.splits)
  qed
qed

lemma ReadRemainlen_loop_implements:
  assumes "buf_ok b" and "len_len \<le> 4"
  shows "yields (ReadRemainlen_loop m len_len v b) (\<lambda>(r, b').
    buf_ok b' \<and> buf_content b' = buf_content b \<and>
    (case dec_remlen (4 - len_len) (buf_unread b) of
       None \<Rightarrow> r = Inl (-1)
     | Some (x, rest) \<Rightarrow> r = Inr (v + m * x) \<and> buf_unread b' = rest))"
  using assms
proof (induction m len_len v b rule: ReadRemainlen_loop.induct)
  case (1 m len_len v b)
  have "yields (ReadByte b) (\<lambda>(r, b'). buf_ok b' \<and> buf_content b' = buf_content b \<and>
      (case dec_u8 (buf_unread b) of None \<Rightarrow> r = Inl (-1)
       | Some (x, rest) \<Rightarrow> r = Inr x \<and> buf_unread b' = rest))"
    using ReadByte_implements "1.prems"(1) by (simp add: implements_def)
  then obtain r b' where rd: "ReadByte b = Some (r, b')" and ok: "buf_ok b'"
    and cont: "buf_content b' = buf_content b"
    and dec: "case dec_u8 (buf_unread b) of None \<Rightarrow> r = Inl (-1)
       | Some (x, rest) \<Rightarrow> r = Inr x \<and> buf_unread b' = rest"
    by (auto elim: yieldsE)
  show ?case
  proof (cases "buf_unread b")
    case Nil
    with dec have "r = Inl (-1)" by auto
    with rd ok cont Nil show ?thesis
      by (cases "4 - len_len") (simp_all add: ReadRemainlen_loop.simps [of m len_len v b])
  next
    case (Cons x rest)
    with dec have r: "r = Inr x" and rest: "buf_unread b' = rest" by auto
    show ?thesis
    proof (cases "len_len = 4")
      case True
      with rd ok cont r show ?thesis
        by (simp add: ReadRemainlen_loop.simps [of m 4 v b])
    next
      case False
      with "1.prems"(2) have k: "4 - len_len = Suc (4 - Suc len_len)" "\<not> 4 < Suc len_len" by auto
      show ?thesis
      proof (cases "x AND 0x80 \<noteq> 0")
        case True
        have "yields (ReadRemainlen_loop (m * 0x80) (Suc len_len) (v + ucast (x AND 0x7f) * m) b')
            (\<lambda>(r, b''). buf_ok b'' \<and> buf_content b'' = buf_content b' \<and>
              (case dec_remlen (4 - Suc len_len) (buf_unread b') of
                 None \<Rightarrow> r = Inl (-1)
               | Some (y, rest) \<Rightarrow>
                   r = Inr (v + ucast (x AND 0x7f) * m + m * 0x80 * y) \<and> buf_unread b'' = rest))"
          using k(2) True ok by (intro "1.IH" [OF rd _ r refl refl]) auto
        with rd ok cont r rest Cons k True show ?thesis
          by (auto simp: ReadRemainlen_loop.simps [of m len_len v b] algebra_simps
              elim!: yieldsE split: option.splits)
      next
        case False
        with rd ok cont r rest Cons k show ?thesis
          by (simp add: ReadRemainlen_loop.simps [of m len_len v b] mult.commute)
      qed
    qed
  qed
qed

lemma ReadRemainlen_implements: "implements ReadRemainlen (dec_remlen 4)"
  unfolding implements_def ReadRemainlen_def
proof (intro allI impI)
  fix b assume "buf_ok b"
  from ReadRemainlen_loop_implements [OF this, of 0 1 0]
  show "yields (ReadRemainlen_loop 1 0 0 b) (\<lambda>(r, b'). buf_ok b' \<and> buf_content b' = buf_content b \<and>
      (case dec_remlen 4 (buf_unread b) of None \<Rightarrow> r = Inl (-1)
       | Some (v, rest) \<Rightarrow> r = Inr v \<and> buf_unread b' = rest))"
    by (simp only: diff_zero add_0 mult_1 zero_le)
qed

lemma ReadByte_unread:
  assumes "buf_ok b" and "buf_unread b = x # r"
  obtains b' where "ReadByte b = Some (Inr x, b')" and "buf_ok b'"
    and "buf_content b' = buf_content b" and "buf_unread b' = r"
  using ReadByte_implements assms by (auto simp: implements_def elim!: yieldsE)

lemma ReadFloat_spec:
  assumes "buf_ok b"
  shows "yields (ReadFloat b) (\<lambda>(rc, v, b').
    buf_ok b' \<and> buf_content b' = buf_content b \<and>
    (if 4 \<le> length (buf_unread b)
     then rc = 0 \<and> v = le32_word (take 4 (buf_unread b)) \<and> buf_unread b' = drop 4 (buf_unread b)
     else rc = -1 \<and> v = 0 \<and> b' = b))"
  using assms unread_slice [OF assms, of 4] advance [OF assms, of 4]
  by (auto simp: ReadFloat_def read_check)

text \<open>
  The six time bytes. All zeros mean "no time"; otherwise every field is range-checked and the
  year byte must not be 0. At least one more byte has to follow.
\<close>

fun time_of_bytes :: "bytes \<Rightarrow> DataTime option" where
  "time_of_bytes [y, mo, d, h, mi, s] =
     (if y = 0 \<and> mo = 0 \<and> d = 0 \<and> h = 0 \<and> mi = 0 \<and> s = 0 then Some DataTime_zero
      else if 0 < y \<and> 1 \<le> mo \<and> mo \<le> 12 \<and> 1 \<le> d \<and> d \<le> 31 \<and> h \<le> 23 \<and> mi \<le> 59 \<and> s \<le> 59
      then Some \<lparr>dt_year = 2000 + ucast y, dt_month = mo, dt_day = d, dt_hour = h,
                 dt_minute = mi, dt_second = s\<rparr>
      else None)"
| "time_of_bytes _ = None"

definition dec_time :: "bytes \<Rightarrow> (DataTime \<times> bytes) option" where
  "dec_time bs =
     (if length bs \<le> 6 then None
      else (case time_of_bytes (take 6 bs) of None \<Rightarrow> None | Some t \<Rightarrow> Some (t, drop 6 bs)))"

lemma read_time_field_simps:
  "rc \<noteq> 0 \<Longrightarrow> read_time_field bad upd (rc, t, b) = Some (rc, t, b)"
  "ReadByte b = Some (Inr x, b') \<Longrightarrow> bad x \<Longrightarrow> read_time_field bad upd (0, t, b) = Some (-1, t, b')"
  "ReadByte b = Some (Inr x, b') \<Longrightarrow> \<not> bad x \<Longrightarrow> read_time_field bad upd (0, t, b) = Some (0, upd x t, b')"
  by (simp_all add: read_time_field_def)

lemma ReadDataTime_spec:
  assumes ok: "buf_ok b"
  shows "yields (ReadDataTime b (Some t0)) (\<lambda>(rc, t, b').
    buf_ok b' \<and> buf_content b' = buf_content b \<and>
    (case dec_time (buf_unread b) of
       None \<Rightarrow> rc = -1
     | Some (v, rest) \<Rightarrow> rc = 0 \<and> t = Some v \<and> buf_unread b' = rest))"
proof (cases "length (buf_unread b) \<le> 6")
  case True
  have "buf_write_pos b \<le> buf_read_pos b + 6 \<longleftrightarrow> length (buf_unread b) \<le> 6"
    using read_check [OF ok, of 7] ok unread_length [OF ok]
    by (auto simp: buf_ok_def word_le_nat_alt unat_add_id)
  with True ok show ?thesis by (simp add: ReadDataTime_def dec_time_def)
next
  case False
  then obtain y mo d h mi s r where u: "buf_unread b = y # mo # d # h # mi # s # r" "r \<noteq> []"
    by (auto simp: not_le Suc_le_eq [symmetric] numeral_eq_Suc Suc_le_length_iff)
  have chk: "\<not> buf_write_pos b \<le> buf_read_pos b + 6"
    using False ok unread_length [OF ok]
    by (auto simp: buf_ok_def word_le_nat_alt unat_add_id)
  have six: "aslice (buf_data b) (unat (buf_read_pos b)) 6 = Some [y, mo, d, h, mi, s]"
    using unread_slice [OF ok, of 6] u by simp
  have rep: "replicate 6 (0::u8) = [0, 0, 0, 0, 0, 0]" by (simp add: numeral_eq_Suc)
  have adv: "buf_ok (b\<lparr>buf_read_pos := buf_read_pos b + 6\<rparr>)"
    "buf_content (b\<lparr>buf_read_pos := buf_read_pos b + 6\<rparr>) = buf_content b"
    "buf_unread (b\<lparr>buf_read_pos := buf_read_pos b + 6\<rparr>) = r"
    using advance [OF ok, of 6] u by simp_all
  obtain b1 where 1: "ReadByte b = Some (Inr y, b1)" "buf_ok b1" "buf_content b1 = buf_content b"
    "buf_unread b1 = mo # d # h # mi # s # r" using ReadByte_unread [OF ok u(1)] by metis
  obtain b2 where 2: "ReadByte b1 = Some (Inr mo, b2)" "buf_ok b2" "buf_content b2 = buf_content b1"
    "buf_unread b2 = d # h # mi # s # r" using ReadByte_unread [OF 1(2,4)] by metis
  obtain b3 where 3: "ReadByte b2 = Some (Inr d, b3)" "buf_ok b3" "buf_content b3 = buf_content b2"
    "buf_unread b3 = h # mi # s # r" using ReadByte_unread [OF 2(2,4)] by metis
  obtain b4 where 4: "ReadByte b3 = Some (Inr h, b4)" "buf_ok b4" "buf_content b4 = buf_content b3"
    "buf_unread b4 = mi # s # r" using ReadByte_unread [OF 3(2,4)] by metis
  obtain b5 where 5: "ReadByte b4 = Some (Inr mi, b5)" "buf_ok b5" "buf_content b5 = buf_content b4"
    "buf_unread b5 = s # r" using ReadByte_unread [OF 4(2,4)] by metis
  obtain b6 where 6: "ReadByte b5 = Some (Inr s, b6)" "buf_ok b6" "buf_content b6 = buf_content b5"
    "buf_unread b6 = r" using ReadByte_unread [OF 5(2,4)] by metis
  show ?thesis
  proof (cases "[y, mo, d, h, mi, s] = replicate 6 0")
    case True
    with u adv chk six show ?thesis
      by (simp add: ReadDataTime_def dec_time_def rep)
  next
    case False
    then have nz: "\<not> (y = 0 \<and> mo = 0 \<and> d = 0 \<and> h = 0 \<and> mi = 0 \<and> s = 0)" by (simp add: rep)
    note facts = ReadDataTime_def dec_time_def rep chk six u(1) 1 2 3 4 5 6 read_time_field_simps
    consider "y \<le> 0" | "\<not> y \<le> 0" "mo < 1 \<or> 12 < mo" | "\<not> y \<le> 0" "\<not> (mo < 1 \<or> 12 < mo)" "d < 1 \<or> 31 < d"
      | "\<not> y \<le> 0" "\<not> (mo < 1 \<or> 12 < mo)" "\<not> (d < 1 \<or> 31 < d)" "23 < h"
      | "\<not> y \<le> 0" "\<not> (mo < 1 \<or> 12 < mo)" "\<not> (d < 1 \<or> 31 < d)" "\<not> 23 < h" "59 < mi"
      | "\<not> y \<le> 0" "\<not> (mo < 1 \<or> 12 < mo)" "\<not> (d < 1 \<or> 31 < d)" "\<not> 23 < h" "\<not> 59 < mi" "59 < s"
      | "\<not> y \<le> 0" "\<not> (mo < 1 \<or> 12 < mo)" "\<not> (d < 1 \<or> 31 < d)" "\<not> 23 < h" "\<not> 59 < mi" "\<not> 59 < s"
      by blast
    then show ?thesis
    proof cases
      case 1
      with nz u(2) show ?thesis by (auto simp: facts)
    next
      case 2
      with nz u(2) show ?thesis by (auto simp: facts)
    next
      case 3
      with nz u(2) show ?thesis by (auto simp: facts)
    next
      case 4
      with nz u(2) show ?thesis by (auto simp: facts not_le)
    next
      case 5
      with nz u(2) show ?thesis by (auto simp: facts not_le)
    next
      case 6
      with nz u(2) show ?thesis by (auto simp: facts not_le)
    next
      case 7
      with nz u(2) show ?thesis by (simp add: facts DataTime_zero_def not_le not_less)
    qed
  qed
qed

section \<open>The encodings as prefix codecs\<close>

lemma dec_u16_be16: "dec_u16 (be16 x @ rest) = Some (x, rest)"
  by (simp add: be16_def be16_join)

lemma dec_u32_be32: "dec_u32 (be32 x @ rest) = Some (x, rest)"
  by (simp only: be32_def append.simps dec_u32.simps be32_join)

lemma dec_bytes_append: "dec_bytes (length xs) (xs @ rest) = Some (xs, rest)"
  by (simp add: dec_bytes_def)

lemma dec_str_enc: "length s < 2 ^ 16 \<Longrightarrow> 0 \<notin> set s \<Longrightarrow> dec_str (enc_str s @ rest) = Some (s, rest)"
  by (auto simp: dec_str_def enc_str_def dec_u16_be16 dec_bytes_def takeWhile_eq_all_conv)

lemma remlen_byte:
  assumes "n < 128"
  shows "(of_nat n :: u8) AND 0x80 = 0" and "(of_nat n :: u8) AND 0x7f = of_nat n"
    and "(of_nat n + 128 :: u8) AND 0x80 \<noteq> 0" and "(of_nat n + 128 :: u8) AND 0x7f = of_nat n"
proof -
  define w where "w = (of_nat n :: u8)"
  have low: "take_bit 7 w = w"
    using assms by (simp add: w_def take_bit_eq_mod word_unat_eq_iff unat_mod unat_of_nat_mod)
  have b128: "bit (128 :: u8) k \<longleftrightarrow> k = 7" for k
    using bit_exp_iff [of 7 k, where ?'a = u8] by auto
  have "(of_nat n + 128 :: u8) = of_nat n OR 128"
    using remlen_digit(2) [of "of_nat n"] assms by (simp add: unat_of_nat_mod)
  then have or: "w + 128 = w OR 128" by (simp add: w_def)
  have lo: "\<not> bit w 7"
    by (subst low [symmetric]) (simp add: bit_take_bit_iff)
  have "w AND 0x80 = 0"
    by (rule bit_word_eqI) (use lo b128 in \<open>auto simp only: bit_and_iff bit_0_eq bot_apply bot_bool_def\<close>)
  then show "(of_nat n :: u8) AND 0x80 = 0" by (simp only: w_def)
  have seven: "w AND 0x7f = w"
    using low by (simp add: and_masks)
  then show "(of_nat n :: u8) AND 0x7f = of_nat n" by (simp only: w_def)
  have "bit ((w + 128) AND 0x80) 7"
    by (simp only: or bit_and_iff bit_or_iff b128) simp
  then have "(w + 128) AND 0x80 \<noteq> 0" by (metis bit_0_eq bot_apply bot_bool_def)
  then show "(of_nat n + 128 :: u8) AND 0x80 \<noteq> 0" by (simp only: w_def not_False_eq_True)
  have "(128 :: u8) AND 0x7f = 0" by simp
  then have "(w + 128) AND 0x7f = w"
    by (simp only: or bit.conj_disj_distrib2 seven) simp
  then show "(of_nat n + 128 :: u8) AND 0x7f = of_nat n" by (simp only: w_def)
qed

lemma dec_remlen_enc:
  "n < 128 ^ k \<Longrightarrow> 0 < k \<Longrightarrow> n < 2 ^ 32 \<Longrightarrow>
   dec_remlen k (enc_remlen n @ rest) = Some (of_nat n, rest)"
proof (induction n arbitrary: k rule: enc_remlen.induct)
  case (1 n)
  then obtain j where k: "k = Suc j" by (cases k) auto
  show ?case
  proof (cases "n < 128")
    case True
    then have "ucast (of_nat n :: u8) = (of_nat n :: u32)"
      by (simp add: word_unat_eq_iff unat_ucast_up)
    with True k remlen_byte(1,2) [OF True] show ?thesis
      by (simp add: enc_remlen_small)
  next
    case False
    with "1.prems" k have j: "0 < j" "n div 128 < 128 ^ j"
      by (cases j; simp add: less_mult_imp_div_less)+
    have m: "n mod 128 < 128" by simp
    have "dec_remlen j (enc_remlen (n div 128) @ rest) = Some (of_nat (n div 128), rest)"
      using "1.IH" [OF False, of j] j "1.prems"(3) by simp
    moreover have "ucast (of_nat (n mod 128) :: u8) = (of_nat (n mod 128) :: u32)"
      using m by (simp add: word_unat_eq_iff unat_ucast_up)
    moreover have "of_nat (n mod 128) + 128 * of_nat (n div 128) = (of_nat n :: u32)"
      by (metis mod_mult_div_eq of_nat_add of_nat_mult of_nat_numeral)
    ultimately show ?thesis
      using False k remlen_byte(3,4) [OF m] by (simp add: enc_remlen_big)
  qed
qed

text \<open>The strings of the protocol: no zero byte, and a length that fits its 16-bit field.\<close>

definition str_ok :: "cstring \<Rightarrow> bool" where
  "str_ok s \<longleftrightarrow> length s < 2 ^ 16 \<and> 0 \<notin> set s"

interpretation u16_codec: prefix_codec "\<lambda>_. True" be16 dec_u16
  by unfold_locales (rule dec_u16_be16)

interpretation u32_codec: prefix_codec "\<lambda>_. True" be32 dec_u32
  by unfold_locales (rule dec_u32_be32)

interpretation str_codec: prefix_codec str_ok enc_str dec_str
  by unfold_locales (simp add: str_ok_def dec_str_enc)

interpretation remlen_codec: prefix_codec
  "\<lambda>x. unat x < 2 ^ 28" "\<lambda>x. enc_remlen (unat x)" "dec_remlen 4"
  by unfold_locales (simp add: dec_remlen_enc)

lemma le32_round: "le32_word (le32_bytes x) = x"
proof -
  have "le32_word (le32_bytes x) =
    push_bit 8 (push_bit 8 (push_bit 8 (ucast (ucast (drop_bit 24 x) :: u8))
      OR ucast (ucast (drop_bit 16 x) :: u8)) OR ucast (ucast (drop_bit 8 x) :: u8))
      OR ucast (ucast x :: u8)"
    by (simp only: le32_word_def le32_bytes_def foldr.simps comp_def id_apply push_bit_of_0 or.left_neutral)
  also have "\<dots> = x" by (rule be32_join)
  finally show ?thesis .
qed

end
