(* ===== verification/Edp_Packet.thy ===== *)
theory Edp_Packet
  imports Edp_Buffer
begin

text \<open>
  \<open>EdpKit.c\<close>, second half: the functions that build the packets of the EDP protocol. A packer
  returns the packet pointer: \<open>Some None\<close> is a \<open>NULL\<close> result and \<open>None\<close> undefined behaviour.
  As in the C code the return codes of the writers are ignored. The functions of the JSON
  library are parameters.
\<close>

section \<open>Protocol constants\<close>

abbreviation CONNREQ :: u8 where "CONNREQ \<equiv> 0x10"
abbreviation CONNRESP :: u8 where "CONNRESP \<equiv> 0x20"
abbreviation PUSHDATA :: u8 where "PUSHDATA \<equiv> 0x30"
abbreviation UPDATEREQ :: u8 where "UPDATEREQ \<equiv> 0x50"
abbreviation UPDATERESP :: u8 where "UPDATERESP \<equiv> 0x60"
abbreviation SAVEDATA :: u8 where "SAVEDATA \<equiv> 0x80"
abbreviation SAVEACK :: u8 where "SAVEACK \<equiv> 0x90"
abbreviation CMDREQ :: u8 where "CMDREQ \<equiv> 0xA0"
abbreviation CMDRESP :: u8 where "CMDRESP \<equiv> 0xB0"
abbreviation PINGREQ :: u8 where "PINGREQ \<equiv> 0xC0"
abbreviation PINGRESP :: u8 where "PINGRESP \<equiv> 0xD0"

abbreviation kTypeBin :: u8 where "kTypeBin \<equiv> 2"
abbreviation kTypeString :: u8 where "kTypeString \<equiv> 5"
abbreviation kTypeStringWithTime :: u8 where "kTypeStringWithTime \<equiv> 6"
abbreviation kTypeFloatWithTime :: u8 where "kTypeFloatWithTime \<equiv> 7"

abbreviation MAX_FLOAT_DPS_COUNT :: int where "MAX_FLOAT_DPS_COUNT \<equiv> 1000"

text \<open>\<open>"EDP"\<close>\<close>

abbreviation PROTOCOL_NAME :: cstring where "PROTOCOL_NAME \<equiv> [0x45, 0x44, 0x50]"
abbreviation PROTOCOL_VERSION :: u8 where "PROTOCOL_VERSION \<equiv> 1"

type_synonym packet_result = "edp_buffer option option"

definition c_strlen :: "cstring \<Rightarrow> u32" where
  "c_strlen s = of_nat (length s)"

section \<open>Connecting\<close>

definition PacketConnect1 :: "allocator \<Rightarrow> cstring \<Rightarrow> cstring \<Rightarrow> packet_result" where
  "PacketConnect1 mal devid auth_key =
     (case NewBuffer mal of
        None \<Rightarrow> Some None
      | Some pkg \<Rightarrow> do {
          (_, pkg) \<leftarrow> WriteByte mal pkg CONNREQ;
          let remainlen = (2 + 3) + 1 + 1 + 2 + (2 + c_strlen devid) + (2 + c_strlen auth_key);
          (_, pkg) \<leftarrow> WriteRemainlen pkg remainlen;
          (_, pkg) \<leftarrow> WriteStr mal pkg PROTOCOL_NAME;
          (_, pkg) \<leftarrow> WriteByte mal pkg PROTOCOL_VERSION;
          (_, pkg) \<leftarrow> WriteByte mal pkg 0x40;
          (_, pkg) \<leftarrow> WriteUint16 mal pkg 300;
          (_, pkg) \<leftarrow> WriteStr mal pkg devid;
          (_, pkg) \<leftarrow> WriteStr mal pkg auth_key;
          Some (Some pkg) })"

definition PacketConnect2 :: "allocator \<Rightarrow> cstring \<Rightarrow> cstring \<Rightarrow> packet_result" where
  "PacketConnect2 mal userid auth_info =
     (case NewBuffer mal of
        None \<Rightarrow> Some None
      | Some pkg \<Rightarrow> do {
          (_, pkg) \<leftarrow> WriteByte mal pkg CONNREQ;
          let remainlen =
            (2 + 3) + 1 + 1 + 2 + 2 + (2 + c_strlen userid) + (2 + c_strlen auth_info);
          (_, pkg) \<leftarrow> WriteRemainlen pkg remainlen;
          (_, pkg) \<leftarrow> WriteStr mal pkg PROTOCOL_NAME;
          (_, pkg) \<leftarrow> WriteByte mal pkg PROTOCOL_VERSION;
          (_, pkg) \<leftarrow> WriteByte mal pkg 0xC0;
          (_, pkg) \<leftarrow> WriteUint16 mal pkg 0x0080;
          (_, pkg) \<leftarrow> WriteByte mal pkg 0x00;
          (_, pkg) \<leftarrow> WriteByte mal pkg 0x00;
          (_, pkg) \<leftarrow> WriteStr mal pkg userid;
          (_, pkg) \<leftarrow> WriteStr mal pkg auth_info;
          Some (Some pkg) })"

definition PacketPing :: "allocator \<Rightarrow> packet_result" where
  "PacketPing mal =
     (case NewBuffer mal of
        None \<Rightarrow> Some None
      | Some pkg \<Rightarrow> do {
          (_, pkg) \<leftarrow> WriteByte mal pkg PINGREQ;
          (_, pkg) \<leftarrow> WriteRemainlen pkg 0;
          Some (Some pkg) })"

section \<open>Forwarding and command replies\<close>

definition PacketPushdata :: "allocator \<Rightarrow> cstring \<Rightarrow> bytes \<Rightarrow> u32 \<Rightarrow> packet_result" where
  "PacketPushdata mal dst_devid data data_len =
     (case NewBuffer mal of
        None \<Rightarrow> Some None
      | Some pkg \<Rightarrow> do {
          (_, pkg) \<leftarrow> WriteByte mal pkg PUSHDATA;
          let remainlen = (2 + c_strlen dst_devid) + data_len;
          (_, pkg) \<leftarrow> WriteRemainlen pkg remainlen;
          (_, pkg) \<leftarrow> WriteStr mal pkg dst_devid;
          (_, pkg) \<leftarrow> WriteBytes mal pkg data data_len;
          Some (Some pkg) })"

definition PacketCmdResp ::
  "allocator \<Rightarrow> bytes \<Rightarrow> u16 \<Rightarrow> bytes \<Rightarrow> u32 \<Rightarrow> packet_result" where
  "PacketCmdResp mal cmdid cmdid_len resp resp_len =
     (case NewBuffer mal of
        None \<Rightarrow> Some None
      | Some send_pkg \<Rightarrow> do {
          let remainlen = ucast cmdid_len + resp_len + (if resp_len \<noteq> 0 then 6 else 2);
          (_, send_pkg) \<leftarrow> WriteByte mal send_pkg CMDRESP;
          (_, send_pkg) \<leftarrow> WriteRemainlen send_pkg remainlen;
          (_, send_pkg) \<leftarrow> WriteUint16 mal send_pkg cmdid_len;
          (_, send_pkg) \<leftarrow> WriteBytes mal send_pkg cmdid (ucast cmdid_len);
          if resp_len \<noteq> 0
          then do {
            (_, send_pkg) \<leftarrow> WriteUint32 mal send_pkg resp_len;
            (_, send_pkg) \<leftarrow> WriteBytes mal send_pkg resp resp_len;
            Some (Some send_pkg) }
          else Some (Some send_pkg) })"

section \<open>Saving data\<close>

text \<open>
  The part every \<open>PacketSavedata...\<close> function repeats: the flag byte, the destination when
  there is one, and the message id when it is not 0; and its share of the remaining length.
\<close>

definition save_head_len :: "cstring option \<Rightarrow> u16 \<Rightarrow> u32" where
  "save_head_len dst_devid msg_id =
     1 + (if msg_id \<noteq> 0 then 2 else 0)
       + (case dst_devid of Some d \<Rightarrow> 2 + c_strlen d | None \<Rightarrow> 0)"

definition save_flag :: "cstring option \<Rightarrow> u16 \<Rightarrow> u8" where
  "save_flag dst_devid msg_id =
     (if dst_devid \<noteq> None then 0x80 else 0) OR (if msg_id \<noteq> 0 then 0x40 else 0)"

definition WriteSaveHead ::
  "allocator \<Rightarrow> edp_buffer \<Rightarrow> cstring option \<Rightarrow> u16 \<Rightarrow> edp_buffer option" where
  "WriteSaveHead mal pkg dst_devid msg_id = do {
     (_, pkg) \<leftarrow> WriteByte mal pkg (save_flag dst_devid msg_id);
     (_, pkg) \<leftarrow> (case dst_devid of Some d \<Rightarrow> WriteStr mal pkg d | None \<Rightarrow> Some (0, pkg));
     (_, pkg) \<leftarrow> (if msg_id \<noteq> 0 then WriteUint16 mal pkg msg_id else Some (0, pkg));
     Some pkg }"

text \<open>
  \<open>cJSON_Print\<close> is a parameter; \<open>None\<close> is its \<open>NULL\<close>, which \<open>strlen\<close> must not see. The leak
  of \<open>pkg\<close> is not modelled.
\<close>

definition PacketSavedataJson ::
  "allocator \<Rightarrow> ('json \<Rightarrow> cstring option) \<Rightarrow> cstring option \<Rightarrow> 'json \<Rightarrow> int \<Rightarrow> u16 \<Rightarrow> packet_result" where
  "PacketSavedataJson mal cJSON_Print dst_devid json_obj type msg_id =
     (case NewBuffer mal of
        None \<Rightarrow> Some None
      | Some pkg \<Rightarrow> do {
          json_out \<leftarrow> cJSON_Print json_obj;
          let json_len = c_strlen json_out;
          let remainlen = save_head_len dst_devid msg_id + 1 + (2 + json_len);
          (_, pkg) \<leftarrow> WriteByte mal pkg SAVEDATA;
          (_, pkg) \<leftarrow> WriteRemainlen pkg remainlen;
          pkg \<leftarrow> WriteSaveHead mal pkg dst_devid msg_id;
          (_, pkg) \<leftarrow> WriteByte mal pkg (word_of_int type);
          (_, pkg) \<leftarrow> WriteStr mal pkg json_out;
          Some (Some pkg) })"

text \<open>The packet of a binary data point up to its data, once the arguments are checked.\<close>

definition WriteSavedataBin ::
  "allocator \<Rightarrow> cstring option \<Rightarrow> cstring \<Rightarrow> u32 \<Rightarrow> u16 \<Rightarrow> edp_buffer \<Rightarrow> edp_buffer option" where
  "WriteSavedataBin mal dst_devid desc_out bin_len msg_id pkg = do {
     (_, pkg) \<leftarrow> WriteByte mal pkg SAVEDATA;
     let remainlen =
       save_head_len dst_devid msg_id + 1 + (2 + c_strlen desc_out) + 4 + bin_len;
     (_, pkg) \<leftarrow> WriteRemainlen pkg remainlen;
     pkg \<leftarrow> WriteSaveHead mal pkg dst_devid msg_id;
     (_, pkg) \<leftarrow> WriteByte mal pkg kTypeBin;
     (_, pkg) \<leftarrow> WriteStr mal pkg desc_out;
     (_, pkg) \<leftarrow> WriteUint32 mal pkg bin_len;
     Some pkg }"

definition bin_args_bad :: "cstring \<Rightarrow> u32 \<Rightarrow> bool" where
  "bin_args_bad desc_out bin_len \<longleftrightarrow>
     push_bit 16 1 < c_strlen desc_out \<or> 3 * push_bit 20 1 < bin_len"

definition PacketSavedataBin ::
  "allocator \<Rightarrow> ('json \<Rightarrow> cstring option) \<Rightarrow> ('json \<Rightarrow> bool) \<Rightarrow> cstring option \<Rightarrow> 'json
   \<Rightarrow> bytes \<Rightarrow> u32 \<Rightarrow> u16 \<Rightarrow> packet_result" where
  "PacketSavedataBin mal cJSON_Print has_ds_id dst_devid desc_obj bin_data bin_len msg_id = do {
     desc_out \<leftarrow> cJSON_Print desc_obj;
     if bin_args_bad desc_out bin_len \<or> \<not> has_ds_id desc_obj then Some None
     else (case NewBuffer mal of
             None \<Rightarrow> Some None
           | Some pkg \<Rightarrow> do {
               pkg \<leftarrow> WriteSavedataBin mal dst_devid desc_out bin_len msg_id pkg;
               (_, pkg) \<leftarrow> WriteBytes mal pkg bin_data bin_len;
               Some (Some pkg) }) }"

definition PacketSavedataBinHead ::
  "allocator \<Rightarrow> ('json \<Rightarrow> cstring option) \<Rightarrow> ('json \<Rightarrow> bool) \<Rightarrow> cstring option \<Rightarrow> 'json
   \<Rightarrow> u32 \<Rightarrow> u16 \<Rightarrow> packet_result" where
  "PacketSavedataBinHead mal cJSON_Print has_ds_id dst_devid desc_obj bin_len msg_id =
     (case cJSON_Print desc_obj of
        None \<Rightarrow> Some None
      | Some desc_out \<Rightarrow>
          if bin_args_bad desc_out bin_len \<or> \<not> has_ds_id desc_obj then Some None
          else (case NewBuffer mal of
                  None \<Rightarrow> Some None
                | Some pkg \<Rightarrow> do {
                    pkg \<leftarrow> WriteSavedataBin mal dst_devid desc_out bin_len msg_id pkg;
                    Some (Some pkg) }))"

definition PacketSavedataBinStr ::
  "allocator \<Rightarrow> cstring option \<Rightarrow> cstring \<Rightarrow> bytes \<Rightarrow> u32 \<Rightarrow> u16 \<Rightarrow> packet_result" where
  "PacketSavedataBinStr mal dst_devid desc_str bin_data bin_len msg_id =
     (if bin_args_bad desc_str bin_len then Some None
      else (case NewBuffer mal of
              None \<Rightarrow> Some None
            | Some pkg \<Rightarrow> do {
                pkg \<leftarrow> WriteSavedataBin mal dst_devid desc_str bin_len msg_id pkg;
                (_, pkg) \<leftarrow> WriteBytes mal pkg bin_data bin_len;
                Some (Some pkg) }))"

definition PacketSavedataSimpleString ::
  "allocator \<Rightarrow> cstring option \<Rightarrow> cstring \<Rightarrow> u16 \<Rightarrow> packet_result" where
  "PacketSavedataSimpleString mal dst_devid input msg_id =
     (case NewBuffer mal of
        None \<Rightarrow> Some None
      | Some pkg \<Rightarrow> do {
          let input_len = c_strlen input;
          (_, pkg) \<leftarrow> WriteByte mal pkg SAVEDATA;
          let remainlen = save_head_len dst_devid msg_id + 1 + (2 + input_len);
          (_, pkg) \<leftarrow> WriteRemainlen pkg remainlen;
          pkg \<leftarrow> WriteSaveHead mal pkg dst_devid msg_id;
          (_, pkg) \<leftarrow> WriteByte mal pkg kTypeString;
          (_, pkg) \<leftarrow> WriteStr mal pkg input;
          Some (Some pkg) })"

text \<open>The six time bytes: zeros without a time, otherwise the fields, the year from 2000.\<close>

definition WriteOpTime :: "allocator \<Rightarrow> edp_buffer \<Rightarrow> DataTime option \<Rightarrow> edp_buffer option" where
  "WriteOpTime mal pkg op_time =
     (case op_time of
        None \<Rightarrow> do {
          (_, pkg) \<leftarrow> WriteByte mal pkg 0;
          (_, pkg) \<leftarrow> WriteByte mal pkg 0;
          (_, pkg) \<leftarrow> WriteByte mal pkg 0;
          (_, pkg) \<leftarrow> WriteByte mal pkg 0;
          (_, pkg) \<leftarrow> WriteByte mal pkg 0;
          (_, pkg) \<leftarrow> WriteByte mal pkg 0;
          Some pkg }
      | Some t \<Rightarrow> do {
          (_, pkg) \<leftarrow> WriteByte mal pkg (ucast (dt_year t - 2000));
          (_, pkg) \<leftarrow> WriteByte mal pkg (dt_month t);
          (_, pkg) \<leftarrow> WriteByte mal pkg (dt_day t);
          (_, pkg) \<leftarrow> WriteByte mal pkg (dt_hour t);
          (_, pkg) \<leftarrow> WriteByte mal pkg (dt_minute t);
          (_, pkg) \<leftarrow> WriteByte mal pkg (dt_second t);
          Some pkg })"

definition PacketSavedataSimpleStringWithTime ::
  "allocator \<Rightarrow> cstring option \<Rightarrow> cstring \<Rightarrow> DataTime option \<Rightarrow> u16 \<Rightarrow> packet_result" where
  "PacketSavedataSimpleStringWithTime mal dst_devid input op_time msg_id =
     (case NewBuffer mal of
        None \<Rightarrow> Some None
      | Some pkg \<Rightarrow> do {
          let input_len = c_strlen input;
          (_, pkg) \<leftarrow> WriteByte mal pkg SAVEDATA;
          let remainlen = save_head_len dst_devid msg_id + 1 + 6 + (2 + input_len);
          (_, pkg) \<leftarrow> WriteRemainlen pkg remainlen;
          pkg \<leftarrow> WriteSaveHead mal pkg dst_devid msg_id;
          (_, pkg) \<leftarrow> WriteByte mal pkg kTypeStringWithTime;
          pkg \<leftarrow> WriteOpTime mal pkg op_time;
          (_, pkg) \<leftarrow> WriteStr mal pkg input;
          Some (Some pkg) })"

record FloatDPS =
  ds_id :: u16
  f_data :: u32

text \<open>
  The loop over \<open>input[0 .. input_count - 1]\<close>; reading past the array is undefined. The
  counter is a \<open>uint32\<close>, so a negative \<open>input_count\<close> is a huge bound: it runs past any array.
\<close>

fun WriteFloatDPS_loop ::
  "allocator \<Rightarrow> FloatDPS list \<Rightarrow> nat \<Rightarrow> edp_buffer \<Rightarrow> edp_buffer option" where
  "WriteFloatDPS_loop mal input 0 pkg = Some pkg"
| "WriteFloatDPS_loop mal [] (Suc n) pkg = None"
| "WriteFloatDPS_loop mal (x # xs) (Suc n) pkg = do {
     (_, pkg) \<leftarrow> WriteUint16 mal pkg (ds_id x);
     (_, pkg) \<leftarrow> WriteFloat mal pkg (f_data x);
     WriteFloatDPS_loop mal xs n pkg }"

definition PackSavedataFloatWithTime ::
  "allocator \<Rightarrow> cstring option \<Rightarrow> FloatDPS list \<Rightarrow> int \<Rightarrow> DataTime option \<Rightarrow> u16 \<Rightarrow> packet_result" where
  "PackSavedataFloatWithTime mal dst_devid input input_count op_time msg_id =
     (case NewBuffer mal of
        None \<Rightarrow> Some None
      | Some pkg \<Rightarrow> do {
          let input_count =
            (if MAX_FLOAT_DPS_COUNT < input_count then MAX_FLOAT_DPS_COUNT else input_count);
          let input_len = (word_of_int (6 * input_count) :: u32);
          (_, pkg) \<leftarrow> WriteByte mal pkg SAVEDATA;
          let remainlen = save_head_len dst_devid msg_id + 1 + 2 + 6 + input_len;
          (_, pkg) \<leftarrow> WriteRemainlen pkg remainlen;
          pkg \<leftarrow> WriteSaveHead mal pkg dst_devid msg_id;
          (_, pkg) \<leftarrow> WriteByte mal pkg kTypeFloatWithTime;
          pkg \<leftarrow> WriteOpTime mal pkg op_time;
          (_, pkg) \<leftarrow> WriteUint16 mal pkg (word_of_int input_count);
          pkg \<leftarrow> WriteFloatDPS_loop mal input (unat (word_of_int input_count :: u32)) pkg;
          Some (Some pkg) })"

section \<open>Software update request\<close>

text \<open>An \<open>UpdateInfoList\<close> node; a null pointer is \<open>None\<close>, the linked list a HOL list.\<close>

record UpdateInfo =
  ui_name :: "cstring option"
  ui_version :: "cstring option"
  ui_url :: "cstring option"
  ui_md5 :: "bytes option"

text \<open>The first loop: \<open>None\<close> when a node is rejected. It tests the name's length twice.\<close>

fun UpdateReq_len_loop :: "UpdateInfo list \<Rightarrow> u32 \<Rightarrow> u32 option" where
  "UpdateReq_len_loop [] len = Some len"
| "UpdateReq_len_loop (node # next) len =
     (case (ui_name node, ui_version node) of
        (Some name, Some version) \<Rightarrow>
          if c_strlen name = 0 \<or> c_strlen name = 0 then None
          else UpdateReq_len_loop next (len + (c_strlen name + c_strlen version + 4))
      | _ \<Rightarrow> None)"

fun UpdateReq_write_loop ::
  "allocator \<Rightarrow> UpdateInfo list \<Rightarrow> edp_buffer \<Rightarrow> edp_buffer option" where
  "UpdateReq_write_loop mal [] pkg = Some pkg"
| "UpdateReq_write_loop mal (node # next) pkg = do {
     name \<leftarrow> ui_name node;
     (_, pkg) \<leftarrow> WriteStr mal pkg name;
     version \<leftarrow> ui_version node;
     (_, pkg) \<leftarrow> WriteStr mal pkg version;
     UpdateReq_write_loop mal next pkg }"

definition PacketUpdateReq :: "allocator \<Rightarrow> UpdateInfo list \<Rightarrow> packet_result" where
  "PacketUpdateReq mal head =
     (case NewBuffer mal of
        None \<Rightarrow> Some None
      | Some pkg \<Rightarrow> do {
          (_, pkg) \<leftarrow> WriteByte mal pkg UPDATEREQ;
          (case UpdateReq_len_loop head 0 of
             None \<Rightarrow> DeleteBuffer (Some pkg)
           | Some len \<Rightarrow> do {
               (_, pkg) \<leftarrow> WriteRemainlen pkg len;
               pkg \<leftarrow> UpdateReq_write_loop mal head pkg;
               Some (Some pkg) }) })"

end
