(* ===== verification/Edp_Packet_Laws.thy ===== *)
theory Edp_Packet_Laws
  imports Edp_Buffer_Laws Edp_Packet
begin

text \<open>
  What the packers put on the wire. Every packet is a frame: the type byte, the remaining
  length, and that many bytes of body. \<open>packs\<close> says that a packer returns a buffer holding
  given bytes; one lemma per packer gives its bytes.
\<close>

section \<open>Frames\<close>

definition frame :: "u8 \<Rightarrow> bytes \<Rightarrow> bytes" where
  "frame t body = t # enc_remlen (length body) @ body"

definition packs :: "packet_result \<Rightarrow> bytes \<Rightarrow> bool" where
  "packs m bs \<longleftrightarrow> yields m (\<lambda>r. \<exists>b. r = Some b \<and> holds b bs)"

lemma packs_bytes: "packs m bs \<Longrightarrow> \<exists>b. m = Some (Some b) \<and> buf_content b = bs \<and> buf_ok b"
  by (auto simp: packs_def holds_def elim: yieldsE)

lemma str_okD [simp]: "str_ok s \<Longrightarrow> length s < 65536"
  by (simp add: str_ok_def)

definition dst_ok :: "cstring option \<Rightarrow> bool" where
  "dst_ok dst = (case dst of None \<Rightarrow> True | Some d \<Rightarrow> str_ok d)"

section \<open>Writers that append\<close>

text \<open>
  \<open>emits w f xs\<close>: whatever the buffer holds, \<open>f\<close> is defined, appends \<open>xs\<close> and returns the
  new buffer wrapped by \<open>w\<close>: \<open>Pair 0\<close> for the primitive writers, the identity for parts of a packer
  and \<open>Some\<close> for the packers' final pointer.
\<close>

named_theorems emits \<open>what the writers append\<close>

definition emits :: "(edp_buffer \<Rightarrow> 'a) \<Rightarrow> (edp_buffer \<Rightarrow> 'a option) \<Rightarrow> bytes \<Rightarrow> bool" where
  "emits w f xs \<longleftrightarrow>
     (\<forall>b bs. holds b bs \<longrightarrow> length bs + length xs < 2 ^ 30 \<longrightarrow>
        yields (f b) (\<lambda>r. \<exists>b'. r = w b' \<and> holds b' (bs @ xs)))"

lemma emitsD:
  "emits w f xs \<Longrightarrow> holds b bs \<Longrightarrow> length bs + length xs < 2 ^ 30 \<Longrightarrow>
   yields (f b) (\<lambda>r. \<exists>b'. r = w b' \<and> holds b' (bs @ xs))"
  by (simp add: emits_def)

lemma emits_cong: "emits w f xs \<Longrightarrow> xs = ys \<Longrightarrow> emits w f ys"
  by simp

lemma emits_done [emits]:
  "emits w (\<lambda>b. Some (w b)) []" "emits (\<lambda>b. b) (\<lambda>b. Some b) []" "emits (Pair 0) (\<lambda>b. Some (0, b)) []"
  by (auto simp: emits_def)

lemma emits_seq [emits]:
  assumes "emits (Pair 0) f xs" and "emits w g ys"
  shows "emits w (\<lambda>b. f b \<bind> (\<lambda>(_, b'). g b')) (xs @ ys)"
  unfolding emits_def
proof (intro allI impI)
  fix b bs assume "holds b bs" and "length bs + length (xs @ ys) < 2 ^ 30"
  with emitsD [OF assms(1), of b bs] emitsD [OF assms(2), of _ "bs @ xs"]
  show "yields (f b \<bind> (\<lambda>(_, b'). g b')) (\<lambda>r. \<exists>b'. r = w b' \<and> holds b' (bs @ xs @ ys))"
    by (auto elim!: yieldsE)
qed

lemma emits_part [emits]:
  assumes "emits (\<lambda>b. b) f xs" and "emits w g ys"
  shows "emits w (\<lambda>b. f b \<bind> (\<lambda>b'. g b')) (xs @ ys)"
  unfolding emits_def
proof (intro allI impI)
  fix b bs assume "holds b bs" and "length bs + length (xs @ ys) < 2 ^ 30"
  with emitsD [OF assms(1), of b bs] emitsD [OF assms(2), of _ "bs @ xs"]
  show "yields (f b \<bind> (\<lambda>b'. g b')) (\<lambda>r. \<exists>b'. r = w b' \<and> holds b' (bs @ xs @ ys))"
    by (auto elim!: yieldsE)
qed

lemma emits_if [emits]:
  "(c \<Longrightarrow> emits w f xs) \<Longrightarrow> (\<not> c \<Longrightarrow> emits w g ys) \<Longrightarrow>
   emits w (\<lambda>b. if c then f b else g b) (if c then xs else ys)"
  by auto

lemma emits_option [emits]:
  "(\<And>x. v = Some x \<Longrightarrow> emits w (\<lambda>b. f b x) (xs x)) \<Longrightarrow> (v = None \<Longrightarrow> emits w g ys) \<Longrightarrow>
   emits w (\<lambda>b. case v of Some x \<Rightarrow> f b x | None \<Rightarrow> g b) (case v of Some x \<Rightarrow> xs x | None \<Rightarrow> ys)"
  by (cases v) auto

text \<open>The primitive writers, for a working allocator.\<close>

lemma emits_WriteByte [emits]: "alloc_ok mal \<Longrightarrow> emits (Pair 0) (\<lambda>b. WriteByte mal b x) [x]"
  by (auto simp: emits_def intro!: WriteByte_wp)

lemma emits_WriteUint16 [emits]: "alloc_ok mal \<Longrightarrow> emits (Pair 0) (\<lambda>b. WriteUint16 mal b x) (be16 x)"
  by (auto simp: emits_def intro!: WriteUint16_wp)

lemma emits_WriteUint32 [emits]: "alloc_ok mal \<Longrightarrow> emits (Pair 0) (\<lambda>b. WriteUint32 mal b x) (be32 x)"
  by (auto simp: emits_def intro!: WriteUint32_wp)

lemma emits_WriteFloat [emits]: "alloc_ok mal \<Longrightarrow> emits (Pair 0) (\<lambda>b. WriteFloat mal b x) (le32_bytes x)"
  by (auto simp: emits_def le32_bytes_def intro!: WriteFloat_wp)

lemma emits_WriteStr [emits]:
  "alloc_ok mal \<Longrightarrow> str_ok s \<Longrightarrow> emits (Pair 0) (\<lambda>b. WriteStr mal b s) (enc_str s)"
  by (auto simp: emits_def str_ok_def intro!: WriteStr_wp)

lemma emits_WriteBytes [emits]:
  "alloc_ok mal \<Longrightarrow> unat n = length xs \<Longrightarrow> emits (Pair 0) (\<lambda>b. WriteBytes mal b xs n) xs"
  by (auto simp: emits_def intro!: WriteBytes_wp)

text \<open>
  The skeleton of a packer: type byte, remaining length, then whatever \<open>g\<close> appends. The
  announced length \<open>n\<close> need not be the number of bytes written here.
\<close>

lemma emits_start:
  assumes "alloc_ok mal" and "emits w g xs" and "l = of_nat n" and "n < 2 ^ 28"
    and "length xs < 2 ^ 28"
  shows "yields (NewBuffer mal) (\<lambda>b.
    yields (WriteByte mal b t \<bind> (\<lambda>(_, b). WriteRemainlen b l \<bind> (\<lambda>(_, b). g b)))
      (\<lambda>r. \<exists>b'. r = w b' \<and> holds b' (t # enc_remlen n @ xs)))"
proof -
  obtain b where b: "NewBuffer mal = Some b" "holds b []" using assms(1) by (rule NewBuffer_holds)
  have small: "length (enc_remlen n) \<le> 4" using assms(4) by (intro length_enc_remlen) auto
  from assms(3,4) have l: "unat l = n" by simp
  from emitsD [OF emits_WriteByte [OF assms(1)] b(2), of t] obtain b1 where
    b1: "WriteByte mal b t = Some (0, b1)" "holds b1 [t]" by (auto elim!: yieldsE)
  have "yields (WriteRemainlen b1 l) (\<lambda>(rc, b'). holds b' (t # enc_remlen n))"
    using b1(2) assms(4) l by (intro WriteRemainlen_wp [where bs = "[t]"]) auto
  then obtain rc b2 where b2: "WriteRemainlen b1 l = Some (rc, b2)" "holds b2 (t # enc_remlen n)"
    by (auto elim!: yieldsE)
  from emitsD [OF assms(2) b2(2)] small assms(5) b b1 b2 show ?thesis
    by simp
qed

text \<open>The same for a packer whose remaining length is right: it returns a frame.\<close>

lemma packs_frame:
  assumes "alloc_ok mal" and "emits Some g body" and "l = of_nat (length body)"
    and "length body < 2 ^ 28"
  shows "packs (case NewBuffer mal of None \<Rightarrow> Some None
                | Some b \<Rightarrow> WriteByte mal b t \<bind> (\<lambda>(_, b). WriteRemainlen b l \<bind> (\<lambda>(_, b). g b)))
           (frame t body)"
  using emits_start [OF assms(1-4,4), of t]
  by (auto simp: packs_def frame_def elim!: yieldsE)

section \<open>Connecting\<close>

definition connect1_body :: "cstring \<Rightarrow> cstring \<Rightarrow> bytes" where
  "connect1_body devid auth_key =
     enc_str PROTOCOL_NAME @ [PROTOCOL_VERSION] @ [0x40] @ be16 300 @ enc_str devid @
     enc_str auth_key"

definition connect2_body :: "cstring \<Rightarrow> cstring \<Rightarrow> bytes" where
  "connect2_body userid auth_info =
     enc_str PROTOCOL_NAME @ [PROTOCOL_VERSION] @ [0xC0] @ be16 0x80 @ [0] @ [0] @
     enc_str userid @ enc_str auth_info"

lemma PROTOCOL_NAME_ok [simp]: "str_ok PROTOCOL_NAME"
  by (simp add: str_ok_def)

lemma PacketConnect1_packs:
  assumes "alloc_ok mal" and "str_ok devid" and "str_ok auth_key"
  shows "packs (PacketConnect1 mal devid auth_key) (frame CONNREQ (connect1_body devid auth_key))"
  unfolding PacketConnect1_def Let_def
  by (rule packs_frame [OF assms(1)], rule emits_cong, (rule emits assms PROTOCOL_NAME_ok)+)
    (use assms in \<open>simp_all add: connect1_body_def c_strlen_def str_ok_def\<close>)

lemma PacketConnect2_packs:
  assumes "alloc_ok mal" and "str_ok userid" and "str_ok auth_info"
  shows "packs (PacketConnect2 mal userid auth_info) (frame CONNREQ (connect2_body userid auth_info))"
  unfolding PacketConnect2_def Let_def
  by (rule packs_frame [OF assms(1)], rule emits_cong, (rule emits assms PROTOCOL_NAME_ok)+)
    (use assms in \<open>simp_all add: connect2_body_def c_strlen_def str_ok_def\<close>)

lemma PacketPing_packs:
  assumes "alloc_ok mal"
  shows "packs (PacketPing mal) (frame PINGREQ [])"
  unfolding PacketPing_def
  by (rule packs_frame [OF assms(1)]) (simp_all add: emits)

section \<open>Forwarding and command replies\<close>

definition pushdata_body :: "cstring \<Rightarrow> bytes \<Rightarrow> bytes" where
  "pushdata_body dst data = enc_str dst @ data"

definition cmd_body :: "bytes \<Rightarrow> bytes \<Rightarrow> bytes" where
  "cmd_body cmdid resp =
     be16 (of_nat (length cmdid)) @ cmdid @
     (if resp = [] then [] else be32 (of_nat (length resp)) @ resp)"

lemma PacketPushdata_packs:
  assumes "alloc_ok mal" and "str_ok dst" and "length data < 2 ^ 27"
  shows "packs (PacketPushdata mal dst data (of_nat (length data)))
           (frame PUSHDATA (pushdata_body dst data))"
  unfolding PacketPushdata_def Let_def
  by (rule packs_frame [OF assms(1)], rule emits_cong, (rule emits assms | (use assms in simp; fail))+)
    (use assms in \<open>simp_all add: pushdata_body_def c_strlen_def str_ok_def\<close>)

lemma PacketCmdResp_packs:
  assumes "alloc_ok mal" and "length cmdid < 2 ^ 16" and "length resp < 2 ^ 27"
  shows "packs (PacketCmdResp mal cmdid (of_nat (length cmdid)) resp (of_nat (length resp)))
           (frame CMDRESP (cmd_body cmdid resp))"
proof -
  have len: "(ucast (of_nat (length cmdid) :: u16) :: u32) = of_nat (length cmdid)"
    using assms(2) by (simp add: word_unat_eq_iff unat_ucast_up)
  have nil: "(of_nat (length resp) :: u32) = 0 \<longleftrightarrow> resp = []"
    using assms(3) by (simp add: word_unat_eq_iff)
  show ?thesis
    unfolding PacketCmdResp_def Let_def len
    by (rule packs_frame [OF assms(1)], rule emits_cong,
        (rule emits assms | (use assms in simp; fail))+)
      (use assms in \<open>simp_all add: cmd_body_def nil\<close>)
qed

section \<open>Saving data\<close>

definition enc_save_head :: "cstring option \<Rightarrow> u16 \<Rightarrow> bytes" where
  "enc_save_head dst msg_id =
     [save_flag dst msg_id] @ (case dst of Some d \<Rightarrow> enc_str d | None \<Rightarrow> []) @
     (if msg_id \<noteq> 0 then be16 msg_id else [])"

lemma emits_WriteSaveHead [emits]:
  assumes "alloc_ok mal" and "dst_ok dst"
  shows "emits (\<lambda>b. b) (\<lambda>b. WriteSaveHead mal b dst msg_id) (enc_save_head dst msg_id)"
proof -
  have ok: "str_ok s" if "dst = Some s" for s using that assms(2) by (simp add: dst_ok_def)
  show ?thesis
    unfolding WriteSaveHead_def
    by (rule emits_cong, (rule emits assms ok | assumption)+) (simp add: enc_save_head_def)
qed

lemma save_head_len: "save_head_len dst msg_id = of_nat (length (enc_save_head dst msg_id))"
  by (simp add: save_head_len_def enc_save_head_def c_strlen_def split: option.splits)

lemma length_enc_save_head: "dst_ok dst \<Longrightarrow> length (enc_save_head dst msg_id) < 2 ^ 16 + 5"
  by (auto simp: enc_save_head_def dst_ok_def str_ok_def split: option.splits)

text \<open>The bodies of the data packets, by kind.\<close>

definition json_body :: "cstring option \<Rightarrow> u16 \<Rightarrow> u8 \<Rightarrow> cstring \<Rightarrow> bytes" where
  "json_body dst msg_id type json = enc_save_head dst msg_id @ [type] @ enc_str json"

definition bin_head :: "cstring option \<Rightarrow> u16 \<Rightarrow> cstring \<Rightarrow> nat \<Rightarrow> bytes" where
  "bin_head dst msg_id desc n =
     enc_save_head dst msg_id @ [kTypeBin] @ enc_str desc @ be32 (of_nat n)"

definition enc_time :: "DataTime option \<Rightarrow> bytes" where
  "enc_time t =
     (case t of
        None \<Rightarrow> replicate 6 0
      | Some t \<Rightarrow> [ucast (dt_year t - 2000), dt_month t, dt_day t, dt_hour t, dt_minute t,
                   dt_second t])"

definition string_time_body :: "cstring option \<Rightarrow> u16 \<Rightarrow> DataTime option \<Rightarrow> cstring \<Rightarrow> bytes" where
  "string_time_body dst msg_id t str =
     enc_save_head dst msg_id @ [kTypeStringWithTime] @ enc_time t @ enc_str str"

definition enc_dps :: "FloatDPS \<Rightarrow> bytes" where
  "enc_dps x = be16 (ds_id x) @ le32_bytes (f_data x)"

definition float_body ::
  "cstring option \<Rightarrow> u16 \<Rightarrow> DataTime option \<Rightarrow> FloatDPS list \<Rightarrow> bytes" where
  "float_body dst msg_id t xs =
     enc_save_head dst msg_id @ [kTypeFloatWithTime] @ enc_time t @
     be16 (of_nat (length xs)) @ concat (map enc_dps xs)"

lemma length_enc_time [simp]: "length (enc_time t) = 6"
  by (simp add: enc_time_def split: option.split)

lemma length_le32_bytes [simp]: "length (le32_bytes x) = 4"
  by (simp add: le32_bytes_def)

lemma PacketSavedataJson_packs:
  assumes "alloc_ok mal" and "cJSON_Print obj = Some json" and "str_ok json" and "dst_ok dst"
  shows "packs (PacketSavedataJson mal cJSON_Print dst obj type msg_id)
           (frame SAVEDATA (json_body dst msg_id (word_of_int type) json))"
  unfolding PacketSavedataJson_def Let_def assms(2) bind.bind_lunit
  by (rule packs_frame [OF assms(1)], rule emits_cong, (rule emits assms)+)
    (use assms length_enc_save_head [of dst msg_id] in
      \<open>simp_all add: json_body_def c_strlen_def str_ok_def save_head_len\<close>)

lemma PacketSavedataSimpleString_packs:
  assumes "alloc_ok mal" and "str_ok str" and "dst_ok dst"
  shows "packs (PacketSavedataSimpleString mal dst str msg_id)
           (frame SAVEDATA (json_body dst msg_id kTypeString str))"
  unfolding PacketSavedataSimpleString_def Let_def
  by (rule packs_frame [OF assms(1)], rule emits_cong, (rule emits assms)+)
    (use assms length_enc_save_head [of dst msg_id] in
      \<open>simp_all add: json_body_def c_strlen_def str_ok_def save_head_len\<close>)

lemma emits_WriteOpTime [emits]:
  assumes "alloc_ok mal"
  shows "emits (\<lambda>b. b) (\<lambda>b. WriteOpTime mal b t) (enc_time t)"
  unfolding WriteOpTime_def
  by (rule emits_cong, (rule emits assms)+)
    (simp add: enc_time_def numeral_eq_Suc split: option.split)

lemma PacketSavedataSimpleStringWithTime_packs:
  assumes "alloc_ok mal" and "str_ok str" and "dst_ok dst"
  shows "packs (PacketSavedataSimpleStringWithTime mal dst str t msg_id)
           (frame SAVEDATA (string_time_body dst msg_id t str))"
  unfolding PacketSavedataSimpleStringWithTime_def Let_def
  by (rule packs_frame [OF assms(1)], rule emits_cong, (rule emits assms)+)
    (use assms length_enc_save_head [of dst msg_id] in
      \<open>simp_all add: string_time_body_def c_strlen_def str_ok_def save_head_len\<close>)

lemma emits_WriteFloatDPS_loop [emits]:
  assumes "alloc_ok mal"
  shows "n \<le> length xs \<Longrightarrow>
    emits (\<lambda>b. b) (\<lambda>b. WriteFloatDPS_loop mal xs n b) (concat (map enc_dps (take n xs)))"
proof (induction n arbitrary: xs)
  case (Suc n)
  then obtain y ys where xs: "xs = y # ys" and IH: "emits (\<lambda>b. b) (\<lambda>b. WriteFloatDPS_loop mal ys n b)
      (concat (map enc_dps (take n ys)))"
    by (cases xs) auto
  show ?case
    unfolding xs WriteFloatDPS_loop.simps
    by (rule emits_cong, (rule emits assms)+, rule IH) (simp add: enc_dps_def [of y])
qed (simp add: emits_def)

lemma length_enc_dps: "length (concat (map enc_dps xs)) = 6 * length xs"
  by (induction xs) (auto simp: enc_dps_def)

lemma PackSavedataFloatWithTime_packs:
  assumes "alloc_ok mal" and "dst_ok dst" and "n \<le> length xs"
  shows "packs (PackSavedataFloatWithTime mal dst xs (int n) t msg_id)
           (frame SAVEDATA (float_body dst msg_id t (take 1000 (take n xs))))"
proof -
  define m where "m = min n 1000"
  have m: "(if 1000 < int n then 1000 else int n) = int m" "take 1000 (take n xs) = take m xs"
    "m \<le> 1000" "m \<le> length xs"
    using assms(3) by (auto simp: m_def min.commute)
  have "unat (of_nat m :: u32) = m" using m(3) by simp
  show ?thesis
    unfolding PackSavedataFloatWithTime_def Let_def m
    by (rule packs_frame [OF assms(1)], rule emits_cong, 
         (rule emits assms | (use m in simp; fail))+)
      (use assms m length_enc_save_head [of dst msg_id] in
        \<open>simp_all add: float_body_def c_strlen_def save_head_len length_enc_dps\<close>)
qed

text \<open>
  Binary data. \<open>PacketSavedataBinHead\<close> announces the data as well but writes only what comes
  before it.
\<close>

lemma length_bin_head: "length (bin_head dst msg_id desc n) = length (enc_save_head dst msg_id) + 7 + length desc"
  by (simp add: bin_head_def)

lemma WriteSavedataBin_start:
  assumes "alloc_ok mal" and "str_ok desc" and "dst_ok dst" and "n \<le> 3 * 2 ^ 20"
  shows "yields (NewBuffer mal) (\<lambda>b. yields (WriteSavedataBin mal dst desc (of_nat n) msg_id b)
    (\<lambda>r. \<exists>b'. r = b' \<and> holds b' (SAVEDATA # enc_remlen (length (bin_head dst msg_id desc n) + n) @
      bin_head dst msg_id desc n)))"
  unfolding WriteSavedataBin_def Let_def
  by (rule emits_start [OF assms(1)], rule emits_cong,
      (rule emits assms)+)
    (use assms length_enc_save_head [of dst msg_id] in
      \<open>simp_all add: bin_head_def c_strlen_def str_ok_def save_head_len\<close>)

lemma bin_args_ok:
  assumes "length desc \<le> 2 ^ 16" and "n \<le> 3 * 2 ^ 20"
  shows "\<not> bin_args_bad desc (of_nat n)"
  using assms by (simp add: bin_args_bad_def c_strlen_def word_less_nat_alt unat_of_nat_mod)

lemma PacketSavedataBinStr_packs:
  assumes "alloc_ok mal" and "str_ok desc" and "dst_ok dst" and "length data \<le> 3 * 2 ^ 20"
  shows "packs (PacketSavedataBinStr mal dst desc data (of_nat (length data)) msg_id)
           (frame SAVEDATA (bin_head dst msg_id desc (length data) @ data))"
proof -
  let ?n = "length data"
  let ?h = "SAVEDATA # enc_remlen (length (bin_head dst msg_id desc ?n) + ?n) @
              bin_head dst msg_id desc ?n"
  from WriteSavedataBin_start [OF assms, of msg_id] obtain b b' where
    b: "NewBuffer mal = Some b" "WriteSavedataBin mal dst desc (of_nat ?n) msg_id b = Some b'" and
    h: "holds b' ?h"
    by (auto elim!: yieldsE)
  have "length (enc_remlen (length (bin_head dst msg_id desc ?n) + ?n)) \<le> 4"
    using assms length_enc_save_head [of dst msg_id]
    by (intro length_enc_remlen) (auto simp: length_bin_head str_ok_def)
  then have "yields (WriteBytes mal b' data (of_nat ?n)) (\<lambda>r. \<exists>b''. r = (0, b'') \<and> holds b'' (?h @ data))"
    using assms h length_enc_save_head [of dst msg_id]
    by (intro emitsD [OF emits_WriteBytes]) (auto simp: length_bin_head str_ok_def)
  with b assms show ?thesis
    by (auto simp: packs_def PacketSavedataBinStr_def frame_def bin_args_ok str_ok_def elim!: yieldsE)
qed

lemma PacketSavedataBin_eq_BinStr:
  assumes "print obj = Some desc" and "has_ds_id obj"
  shows "PacketSavedataBin mal print has_ds_id dst obj data n msg_id =
         PacketSavedataBinStr mal dst desc data n msg_id"
  using assms by (simp add: PacketSavedataBin_def PacketSavedataBinStr_def)

lemma PacketSavedataBinHead_packs:
  assumes "alloc_ok mal" and "print obj = Some desc" and "has_ds_id obj" and "str_ok desc"
    and "dst_ok dst" and "n \<le> 3 * 2 ^ 20"
  shows "packs (PacketSavedataBinHead mal print has_ds_id dst obj (of_nat n) msg_id)
           (SAVEDATA # enc_remlen (length (bin_head dst msg_id desc n) + n) @
            bin_head dst msg_id desc n)"
  using WriteSavedataBin_start [OF assms(1,4-6), of msg_id] assms
  by (auto simp: packs_def PacketSavedataBinHead_def bin_args_ok str_ok_def elim!: yieldsE)

section \<open>Software update request\<close>

text \<open>An entry the packer takes: both strings present and a nonempty name.\<close>

definition update_entry_ok :: "UpdateInfo \<Rightarrow> bool" where
  "update_entry_ok u \<longleftrightarrow>
     (case (ui_name u, ui_version u) of
        (Some name, Some version) \<Rightarrow> str_ok name \<and> name \<noteq> [] \<and> str_ok version
      | _ \<Rightarrow> False)"

definition enc_update_entry :: "UpdateInfo \<Rightarrow> bytes" where
  "enc_update_entry u =
     (case (ui_name u, ui_version u) of
        (Some name, Some version) \<Rightarrow> enc_str name @ enc_str version
      | _ \<Rightarrow> [])"

lemma update_entry_cases:
  assumes "update_entry_ok u"
  obtains name version where "ui_name u = Some name" and "ui_version u = Some version"
    and "str_ok name" and "name \<noteq> []" and "str_ok version"
    and "enc_update_entry u = enc_str name @ enc_str version"
  using assms by (auto simp: update_entry_ok_def enc_update_entry_def split: option.splits)

lemma UpdateReq_len_loop_ok:
  assumes "\<forall>u \<in> set us. update_entry_ok u"
  shows "UpdateReq_len_loop us len = Some (len + of_nat (length (concat (map enc_update_entry us))))"
  using assms
proof (induction us arbitrary: len)
  case (Cons u us)
  then have "update_entry_ok u" by simp
  then obtain name version where u: "ui_name u = Some name" "ui_version u = Some version"
    "str_ok name" "name \<noteq> []" "enc_update_entry u = enc_str name @ enc_str version"
    by (rule update_entry_cases)
  from u have "unat (c_strlen name) \<noteq> 0" by (simp add: c_strlen_def str_ok_def)
  then have "c_strlen name \<noteq> 0" by auto
  with u Cons show ?case by (simp add: c_strlen_def algebra_simps)
qed simp

lemma emits_UpdateReq_write_loop [emits]:
  assumes "alloc_ok mal" and "\<forall>u \<in> set us. update_entry_ok u"
  shows "emits (\<lambda>b. b) (\<lambda>b. UpdateReq_write_loop mal us b) (concat (map enc_update_entry us))"
  using assms(2)
proof (induction us)
  case (Cons u us)
  then have "update_entry_ok u" by simp
  then obtain name version where u: "ui_name u = Some name" "ui_version u = Some version"
    "str_ok name" "str_ok version" "enc_update_entry u = enc_str name @ enc_str version"
    by (rule update_entry_cases)
  from Cons have IH: "emits (\<lambda>b. b) (\<lambda>b. UpdateReq_write_loop mal us b) (concat (map enc_update_entry us))"
    by simp
  show ?case
    unfolding UpdateReq_write_loop.simps u(1,2) bind.bind_lunit
    by (rule emits_cong, (rule emits assms u)+, rule IH) (simp add: u)
qed (simp add: emits_def)

lemma PacketUpdateReq_packs:
  assumes "alloc_ok mal" and "\<forall>u \<in> set us. update_entry_ok u"
    and "length (concat (map enc_update_entry us)) < 2 ^ 28"
  shows "packs (PacketUpdateReq mal us) (frame UPDATEREQ (concat (map enc_update_entry us)))"
  unfolding PacketUpdateReq_def UpdateReq_len_loop_ok [OF assms(2)] option.case
  by (rule packs_frame [OF assms(1)], rule emits_cong, (rule emits assms)+)
    (use assms(3) in simp_all)

lemma PacketUpdateReq_reject:
  assumes "alloc_ok mal" and "\<exists>u \<in> set us. ui_name u = None \<or> ui_name u = Some [] \<or> ui_version u = None"
  shows "PacketUpdateReq mal us = Some None"
proof -
  have "UpdateReq_len_loop us len = None" for len
    using assms(2)
    by (induction us arbitrary: len) (auto simp: c_strlen_def split: option.splits)
  moreover obtain b where b: "NewBuffer mal = Some b" "holds b []" using assms(1) by (rule NewBuffer_holds)
  moreover from emitsD [OF emits_WriteByte [OF assms(1)] b(2), of UPDATEREQ] obtain b1 where
    "WriteByte mal b UPDATEREQ = Some (0, b1)" by (auto elim!: yieldsE)
  ultimately show ?thesis by (simp add: PacketUpdateReq_def DeleteBuffer_def)
qed

end
