(* ===== verification/Edp_Unpack.thy ===== *)
theory Edp_Unpack
  imports Edp_Packet
begin

text \<open>
  \<open>EdpKit.c\<close>, the receiving side: cutting packets out of the receive buffer and unpacking
  them. An unpacker returns its C return code in \<open>Inl\<close>, or the values it stores through its
  out-parameters in \<open>Inr\<close> when it returns 0 (what it has stored when it then fails is not
  modelled). \<open>None\<close> is undefined behaviour or the failed
  \<open>assert(pkg->_read_pos == pkg->_write_pos)\<close>.
\<close>

section \<open>Framing\<close>

text \<open>
  The loop of \<open>IsPkgComplete\<close>. \<open>pdigit\<close> always points at \<open>data + len_len - 1\<close>. The result is
  the code to return, or \<open>len_len\<close> and \<open>len_val\<close>.
\<close>

function IsPkgComplete_loop ::
  "bytes \<Rightarrow> u32 \<Rightarrow> nat \<Rightarrow> u32 \<Rightarrow> u32 \<Rightarrow> (int + (nat \<times> u32)) option" where
  "IsPkgComplete_loop data data_len len_len len_val multiplier =
     (if len_len > 4 then Some (Inl (-1))
      else if of_nat len_len > data_len - 1 then Some (Inl 0)
      else (case aload data len_len of
              None \<Rightarrow> None
            | Some digit \<Rightarrow>
                (let len_val' = len_val + ucast (digit AND 0x7f) * multiplier in
                 if digit AND 0x80 \<noteq> 0
                 then IsPkgComplete_loop data data_len (Suc len_len) len_val' (multiplier * 0x80)
                 else Some (Inr (Suc len_len, len_val')))))"
  by pat_completeness auto
termination
  by (relation "measure (\<lambda>(d, dl, len_len, v, m). 5 - len_len)") auto

declare IsPkgComplete_loop.simps [simp del]

definition IsPkgComplete :: "edp_buffer \<Rightarrow> int option" where
  "IsPkgComplete buf =
     (if buf_write_pos buf \<le> 1 then Some 0
      else do {
        r \<leftarrow> IsPkgComplete_loop (buf_data buf) (buf_write_pos buf) 1 0 1;
        (case r of
           Inl rc \<Rightarrow> Some rc
         | Inr (len_len, len_val) \<Rightarrow>
             (let pkg_total_len = of_nat len_len + len_val in
              Some (if pkg_total_len \<le> buf_write_pos buf then sint pkg_total_len else 0))) })"

text \<open>The packet pointer (\<open>None\<close> for \<open>NULL\<close>) and the receive buffer afterwards.\<close>

definition GetEdpPacket ::
  "allocator \<Rightarrow> edp_buffer \<Rightarrow> (edp_buffer option \<times> edp_buffer) option" where
  "GetEdpPacket mal buf =
     (if buf_read_pos buf \<noteq> 0 then None
      else do {
        flag \<leftarrow> IsPkgComplete buf;
        if flag \<le> 0 then Some (None, buf)
        else (case NewBuffer mal of
                None \<Rightarrow> Some (None, buf)
              | Some pkg \<Rightarrow> do {
                  (_, pkg) \<leftarrow> WriteBytes mal pkg (buf_data buf) (word_of_int flag);
                  rest \<leftarrow> aslice (buf_data buf) (nat flag)
                            (unat (buf_write_pos buf - word_of_int flag));
                  d \<leftarrow> ablit (buf_data buf) 0 rest;
                  Some (Some pkg, buf\<lparr>buf_data := d,
                          buf_write_pos := buf_write_pos buf - word_of_int flag\<rparr>) }) })"

definition EdpPacketType :: "edp_buffer \<Rightarrow> (u8 \<times> edp_buffer) option" where
  "EdpPacketType pkg = do {
     (r, pkg) \<leftarrow> ReadByte pkg;
     Some (case r of Inl _ \<Rightarrow> 0 | Inr mtype \<Rightarrow> mtype, pkg) }"

section \<open>Unpackers\<close>

text \<open>
  \<open>expect rd err k\<close> is \<open>if (rd) return err; k\<close>, and \<open>finished v\<close> the closing \<open>assert\<close> and
  \<open>return 0\<close> with the outputs \<open>v\<close>.
\<close>

type_synonym 'a unpacked = "((int + 'a) \<times> edp_buffer) option"

definition expect ::
  "'a unpacked \<Rightarrow> int \<Rightarrow> ('a \<Rightarrow> edp_buffer \<Rightarrow> 'b unpacked) \<Rightarrow> 'b unpacked" where
  "expect rd err k =
     (case rd of
        None \<Rightarrow> None
      | Some (Inl _, pkg) \<Rightarrow> Some (Inl err, pkg)
      | Some (Inr v, pkg) \<Rightarrow> k v pkg)"

definition finished :: "'a \<Rightarrow> edp_buffer \<Rightarrow> 'a unpacked" where
  "finished v pkg = (if buf_read_pos pkg = buf_write_pos pkg then Some (Inr v, pkg) else None)"

text \<open>\<open>UnpackConnectResp\<close> returns the result byte itself as its return code.\<close>

definition UnpackConnectResp :: "edp_buffer \<Rightarrow> (int \<times> edp_buffer) option" where
  "UnpackConnectResp pkg = do {
     (r, pkg) \<leftarrow>
       expect (ReadRemainlen pkg) (-1000) (\<lambda>remainlen pkg.
       expect (ReadByte pkg) (-1001) (\<lambda>flag pkg.
       expect (ReadByte pkg) (-1002) (\<lambda>rtn pkg. finished rtn pkg)));
     Some (case r of Inl rc \<Rightarrow> rc | Inr rtn \<Rightarrow> uint rtn, pkg) }"

definition UnpackPushdata ::
  "allocator \<Rightarrow> edp_buffer \<Rightarrow> (cstring \<times> bytes \<times> u32) unpacked" where
  "UnpackPushdata mal pkg =
     expect (ReadRemainlen pkg) (-1010) (\<lambda>remainlen pkg.
     expect (ReadStr mal pkg) (-1011) (\<lambda>src_devid pkg.
     let remainlen = remainlen - (2 + c_strlen src_devid) in
     expect (ReadBytes mal pkg remainlen) (-1012) (\<lambda>data pkg.
     finished (src_devid, data, remainlen) pkg)))"

text \<open>\<open>UnpackSavedata\<close> from its \<open>/* json or bin */\<close> on, and from the message id on.\<close>

definition UnpackSavedata_type ::
  "cstring option \<Rightarrow> edp_buffer \<Rightarrow> (cstring option \<times> u8) unpacked" where
  "UnpackSavedata_type src_devid pkg =
     expect (ReadByte pkg) (-1023) (\<lambda>jb_flag pkg. Some (Inr (src_devid, jb_flag), pkg))"

definition UnpackSavedata_msgid ::
  "u8 \<Rightarrow> cstring option \<Rightarrow> edp_buffer \<Rightarrow> (cstring option \<times> u8) unpacked" where
  "UnpackSavedata_msgid ta_flag src_devid pkg =
     (if ta_flag AND 0x40 \<noteq> 0
      then expect (ReadUint16 pkg) (-1022) (\<lambda>msg_id pkg. UnpackSavedata_type src_devid pkg)
      else UnpackSavedata_type src_devid pkg)"

definition UnpackSavedata ::
  "allocator \<Rightarrow> edp_buffer \<Rightarrow> (cstring option \<times> u8) unpacked" where
  "UnpackSavedata mal pkg =
     expect (ReadRemainlen pkg) (-1020) (\<lambda>remainlen pkg.
     expect (ReadByte pkg) (-1021) (\<lambda>ta_flag pkg.
     if ta_flag AND 0x80 \<noteq> 0
     then expect (ReadStr mal pkg) (-1022) (\<lambda>s pkg. UnpackSavedata_msgid ta_flag (Some s) pkg)
     else UnpackSavedata_msgid ta_flag None pkg))"

text \<open>\<open>cJSON_Parse\<close> is a parameter; \<open>None\<close> is its \<open>NULL\<close>.\<close>

definition UnpackSavedataJson ::
  "allocator \<Rightarrow> (cstring \<Rightarrow> 'json option) \<Rightarrow> edp_buffer \<Rightarrow> 'json unpacked" where
  "UnpackSavedataJson mal cJSON_Parse pkg =
     expect (ReadStr mal pkg) (-1024) (\<lambda>json_str pkg.
     (case cJSON_Parse json_str of
        None \<Rightarrow> Some (Inl (-1025), pkg)
      | Some json_obj \<Rightarrow> finished json_obj pkg))"

definition UnpackSavedataBin ::
  "allocator \<Rightarrow> (cstring \<Rightarrow> 'json option) \<Rightarrow> edp_buffer \<Rightarrow> ('json \<times> bytes \<times> u32) unpacked" where
  "UnpackSavedataBin mal cJSON_Parse pkg =
     expect (ReadStr mal pkg) (-1026) (\<lambda>desc_str pkg.
     (case cJSON_Parse desc_str of
        None \<Rightarrow> Some (Inl (-1027), pkg)
      | Some desc_obj \<Rightarrow>
          expect (ReadUint32 pkg) (-1028) (\<lambda>bin_len pkg.
          expect (ReadBytes mal pkg bin_len) (-1029) (\<lambda>bin_data pkg.
          finished (desc_obj, bin_data, bin_len) pkg))))"

definition UnpackSavedataBinStr ::
  "allocator \<Rightarrow> edp_buffer \<Rightarrow> (cstring \<times> bytes \<times> u32) unpacked" where
  "UnpackSavedataBinStr mal pkg =
     expect (ReadStr mal pkg) (-1026) (\<lambda>desc_str pkg.
     expect (ReadUint32 pkg) (-1028) (\<lambda>bin_len pkg.
     expect (ReadBytes mal pkg bin_len) (-1029) (\<lambda>bin_data pkg.
     finished (desc_str, bin_data, bin_len) pkg)))"

text \<open>A missing output means that the variables of the caller are left alone.\<close>

definition UnpackSavedataAck :: "bool \<Rightarrow> edp_buffer \<Rightarrow> (u16 \<times> u8) option unpacked" where
  "UnpackSavedataAck msg_id_null pkg =
     (if msg_id_null then Some (Inl (-1033), pkg)
      else
        expect (ReadRemainlen pkg) (-1033) (\<lambda>remainlen pkg.
        expect (ReadByte pkg) (-1033) (\<lambda>flag pkg.
        if flag AND 0x40 \<noteq> 0
        then expect (ReadUint16 pkg) (-1033) (\<lambda>msg_id pkg.
             expect (ReadByte pkg) (-1033) (\<lambda>result pkg.
             Some (Inr (Some (msg_id, result)), pkg)))
        else Some (Inr None, pkg))))"

text \<open>\<open>rc = ReadX(...); if (rc) return rc;\<close> passes the reader's own code on.\<close>

definition pass_on ::
  "'a unpacked \<Rightarrow> ('a \<Rightarrow> edp_buffer \<Rightarrow> 'b unpacked) \<Rightarrow> 'b unpacked" where
  "pass_on rd k =
     (case rd of
        None \<Rightarrow> None
      | Some (Inl rc, pkg) \<Rightarrow> Some (Inl rc, pkg)
      | Some (Inr v, pkg) \<Rightarrow> k v pkg)"

definition UnpackCmdReq ::
  "allocator \<Rightarrow> edp_buffer \<Rightarrow> (bytes \<times> u16 \<times> bytes \<times> u32) unpacked" where
  "UnpackCmdReq mal pkg =
     expect (ReadRemainlen pkg) (-1031) (\<lambda>remainlen pkg.
     pass_on (ReadUint16 pkg) (\<lambda>cmdid_len pkg.
     expect (ReadBytes mal pkg (ucast cmdid_len)) (-1031) (\<lambda>cmdid pkg.
     pass_on (ReadUint32 pkg) (\<lambda>req_len pkg.
     expect (ReadBytes mal pkg req_len) (-1031) (\<lambda>req pkg.
     finished (cmdid, cmdid_len, req, req_len) pkg)))))"

definition UnpackPingResp :: "edp_buffer \<Rightarrow> unit unpacked" where
  "UnpackPingResp pkg =
     expect (ReadRemainlen pkg) (-1030) (\<lambda>remainlen pkg. finished () pkg)"

definition UnpackSavedataSimpleString :: "allocator \<Rightarrow> edp_buffer \<Rightarrow> cstring unpacked" where
  "UnpackSavedataSimpleString mal pkg =
     expect (ReadStr mal pkg) (-1024) (\<lambda>output pkg. Some (Inr output, pkg))"

definition UnpackSavedataSimpleStringWithTime ::
  "allocator \<Rightarrow> edp_buffer \<Rightarrow> DataTime option \<Rightarrow> (cstring \<times> DataTime option) unpacked" where
  "UnpackSavedataSimpleStringWithTime mal pkg at = do {
     (rc, at, pkg) \<leftarrow> ReadDataTime pkg at;
     if rc \<noteq> 0 then Some (Inl (-1034), pkg)
     else expect (ReadStr mal pkg) (-1034) (\<lambda>output pkg. Some (Inr (output, at), pkg)) }"

text \<open>
  The loop of \<open>UnpackSavedataFloatWithTime\<close> ignores the return codes: when the id cannot be
  read the array element keeps the content of the fresh block (\<open>init\<close>), and a missing float
  is stored as 0.
\<close>

fun UnpackFloat_loop ::
  "FloatDPS list \<Rightarrow> edp_buffer \<Rightarrow> (FloatDPS list \<times> edp_buffer) option" where
  "UnpackFloat_loop [] pkg = Some ([], pkg)"
| "UnpackFloat_loop (e # es) pkg = do {
     (r, pkg) \<leftarrow> ReadUint16 pkg;
     let id = (case r of Inl _ \<Rightarrow> ds_id e | Inr v \<Rightarrow> v);
     (_, f, pkg) \<leftarrow> ReadFloat pkg;
     (rest, pkg) \<leftarrow> UnpackFloat_loop es pkg;
     Some (\<lparr>ds_id = id, f_data = f\<rparr> # rest, pkg) }"

definition UnpackSavedataFloatWithTime ::
  "(u16 \<Rightarrow> FloatDPS list option) \<Rightarrow> edp_buffer \<Rightarrow> DataTime option
   \<Rightarrow> (FloatDPS list \<times> u16 \<times> DataTime option) unpacked" where
  "UnpackSavedataFloatWithTime mal_dps pkg at = do {
     (rc, at, pkg) \<leftarrow> ReadDataTime pkg at;
     if rc \<noteq> 0 then Some (Inl (-1035), pkg)
     else expect (ReadUint16 pkg) (-1035) (\<lambda>count pkg.
       (case mal_dps count of
          None \<Rightarrow> Some (Inl (-1035), pkg)
        | Some init \<Rightarrow> do {
            (output, pkg) \<leftarrow> UnpackFloat_loop (take (unat count) init) pkg;
            Some (Inr (output, count, at), pkg) })) }"

section \<open>Software update response\<close>

text \<open>
  The loop of \<open>UnpackUpdateResp\<close>. It runs while bytes are unread; \<open>fuel\<close> bounds the rounds
  and \<open>None\<close> is also the result of running out of it. The list is the nodes completed so far,
  in reverse.
\<close>

fun UnpackUpdateResp_loop ::
  "nat \<Rightarrow> allocator \<Rightarrow> edp_buffer \<Rightarrow> UpdateInfo list \<Rightarrow> UpdateInfo list unpacked" where
  "UnpackUpdateResp_loop 0 mal pkg acc = None"
| "UnpackUpdateResp_loop (Suc fuel) mal pkg acc =
     (if buf_read_pos pkg = buf_write_pos pkg then Some (Inr (rev acc), pkg)
      else (case mal 20 of
              None \<Rightarrow> None
            | Some _ \<Rightarrow>
                expect (ReadStr mal pkg) (-1) (\<lambda>name pkg.
                expect (ReadStr mal pkg) (-1) (\<lambda>version pkg.
                expect (ReadStr mal pkg) (-1) (\<lambda>url pkg.
                expect (ReadBytes mal pkg 32) (-1) (\<lambda>md5 pkg.
                UnpackUpdateResp_loop fuel mal pkg
                  (\<lparr>ui_name = Some name, ui_version = Some version, ui_url = Some url,
                    ui_md5 = Some md5\<rparr> # acc)))))))"

definition UnpackUpdateResp :: "nat \<Rightarrow> allocator \<Rightarrow> edp_buffer \<Rightarrow> UpdateInfo list unpacked" where
  "UnpackUpdateResp fuel mal pkg =
     expect (ReadRemainlen pkg) (-1040) (\<lambda>remainlen pkg. UnpackUpdateResp_loop fuel mal pkg [])"

end
