(* ===== verification/Edp_Unpack_Laws.thy ===== *)
theory Edp_Unpack_Laws
  imports Edp_Packet_Laws Edp_Unpack "HOL-Library.Sublist"
begin

text \<open>
  What the receiving side guarantees. Framing: a complete frame at the front of the receive
  buffer is recognised and cut out, a proper prefix of a frame is waited for, an overlong
  length field is an error. Unpacking: every unpacker implements a parser on the unread bytes,
  with its error codes and its assertion; and the parsers invert the packers.
\<close>

section \<open>Framing\<close>

lemma dec_remlen_None_iff: "dec_remlen k bs = None \<longleftrightarrow> (\<forall>b \<in> set (take k bs). b AND 0x80 \<noteq> 0)"
  by (induction k bs rule: dec_remlen.induct) (auto split: option.splits)

lemma dec_remlen_length: "dec_remlen k bs = Some (x, r) \<Longrightarrow> length r < length bs"
  by (induction k bs arbitrary: x r rule: dec_remlen.induct)
    (fastforce split: option.splits if_splits)+

lemma IsPkgComplete_loop_spec:
  assumes "buf_ok buf" and "1 \<le> i" and "i \<le> unat (buf_write_pos buf)" and "i \<le> 5"
  shows "IsPkgComplete_loop (buf_data buf) (buf_write_pos buf) i v m =
    (case dec_remlen (5 - i) (drop i (buf_content buf)) of
       None \<Rightarrow> Some (Inl (if 5 \<le> unat (buf_write_pos buf) then -1 else 0))
     | Some (x, r) \<Rightarrow> Some (Inr (unat (buf_write_pos buf) - length r, v + m * x)))"
  using assms
proof (induction "5 - i" arbitrary: i v m)
  case 0
  then show ?case by (simp add: IsPkgComplete_loop.simps [of _ _ 5])
next
  case (Suc k)
  let ?n = "unat (buf_write_pos buf)"
  from Suc.prems have n: "?n < 2 ^ 31" "?n \<le> length (buf_data buf)"
    by (auto simp: buf_ok_def word_le_nat_alt)
  have len: "length (buf_content buf) = ?n" using n by (simp add: buf_content_def)
  have i: "i < 5" using Suc.hyps(2) by simp
  have "unat (buf_write_pos buf - 1) = ?n - 1"
    using Suc.prems(2,3) by (subst unat_sub_id) (auto simp: word_le_nat_alt)
  moreover have "unat (of_nat i :: u32) = i" using i by simp
  ultimately have guard: "of_nat i > buf_write_pos buf - 1 \<longleftrightarrow> ?n \<le> i"
    using Suc.prems(2,3) by (auto simp: word_less_nat_alt)
  show ?case
  proof (cases "?n \<le> i")
    case True
    then have "drop i (buf_content buf) = []" using len by simp
    with True guard i Suc.hyps(2) Suc.prems show ?thesis
      by (simp add: IsPkgComplete_loop.simps [of _ _ i] flip: Suc.hyps(2))
  next
    case False
    then have d: "drop i (buf_content buf) = buf_data buf ! i # drop (Suc i) (buf_content buf)"
      using len n by (simp add: Cons_nth_drop_Suc [symmetric] buf_content_def)
    have k: "5 - i = Suc (5 - Suc i)" using i by simp
    have "length (drop (Suc i) (buf_content buf)) = ?n - Suc i" using len by simp
    with False guard i d n Suc.hyps(1) [of "Suc i"] Suc.hyps(2) Suc.prems show ?thesis
      unfolding d k
      by (auto simp: IsPkgComplete_loop.simps [of _ _ i] algebra_simps split: option.splits)
  qed
qed

lemma dec_remlen_bound:
  assumes "dec_remlen k bs = Some (x, r)" and "k \<le> 4"
  shows "unat x < 128 ^ k"
  using assms
proof (induction k bs arbitrary: x r rule: dec_remlen.induct)
  case (3 k b bs)
  have "(b AND 0x7f) \<le> 0x7f" by (rule word_and_le1)
  then have b: "unat (ucast (b AND 0x7f) :: u32) \<le> 127"
    by (simp add: word_le_nat_alt unat_ucast_up)
  show ?case
  proof (cases "b AND 0x80 = 0")
    case True
    with 3(2) b have "unat x \<le> 127" by auto
    moreover have "1 \<le> (128::nat) ^ k" by simp
    ultimately show ?thesis unfolding power_Suc by linarith
  next
    case False
    with 3(2) obtain v where v: "dec_remlen k bs = Some (v, r)"
      and x: "x = ucast (b AND 0x7f) + 0x80 * v" by (auto split: option.splits)
    from 3(1) [OF False v] 3(3) have "unat v < 128 ^ k" by simp
    moreover have "(128::nat) ^ k \<le> 128 ^ 3" using 3(3) by (intro power_increasing) auto
    ultimately show ?thesis using b x
      by (simp add: unat_word_ariths)
  qed
qed auto

text \<open>\<open>IsPkgComplete\<close> as a function of the bytes received.\<close>

lemma IsPkgComplete_spec:
  assumes "buf_ok buf"
  shows "IsPkgComplete buf = Some
    (if length (buf_content buf) \<le> 1 then 0
     else (case dec_remlen 4 (tl (buf_content buf)) of
       None \<Rightarrow> (if 5 \<le> length (buf_content buf) then -1 else 0)
     | Some (x, r) \<Rightarrow>
         (if unat x \<le> length r then int (length (buf_content buf) - length r + unat x) else 0)))"
proof (cases "dec_remlen 4 (tl (buf_content buf))")
  case None
  from assms have len: "length (buf_content buf) = unat (buf_write_pos buf)"
    by (auto simp: buf_content_def buf_ok_def word_le_nat_alt)
  with None show ?thesis
    using IsPkgComplete_loop_spec [OF assms, of 1 0 1]
    by (auto simp: IsPkgComplete_def word_le_nat_alt drop_Suc)
next
  case (Some xr)
  then obtain x r where xr: "dec_remlen 4 (tl (buf_content buf)) = Some (x, r)" by (cases xr) auto
  let ?n = "unat (buf_write_pos buf)"
  from assms have len: "length (buf_content buf) = ?n" and n: "?n < 2 ^ 31"
    by (auto simp: buf_content_def buf_ok_def word_le_nat_alt)
  from dec_remlen_bound [OF xr] have x: "unat x < 2 ^ 28" by simp
  from dec_remlen_length [OF xr] len have r: "length r < ?n" by simp
  have "a < 2 ^ 31 \<Longrightarrow> unat (of_nat a + x) = a + unat x" for a :: nat
    using x by (simp add: unat_word_ariths unat_of_nat_mod)
  then have total: "unat (of_nat (?n - length r) + x) = ?n - length r + unat x"
    using n by (metis diff_le_self le_less_trans)
  have "sint (of_nat (?n - length r) + x) = int (?n - length r + unat x)" if "unat x \<le> length r"
    using that total r n by (subst sint_small) auto
  then show ?thesis
    using IsPkgComplete_loop_spec [OF assms, of 1 0 1] len xr total r
    by (auto simp: IsPkgComplete_def word_le_nat_alt drop_Suc Let_def)
qed

lemma frame_length_small:
  assumes "length body < 2 ^ 28"
  shows "length (frame t body) \<le> length body + 5"
  using length_enc_remlen [of "length body" 4] assms by (simp add: frame_def)

lemma dec_frame: "length body < 2 ^ 28 \<Longrightarrow>
    dec_remlen 4 (enc_remlen (length body) @ xs) = Some (of_nat (length body), xs)"
  by (intro dec_remlen_enc) auto

lemma enc_remlen_nonempty [simp]: "enc_remlen n \<noteq> []"
  by (subst enc_remlen.simps) simp

lemma IsPkgComplete_frame:
  assumes "buf_ok buf" and "buf_content buf = frame t body @ rest" and "length body < 2 ^ 28"
  shows "IsPkgComplete buf = Some (int (length (frame t body)))"
  using assms(2,3) dec_frame [OF assms(3), of "body @ rest"]
  by (simp add: IsPkgComplete_spec [OF assms(1)] frame_def)

text \<open>Everything but the last digit has the continuation bit.\<close>

lemma enc_remlen_snoc: "\<exists>xs y. enc_remlen n = xs @ [y] \<and> (\<forall>b \<in> set xs. b AND 0x80 \<noteq> 0)"
proof (induction n rule: enc_remlen.induct)
  case (1 n)
  show ?case
  proof (cases "n < 128")
    case True
    then show ?thesis by (simp add: enc_remlen_small)
  next
    case False
    with 1 obtain xs y where "enc_remlen (n div 128) = xs @ [y]" "\<forall>b \<in> set xs. b AND 0x80 \<noteq> 0"
      by blast
    with False remlen_byte(3) [of "n mod 128"] show ?thesis
      by (intro exI [of _ "of_nat (n mod 128 + 128) # xs"] exI [of _ y]) (auto simp: enc_remlen_big)
  qed
qed

lemma IsPkgComplete_prefix:
  assumes "buf_ok buf" and "strict_prefix (buf_content buf) (frame t body)" and "length body < 2 ^ 28"
  shows "IsPkgComplete buf = Some 0"
proof (cases "length (buf_content buf) \<le> 1")
  case True
  then show ?thesis by (simp add: IsPkgComplete_spec [OF assms(1)])
next
  case False
  then obtain c where c: "buf_content buf = t # c" "c \<noteq> []"
    using assms(2) by (cases "buf_content buf") (auto simp: frame_def)
  with assms(2) have "strict_prefix c (enc_remlen (length body) @ body)" by (simp add: frame_def)
  then consider "strict_prefix c (enc_remlen (length body))"
    | q where "c = enc_remlen (length body) @ q" "strict_prefix q body"
    by (cases "c = enc_remlen (length body)") (auto simp: strict_prefix_def prefix_append)
  then show ?thesis
  proof cases
    case 1
    obtain xs y where e: "enc_remlen (length body) = xs @ [y]" "\<forall>b \<in> set xs. b AND 0x80 \<noteq> 0"
      using enc_remlen_snoc by blast
    with 1 have "prefix c xs" by (auto simp: prefix_snoc strict_prefix_def)
    with e have cont: "\<forall>b \<in> set c. b AND 0x80 \<noteq> 0" using set_mono_prefix by blast
    have "length c < length (enc_remlen (length body))" using 1 by (rule prefix_length_less)
    also have "\<dots> \<le> 4" using assms(3) by (intro length_enc_remlen) auto
    finally have "length c < 4" .
    moreover have "dec_remlen 4 c = None"
      using cont by (auto simp: dec_remlen_None_iff dest: in_set_takeD)
    ultimately show ?thesis using c by (simp add: IsPkgComplete_spec [OF assms(1)])
  next
    case 2
    have "length (enc_remlen (length body)) \<le> 4" using assms(3) by (intro length_enc_remlen) auto
    moreover have "length q < length body" using 2(2) by (rule prefix_length_less)
    moreover have "dec_remlen 4 c = Some (of_nat (length body), q)"
      unfolding 2(1) using assms(3) by (rule dec_frame)
    ultimately show ?thesis using c assms(3)
      by (simp add: IsPkgComplete_spec [OF assms(1)])
  qed
qed

lemma IsPkgComplete_overlong:
  assumes "buf_ok buf" and "buf_content buf = t # a # b # c # d # rest"
    and "a AND 0x80 \<noteq> 0" and "b AND 0x80 \<noteq> 0" and "c AND 0x80 \<noteq> 0" and "d AND 0x80 \<noteq> 0"
  shows "IsPkgComplete buf = Some (-1)"
proof -
  have "dec_remlen 4 (a # b # c # d # rest) = None"
    using assms(3-6) by (simp add: dec_remlen_None_iff)
  with assms(2) show ?thesis by (simp add: IsPkgComplete_spec [OF assms(1)])
qed

text \<open>
  A receive buffer holding \<open>bs\<close>: nothing has been read from it, any capacity.
\<close>

definition receives :: "edp_buffer \<Rightarrow> bytes \<Rightarrow> bool" where
  "receives buf bs \<longleftrightarrow> buf_ok buf \<and> buf_read_pos buf = 0 \<and> buf_content buf = bs"

lemma holds_receives: "holds b bs \<Longrightarrow> receives b bs"
  by (simp add: holds_def receives_def)

lemma receives_length: "receives buf bs \<Longrightarrow> unat (buf_write_pos buf) = length bs"
  by (auto simp: receives_def buf_ok_def buf_content_def word_le_nat_alt)

lemma GetEdpPacket_spec:
  assumes "alloc_ok mal" and "receives buf bs" and "IsPkgComplete buf = Some flag"
    and "flag \<le> int (length bs)" and "flag < 2 ^ 30"
  shows "yields (GetEdpPacket mal buf) (\<lambda>(p, buf').
    if flag \<le> 0 then p = None \<and> buf' = buf
    else (\<exists>pkg. p = Some pkg \<and> holds pkg (take (nat flag) bs)) \<and> receives buf' (drop (nat flag) bs))"
proof (cases "flag \<le> 0")
  case True
  with assms show ?thesis by (simp add: GetEdpPacket_def receives_def)
next
  case False
  let ?n = "length bs"
  from False obtain f where flag: "flag = int f" "0 < f" by (metis not_le zero_less_imp_eq_int)
  from assms(2) have ok: "buf_ok buf" "buf_read_pos buf = 0" "buf_content buf = bs"
    by (auto simp: receives_def)
  have n: "unat (buf_write_pos buf) = ?n" using assms(2) by (rule receives_length)
  with ok(1) have cap: "?n \<le> length (buf_data buf)" "?n < 2 ^ 31"
    by (auto simp: buf_ok_def word_le_nat_alt)
  have f: "0 < f" "f \<le> ?n" "f < 2 ^ 30" using flag assms(4,5) by auto
  have uf: "unat (of_nat f :: u32) = f" using f cap by simp
  have rest: "unat (buf_write_pos buf - of_nat f) = ?n - f"
    using f n uf by (subst unat_sub_id) (auto simp: word_le_nat_alt)
  obtain pkg where new: "NewBuffer mal = Some pkg" "holds pkg []" using assms(1) by (rule NewBuffer_holds)
  have bs: "take ?n (buf_data buf) = bs" using ok(3) n by (simp add: buf_content_def)
  have "take f (take ?n (buf_data buf)) = take f (buf_data buf)" using f(2) by (simp add: min_absorb1)
  then have t: "take f (buf_data buf) = take f bs" by (simp only: bs)
  have "yields (WriteBytes mal pkg (buf_data buf) (of_nat f)) (\<lambda>(rc, b'). holds b' ([] @ take f bs))"
    using assms(1) new(2) cap f uf t by (intro WriteBytes_wp [where bs = "[]"]) auto
  then obtain rc pkg' where wr: "WriteBytes mal pkg (buf_data buf) (of_nat f) = Some (rc, pkg')"
    and h: "holds pkg' (take f bs)" by (auto elim!: yieldsE)
  have mv: "take (?n - f) (drop f (buf_data buf)) = drop f bs"
    using bs by (metis drop_take)
  have sl: "aslice (buf_data buf) f (?n - f) = Some (drop f bs)"
    using cap f mv by simp
  have bl: "ablit (buf_data buf) 0 (drop f bs) = Some (drop f bs @ drop (?n - f) (buf_data buf))"
    using cap by simp
  have "receives (buf\<lparr>buf_data := drop f bs @ drop (?n - f) (buf_data buf),
      buf_write_pos := buf_write_pos buf - of_nat f\<rparr>) (drop f bs)"
    using ok cap f rest n
    by (auto simp: receives_def buf_ok_def buf_content_def word_le_nat_alt)
  moreover have "GetEdpPacket mal buf = Some (Some pkg',
      buf\<lparr>buf_data := drop f bs @ drop (?n - f) (buf_data buf),
          buf_write_pos := buf_write_pos buf - of_nat f\<rparr>)"
    using flag ok(2) assms(3) new(1) wr rest sl bl by (simp add: GetEdpPacket_def)
  ultimately show ?thesis using flag h by simp
qed

lemma GetEdpPacket_frame:
  assumes "alloc_ok mal" and "receives buf (frame t body @ rest)" and "length body < 2 ^ 28"
  shows "yields (GetEdpPacket mal buf) (\<lambda>(p, buf').
    (\<exists>pkg. p = Some pkg \<and> holds pkg (frame t body)) \<and> receives buf' rest)"
proof -
  have c: "IsPkgComplete buf = Some (int (length (frame t body)))"
    using assms(2,3) by (intro IsPkgComplete_frame) (auto simp: receives_def)
  have "\<not> int (length (frame t body)) \<le> 0" by (simp add: frame_def)
  moreover have "int (length (frame t body)) < 2 ^ 30"
    using frame_length_small [OF assms(3), of t] assms(3) by simp
  moreover
  note GetEdpPacket_spec [OF assms(1,2) c]
  ultimately show ?thesis
    by (auto elim!: yieldsE)
qed

lemma GetEdpPacket_wait:
  assumes "alloc_ok mal" and "receives buf bs" and "strict_prefix bs (frame t body)"
    and "length body < 2 ^ 28"
  shows "GetEdpPacket mal buf = Some (None, buf)"
proof -
  have "IsPkgComplete buf = Some 0"
    using assms(2-4) by (intro IsPkgComplete_prefix) (auto simp: receives_def)
  with assms(2) show ?thesis by (simp add: GetEdpPacket_def receives_def)
qed

text \<open>Calling \<open>GetEdpPacket\<close> until it has no packet, at most \<open>n\<close> times.\<close>

fun drain :: "nat \<Rightarrow> allocator \<Rightarrow> edp_buffer \<Rightarrow> (bytes list \<times> edp_buffer) option" where
  "drain 0 mal buf = Some ([], buf)"
| "drain (Suc n) mal buf =
     (case GetEdpPacket mal buf of
        None \<Rightarrow> None
      | Some (None, buf') \<Rightarrow> Some ([], buf')
      | Some (Some pkg, buf') \<Rightarrow>
          (case drain n mal buf' of
             None \<Rightarrow> None
           | Some (ps, buf'') \<Rightarrow> Some (buf_content pkg # ps, buf'')))"

lemma drain_frames:
  assumes "alloc_ok mal" and "receives buf (concat (map (\<lambda>(t, body). frame t body) fs) @ part)"
    and "\<forall>(t, body) \<in> set fs. length body < 2 ^ 28"
    and "strict_prefix part (frame t' body')" and "length body' < 2 ^ 28" and "length fs < n"
  shows "yields (drain n mal buf) (\<lambda>(ps, buf').
    ps = map (\<lambda>(t, body). frame t body) fs \<and> receives buf' part)"
  using assms(2,3,6)
proof (induction fs arbitrary: buf n)
  case Nil
  then obtain m where n: "n = Suc m" by (cases n) auto
  have "GetEdpPacket mal buf = Some (None, buf)"
    using Nil(1) assms by (intro GetEdpPacket_wait [of mal buf part]) auto
  with n Nil(1) show ?case by simp
next
  case (Cons f fs)
  then obtain m where n: "n = Suc m" "length fs < m" by (cases n) auto
  obtain t body where f: "f = (t, body)" by (cases f)
  from Cons f have "receives buf (frame t body @ concat (map (\<lambda>(t, body). frame t body) fs) @ part)"
    "length body < 2 ^ 28" by auto
  from GetEdpPacket_frame [OF assms(1) this] obtain pkg buf' where
    g: "GetEdpPacket mal buf = Some (Some pkg, buf')" "holds pkg (frame t body)"
    "receives buf' (concat (map (\<lambda>(t, body). frame t body) fs) @ part)"
    by (auto elim!: yieldsE)
  with Cons.IH [OF g(3) _ n(2)] Cons.prems(2) n(1) f show ?case
    by (auto simp: holds_def elim!: yieldsE)
qed

section \<open>Unpackers implement parsers\<close>

text \<open>
  A parser maps the unread bytes to an error code, or to a value and the bytes left over.
  \<open>refines strict f p\<close>: on every well-formed packet \<open>f\<close> behaves as \<open>p\<close> says; with \<open>strict\<close>,
  bytes left over fail the closing assertion.
\<close>

type_synonym 'a parser = "bytes \<Rightarrow> int + ('a \<times> bytes)"

named_theorems refines \<open>the unpackers' combinators implement the parsers'\<close>

definition parse_then ::
  "(bytes \<Rightarrow> ('v \<times> bytes) option) \<Rightarrow> int \<Rightarrow> ('v \<Rightarrow> 'a parser) \<Rightarrow> 'a parser" where
  "parse_then dec err k bs =
     (case dec bs of None \<Rightarrow> Inl err | Some (v, rest) \<Rightarrow> k v rest)"

definition parse_done :: "'a \<Rightarrow> 'a parser" where
  "parse_done v bs = Inr (v, bs)"

definition agrees :: "bool \<Rightarrow> int + ('a \<times> bytes) \<Rightarrow> 'a unpacked \<Rightarrow> bool" where
  "agrees strict outcome m \<longleftrightarrow>
     (case outcome of
        Inl rc \<Rightarrow> yields m (\<lambda>(r, b'). r = Inl rc \<and> buf_ok b')
      | Inr (v, rest) \<Rightarrow>
          if strict \<and> rest \<noteq> [] then m = None
          else yields m (\<lambda>(r, b'). r = Inr v \<and> buf_ok b' \<and> buf_unread b' = rest))"

definition refines :: "bool \<Rightarrow> (edp_buffer \<Rightarrow> 'a unpacked) \<Rightarrow> 'a parser \<Rightarrow> bool" where
  "refines strict f p \<longleftrightarrow> (\<forall>b. buf_ok b \<longrightarrow> agrees strict (p (buf_unread b)) (f b))"

lemma refinesD: "refines strict f p \<Longrightarrow> buf_ok b \<Longrightarrow> agrees strict (p (buf_unread b)) (f b)"
  by (simp add: refines_def)

lemma refines_expect [refines]:
  assumes "implements rd dec" and "\<And>v. refines strict (k v) (q v)"
  shows "refines strict (\<lambda>b. expect (rd b) err k) (parse_then dec err q)"
  unfolding refines_def
proof (intro allI impI)
  fix b assume "buf_ok b"
  with assms(1) obtain r b' where rd: "rd b = Some (r, b')" "buf_ok b'" and
    dec: "case dec (buf_unread b) of None \<Rightarrow> r = Inl (-1)
          | Some (v, rest) \<Rightarrow> r = Inr v \<and> buf_unread b' = rest"
    by (auto simp: implements_def elim!: yieldsE)
  show "agrees strict (parse_then dec err q (buf_unread b)) (expect (rd b) err k)"
  proof (cases "dec (buf_unread b)")
    case None
    with rd dec show ?thesis by (simp add: parse_then_def expect_def agrees_def)
  next
    case (Some vr)
    then obtain v where v: "dec (buf_unread b) = Some (v, buf_unread b')" "r = Inr v"
      using dec by (cases vr) auto
    with rd have "expect (rd b) err k = k v b'"
      "parse_then dec err q (buf_unread b) = q v (buf_unread b')"
      by (simp_all add: parse_then_def expect_def)
    with refinesD [OF assms(2) rd(2), of v] show ?thesis by simp
  qed
qed

lemma pass_on_expect: "implements rd dec \<Longrightarrow> buf_ok b \<Longrightarrow> pass_on (rd b) k = expect (rd b) (-1) k"
  by (fastforce simp: implements_def pass_on_def expect_def elim!: yieldsE split: option.splits sum.splits)

lemma refines_pass_on [refines]:
  assumes "implements rd dec" and "\<And>v. refines strict (k v) (q v)"
  shows "refines strict (\<lambda>b. pass_on (rd b) k) (parse_then dec (-1) q)"
proof -
  have "refines strict (\<lambda>b. expect (rd b) (-1) k) (parse_then dec (-1) q)"
    using assms by (rule refines_expect)
  then show ?thesis by (simp add: refines_def pass_on_expect [OF assms(1)])
qed

lemma refines_done [refines]: "refines False (\<lambda>b. Some (Inr v, b)) (parse_done v)"
  by (simp add: refines_def agrees_def parse_done_def)

lemma refines_fail [refines]: "refines strict (\<lambda>b. Some (Inl rc, b)) (\<lambda>_. Inl rc)"
  by (simp add: refines_def agrees_def)

lemma unread_empty: "buf_ok b \<Longrightarrow> buf_unread b = [] \<longleftrightarrow> buf_read_pos b = buf_write_pos b"
  using unread_length [of b]
  by (auto simp: buf_ok_def word_le_nat_alt word_unat_eq_iff simp flip: length_0_conv)

lemma refines_finished [refines]: "refines True (finished v) (parse_done v)"
  by (auto simp: refines_def agrees_def parse_done_def finished_def unread_empty)

lemma refines_if [refines]:
  "refines strict f p \<Longrightarrow> refines strict g q \<Longrightarrow>
   refines strict (\<lambda>b. if c then f b else g b) (\<lambda>bs. if c then p bs else q bs)"
  by (cases c) simp_all

lemma refines_option [refines]:
  "refines strict f p \<Longrightarrow> (\<And>x. refines strict (g x) (q x)) \<Longrightarrow>
   refines strict (\<lambda>b. case v of None \<Rightarrow> f b | Some x \<Rightarrow> g x b)
     (\<lambda>bs. case v of None \<Rightarrow> p bs | Some x \<Rightarrow> q x bs)"
  by (cases v) simp_all

lemmas readers [refines] = ReadRemainlen_implements ReadByte_implements ReadUint16_implements
  ReadUint32_implements

subsection \<open>The parsers of the packets\<close>

definition parse_pushdata :: "(cstring \<times> bytes \<times> u32) parser" where
  "parse_pushdata =
     parse_then (dec_remlen 4) (-1010) (\<lambda>n.
     parse_then dec_str (-1011) (\<lambda>src.
     parse_then (dec_bytes (unat (n - (2 + c_strlen src)))) (-1012) (\<lambda>data.
     parse_done (src, data, n - (2 + c_strlen src)))))"

definition parse_savedata :: "(cstring option \<times> u8) parser" where
  "parse_savedata =
     (let kind = \<lambda>src. parse_then dec_u8 (-1023) (\<lambda>jb. parse_done (src, jb));
          msgid = \<lambda>flag src bs. if flag AND 0x40 \<noteq> 0 then parse_then dec_u16 (-1022) (\<lambda>_. kind src) bs
                                else kind src bs
      in parse_then (dec_remlen 4) (-1020) (\<lambda>_.
         parse_then dec_u8 (-1021) (\<lambda>flag bs.
           if flag AND 0x80 \<noteq> 0 then parse_then dec_str (-1022) (\<lambda>s. msgid flag (Some s)) bs
           else msgid flag None bs)))"

definition parse_bin :: "(cstring \<times> bytes \<times> u32) parser" where
  "parse_bin =
     parse_then dec_str (-1026) (\<lambda>desc.
     parse_then dec_u32 (-1028) (\<lambda>n.
     parse_then (dec_bytes (unat n)) (-1029) (\<lambda>data. parse_done (desc, data, n))))"

definition parse_cmdreq :: "(bytes \<times> u16 \<times> bytes \<times> u32) parser" where
  "parse_cmdreq =
     parse_then (dec_remlen 4) (-1031) (\<lambda>_.
     parse_then dec_u16 (-1) (\<lambda>n.
     parse_then (dec_bytes (unat n)) (-1031) (\<lambda>cmdid.
     parse_then dec_u32 (-1) (\<lambda>m.
     parse_then (dec_bytes (unat m)) (-1031) (\<lambda>req. parse_done (cmdid, n, req, m))))))"

definition parse_ack :: "(u16 \<times> u8) option parser" where
  "parse_ack =
     parse_then (dec_remlen 4) (-1033) (\<lambda>_.
     parse_then dec_u8 (-1033) (\<lambda>flag bs.
       if flag AND 0x40 \<noteq> 0
       then parse_then dec_u16 (-1033) (\<lambda>id.
            parse_then dec_u8 (-1033) (\<lambda>res. parse_done (Some (id, res)))) bs
       else parse_done None bs))"

lemma UnpackPushdata_refines:
  assumes "alloc_sane mal"
  shows "refines True (UnpackPushdata mal) parse_pushdata"
  unfolding UnpackPushdata_def [abs_def] parse_pushdata_def Let_def
  by (rule refines ReadBytes_implements_sane ReadStr_implements alloc_sane_ok assms)+

lemma UnpackSavedata_refines:
  assumes "alloc_sane mal"
  shows "refines False (UnpackSavedata mal) parse_savedata"
  unfolding UnpackSavedata_def [abs_def] UnpackSavedata_msgid_def UnpackSavedata_type_def
    parse_savedata_def Let_def
  by (rule refines ReadStr_implements alloc_sane_ok assms)+

lemma UnpackSavedataBinStr_refines:
  assumes "alloc_sane mal"
  shows "refines True (UnpackSavedataBinStr mal) parse_bin"
  unfolding UnpackSavedataBinStr_def [abs_def] parse_bin_def
  by (rule refines ReadBytes_implements_sane ReadStr_implements alloc_sane_ok assms)+

lemma ReadBytes_u16_implements:
  "alloc_sane mal \<Longrightarrow> implements (\<lambda>b. ReadBytes mal b (ucast (n :: u16))) (dec_bytes (unat n))"
  using ReadBytes_implements_sane [of mal "ucast n"] by simp

lemma UnpackCmdReq_refines:
  assumes "alloc_sane mal"
  shows "refines True (UnpackCmdReq mal) parse_cmdreq"
  unfolding UnpackCmdReq_def [abs_def] parse_cmdreq_def
  by (rule refines ReadBytes_u16_implements ReadBytes_implements_sane assms)+

lemma UnpackSavedataAck_refines: "refines False (UnpackSavedataAck False) parse_ack"
  unfolding UnpackSavedataAck_def [abs_def] parse_ack_def if_False
  by (rule refines)+

lemma UnpackPingResp_refines:
  "refines True UnpackPingResp (parse_then (dec_remlen 4) (-1030) (\<lambda>_. parse_done ()))"
  unfolding UnpackPingResp_def [abs_def]
  by (rule refines)+

lemma UnpackConnectResp_refines:
  assumes "buf_ok b"
  shows "(case parse_then (dec_remlen 4) (-1000) (\<lambda>_. parse_then dec_u8 (-1001) (\<lambda>_.
                 parse_then dec_u8 (-1002) parse_done)) (buf_unread b) of
            Inl rc \<Rightarrow> yields (UnpackConnectResp b) (\<lambda>(r, _). r = rc)
          | Inr (rtn, rest) \<Rightarrow>
              if rest \<noteq> [] then UnpackConnectResp b = None
              else yields (UnpackConnectResp b) (\<lambda>(r, _). r = uint rtn))"
proof -
  let ?f = "\<lambda>b. expect (ReadRemainlen b) (-1000) (\<lambda>remainlen pkg.
       expect (ReadByte pkg) (-1001) (\<lambda>flag pkg. expect (ReadByte pkg) (-1002) finished))"
  have "refines True ?f
     (parse_then (dec_remlen 4) (-1000) (\<lambda>_. parse_then dec_u8 (-1001) (\<lambda>_.
                 parse_then dec_u8 (-1002) parse_done)))"
    by (rule refines)+
  from refinesD [OF this assms] show ?thesis
    by (cases "?f b") (auto simp: agrees_def UnpackConnectResp_def split: sum.splits if_splits)
qed

lemma UnpackSavedataJson_refines:
  assumes "alloc_sane mal"
  shows "refines True (UnpackSavedataJson mal cJSON_Parse)
    (parse_then dec_str (-1024) (\<lambda>s bs.
       case cJSON_Parse s of None \<Rightarrow> Inl (-1025) | Some obj \<Rightarrow> parse_done obj bs))"
  unfolding UnpackSavedataJson_def [abs_def]
  by (rule refines ReadStr_implements alloc_sane_ok assms)+

lemma UnpackSavedataBin_refines:
  assumes "alloc_sane mal"
  shows "refines True (UnpackSavedataBin mal cJSON_Parse)
    (parse_then dec_str (-1026) (\<lambda>s bs.
       case cJSON_Parse s of
         None \<Rightarrow> Inl (-1027)
       | Some obj \<Rightarrow>
           parse_then dec_u32 (-1028) (\<lambda>n.
           parse_then (dec_bytes (unat n)) (-1029) (\<lambda>data. parse_done (obj, data, n))) bs))"
  unfolding UnpackSavedataBin_def [abs_def]
  by (rule refines ReadBytes_implements_sane ReadStr_implements alloc_sane_ok assms)+

lemma UnpackSavedataSimpleString_refines:
  assumes "alloc_ok mal"
  shows "refines False (UnpackSavedataSimpleString mal) (parse_then dec_str (-1024) parse_done)"
  unfolding UnpackSavedataSimpleString_def [abs_def]
  by (rule refines ReadStr_implements assms)+

subsection \<open>Parsers invert the encodings\<close>

lemma parse_remlen [simp]:
  "n < 2 ^ 28 \<Longrightarrow> parse_then (dec_remlen 4) err k (enc_remlen n @ rest) = k (of_nat n) rest"
  by (simp add: parse_then_def dec_remlen_enc)

lemma parse_str [simp]:
  "str_ok s \<Longrightarrow> parse_then dec_str err k (enc_str s @ rest) = k s rest"
  "str_ok s \<Longrightarrow> parse_then dec_str err k (enc_str s) = k s []"
  using str_codec.dec_enc [of s "[]"] by (simp_all add: parse_then_def str_codec.dec_enc)

lemma parse_u8 [simp]: "parse_then dec_u8 err k (b # rest) = k b rest"
  by (simp add: parse_then_def)

lemma parse_u16 [simp]: "parse_then dec_u16 err k (be16 x @ rest) = k x rest"
  by (simp add: parse_then_def dec_u16_be16)

lemma parse_u32 [simp]: "parse_then dec_u32 err k (be32 x @ rest) = k x rest"
  by (simp add: parse_then_def dec_u32_be32)

lemma parse_bytes [simp]:
  "length xs = m \<Longrightarrow> parse_then (dec_bytes m) err k (xs @ rest) = k xs rest"
  "length xs = m \<Longrightarrow> parse_then (dec_bytes m) err k xs = k xs []"
  by (auto simp: parse_then_def dec_bytes_def)

text \<open>The flag byte of the saving packets and what \<open>UnpackSavedata\<close> makes of it.\<close>

lemma save_flag_bits:
  "save_flag dst msg_id AND 0x80 \<noteq> 0 \<longleftrightarrow> dst \<noteq> None"
  "save_flag dst msg_id AND 0x40 \<noteq> 0 \<longleftrightarrow> msg_id \<noteq> 0"
  by (auto simp: save_flag_def)

lemma parse_savedata_head:
  assumes "dst_ok dst" and "n < 2 ^ 28"
  shows "parse_savedata (enc_remlen n @ enc_save_head dst msg_id @ kind # rest) = Inr ((dst, kind), rest)"
  using assms save_flag_bits [of dst msg_id]
  by (cases dst; cases "msg_id = 0")
    (simp_all add: parse_savedata_def enc_save_head_def dst_ok_def parse_done_def)

section \<open>From sender to receiver\<close>

text \<open>
  \<open>transmits mal m t unpack v\<close>: the packer result \<open>m\<close> is a packet such that a receive buffer
  beginning with its bytes gives \<open>GetEdpPacket\<close> a packet of type \<open>t\<close> that \<open>unpack\<close> turns
  into \<open>v\<close>, and leaves exactly what came after it in the buffer.
\<close>

definition transmits ::
  "allocator \<Rightarrow> packet_result \<Rightarrow> u8 \<Rightarrow> (edp_buffer \<Rightarrow> 'a unpacked) \<Rightarrow> 'a \<Rightarrow> bool" where
  "transmits mal m t unpack v \<longleftrightarrow>
     (\<exists>sent. m = Some (Some sent) \<and>
       (\<forall>buf rest. receives buf (buf_content sent @ rest) \<longrightarrow>
          yields (GetEdpPacket mal buf) (\<lambda>(p, buf'). receives buf' rest \<and>
            (\<exists>pkg. p = Some pkg \<and> yields (EdpPacketType pkg) (\<lambda>(ty, pkg'). ty = t \<and>
               yields (unpack pkg') (\<lambda>(r, _). r = Inr v))))))"

lemma EdpPacketType_frame:
  assumes "holds pkg (t # bs)"
  shows "yields (EdpPacketType pkg) (\<lambda>(ty, pkg'). ty = t \<and> buf_ok pkg' \<and> buf_unread pkg' = bs)"
proof -
  have "buf_ok pkg" "buf_unread pkg = t # bs"
    using assms by (auto simp: holds_def buf_unread_def)
  then obtain b' where "ReadByte pkg = Some (Inr t, b')" "buf_ok b'" "buf_unread b' = bs"
    by (rule ReadByte_unread)
  then show ?thesis by (simp add: EdpPacketType_def)
qed

lemma transmitsI:
  assumes "alloc_ok mal" and "packs m (frame t body)" and "length body < 2 ^ 28"
    and unpack: "\<And>b. buf_ok b \<Longrightarrow> buf_unread b = enc_remlen (length body) @ body \<Longrightarrow>
           yields (unpack b) (\<lambda>(r, _). r = Inr v)"
  shows "transmits mal m t unpack v"
proof -
  from assms(2) obtain sent where m: "m = Some (Some sent)" "buf_content sent = frame t body"
    by (auto dest: packs_bytes)
  have "yields (GetEdpPacket mal buf) (\<lambda>(p, buf'). receives buf' rest \<and>
      (\<exists>pkg. p = Some pkg \<and> yields (EdpPacketType pkg) (\<lambda>(ty, pkg'). ty = t \<and>
         yields (unpack pkg') (\<lambda>(r, _). r = Inr v))))"
    if "receives buf (buf_content sent @ rest)" for buf rest
  proof -
    from that m(2) have "receives buf (frame t body @ rest)" by simp
    from GetEdpPacket_frame [OF assms(1) this assms(3)] obtain pkg buf' where
      g: "GetEdpPacket mal buf = Some (Some pkg, buf')" "holds pkg (frame t body)" "receives buf' rest"
      by (auto elim!: yieldsE)
    from EdpPacketType_frame [OF g(2) [unfolded frame_def]] obtain pkg' where
      "EdpPacketType pkg = Some (t, pkg')" "buf_ok pkg'"
      "buf_unread pkg' = enc_remlen (length body) @ body"
      by (auto elim!: yieldsE)
    with g(1,3) unpack show ?thesis by simp
  qed
  with m(1) show ?thesis by (auto simp: transmits_def)
qed

lemma refines_transmits:
  assumes "alloc_ok mal" and "packs m (frame t body)" and "length body < 2 ^ 28"
    and "refines strict unpack p" and "p (enc_remlen (length body) @ body) = Inr (v, rest)"
    and "strict \<Longrightarrow> rest = []"
  shows "transmits mal m t unpack v"
  using assms(1-3)
proof (rule transmitsI)
  fix b assume b: "buf_ok b" "buf_unread b = enc_remlen (length body) @ body"
  from refinesD [OF assms(4) b(1)] b(2) assms(5,6) show "yields (unpack b) (\<lambda>(r, _). r = Inr v)"
    by (auto simp: agrees_def elim!: yieldsE split: if_splits)
qed

lemma Pushdata_transmits:
  assumes "alloc_sane mal" and "str_ok dst" and "length data < 2 ^ 27"
  shows "transmits mal (PacketPushdata mal dst data (of_nat (length data))) PUSHDATA
           (UnpackPushdata mal) (dst, data, of_nat (length data))"
proof (rule refines_transmits [OF alloc_sane_ok [OF assms(1)]
      PacketPushdata_packs [OF alloc_sane_ok [OF assms(1)] assms(2,3)]
      _ UnpackPushdata_refines [OF assms(1)]])
  show "length (pushdata_body dst data) < 2 ^ 28"
    using assms by (simp add: pushdata_body_def str_ok_def)
  with assms show "parse_pushdata (enc_remlen (length (pushdata_body dst data)) @ pushdata_body dst data)
      = Inr ((dst, data, of_nat (length data)), [])"
    by (simp add: parse_pushdata_def pushdata_body_def c_strlen_def parse_done_def)
qed simp

text \<open>
  A saving packet is unpacked in two steps: \<open>UnpackSavedata\<close> for destination and kind, then
  the function for that kind.
\<close>

definition unpack_both ::
  "(edp_buffer \<Rightarrow> 'a unpacked) \<Rightarrow> (edp_buffer \<Rightarrow> 'b unpacked) \<Rightarrow> edp_buffer \<Rightarrow> ('a \<times> 'b) unpacked" where
  "unpack_both f g pkg =
     pass_on (f pkg) (\<lambda>v pkg. pass_on (g pkg) (\<lambda>w pkg. Some (Inr (v, w), pkg)))"

lemma saving_transmits:
  assumes "alloc_sane mal" and "dst_ok dst"
    and "packs m (frame SAVEDATA body)" and "length body < 2 ^ 28"
    and "body = enc_save_head dst msg_id @ kind # tail"
    and tail: "\<And>b. buf_ok b \<Longrightarrow> buf_unread b = tail \<Longrightarrow> yields (g b) (\<lambda>(r, _). r = Inr w)"
  shows "transmits mal m SAVEDATA (unpack_both (UnpackSavedata mal) g) ((dst, kind), w)"
  using alloc_sane_ok [OF assms(1)] assms(3,4)
proof (rule transmitsI)
  fix b assume b: "buf_ok b" "buf_unread b = enc_remlen (length body) @ body"
  have "parse_savedata (buf_unread b) = Inr ((dst, kind), tail)"
    using assms(2,4) by (simp add: b(2) parse_savedata_head assms(5))
  with refinesD [OF UnpackSavedata_refines [OF assms(1)] b(1)] obtain b' where
    "UnpackSavedata mal b = Some (Inr (dst, kind), b')" "buf_ok b'" "buf_unread b' = tail"
    by (auto simp: agrees_def elim!: yieldsE)
  with tail show "yields (unpack_both (UnpackSavedata mal) g b) (\<lambda>(r, _). r = Inr ((dst, kind), w))"
    by (fastforce simp: unpack_both_def pass_on_def elim!: yieldsE)
qed

lemma refines_yields:
  assumes "refines strict f p" and "p bs = Inr (v, [])" and "buf_ok b" and "buf_unread b = bs"
  shows "yields (f b) (\<lambda>(r, _). r = Inr v)"
  using refinesD [OF assms(1,3)] assms(2,4) by (auto simp: agrees_def elim!: yieldsE split: if_splits)

lemma SimpleString_transmits:
  assumes "alloc_sane mal" and "dst_ok dst" and "str_ok str"
  shows "transmits mal (PacketSavedataSimpleString mal dst str msg_id) SAVEDATA
           (unpack_both (UnpackSavedata mal) (UnpackSavedataSimpleString mal))
           ((dst, kTypeString), str)"
proof (rule saving_transmits [OF assms(1,2)
      PacketSavedataSimpleString_packs [OF alloc_sane_ok [OF assms(1)] assms(3,2)]])
  show "length (json_body dst msg_id kTypeString str) < 2 ^ 28"
    using assms length_enc_save_head [of dst msg_id] by (simp add: json_body_def str_ok_def)
  show "json_body dst msg_id kTypeString str = enc_save_head dst msg_id @ kTypeString # enc_str str"
    by (simp add: json_body_def)
qed (rule refines_yields [OF UnpackSavedataSimpleString_refines [OF alloc_sane_ok [OF assms(1)]]],
     use assms in \<open>simp_all add: parse_done_def\<close>)

lemma BinStr_transmits:
  assumes "alloc_sane mal" and "dst_ok dst" and "str_ok desc" and "length data \<le> 3 * 2 ^ 20"
  shows "transmits mal (PacketSavedataBinStr mal dst desc data (of_nat (length data)) msg_id) SAVEDATA
           (unpack_both (UnpackSavedata mal) (UnpackSavedataBinStr mal))
           ((dst, kTypeBin), (desc, data, of_nat (length data)))"
proof (rule saving_transmits [OF assms(1,2)
      PacketSavedataBinStr_packs [OF alloc_sane_ok [OF assms(1)] assms(3,2,4)]])
  show "length (bin_head dst msg_id desc (length data) @ data) < 2 ^ 28"
    using assms length_enc_save_head [of dst msg_id] by (simp add: bin_head_def str_ok_def)
  show "bin_head dst msg_id desc (length data) @ data =
      enc_save_head dst msg_id @ kTypeBin # enc_str desc @ be32 (of_nat (length data)) @ data"
    by (simp add: bin_head_def)
qed (rule refines_yields [OF UnpackSavedataBinStr_refines [OF assms(1)]],
     use assms in \<open>simp_all add: parse_bin_def parse_done_def\<close>)

subsection \<open>Time stamps and floats\<close>

text \<open>The times that survive: in range, and a year that fits the byte and is not 2000.\<close>

definition time_ok :: "DataTime \<Rightarrow> bool" where
  "time_ok t \<longleftrightarrow>
     2001 \<le> dt_year t \<and> dt_year t \<le> 2255 \<and> 1 \<le> dt_month t \<and> dt_month t \<le> 12 \<and>
     1 \<le> dt_day t \<and> dt_day t \<le> 31 \<and> dt_hour t \<le> 23 \<and> dt_minute t \<le> 59 \<and> dt_second t \<le> 59"

definition op_time_ok :: "DataTime option \<Rightarrow> bool" where
  "op_time_ok t = (case t of None \<Rightarrow> True | Some t \<Rightarrow> time_ok t)"

definition received_time :: "DataTime option \<Rightarrow> DataTime" where
  "received_time t = (case t of None \<Rightarrow> DataTime_zero | Some t \<Rightarrow> t)"

lemma year_byte:
  fixes y :: u16
  assumes "2001 \<le> y" and "y \<le> 2255"
  shows "(ucast (y - 2000) :: u8) \<noteq> 0" and "2000 + ucast (ucast (y - 2000) :: u8) = y"
proof -
  from assms have y: "2001 \<le> unat y" "unat y \<le> 2255" by (simp_all add: word_le_nat_alt)
  then have d: "unat (y - 2000) = unat y - 2000"
    by (subst unat_sub_id) (auto simp: word_le_nat_alt)
  with y have u: "unat (ucast (y - 2000) :: u8) = unat y - 2000"
    by (subst unat_ucast_up) auto
  show "(ucast (y - 2000) :: u8) \<noteq> 0"
  proof
    assume "(ucast (y - 2000) :: u8) = 0"
    with u have "unat y - 2000 = 0" by simp
    with y show False by simp
  qed
  from u y show "2000 + ucast (ucast (y - 2000) :: u8) = y"
    by (simp add: word_unat_eq_iff unat_word_ariths)
qed

lemma time_of_enc_time:
  assumes "op_time_ok t"
  shows "time_of_bytes (enc_time t) = Some (received_time t)"
proof (cases t)
  case None
  then show ?thesis by (simp add: enc_time_def received_time_def numeral_eq_Suc)
next
  case (Some d)
  with assms have "time_ok d" by (simp add: op_time_ok_def)
  with year_byte [of "dt_year d"] have "(ucast (dt_year d - 2000) :: u8) \<noteq> 0"
    "2000 + ucast (ucast (dt_year d - 2000) :: u8) = dt_year d"
    by (simp_all add: time_ok_def)
  moreover from this(1) have "0 < (ucast (dt_year d - 2000) :: u8)" by (simp only: word_gt_0 not_False_eq_True)
  ultimately show ?thesis
    using Some \<open>time_ok d\<close> by (simp add: enc_time_def received_time_def time_ok_def)
qed

lemma ReadDataTime_enc:
  assumes "buf_ok b" and "buf_unread b = enc_time t @ rest" and "op_time_ok t" and "rest \<noteq> []"
  shows "yields (ReadDataTime b (Some t0)) (\<lambda>(rc, v, b').
    rc = 0 \<and> v = Some (received_time t) \<and> buf_ok b' \<and> buf_unread b' = rest)"
proof -
  have "dec_time (buf_unread b) = Some (received_time t, rest)"
    using assms(4) by (simp add: dec_time_def assms(2) time_of_enc_time [OF assms(3)])
  with ReadDataTime_spec [OF assms(1), of t0] show ?thesis
    by (auto elim!: yieldsE)
qed

lemma StringWithTime_transmits:
  assumes "alloc_sane mal" and "dst_ok dst" and "str_ok str" and "op_time_ok t"
  shows "transmits mal (PacketSavedataSimpleStringWithTime mal dst str t msg_id) SAVEDATA
           (unpack_both (UnpackSavedata mal) (\<lambda>b. UnpackSavedataSimpleStringWithTime mal b (Some t0)))
           ((dst, kTypeStringWithTime), (str, Some (received_time t)))"
proof (rule saving_transmits [OF assms(1,2)
      PacketSavedataSimpleStringWithTime_packs [OF alloc_sane_ok [OF assms(1)] assms(3,2)]])
  show "length (string_time_body dst msg_id t str) < 2 ^ 28"
    using assms length_enc_save_head [of dst msg_id] by (simp add: string_time_body_def str_ok_def)
  show "string_time_body dst msg_id t str =
      enc_save_head dst msg_id @ kTypeStringWithTime # enc_time t @ enc_str str"
    by (simp add: string_time_body_def)
next
  fix b assume b: "buf_ok b" "buf_unread b = enc_time t @ enc_str str"
  have "enc_str str \<noteq> []" by (simp add: enc_str_def be16_def)
  from ReadDataTime_enc [OF b assms(4) this] obtain b' where
    r: "ReadDataTime b (Some t0) = Some (0, Some (received_time t), b')" "buf_ok b'"
    "buf_unread b' = enc_str str"
    by (auto elim!: yieldsE)
  have "refines False (\<lambda>b. expect (ReadStr mal b) (-1034) (\<lambda>output b. Some (Inr (output, Some (received_time t)), b)))
      (parse_then dec_str (-1034) (\<lambda>s. parse_done (s, Some (received_time t))))"
    by (rule refines ReadStr_implements alloc_sane_ok assms)+
  from refines_yields [OF this _ r(2,3)] assms(3) r(1)
  show "yields (UnpackSavedataSimpleStringWithTime mal b (Some t0))
      (\<lambda>(r, _). r = Inr (str, Some (received_time t)))"
    by (simp add: UnpackSavedataSimpleStringWithTime_def parse_done_def)
qed

lemma UnpackFloat_loop_enc:
  assumes "length init = length xs" and "buf_ok b" and "buf_unread b = concat (map enc_dps xs) @ rest"
  shows "yields (UnpackFloat_loop init b) (\<lambda>(ys, b'). ys = xs \<and> buf_ok b' \<and> buf_unread b' = rest)"
  using assms
proof (induction xs arbitrary: init b)
  case (Cons x xs)
  then obtain e es where init: "init = e # es" "length es = length xs" by (cases init) auto
  have u: "buf_unread b = be16 (ds_id x) @ le32_bytes (f_data x) @ concat (map enc_dps xs) @ rest"
    using Cons.prems(3) by (simp add: enc_dps_def [of x])
  have "implements ReadUint16 dec_u16" by (rule ReadUint16_implements)
  with Cons.prems(2) u obtain b1 where
    r1: "ReadUint16 b = Some (Inr (ds_id x), b1)" "buf_ok b1"
    "buf_unread b1 = le32_bytes (f_data x) @ concat (map enc_dps xs) @ rest"
    by (auto simp: implements_def dec_u16_be16 elim!: yieldsE)
  have "le32_word (take 4 (buf_unread b1)) = f_data x"
    by (simp add: r1(3) le32_round)
  with ReadFloat_spec [OF r1(2)] r1(3) obtain b2 where
    r2: "ReadFloat b1 = Some (0, f_data x, b2)" "buf_ok b2" "buf_unread b2 = concat (map enc_dps xs) @ rest"
    by (auto elim!: yieldsE)
  from Cons.IH [OF init(2) r2(2,3)] r1(1) r2(1) show ?case
    by (auto simp: init(1) elim!: yieldsE)
qed simp

definition dps_alloc_ok :: "(u16 \<Rightarrow> FloatDPS list option) \<Rightarrow> bool" where
  "dps_alloc_ok mal_dps \<longleftrightarrow> (\<forall>n. \<exists>init. mal_dps n = Some init \<and> length init = unat n)"

lemma FloatWithTime_transmits:
  assumes "alloc_sane mal" and "dst_ok dst" and "dps_alloc_ok mal_dps" and "op_time_ok t"
    and "length xs \<le> 1000"
  shows "transmits mal (PackSavedataFloatWithTime mal dst xs (int (length xs)) t msg_id) SAVEDATA
           (unpack_both (UnpackSavedata mal) (\<lambda>b. UnpackSavedataFloatWithTime mal_dps b (Some t0)))
           ((dst, kTypeFloatWithTime), (xs, of_nat (length xs), Some (received_time t)))"
proof (rule saving_transmits [OF assms(1,2)])
  show "packs (PackSavedataFloatWithTime mal dst xs (int (length xs)) t msg_id)
      (frame SAVEDATA (float_body dst msg_id t xs))"
    using PackSavedataFloatWithTime_packs [OF alloc_sane_ok [OF assms(1)] assms(2), of "length xs" xs] assms(5)
    by simp
  show "length (float_body dst msg_id t xs) < 2 ^ 28"
    using assms length_enc_save_head [of dst msg_id] by (simp add: float_body_def length_enc_dps)
  let ?n = "of_nat (length xs) :: u16"
  show "float_body dst msg_id t xs = enc_save_head dst msg_id @ kTypeFloatWithTime #
      enc_time t @ be16 ?n @ concat (map enc_dps xs)"
    by (simp add: float_body_def)
  fix b assume b: "buf_ok b" "buf_unread b = enc_time t @ be16 ?n @ concat (map enc_dps xs)"
  have "be16 ?n @ concat (map enc_dps xs) \<noteq> []" by (simp add: be16_def)
  from ReadDataTime_enc [OF b assms(4) this] obtain b1 where
    r1: "ReadDataTime b (Some t0) = Some (0, Some (received_time t), b1)" "buf_ok b1"
    "buf_unread b1 = be16 ?n @ concat (map enc_dps xs)"
    by (auto elim!: yieldsE)
  have "implements ReadUint16 dec_u16" by (rule ReadUint16_implements)
  with r1(2,3) obtain b2 where r2: "ReadUint16 b1 = Some (Inr ?n, b2)" "buf_ok b2"
    "buf_unread b2 = concat (map enc_dps xs) @ []"
    by (auto simp: implements_def dec_u16_be16 elim!: yieldsE)
  obtain init where init: "mal_dps ?n = Some init" "length init = unat ?n"
    using assms(3) by (auto simp: dps_alloc_ok_def)
  then have "length init = length xs" using assms(5) by simp
  with UnpackFloat_loop_enc [OF _ r2(2,3), of init] init r1(1) r2(1)
  show "yields (UnpackSavedataFloatWithTime mal_dps b (Some t0))
      (\<lambda>(r, _). r = Inr (xs, ?n, Some (received_time t)))"
    by (auto simp: UnpackSavedataFloatWithTime_def expect_def elim!: yieldsE)
qed

section \<open>Software update response\<close>

definition enc_resp_entry :: "cstring \<times> cstring \<times> cstring \<times> bytes \<Rightarrow> bytes" where
  "enc_resp_entry e = (case e of (name, version, url, md5) \<Rightarrow>
     enc_str name @ enc_str version @ enc_str url @ md5)"

definition resp_entry_ok :: "cstring \<times> cstring \<times> cstring \<times> bytes \<Rightarrow> bool" where
  "resp_entry_ok e = (case e of (name, version, url, md5) \<Rightarrow>
     str_ok name \<and> str_ok version \<and> str_ok url \<and> length md5 = 32)"

definition resp_node :: "cstring \<times> cstring \<times> cstring \<times> bytes \<Rightarrow> UpdateInfo" where
  "resp_node e = (case e of (name, version, url, md5) \<Rightarrow>
     \<lparr>ui_name = Some name, ui_version = Some version, ui_url = Some url, ui_md5 = Some md5\<rparr>)"

text \<open>The body of the loop as a parser of one entry.\<close>

definition parse_entry :: "(cstring \<times> cstring \<times> cstring \<times> bytes) parser" where
  "parse_entry =
     parse_then dec_str (-1) (\<lambda>name.
     parse_then dec_str (-1) (\<lambda>version.
     parse_then dec_str (-1) (\<lambda>url.
     parse_then (dec_bytes 32) (-1) (\<lambda>md5. parse_done (name, version, url, md5)))))"

definition unpack_entry :: "allocator \<Rightarrow> edp_buffer \<Rightarrow> (cstring \<times> cstring \<times> cstring \<times> bytes) unpacked" where
  "unpack_entry mal pkg =
     expect (ReadStr mal pkg) (-1) (\<lambda>name pkg.
     expect (ReadStr mal pkg) (-1) (\<lambda>version pkg.
     expect (ReadStr mal pkg) (-1) (\<lambda>url pkg.
     expect (ReadBytes mal pkg 32) (-1) (\<lambda>md5 pkg. Some (Inr (name, version, url, md5), pkg)))))"

lemma unpack_entry_refines:
  assumes "alloc_sane mal"
  shows "refines False (unpack_entry mal) parse_entry"
proof -
  have "implements (\<lambda>b. ReadBytes mal b 32) (dec_bytes 32)"
    using ReadBytes_implements_sane [OF assms, of 32] by simp
  then show ?thesis
    unfolding unpack_entry_def [abs_def] parse_entry_def
    by - (rule refines ReadStr_implements alloc_sane_ok assms | assumption)+
qed

lemma UnpackUpdateResp_loop_step:
  "UnpackUpdateResp_loop (Suc fuel) mal pkg acc =
     (if buf_read_pos pkg = buf_write_pos pkg then Some (Inr (rev acc), pkg)
      else (case mal 20 of None \<Rightarrow> None
            | Some _ \<Rightarrow>
                (case unpack_entry mal pkg of
                   None \<Rightarrow> None
                 | Some (Inl rc, pkg') \<Rightarrow> Some (Inl (-1), pkg')
                 | Some (Inr e, pkg') \<Rightarrow> UnpackUpdateResp_loop fuel mal pkg' (resp_node e # acc))))"
  by (simp add: unpack_entry_def expect_def resp_node_def split: option.splits sum.splits)

lemma parse_entry_consumes:
  "parse_entry bs = Inr (e, rest) \<Longrightarrow> length rest < length bs"
proof -
  have u16: "dec_u16 xs = Some (v, r) \<Longrightarrow> length r < length xs" for xs v r
    by (cases xs rule: dec_u16.cases) auto
  have str: "dec_str xs = Some (v, r) \<Longrightarrow> length r < length xs" for xs v r
    using u16 by (fastforce simp: dec_str_def dec_bytes_def split: option.splits if_splits)
  assume "parse_entry bs = Inr (e, rest)"
  then obtain a b c r1 r2 r3 where "dec_str bs = Some (a, r1)" "dec_str r1 = Some (b, r2)"
    "dec_str r2 = Some (c, r3)" "rest = drop 32 r3"
    by (auto simp: parse_entry_def parse_then_def parse_done_def dec_bytes_def split: option.splits if_splits)
  then show ?thesis using str by (fastforce dest!: str)
qed

lemma UnpackUpdateResp_loop_total:
  assumes "alloc_sane mal" and "buf_ok b" and "length (buf_unread b) < fuel"
  shows "UnpackUpdateResp_loop fuel mal b acc \<noteq> None"
  using assms(2,3)
proof (induction fuel arbitrary: b acc)
  case (Suc fuel)
  obtain d where d: "mal 20 = Some d" using alloc_sane_ok [OF assms(1)] by (rule alloc_okE [where n = 20]) auto
  note r = refinesD [OF unpack_entry_refines [OF assms(1)] Suc.prems(1)]
  show ?case
  proof (cases "parse_entry (buf_unread b)")
    case (Inl rc)
    with r d show ?thesis
      by (auto simp: agrees_def UnpackUpdateResp_loop_step simp del: UnpackUpdateResp_loop.simps elim!: yieldsE)
  next
    case (Inr er)
    then obtain e rest where er: "parse_entry (buf_unread b) = Inr (e, rest)" by (cases er) auto
    with r obtain b' where b': "unpack_entry mal b = Some (Inr e, b')" "buf_ok b'" "buf_unread b' = rest"
      by (auto simp: agrees_def elim!: yieldsE)
    have "length (buf_unread b') < fuel"
      using parse_entry_consumes [OF er] b'(3) Suc.prems(2) by simp
    from Suc.IH [OF b'(2) this] b'(1) d show ?thesis
      by (auto simp: UnpackUpdateResp_loop_step simp del: UnpackUpdateResp_loop.simps)
  qed
qed simp

lemma UnpackUpdateResp_loop_entries:
  assumes "alloc_sane mal" and "\<forall>e \<in> set es. resp_entry_ok e" and "buf_ok b"
    and "buf_unread b = concat (map enc_resp_entry es)" and "length es < fuel"
  shows "yields (UnpackUpdateResp_loop fuel mal b acc) (\<lambda>(r, _). r = Inr (rev acc @ map resp_node es))"
  using assms(2-5)
proof (induction es arbitrary: fuel b acc)
  case Nil
  then show ?case by (cases fuel) (auto simp: unread_empty)
next
  case (Cons e es)
  then obtain f where fuel: "fuel = Suc f" "length es < f" by (cases fuel) auto
  obtain d where d: "mal 20 = Some d" using alloc_sane_ok [OF assms(1)] by (rule alloc_okE [where n = 20]) auto
  obtain name version url md5 where e: "e = (name, version, url, md5)" by (cases e)
  have "parse_entry (buf_unread b) = Inr (e, concat (map enc_resp_entry es))"
    using Cons.prems(1) by (simp add: Cons.prems(3) e parse_entry_def resp_entry_ok_def
        enc_resp_entry_def [of "(name, version, url, md5)"] parse_done_def)
  with refinesD [OF unpack_entry_refines [OF assms(1)] Cons.prems(2)] obtain b' where
    b': "unpack_entry mal b = Some (Inr e, b')" "buf_ok b'" "buf_unread b' = concat (map enc_resp_entry es)"
    by (auto simp: agrees_def elim!: yieldsE)
  have "buf_unread b \<noteq> []"
    using Cons.prems(3) by (simp add: e enc_resp_entry_def enc_str_def be16_def)
  then have "buf_read_pos b \<noteq> buf_write_pos b" using unread_empty [OF Cons.prems(2)] by simp
  with Cons.IH [OF _ b'(2,3) fuel(2), of "resp_node e # acc"] Cons.prems(1) b'(1) d show ?case
    by (simp add: fuel(1) UnpackUpdateResp_loop_step del: UnpackUpdateResp_loop.simps)
qed

end
