(* ===== verification/Edp_Contract.thy ===== *)
theory Edp_Contract
  imports Edp_Unpack_Laws
begin

text \<open>
  The properties of the EDP kit: what a packet carries from its packer through the receive
  buffer to its unpacker, which malformed input is rejected and how, and where the code stops
  short of its own comments.
\<close>

section \<open>Receiving\<close>

text \<open>C10. Stream reassembly. When the receive buffer holds any sequence of complete frames
  followed by a proper prefix of one more frame, calling \<open>GetEdpPacket\<close> until it returns
  \<open>NULL\<close> yields exactly those frames, in order, and leaves exactly the incomplete part in the
  buffer.\<close>

theorem stream_reassembled:
  assumes "alloc_ok mal"
    and "receives buf (concat (map (\<lambda>(t, body). frame t body) fs) @ part)"
    and "\<forall>(t, body) \<in> set fs. length body < 2 ^ 28"
    and "strict_prefix part (frame t' body')" and "length body' < 2 ^ 28"
    and "length fs < n"
  shows "yields (drain n mal buf) (\<lambda>(ps, buf').
    ps = map (\<lambda>(t, body). frame t body) fs \<and> receives buf' part)"
  using assms by (rule drain_frames)

lemma witness_buffer:
  assumes "length bs < 2 ^ 31"
  shows "receives \<lparr>buf_data = bs, buf_write_pos = of_nat (length bs), buf_read_pos = 0,
                   buf_capacity = of_nat (length bs)\<rparr> bs"
  using assms by (simp add: receives_def buf_ok_def buf_content_def)

theorem stream_reassembled_witness:
  "yields (drain 3 calloc \<lparr>buf_data = [0xD0, 0, 0xC0, 1, 7, 0x30, 2], buf_write_pos = 7,
                           buf_read_pos = 0, buf_capacity = 7\<rparr>)
     (\<lambda>(ps, buf'). ps = [[0xD0, 0], [0xC0, 1, 7]] \<and> receives buf' [0x30, 2])"
  using stream_reassembled [of calloc "\<lparr>buf_data = [0xD0, 0, 0xC0, 1, 7, 0x30, 2],
      buf_write_pos = 7, buf_read_pos = 0, buf_capacity = 7\<rparr>" "[(0xD0, []), (0xC0, [7])]"
      "[0x30, 2]" "0x30" "[5, 6]" 3]
    witness_buffer [of "[0xD0, 0, 0xC0, 1, 7, 0x30, 2]"]
  by (simp add: frame_def enc_remlen_small)

text \<open>\<open>IsPkgComplete\<close> decides framing as a function of the bytes received: 0 (keep
  receiving) with fewer than two bytes, with a length field that is still open or with a body
  still incomplete; -1 when four length digits all ask for another; otherwise the exact number
  of bytes of the first packet.\<close>

theorem IsPkgComplete_decides:
  assumes "buf_ok buf"
  shows "IsPkgComplete buf = Some
    (if length (buf_content buf) \<le> 1 then 0
     else (case dec_remlen 4 (tl (buf_content buf)) of
       None \<Rightarrow> (if 5 \<le> length (buf_content buf) then -1 else 0)
     | Some (n, r) \<Rightarrow>
         (if unat n \<le> length r then int (length (buf_content buf) - length r + unat n) else 0)))"
  using assms by (rule IsPkgComplete_spec)

section \<open>Delivery\<close>

text \<open>A forwarded message arrives: what \<open>PacketPushdata\<close> packs is cut out of the stream
  as one packet of type \<open>PUSHDATA\<close>, and \<open>UnpackPushdata\<close> returns the destination, the data
  and its length.\<close>

theorem Pushdata_delivered:
  assumes "alloc_sane mal" and "str_ok dst" and "length data < 2 ^ 27"
  shows "transmits mal (PacketPushdata mal dst data (of_nat (length data))) PUSHDATA
           (UnpackPushdata mal) (dst, data, of_nat (length data))"
  using assms by (rule Pushdata_transmits)

text \<open>C23. A binary data point arrives, with or without destination and message id: the two
  unpacking steps return the destination, the kind, the description and the data.\<close>

theorem SavedataBin_delivered:
  assumes "alloc_sane mal" and "dst_ok dst" and "str_ok desc" and "length data \<le> 3 * 2 ^ 20"
  shows "transmits mal (PacketSavedataBinStr mal dst desc data (of_nat (length data)) msg_id) SAVEDATA
           (unpack_both (UnpackSavedata mal) (UnpackSavedataBinStr mal))
           ((dst, kTypeBin), (desc, data, of_nat (length data)))"
  using assms by (rule BinStr_transmits)

theorem SavedataBin_delivered_witness:
  "transmits calloc (PacketSavedataBinStr calloc (Some [0x39]) [0x7B, 0x7D] [1, 2, 3] 3 258) SAVEDATA
     (unpack_both (UnpackSavedata calloc) (UnpackSavedataBinStr calloc))
     ((Some [0x39], kTypeBin), ([0x7B, 0x7D], [1, 2, 3], 3))"
  using SavedataBin_delivered [of calloc "Some [0x39]" "[0x7B, 0x7D]" "[1, 2, 3]" 258]
  by (simp add: dst_ok_def str_ok_def)

text \<open>A string arrives.\<close>

theorem SimpleString_delivered:
  assumes "alloc_sane mal" and "dst_ok dst" and "str_ok str"
  shows "transmits mal (PacketSavedataSimpleString mal dst str msg_id) SAVEDATA
           (unpack_both (UnpackSavedata mal) (UnpackSavedataSimpleString mal))
           ((dst, kTypeString), str)"
  using assms by (rule SimpleString_transmits)

theorem SimpleString_delivered_witness:
  "transmits calloc (PacketSavedataSimpleString calloc None [0x2C, 0x3B] 0) SAVEDATA
     (unpack_both (UnpackSavedata calloc) (UnpackSavedataSimpleString calloc))
     ((None, kTypeString), [0x2C, 0x3B])"
  using SimpleString_delivered [of calloc None "[0x2C, 0x3B]" 0] by (simp add: dst_ok_def str_ok_def)

text \<open>A string with a time stamp arrives with its time, for years 2001 to 2255; without a
  time the receiver sees all zeros.\<close>

theorem StringWithTime_delivered:
  assumes "alloc_sane mal" and "dst_ok dst" and "str_ok str" and "op_time_ok t"
  shows "transmits mal (PacketSavedataSimpleStringWithTime mal dst str t msg_id) SAVEDATA
           (unpack_both (UnpackSavedata mal) (\<lambda>b. UnpackSavedataSimpleStringWithTime mal b (Some t0)))
           ((dst, kTypeStringWithTime), (str, Some (received_time t)))"
  using assms by (rule StringWithTime_transmits)

abbreviation sample_time :: DataTime where
  "sample_time \<equiv> \<lparr>dt_year = 2016, dt_month = 4, dt_day = 5, dt_hour = 14, dt_minute = 30,
                  dt_second = 28\<rparr>"

theorem StringWithTime_delivered_witness:
  "transmits calloc (PacketSavedataSimpleStringWithTime calloc None [0x61] (Some sample_time) 1) SAVEDATA
     (unpack_both (UnpackSavedata calloc)
       (\<lambda>b. UnpackSavedataSimpleStringWithTime calloc b (Some DataTime_zero)))
     ((None, kTypeStringWithTime), ([0x61], Some sample_time))"
  using StringWithTime_delivered [of calloc None "[0x61]" "Some sample_time" 1 DataTime_zero]
  by (simp add: dst_ok_def str_ok_def op_time_ok_def time_ok_def received_time_def)

text \<open>Up to 1000 floats arrive bit for bit, with their ids, their number and their time.\<close>

theorem Floats_delivered:
  assumes "alloc_sane mal" and "dst_ok dst" and "dps_alloc_ok mal_dps" and "op_time_ok t"
    and "length xs \<le> 1000"
  shows "transmits mal (PackSavedataFloatWithTime mal dst xs (int (length xs)) t msg_id) SAVEDATA
           (unpack_both (UnpackSavedata mal) (\<lambda>b. UnpackSavedataFloatWithTime mal_dps b (Some t0)))
           ((dst, kTypeFloatWithTime), (xs, of_nat (length xs), Some (received_time t)))"
  using assms by (rule FloatWithTime_transmits)

section \<open>Malformed input\<close>

text \<open>C28. On any received packet \<open>UnpackCmdReq\<close> either returns the error code of the first
  field that is cut short, or returns the fields when nothing follows them, or, exactly when
  bytes follow the last field, stops in its assertion; it never leaves the packet's buffer.\<close>

theorem UnpackCmdReq_decides:
  assumes "alloc_sane mal" and "buf_ok pkg"
  shows "case parse_cmdreq (buf_unread pkg) of
     Inl rc \<Rightarrow> yields (UnpackCmdReq mal pkg) (\<lambda>(r, pkg'). r = Inl rc \<and> buf_ok pkg')
   | Inr (v, []) \<Rightarrow> yields (UnpackCmdReq mal pkg) (\<lambda>(r, pkg'). r = Inr v \<and> buf_unread pkg' = [])
   | Inr (v, _ # _) \<Rightarrow> UnpackCmdReq mal pkg = None"
  using refinesD [OF UnpackCmdReq_refines [OF assms(1)] assms(2)]
  by (auto simp: agrees_def elim!: yieldsE split: sum.splits list.splits)

abbreviation packet_of :: "bytes \<Rightarrow> edp_buffer" where
  "packet_of bs \<equiv> \<lparr>buf_data = bs, buf_write_pos = of_nat (length bs), buf_read_pos = 0,
                   buf_capacity = of_nat (length bs)\<rparr>"

lemma packet_of_ok: "length bs < 2 ^ 31 \<Longrightarrow> buf_ok (packet_of bs) \<and> buf_unread (packet_of bs) = bs"
  by (simp add: buf_ok_def buf_content_def buf_unread_def)

theorem UnpackCmdReq_decides_witness:
  "UnpackCmdReq calloc (packet_of (enc_remlen 8 @ be16 1 @ [0x31] @ be32 1 @ [0x32] @ [0])) = None"
proof -
  let ?bs = "enc_remlen 8 @ be16 1 @ [0x31] @ be32 1 @ [0x32] @ [0]"
  have "length ?bs < 2 ^ 31" by (simp add: enc_remlen_small)
  moreover have "parse_cmdreq ?bs = Inr (([0x31], 1, [0x32], 1), [0])"
    by (simp add: parse_cmdreq_def parse_done_def parse_then_def [of "dec_bytes _"] dec_bytes_def)
  ultimately show ?thesis
    using UnpackCmdReq_decides [of calloc "packet_of ?bs"] packet_of_ok [of ?bs] by simp
qed

text \<open>C35. \<open>UnpackUpdateResp\<close> returns on every received packet: each round of its loop
  consumes bytes, so one more round than there are unread bytes is always enough.\<close>

theorem UnpackUpdateResp_returns:
  assumes "alloc_sane mal" and "buf_ok pkg" and "length (buf_unread pkg) < fuel"
  shows "\<exists>r pkg'. UnpackUpdateResp fuel mal pkg = Some (r, pkg')"
proof -
  have "implements ReadRemainlen (dec_remlen 4)" by (rule ReadRemainlen_implements)
  with assms(2) obtain r b where rd: "ReadRemainlen pkg = Some (r, b)" "buf_ok b"
    "case dec_remlen 4 (buf_unread pkg) of None \<Rightarrow> r = Inl (-1)
     | Some (v, rest) \<Rightarrow> r = Inr v \<and> buf_unread b = rest"
    by (auto simp: implements_def elim!: yieldsE)
  show ?thesis
  proof (cases "dec_remlen 4 (buf_unread pkg)")
    case None
    with rd show ?thesis by (simp add: UnpackUpdateResp_def expect_def)
  next
    case (Some vr)
    then obtain v where v: "r = Inr v" "length (buf_unread b) < length (buf_unread pkg)"
      using rd(3) dec_remlen_length by (cases vr) auto
    with assms(3) have "UnpackUpdateResp_loop fuel mal b [] \<noteq> None"
      by (intro UnpackUpdateResp_loop_total [OF assms(1) rd(2)]) simp
    with rd(1) v(1) show ?thesis by (auto simp: UnpackUpdateResp_def expect_def)
  qed
qed

theorem UnpackUpdateResp_returns_witness:
  "\<exists>r pkg'. UnpackUpdateResp 4 calloc (packet_of [2, 0, 9]) = Some (r, pkg')"
  using UnpackUpdateResp_returns [of calloc "packet_of [2, 0, 9]" 4] packet_of_ok [of "[2, 0, 9]"]
  by simp

text \<open>A well-formed update response is returned as the list of its entries, in order,
  each with its name, version, url and 32 bytes of digest.\<close>

theorem UnpackUpdateResp_entries:
  assumes "alloc_sane mal" and "\<forall>e \<in> set es. resp_entry_ok e" and "buf_ok pkg"
    and "buf_unread pkg = enc_remlen n @ concat (map enc_resp_entry es)" and "n < 2 ^ 28"
    and "length es < fuel"
  shows "yields (UnpackUpdateResp fuel mal pkg) (\<lambda>(r, _). r = Inr (map resp_node es))"
proof -
  have "implements ReadRemainlen (dec_remlen 4)" by (rule ReadRemainlen_implements)
  moreover have "dec_remlen 4 (buf_unread pkg) = Some (of_nat n, concat (map enc_resp_entry es))"
    using assms(5) unfolding assms(4) by (intro dec_remlen_enc) auto
  ultimately obtain b where "ReadRemainlen pkg = Some (Inr (of_nat n), b)" "buf_ok b"
    "buf_unread b = concat (map enc_resp_entry es)"
    using assms(3) by (auto simp: implements_def elim!: yieldsE)
  with UnpackUpdateResp_loop_entries [OF assms(1,2) _ _ assms(6), of b "[]"] show ?thesis
    by (simp add: UnpackUpdateResp_def expect_def)
qed

text \<open>\<open>ReadDataTime\<close> accepts exactly six zero bytes or six bytes in range with a nonzero
  year, and only when at least one more byte follows; it returns the decoded time and leaves
  the following bytes unread.\<close>

theorem ReadDataTime_decides:
  assumes "buf_ok pkg"
  shows "yields (ReadDataTime pkg (Some t0)) (\<lambda>(rc, t, pkg').
    buf_ok pkg' \<and> buf_content pkg' = buf_content pkg \<and>
    (case dec_time (buf_unread pkg) of
       None \<Rightarrow> rc = -1
     | Some (v, rest) \<Rightarrow> rc = 0 \<and> t = Some v \<and> buf_unread pkg' = rest))"
  using assms by (rule ReadDataTime_spec)

theorem ReadDataTime_decides_witness:
  "yields (ReadDataTime (packet_of [16, 4, 5, 14, 30, 28, 0]) (Some DataTime_zero))
     (\<lambda>(rc, t, pkg'). rc = 0 \<and> t = Some sample_time \<and> buf_unread pkg' = [0])"
  using ReadDataTime_decides [of "packet_of [16, 4, 5, 14, 30, 28, 0]" DataTime_zero]
    packet_of_ok [of "[16, 4, 5, 14, 30, 28, 0]"]
  by (auto simp: dec_time_def elim!: yieldsE)

section \<open>Sending\<close>

text \<open>Growing a buffer keeps what it holds, makes room for the requested bytes and does
  not fail, for any content and request that add up to less than a gigabyte.\<close>

theorem CheckCapacity_grows:
  assumes "alloc_ok mal" and "holds b bs" and "length bs + unat len < 2 ^ 30"
  shows "yields (CheckCapacity mal b len)
           (\<lambda>(rc, b'). rc = 0 \<and> holds b' bs \<and> length bs + unat len \<le> length (buf_data b'))"
  using assms by (rule CheckCapacity_holds)

text \<open>The bytes of a connect request: type, correct remaining length, protocol name and
  version, flags, keep-alive time, device id and key.\<close>

theorem PacketConnect1_wire:
  assumes "alloc_ok mal" and "str_ok devid" and "str_ok auth_key"
  shows "\<exists>b. PacketConnect1 mal devid auth_key = Some (Some b) \<and>
    buf_content b = frame CONNREQ (enc_str [0x45, 0x44, 0x50] @ [1, 0x40] @ be16 300 @
      enc_str devid @ enc_str auth_key)"
  using packs_bytes [OF PacketConnect1_packs [OF assms]] by (auto simp: connect1_body_def)

lemma byte_300: "(300 :: u8) = 44"
  by simp

theorem PacketConnect1_wire_witness:
  "\<exists>b. PacketConnect1 calloc [0x31] [0x6B] = Some (Some b) \<and>
     buf_content b = [0x10, 15, 0, 3, 0x45, 0x44, 0x50, 1, 0x40, 1, 44, 0, 1, 0x31, 0, 1, 0x6B]"
  using PacketConnect1_wire [of calloc "[0x31]" "[0x6B]"] byte_300
  by (simp add: str_ok_def frame_def enc_str_def be16_def enc_remlen_small)

text \<open>Sending a binary data point in two parts is the same as sending it whole: the bytes
  of \<open>PacketSavedataBinHead\<close> followed by the data are the bytes of \<open>PacketSavedataBin\<close>.\<close>

theorem BinHead_then_data:
  assumes "alloc_ok mal" and "print obj = Some desc" and "has_ds_id obj" and "str_ok desc"
    and "dst_ok dst" and "length data \<le> 3 * 2 ^ 20"
  shows "\<exists>h w. PacketSavedataBinHead mal print has_ds_id dst obj (of_nat (length data)) msg_id = Some (Some h) \<and>
    PacketSavedataBin mal print has_ds_id dst obj data (of_nat (length data)) msg_id = Some (Some w) \<and>
    buf_content w = buf_content h @ data"
  using packs_bytes [OF PacketSavedataBinHead_packs [OF assms(1), of print obj desc has_ds_id dst "length data" msg_id]]
    packs_bytes [OF PacketSavedataBinStr_packs [OF assms(1,4-6), of msg_id]] assms
  by (auto simp: PacketSavedataBin_eq_BinStr frame_def)

theorem BinHead_then_data_witness:
  "\<exists>h w. PacketSavedataBinHead calloc (\<lambda>_. Some [0x7B, 0x7D]) (\<lambda>_. True) None () 2 1 = Some (Some h) \<and>
    PacketSavedataBin calloc (\<lambda>_. Some [0x7B, 0x7D]) (\<lambda>_. True) None () [9, 8] 2 1 = Some (Some w) \<and>
    buf_content w = buf_content h @ [9, 8]"
  using BinHead_then_data [of calloc "\<lambda>_. Some [0x7B, 0x7D]" "()" "[0x7B, 0x7D]" "\<lambda>_. True" None "[9, 8]" 1]
  by (simp add: str_ok_def dst_ok_def)

text \<open>The size check of the binary packers is off by one: a description of 65536 bytes
  passes it, its 16-bit length is written as 0 and none of its bytes are, while the remaining
  length announces them all.\<close>

theorem SavedataBin_description_65536:
  assumes "alloc_ok mal" and "length desc = 65536" and "dst_ok dst" and "length data \<le> 3 * 2 ^ 20"
  shows "\<exists>b body. PacketSavedataBinStr mal dst desc data (of_nat (length data)) msg_id = Some (Some b) \<and>
    buf_content b = SAVEDATA # enc_remlen (length body + 65536) @ body"
proof -
  let ?n = "length data"
  let ?xs = "enc_save_head dst msg_id @ [kTypeBin] @ be16 0 @ be32 (of_nat ?n)"
  have str: "emits (Pair 0) (\<lambda>b. WriteStr mal b desc) (be16 0)"
    unfolding emits_def
  proof (intro allI impI)
    fix b bs assume h: "holds b bs" "length bs + length (be16 0) < 2 ^ 30"
    have "(of_nat (length desc) :: u16) = 0" using assms(2) by (simp add: word_unat_eq_iff unat_of_nat_mod)
    then show "yields (WriteStr mal b desc) (\<lambda>r. \<exists>b'. r = (0, b') \<and> holds b' (bs @ be16 0))"
      using assms(1) h by (auto simp: WriteStr_def Let_def holds_read_pos intro!: wp)
  qed
  have small: "length (enc_save_head dst msg_id) < 2 ^ 16 + 5"
    using assms(3) by (rule length_enc_save_head)
  have "yields (NewBuffer mal) (\<lambda>b. yields (WriteSavedataBin mal dst desc (of_nat ?n) msg_id b)
    (\<lambda>r. \<exists>b'. r = b' \<and> holds b' (SAVEDATA # enc_remlen (length (?xs @ data) + 65536) @ ?xs)))"
    unfolding WriteSavedataBin_def Let_def
    by (rule emits_start [OF assms(1)], rule emits_cong, (rule emits str assms)+)
      (use assms small in \<open>simp_all add: c_strlen_def save_head_len\<close>)
  then obtain b b' where b: "NewBuffer mal = Some b"
    "WriteSavedataBin mal dst desc (of_nat ?n) msg_id b = Some b'" and
    h: "holds b' (SAVEDATA # enc_remlen (length (?xs @ data) + 65536) @ ?xs)"
    by (auto elim!: yieldsE)
  have "length (enc_remlen (length (?xs @ data) + 65536)) \<le> 4"
    using assms small by (intro length_enc_remlen) auto
  then have "yields (WriteBytes mal b' data (of_nat ?n)) (\<lambda>r. \<exists>b''. r = (0, b'') \<and>
      holds b'' ((SAVEDATA # enc_remlen (length (?xs @ data) + 65536) @ ?xs) @ data))"
    using assms h small by (intro emitsD [OF emits_WriteBytes]) auto
  moreover have "\<not> bin_args_bad desc (of_nat ?n)" using assms(2,4) by (intro bin_args_ok) auto
  ultimately show ?thesis
    using b by (fastforce simp: PacketSavedataBinStr_def holds_def elim!: yieldsE
        intro!: exI [of _ "?xs @ data"])
qed

text \<open>An update request lists the name and version of every node, in order, behind a
  correct remaining length.\<close>

theorem PacketUpdateReq_wire:
  assumes "alloc_ok mal" and "\<forall>u \<in> set us. update_entry_ok u"
    and "length (concat (map enc_update_entry us)) < 2 ^ 28"
  shows "\<exists>b. PacketUpdateReq mal us = Some (Some b) \<and>
           buf_content b = frame UPDATEREQ (concat (map enc_update_entry us))"
  using packs_bytes [OF PacketUpdateReq_packs [OF assms]] by blast

theorem PacketUpdateReq_wire_witness:
  "\<exists>b. PacketUpdateReq calloc [\<lparr>ui_name = Some [0x61], ui_version = Some [], ui_url = None,
      ui_md5 = None\<rparr>] = Some (Some b) \<and> buf_content b = [0x50, 5, 0, 1, 0x61, 0, 0]"
  using PacketUpdateReq_wire [of calloc "[\<lparr>ui_name = Some [0x61], ui_version = Some [],
      ui_url = None, ui_md5 = None\<rparr>]"]
  by (simp add: update_entry_ok_def enc_update_entry_def str_ok_def frame_def enc_str_def be16_def
      enc_remlen_small)

text \<open>A node without a name, with an empty name or without a version makes
  \<open>PacketUpdateReq\<close> return \<open>NULL\<close>.\<close>

theorem PacketUpdateReq_rejects:
  assumes "alloc_ok mal" and "\<exists>u \<in> set us. ui_name u = None \<or> ui_name u = Some [] \<or> ui_version u = None"
  shows "PacketUpdateReq mal us = Some None"
  using assms by (rule PacketUpdateReq_reject)

theorem PacketUpdateReq_rejects_witness:
  "PacketUpdateReq calloc [\<lparr>ui_name = Some [], ui_version = Some [0x31], ui_url = None,
      ui_md5 = None\<rparr>] = Some None"
  using PacketUpdateReq_rejects [of calloc "[\<lparr>ui_name = Some [], ui_version = Some [0x31],
      ui_url = None, ui_md5 = None\<rparr>]"]
  by simp

end
