(* ===== verification/Cis_Types.thy ===== *)
theory Cis_Types
  imports Prelude
begin

text \<open>
  The data of the LwM2M client that several files share, from \<open>cis_internals.h\<close> and \<open>cis_api.h\<close>:
  enumerations, URIs and the tree of LwM2M values. A \<open>double\<close> is the 64-bit pattern that
  represents it, an \<open>int64_t\<close> a 64-bit word read as signed.

  A function that reports failure by returning 0 or -1 and otherwise fills its output arguments
  returns \<open>Fail\<close> or \<open>Done\<close> of the outputs.
\<close>

type_synonym 'a status = "unit + 'a"

abbreviation Fail :: "'a status" where "Fail \<equiv> Inl ()"
abbreviation Done :: "'a \<Rightarrow> 'a status" where "Done \<equiv> Inr"

datatype et_data_type =
    DATA_TYPE_UNDEFINE | DATA_TYPE_STRING | DATA_TYPE_OPAQUE | DATA_TYPE_INTEGER
  | DATA_TYPE_FLOAT | DATA_TYPE_BOOL | DATA_TYPE_LINK
  | DATA_TYPE_OBJECT | DATA_TYPE_OBJECT_INSTANCE | DATA_TYPE_MULTIPLE_RESOURCE

datatype et_media_type =
    LWM2M_CONTENT_TEXT | LWM2M_CONTENT_LINK | LWM2M_CONTENT_OPAQUE | LWM2M_CONTENT_TLV
  | LWM2M_CONTENT_TLV_NEW | LWM2M_CONTENT_JSON

datatype et_binding =
    BINDING_UNKNOWN | BINDING_U | BINDING_UQ | BINDING_S | BINDING_SQ | BINDING_US | BINDING_UQS

datatype uri_depth =
    URI_DEPTH_OBJECT | URI_DEPTH_OBJECT_INSTANCE | URI_DEPTH_RESOURCE | URI_DEPTH_RESOURCE_INSTANCE

record st_uri =
  uri_flag :: u8
  uri_objectId :: u16
  uri_instanceId :: u16
  uri_resourceId :: u16

abbreviation (input) URI_FLAG_OBJECT_ID :: u8 where "URI_FLAG_OBJECT_ID \<equiv> 0x04"
abbreviation (input) URI_FLAG_INSTANCE_ID :: u8 where "URI_FLAG_INSTANCE_ID \<equiv> 0x02"
abbreviation (input) URI_FLAG_RESOURCE_ID :: u8 where "URI_FLAG_RESOURCE_ID \<equiv> 0x01"
abbreviation (input) URI_FLAG_DELETE_ALL :: u8 where "URI_FLAG_DELETE_ALL \<equiv> 0x10"
abbreviation (input) URI_FLAG_REGISTRATION :: u8 where "URI_FLAG_REGISTRATION \<equiv> 0x20"
abbreviation (input) URI_FLAG_BOOTSTRAP :: u8 where "URI_FLAG_BOOTSTRAP \<equiv> 0x40"
abbreviation (input) URI_MASK_TYPE :: u8 where "URI_MASK_TYPE \<equiv> 0x70"
abbreviation (input) URI_INVALID :: u16 where "URI_INVALID \<equiv> 0xFFFF"
abbreviation (input) URI_MAX_ID :: u16 where "URI_MAX_ID \<equiv> 0xFFFE"

definition uri_zero :: st_uri where
  "uri_zero = \<lparr>uri_flag = 0, uri_objectId = 0, uri_instanceId = 0, uri_resourceId = 0\<rparr>"

definition CIS_URI_IS_SET_INSTANCE :: "st_uri \<Rightarrow> bool" where
  "CIS_URI_IS_SET_INSTANCE u \<longleftrightarrow> uri_flag u AND URI_FLAG_INSTANCE_ID \<noteq> 0"

definition CIS_URI_IS_SET_RESOURCE :: "st_uri \<Rightarrow> bool" where
  "CIS_URI_IS_SET_RESOURCE u \<longleftrightarrow> uri_flag u AND URI_FLAG_RESOURCE_ID \<noteq> 0"

text \<open>\<open>asBuffer\<close> is the list of its bytes; \<open>value\<close> is a union, whose member in use is a constructor.\<close>

datatype st_data =
  Data (sd_id: u16) (sd_type: et_data_type) (sd_buffer: bytes) (sd_value: data_value)
and data_value =
    NoValue | AsBoolean bool | AsInteger u64 | AsFloat u64 | AsChildren "st_data list"

end
