(* ===== verification/Cis_Utils.thy ===== *)
theory Cis_Utils
  imports Cis_Types
begin

text \<open>
  \<open>cis_utils.c\<close>: conversions between numbers, texts and byte strings. A text written into a
  caller's array is a list of the array's size. A C string is the list of its bytes, ended by
  the first zero byte or the end of the list.
\<close>

section \<open>Bytes in memory\<close>

text \<open>The \<open>n\<close> bytes of a variable in the memory of a little-endian machine, and back.\<close>

definition to_mem :: "nat \<Rightarrow> 'a::len word \<Rightarrow> bytes" where
  "to_mem n w = map (\<lambda>i. ucast (drop_bit (8 * i) w)) [0..<n]"

definition from_mem :: "bytes \<Rightarrow> 'a::len word" where
  "from_mem bs = foldr (\<lambda>b w. ucast b OR push_bit 8 w) bs 0"

text \<open>\<open>LWM2M_LITTLE_ENDIAN\<close> is defined: the copy reverses the bytes.\<close>

definition utils_copyValue :: "bytes \<Rightarrow> nat \<Rightarrow> bytes option" where
  "utils_copyValue src len = map_option rev (aslice src 0 len)"

definition utils_opaqueToInt :: "bytes \<Rightarrow> int \<times> u64" where
  "utils_opaqueToInt buffer =
     (if length buffer = 1 then (1, scast (hd buffer))
      else if length buffer = 2 then (2, scast (from_mem (rev buffer) :: u16))
      else if length buffer = 4 then (4, scast (from_mem (rev buffer) :: u32))
      else if length buffer = 8 then (8, from_mem (rev buffer))
      else (0, 0))"

text \<open>The bytes put into \<open>data_buffer\<close>; their number is the return value.\<close>

definition utils_encodeInt :: "u64 \<Rightarrow> bytes" where
  "utils_encodeInt data =
     (if - (2 ^ 7) \<le> sint data \<and> sint data < 2 ^ 7 then [ucast data]
      else if - (2 ^ 15) \<le> sint data \<and> sint data < 2 ^ 15
      then (let v = ucast data :: u16 in [ucast (drop_bit 8 v AND 0xFF), ucast (v AND 0xFF)])
      else if - (2 ^ 31) \<le> sint data \<and> sint data < 2 ^ 31 then rev (to_mem 4 (ucast data :: u32))
      else rev (to_mem 8 data))"

section \<open>Decimal texts\<close>

fun plain_digits :: "bytes \<Rightarrow> u64 \<Rightarrow> u64 status" where
  "plain_digits [] result = Done result"
| "plain_digits (c # cs) result =
     (if 0x30 \<le> c \<and> c \<le> 0x39
      then (if 0xFFFFFFFFFFFFFFFF div 10 < result then Fail
            else plain_digits cs (result * 10 + ucast (c - 0x30)))
      else Fail)"

definition utils_plainTextToInt64 :: "bytes \<Rightarrow> u64 status" where
  "utils_plainTextToInt64 buffer =
     (if buffer = [] then Fail
      else (let minus = (hd buffer = 0x2D) in
            case plain_digits (if minus then tl buffer else buffer) 0 of
              Inl _ \<Rightarrow> Fail
            | Inr result \<Rightarrow>
                if 0x7FFFFFFFFFFFFFFF < result then Fail
                else Done (if minus then 0 - result else result)))"

text \<open>
  The \<open>do ... while\<close> loop of \<open>utils_intToText\<close> from position \<open>index\<close> downwards: what is left of the
  number, the text and the index afterwards.
\<close>

fun int_text_loop :: "int \<Rightarrow> bytes \<Rightarrow> nat \<Rightarrow> (int \<times> bytes \<times> int) option" where
  "int_text_loop data text 0 = do {
     text \<leftarrow> astore text 0 (of_int (0x30 + data mod 10));
     Some (data div 10, text, -1) }"
| "int_text_loop data text (Suc index) = do {
     text \<leftarrow> astore text (Suc index) (of_int (0x30 + data mod 10));
     if data div 10 > 0 then int_text_loop (data div 10) text index
     else Some (data div 10, text, int index) }"

text \<open>
  \<open>data\<close> is an \<open>int64_t\<close>; negating the smallest one overflows. The length 0 stands for an error.
\<close>

definition utils_intToText :: "int \<Rightarrow> bytes \<Rightarrow> (nat \<times> bytes) option" where
  "utils_intToText data text =
     (let minus = (data < 0) in
      if data = - (2 ^ 63) \<or> text = [] then None
      else do {
        (rest, text, index) \<leftarrow> int_text_loop (if minus then 0 - data else data) text (length text - 1);
        if rest > 0 then Some (0, text)
        else if minus \<and> index = 0 then Some (0, text)
        else if minus \<and> index < 0 then None
        else do {
          text \<leftarrow> (if minus then astore text (nat index) 0x2D else Some text);
          let start = (if minus then nat index else nat (index + 1));
          let result = length text - start;
          Some (result, drop start text @ drop result text) } })"

text \<open>\<open>mal\<close> is \<open>cis_malloc\<close>. The length and the allocated text; nothing when it returns 0.\<close>

definition utils_int64ToPlainText :: "(u32 \<Rightarrow> bytes option) \<Rightarrow> u64 \<Rightarrow> bytes status option" where
  "utils_int64ToPlainText mal data = do {
     (len, text) \<leftarrow> utils_intToText (sint data) (replicate 32 0);
     if len = 0 then Some Fail
     else case mal (of_nat len) of
       None \<Rightarrow> Some Fail
     | Some _ \<Rightarrow> Some (Done (take len text)) }"

definition utils_boolToPlainText :: "(u32 \<Rightarrow> bytes option) \<Rightarrow> bool \<Rightarrow> bytes status option" where
  "utils_boolToPlainText mal data = utils_int64ToPlainText mal (if data then 1 else 0)"

text \<open>The bytes copied with the terminating zero, or -1 when the buffer of \<open>len\<close> bytes is too small.\<close>

definition utils_stringCopy :: "bytes \<Rightarrow> nat \<Rightarrow> bytes \<Rightarrow> (int \<times> bytes) option" where
  "utils_stringCopy buffer len str =
     (let s = takeWhile (\<lambda>c. c \<noteq> 0) str in
      if len \<le> length s
      then do { buffer \<leftarrow> ablit buffer 0 (take len s); Some (-1, buffer) }
      else do { buffer \<leftarrow> ablit buffer 0 (s @ [0]); Some (int (length s), buffer) })"

definition utils_intCopy :: "bytes \<Rightarrow> nat \<Rightarrow> int \<Rightarrow> (int \<times> bytes) option" where
  "utils_intCopy buffer len v = do {
     (n, str) \<leftarrow> utils_intToText v (replicate 11 0);
     if n = 0 then Some (-1, buffer)
     else if len + 1 < n then Some (-1, buffer)
     else do {
       buffer \<leftarrow> ablit buffer 0 (take n str);
       buffer \<leftarrow> astore buffer n 0;
       Some (int n, buffer) } }"

fun strtoi_digits :: "bytes \<Rightarrow> int \<Rightarrow> (int \<times> bytes) option" where
  "strtoi_digits [] v = Some (v, [])"
| "strtoi_digits (c # cs) v =
     (if 0x30 \<le> c \<and> c \<le> 0x39
      then (if v * 10 + (uint c - 0x30) < 2 ^ 31 then strtoi_digits cs (v * 10 + (uint c - 0x30)) else None)
      else Some (v, c # cs))"

text \<open>The number and the rest of the string (\<open>endptr\<close>); undefined when the \<open>int\<close> overflows.\<close>

definition utils_strtoi :: "bytes \<Rightarrow> (int \<times> bytes) option" where
  "utils_strtoi str =
     (let p = dropWhile (\<lambda>c. c = 0x20) str;
          neg = (p \<noteq> [] \<and> hd p = 0x2D)
      in map_option (\<lambda>(v, rest). (if neg then - v else v, rest))
           (strtoi_digits (if neg then tl p else p) 0))"

section \<open>Strings\<close>

definition utils_strlen :: "bytes \<Rightarrow> nat" where
  "utils_strlen str = length (takeWhile (\<lambda>c. c \<noteq> 0) str)"

text \<open>\<open>char\<close> is unsigned on the target; the end of the list is the terminating zero.\<close>

fun utils_strncmp :: "bytes \<Rightarrow> bytes \<Rightarrow> nat \<Rightarrow> int" where
  "utils_strncmp s1 s2 0 = 0"
| "utils_strncmp s1 s2 (Suc n) =
     (let c1 = (if s1 = [] then 0 else hd s1); c2 = (if s2 = [] then 0 else hd s2) in
      if c1 \<noteq> c2 then (if c2 \<le> c1 then 1 else -1)
      else if c1 = 0 then 0
      else utils_strncmp (tl s1) (tl s2) n)"

definition is_upper :: "u8 \<Rightarrow> bool" where
  "is_upper c \<longleftrightarrow> 0x41 \<le> c \<and> c \<le> 0x5A"

text \<open>The inner \<open>while (d)\<close>: the difference after folding the cases, 0 when it vanishes on the way.\<close>

definition case_diff :: "u8 \<Rightarrow> u8 \<Rightarrow> int" where
  "case_diff c1 c2 =
     (let d = uint c1 - uint c2;
          d1 = (if is_upper c1 then d + 32 else d)
      in if d = 0 then 0
         else if is_upper c1 \<and> d1 = 0 then 0
         else if is_upper c2 then d1 - 32 else d1)"

fun utils_strncasecmp :: "bytes \<Rightarrow> bytes \<Rightarrow> nat \<Rightarrow> int" where
  "utils_strncasecmp s1 s2 0 = 0"
| "utils_strncasecmp s1 s2 (Suc n) =
     (let c1 = (if s1 = [] then 0 else hd s1); c2 = (if s2 = [] then 0 else hd s2) in
      if case_diff c1 c2 \<noteq> 0 then (if case_diff c1 c2 \<ge> 0 then 1 else -1)
      else if c1 = 0 then 0
      else utils_strncasecmp (tl s1) (tl s2) n)"

definition utils_strdup :: "(u32 \<Rightarrow> bytes option) \<Rightarrow> bytes \<Rightarrow> bytes status" where
  "utils_strdup mal str =
     (case mal (of_nat (utils_strlen str) + 1) of
        None \<Rightarrow> Fail
      | Some _ \<Rightarrow> Done (take (utils_strlen str) str @ [0]))"

text \<open>A failed allocation stops in the assertion.\<close>

definition utils_bufferdup :: "(u32 \<Rightarrow> bytes option) \<Rightarrow> bytes \<Rightarrow> nat \<Rightarrow> bytes option" where
  "utils_bufferdup mal src len =
     (case mal (of_nat len) of None \<Rightarrow> None | Some _ \<Rightarrow> aslice src 0 len)"

section \<open>Enumerations\<close>

definition utils_stringToBinding :: "bytes \<Rightarrow> et_binding" where
  "utils_stringToBinding buffer =
     (if buffer = [] then BINDING_UNKNOWN
      else if hd buffer = 0x55 then
        (if length buffer = 1 then BINDING_U
         else if length buffer = 2 then
           (if buffer ! 1 = 0x51 then BINDING_UQ else if buffer ! 1 = 0x53 then BINDING_US
            else BINDING_UNKNOWN)
         else if length buffer = 3 then
           (if buffer ! 1 = 0x51 \<and> buffer ! 2 = 0x53 then BINDING_UQS else BINDING_UNKNOWN)
         else BINDING_UNKNOWN)
      else if hd buffer = 0x53 then
        (if length buffer = 1 then BINDING_S
         else if length buffer = 2 then (if buffer ! 1 = 0x51 then BINDING_SQ else BINDING_UNKNOWN)
         else BINDING_UNKNOWN)
      else BINDING_UNKNOWN)"

definition utils_convertMediaType :: "u32 \<Rightarrow> et_media_type" where
  "utils_convertMediaType type =
     (let t = ucast type :: u16 in
      if t = 0 then LWM2M_CONTENT_TEXT
      else if t = 42 then LWM2M_CONTENT_OPAQUE
      else if t = 11542 then LWM2M_CONTENT_TLV_NEW
      else if t = 1542 then LWM2M_CONTENT_TLV
      else if t = 1543 then LWM2M_CONTENT_JSON
      else if t = 40 then LWM2M_CONTENT_LINK
      else LWM2M_CONTENT_TEXT)"

definition utils_depthToDatatype :: "uri_depth \<Rightarrow> et_data_type" where
  "utils_depthToDatatype depth =
     (case depth of
        URI_DEPTH_OBJECT \<Rightarrow> DATA_TYPE_OBJECT
      | URI_DEPTH_OBJECT_INSTANCE \<Rightarrow> DATA_TYPE_OBJECT_INSTANCE
      | _ \<Rightarrow> DATA_TYPE_UNDEFINE)"

section \<open>Floating point\<close>

text \<open>
  IEEE bit patterns. \<open>float_range\<close> holds when neither comparison with \<open>FLT_MAX\<close> does, for a NaN too.
  \<open>narrow\<close> is the conversion of such a \<open>double\<close> to \<open>float\<close>, rounding to nearest, ties to even.
\<close>

definition dbl_exp :: "u64 \<Rightarrow> int" where
  "dbl_exp d = uint d div 2 ^ 52 mod 2048"

definition dbl_frac :: "u64 \<Rightarrow> int" where
  "dbl_frac d = uint d mod 2 ^ 52"

definition float_range :: "u64 \<Rightarrow> bool" where
  "float_range d \<longleftrightarrow>
     (let a = uint d mod 2 ^ 63 in a \<le> 0x47EFFFFFE0000000 \<or> 0x7FF0000000000000 < a)"

text \<open>\<open>m / 2 ^ k\<close> rounded to nearest, ties to even, for a positive \<open>k\<close>.\<close>

definition round_shift :: "int \<Rightarrow> nat \<Rightarrow> int" where
  "round_shift m k =
     (let q = m div 2 ^ k; r = m mod 2 ^ k; half = 2 ^ (k - 1) in
      if r > half \<or> (r = half \<and> odd q) then q + 1 else q)"

definition narrow :: "u64 \<Rightarrow> u32" where
  "narrow d =
     (let s = (if 2 ^ 63 \<le> uint d then 2 ^ 31 else 0); e = dbl_exp d; m = dbl_frac d in
      if e = 2047 then of_int (s + 0x7FC00000 + m div 2 ^ 29 mod 2 ^ 22)
      else if 897 \<le> e then of_int (s + round_shift ((e - 896) * 2 ^ 52 + m) 29)
      else if e = 0 then of_int s
      else of_int (s + round_shift (2 ^ 52 + m) (nat (29 + (897 - e)))))"

definition utils_encodeFloat :: "u64 \<Rightarrow> bytes" where
  "utils_encodeFloat data =
     (if \<not> float_range data then rev (to_mem 8 data) else rev (to_mem 4 (narrow data)))"

end
