(* ===== verification/Cis_Data.thy ===== *)
theory Cis_Data
  imports Cis_Utils
begin

text \<open>
  \<open>cis_data.c\<close>: making LwM2M values and reading them. The functions that fill a value in place
  return the new value. A value is filled once, after \<open>data_new\<close> has zeroed it, so that its buffer
  is empty before. A member of the union read as another type than it was written is undefined,
  except that all bits are zero when nothing was written.
\<close>

section \<open>Values\<close>

definition data_zero :: st_data where
  "data_zero = Data 0 DATA_TYPE_UNDEFINE [] NoValue"

text \<open>\<open>sizeof(st_data_t)\<close> is 24. A null pointer is \<open>None\<close>.\<close>

definition data_new :: "allocator \<Rightarrow> nat \<Rightarrow> st_data list option" where
  "data_new mal n =
     (if n = 0 then None
      else case mal (of_nat (24 * n)) of None \<Rightarrow> None | Some _ \<Rightarrow> Some (replicate n data_zero))"

definition set_id :: "u16 \<Rightarrow> st_data \<Rightarrow> st_data" where
  "set_id i d = Data i (sd_type d) (sd_buffer d) (sd_value d)"

definition set_type :: "et_data_type \<Rightarrow> st_data \<Rightarrow> st_data" where
  "set_type t d = Data (sd_id d) t (sd_buffer d) (sd_value d)"

definition set_buffer :: "bytes \<Rightarrow> st_data \<Rightarrow> st_data" where
  "set_buffer bs d = Data (sd_id d) (sd_type d) bs (sd_value d)"

definition set_value :: "data_value \<Rightarrow> st_data \<Rightarrow> st_data" where
  "set_value v d = Data (sd_id d) (sd_type d) (sd_buffer d) v"

definition as_boolean :: "st_data \<Rightarrow> bool option" where
  "as_boolean d = (case sd_value d of AsBoolean b \<Rightarrow> Some b | NoValue \<Rightarrow> Some False | _ \<Rightarrow> None)"

definition as_integer :: "st_data \<Rightarrow> u64 option" where
  "as_integer d = (case sd_value d of AsInteger i \<Rightarrow> Some i | NoValue \<Rightarrow> Some 0 | _ \<Rightarrow> None)"

definition as_float :: "st_data \<Rightarrow> u64 option" where
  "as_float d = (case sd_value d of AsFloat f \<Rightarrow> Some f | NoValue \<Rightarrow> Some 0 | _ \<Rightarrow> None)"

definition as_children :: "st_data \<Rightarrow> st_data list option" where
  "as_children d = (case sd_value d of AsChildren cs \<Rightarrow> Some cs | NoValue \<Rightarrow> Some [] | _ \<Rightarrow> None)"

section \<open>Making values\<close>

definition prv_setBuffer :: "allocator \<Rightarrow> st_data \<Rightarrow> bytes \<Rightarrow> int \<times> st_data" where
  "prv_setBuffer mal d buffer =
     (case mal (of_nat (length buffer)) of
        None \<Rightarrow> (0, d)
      | Some _ \<Rightarrow> (1, set_buffer buffer d))"

definition data_encode_string :: "allocator \<Rightarrow> bytes option \<Rightarrow> st_data \<Rightarrow> st_data" where
  "data_encode_string mal str d =
     (let s = (case str of None \<Rightarrow> [] | Some s \<Rightarrow> take (utils_strlen s) s) in
      if s = [] then set_type DATA_TYPE_STRING (set_buffer [] d)
      else (let (res, d) = prv_setBuffer mal d s in
            set_type (if res = 1 then DATA_TYPE_STRING else DATA_TYPE_UNDEFINE) d))"

definition data_encode_opaque :: "allocator \<Rightarrow> bytes \<Rightarrow> st_data \<Rightarrow> st_data" where
  "data_encode_opaque mal buffer d =
     (if buffer = [] then set_type DATA_TYPE_UNDEFINE (set_buffer [] d)
      else (let (result, d) = prv_setBuffer mal d buffer in
            if result \<le> 0 then d
            else set_type DATA_TYPE_OPAQUE (set_value (AsInteger (snd (utils_opaqueToInt buffer))) d)))"

definition data_encode_int :: "u64 \<Rightarrow> st_data \<Rightarrow> st_data" where
  "data_encode_int v d = set_value (AsInteger v) (set_type DATA_TYPE_INTEGER d)"

definition data_encode_float :: "u64 \<Rightarrow> st_data \<Rightarrow> st_data" where
  "data_encode_float v d = set_value (AsFloat v) (set_type DATA_TYPE_FLOAT d)"

definition data_encode_bool :: "bool \<Rightarrow> st_data \<Rightarrow> st_data" where
  "data_encode_bool v d = set_value (AsBoolean v) (set_type DATA_TYPE_BOOL d)"

definition data_include :: "st_data list \<Rightarrow> st_data \<Rightarrow> st_data" where
  "data_include subs d =
     (case subs of
        [] \<Rightarrow> d
      | s # _ \<Rightarrow>
          if sd_type s \<in> {DATA_TYPE_STRING, DATA_TYPE_OPAQUE, DATA_TYPE_INTEGER, DATA_TYPE_FLOAT, DATA_TYPE_BOOL}
          then set_value (AsChildren subs) (set_type DATA_TYPE_OBJECT_INSTANCE d)
          else if sd_type s = DATA_TYPE_OBJECT_INSTANCE
          then set_value (AsChildren subs) (set_type DATA_TYPE_OBJECT d)
          else d)"

definition data_encode_instances :: "st_data list \<Rightarrow> st_data \<Rightarrow> st_data" where
  "data_encode_instances subs d = set_type DATA_TYPE_OBJECT_INSTANCE (data_include subs d)"

section \<open>Reading values\<close>

definition data_decode_int :: "st_data \<Rightarrow> u64 status option" where
  "data_decode_int d =
     (case sd_type d of
        DATA_TYPE_INTEGER \<Rightarrow> map_option Done (as_integer d)
      | DATA_TYPE_STRING \<Rightarrow> Some (utils_plainTextToInt64 (sd_buffer d))
      | DATA_TYPE_OPAQUE \<Rightarrow>
          (let (result, v) = utils_opaqueToInt (sd_buffer d) in
           Some (if result = int (length (sd_buffer d)) then Done v else Fail))
      | _ \<Rightarrow> Some Fail)"

definition data_decode_bool :: "st_data \<Rightarrow> bool status option" where
  "data_decode_bool d =
     (case sd_type d of
        DATA_TYPE_BOOL \<Rightarrow> map_option Done (as_boolean d)
      | DATA_TYPE_STRING \<Rightarrow>
          Some (if length (sd_buffer d) \<noteq> 1 then Fail
                else if hd (sd_buffer d) = 0x30 then Done False
                else if hd (sd_buffer d) = 0x31 then Done True
                else Fail)
      | DATA_TYPE_OPAQUE \<Rightarrow>
          Some (if length (sd_buffer d) \<noteq> 1 then Fail
                else if hd (sd_buffer d) = 0 then Done False
                else if hd (sd_buffer d) = 1 then Done True
                else Fail)
      | _ \<Rightarrow> Some Fail)"

end
