(* ===== verification/Cis_Tlv.thy ===== *)
theory Cis_Tlv
  imports Cis_Data
begin

text \<open>
  \<open>cis_tlv.c\<close>: LwM2M values as type-length-value records. Lengths are natural numbers; the buffers
  of the code fit an \<open>int\<close>. The header of a record holds the type in bits 6 and 7, in bit 5 whether
  the identifier has two bytes, in bits 3 and 4 the number of length bytes, and in bits 0 to 2 a
  length below 8.
\<close>

section \<open>Headers\<close>

abbreviation (input) TLV_TYPE_MASK :: u8 where "TLV_TYPE_MASK \<equiv> 0xC0"
abbreviation (input) TLV_TYPE_UNKNOWN :: u8 where "TLV_TYPE_UNKNOWN \<equiv> 0xFF"
abbreviation (input) TLV_TYPE_OBJECT :: u8 where "TLV_TYPE_OBJECT \<equiv> 0x10"
abbreviation (input) TLV_TYPE_INSTANCE :: u8 where "TLV_TYPE_INSTANCE \<equiv> 0x00"
abbreviation (input) TLV_TYPE_RESOURCE :: u8 where "TLV_TYPE_RESOURCE \<equiv> 0xC0"
abbreviation (input) TLV_TYPE_RESOURCE_INSTANCE :: u8 where "TLV_TYPE_RESOURCE_INSTANCE \<equiv> 0x40"

definition prv_getHeaderType :: "et_data_type \<Rightarrow> u8" where
  "prv_getHeaderType type =
     (case type of
        DATA_TYPE_OBJECT \<Rightarrow> TLV_TYPE_OBJECT
      | DATA_TYPE_OBJECT_INSTANCE \<Rightarrow> TLV_TYPE_INSTANCE
      | _ \<Rightarrow> TLV_TYPE_UNKNOWN)"

definition prv_getDataType :: "u8 \<Rightarrow> et_data_type" where
  "prv_getDataType type =
     (if type = TLV_TYPE_OBJECT then DATA_TYPE_OBJECT
      else if type = TLV_TYPE_INSTANCE then DATA_TYPE_OBJECT_INSTANCE
      else if type = TLV_TYPE_RESOURCE \<or> type = TLV_TYPE_RESOURCE_INSTANCE then DATA_TYPE_OPAQUE
      else DATA_TYPE_UNDEFINE)"

definition prv_getHeaderLength :: "u16 \<Rightarrow> nat \<Rightarrow> nat" where
  "prv_getHeaderLength i dataLen =
     2 + (if 0xFF < i then 1 else 0) +
     (if 0xFFFF < dataLen then 3 else if 0xFF < dataLen then 2 else if 7 < dataLen then 1 else 0)"

text \<open>The length bits of the first byte and the bytes of the length field.\<close>

definition length_field :: "nat \<Rightarrow> u8 \<times> bytes" where
  "length_field n =
     (if n \<le> 7 then (of_nat n, [])
      else if n \<le> 0xFF then (0x08, [of_nat n])
      else if n \<le> 0xFFFF then (0x10, [of_nat (n div 2 ^ 8 mod 2 ^ 8), of_nat (n mod 2 ^ 8)])
      else if n \<le> 0xFFFFFF
      then (0x18, [of_nat (n div 2 ^ 16 mod 2 ^ 8), of_nat (n div 2 ^ 8 mod 2 ^ 8), of_nat (n mod 2 ^ 8)])
      else (0, []))"

text \<open>
  The header written into \<open>buffer\<close> at \<open>index\<close>, and its length, which counts length bytes that are
  not written when the length does not fit three of them.
\<close>

definition prv_createHeader ::
  "bytes \<Rightarrow> nat \<Rightarrow> bool \<Rightarrow> bool \<Rightarrow> et_data_type \<Rightarrow> u16 \<Rightarrow> nat \<Rightarrow> (nat \<times> bytes) option" where
  "prv_createHeader buffer index isInstance isResourceInstance type i data_len =
     (let header_len = prv_getHeaderLength i data_len;
          hdrType = (if isInstance then TLV_TYPE_INSTANCE
                     else if isResourceInstance then TLV_TYPE_RESOURCE_INSTANCE
                     else prv_getHeaderType type);
          h = hdrType AND TLV_TYPE_MASK;
          (h, ids) = (if 0xFF < i
                      then (h OR 0x20, [ucast (drop_bit 8 i AND 0xFF), ucast (i AND 0xFF)])
                      else (h, [ucast i]));
          (bits, len) = length_field data_len;
          h = (if data_len \<le> 7 then h + bits else h OR bits)
      in do { buffer \<leftarrow> ablit buffer index (h # ids @ len); Some (header_len, buffer) })"

section \<open>Decoding\<close>

text \<open>
  The length field at \<open>idx\<close>: the index behind it and the length. Every read of the buffer is checked:
  \<open>None\<close> is a read outside it, \<open>Fail\<close> the return value 0.
\<close>

definition decode_length :: "bytes \<Rightarrow> nat \<Rightarrow> (nat \<times> nat) status option" where
  "decode_length buffer idx = do {
     b \<leftarrow> aload buffer 0;
     let bits = b AND 0x18;
     (if bits = 0 then Some (Done (idx, unat (b AND 0x07)))
      else if bits = 0x08
      then (if length buffer < idx + 1 then Some Fail
            else do { x \<leftarrow> aload buffer idx; Some (Done (idx + 1, unat x)) })
      else if bits = 0x10
      then (if length buffer < idx + 2 then Some Fail
            else do { x \<leftarrow> aload buffer idx; y \<leftarrow> aload buffer (idx + 1);
                      Some (Done (idx + 2, unat x * 2 ^ 8 + unat y)) })
      else (if length buffer < idx + 3 then Some Fail
            else do { x \<leftarrow> aload buffer idx; y \<leftarrow> aload buffer (idx + 1); z \<leftarrow> aload buffer (idx + 2);
                      Some (Done (idx + 3, unat x * 2 ^ 16 + unat y * 2 ^ 8 + unat z)) })) }"

text \<open>The identifier behind the first byte, of one byte or two.\<close>

definition decode_id :: "bytes \<Rightarrow> bool \<Rightarrow> u16 option" where
  "decode_id buffer wide = do {
     x \<leftarrow> aload buffer 1;
     (if wide then do { y \<leftarrow> aload buffer 2; Some (push_bit 8 (ucast x) + ucast y) }
      else Some (ucast x)) }"

text \<open>The total length, the type, the identifier, and where the data lie.\<close>

definition tlv_decode_TLV :: "bytes \<Rightarrow> (nat \<times> et_data_type \<times> u16 \<times> nat \<times> nat) status option" where
  "tlv_decode_TLV buffer =
     (if length buffer < 2 then Some Fail
      else do {
        b \<leftarrow> aload buffer 0;
        let type = prv_getDataType (b AND TLV_TYPE_MASK);
        let wide = (b AND 0x20 = 0x20);
        (if wide \<and> length buffer < 3 then Some Fail
         else do {
           i \<leftarrow> decode_id buffer wide;
           field \<leftarrow> decode_length buffer (if wide then 3 else 2);
           (case field of
              Inl _ \<Rightarrow> Some Fail
            | Inr (idx, len) \<Rightarrow>
                if length buffer < idx + len then Some Fail
                else Some (Done (idx + len, type, i, idx, len))) }) })"

lemma tlv_decode_bounds:
  "tlv_decode_TLV buffer = Some (Inr (n, t, i, idx, len)) \<Longrightarrow>
   n = idx + len \<and> 2 \<le> idx \<and> n \<le> length buffer"
  by (auto simp: tlv_decode_TLV_def decode_length_def Let_def
      split: if_splits sum.splits bind_splits)

text \<open>
  The loop of \<open>tlv_parse\<close> with the values parsed so far. The empty list stands for the return value
  0. When the first allocation fails, the code writes through the null pointer. The data of a record
  and what follows it are slices of the buffer.
\<close>

function (sequential) tlv_parse_loop :: "allocator \<Rightarrow> bytes \<Rightarrow> st_data list \<Rightarrow> st_data list option" where
  "tlv_parse_loop mal buffer acc =
     (case tlv_decode_TLV buffer of
        None \<Rightarrow> None
      | Some (Inl _) \<Rightarrow> Some acc
      | Some (Inr (result, type, i, dataIndex, dataLen)) \<Rightarrow>
          (case data_new mal (length acc + 1) of
             None \<Rightarrow> if acc = [] then None else Some []
           | Some _ \<Rightarrow>
               (case (aslice buffer dataIndex dataLen, aslice buffer result (length buffer - result)) of
                  (Some content, Some rest) \<Rightarrow>
                    let item = set_id i (set_type type data_zero)
                    in if type = DATA_TYPE_OBJECT_INSTANCE \<or> type = DATA_TYPE_MULTIPLE_RESOURCE
                       then (case tlv_parse_loop mal content [] of
                               None \<Rightarrow> None
                             | Some cs \<Rightarrow>
                                 if cs = [] then Some []
                                 else tlv_parse_loop mal rest (acc @ [set_value (AsChildren cs) item]))
                       else tlv_parse_loop mal rest (acc @ [data_encode_opaque mal content item])
                | _ \<Rightarrow> None)))"
  by pat_completeness auto
termination
  by (relation "measure (\<lambda>(mal, buffer, acc). length buffer)")
    (auto dest!: tlv_decode_bounds simp: aslice_def split: if_splits)

declare tlv_parse_loop.simps [simp del]

definition tlv_parse :: "allocator \<Rightarrow> bytes \<Rightarrow> st_data list option" where
  "tlv_parse mal buffer = tlv_parse_loop mal buffer []"

section \<open>Encoding\<close>

text \<open>The children of a value, for the recursion.\<close>

definition kids :: "st_data \<Rightarrow> st_data list" where
  "kids d = (case sd_value d of AsChildren cs \<Rightarrow> cs | _ \<Rightarrow> [])"

lemma size_kids [termination_simp]: "size_list size (kids d) < size d"
  by (cases d; cases "sd_value d") (auto simp: kids_def)

lemma size_kids_twice: "2 * size_list size (kids d) < Suc (2 * size d + n)"
  using size_kids [of d] by simp

lemma as_children_kids [simp]: "as_children d = Some cs \<Longrightarrow> cs = kids d"
  by (auto simp: as_children_def kids_def split: data_value.splits)

definition float_length :: "u64 \<Rightarrow> nat" where
  "float_length f = (if \<not> float_range f then 8 else 4)"

function prv_getLength :: "st_data list \<Rightarrow> nat option" where
  "prv_getLength [] = Some 0"
| "prv_getLength (d # ds) =
     (case prv_getLength ds of
        None \<Rightarrow> None
      | Some rest \<Rightarrow>
          let item = (\<lambda>n. prv_getHeaderLength (sd_id d) n + n + rest) in
          (case sd_type d of
             DATA_TYPE_OBJECT_INSTANCE \<Rightarrow>
               if as_children d = None then None else map_option item (prv_getLength (kids d))
           | DATA_TYPE_STRING \<Rightarrow> Some (item (length (sd_buffer d)))
           | DATA_TYPE_OPAQUE \<Rightarrow> Some (item (length (sd_buffer d)))
           | DATA_TYPE_INTEGER \<Rightarrow> map_option (\<lambda>v. item (length (utils_encodeInt v))) (as_integer d)
           | DATA_TYPE_FLOAT \<Rightarrow> map_option (\<lambda>f. item (float_length f)) (as_float d)
           | DATA_TYPE_BOOL \<Rightarrow> Some (item 1)
           | _ \<Rightarrow> Some rest))"
  by pat_completeness auto
termination
  by (relation "measure (size_list size)") (auto intro: less_le_trans [OF size_kids])

text \<open>A header and its data put at \<open>index\<close>; the new index.\<close>

definition put_item ::
  "bytes \<Rightarrow> nat \<Rightarrow> bool \<Rightarrow> et_data_type \<Rightarrow> u16 \<Rightarrow> bytes \<Rightarrow> (nat \<times> bytes) option" where
  "put_item buffer index isResourceInstance type i content = do {
     (header_len, buffer) \<leftarrow>
       prv_createHeader buffer index False isResourceInstance type i (length content);
     buffer \<leftarrow> ablit buffer (index + header_len) content;
     Some (index + header_len + length content, buffer) }"

text \<open>The bytes of a value that has no children.\<close>

definition leaf_bytes :: "st_data \<Rightarrow> bytes option" where
  "leaf_bytes d =
     (case sd_type d of
        DATA_TYPE_STRING \<Rightarrow> Some (sd_buffer d)
      | DATA_TYPE_OPAQUE \<Rightarrow> Some (sd_buffer d)
      | DATA_TYPE_INTEGER \<Rightarrow> map_option utils_encodeInt (as_integer d)
      | DATA_TYPE_FLOAT \<Rightarrow> map_option utils_encodeFloat (as_float d)
      | DATA_TYPE_BOOL \<Rightarrow> map_option (\<lambda>b. [if b then 1 else 0]) (as_boolean d)
      | _ \<Rightarrow> None)"

text \<open>
  \<open>tlv_serialize\<close> returns the length, 0 for a failure, and the buffer. \<open>tlv_serialize_loop\<close> writes
  the values from \<open>index\<close> on and says whether all of them were written.
\<close>

function tlv_serialize :: "allocator \<Rightarrow> bool \<Rightarrow> st_data list \<Rightarrow> (nat \<times> bytes) option"
  and tlv_serialize_loop :: "allocator \<Rightarrow> bool \<Rightarrow> st_data list \<Rightarrow> nat \<Rightarrow> bytes \<Rightarrow> (bool \<times> bytes) option" where
  "tlv_serialize mal isResourceInstance ds =
     (case prv_getLength ds of
        None \<Rightarrow> None
      | Some len \<Rightarrow>
          if len = 0 then Some (0, [])
          else (case mal (of_nat len) of
                  None \<Rightarrow> Some (0, [])
                | Some buffer \<Rightarrow>
                    (case tlv_serialize_loop mal isResourceInstance ds 0 buffer of
                       None \<Rightarrow> None
                     | Some (all_written, buffer) \<Rightarrow> if all_written then Some (len, buffer) else Some (0, []))))"
| "tlv_serialize_loop mal isResourceInstance [] index buffer = Some (True, buffer)"
| "tlv_serialize_loop mal isResourceInstance (d # ds) index buffer =
     (if sd_type d = DATA_TYPE_OBJECT_INSTANCE
      then (if as_children d = None then None
            else case tlv_serialize mal isResourceInstance (kids d) of
                   None \<Rightarrow> None
                 | Some (tmpLength, tmpBuffer) \<Rightarrow>
                     if tmpLength = 0 then Some (False, buffer)
                     else (case put_item buffer index False (sd_type d) (sd_id d) (take tmpLength tmpBuffer) of
                             None \<Rightarrow> None
                           | Some (index, buffer) \<Rightarrow>
                               tlv_serialize_loop mal isResourceInstance ds index buffer))
      else if sd_type d \<in> {DATA_TYPE_STRING, DATA_TYPE_OPAQUE, DATA_TYPE_INTEGER, DATA_TYPE_FLOAT, DATA_TYPE_BOOL}
      then (case leaf_bytes d of
              None \<Rightarrow> None
            | Some content \<Rightarrow>
                (case put_item buffer index isResourceInstance (sd_type d) (sd_id d) content of
                   None \<Rightarrow> None
                 | Some (index, buffer) \<Rightarrow> tlv_serialize_loop mal isResourceInstance ds index buffer))
      else tlv_serialize_loop mal isResourceInstance ds index buffer)"
  by pat_completeness auto
termination
  by (relation "measure (\<lambda>x. case x of Inl (mal, r, ds) \<Rightarrow> 2 * size_list size ds + 1
                               | Inr (mal, r, ds, index, buffer) \<Rightarrow> 2 * size_list size ds)")
     (auto simp: size_kids_twice)

declare tlv_serialize.simps [simp del]

end
