(* ===== verification/Cis_Utils_Laws.thy ===== *)
theory Cis_Utils_Laws
  imports Cis_Utils
begin

text \<open>
  Numbers as decimal texts and as byte strings: the loops of \<open>utils_intToText\<close> and
  \<open>utils_plainTextToInt64\<close> against the decimal notation, and \<open>utils_encodeInt\<close> against
  \<open>utils_opaqueToInt\<close>.
\<close>

section \<open>Decimal notation\<close>

definition digit :: "nat \<Rightarrow> u8" where
  "digit d = of_nat (0x30 + d)"

fun decimal :: "nat \<Rightarrow> bytes" where
  "decimal n = (if n < 10 then [digit n] else decimal (n div 10) @ [digit (n mod 10)])"

declare decimal.simps [simp del]

lemma decimal_small: "n < 10 \<Longrightarrow> decimal n = [digit n]"
  by (simp add: decimal.simps)

lemma decimal_step: "10 \<le> n \<Longrightarrow> decimal n = decimal (n div 10) @ [digit (n mod 10)]"
  by (subst decimal.simps) simp

lemma length_decimal_pos [simp]: "0 < length (decimal n)"
  by (subst decimal.simps) simp

lemma decimal_ne [simp]: "decimal n \<noteq> []"
  using length_decimal_pos [of n] by (simp del: length_decimal_pos)

lemma length_decimal: "n < 10 ^ k \<Longrightarrow> 0 < k \<Longrightarrow> length (decimal n) \<le> k"
proof (induction k arbitrary: n)
  case (Suc k)
  show ?case
  proof (cases "n < 10")
    case False
    with Suc.prems have "n div 10 < 10 ^ k" "0 < k" by (auto intro: Suc_leI gr0I)
    with Suc.IH False show ?thesis by (simp add: decimal_step)
  qed (simp add: decimal_small)
qed simp

lemma digit_range: "d < 10 \<Longrightarrow> 0x30 \<le> digit d \<and> digit d \<le> 0x39"
  by (simp add: digit_def word_le_nat_alt unat_word_ariths)

lemma unat_digit: "d < 10 \<Longrightarrow> unat (digit d) = 0x30 + d"
  by (simp add: digit_def del: of_nat_add)

lemma digit_value: "d < 10 \<Longrightarrow> ucast (digit d - 0x30) = (of_nat d :: 'a::len word)"
proof -
  assume "d < 10"
  then have "unat (digit d - 0x30) = d" using digit_range [of d] by (simp add: unat_sub unat_digit)
  then show ?thesis by (metis of_nat_unat)
qed

section \<open>Writing a number\<close>

lemma digit_of_int: "of_int (0x30 + int n mod 10) = digit (n mod 10)"
  proof -
  have "int n mod 10 = int (n mod 10)" by (simp add: zmod_int)
  then show ?thesis unfolding digit_def by (simp only: of_int_add of_int_numeral of_int_of_nat_eq of_nat_add of_nat_numeral)
qed

lemma int_text_loop_decimal:
  assumes "i < length buf" and "length (decimal n) \<le> Suc i"
  shows "int_text_loop (int n) buf i =
    Some (0, take (Suc i - length (decimal n)) buf @ decimal n @ drop (Suc i) buf,
          int i - int (length (decimal n)))"
  using assms
proof (induction i arbitrary: n buf)
  case 0
  then have "n < 10" using decimal_step [of n] by (cases "n < 10") auto
  with 0 show ?case using digit_of_int [of n]
    by (cases buf) (simp_all add: decimal_small div_pos_pos_trivial)
next
  case (Suc i)
  let ?buf2 = "buf[Suc i := digit (n mod 10)]"
  have d: "int n div 10 = int (n div 10)" by (simp add: zdiv_int)
  show ?case
  proof (cases "n < 10")
    case True
    then show ?thesis using Suc.prems digit_of_int [of n]
      by (simp add: decimal_small div_pos_pos_trivial upd_conv_take_nth_drop)
  next
    case False
    then have dec: "decimal n = decimal (n div 10) @ [digit (n mod 10)]" by (simp add: decimal_step)
    have "int_text_loop (int n) buf (Suc i) = int_text_loop (int (n div 10)) ?buf2 i"
      using Suc.prems False digit_of_int [of n] by (simp add: d div_greater_zero_iff)
    also have "\<dots> = Some (0, take (Suc i - length (decimal (n div 10))) ?buf2 @ decimal (n div 10) @
        drop (Suc i) ?buf2, int i - int (length (decimal (n div 10))))"
      by (rule Suc.IH) (use Suc.prems dec in simp_all)
    also have "drop (Suc i) ?buf2 = digit (n mod 10) # drop (Suc (Suc i)) buf"
      using Suc.prems by (simp add: drop_update_swap Cons_nth_drop_Suc [symmetric])
    finally show ?thesis using dec by simp
  qed
qed

definition int_text :: "int \<Rightarrow> bytes" where
  "int_text v = (if v < 0 then 0x2D # decimal (nat (- v)) else decimal (nat v))"

lemma intToText_nonneg:
  assumes "0 \<le> v" and "v < 2 ^ 63" and "length (decimal (nat v)) \<le> length buf"
  shows "\<exists>tail. utils_intToText v buf = Some (length (decimal (nat v)), decimal (nat v) @ tail) \<and>
    length (decimal (nat v) @ tail) = length buf"
proof -
  let ?n = "length (decimal (nat v))"
  have ne: "buf \<noteq> []" using assms(3) by auto
  have loop: "int_text_loop v buf (length buf - Suc 0) =
      Some (0, take (length buf - ?n) buf @ decimal (nat v), int (length buf) - 1 - int ?n)"
    using int_text_loop_decimal [of "length buf - Suc 0" buf "nat v"] assms ne
    by (simp add: of_nat_diff Suc_leI)
  have s: "nat (int (length buf) - int ?n) = length buf - ?n" by (simp add: nat_diff_distrib')
  show ?thesis
    using assms ne by (simp add: utils_intToText_def loop Let_def s, arith)
qed

lemma intToText_negative:
  assumes "v < 0" and "- (2 ^ 63) < v" and "Suc (Suc (length (decimal (nat (- v))))) \<le> length buf"
  shows "\<exists>tail. utils_intToText v buf =
      Some (Suc (length (decimal (nat (- v)))), 0x2D # decimal (nat (- v)) @ tail) \<and>
    length (0x2D # decimal (nat (- v)) @ tail) = length buf"
proof -
  let ?n = "length (decimal (nat (- v)))"
  have ne: "buf \<noteq> []" using assms(3) by auto
  have loop: "int_text_loop (- v) buf (length buf - Suc 0) =
      Some (0, take (length buf - ?n) buf @ decimal (nat (- v)), int (length buf) - 1 - int ?n)"
    using int_text_loop_decimal [of "length buf - Suc 0" buf "nat (- v)"] assms ne
    by (simp add: of_nat_diff Suc_leI)
  have s: "nat (int (length buf) - 1 - int ?n) = length buf - Suc ?n" using assms(3) by simp
  let ?i = "length buf - Suc ?n"
  have i: "?i < length buf - ?n" using assms(3) by simp
  let ?text = "take ?i buf @ 0x2D # decimal (nat (- v))"
  have w: "(take (length buf - ?n) buf @ decimal (nat (- v)))[?i := 0x2D] = ?text"
    using i by (simp add: list_update_append upd_conv_take_nth_drop)
  have l: "length ?text = length buf" "length ?text - ?i = Suc ?n" using assms(3) by simp_all
  have d: "drop ?i ?text = 0x2D # decimal (nat (- v))" by simp
  have ix: "\<not> int (length buf) - 1 - int ?n < 0" "int (length buf) - 1 - int ?n \<noteq> 0"
    using assms(3) by linarith+
  have st: "astore (take (length buf - ?n) buf @ decimal (nat (- v))) ?i 0x2D = Some ?text"
    using i assms(3) by (subst astore_in) (simp_all add: w)
  have v: "v \<noteq> - (2 ^ 63)" using assms(2) by simp
  have "utils_intToText v buf = Some (Suc ?n, 0x2D # decimal (nat (- v)) @ drop (Suc ?n) ?text)"
    unfolding utils_intToText_def Let_def
    using assms(1) ne v ix
    by (simp only: diff_0 loop One_nat_def bind.bind_lunit prod.case if_True if_False simp_thms s st l(2) d
        append_Cons less_irrefl)
  moreover have "length (0x2D # decimal (nat (- v)) @ drop (Suc ?n) ?text) = length buf"
    using l(1) assms(3) by (simp only: list.size length_append length_drop)
  ultimately show ?thesis by blast
qed

section \<open>Reading a number\<close>

lemma plain_digits_decimal:
  "n < 2 ^ 63 \<Longrightarrow> plain_digits (decimal n @ cs) 0 = plain_digits cs (of_nat n)"
proof (induction n arbitrary: cs rule: decimal.induct)
  case (1 n)
  show ?case
  proof (cases "n < 10")
    case True
    then show ?thesis using digit_range [of n] by (simp add: decimal_small digit_value)
  next
    case False
    let ?q = "n div 10" and ?r = "n mod 10"
    have q: "unat (of_nat ?q :: u64) = ?q" using 1(2) by (intro unat_of_nat_id) simp
    then have le: "\<not> 0xFFFFFFFFFFFFFFFF div 10 < (of_nat ?q :: u64)"
      using 1(2) by (simp add: word_less_nat_alt unat_div)
    have "plain_digits (decimal n @ cs) 0 = plain_digits (digit ?r # cs) (of_nat ?q)"
      using 1(1) [OF False, of "digit ?r # cs"] 1(2) False by (simp add: decimal_step)
    also have "\<dots> = plain_digits cs (of_nat ?q * 10 + of_nat ?r)"
      using le digit_range [of ?r] by (simp add: digit_value)
    also have "of_nat ?q * 10 + of_nat ?r = (of_nat (?q * 10 + ?r) :: u64)"
      by (simp only: of_nat_add of_nat_mult of_nat_numeral)
    also have "?q * 10 + ?r = n" by simp
    finally show ?thesis .
  qed
qed

section \<open>Integers in 32 bytes\<close>

lemma int64_text:
  assumes "sint (data :: u64) \<noteq> - (2 ^ 63)" and "\<And>n. n \<le> 32 \<Longrightarrow> mal (of_nat n) \<noteq> None"
  shows "utils_int64ToPlainText mal data = Some (Done (int_text (sint data)))"
proof -
  have r: "- (2 ^ 63) < sint data" "sint data < 2 ^ 63"
    using assms(1) sint_greater_eq [of data] sint_less [of data] by simp_all
  have len: "length (decimal (nat v)) \<le> 19" if "v < 2 ^ 63" for v
    by (rule length_decimal) (use that in \<open>simp_all add: nat_less_iff\<close>)
  have mal: "\<exists>b. mal (of_nat n) = Some b" if "n \<le> 32" for n using assms(2) [OF that] by auto
  show ?thesis
  proof (cases "sint data < 0")
    case True
    have "length (decimal (nat (- sint data))) \<le> 19" using r by (intro len) simp
    then have "Suc (Suc (length (decimal (nat (- sint data))))) \<le> length (replicate 32 (0 :: u8))" by simp
    from intToText_negative [OF True r(1) this] True mal [of "Suc (length (decimal (nat (- sint data))))"] this show ?thesis
      by (auto simp: utils_int64ToPlainText_def int_text_def split: option.splits)
  next
    case False
    then have "0 \<le> sint data" by simp
    moreover have "length (decimal (nat (sint data))) \<le> length (replicate 32 (0 :: u8))"
      using len [OF r(2)] by simp
    ultimately show ?thesis
      using intToText_nonneg [OF _ r(2)] False mal [of "length (decimal (nat (sint data)))"]
      by (fastforce simp: utils_int64ToPlainText_def int_text_def split: option.splits)
  qed
qed

lemma hd_decimal: "hd (decimal n) \<noteq> 0x2D"
proof (induction n rule: decimal.induct)
  case (1 n)
  have "digit d \<noteq> 0x2D" if "d < 10" for d
    using unat_digit [OF that] by auto
  with 1 show ?case by (cases "n < 10") (simp_all add: decimal_small decimal_step hd_append)
qed

lemma plain_text_int:
  assumes "sint (data :: u64) \<noteq> - (2 ^ 63)"
  shows "utils_plainTextToInt64 (int_text (sint data)) = Done data"
proof -
  have r: "- (2 ^ 63) < sint data" "sint data < 2 ^ 63"
    using assms(1) sint_greater_eq [of data] sint_less [of data] by simp_all
  have digits: "plain_digits (decimal n) 0 = Done (of_nat n)" if "n < 2 ^ 63" for n
    using plain_digits_decimal [OF that, of "[]"] by simp
  have le: "\<not> 0x7FFFFFFFFFFFFFFF < (of_nat n :: u64)" if "n < 2 ^ 63" for n
  proof -
    have "unat (of_nat n :: u64) = n" using that by (intro unat_of_nat_id) simp
    then show ?thesis using that by (simp add: word_less_nat_alt)
  qed
  show ?thesis
  proof (cases "sint data < 0")
    case True
    let ?n = "nat (- sint data)"
    have n: "?n < 2 ^ 63" using r by (simp add: nat_less_iff)
    have "of_nat ?n = - data"
    proof -
      have "of_nat ?n = (of_int (- sint data) :: u64)" using True by simp
      also have "\<dots> = - data" by simp
      finally show ?thesis .
    qed
    then show ?thesis using True digits [OF n] le [OF n]
      by (simp add: utils_plainTextToInt64_def int_text_def)
  next
    case False
    let ?n = "nat (sint data)"
    have n: "?n < 2 ^ 63" using r by (simp add: nat_less_iff)
    have "of_nat ?n = data"
    proof -
      have "of_nat ?n = (of_int (sint data) :: u64)" using False by simp
      also have "\<dots> = data" by simp
      finally show ?thesis .
    qed
    then show ?thesis using False digits [OF n] le [OF n] hd_decimal [of ?n]
      by (simp add: utils_plainTextToInt64_def int_text_def)
  qed
qed

section \<open>Integers as byte strings\<close>

lemma bit_from_mem:
  "bit (from_mem bs :: 'a::len word) i \<longleftrightarrow>
   i < LENGTH('a) \<and> i div 8 < length bs \<and> bit (bs ! (i div 8)) (i mod 8)"
proof (induction bs arbitrary: i)
  case (Cons b bs)
  have f: "from_mem (b # bs) = ucast b OR push_bit 8 (from_mem bs :: 'a word)"
    by (simp add: from_mem_def)
  show ?case
  proof (cases "i < 8")
    case True
    then show ?thesis by (auto simp: f bit_simps)
  next
    case False
    then have "i div 8 = Suc ((i - 8) div 8)" "i mod 8 = (i - 8) mod 8"
      by (simp_all add: div_if mod_if)
    moreover have "\<not> bit b i" using False by (auto dest: bit_imp_le_length)
    ultimately show ?thesis using False Cons.IH [of "i - 8"]
      by (auto simp: f bit_or_iff bit_push_bit_iff bit_ucast_iff)
  qed
qed (simp add: from_mem_def)

lemma from_to_mem: "LENGTH('a) \<le> 8 * n \<Longrightarrow> from_mem (to_mem n w) = (w :: 'a::len word)"
  by (rule bit_word_eqI) (auto simp: bit_from_mem to_mem_def bit_simps less_mult_imp_div_less mult.commute)

lemma length_to_mem [simp]: "length (to_mem n w) = n"
  by (simp add: to_mem_def)

lemma scast_ucast_id:
  fixes data :: u64
  assumes "- (2 ^ (LENGTH('a) - 1)) \<le> sint data" and "sint data < 2 ^ (LENGTH('a) - 1)"
    and "LENGTH('a) \<le> 64"
  shows "scast (ucast data :: 'a::len word) = data"
proof -
  have l: "LENGTH('a) - Suc 0 \<le> 63" using assms(3) by linarith
  have "sint (ucast data :: 'a word) = signed_take_bit (LENGTH('a) - 1) (uint data)"
    by (simp add: sint_uint unsigned_ucast_eq signed_take_bit_take_bit)
  also have "\<dots> = signed_take_bit (LENGTH('a) - 1) (sint data)"
    using l by (simp add: sint_uint signed_take_bit_signed_take_bit min_def)
  also have "\<dots> = sint data" by (rule signed_take_bit_int_eq_self) (use assms in simp_all)
  finally have "sint (ucast data :: 'a word) = sint data" .
  then have "of_int (sint (ucast data :: 'a word)) = (of_int (sint data) :: u64)" by simp
  then show ?thesis by simp
qed

lemma opaque_encode: "utils_opaqueToInt (utils_encodeInt data) = (int (length (utils_encodeInt data)), data)"
proof -
  consider (b) "- (2 ^ 7) \<le> sint data" "sint data < 2 ^ 7"
    | (h) "\<not> (- (2 ^ 7) \<le> sint data \<and> sint data < 2 ^ 7)" "- (2 ^ 15) \<le> sint data" "sint data < 2 ^ 15"
    | (w) "\<not> (- (2 ^ 7) \<le> sint data \<and> sint data < 2 ^ 7)" "\<not> (- (2 ^ 15) \<le> sint data \<and> sint data < 2 ^ 15)"
      "- (2 ^ 31) \<le> sint data" "sint data < 2 ^ 31"
    | (d) "\<not> (- (2 ^ 7) \<le> sint data \<and> sint data < 2 ^ 7)" "\<not> (- (2 ^ 15) \<le> sint data \<and> sint data < 2 ^ 15)"
      "\<not> (- (2 ^ 31) \<le> sint data \<and> sint data < 2 ^ 31)"
    by blast
  then show ?thesis
  proof cases
    case b
    then have "scast (ucast data :: u8) = data" by (intro scast_ucast_id) simp_all
    with b show ?thesis by (simp add: utils_encodeInt_def utils_opaqueToInt_def)
  next
    case h
    let ?v = "ucast data :: u16"
    have s: "scast ?v = data" using h by (intro scast_ucast_id) simp_all
    have m: "from_mem [ucast (?v AND 0xFF), ucast (drop_bit 8 ?v AND 0xFF)] = ?v"
    proof -
      have "[ucast (?v AND 0xFF), ucast (drop_bit 8 ?v AND 0xFF)] = to_mem 2 ?v"
        by (simp add: to_mem_def numeral_2_eq_2) (auto intro!: bit_word_eqI simp: bit_simps bit_255)
      then show ?thesis by (simp add: from_to_mem)
    qed
    have e: "utils_encodeInt data = [ucast (drop_bit 8 ?v AND 0xFF), ucast (?v AND 0xFF)]"
      using h by (simp add: utils_encodeInt_def Let_def)
    show ?thesis by (simp add: utils_opaqueToInt_def e s m)
  next
    case w
    have s: "scast (ucast data :: u32) = data" using w by (intro scast_ucast_id) simp_all
    have e: "utils_encodeInt data = rev (to_mem 4 (ucast data :: u32))"
      using w by (simp only: utils_encodeInt_def if_False if_True simp_thms)
    show ?thesis by (simp add: utils_opaqueToInt_def e s from_to_mem)
  next
    case d
    then have e: "utils_encodeInt data = rev (to_mem 8 data)" by (simp only: utils_encodeInt_def if_False if_True simp_thms)
    show ?thesis by (simp add: utils_opaqueToInt_def e from_to_mem)
  qed
qed

end
