(* ===== verification/Cis_Tlv_Laws.thy ===== *)
theory Cis_Tlv_Laws
  imports Cis_Tlv Cis_Utils_Laws
begin

text \<open>
  The TLV records: what \<open>prv_createHeader\<close> writes is read by \<open>tlv_decode_TLV\<close>, and the bytes
  \<open>tlv_serialize\<close> writes for a tree of values are parsed into the tree in which every leaf is the
  byte string of the record.
\<close>

section \<open>One record\<close>

text \<open>The first byte: type bits \<open>h\<close>, identifier bit \<open>w\<close> and the bits of the length \<open>n\<close>.\<close>

definition first_byte :: "u8 \<Rightarrow> u8 \<Rightarrow> nat \<Rightarrow> u8" where
  "first_byte h w n =
     (if n \<le> 7 then (h OR w) + fst (length_field n) else (h OR w) OR fst (length_field n))"

definition id_bytes :: "u16 \<Rightarrow> u8 \<times> bytes" where
  "id_bytes i =
     (if 0xFF < i then (0x20, [ucast (drop_bit 8 i AND 0xFF), ucast (i AND 0xFF)]) else (0, [ucast i]))"

definition type_bits :: "bool \<Rightarrow> et_data_type \<Rightarrow> u8" where
  "type_bits r t = (if r then TLV_TYPE_RESOURCE_INSTANCE else prv_getHeaderType t) AND TLV_TYPE_MASK"

definition tlv_header :: "bool \<Rightarrow> et_data_type \<Rightarrow> u16 \<Rightarrow> nat \<Rightarrow> bytes" where
  "tlv_header r t i n =
     first_byte (type_bits r t) (fst (id_bytes i)) n # snd (id_bytes i) @ snd (length_field n)"

definition tlv_item :: "bool \<Rightarrow> et_data_type \<Rightarrow> u16 \<Rightarrow> bytes \<Rightarrow> bytes" where
  "tlv_item r t i content = tlv_header r t i (length content) @ content"

lemma length_tlv_header: "n \<le> 0xFFFFFF \<Longrightarrow> length (tlv_header r t i n) = prv_getHeaderLength i n"
  by (simp add: tlv_header_def id_bytes_def length_field_def prv_getHeaderLength_def)

lemma createHeader_bytes:
  "prv_createHeader buffer index False r t i n =
     map_option (\<lambda>b. (prv_getHeaderLength i n, b)) (ablit buffer index (tlv_header r t i n))"
  by (cases "length_field n"; cases "ablit buffer index (tlv_header r t i n)")
    (auto simp: prv_createHeader_def tlv_header_def first_byte_def id_bytes_def type_bits_def Let_def)

lemma put_item_at:
  assumes "length content \<le> 0xFFFFFF" and "length (tlv_item r t i content) \<le> length rest"
  shows "put_item (out @ rest) (length out) r t i content =
    Some (length (out @ tlv_item r t i content),
      (out @ tlv_item r t i content) @ drop (length (tlv_item r t i content)) rest)"
proof -
  let ?h = "tlv_header r t i (length content)"
  have l: "length ?h = prv_getHeaderLength i (length content)" by (rule length_tlv_header [OF assms(1)])
  have room: "length ?h + length content \<le> length rest" using assms(2) by (simp add: tlv_item_def)
  have "ablit (out @ rest) (length out) ?h = Some ((out @ ?h) @ drop (length ?h) rest)" using room by simp
  moreover have "ablit ((out @ ?h) @ drop (length ?h) rest) (length (out @ ?h)) content =
      Some ((out @ ?h) @ content @ drop (length content) (drop (length ?h) rest))"
    using room by (subst ablit_in) simp_all
  ultimately show ?thesis
    by (simp add: put_item_def createHeader_bytes tlv_item_def l [symmetric] add.commute)
qed

text \<open>The bits of the first byte.\<close>

lemma type_bits_cases: "type_bits r t = 0 \<or> type_bits r t = 0x40 \<or> type_bits r t = 0xC0"
  by (cases t) (simp_all add: type_bits_def prv_getHeaderType_def)

lemma id_bits_cases: "fst (id_bytes i) = 0 \<or> fst (id_bytes i) = 0x20"
  by (simp add: id_bytes_def)

lemma length_cases: "(n :: nat) \<le> 7 \<Longrightarrow> n = 0 \<or> n = 1 \<or> n = 2 \<or> n = 3 \<or> n = 4 \<or> n = 5 \<or> n = 6 \<or> n = 7"
  by arith

lemma first_byte_bits:
  assumes "h = 0 \<or> h = 0x40 \<or> h = 0xC0" and "w = 0 \<or> w = 0x20" and "n \<le> 0xFFFFFF"
  shows "first_byte h w n AND 0xC0 = h \<and> (first_byte h w n AND 0x20 = 0x20) = (w = 0x20) \<and>
    first_byte h w n AND 0x18 = (if n \<le> 7 then 0 else fst (length_field n)) \<and>
    (n \<le> 7 \<longrightarrow> unat (first_byte h w n AND 7) = n)"
proof (cases "n \<le> 7")
  case True
  from assms(1,2) length_cases [OF True] show ?thesis
    by (elim disjE) (simp_all add: first_byte_def length_field_def)
next
  case False
  with assms show ?thesis
    by (elim disjE) (simp_all add: first_byte_def length_field_def)
qed

lemma byte_digits:
  fixes n :: nat
  shows "n \<le> 0xFFFF \<Longrightarrow> unat (of_nat (n div 2 ^ 8 mod 2 ^ 8) :: u8) * 2 ^ 8 + unat (of_nat (n mod 2 ^ 8) :: u8) = n"
    and "n \<le> 0xFFFFFF \<Longrightarrow> unat (of_nat (n div 2 ^ 16 mod 2 ^ 8) :: u8) * 2 ^ 16 +
      unat (of_nat (n div 2 ^ 8 mod 2 ^ 8) :: u8) * 2 ^ 8 + unat (of_nat (n mod 2 ^ 8) :: u8) = n"
proof -
  have m: "unat (of_nat (k mod 2 ^ 8) :: u8) = k mod 2 ^ 8" for k by (rule unat_of_nat_id) simp
  have d: "n div 2 ^ 8 * 2 ^ 8 + n mod 2 ^ 8 = n" by (rule div_mult_mod_eq)
  show "n \<le> 0xFFFF \<Longrightarrow> unat (of_nat (n div 2 ^ 8 mod 2 ^ 8) :: u8) * 2 ^ 8 + unat (of_nat (n mod 2 ^ 8) :: u8) = n"
  proof -
    assume "n \<le> 0xFFFF"
    then have "n div 2 ^ 8 < 2 ^ 8" by (intro less_mult_imp_div_less) simp
    then show ?thesis unfolding m using d by (simp only: mod_less)
  qed
  show "n \<le> 0xFFFFFF \<Longrightarrow> unat (of_nat (n div 2 ^ 16 mod 2 ^ 8) :: u8) * 2 ^ 16 +
      unat (of_nat (n div 2 ^ 8 mod 2 ^ 8) :: u8) * 2 ^ 8 + unat (of_nat (n mod 2 ^ 8) :: u8) = n"
  proof -
    assume "n \<le> 0xFFFFFF"
    then have t: "n div 2 ^ 16 mod 2 ^ 8 = n div 2 ^ 16" by (intro mod_less less_mult_imp_div_less) simp
    define q where "q = n div 2 ^ 8"
    have q: "n div 2 ^ 16 = q div 2 ^ 8" by (simp add: q_def div_mult2_eq [symmetric])
    have "q div 2 ^ 8 * 2 ^ 16 + q mod 2 ^ 8 * 2 ^ 8 = (q div 2 ^ 8 * 2 ^ 8 + q mod 2 ^ 8) * 2 ^ 8"
      unfolding distrib_right by simp
    also have "\<dots> = q * 2 ^ 8" by (simp only: div_mult_mod_eq)
    finally show ?thesis unfolding m unfolding t unfolding q unfolding q_def using d by (simp only:)
  qed
qed

lemma decode_length_field:
  assumes "n \<le> 0xFFFFFF" and "h = 0 \<or> h = 0x40 \<or> h = 0xC0" and "w = 0 \<or> w = 0x20"
  shows "decode_length (first_byte h w n # ids @ snd (length_field n) @ rest) (Suc (length ids)) =
    Some (Done (Suc (length ids) + length (snd (length_field n)), n))"
proof -
  note bits = first_byte_bits [OF assms(2,3,1)]
  consider "n \<le> 7" | "\<not> n \<le> 7" "n \<le> 0xFF" | "\<not> n \<le> 7" "\<not> n \<le> 0xFF" "n \<le> 0xFFFF"
    | "\<not> n \<le> 7" "\<not> n \<le> 0xFF" "\<not> n \<le> 0xFFFF" by blast
  then show ?thesis
  proof cases
    case 1
    then show ?thesis using bits by (simp add: decode_length_def length_field_def)
  next
    case 2
    then show ?thesis using bits by (simp add: decode_length_def length_field_def nth_append)
  next
    case 3
    then show ?thesis using bits byte_digits(1) [OF 3(3)]
      by (simp add: decode_length_def length_field_def nth_append)
  next
    case 4
    then show ?thesis using bits assms(1) byte_digits(2) [OF assms(1)]
      by (simp add: decode_length_def length_field_def nth_append)
  qed
qed

lemma id_bytes_value:
  "(if fst (id_bytes i) = 0x20 then push_bit 8 (ucast (snd (id_bytes i) ! 0)) + ucast (snd (id_bytes i) ! 1)
    else ucast (snd (id_bytes i) ! 0)) = i"
proof (cases "0xFF < i")
  case True
  have "ucast (drop_bit 8 i AND 0xFF) = (ucast (drop_bit 8 i) :: u8)" "ucast (i AND 0xFF) = (ucast i :: u8)"
    by (rule bit_word_eqI; auto simp: bit_simps bit_255)+
  then show ?thesis using True be16_join [of i] by (simp add: id_bytes_def)
next
  case False
  then have "unat i < 2 ^ 8" by (simp add: word_less_nat_alt)
  then have "unat (ucast i :: u8) = unat i" by (subst unat_ucast_up) simp_all
  then have "ucast (ucast i :: u8) = i" by (simp add: word_unat_eq_iff)
  with False show ?thesis by (simp add: id_bytes_def)
qed

text \<open>The type a receiver sees.\<close>

definition wire_type :: "bool \<Rightarrow> et_data_type \<Rightarrow> et_data_type" where
  "wire_type r t = prv_getDataType (type_bits r t)"

lemma decode_item:
  assumes "length content \<le> 0xFFFFFF"
  shows "tlv_decode_TLV (tlv_item r t i content @ rest) =
    Some (Done (length (tlv_item r t i content), wire_type r t, i,
      prv_getHeaderLength i (length content), length content))"
proof -
  let ?n = "length content" and ?h = "type_bits r t" and ?w = "fst (id_bytes i)" and ?ids = "snd (id_bytes i)"
  let ?buf = "first_byte ?h ?w ?n # ?ids @ snd (length_field ?n) @ content @ rest"
  have buf: "tlv_item r t i content @ rest = ?buf" by (simp add: tlv_item_def tlv_header_def)
  note bits = first_byte_bits [OF type_bits_cases [of r t] id_bits_cases [of i] assms]
  have ids: "Suc (length ?ids) = (if ?w = 0x20 then 3 else 2)" "length ?ids = 1 \<or> length ?ids = 2"
    "?w = 0x20 \<Longrightarrow> length ?ids = 2"
    by (auto simp: id_bytes_def split: if_splits)
  have len: "decode_length ?buf (if ?w = 0x20 then 3 else 2) = Some (Done (Suc (length ?ids) + length (snd (length_field ?n)), ?n))"
    using decode_length_field [OF assms type_bits_cases [of r t] id_bits_cases [of i], of ?ids "content @ rest"]
    by (simp add: ids(1))
  have hl: "Suc (length ?ids) + length (snd (length_field ?n)) = prv_getHeaderLength i ?n"
    using length_tlv_header [OF assms, of r t i] by (simp add: tlv_header_def)
  have "aload ?buf 1 = Some (?ids ! 0)" "?w = 0x20 \<Longrightarrow> aload ?buf 2 = Some (?ids ! 1)"
    using ids(2,3) by (auto simp: aload_def nth_append nth_Cons')
  then have i: "decode_id ?buf (?w = 0x20) = Some i"
    using id_bytes_value [of i] by (simp add: decode_id_def split: if_splits)
  have b: "aload ?buf 0 = Some (first_byte ?h ?w ?n)" by simp
  have room: "\<not> length ?buf < 2" "\<not> (?w = 0x20 \<and> length ?buf < 3)"
    "\<not> length ?buf < Suc (length ?ids) + length (snd (length_field ?n)) + ?n"
    using ids(2,3) by auto
  have li: "length (tlv_item r t i content) = prv_getHeaderLength i ?n + ?n"
    by (simp add: tlv_item_def length_tlv_header [OF assms])
  show ?thesis
    unfolding buf tlv_decode_TLV_def b Option.bind.bind_lunit Let_def conjunct1 [OF bits] conjunct1 [OF conjunct2 [OF bits]] i len
    using room by (simp only: if_False sum.case prod.case hl li wire_type_def simp_thms)
qed

definition dec_tlv :: "bytes \<Rightarrow> ((et_data_type \<times> u16 \<times> bytes) \<times> bytes) option" where
  "dec_tlv bs =
     (case tlv_decode_TLV bs of
        Some (Inr (n, t, i, idx, len)) \<Rightarrow> Some ((t, i, take len (drop idx bs)), drop n bs)
      | _ \<Rightarrow> None)"

text \<open>The records a sender writes for the types a receiver can tell apart.\<close>

definition tlv_valid :: "et_data_type \<times> u16 \<times> bytes \<Rightarrow> bool" where
  "tlv_valid x = (case x of (t, i, content) \<Rightarrow>
     (t = DATA_TYPE_OPAQUE \<or> t = DATA_TYPE_OBJECT_INSTANCE) \<and> length content \<le> 0xFFFFFF)"

definition enc_tlv :: "et_data_type \<times> u16 \<times> bytes \<Rightarrow> bytes" where
  "enc_tlv x = (case x of (t, i, content) \<Rightarrow> tlv_item False t i content)"

lemma item_content:
  assumes "length content \<le> 0xFFFFFF"
  shows "take (length content) (drop (prv_getHeaderLength i (length content)) (tlv_item r t i content @ rest)) = content"
  by (simp add: tlv_item_def length_tlv_header [OF assms, symmetric, of _ r t])

interpretation tlv_codec: prefix_codec tlv_valid enc_tlv dec_tlv
proof
  fix x rest
  assume v: "tlv_valid x"
  obtain t i content where x: "x = (t, i, content)" by (cases x)
  have l: "length content \<le> 0xFFFFFF" and t: "wire_type False t = t"
    using v by (auto simp: tlv_valid_def x wire_type_def type_bits_def prv_getHeaderType_def prv_getDataType_def)
  show "dec_tlv (enc_tlv x @ rest) = Some (x, rest)"
    by (simp add: dec_tlv_def enc_tlv_def x decode_item [OF l] t item_content [OF l] del: take_append drop_append)
      (simp)
qed

section \<open>Trees of values\<close>

lemma data_induct [case_names Nil Cons]:
  assumes "P []" and "\<And>d ds. P (kids d) \<Longrightarrow> P ds \<Longrightarrow> P (d # ds)"
  shows "P ds"
proof (induction "size_list size ds" arbitrary: ds rule: less_induct)
  case less
  show ?case
  proof (cases ds)
    case (Cons d es)
    then have "size_list size (kids d) < size_list size ds" "size_list size es < size_list size ds"
      using size_kids [of d] by (cases d, simp)+
    then show ?thesis unfolding Cons by (intro assms(2) less) (simp_all add: Cons)
  qed (simp add: assms(1))
qed

function tlv_bytes :: "bool \<Rightarrow> st_data list \<Rightarrow> bytes" where
  "tlv_bytes r [] = []"
| "tlv_bytes r (d # ds) =
     (if sd_type d = DATA_TYPE_OBJECT_INSTANCE
      then tlv_item False (sd_type d) (sd_id d) (tlv_bytes r (kids d))
      else tlv_item r (sd_type d) (sd_id d) (the (leaf_bytes d))) @ tlv_bytes r ds"
  by pat_completeness auto
termination
  by (relation "measure (\<lambda>(r, ds). size_list size ds)") (auto intro: less_le_trans [OF size_kids])

definition leaf_ok :: "st_data \<Rightarrow> bool" where
  "leaf_ok d \<longleftrightarrow>
     (case leaf_bytes d of None \<Rightarrow> False | Some content \<Rightarrow> content \<noteq> [] \<and> length content \<le> 0xFFFFFF)"

text \<open>
  What a sender must respect: an instance has children, a leaf has content, the union member is the
  one of the type, and no length exceeds 24 bits.
\<close>

function tlv_ok :: "st_data list \<Rightarrow> bool" where
  "tlv_ok [] = True"
| "tlv_ok (d # ds) =
     ((if sd_type d = DATA_TYPE_OBJECT_INSTANCE
       then as_children d = Some (kids d) \<and> kids d \<noteq> [] \<and> tlv_ok (kids d) \<and>
         length (tlv_bytes False (kids d)) \<le> 0xFFFFFF
       else leaf_ok d) \<and> tlv_ok ds)"
  by pat_completeness auto
termination
  by (relation "measure (size_list size)") (auto intro: less_le_trans [OF size_kids])

text \<open>What the receiver makes of it: each leaf is the byte string of its record.\<close>

function received :: "st_data list \<Rightarrow> st_data list" where
  "received [] = []"
| "received (d # ds) =
     (if sd_type d = DATA_TYPE_OBJECT_INSTANCE
      then Data (sd_id d) DATA_TYPE_OBJECT_INSTANCE [] (AsChildren (received (kids d)))
      else Data (sd_id d) DATA_TYPE_OPAQUE (the (leaf_bytes d))
             (AsInteger (snd (utils_opaqueToInt (the (leaf_bytes d)))))) # received ds"
  by pat_completeness auto
termination
  by (relation "measure (size_list size)") (auto intro: less_le_trans [OF size_kids])

lemma length_item: "length content \<le> 0xFFFFFF \<Longrightarrow>
    length (tlv_item r t i content) = prv_getHeaderLength i (length content) + length content"
  by (simp add: tlv_item_def length_tlv_header)

lemma length_item_type: "length (tlv_item r t i content) = length (tlv_item False t i content)"
  by (simp add: tlv_item_def tlv_header_def)

lemma length_item_ge: "2 \<le> length (tlv_item r t i content)"
  by (simp add: tlv_item_def tlv_header_def id_bytes_def)

lemma length_tlv_bytes: "length (tlv_bytes r ds) = length (tlv_bytes False ds)"
proof (induction ds rule: data_induct)
  case (Cons d ds)
  then show ?case
    by (simp add: tlv_item_def tlv_header_def)
qed simp

lemma length_float: "length (utils_encodeFloat f) = float_length f"
  by (simp add: utils_encodeFloat_def float_length_def)

lemma leaf_ok_bytes:
  assumes "leaf_ok d"
  obtains content where "leaf_bytes d = Some content" "content \<noteq> []" "length content \<le> 0xFFFFFF"
  using assms by (auto simp: leaf_ok_def split: option.splits)

lemma leaf_type:
  assumes "leaf_bytes d = Some content"
  shows "sd_type d \<in> {DATA_TYPE_STRING, DATA_TYPE_OPAQUE, DATA_TYPE_INTEGER, DATA_TYPE_FLOAT, DATA_TYPE_BOOL}"
    and "sd_type d \<noteq> DATA_TYPE_OBJECT_INSTANCE"
  using assms by (auto simp: leaf_bytes_def split: et_data_type.splits)

lemma getLength_leaf:
  "leaf_bytes d = Some content \<Longrightarrow> prv_getLength ds = Some rest \<Longrightarrow>
   prv_getLength (d # ds) = Some (prv_getHeaderLength (sd_id d) (length content) + length content + rest)"
  by (auto simp: leaf_bytes_def Let_def length_float split: et_data_type.splits)

lemma prv_getLength_bytes: "tlv_ok ds \<Longrightarrow> prv_getLength ds = Some (length (tlv_bytes r ds))"
proof (induction ds rule: data_induct)
  case (Cons d ds)
  show ?case
  proof (cases "sd_type d = DATA_TYPE_OBJECT_INSTANCE")
    case True
    then show ?thesis using Cons length_tlv_bytes [of r "kids d"]
      by (simp add: length_item Let_def)
  next
    case False
    then have "leaf_ok d" using Cons.prems by simp
    then obtain content where "leaf_bytes d = Some content" "length content \<le> 0xFFFFFF"
      by (rule leaf_ok_bytes)
    then show ?thesis using False Cons getLength_leaf [of d content ds] by (simp add: length_item)
  qed
qed simp

text \<open>The writer.\<close>

lemma loop_item:
  assumes "length content \<le> 0xFFFFFF" and "length (tlv_item r t i content @ bs) \<le> length rest"
    and "\<And>out rest. length bs \<le> length rest \<Longrightarrow>
      tlv_serialize_loop mal r' ds (length out) (out @ rest) = Some (True, (out @ bs) @ drop (length bs) rest)"
  shows "(case put_item (out @ rest) (length out) r t i content of
      None \<Rightarrow> None | Some (index, buffer) \<Rightarrow> tlv_serialize_loop mal r' ds index buffer) =
    Some (True, (out @ tlv_item r t i content @ bs) @ drop (length (tlv_item r t i content @ bs)) rest)"
proof -
  let ?item = "tlv_item r t i content"
  have "put_item (out @ rest) (length out) r t i content =
      Some (length (out @ ?item), (out @ ?item) @ drop (length ?item) rest)"
    by (rule put_item_at) (use assms(1,2) in simp_all)
  moreover have "length bs \<le> length (drop (length ?item) rest)" using assms(2) by simp
  ultimately show ?thesis using assms(3) [of "drop (length ?item) rest" "out @ ?item"]
    by (simp add: add.commute)
qed

lemma serialize_step:
  assumes "alloc_ok mal" and "prv_getLength ds = Some (length bs)" and "bs \<noteq> []" and "length bs < 2 ^ 31"
    and "\<And>out rest. length bs \<le> length rest \<Longrightarrow>
      tlv_serialize_loop mal r ds (length out) (out @ rest) = Some (True, (out @ bs) @ drop (length bs) rest)"
  shows "tlv_serialize mal r ds = Some (length bs, bs)"
proof -
  have u: "unat (of_nat (length bs) :: u32) = length bs" using assms(4) by (intro unat_of_nat_id) simp
  obtain buf where buf: "mal (of_nat (length bs)) = Some buf" "length buf = length bs"
    using alloc_okE [OF assms(1), of "of_nat (length bs)"] assms(4) u by metis
  have "tlv_serialize_loop mal r ds 0 buf = Some (True, bs)"
    using assms(5) [of buf "[]"] buf(2) by simp
  then show ?thesis using assms(2,3) buf(1) by (simp add: tlv_serialize.simps)
qed

lemma tlv_bytes_ne: "ds \<noteq> [] \<Longrightarrow> tlv_bytes r ds \<noteq> []"
  by (cases ds) (simp_all add: tlv_item_def tlv_header_def)

lemma tlv_serialize_loop_bytes:
  "alloc_ok mal \<Longrightarrow> tlv_ok ds \<Longrightarrow> length (tlv_bytes r ds) < 2 ^ 31 \<Longrightarrow> length (tlv_bytes r ds) \<le> length rest \<Longrightarrow>
   tlv_serialize_loop mal r ds (length out) (out @ rest) =
     Some (True, (out @ tlv_bytes r ds) @ drop (length (tlv_bytes r ds)) rest)"
proof (induction ds arbitrary: out rest rule: data_induct)
  case (Cons d ds)
  note mal = Cons.prems(1)
  have ds: "tlv_ok ds" "length (tlv_bytes r ds) < 2 ^ 31" using Cons.prems by simp_all
  note IH = Cons.IH(2) [OF mal ds]
  show ?case
  proof (cases "sd_type d = DATA_TYPE_OBJECT_INSTANCE")
    case True
    then have k: "as_children d = Some (kids d)" "kids d \<noteq> []" "tlv_ok (kids d)"
      "length (tlv_bytes r (kids d)) \<le> 0xFFFFFF"
      using Cons.prems(2) length_tlv_bytes [of r "kids d"] by simp_all
    have kl: "length (tlv_bytes r (kids d)) < 2 ^ 31" using k(4) by simp
    have ser: "tlv_serialize mal r (kids d) = Some (length (tlv_bytes r (kids d)), tlv_bytes r (kids d))"
      by (rule serialize_step [OF mal prv_getLength_bytes [OF k(3)] tlv_bytes_ne [OF k(2)] kl
            Cons.IH(1) [OF mal k(3) kl]])
    have "length (tlv_item False (sd_type d) (sd_id d) (tlv_bytes r (kids d)) @ tlv_bytes r ds) \<le> length rest"
      using Cons.prems(4) True by simp
    from loop_item [OF k(4) this IH] show ?thesis
      using True k(1) ser tlv_bytes_ne [OF k(2)] by simp
  next
    case False
    then have "leaf_ok d" using Cons.prems(2) by simp
    then obtain content where c: "leaf_bytes d = Some content" "length content \<le> 0xFFFFFF"
      by (rule leaf_ok_bytes)
    have "length (tlv_item r (sd_type d) (sd_id d) content @ tlv_bytes r ds) \<le> length rest"
      using Cons.prems(4) False c(1) by simp
    from loop_item [OF c(2) this IH] show ?thesis
      using False c(1) leaf_type(1) [OF c(1)] by simp
  qed
qed simp

lemma tlv_serialize_bytes:
  assumes "alloc_ok mal" and "tlv_ok ds" and "ds \<noteq> []" and "length (tlv_bytes r ds) < 2 ^ 31"
  shows "tlv_serialize mal r ds = Some (length (tlv_bytes r ds), tlv_bytes r ds)"
  by (rule serialize_step [OF assms(1) prv_getLength_bytes [OF assms(2)] tlv_bytes_ne [OF assms(3)] assms(4)
        tlv_serialize_loop_bytes [OF assms(1,2,4)]])

text \<open>The reader.\<close>

lemma alloc_nat:
  assumes "alloc_ok mal" and "n < 2 ^ 31"
  obtains b where "mal (of_nat n) = Some b" and "length b = n"
proof -
  have "unat (of_nat n :: u32) = n" using assms(2) by (intro unat_of_nat_id) simp
  then show thesis using alloc_okE [OF assms(1), of "of_nat n"] assms(2) that by metis
qed

lemma data_new_ok:
  assumes "alloc_ok mal" and "24 * (n + 1) < 2 ^ 31"
  shows "data_new mal (n + 1) = Some (replicate (n + 1) data_zero)"
proof -
  obtain b where "mal (of_nat (24 * (n + 1))) = Some b" by (rule alloc_nat [OF assms])
  moreover have "n + 1 \<noteq> 0" by simp
  ultimately show ?thesis by (simp only: data_new_def if_False option.case)
qed

lemma encode_opaque_item:
  assumes "alloc_ok mal" and "length content < 2 ^ 31" and "content \<noteq> []"
  shows "data_encode_opaque mal content (set_id i (set_type t data_zero)) =
    Data i DATA_TYPE_OPAQUE content (AsInteger (snd (utils_opaqueToInt content)))"
proof -
  obtain b where "mal (of_nat (length content)) = Some b" by (rule alloc_nat [OF assms(1,2)])
  then show ?thesis using assms(3)
    by (simp add: data_encode_opaque_def prv_setBuffer_def set_id_def set_type_def set_buffer_def
        set_value_def data_zero_def)
qed

lemma parse_step:
  assumes "alloc_ok mal" and "24 * (length acc + 1) < 2 ^ 31" and "length content \<le> 0xFFFFFF"
  shows "tlv_parse_loop mal (tlv_item r t i content @ rest) acc =
    (if wire_type r t = DATA_TYPE_OBJECT_INSTANCE \<or> wire_type r t = DATA_TYPE_MULTIPLE_RESOURCE
     then (case tlv_parse_loop mal content [] of
             None \<Rightarrow> None
           | Some cs \<Rightarrow>
               if cs = [] then Some []
               else tlv_parse_loop mal rest
                      (acc @ [Data i (wire_type r t) [] (AsChildren cs)]))
     else tlv_parse_loop mal rest (acc @ [data_encode_opaque mal content (set_id i (set_type (wire_type r t) data_zero))]))"
proof -
  have c: "take (length content) (drop (prv_getHeaderLength i (length content)) (tlv_item r t i content @ rest)) = content"
    by (rule item_content [OF assms(3)])
  let ?bs = "tlv_item r t i content @ rest"
  have "length content + prv_getHeaderLength i (length content) \<le> length ?bs"
    by (simp add: length_item [OF assms(3)])
  then have sl: "aslice ?bs (prv_getHeaderLength i (length content)) (length content) = Some content"
    using c by (simp add: aslice_def)
  have d: "aslice ?bs (length (tlv_item r t i content)) (length ?bs - length (tlv_item r t i content)) = Some rest"
    by simp
  have v: "set_value (AsChildren cs) (set_id i (set_type ty data_zero)) = Data i ty [] (AsChildren cs)" for cs ty
    by (simp add: set_value_def set_id_def set_type_def data_zero_def)
  show ?thesis
    by (subst tlv_parse_loop.simps)
      (simp only: decode_item [OF assms(3)] data_new_ok [OF assms(1,2)] sl d v Let_def sum.case prod.case option.case)
qed

lemma wire_type_instance: "wire_type False DATA_TYPE_OBJECT_INSTANCE = DATA_TYPE_OBJECT_INSTANCE"
  by (simp add: wire_type_def type_bits_def prv_getHeaderType_def prv_getDataType_def)

lemma wire_type_leaf: "leaf_bytes d = Some content \<Longrightarrow> wire_type r (sd_type d) = DATA_TYPE_OPAQUE"
  by (auto simp: leaf_bytes_def wire_type_def type_bits_def prv_getHeaderType_def prv_getDataType_def
      split: et_data_type.splits)

lemma received_ne: "ds \<noteq> [] \<Longrightarrow> received ds \<noteq> []"
  by (cases ds) simp_all

lemma tlv_parse_loop_bytes:
  "alloc_ok mal \<Longrightarrow> tlv_ok ds \<Longrightarrow> 24 * (length acc + length (tlv_bytes r ds)) < 2 ^ 31 \<Longrightarrow>
   tlv_parse_loop mal (tlv_bytes r ds @ rest) acc = tlv_parse_loop mal rest (acc @ received ds)"
proof (induction ds arbitrary: acc rest rule: data_induct)
  case (Cons d ds)
  note mal = Cons.prems(1)
  have ds: "tlv_ok ds" using Cons.prems(2) by simp
  show ?case
  proof (cases "sd_type d = DATA_TYPE_OBJECT_INSTANCE")
    case True
    then have k: "kids d \<noteq> []" "tlv_ok (kids d)" "length (tlv_bytes r (kids d)) \<le> 0xFFFFFF"
      using Cons.prems(2) length_tlv_bytes [of r "kids d"] by simp_all
    let ?item = "tlv_item False (sd_type d) (sd_id d) (tlv_bytes r (kids d))"
    have l: "2 \<le> length ?item" "length (tlv_bytes r (kids d)) \<le> length ?item"
      by (rule length_item_ge) (simp add: tlv_item_def)
    have b: "24 * (length acc + (length ?item + length (tlv_bytes r ds))) < 2 ^ 31"
      using Cons.prems(3) True by simp
    have acc: "24 * (length acc + 1) < 2 ^ 31" using l(1) b by simp
    have "tlv_parse_loop mal (tlv_bytes r (kids d) @ []) [] = tlv_parse_loop mal [] ([] @ received (kids d))"
      by (rule Cons.IH(1) [OF mal k(2)]) (use l b in simp)
    then have kid: "tlv_parse_loop mal (tlv_bytes r (kids d)) [] = Some (received (kids d))"
      by (subst (asm) (2) tlv_parse_loop.simps) (simp add: tlv_decode_TLV_def)
    have t: "wire_type False (sd_type d) = DATA_TYPE_OBJECT_INSTANCE" by (simp add: True wire_type_instance)
    show ?thesis
      using True parse_step [OF mal acc k(3), of False "sd_type d" "sd_id d" "tlv_bytes r ds @ rest"] kid
        received_ne [OF k(1)] Cons.IH(2) [OF mal ds, of "acc @ [Data (sd_id d) DATA_TYPE_OBJECT_INSTANCE [] (AsChildren (received (kids d)))]" rest]
        b l(1) by (simp add: wire_type_instance)
  next
    case False
    then have "leaf_ok d" using Cons.prems(2) by simp
    then obtain content where c: "leaf_bytes d = Some content" "content \<noteq> []" "length content \<le> 0xFFFFFF"
      by (rule leaf_ok_bytes)
    let ?item = "tlv_item r (sd_type d) (sd_id d) content"
    have l: "2 \<le> length ?item" by (rule length_item_ge)
    have b: "24 * (length acc + (length ?item + length (tlv_bytes r ds))) < 2 ^ 31"
      using Cons.prems(3) False c(1) by simp
    have acc: "24 * (length acc + 1) < 2 ^ 31" using l b by simp
    have c31: "length content < 2 ^ 31" using c(3) by simp
    show ?thesis
      using False parse_step [OF mal acc c(3), of r "sd_type d" "sd_id d" "tlv_bytes r ds @ rest"] c(1)
        wire_type_leaf [OF c(1), of r] encode_opaque_item [OF mal c31 c(2)]
        Cons.IH(2) [OF mal ds, of "acc @ [Data (sd_id d) DATA_TYPE_OPAQUE content (AsInteger (snd (utils_opaqueToInt content)))]" rest]
        b l by simp
  qed
qed simp

end
