(* ===== verification/Coap_Codes.thy ===== *)
theory Coap_Codes
  imports Prelude
begin

text \<open>
  The one-byte codes of \<open>er-coap-13.h\<close>: results of functions, response codes on the wire (class in
  the upper three bits) and request methods.
\<close>

abbreviation (input) COAP_NO_ERROR :: u8 where "COAP_NO_ERROR \<equiv> 0"
abbreviation (input) COAP_IGNORE :: u8 where "COAP_IGNORE \<equiv> 0x01"
abbreviation (input) COAP_201_CREATED :: u8 where "COAP_201_CREATED \<equiv> 0x41"
abbreviation (input) COAP_202_DELETED :: u8 where "COAP_202_DELETED \<equiv> 0x42"
abbreviation (input) COAP_204_CHANGED :: u8 where "COAP_204_CHANGED \<equiv> 0x44"
abbreviation (input) COAP_205_CONTENT :: u8 where "COAP_205_CONTENT \<equiv> 0x45"
abbreviation (input) COAP_206_CONFORM :: u8 where "COAP_206_CONFORM \<equiv> 0x46"
abbreviation (input) COAP_231_CONTINUE :: u8 where "COAP_231_CONTINUE \<equiv> 0x5F"
abbreviation (input) COAP_400_BAD_REQUEST :: u8 where "COAP_400_BAD_REQUEST \<equiv> 0x80"
abbreviation (input) COAP_401_UNAUTHORIZED :: u8 where "COAP_401_UNAUTHORIZED \<equiv> 0x81"
abbreviation (input) COAP_402_BAD_OPTION :: u8 where "COAP_402_BAD_OPTION \<equiv> 0x82"
abbreviation (input) COAP_404_NOT_FOUND :: u8 where "COAP_404_NOT_FOUND \<equiv> 0x84"
abbreviation (input) COAP_405_METHOD_NOT_ALLOWED :: u8 where "COAP_405_METHOD_NOT_ALLOWED \<equiv> 0x85"
abbreviation (input) COAP_406_NOT_ACCEPTABLE :: u8 where "COAP_406_NOT_ACCEPTABLE \<equiv> 0x86"
abbreviation (input) COAP_408_REQ_ENTITY_INCOMPLETE :: u8 where "COAP_408_REQ_ENTITY_INCOMPLETE \<equiv> 0x88"
abbreviation (input) COAP_413_ENTITY_TOO_LARGE :: u8 where "COAP_413_ENTITY_TOO_LARGE \<equiv> 0x8F"
abbreviation (input) COAP_500_INTERNAL_SERVER_ERROR :: u8 where "COAP_500_INTERNAL_SERVER_ERROR \<equiv> 0xA0"
abbreviation (input) COAP_501_NOT_IMPLEMENTED :: u8 where "COAP_501_NOT_IMPLEMENTED \<equiv> 0xA1"
abbreviation (input) COAP_503_SERVICE_UNAVAILABLE :: u8 where "COAP_503_SERVICE_UNAVAILABLE \<equiv> 0xA3"
abbreviation (input) COAP_505_PROXYING_NOT_SUPPORTED :: u8 where "COAP_505_PROXYING_NOT_SUPPORTED \<equiv> 0xA5"
abbreviation (input) COAP_UNKOWN_ERROR :: u8 where "COAP_UNKOWN_ERROR \<equiv> 0xC0"

abbreviation (input) COAP_GET :: u8 where "COAP_GET \<equiv> 1"
abbreviation (input) COAP_POST :: u8 where "COAP_POST \<equiv> 2"
abbreviation (input) COAP_PUT :: u8 where "COAP_PUT \<equiv> 3"
abbreviation (input) COAP_DELETE :: u8 where "COAP_DELETE \<equiv> 4"

end
