(* ===== verification/Coap_Message.thy ===== *)
theory Coap_Message
  imports Coap_Codes
begin

text \<open>
  \<open>er-coap-13.c\<close>: the CoAP messages of the LwM2M client, with \<open>CIS_ENABLE_AUTH\<close> defined as in
  \<open>cis_def.h\<close>. A \<open>coap_packet_t\<close> is a record. A pointer with its length field (\<open>uri_host\<close>,
  \<open>proxy_uri\<close>, \<open>auth_code\<close>, \<open>location_query\<close>) is the list of the bytes it spans; fixed arrays
  are lists of their size; a \<open>multi_option_t\<close> chain is the list of its nodes.

  The functions that write options return the bytes they write, in order;
  \<open>coap_serialize_message\<close> stores them and is \<open>None\<close> when they do not fit the buffer. The
  parser works on the rest of the datagram from \<open>current_option\<close> on and is \<open>None\<close> when the
  code reads or steps past its end, or writes outside the option bitmap.
\<close>

section \<open>State\<close>

datatype coap_message_type = COAP_TYPE_CON | COAP_TYPE_NON | COAP_TYPE_ACK | COAP_TYPE_RST

fun type_code :: "coap_message_type \<Rightarrow> u8" where
  "type_code COAP_TYPE_CON = 0"
| "type_code COAP_TYPE_NON = 1"
| "type_code COAP_TYPE_ACK = 2"
| "type_code COAP_TYPE_RST = 3"

definition code_type :: "u8 \<Rightarrow> coap_message_type" where
  "code_type c = (if c = 0 then COAP_TYPE_CON else if c = 1 then COAP_TYPE_NON
                  else if c = 2 then COAP_TYPE_ACK else COAP_TYPE_RST)"

record multi_option =
  mo_is_static :: bool
  mo_len :: u8
  mo_data :: bytes

record coap_packet =
  cp_version :: u8
  cp_type :: coap_message_type
  cp_code :: u8
  cp_mid :: u16
  cp_options :: bytes
  cp_content_type :: u32
  cp_max_age :: u32
  cp_proxy_uri :: bytes
  cp_auth_code :: bytes
  cp_etag_len :: u8
  cp_etag :: bytes
  cp_uri_host :: bytes
  cp_location_path :: "multi_option list"
  cp_uri_port :: u16
  cp_location_query :: bytes
  cp_uri_path :: "multi_option list"
  cp_observe :: u32
  cp_token_len :: u8
  cp_token :: bytes
  cp_accept_num :: u8
  cp_accept :: "u16 list"
  cp_if_match_len :: u8
  cp_if_match :: bytes
  cp_block2_num :: u32
  cp_block2_more :: u8
  cp_block2_size :: u16
  cp_block2_offset :: u32
  cp_block1_num :: u32
  cp_block1_more :: u8
  cp_block1_size :: u16
  cp_block1_offset :: u32
  cp_size :: u32
  cp_uri_query :: "multi_option list"
  cp_if_none_match :: u8
  cp_payload_len :: u16
  cp_payload :: "bytes option"

abbreviation (input) COAP_OPTION_IF_MATCH :: u32 where "COAP_OPTION_IF_MATCH \<equiv> 1"
abbreviation (input) COAP_OPTION_URI_HOST :: u32 where "COAP_OPTION_URI_HOST \<equiv> 3"
abbreviation (input) COAP_OPTION_ETAG :: u32 where "COAP_OPTION_ETAG \<equiv> 4"
abbreviation (input) COAP_OPTION_IF_NONE_MATCH :: u32 where "COAP_OPTION_IF_NONE_MATCH \<equiv> 5"
abbreviation (input) COAP_OPTION_OBSERVE :: u32 where "COAP_OPTION_OBSERVE \<equiv> 6"
abbreviation (input) COAP_OPTION_URI_PORT :: u32 where "COAP_OPTION_URI_PORT \<equiv> 7"
abbreviation (input) COAP_OPTION_LOCATION_PATH :: u32 where "COAP_OPTION_LOCATION_PATH \<equiv> 8"
abbreviation (input) COAP_OPTION_URI_PATH :: u32 where "COAP_OPTION_URI_PATH \<equiv> 11"
abbreviation (input) COAP_OPTION_CONTENT_TYPE :: u32 where "COAP_OPTION_CONTENT_TYPE \<equiv> 12"
abbreviation (input) COAP_OPTION_MAX_AGE :: u32 where "COAP_OPTION_MAX_AGE \<equiv> 14"
abbreviation (input) COAP_OPTION_URI_QUERY :: u32 where "COAP_OPTION_URI_QUERY \<equiv> 15"
abbreviation (input) COAP_OPTION_ACCEPT :: u32 where "COAP_OPTION_ACCEPT \<equiv> 17"
abbreviation (input) COAP_OPTION_TOKEN :: u32 where "COAP_OPTION_TOKEN \<equiv> 19"
abbreviation (input) COAP_OPTION_LOCATION_QUERY :: u32 where "COAP_OPTION_LOCATION_QUERY \<equiv> 20"
abbreviation (input) COAP_OPTION_BLOCK2 :: u32 where "COAP_OPTION_BLOCK2 \<equiv> 23"
abbreviation (input) COAP_OPTION_BLOCK1 :: u32 where "COAP_OPTION_BLOCK1 \<equiv> 27"
abbreviation (input) COAP_OPTION_SIZE :: u32 where "COAP_OPTION_SIZE \<equiv> 28"
abbreviation (input) COAP_OPTION_PROXY_URI :: u32 where "COAP_OPTION_PROXY_URI \<equiv> 35"
abbreviation (input) COAP_OPTION_AUTH_CODE :: u32 where "COAP_OPTION_AUTH_CODE \<equiv> 63"


text \<open>The packet after \<open>memset(coap_pkt, 0, sizeof(coap_packet_t))\<close>; the bitmap has 8 bytes.\<close>

definition coap_zero :: coap_packet where
  "coap_zero = \<lparr>
     cp_version = 0, cp_type = COAP_TYPE_CON, cp_code = 0, cp_mid = 0,
     cp_options = replicate 8 0, cp_content_type = 0, cp_max_age = 0, cp_proxy_uri = [],
     cp_auth_code = [], cp_etag_len = 0, cp_etag = replicate 8 0, cp_uri_host = [],
     cp_location_path = [], cp_uri_port = 0, cp_location_query = [], cp_uri_path = [],
     cp_observe = 0, cp_token_len = 0, cp_token = replicate 8 0, cp_accept_num = 0,
     cp_accept = [0, 0], cp_if_match_len = 0, cp_if_match = replicate 8 0, cp_block2_num = 0,
     cp_block2_more = 0, cp_block2_size = 0, cp_block2_offset = 0, cp_block1_num = 0,
     cp_block1_more = 0, cp_block1_size = 0, cp_block1_offset = 0, cp_size = 0,
     cp_uri_query = [], cp_if_none_match = 0, cp_payload_len = 0, cp_payload = None\<rparr>"

definition SET_OPTION :: "coap_packet \<Rightarrow> u32 \<Rightarrow> coap_packet option" where
  "SET_OPTION pkt opt = do {
     b \<leftarrow> aload (cp_options pkt) (unat (opt div 8));
     os \<leftarrow> astore (cp_options pkt) (unat (opt div 8)) (b OR push_bit (unat (opt mod 8)) 1);
     Some (pkt\<lparr>cp_options := os\<rparr>) }"

definition IS_OPTION :: "coap_packet \<Rightarrow> u32 \<Rightarrow> bool" where
  "IS_OPTION pkt opt \<longleftrightarrow>
     (case aload (cp_options pkt) (unat (opt div 8)) of
        None \<Rightarrow> False
      | Some b \<Rightarrow> b AND push_bit (unat (opt mod 8)) 1 \<noteq> 0)"

section \<open>Helpers\<close>

function coap_log_2_loop :: "u16 \<Rightarrow> u16 \<Rightarrow> u16" where
  "coap_log_2_loop value result =
     (let value' = drop_bit 1 value; result' = result + 1 in
      if value' \<noteq> 0 then coap_log_2_loop value' result' else result')"
  by pat_completeness auto
termination
proof (relation "measure (\<lambda>(v, r). unat v)")
  fix v v' r r' :: u16
  assume "v' = drop_bit 1 v" and "v' \<noteq> 0"
  then show "((v', r'), (v, r)) \<in> measure (\<lambda>(v, r). unat v)"
    by (auto simp: drop_bit_eq_div unat_div word_unat_eq_iff)
qed simp

declare coap_log_2_loop.simps [simp del]

definition coap_log_2 :: "u16 \<Rightarrow> u16" where
  "coap_log_2 value =
     (let result = coap_log_2_loop value 0 in if result \<noteq> 0 then result - 1 else result)"

text \<open>\<open>while (i<length) { var <<= 8; var |= bytes[i++]; }\<close>\<close>

definition coap_parse_int_option :: "bytes \<Rightarrow> u32" where
  "coap_parse_int_option bs = foldl (\<lambda>var b. push_bit 8 var OR ucast b) 0 bs"

definition coap_option_nibble :: "u32 \<Rightarrow> u8" where
  "coap_option_nibble value =
     (if value < 13 then ucast value else if value \<le> 0xFF + 13 then 13 else 14)"

text \<open>One round of the loop of \<open>coap_set_option_header\<close>.\<close>

definition option_extension :: "u32 \<Rightarrow> bytes" where
  "option_extension x =
     (if x > 268 then [ucast (drop_bit 8 (x - 269)), ucast (x - 269)]
      else if x > 12 then [ucast (x - 13)]
      else [])"

definition coap_set_option_header :: "u32 \<Rightarrow> u32 \<Rightarrow> bytes" where
  "coap_set_option_header delta len =
     (push_bit 4 (coap_option_nibble delta) OR coap_option_nibble len) #
     option_extension delta @ option_extension len"

text \<open>The length is computed first and the same tests then select the bytes.\<close>

definition int_option_bytes :: "u32 \<Rightarrow> bytes" where
  "int_option_bytes value =
     (if value = 0 then [0]
      else (if 0xFF000000 AND value \<noteq> 0 then [ucast (drop_bit 24 value)] else []) @
           (if 0xFFFF0000 AND value \<noteq> 0 then [ucast (drop_bit 16 value)] else []) @
           (if 0xFFFFFF00 AND value \<noteq> 0 then [ucast (drop_bit 8 value)] else []) @
           (if 0xFFFFFFFF AND value \<noteq> 0 then [ucast value] else []))"

definition coap_serialize_int_option :: "u32 \<Rightarrow> u32 \<Rightarrow> u32 \<Rightarrow> bytes" where
  "coap_serialize_int_option number current_number value =
     coap_set_option_header (number - current_number) (of_nat (length (int_option_bytes value))) @
     int_option_bytes value"

text \<open>
  The splitting loop of \<open>coap_serialize_array_option\<close>: position \<open>j\<close>, start \<open>part\<close> of the
  current part. It looks at \<open>array[length]\<close>, so \<open>mem\<close> is the memory from \<open>array\<close> on. After a
  splitter the next position looked at is two further on.
\<close>

function array_option_split ::
  "u32 \<Rightarrow> u32 \<Rightarrow> bytes \<Rightarrow> nat \<Rightarrow> u8 \<Rightarrow> nat \<Rightarrow> nat \<Rightarrow> bytes option" where
  "array_option_split number current_number mem len split_char j part =
     (if len < j then Some []
      else (case aload mem j of
              None \<Rightarrow> None
            | Some c \<Rightarrow>
                if c = split_char \<or> j = len
                then (let piece = take (j - part) (drop part mem) in
                      case array_option_split number number mem len split_char (j + 2) (j + 1) of
                        None \<Rightarrow> None
                      | Some out \<Rightarrow>
                          Some (coap_set_option_header (number - current_number)
                                  (of_nat (length piece)) @ piece @ out))
                else array_option_split number current_number mem len split_char (j + 1) part))"
  by pat_completeness auto
termination
  by (relation "measure (\<lambda>(n, c, m, len, s, j, p). Suc len - j)") auto

declare array_option_split.simps [simp del]

text \<open>\<open>mem\<close> is the memory at \<open>array\<close>; the option is its first \<open>len\<close> bytes.\<close>

definition coap_serialize_array_option ::
  "u32 \<Rightarrow> u32 \<Rightarrow> bytes \<Rightarrow> nat \<Rightarrow> u8 \<Rightarrow> bytes option" where
  "coap_serialize_array_option number current_number mem len split_char =
     (if split_char \<noteq> 0
      then array_option_split number current_number mem len split_char 0 0
      else do {
        v \<leftarrow> aslice mem 0 len;
        Some (coap_set_option_header (number - current_number) (of_nat len) @ v) })"

fun coap_serialize_multi_option :: "u32 \<Rightarrow> u32 \<Rightarrow> multi_option list \<Rightarrow> bytes option" where
  "coap_serialize_multi_option number current_number [] = Some []"
| "coap_serialize_multi_option number current_number (j # js) = do {
     v \<leftarrow> aslice (mo_data j) 0 (unat (mo_len j));
     out \<leftarrow> coap_serialize_multi_option number number js;
     Some (coap_set_option_header (number - current_number) (ucast (mo_len j)) @ v @ out) }"

text \<open>The second option already lies behind the first in the datagram and is moved up.\<close>

definition coap_merge_multi_option :: "bytes \<Rightarrow> bytes \<Rightarrow> u8 \<Rightarrow> bytes" where
  "coap_merge_multi_option dst option separator =
     (if length dst > 0 then dst @ [separator] @ option else option)"

text \<open>
  \<open>mal\<close> is \<open>cis_malloc\<close>; a node has 12 bytes. A failed allocation leaves the list alone. The
  length is truncated to a byte.
\<close>

definition coap_add_multi_option ::
  "(u32 \<Rightarrow> bytes option) \<Rightarrow> multi_option list \<Rightarrow> bytes \<Rightarrow> bool \<Rightarrow> multi_option list" where
  "coap_add_multi_option mal dst option is_static =
     (case mal 12 of
        None \<Rightarrow> dst
      | Some _ \<Rightarrow>
          if is_static
          then dst @ [\<lparr>mo_is_static = True, mo_len = of_nat (length option), mo_data = option\<rparr>]
          else (case mal (of_nat (length option)) of
                  None \<Rightarrow> dst
                | Some _ \<Rightarrow> dst @ [\<lparr>mo_is_static = False, mo_len = of_nat (length option),
                                     mo_data = option\<rparr>]))"

definition coap_get_multi_option_as_string ::
  "(u32 \<Rightarrow> bytes option) \<Rightarrow> multi_option list \<Rightarrow> bytes option" where
  "coap_get_multi_option_as_string mal opts =
     (let len = foldl (\<lambda>n p. n + ucast (mo_len p) + 1) 0 opts in
      case mal (len + 1) of
        None \<Rightarrow> None
      | Some _ \<Rightarrow> Some (concat (map (\<lambda>p. 0x2F # take (unat (mo_len p)) (mo_data p)) opts) @ [0]))"

text \<open>The message id and the new value of the global \<open>current_mid\<close>.\<close>

definition coap_get_mid :: "u16 \<Rightarrow> u16 \<times> u16" where
  "coap_get_mid current_mid = (current_mid + 1, current_mid + 1)"

definition coap_init_message :: "coap_message_type \<Rightarrow> u8 \<Rightarrow> u16 \<Rightarrow> coap_packet" where
  "coap_init_message type code mid = coap_zero\<lparr>cp_type := type, cp_code := code, cp_mid := mid\<rparr>"

definition coap_free_header :: "coap_packet \<Rightarrow> coap_packet" where
  "coap_free_header pkt = pkt\<lparr>cp_uri_path := [], cp_uri_query := [], cp_location_path := []\<rparr>"

end
