(* ===== verification/Cis_Uri.thy ===== *)
theory Cis_Uri
  imports Cis_Utils Coap_Message
begin

text \<open>
  \<open>cis_uri.c\<close>: the LwM2M URI \<open>/object/instance/resource\<close>, read from the path options of a CoAP
  message or from a text, and written as a text. A text to read is the memory from the pointer
  on with a length of its own, since the code looks at the byte behind the text too.
\<close>

section \<open>Numbers\<close>

text \<open>\<open>result\<close> is an \<open>int\<close> that holds ten times the number; it must not overflow.\<close>

function parse_number_loop :: "bytes \<Rightarrow> nat \<Rightarrow> nat \<Rightarrow> int \<Rightarrow> (int \<times> nat) option" where
  "parse_number_loop mem len head result =
     (if head < len
      then (case aload mem head of
              None \<Rightarrow> None
            | Some c \<Rightarrow>
                if c = 0x2F then Some (result div 10, head)
                else if 0x30 \<le> c \<and> c \<le> 0x39
                then (if (result + (uint c - 0x30)) * 10 < 2 ^ 31
                      then parse_number_loop mem len (head + 1) ((result + (uint c - 0x30)) * 10)
                      else None)
                else Some (-1, head))
      else Some (result div 10, head))"
  by pat_completeness auto
termination
  by (relation "measure (\<lambda>(mem, len, head, result). len - head)") auto

declare parse_number_loop.simps [simp del]

text \<open>The number or -1, and the new head.\<close>

definition prv_parseNumber :: "bytes \<Rightarrow> nat \<Rightarrow> nat \<Rightarrow> (int \<times> nat) option" where
  "prv_parseNumber mem len head =
     (case aload mem head of
        None \<Rightarrow> None
      | Some c \<Rightarrow> if c = 0x2F then Some (-1, head) else parse_number_loop mem len head 0)"

definition uri_getNumber :: "bytes \<Rightarrow> nat \<Rightarrow> int option" where
  "uri_getNumber mem len = map_option fst (prv_parseNumber mem len 0)"

definition bad_id :: "int \<Rightarrow> bool" where
  "bad_id n \<longleftrightarrow> n < 0 \<or> uint URI_MAX_ID < n"

definition set_object :: "int \<Rightarrow> st_uri \<Rightarrow> st_uri" where
  "set_object n u = u\<lparr>uri_objectId := of_int n, uri_flag := uri_flag u OR URI_FLAG_OBJECT_ID\<rparr>"

definition set_instance :: "int \<Rightarrow> st_uri \<Rightarrow> st_uri" where
  "set_instance n u = u\<lparr>uri_instanceId := of_int n, uri_flag := uri_flag u OR URI_FLAG_INSTANCE_ID\<rparr>"

definition set_resource :: "int \<Rightarrow> st_uri \<Rightarrow> st_uri" where
  "set_resource n u = u\<lparr>uri_resourceId := of_int n, uri_flag := uri_flag u OR URI_FLAG_RESOURCE_ID\<rparr>"

section \<open>From the path of a request\<close>

definition segment_number :: "multi_option \<Rightarrow> int option" where
  "segment_number s = uri_getNumber (mo_data s) (unat (mo_len s))"

text \<open>The path has this segment first.\<close>

definition starts_with :: "bytes \<Rightarrow> multi_option list \<Rightarrow> bool" where
  "starts_with name path \<longleftrightarrow>
     path \<noteq> [] \<and> unat (mo_len (hd path)) = length name \<and>
     utils_strncmp name (mo_data (hd path)) (unat (mo_len (hd path))) = 0"

text \<open>
  The comparison of a segment with \<open>altPath + 1\<close>: the loop runs over the segment, and \<open>altPath\<close> is
  a C string that must not be read behind its terminating zero.
\<close>

fun alt_path_differs :: "bytes \<Rightarrow> bytes \<Rightarrow> bool option" where
  "alt_path_differs [] alt = Some False"
| "alt_path_differs (c # cs) alt =
     (case alt of
        a # as \<Rightarrow> if c \<noteq> a then Some True else alt_path_differs cs as
      | [] \<Rightarrow> if c \<noteq> 0 then Some True else None)"

text \<open>From the instance segment on.\<close>

definition decode_resource :: "multi_option list \<Rightarrow> st_uri \<Rightarrow> st_uri status option" where
  "decode_resource path uri =
     (case path of
        [] \<Rightarrow> Some (Done uri)
      | r # rest \<Rightarrow>
          if mo_len r \<noteq> 0
          then (if uri_flag uri AND URI_FLAG_INSTANCE_ID = 0 then Some Fail
                else do {
                  n \<leftarrow> segment_number r;
                  if bad_id n then Some Fail
                  else Some (if rest = [] then Done (set_resource n uri) else Fail) })
          else Some (if rest = [] then Done uri else Fail))"

definition decode_instance :: "multi_option list \<Rightarrow> st_uri \<Rightarrow> st_uri status option" where
  "decode_instance path uri =
     (case path of
        [] \<Rightarrow> Some (Done uri)
      | i # rest \<Rightarrow>
          if mo_len i \<noteq> 0
          then do {
            n \<leftarrow> segment_number i;
            if bad_id n then Some Fail else decode_resource rest (set_instance n uri) }
          else decode_resource rest uri)"

definition decode_object :: "multi_option list \<Rightarrow> st_uri \<Rightarrow> st_uri status option" where
  "decode_object path uri =
     (case path of
        [] \<Rightarrow> None
      | s # rest \<Rightarrow> do {
          n \<leftarrow> segment_number s;
          if bad_id n then Some Fail
          else if uri_flag uri AND URI_MASK_TYPE = URI_FLAG_REGISTRATION
          then Some (if rest \<noteq> [] then Fail else Done (set_object n uri))
          else decode_instance rest (set_object n uri) })"

text \<open>\<open>altPath\<close> and \<open>uriPath\<close> may be null: \<open>None\<close> and the empty list.\<close>

definition uri_decode ::
  "(u32 \<Rightarrow> bytes option) \<Rightarrow> bytes option \<Rightarrow> multi_option list \<Rightarrow> st_uri status option" where
  "uri_decode mal altPath uriPath =
     (if mal 8 = None then Some Fail
      else if starts_with [0x72, 0x64] uriPath
      then (let uri = uri_zero\<lparr>uri_flag := URI_FLAG_REGISTRATION\<rparr> in
            if tl uriPath = [] then Some (Done uri) else decode_object (tl uriPath) uri)
      else if starts_with [0x62, 0x73] uriPath
      then Some (if tl uriPath \<noteq> [] then Fail else Done (uri_zero\<lparr>uri_flag := URI_FLAG_BOOTSTRAP\<rparr>))
      else do {
        path \<leftarrow> (case altPath of
                   None \<Rightarrow> Some (Done uriPath)
                 | Some alt \<Rightarrow>
                     (case uriPath of
                        [] \<Rightarrow> Some Fail
                      | s # rest \<Rightarrow> do {
                          seg \<leftarrow> aslice (mo_data s) 0 (unat (mo_len s));
                          differs \<leftarrow> alt_path_differs seg (tl alt);
                          Some (if differs then Fail else Done rest) }));
        case path of
          Inl _ \<Rightarrow> Some Fail
        | Inr path \<Rightarrow>
            if path = [] \<or> mo_len (hd path) = 0
            then Some (Done (uri_zero\<lparr>uri_flag := URI_FLAG_DELETE_ALL\<rparr>))
            else decode_object path uri_zero })"

section \<open>From a text\<close>

definition is_space :: "u8 \<Rightarrow> bool" where
  "is_space c \<longleftrightarrow> c = 0x20 \<or> 9 \<le> c \<and> c \<le> 13"

text \<open>The \<open>'/'\<close> after a number is skipped when it is there; the byte behind the text is looked at too.\<close>

definition skip_slash :: "bytes \<Rightarrow> nat \<Rightarrow> nat option" where
  "skip_slash mem head =
     (case aload mem head of None \<Rightarrow> None | Some c \<Rightarrow> Some (if c = 0x2F then head + 1 else head))"

text \<open>The number of characters parsed, 0 for an error, and the URI as far as it was filled in.\<close>

definition uri_stringToUri :: "bytes \<Rightarrow> nat \<Rightarrow> (nat \<times> st_uri) option" where
  "uri_stringToUri mem len =
     (if len = 0 then Some (0, uri_zero)
      else do {
        chars \<leftarrow> aslice mem 0 len;
        let head = length (takeWhile is_space chars);
        if head = len then Some (0, uri_zero)
        else if chars ! head \<noteq> 0x2F then Some (0, uri_zero)
        else if head + 1 = len then Some (0, uri_zero)
        else do {
          (n, head) \<leftarrow> prv_parseNumber mem len (head + 1);
          if bad_id n then Some (0, uri_zero)
          else do {
            let uri = set_object n uri_zero;
            head \<leftarrow> skip_slash mem head;
            if len \<le> head then Some (head, uri)
            else do {
              (n, head) \<leftarrow> prv_parseNumber mem len head;
              if bad_id n then Some (0, uri)
              else do {
                let uri = set_instance n uri;
                head \<leftarrow> skip_slash mem head;
                if len \<le> head then Some (head, uri)
                else do {
                  (n, head) \<leftarrow> prv_parseNumber mem len head;
                  if bad_id n then Some (0, uri)
                  else (let uri = set_resource n uri in
                        Some (if head \<noteq> len then 0 else head, uri)) } } } } } })"

section \<open>To a text\<close>

text \<open>One number written at \<open>head\<close>: the new head, or \<open>Fail\<close> when the function returns -1.\<close>

definition put_number :: "u16 \<Rightarrow> bytes \<Rightarrow> nat \<Rightarrow> (nat status \<times> bytes) option" where
  "put_number n buffer head = do {
     (res, rest) \<leftarrow> utils_intToText (uint n) (drop head buffer);
     let buffer = take head buffer @ rest;
     if res = 0 then Some (Fail, buffer)
     else if length buffer - 1 \<le> head + res then Some (Fail, buffer)
     else Some (Done (head + res), buffer) }"

definition put_slash :: "bytes \<Rightarrow> nat \<Rightarrow> bytes option" where
  "put_slash buffer head = astore buffer head 0x2F"

text \<open>
  The return value, the buffer and \<open>*depthP\<close>, \<open>None\<close> while it has not been written. A failure in the
  middle leaves the depth reached so far.
\<close>

definition uri_toString :: "st_uri option \<Rightarrow> bytes \<Rightarrow> (int \<times> bytes \<times> uri_depth option) option" where
  "uri_toString uriP buffer = do {
     buffer \<leftarrow> put_slash buffer 0;
     case uriP of
       None \<Rightarrow> Some (1, buffer, Some URI_DEPTH_OBJECT)
     | Some uri \<Rightarrow> do {
         (r, buffer) \<leftarrow> put_number (uri_objectId uri) buffer 1;
         case r of
           Inl _ \<Rightarrow> Some (-1, buffer, None)
         | Inr head \<Rightarrow>
             if \<not> CIS_URI_IS_SET_INSTANCE uri
             then do {
               buffer \<leftarrow> put_slash buffer head;
               Some (int head + 1, buffer, Some URI_DEPTH_OBJECT_INSTANCE) }
             else do {
               buffer \<leftarrow> put_slash buffer head;
               (r, buffer) \<leftarrow> put_number (uri_instanceId uri) buffer (head + 1);
               case r of
                 Inl _ \<Rightarrow> Some (-1, buffer, Some URI_DEPTH_OBJECT_INSTANCE)
               | Inr head \<Rightarrow>
                   if \<not> CIS_URI_IS_SET_RESOURCE uri
                   then do {
                     buffer \<leftarrow> put_slash buffer head;
                     Some (int head + 1, buffer, Some URI_DEPTH_RESOURCE) }
                   else do {
                     buffer \<leftarrow> put_slash buffer head;
                     (r, buffer) \<leftarrow> put_number (uri_resourceId uri) buffer (head + 1);
                     case r of
                       Inl _ \<Rightarrow> Some (-1, buffer, Some URI_DEPTH_RESOURCE)
                     | Inr head \<Rightarrow> do {
                         buffer \<leftarrow> put_slash buffer head;
                         Some (int head + 1, buffer, Some URI_DEPTH_RESOURCE_INSTANCE) } } } } }"

section \<open>Building and comparing\<close>

definition uri_make :: "u16 \<Rightarrow> u16 \<Rightarrow> u16 \<Rightarrow> int \<times> st_uri" where
  "uri_make objectId instanceId resourceId =
     (if URI_MAX_ID < objectId then (-1, uri_zero)
      else (let uri = set_object (uint objectId) uri_zero in
            if URI_MAX_ID < instanceId then (-1, uri)
            else if instanceId = URI_INVALID then (0, uri)
            else (let uri = set_instance (uint instanceId) uri in
                  if URI_MAX_ID < resourceId then (-1, uri)
                  else if resourceId = URI_INVALID then (0, uri)
                  else (0, set_resource (uint resourceId) uri))))"

definition uri_exist :: "st_uri option \<Rightarrow> st_uri option \<Rightarrow> bool" where
  "uri_exist uri1 uri2 =
     (case (uri1, uri2) of
        (Some u, Some v) \<Rightarrow>
          if uri_objectId u \<noteq> uri_objectId v then False
          else if CIS_URI_IS_SET_INSTANCE u \<and>
                  (\<not> CIS_URI_IS_SET_INSTANCE v \<or> uri_instanceId u \<noteq> uri_instanceId v) then False
          else if CIS_URI_IS_SET_RESOURCE u \<and>
                  (\<not> CIS_URI_IS_SET_RESOURCE v \<or> uri_resourceId u \<noteq> uri_resourceId v) then False
          else True
      | _ \<Rightarrow> False)"

end
