(* ===== verification/Cis_Format.thy ===== *)
theory Cis_Format
  imports Cis_Tlv Cis_Uri
begin

text \<open>
  The media types of \<open>cis_data.c\<close>: \<open>data_parse\<close> and \<open>data_serialize\<close>. \<open>CIS_ENABLE_JSON\<close> is not
  defined. The text of a \<open>double\<close>, a computation in floating point, is the argument \<open>float_text\<close>.
\<close>

definition prv_textSerialize ::
  "allocator \<Rightarrow> (u64 \<Rightarrow> bytes status) \<Rightarrow> st_data \<Rightarrow> bytes status option" where
  "prv_textSerialize mal float_text d =
     (case sd_type d of
        DATA_TYPE_STRING \<Rightarrow>
          (case mal (of_nat (length (sd_buffer d))) of
             None \<Rightarrow> Some Fail
           | Some _ \<Rightarrow> Some (Done (sd_buffer d)))
      | DATA_TYPE_INTEGER \<Rightarrow> as_integer d \<bind> utils_int64ToPlainText mal
      | DATA_TYPE_FLOAT \<Rightarrow> map_option float_text (as_float d)
      | DATA_TYPE_BOOL \<Rightarrow> as_boolean d \<bind> utils_boolToPlainText mal
      | _ \<Rightarrow> Some Fail)"

text \<open>The values parsed; none for the return value 0.\<close>

definition data_parse ::
  "allocator \<Rightarrow> st_uri \<Rightarrow> bytes \<Rightarrow> et_media_type \<Rightarrow> st_data list option" where
  "data_parse mal uri buffer format =
     (let single = (\<lambda>type.
        if \<not> CIS_URI_IS_SET_RESOURCE uri then Some []
        else (case data_new mal 1 of
                None \<Rightarrow> Some []
              | Some ds \<Rightarrow>
                  (let (res, d) = prv_setBuffer mal
                         (set_type type (set_id (uri_resourceId uri) (hd ds))) buffer
                   in Some (if res = 0 then [] else [d]))))
      in case format of
           LWM2M_CONTENT_TEXT \<Rightarrow> single DATA_TYPE_STRING
         | LWM2M_CONTENT_OPAQUE \<Rightarrow> single DATA_TYPE_OPAQUE
         | LWM2M_CONTENT_TLV_NEW \<Rightarrow> tlv_parse mal buffer
         | LWM2M_CONTENT_TLV \<Rightarrow> tlv_parse mal buffer
         | _ \<Rightarrow> Some [])"

definition nested_type :: "et_data_type \<Rightarrow> bool" where
  "nested_type t \<longleftrightarrow>
     t = DATA_TYPE_OBJECT \<or> t = DATA_TYPE_OBJECT_INSTANCE \<or> t = DATA_TYPE_MULTIPLE_RESOURCE"

text \<open>The format the values are sent in.\<close>

definition final_format :: "st_uri \<Rightarrow> st_data list \<Rightarrow> et_media_type \<Rightarrow> et_media_type" where
  "final_format uri ds format =
     (let format =
        (if (format = LWM2M_CONTENT_TEXT \<or> format = LWM2M_CONTENT_OPAQUE) \<and>
            (length ds \<noteq> 1 \<or> \<not> CIS_URI_IS_SET_RESOURCE uri \<or> nested_type (sd_type (hd ds)))
         then LWM2M_CONTENT_TLV else format)
      in if format = LWM2M_CONTENT_TEXT \<and> sd_type (hd ds) = DATA_TYPE_OPAQUE
         then LWM2M_CONTENT_OPAQUE else format)"

text \<open>
  The length or -1, the final format and the buffer. The length of the URI is kept in a \<open>size_t\<close>,
  in which the -1 of \<open>uri_toString\<close> is not negative: only the length 0 is taken for an error.
\<close>

definition data_serialize ::
  "allocator \<Rightarrow> (u64 \<Rightarrow> bytes status) \<Rightarrow> st_uri \<Rightarrow> st_data list \<Rightarrow> et_media_type \<Rightarrow>
   (int \<times> et_media_type \<times> bytes) option" where
  "data_serialize mal float_text uri ds format =
     (let format = final_format uri ds format in
      case format of
        LWM2M_CONTENT_TEXT \<Rightarrow> do {
          r \<leftarrow> prv_textSerialize mal float_text (hd ds);
          case r of
            Inl _ \<Rightarrow> Some (0, format, [])
          | Inr bs \<Rightarrow> Some (int (length bs), format, bs) }
      | LWM2M_CONTENT_OPAQUE \<Rightarrow>
          (let content = sd_buffer (hd ds) in
           case mal (of_nat (length content)) of
             None \<Rightarrow> Some (0, format, [])
           | Some _ \<Rightarrow> Some (if content = [] then -1 else int (length content), format, content))
      | LWM2M_CONTENT_LINK \<Rightarrow> Some (0, format, [])
      | LWM2M_CONTENT_JSON \<Rightarrow> Some (0, format, [])
      | _ \<Rightarrow> do {
          (baseUriLen, _, rootLevel) \<leftarrow> uri_toString (Some uri) (replicate 18 0);
          if baseUriLen = 0 then Some (-1, format, [])
          else do {
            level \<leftarrow> rootLevel;
            (len, bs) \<leftarrow> tlv_serialize mal (level = URI_DEPTH_RESOURCE_INSTANCE) ds;
            Some (int len, format, bs) } })"

end
