(* ===== verification/Coap_Codec.thy ===== *)
theory Coap_Codec
  imports Coap_Message
begin

text \<open>
  \<open>er-coap-13.c\<close>: \<open>coap_serialize_get_size\<close>, \<open>coap_serialize_message\<close> and
  \<open>coap_parse_message\<close>.
\<close>

section \<open>Serializing\<close>

definition multi_size :: "multi_option list \<Rightarrow> u32" where
  "multi_size opts = foldl (\<lambda>n p. n + 5 + ucast (mo_len p)) 0 opts"

text \<open>The contribution of one \<open>if (IS_OPTION(...)) length += ...\<close>.\<close>

definition opt_size :: "coap_packet \<Rightarrow> u32 \<Rightarrow> u32 \<Rightarrow> u32" where
  "opt_size pkt number n = (if IS_OPTION pkt number then n else 0)"

definition coap_serialize_get_size :: "coap_packet \<Rightarrow> u32" where
  "coap_serialize_get_size pkt =
     4 + ucast (cp_payload_len pkt) + ucast (cp_token_len pkt)
     + opt_size pkt COAP_OPTION_IF_MATCH (5 + ucast (cp_if_match_len pkt))
     + opt_size pkt COAP_OPTION_URI_HOST (5 + of_nat (length (cp_uri_host pkt)))
     + opt_size pkt COAP_OPTION_ETAG (5 + ucast (cp_etag_len pkt))
     + opt_size pkt COAP_OPTION_IF_NONE_MATCH 5
     + opt_size pkt COAP_OPTION_OBSERVE 5
     + opt_size pkt COAP_OPTION_URI_PORT 5
     + opt_size pkt COAP_OPTION_LOCATION_PATH (multi_size (cp_location_path pkt))
     + opt_size pkt COAP_OPTION_URI_PATH (multi_size (cp_uri_path pkt))
     + opt_size pkt COAP_OPTION_CONTENT_TYPE 5
     + opt_size pkt COAP_OPTION_MAX_AGE 5
     + opt_size pkt COAP_OPTION_URI_QUERY (multi_size (cp_uri_query pkt))
     + opt_size pkt COAP_OPTION_ACCEPT (ucast (cp_accept_num pkt) * 5)
     + opt_size pkt COAP_OPTION_LOCATION_QUERY (5 + of_nat (length (cp_location_query pkt)))
     + opt_size pkt COAP_OPTION_BLOCK2 5
     + opt_size pkt COAP_OPTION_BLOCK1 5
     + opt_size pkt COAP_OPTION_SIZE 5
     + opt_size pkt COAP_OPTION_PROXY_URI (5 + of_nat (length (cp_proxy_uri pkt)))
     + opt_size pkt COAP_OPTION_AUTH_CODE (5 + of_nat (length (cp_auth_code pkt)))"

text \<open>
  The option part under construction: \<open>current_number\<close> and the bytes written. \<open>ser_option\<close> is
  the common frame of the \<open>COAP_SERIALIZE_..._OPTION\<close> macros.
\<close>

type_synonym ser_state = "u32 \<times> bytes"

definition ser_option ::
  "coap_packet \<Rightarrow> u32 \<Rightarrow> (u32 \<Rightarrow> bytes option) \<Rightarrow> ser_state \<Rightarrow> ser_state option" where
  "ser_option pkt number write st =
     (case st of (current_number, out) \<Rightarrow>
        if IS_OPTION pkt number
        then do {
          w \<leftarrow> write current_number;
          Some (number, out @ w) }
        else Some (current_number, out))"

definition ser_int :: "coap_packet \<Rightarrow> u32 \<Rightarrow> u32 \<Rightarrow> ser_state \<Rightarrow> ser_state option" where
  "ser_int pkt number v =
     ser_option pkt number (\<lambda>cur. Some (coap_serialize_int_option number cur v))"

definition ser_array :: "coap_packet \<Rightarrow> u32 \<Rightarrow> bytes \<Rightarrow> nat \<Rightarrow> ser_state \<Rightarrow> ser_state option" where
  "ser_array pkt number mem len =
     ser_option pkt number (\<lambda>cur. coap_serialize_array_option number cur mem len 0)"

text \<open>\<open>location_query\<close> is a C string or a part of a datagram; a zero byte stands for the memory behind it.\<close>

definition ser_split :: "coap_packet \<Rightarrow> u32 \<Rightarrow> bytes \<Rightarrow> u8 \<Rightarrow> ser_state \<Rightarrow> ser_state option" where
  "ser_split pkt number v split_char =
     ser_option pkt number
       (\<lambda>cur. coap_serialize_array_option number cur (v @ [0]) (length v) split_char)"

definition ser_multi :: "coap_packet \<Rightarrow> u32 \<Rightarrow> multi_option list \<Rightarrow> ser_state \<Rightarrow> ser_state option" where
  "ser_multi pkt number opts =
     ser_option pkt number (\<lambda>cur. coap_serialize_multi_option number cur opts)"

text \<open>The loop of \<open>COAP_SERIALIZE_ACCEPT_OPTION\<close> over the first \<open>accept_num\<close> entries.\<close>

fun ser_accept_loop :: "u32 \<Rightarrow> u16 list \<Rightarrow> ser_state \<Rightarrow> ser_state" where
  "ser_accept_loop number [] st = st"
| "ser_accept_loop number (a # as) (current_number, out) =
     ser_accept_loop number as
       (number, out @ coap_serialize_int_option number current_number (ucast a))"

definition ser_accept :: "coap_packet \<Rightarrow> ser_state \<Rightarrow> ser_state option" where
  "ser_accept pkt st =
     (if IS_OPTION pkt COAP_OPTION_ACCEPT
      then do {
        as \<leftarrow> aslice (cp_accept pkt) 0 (unat (cp_accept_num pkt));
        Some (ser_accept_loop COAP_OPTION_ACCEPT as st) }
      else Some st)"

definition block_value :: "u32 \<Rightarrow> u8 \<Rightarrow> u16 \<Rightarrow> u32" where
  "block_value num more_flag sz =
     (let block = push_bit 4 num;
          block = (if more_flag \<noteq> 0 then block OR 0x8 else block)
      in block OR (0xF AND ucast (coap_log_2 (sz div 16))))"

definition coap_serialize_options :: "coap_packet \<Rightarrow> ser_state option" where
  "coap_serialize_options pkt = do {
     st \<leftarrow> ser_array pkt COAP_OPTION_IF_MATCH (cp_if_match pkt) (unat (cp_if_match_len pkt)) (0, []);
     st \<leftarrow> ser_array pkt COAP_OPTION_URI_HOST (cp_uri_host pkt) (length (cp_uri_host pkt)) st;
     st \<leftarrow> ser_array pkt COAP_OPTION_ETAG (cp_etag pkt) (unat (cp_etag_len pkt)) st;
     st \<leftarrow> ser_int pkt COAP_OPTION_IF_NONE_MATCH (cp_content_type pkt - cp_content_type pkt) st;
     st \<leftarrow> ser_int pkt COAP_OPTION_OBSERVE (cp_observe pkt) st;
     st \<leftarrow> ser_int pkt COAP_OPTION_URI_PORT (ucast (cp_uri_port pkt)) st;
     st \<leftarrow> ser_multi pkt COAP_OPTION_LOCATION_PATH (cp_location_path pkt) st;
     st \<leftarrow> ser_multi pkt COAP_OPTION_URI_PATH (cp_uri_path pkt) st;
     st \<leftarrow> ser_int pkt COAP_OPTION_CONTENT_TYPE (cp_content_type pkt) st;
     st \<leftarrow> ser_int pkt COAP_OPTION_MAX_AGE (cp_max_age pkt) st;
     st \<leftarrow> ser_multi pkt COAP_OPTION_URI_QUERY (cp_uri_query pkt) st;
     st \<leftarrow> ser_accept pkt st;
     st \<leftarrow> ser_split pkt COAP_OPTION_LOCATION_QUERY (cp_location_query pkt) 0x26 st;
     st \<leftarrow> ser_int pkt COAP_OPTION_BLOCK2
             (block_value (cp_block2_num pkt) (cp_block2_more pkt) (cp_block2_size pkt)) st;
     st \<leftarrow> ser_int pkt COAP_OPTION_BLOCK1
             (block_value (cp_block1_num pkt) (cp_block1_more pkt) (cp_block1_size pkt)) st;
     st \<leftarrow> ser_int pkt COAP_OPTION_SIZE (cp_size pkt) st;
     st \<leftarrow> ser_array pkt COAP_OPTION_PROXY_URI (cp_proxy_uri pkt) (length (cp_proxy_uri pkt)) st;
     ser_array pkt COAP_OPTION_AUTH_CODE (cp_auth_code pkt) (length (cp_auth_code pkt)) st }"

definition coap_header :: "coap_packet \<Rightarrow> bytes" where
  "coap_header pkt =
     [(0xC0 AND push_bit 6 (cp_version pkt)) OR (0x30 AND push_bit 4 (type_code (cp_type pkt)))
        OR (0x0F AND cp_token_len pkt),
      cp_code pkt, ucast (drop_bit 8 (cp_mid pkt)), ucast (cp_mid pkt)]"

text \<open>\<open>memmove(option, coap_pkt->payload, coap_pkt->payload_len)\<close> reads nothing for length 0.\<close>

definition payload_bytes :: "coap_packet \<Rightarrow> bytes option" where
  "payload_bytes pkt =
     (if cp_payload_len pkt = 0 then Some []
      else (case cp_payload pkt of
              None \<Rightarrow> None
            | Some p \<Rightarrow> aslice p 0 (unat (cp_payload_len pkt))))"

definition coap_serialize_message ::
  "coap_packet \<Rightarrow> bytes \<Rightarrow> (u32 \<times> coap_packet \<times> bytes) option" where
  "coap_serialize_message pkt buffer = do {
     let pkt = pkt\<lparr>cp_version := 1\<rparr>;
     token \<leftarrow> aslice (cp_token pkt) 0 (unat (cp_token_len pkt));
     (_, opts) \<leftarrow> coap_serialize_options pkt;
     payload \<leftarrow> payload_bytes pkt;
     let out = coap_header pkt @ token @ opts
               @ (if cp_payload_len pkt \<noteq> 0 then [0xFF] else []) @ payload;
     buffer \<leftarrow> ablit buffer 0 out;
     Some (of_nat (length out), coap_free_header pkt, buffer) }"

section \<open>Parsing\<close>

text \<open>One round of the loop that extends \<open>option_delta\<close> and then \<open>option_length\<close>.\<close>

definition parse_extension :: "u32 \<Rightarrow> bytes \<Rightarrow> (u32 \<times> bytes) option" where
  "parse_extension x rest =
     (if x = 13 then (case rest of b # r \<Rightarrow> Some (x + ucast b, r) | _ \<Rightarrow> None)
      else if x = 14
      then (case rest of
              b # c # r \<Rightarrow> Some (x + 255 + push_bit 8 (ucast b) + ucast c, r)
            | _ \<Rightarrow> None)
      else Some (x, rest))"

definition min_len :: "nat \<Rightarrow> u8" where
  "min_len n = of_nat (if 8 < n then 8 else n)"

text \<open>The block option: number, more flag, size and offset.\<close>

definition parse_block :: "bytes \<Rightarrow> u32 \<times> u8 \<times> u16 \<times> u32" where
  "parse_block v =
     (let num = coap_parse_int_option v in
      (drop_bit 4 num, ucast (drop_bit 3 (num AND 0x08)), push_bit (unat (num AND 0x07)) 16,
       push_bit (unat (num AND 0x07)) (num AND NOT 0xF)))"

text \<open>
  The \<open>switch\<close> on the option number for an option with value \<open>v\<close>: \<open>Inl\<close> is an early return with its code.
\<close>

definition coap_parse_option ::
  "(u32 \<Rightarrow> bytes option) \<Rightarrow> u32 \<Rightarrow> bytes \<Rightarrow> coap_packet \<Rightarrow> (u8 \<times> coap_packet) + coap_packet" where
  "coap_parse_option mal number v pkt =
     (if number = COAP_OPTION_CONTENT_TYPE then Inr (pkt\<lparr>cp_content_type := coap_parse_int_option v\<rparr>)
      else if number = COAP_OPTION_MAX_AGE then Inr (pkt\<lparr>cp_max_age := coap_parse_int_option v\<rparr>)
      else if number = COAP_OPTION_ETAG then
        (let n = min_len (length v) in
         Inr (pkt\<lparr>cp_etag_len := n, cp_etag := take (unat n) v @ drop (unat n) (cp_etag pkt)\<rparr>))
      else if number = COAP_OPTION_ACCEPT then
        (if cp_accept_num pkt < 2
         then Inr (pkt\<lparr>cp_accept := (cp_accept pkt)[unat (cp_accept_num pkt) := ucast (coap_parse_int_option v)],
                       cp_accept_num := cp_accept_num pkt + 1\<rparr>)
         else Inr pkt)
      else if number = COAP_OPTION_IF_MATCH then
        (let n = min_len (length v) in
         Inr (pkt\<lparr>cp_if_match_len := n, cp_if_match := take (unat n) v @ drop (unat n) (cp_if_match pkt)\<rparr>))
      else if number = COAP_OPTION_IF_NONE_MATCH then Inr (pkt\<lparr>cp_if_none_match := 1\<rparr>)
      else if number = COAP_OPTION_URI_HOST then Inr (pkt\<lparr>cp_uri_host := v\<rparr>)
      else if number = COAP_OPTION_URI_PORT then
        Inr (pkt\<lparr>cp_uri_port := ucast (coap_parse_int_option v)\<rparr>)
      else if number = COAP_OPTION_URI_PATH then
        Inr (pkt\<lparr>cp_uri_path := coap_add_multi_option mal (cp_uri_path pkt) v True\<rparr>)
      else if number = COAP_OPTION_URI_QUERY then
        Inr (pkt\<lparr>cp_uri_query := coap_add_multi_option mal (cp_uri_query pkt) v True\<rparr>)
      else if number = COAP_OPTION_LOCATION_PATH then
        Inr (pkt\<lparr>cp_location_path := coap_add_multi_option mal (cp_location_path pkt) v True\<rparr>)
      else if number = COAP_OPTION_LOCATION_QUERY then
        Inr (pkt\<lparr>cp_location_query := coap_merge_multi_option (cp_location_query pkt) v 0x26\<rparr>)
      else if number = COAP_OPTION_PROXY_URI then
        Inl (COAP_505_PROXYING_NOT_SUPPORTED, pkt\<lparr>cp_proxy_uri := v\<rparr>)
      else if number = COAP_OPTION_OBSERVE then Inr (pkt\<lparr>cp_observe := coap_parse_int_option v\<rparr>)
      else if number = COAP_OPTION_BLOCK2 then
        (let (num, more_flag, sz, offset) = parse_block v in
         Inr (pkt\<lparr>cp_block2_num := num, cp_block2_more := more_flag, cp_block2_size := sz,
                  cp_block2_offset := offset\<rparr>))
      else if number = COAP_OPTION_BLOCK1 then
        (let (num, more_flag, sz, offset) = parse_block v in
         Inr (pkt\<lparr>cp_block1_num := num, cp_block1_more := more_flag, cp_block1_size := sz,
                  cp_block1_offset := offset\<rparr>))
      else if number = COAP_OPTION_SIZE then Inr (pkt\<lparr>cp_size := coap_parse_int_option v\<rparr>)
      else if number = COAP_OPTION_AUTH_CODE then Inr (pkt\<lparr>cp_auth_code := v\<rparr>)
      else if number AND 1 \<noteq> 0 then Inl (COAP_402_BAD_OPTION, pkt)
      else Inr pkt)"

text \<open>The \<open>while\<close> loop; \<open>rest\<close> is the datagram from \<open>current_option\<close> on.\<close>

lemma parse_extension_length: "parse_extension x rest = Some (y, r) \<Longrightarrow> length r \<le> length rest"
  by (auto simp: parse_extension_def split: if_splits list.splits)

function coap_parse_loop ::
  "(u32 \<Rightarrow> bytes option) \<Rightarrow> u32 \<Rightarrow> bytes \<Rightarrow> coap_packet \<Rightarrow> (u8 \<times> coap_packet) option" where
  "coap_parse_loop mal option_number [] pkt = Some (COAP_NO_ERROR, pkt)"
| "coap_parse_loop mal option_number (b # rest) pkt =
     (if b AND 0xF0 = 0xF0
      then Some (COAP_NO_ERROR, pkt\<lparr>cp_payload := Some rest, cp_payload_len := of_nat (length rest)\<rparr>)
      else (case parse_extension (ucast (drop_bit 4 b)) rest of
              None \<Rightarrow> None
            | Some (option_delta, r1) \<Rightarrow>
                (case parse_extension (ucast (b AND 0x0F)) r1 of
                   None \<Rightarrow> None
                 | Some (option_length, r2) \<Rightarrow>
                     (let number = option_number + option_delta; n = unat option_length in
                      case SET_OPTION pkt number of
                        None \<Rightarrow> None
                      | Some pkt' \<Rightarrow>
                          (case coap_parse_option mal number (take n r2) pkt' of
                             Inl result \<Rightarrow> Some result
                           | Inr pkt'' \<Rightarrow>
                               if length r2 < n then None
                               else coap_parse_loop mal number (drop n r2) pkt'')))))"
  by pat_completeness auto
termination
  by (relation "measure (\<lambda>(m, n, r, p). length r)") (auto dest!: parse_extension_length)

declare coap_parse_loop.simps [simp del]

definition coap_parse_message ::
  "(u32 \<Rightarrow> bytes option) \<Rightarrow> bytes \<Rightarrow> (u8 \<times> coap_packet) option" where
  "coap_parse_message mal data =
     (case data of
        h # code # m1 # m2 # rest \<Rightarrow>
          (let tkl = h AND 0x0F;
               pkt = coap_zero\<lparr>
                 cp_version := drop_bit 6 (h AND 0xC0),
                 cp_type := code_type (drop_bit 4 (h AND 0x30)),
                 cp_token_len := (if 8 < tkl then 8 else tkl),
                 cp_code := code,
                 cp_mid := push_bit 8 (ucast m1) OR ucast m2\<rparr>
           in if cp_version pkt \<noteq> 1 then Some (COAP_400_BAD_REQUEST, pkt)
              else do {
                token \<leftarrow> aslice rest 0 (unat (cp_token_len pkt));
                pkt \<leftarrow> (if cp_token_len pkt \<noteq> 0
                        then SET_OPTION (pkt\<lparr>cp_token := token @ drop (unat (cp_token_len pkt)) (cp_token pkt)\<rparr>)
                               COAP_OPTION_TOKEN
                        else Some pkt);
                coap_parse_loop mal 0 (drop (unat (cp_token_len pkt)) rest) pkt })
      | _ \<Rightarrow> None)"

end
