(* ===== verification/Coap_Laws.thy ===== *)
theory Coap_Laws
  imports Coap_Codec
begin

text \<open>
  What a CoAP message carries. The abstract content of the option part is a list of numbered
  values; serializing writes their delta encoding, parsing applies them to the packet one by
  one, so that a serialized packet is received with every option it had.
\<close>

section \<open>Option headers\<close>

lemma nibble_small: "coap_option_nibble x < 15"
  by (auto simp: coap_option_nibble_def word_less_nat_alt unat_ucast_up unsigned_ucast_eq
      take_bit_nat_eq_self)

lemma nibble_take_bit: "take_bit 4 (coap_option_nibble x) = coap_option_nibble x"
proof -
  have "unat (coap_option_nibble x) < 15" using nibble_small [of x] by (simp add: word_less_nat_alt)
  then show ?thesis by (simp add: take_bit_eq_mod word_unat_eq_iff unat_mod)
qed

lemma header_byte:
  fixes d l :: u8
  assumes "take_bit 4 d = d" and "take_bit 4 l = l"
  shows "drop_bit 4 (push_bit 4 d OR l) = d" and "(push_bit 4 d OR l) AND 0x0F = l"
    and "(push_bit 4 d OR l) AND 0xF0 = push_bit 4 d"
proof -
  have l: "\<not> bit l n" if "4 \<le> n" for n
    using that by (subst assms(2) [symmetric]) (simp add: bit_take_bit_iff)
  have d: "n < 4" if "bit d n" for n
    using that by (subst (asm) assms(1) [symmetric]) (simp add: bit_take_bit_iff)
  show "drop_bit 4 (push_bit 4 d OR l) = d"
    by (rule bit_word_eqI) (auto simp: bit_simps l dest: d)
  show "(push_bit 4 d OR l) AND 0x0F = l"
    by (simp only: and_masks, rule bit_word_eqI) (auto simp: bit_simps l)
  have f0: "(0xF0 :: u8) = push_bit 4 (mask 4)" by (simp add: mask_eq_exp_minus_1)
  show "(push_bit 4 d OR l) AND 0xF0 = push_bit 4 d"
    unfolding f0 by (rule bit_word_eqI) (auto simp: bit_simps l dest: d)
qed

lemma parse_extension_enc:
  assumes "unat x \<le> 65804"
  shows "parse_extension (ucast (coap_option_nibble x)) (option_extension x @ r) = Some (x, r)"
proof -
  consider "unat x < 13" | "13 \<le> unat x" "unat x \<le> 268" | "268 < unat x" by linarith
  then show ?thesis
  proof cases
    case 1
    then have u: "unat (ucast x :: u8) = unat x" by (subst unat_ucast_up) auto
    then have "ucast (ucast x :: u8) = x" by (simp add: word_unat_eq_iff)
    with 1 show ?thesis
      by (auto simp: parse_extension_def coap_option_nibble_def option_extension_def
          word_less_nat_alt word_unat_eq_iff)
  next
    case 2
    then have "unat (x - 13) = unat x - 13" by (subst unat_sub_id) (auto simp: word_le_nat_alt)
    with 2 have "unat (ucast (x - 13) :: u8) = unat x - 13" by (subst unat_ucast_up) auto
    with 2 have "13 + ucast (ucast (x - 13) :: u8) = x"
      by (simp add: word_unat_eq_iff unat_word_ariths)
    with 2 show ?thesis
      by (simp add: parse_extension_def coap_option_nibble_def option_extension_def
          word_less_nat_alt word_le_nat_alt)
  next
    case 3
    then have d: "unat (x - 269) = unat x - 269" by (subst unat_sub_id) (auto simp: word_le_nat_alt)
    let ?y = "x - 269"
    have "unat ?y < 2 ^ 16" using d assms by simp
    then have "take_bit 16 ?y = ?y" by (simp add: take_bit_eq_mod word_unat_eq_iff unat_mod)
    then have high: "n < 16" if "bit ?y n" for n
      using that by (metis bit_take_bit_iff)
    have "push_bit 8 (ucast (ucast (drop_bit 8 ?y) :: u8)) + ucast (ucast ?y :: u8)
        = push_bit 8 (ucast (ucast (drop_bit 8 ?y) :: u8)) OR (ucast (ucast ?y :: u8) :: u32)"
      by (rule disjunctive_add) (auto simp: bit_simps)
    also have "\<dots> = ?y"
      by (rule bit_word_eqI) (auto simp: bit_simps not_less dest: high)
    finally have "14 + 255 + push_bit 8 (ucast (ucast (drop_bit 8 ?y) :: u8)) + ucast (ucast ?y :: u8) = x"
      by (simp add: add.assoc)
    with 3 show ?thesis
      by (simp add: parse_extension_def coap_option_nibble_def option_extension_def
          word_less_nat_alt word_le_nat_alt)
  qed
qed

section \<open>Integer options\<close>

lemma high_mask: "push_bit k (mask (32 - k)) AND (v :: u32) = 0 \<longleftrightarrow> drop_bit k v = 0"
proof
  assume l: "push_bit k (mask (32 - k)) AND v = 0"
  show "drop_bit k v = 0"
  proof (rule bit_word_eqI)
    fix n
    have "\<not> bit (push_bit k (mask (32 - k)) AND v) (k + n)" by (simp add: l)
    then show "bit (drop_bit k v) n = bit (0 :: u32) n"
      by (auto simp: bit_simps dest: bit_imp_le_length)
  qed
next
  assume d: "drop_bit k v = 0"
  have nb: "\<not> bit v m" if "k \<le> m" for m
  proof -
    have "bit v m = bit (drop_bit k v) (m - k)" using that by (simp add: bit_drop_bit_eq)
    then show ?thesis by (simp add: d)
  qed
  show "push_bit k (mask (32 - k)) AND v = 0"
    by (rule bit_word_eqI) (auto simp: bit_and_iff bit_push_bit_iff nb)
qed

lemma int_masks:
  "0xFF000000 AND (v :: u32) = 0 \<longleftrightarrow> drop_bit 24 v = 0"
  "0xFFFF0000 AND v = 0 \<longleftrightarrow> drop_bit 16 v = 0"
  "0xFFFFFF00 AND v = 0 \<longleftrightarrow> drop_bit 8 v = 0"
  "0xFFFFFFFF AND v = 0 \<longleftrightarrow> v = 0"
  using high_mask [of 24 v] high_mask [of 16 v] high_mask [of 8 v] high_mask [of 0 v]
  by (simp_all add: mask_eq_exp_minus_1)

lemma drop_bit_chain: "drop_bit m (v :: u32) = 0 \<Longrightarrow> m \<le> n \<Longrightarrow> drop_bit n v = 0"
  by (metis drop_bit_drop_bit drop_bit_of_0 le_add_diff_inverse2)

text \<open>The bytes are the big-endian layout without leading zero bytes.\<close>

lemma int_option_be32: "\<exists>k. be32 v = replicate k 0 @ int_option_bytes v"
proof (cases "v = 0")
  case True
  then show ?thesis by (intro exI [of _ 3]) (simp add: be32_def int_option_bytes_def numeral_eq_Suc)
next
  case False
  consider "drop_bit 24 v \<noteq> 0" | "drop_bit 24 v = 0" "drop_bit 16 v \<noteq> 0"
    | "drop_bit 16 v = 0" "drop_bit 8 v \<noteq> 0" | "drop_bit 8 v = 0" by blast
  then show ?thesis
  proof cases
    case 1
    then have "drop_bit 16 v \<noteq> 0" "drop_bit 8 v \<noteq> 0" using drop_bit_chain by fastforce+
    with 1 False show ?thesis
      by (intro exI [of _ 0]) (simp add: be32_def int_option_bytes_def int_masks)
  next
    case 2
    then have "drop_bit 8 v \<noteq> 0" using drop_bit_chain by fastforce
    with 2 False show ?thesis
      by (intro exI [of _ 1]) (simp add: be32_def int_option_bytes_def int_masks)
  next
    case 3
    then have "drop_bit 24 v = 0" using drop_bit_chain by fastforce
    with 3 False show ?thesis
      by (intro exI [of _ 2]) (simp add: be32_def int_option_bytes_def int_masks numeral_eq_Suc)
  next
    case 4
    then have "drop_bit 24 v = 0" "drop_bit 16 v = 0" using drop_bit_chain by fastforce+
    with 4 False show ?thesis
      by (intro exI [of _ 3]) (simp add: be32_def int_option_bytes_def int_masks numeral_eq_Suc)
  qed
qed

lemma parse_int_replicate: "coap_parse_int_option (replicate k 0 @ bs) = coap_parse_int_option bs"
  by (induction k) (simp_all add: coap_parse_int_option_def)

lemma parse_int_option [simp]: "coap_parse_int_option (int_option_bytes v) = v"
proof -
  obtain k where "be32 v = replicate k 0 @ int_option_bytes v" using int_option_be32 by blast
  then have "coap_parse_int_option (int_option_bytes v) = coap_parse_int_option (be32 v)"
    by (metis parse_int_replicate)
  also have "\<dots> = v"
    unfolding coap_parse_int_option_def be32_def foldl.simps
    by (simp only: push_bit_of_0 or.left_neutral be32_join)
  finally show ?thesis .
qed

lemma length_int_option: "length (int_option_bytes v) \<le> 4"
  by (simp add: int_option_bytes_def)

section \<open>Option lists\<close>

type_synonym opts = "(u32 \<times> bytes) list"

fun enc_opts :: "u32 \<Rightarrow> opts \<Rightarrow> bytes" where
  "enc_opts cur [] = []"
| "enc_opts cur ((n, v) # os) =
     coap_set_option_header (n - cur) (of_nat (length v)) @ v @ enc_opts n os"

definition last_num :: "u32 \<Rightarrow> opts \<Rightarrow> u32" where
  "last_num cur os = (if os = [] then cur else fst (last os))"

lemma last_num_simps [simp]:
  "last_num cur [] = cur" "last_num cur ((n, v) # os) = last_num n os"
  "last_num cur (os @ os') = last_num (last_num cur os) os'"
  by (auto simp: last_num_def)

lemma enc_opts_append: "enc_opts cur (os @ os') = enc_opts cur os @ enc_opts (last_num cur os) os'"
  by (induction cur os rule: enc_opts.induct) simp_all

text \<open>Ascending numbers below 64 and values the header can announce.\<close>

fun opts_ok :: "u32 \<Rightarrow> opts \<Rightarrow> bool" where
  "opts_ok cur [] = True"
| "opts_ok cur ((n, v) # os) \<longleftrightarrow> cur \<le> n \<and> n < 64 \<and> length v \<le> 65804 \<and> opts_ok n os"

text \<open>What the parser does with an option list.\<close>

fun apply_opts ::
  "(u32 \<Rightarrow> bytes option) \<Rightarrow> opts \<Rightarrow> coap_packet \<Rightarrow> ((u8 \<times> coap_packet) + coap_packet) option" where
  "apply_opts mal [] pkt = Some (Inr pkt)"
| "apply_opts mal ((n, v) # os) pkt =
     (case SET_OPTION pkt n of
        None \<Rightarrow> None
      | Some pkt' \<Rightarrow>
          (case coap_parse_option mal n v pkt' of
             Inl r \<Rightarrow> Some (Inl r)
           | Inr pkt'' \<Rightarrow> apply_opts mal os pkt''))"

lemma parse_loop_option:
  assumes "unat (n - cur) \<le> 65804" and "length v \<le> 65804"
  shows "coap_parse_loop mal cur (coap_set_option_header (n - cur) (of_nat (length v)) @ v @ tail) pkt =
    (case SET_OPTION pkt n of
       None \<Rightarrow> None
     | Some pkt' \<Rightarrow>
         (case coap_parse_option mal n v pkt' of
            Inl r \<Rightarrow> Some r
          | Inr pkt'' \<Rightarrow> coap_parse_loop mal n tail pkt''))"
proof -
  have ln: "unat (of_nat (length v) :: u32) = length v" using assms(2) by simp
  let ?d = "coap_option_nibble (n - cur)" and ?l = "coap_option_nibble (of_nat (length v))"
  note hb = header_byte [OF nibble_take_bit nibble_take_bit, of "n - cur" "of_nat (length v)"]
  have nf: "push_bit 4 ?d \<noteq> 0xF0"
  proof
    assume "push_bit 4 ?d = 0xF0"
    then have "drop_bit 4 (0xF0 OR ?l) = ?d" using hb(1) by simp
    moreover have "drop_bit 4 (0xF0 OR ?l) = 0xF"
    proof -
      have "drop_bit 4 (push_bit 4 0xF OR ?l) = (0xF :: u8)"
        by (rule header_byte(1)) (simp_all add: nibble_take_bit)
      then show ?thesis by simp
    qed
    ultimately show False using nibble_small [of "n - cur"] by simp
  qed
  have "parse_extension (ucast ?l) (option_extension (of_nat (length v)) @ r) = Some (of_nat (length v), r)" for r
    using ln assms(2) by (intro parse_extension_enc) simp
  with parse_extension_enc [OF assms(1)] hb nf ln show ?thesis
    by (simp add: coap_set_option_header_def coap_parse_loop.simps Let_def split: option.split sum.split)
qed

lemma parse_loop_opts:
  assumes "opts_ok cur os"
  shows "coap_parse_loop mal cur (enc_opts cur os @ tail) pkt =
    (case apply_opts mal os pkt of
       None \<Rightarrow> None
     | Some (Inl r) \<Rightarrow> Some r
     | Some (Inr pkt') \<Rightarrow> coap_parse_loop mal (last_num cur os) tail pkt')"
  using assms
proof (induction cur os arbitrary: pkt rule: enc_opts.induct)
  case (2 cur n v os)
  then have le: "cur \<le> n" "n < 64" "length v \<le> 65804" and ok: "opts_ok n os" by auto
  have dn: "unat (n - cur) \<le> 65804"
    using le(1,2) by (simp add: unat_sub_id word_less_nat_alt)
  show ?case
    using "2.IH" [OF ok] parse_loop_option [OF dn le(3), of mal "enc_opts n os @ tail" pkt]
    by (simp split: option.split sum.split)
qed simp

section \<open>The options of a packet\<close>

definition opt_if :: "coap_packet \<Rightarrow> u32 \<Rightarrow> bytes \<Rightarrow> opts" where
  "opt_if p n v = (if IS_OPTION p n then [(n, v)] else [])"

definition multi_if :: "coap_packet \<Rightarrow> u32 \<Rightarrow> multi_option list \<Rightarrow> opts" where
  "multi_if p n ms = (if IS_OPTION p n then map (\<lambda>m. (n, mo_data m)) ms else [])"

definition accepts :: "coap_packet \<Rightarrow> u16 list" where
  "accepts p = (if IS_OPTION p COAP_OPTION_ACCEPT then take (unat (cp_accept_num p)) (cp_accept p) else [])"

definition coap_opts :: "coap_packet \<Rightarrow> opts" where
  "coap_opts p =
     opt_if p COAP_OPTION_IF_MATCH (take (unat (cp_if_match_len p)) (cp_if_match p)) @
     opt_if p COAP_OPTION_URI_HOST (cp_uri_host p) @
     opt_if p COAP_OPTION_ETAG (take (unat (cp_etag_len p)) (cp_etag p)) @
     opt_if p COAP_OPTION_IF_NONE_MATCH (int_option_bytes 0) @
     opt_if p COAP_OPTION_OBSERVE (int_option_bytes (cp_observe p)) @
     opt_if p COAP_OPTION_URI_PORT (int_option_bytes (ucast (cp_uri_port p))) @
     multi_if p COAP_OPTION_LOCATION_PATH (cp_location_path p) @
     multi_if p COAP_OPTION_URI_PATH (cp_uri_path p) @
     opt_if p COAP_OPTION_CONTENT_TYPE (int_option_bytes (cp_content_type p)) @
     opt_if p COAP_OPTION_MAX_AGE (int_option_bytes (cp_max_age p)) @
     multi_if p COAP_OPTION_URI_QUERY (cp_uri_query p) @
     map (\<lambda>a. (COAP_OPTION_ACCEPT, int_option_bytes (ucast a))) (accepts p) @
     opt_if p COAP_OPTION_BLOCK2
       (int_option_bytes (block_value (cp_block2_num p) (cp_block2_more p) (cp_block2_size p))) @
     opt_if p COAP_OPTION_BLOCK1
       (int_option_bytes (block_value (cp_block1_num p) (cp_block1_more p) (cp_block1_size p))) @
     opt_if p COAP_OPTION_SIZE (int_option_bytes (cp_size p)) @
     opt_if p COAP_OPTION_AUTH_CODE (cp_auth_code p)"

text \<open>
  The packets the client builds: arrays of their declared size, every set list option
  nonempty, block sizes that are powers of two, and neither Location-Query nor Proxy-Uri.
\<close>

definition multi_ok :: "multi_option list \<Rightarrow> bool" where
  "multi_ok ms \<longleftrightarrow> (\<forall>m \<in> set ms. unat (mo_len m) = length (mo_data m))"

definition block_ok :: "u32 \<Rightarrow> u16 \<Rightarrow> bool" where
  "block_ok num sz \<longleftrightarrow> num \<le> 0xFFFFF \<and> (\<exists>k \<le> 7. sz = push_bit k 16)"

definition coap_ok :: "coap_packet \<Rightarrow> bool" where
  "coap_ok p \<longleftrightarrow>
     length (cp_options p) = 8 \<and> length (cp_if_match p) = 8 \<and> length (cp_etag p) = 8 \<and>
     length (cp_token p) = 8 \<and> length (cp_accept p) = 2 \<and>
     cp_if_match_len p \<le> 8 \<and> cp_etag_len p \<le> 8 \<and> cp_token_len p \<le> 8 \<and>
     length (cp_uri_host p) \<le> 65804 \<and> length (cp_auth_code p) \<le> 65804 \<and>
     multi_ok (cp_location_path p) \<and> multi_ok (cp_uri_path p) \<and> multi_ok (cp_uri_query p) \<and>
     (IS_OPTION p COAP_OPTION_LOCATION_PATH \<longrightarrow> cp_location_path p \<noteq> []) \<and>
     (IS_OPTION p COAP_OPTION_URI_PATH \<longrightarrow> cp_uri_path p \<noteq> []) \<and>
     (IS_OPTION p COAP_OPTION_URI_QUERY \<longrightarrow> cp_uri_query p \<noteq> []) \<and>
     (IS_OPTION p COAP_OPTION_ACCEPT \<longrightarrow> 1 \<le> cp_accept_num p \<and> cp_accept_num p \<le> 2) \<and>
     \<not> IS_OPTION p COAP_OPTION_LOCATION_QUERY \<and> \<not> IS_OPTION p COAP_OPTION_PROXY_URI \<and>
     (IS_OPTION p COAP_OPTION_BLOCK2 \<longrightarrow> block_ok (cp_block2_num p) (cp_block2_size p)) \<and>
     (IS_OPTION p COAP_OPTION_BLOCK1 \<longrightarrow> block_ok (cp_block1_num p) (cp_block1_size p)) \<and>
     (cp_payload_len p \<noteq> 0 \<longrightarrow> (\<exists>d. cp_payload p = Some d \<and> length d = unat (cp_payload_len p)))"

section \<open>Serializing writes the options in order\<close>

definition st :: "opts \<Rightarrow> ser_state" where
  "st os = (last_num 0 os, enc_opts 0 os)"

lemma ser_option_step:
  assumes "\<And>cur. IS_OPTION p n \<Longrightarrow> write cur = Some (enc_opts cur new) \<and> last_num cur new = n"
  shows "ser_option p n write (st os) = Some (st (os @ (if IS_OPTION p n then new else [])))"
  using assms [of "last_num 0 os"] by (simp add: ser_option_def st_def enc_opts_append)

lemma ser_int_step: "ser_int p n v (st os) = Some (st (os @ opt_if p n (int_option_bytes v)))"
proof -
  have "ser_int p n v (st os) = Some (st (os @ (if IS_OPTION p n then [(n, int_option_bytes v)] else [])))"
    unfolding ser_int_def by (rule ser_option_step) (simp add: coap_serialize_int_option_def)
  then show ?thesis by (simp add: opt_if_def)
qed

lemma ser_array_step:
  assumes "len \<le> length mem"
  shows "ser_array p n mem len (st os) = Some (st (os @ opt_if p n (take len mem)))"
proof -
  have "ser_array p n mem len (st os) = Some (st (os @ (if IS_OPTION p n then [(n, take len mem)] else [])))"
    unfolding ser_array_def
    by (rule ser_option_step) (use assms in \<open>simp add: coap_serialize_array_option_def min_absorb2\<close>)
  then show ?thesis by (simp add: opt_if_def)
qed

lemma serialize_multi:
  assumes "multi_ok ms"
  shows "coap_serialize_multi_option n cur ms = Some (enc_opts cur (map (\<lambda>m. (n, mo_data m)) ms))"
  using assms
proof (induction ms arbitrary: cur)
  case (Cons m ms)
  then have m: "unat (mo_len m) = length (mo_data m)" and ms: "multi_ok ms" by (auto simp: multi_ok_def)
  have "(ucast (mo_len m) :: u32) = of_nat (length (mo_data m))"
    by (simp add: word_unat_eq_iff m [symmetric])
  with Cons.IH [OF ms] m show ?case by simp
qed simp

lemma last_num_const: "ms \<noteq> [] \<Longrightarrow> last_num cur (map (\<lambda>m. (n, f m)) ms) = n"
  by (simp add: last_num_def last_map)

lemma ser_multi_step:
  assumes "multi_ok ms" and "IS_OPTION p n \<longrightarrow> ms \<noteq> []"
  shows "ser_multi p n ms (st os) = Some (st (os @ multi_if p n ms))"
proof -
  have "ser_multi p n ms (st os) =
      Some (st (os @ (if IS_OPTION p n then map (\<lambda>m. (n, mo_data m)) ms else [])))"
    unfolding ser_multi_def
    by (rule ser_option_step) (use assms in \<open>simp add: serialize_multi last_num_const\<close>)
  then show ?thesis by (simp add: multi_if_def)
qed

lemma ser_accept_loop_st:
  "ser_accept_loop n as (st os) = st (os @ map (\<lambda>a. (n, int_option_bytes (ucast a))) as)"
proof (induction as arbitrary: os)
  case (Cons a as)
  have "ser_accept_loop n (a # as) (st os) =
      ser_accept_loop n as (st (os @ [(n, int_option_bytes (ucast a))]))"
    by (simp add: st_def enc_opts_append coap_serialize_int_option_def)
  with Cons.IH show ?case by simp
qed simp

lemma ser_accept_step:
  assumes "coap_ok p"
  shows "ser_accept p (st os) =
    Some (st (os @ map (\<lambda>a. (COAP_OPTION_ACCEPT, int_option_bytes (ucast a))) (accepts p)))"
  using assms by (auto simp: ser_accept_def accepts_def ser_accept_loop_st coap_ok_def word_le_nat_alt)

lemma ser_split_unset:
  "\<not> IS_OPTION p n \<Longrightarrow> ser_split p n v c (st os) = Some (st os)"
  by (simp add: ser_split_def ser_option_def st_def)

lemma coap_serialize_options_opts:
  assumes "coap_ok p"
  shows "coap_serialize_options p = Some (st (coap_opts p))"
proof -
  have start: "(0, []) = st []" by (simp add: st_def)
  from assms have len: "unat (cp_if_match_len p) \<le> length (cp_if_match p)"
    "unat (cp_etag_len p) \<le> length (cp_etag p)"
    by (auto simp: coap_ok_def word_le_nat_alt)
  from assms have multi: "multi_ok (cp_location_path p)" "multi_ok (cp_uri_path p)" "multi_ok (cp_uri_query p)"
    "IS_OPTION p COAP_OPTION_LOCATION_PATH \<longrightarrow> cp_location_path p \<noteq> []"
    "IS_OPTION p COAP_OPTION_URI_PATH \<longrightarrow> cp_uri_path p \<noteq> []"
    "IS_OPTION p COAP_OPTION_URI_QUERY \<longrightarrow> cp_uri_query p \<noteq> []"
    "\<not> IS_OPTION p COAP_OPTION_LOCATION_QUERY" "\<not> IS_OPTION p COAP_OPTION_PROXY_URI"
    by (auto simp: coap_ok_def)
  have proxy: "opt_if p COAP_OPTION_PROXY_URI v = []" for v using multi(8) by (simp add: opt_if_def)
  show ?thesis
    unfolding coap_serialize_options_def start coap_opts_def
    by (simp only: ser_array_step [OF len(1)] ser_array_step [OF len(2)] ser_array_step [OF order_refl]
        ser_int_step ser_multi_step [OF multi(1,4)] ser_multi_step [OF multi(2,5)]
        ser_multi_step [OF multi(3,6)] ser_accept_step [OF assms] ser_split_unset [OF multi(7)]
        proxy bind.bind_lunit append_assoc append_Nil take_all order_refl diff_self)
qed

text \<open>\<open>within lo hi os\<close>: sorted, and all numbers between the bounds.\<close>

definition within :: "u32 \<Rightarrow> u32 \<Rightarrow> opts \<Rightarrow> bool" where
  "within lo hi os \<longleftrightarrow>
     lo \<le> hi \<and> (\<forall>(n, v) \<in> set os. lo \<le> n \<and> n \<le> hi \<and> n < 64 \<and> length v \<le> 65804) \<and>
     sorted (map fst os)"

lemma within_opts_ok: "within lo hi os \<Longrightarrow> opts_ok lo os"
proof -
  have "sorted (map fst os) \<Longrightarrow> \<forall>(n, v) \<in> set os. lo \<le> n \<and> n < 64 \<and> length v \<le> 65804 \<Longrightarrow> opts_ok lo os"
    by (induction lo os rule: opts_ok.induct) fastforce+
  then show "within lo hi os \<Longrightarrow> opts_ok lo os" by (auto simp: within_def)
qed

lemma within_append: "within lo mid os \<Longrightarrow> within mid hi os' \<Longrightarrow> within lo hi (os @ os')"
  by (fastforce simp: within_def sorted_append)

lemma within_opt_if: "lo \<le> n \<Longrightarrow> n < 64 \<Longrightarrow> length v \<le> 65804 \<Longrightarrow> within lo n (opt_if p n v)"
  by (simp add: within_def opt_if_def)

lemma sorted_const: "sorted (map fst (map (\<lambda>x. (n, f x)) xs))"
  by (induction xs) auto

lemma within_multi_if: "lo \<le> n \<Longrightarrow> n < 64 \<Longrightarrow> multi_ok ms \<Longrightarrow> within lo n (multi_if p n ms)"
proof -
  assume "lo \<le> n" and "n < 64" and ok: "multi_ok ms"
  have "length (mo_data m) \<le> 65804" if "m \<in> set ms" for m
    using ok that unat_u8_less [of "mo_len m"] by (simp add: multi_ok_def del: unat_u8_less)
  with \<open>lo \<le> n\<close> \<open>n < 64\<close> show ?thesis
    using sorted_const [of n mo_data ms] by (auto simp: within_def multi_if_def)
qed

lemma within_int: "lo \<le> n \<Longrightarrow> n < 64 \<Longrightarrow> within lo n (opt_if p n (int_option_bytes v))"
  using length_int_option [of v] by (intro within_opt_if) auto

lemma within_accepts: "lo \<le> COAP_OPTION_ACCEPT \<Longrightarrow>
    within lo COAP_OPTION_ACCEPT (map (\<lambda>a. (COAP_OPTION_ACCEPT, int_option_bytes (ucast a))) (accepts p))"
proof -
  have "length (int_option_bytes v) \<le> 65804" for v using length_int_option [of v] by simp
  then show "lo \<le> COAP_OPTION_ACCEPT \<Longrightarrow> ?thesis"
    unfolding within_def by (intro conjI sorted_const) auto
qed

lemma within_array: "lo \<le> n \<Longrightarrow> n < 64 \<Longrightarrow> within lo n (opt_if p n (take (unat (k :: u8)) xs))"
  using unat_u8_less [of k] by (intro within_opt_if) (auto simp: min_def simp del: unat_u8_less)

lemma coap_opts_within:
  assumes "coap_ok p"
  shows "within 0 63 (coap_opts p)"
proof -
  have len: "length (cp_uri_host p) \<le> 65804" "length (cp_auth_code p) \<le> 65804"
    and ms: "multi_ok (cp_location_path p)" "multi_ok (cp_uri_path p)" "multi_ok (cp_uri_query p)"
    using assms by (auto simp: coap_ok_def)
  show ?thesis
    unfolding coap_opts_def
    by (rule within_append within_array within_int within_multi_if within_accepts within_opt_if ms len
        | (simp; fail))+
qed

lemma coap_opts_ok: "coap_ok p \<Longrightarrow> opts_ok 0 (coap_opts p)"
  by (rule within_opts_ok [OF coap_opts_within])

lemma coap_opts_bound: "coap_ok p \<Longrightarrow> \<forall>(n, v) \<in> set (coap_opts p). n < 64"
  using coap_opts_within [of p] by (auto simp: within_def)

section \<open>Block options\<close>

lemma coap_log_2_table:
  "coap_log_2 1 = 0" "coap_log_2 2 = 1" "coap_log_2 4 = 2" "coap_log_2 8 = 3"
  "coap_log_2 16 = 4" "coap_log_2 32 = 5" "coap_log_2 64 = 6" "coap_log_2 128 = 7"
  by (simp_all add: coap_log_2_def coap_log_2_loop.simps)

lemma block_sizes:
  "block_ok num sz \<Longrightarrow> \<exists>k \<le> 7. sz = push_bit k 16 \<and> 0xF AND ucast (coap_log_2 (sz div 16)) = (of_nat k :: u32)"
proof -
  assume "block_ok num sz"
  then obtain k where k: "k \<le> 7" "sz = push_bit k 16" by (auto simp: block_ok_def)
  then have "k \<in> {0, 1, 2, 3, 4, 5, 6, 7}" by (auto simp: numeral_eq_Suc)
  with k show ?thesis by (intro exI [of _ k]) (auto simp: coap_log_2_table)
qed

lemma block_fields:
  fixes num w :: u32
  assumes num: "num \<le> 0xFFFFF" and k: "k \<le> 7"
    and w: "w = push_bit 4 num OR (if more_flag then 8 else 0) OR of_nat k"
  shows "drop_bit 4 w = num" and "w AND 7 = of_nat k"
    and "w AND 8 = (if more_flag then 8 else 0)" and "w AND NOT 0xF = push_bit 4 num"
proof -
  have "unat num < 2 ^ 20" using num by (simp add: word_le_nat_alt)
  then have hi: "take_bit 20 num = num" by (simp add: take_bit_eq_mod word_unat_eq_iff unat_mod)
  have n: "\<not> bit num m" if "20 \<le> m" for m
    using that by (subst hi [symmetric]) (simp add: bit_take_bit_iff)
  have "k < 8" using k by simp
  then have "take_bit 3 (of_nat k :: u32) = of_nat k" by (simp add: take_bit_of_nat take_bit_nat_eq_self)
  then have kb: "\<not> bit (of_nat k :: u32) m" if "3 \<le> m" for m
    using that by (metis bit_take_bit_iff linorder_not_less)
  have m7: "(7 :: u32) = mask 3" and m15: "(0xF :: u32) = mask 4" and m8: "(8 :: u32) = push_bit 3 1"
    by (simp_all add: mask_eq_exp_minus_1)
  have b8: "bit (8 :: u32) m \<longleftrightarrow> m = 3" for m
    by (simp only: m8 bit_push_bit_iff bit_1_iff) auto
  have lt: "bit num m \<Longrightarrow> m < 20" for m using n [of m] by (meson linorder_not_less)
  define b where "b = (if more_flag then 8 else (0 :: u32))"
  define j where "j = (of_nat k :: u32)"
  have bb: "bit b m \<Longrightarrow> m = 3" for m using b8 [of m] by (auto simp: b_def split: if_splits)
  have jb: "bit j m \<Longrightarrow> m < 3" for m using kb [of m] unfolding j_def by (meson linorder_not_less)
  have w': "w = push_bit 4 num OR b OR j" by (simp only: w b_def j_def)
  have "drop_bit 4 w = num"
    unfolding w' by (rule bit_word_eqI) (auto simp: bit_simps dest: lt bb jb)
  moreover have "w AND 7 = j"
    unfolding w' m7 by (rule bit_word_eqI) (auto simp: bit_simps dest: bb jb)
  moreover have "bit (w AND 8) m = bit b m" for m
    by (simp only: bit_and_iff b8, auto simp: w' bit_or_iff bit_push_bit_iff dest: bb jb)
  then have "w AND 8 = b" by (intro bit_word_eqI)
  moreover have "w AND NOT 0xF = push_bit 4 num"
    unfolding w' m15 by (rule bit_word_eqI) (auto simp: bit_simps dest: lt bb jb)
  ultimately show "drop_bit 4 w = num" "w AND 7 = of_nat k"
    "w AND 8 = (if more_flag then 8 else 0)" "w AND NOT 0xF = push_bit 4 num"
    by (simp_all only: b_def j_def)
qed

lemma parse_block_value:
  assumes "block_ok num sz"
  shows "parse_block (int_option_bytes (block_value num more_flag sz)) =
    (num, of_bool (more_flag \<noteq> 0), sz, num * ucast sz)"
proof -
  obtain k where k: "k \<le> 7" "sz = push_bit k 16"
    and log: "0xF AND ucast (coap_log_2 (sz div 16)) = (of_nat k :: u32)"
    using block_sizes [OF assms] by blast
  have num: "num \<le> 0xFFFFF" using assms by (simp add: block_ok_def)
  let ?w = "block_value num more_flag sz"
  have w: "?w = push_bit 4 num OR (if more_flag \<noteq> 0 then 8 else 0) OR of_nat k"
    by (simp add: block_value_def Let_def log or.assoc)
  note f = block_fields [OF num k(1) w]
  have uk: "unat (of_nat k :: u32) = k" using k(1) by simp
  have "k \<in> {0, 1, 2, 3, 4, 5, 6, 7}" using k(1) by (auto simp: numeral_eq_Suc)
  then have sz: "(ucast sz :: u32) = 2 ^ (k + 4)" by (auto simp: k(2))
  have "push_bit k (push_bit 4 num) = num * ucast sz"
    by (simp add: sz push_bit_eq_mult power_add ac_simps)
  moreover have "ucast (drop_bit 3 (if more_flag \<noteq> 0 then 8 else 0 :: u32)) = (of_bool (more_flag \<noteq> 0) :: u8)"
    by simp
  ultimately show ?thesis
    by (simp only: parse_block_def Let_def parse_int_option f uk k(2) [symmetric])
qed
section \<open>The option bitmap\<close>

definition mark :: "bytes \<Rightarrow> u32 \<Rightarrow> bytes" where
  "mark os n = os[unat (n div 8) := os ! unat (n div 8) OR push_bit (unat (n mod 8)) 1]"

definition marks :: "bytes \<Rightarrow> opts \<Rightarrow> bytes" where
  "marks os xs = foldl mark os (map fst xs)"

lemma length_marks [simp]: "length (mark os n) = length os" "length (marks os xs) = length os"
proof -
  show l: "length (mark os n) = length os" for os n by (simp add: mark_def)
  show "length (marks os xs) = length os"
    unfolding marks_def by (induction xs arbitrary: os) (simp_all add: l)
qed

lemma marks_append: "marks os (xs @ ys) = marks (marks os xs) ys"
  by (simp add: marks_def)

lemma marks_Nil [simp]: "marks os [] = os"
  by (simp add: marks_def)

lemma div8: "(n :: u32) < 64 \<Longrightarrow> unat (n div 8) < 8"
  by (simp add: unat_div word_less_nat_alt)

lemma SET_OPTION_mark:
  "length (cp_options p) = 8 \<Longrightarrow> n < 64 \<Longrightarrow>
   SET_OPTION p n = Some (p\<lparr>cp_options := mark (cp_options p) n\<rparr>)"
  by (simp add: SET_OPTION_def mark_def div8)

lemma SET_OPTION_range:
  "length (cp_options p) = 8 \<Longrightarrow> 64 \<le> n \<Longrightarrow> SET_OPTION p n = None"
  by (simp add: SET_OPTION_def aload_def unat_div word_le_nat_alt)

lemma push_bit_one_and: "b AND push_bit k 1 \<noteq> 0 \<longleftrightarrow> bit b k \<and> k < LENGTH('a)" for b :: "'a::len word"
proof
  assume "b AND push_bit k 1 \<noteq> 0"
  then obtain m where "bit (b AND push_bit k 1) m" by (auto simp: bit_eq_iff)
  then show "bit b k \<and> k < LENGTH('a)" by (auto simp: bit_simps dest: bit_imp_le_length)
next
  assume "bit b k \<and> k < LENGTH('a)"
  then have "bit (b AND push_bit k 1) k" by (simp add: bit_simps)
  then show "b AND push_bit k 1 \<noteq> 0" by auto
qed

definition marked :: "bytes \<Rightarrow> u32 \<Rightarrow> bool" where
  "marked os n \<longleftrightarrow> bit (os ! unat (n div 8)) (unat (n mod 8))"

lemma IS_OPTION_marked:
  "length (cp_options p) = 8 \<Longrightarrow> n < 64 \<Longrightarrow> IS_OPTION p n = marked (cp_options p) n"
proof -
  assume a: "length (cp_options p) = 8" "n < 64"
  have "unat (n mod 8) < 8" by (simp add: unat_mod)
  with a show ?thesis by (simp add: IS_OPTION_def marked_def div8 push_bit_one_and [simplified])
qed

lemma marked_mark:
  assumes "length os = 8" and "n < 64" and "m < 64"
  shows "marked (mark os n) m \<longleftrightarrow> m = n \<or> marked os m"
proof -
  have l: "unat (n mod 8) < 8" "unat (m mod 8) < 8" by (simp_all add: unat_mod)
  have eq: "m = n \<longleftrightarrow> unat (m div 8) = unat (n div 8) \<and> unat (m mod 8) = unat (n mod 8)"
  proof
    assume e: "unat (m div 8) = unat (n div 8) \<and> unat (m mod 8) = unat (n mod 8)"
    then have "unat m div 8 = unat n div 8" "unat m mod 8 = unat n mod 8"
      by (simp_all add: unat_div unat_mod)
    then have "unat m = unat n" by (metis div_mult_mod_eq)
    then show "m = n" by (simp add: word_unat_eq_iff)
  qed simp
  have b: "bit (os ! i OR push_bit (unat (n mod 8)) 1) j \<longleftrightarrow> bit (os ! i) j \<or> j = unat (n mod 8)" for i j
    using l(1) by (auto simp: bit_simps)
  show ?thesis
    by (cases "unat (m div 8) = unat (n div 8)")
       (auto simp: marked_def mark_def eq b [simplified] div8 [OF assms(2)] assms(1))
qed

lemma marked_marks:
  assumes "length os = 8" and "\<forall>(k, v) \<in> set xs. k < 64" and "m < 64"
  shows "marked (marks os xs) m \<longleftrightarrow> m \<in> fst ` set xs \<or> marked os m"
  using assms
proof (induction xs arbitrary: os)
  case (Cons x xs)
  have "marks os (x # xs) = marks (mark os (fst x)) xs" by (simp add: marks_def)
  with Cons show ?case by (auto simp: marked_mark)
qed simp

section \<open>Parsing the fields of a packet\<close>

text \<open>The values of an option list end in \<open>q'\<close>, the bitmap left aside.\<close>

fun reads :: "(u32 \<Rightarrow> bytes option) \<Rightarrow> opts \<Rightarrow> coap_packet \<Rightarrow> coap_packet \<Rightarrow> bool" where
  "reads mal [] q q' = (q = q')"
| "reads mal ((n, v) # xs) q q' = (\<exists>r. coap_parse_option mal n v q = Inr r \<and> reads mal xs r q')"

lemma reads_append: "reads mal xs q r \<Longrightarrow> reads mal ys r q' \<Longrightarrow> reads mal (xs @ ys) q q'"
  by (induction mal xs q r rule: reads.induct) auto

lemma reads_eq: "reads mal xs q r \<Longrightarrow> r = q' \<Longrightarrow> reads mal xs q q'"
  by simp

lemma parse_option_bitmap:
  "coap_parse_option mal n v (q\<lparr>cp_options := os\<rparr>) =
   map_sum (\<lambda>(c, r). (c, r\<lparr>cp_options := os\<rparr>)) (\<lambda>r. r\<lparr>cp_options := os\<rparr>) (coap_parse_option mal n v q)"
  unfolding coap_parse_option_def Let_def split_def if_distrib [of "map_sum _ _"]
  by (intro if_cong refl) simp_all

lemma apply_opts_reads:
  assumes "reads mal xs q q'" and "\<forall>(n, v) \<in> set xs. n < 64" and "length os = 8"
  shows "apply_opts mal xs (q\<lparr>cp_options := os\<rparr>) = Some (Inr (q'\<lparr>cp_options := marks os xs\<rparr>))"
  using assms
proof (induction mal xs q q' arbitrary: os rule: reads.induct)
  case (2 mal n v xs q q')
  then obtain r where r: "coap_parse_option mal n v q = Inr r" "reads mal xs r q'" by auto
  show ?case using 2 r
    by (simp add: SET_OPTION_mark marks_def parse_option_bitmap)
qed simp

definition sel :: "coap_packet \<Rightarrow> u32 \<Rightarrow> 'a \<Rightarrow> 'a \<Rightarrow> 'a" where
  "sel p n x y = (if IS_OPTION p n then x else y)"

named_theorems field \<open>what the parser does with one field of a packet\<close>

lemma field_uri_host [field]:
  "reads mal (opt_if p COAP_OPTION_URI_HOST v) q
     (q\<lparr>cp_uri_host := sel p COAP_OPTION_URI_HOST v (cp_uri_host q)\<rparr>)"
  by (simp add: sel_def opt_if_def coap_parse_option_def)

lemma field_auth_code [field]:
  "reads mal (opt_if p COAP_OPTION_AUTH_CODE v) q
     (q\<lparr>cp_auth_code := sel p COAP_OPTION_AUTH_CODE v (cp_auth_code q)\<rparr>)"
  by (simp add: sel_def opt_if_def coap_parse_option_def)

lemma ucast_id16: "ucast (ucast (y :: u16) :: u32) = y"
  by (simp add: word_unat_eq_iff unat_ucast_up)

lemma field_ints [field]:
  "reads mal (opt_if p COAP_OPTION_OBSERVE (int_option_bytes x)) q
     (q\<lparr>cp_observe := sel p COAP_OPTION_OBSERVE x (cp_observe q)\<rparr>)"
  "reads mal (opt_if p COAP_OPTION_CONTENT_TYPE (int_option_bytes x)) q
     (q\<lparr>cp_content_type := sel p COAP_OPTION_CONTENT_TYPE x (cp_content_type q)\<rparr>)"
  "reads mal (opt_if p COAP_OPTION_MAX_AGE (int_option_bytes x)) q
     (q\<lparr>cp_max_age := sel p COAP_OPTION_MAX_AGE x (cp_max_age q)\<rparr>)"
  "reads mal (opt_if p COAP_OPTION_SIZE (int_option_bytes x)) q
     (q\<lparr>cp_size := sel p COAP_OPTION_SIZE x (cp_size q)\<rparr>)"
  "reads mal (opt_if p COAP_OPTION_URI_PORT (int_option_bytes (ucast y))) q
     (q\<lparr>cp_uri_port := sel p COAP_OPTION_URI_PORT y (cp_uri_port q)\<rparr>)"
  "reads mal (opt_if p COAP_OPTION_IF_NONE_MATCH (int_option_bytes 0)) q
     (q\<lparr>cp_if_none_match := sel p COAP_OPTION_IF_NONE_MATCH 1 (cp_if_none_match q)\<rparr>)"
  by (simp_all add: sel_def opt_if_def coap_parse_option_def ucast_id16)

lemma min_len_id: "n \<le> 8 \<Longrightarrow> length xs = 8 \<Longrightarrow> min_len (length (take (unat n) xs)) = n"
  by (simp add: min_len_def word_le_nat_alt)

lemma field_etag [field]:
  "n \<le> 8 \<Longrightarrow> length xs = 8 \<Longrightarrow>
   reads mal (opt_if p COAP_OPTION_ETAG (take (unat n) xs)) q
     (q\<lparr>cp_etag_len := sel p COAP_OPTION_ETAG n (cp_etag_len q),
        cp_etag := sel p COAP_OPTION_ETAG (take (unat n) xs @ drop (unat n) (cp_etag q)) (cp_etag q)\<rparr>)"
  by (simp add: sel_def opt_if_def coap_parse_option_def min_len_id Let_def del: length_take)

lemma field_if_match [field]:
  "n \<le> 8 \<Longrightarrow> length xs = 8 \<Longrightarrow>
   reads mal (opt_if p COAP_OPTION_IF_MATCH (take (unat n) xs)) q
     (q\<lparr>cp_if_match_len := sel p COAP_OPTION_IF_MATCH n (cp_if_match_len q),
        cp_if_match := sel p COAP_OPTION_IF_MATCH (take (unat n) xs @ drop (unat n) (cp_if_match q)) (cp_if_match q)\<rparr>)"
  by (simp add: sel_def opt_if_def coap_parse_option_def min_len_id Let_def del: length_take)

lemma field_block2 [field]:
  "IS_OPTION p COAP_OPTION_BLOCK2 \<longrightarrow> block_ok num sz \<Longrightarrow>
   reads mal (opt_if p COAP_OPTION_BLOCK2 (int_option_bytes (block_value num m sz))) q
     (q\<lparr>cp_block2_num := sel p COAP_OPTION_BLOCK2 num (cp_block2_num q),
        cp_block2_more := sel p COAP_OPTION_BLOCK2 (of_bool (m \<noteq> 0)) (cp_block2_more q),
        cp_block2_size := sel p COAP_OPTION_BLOCK2 sz (cp_block2_size q),
        cp_block2_offset := sel p COAP_OPTION_BLOCK2 (num * ucast sz) (cp_block2_offset q)\<rparr>)"
  by (simp add: sel_def opt_if_def coap_parse_option_def parse_block_value)

lemma field_block1 [field]:
  "IS_OPTION p COAP_OPTION_BLOCK1 \<longrightarrow> block_ok num sz \<Longrightarrow>
   reads mal (opt_if p COAP_OPTION_BLOCK1 (int_option_bytes (block_value num m sz))) q
     (q\<lparr>cp_block1_num := sel p COAP_OPTION_BLOCK1 num (cp_block1_num q),
        cp_block1_more := sel p COAP_OPTION_BLOCK1 (of_bool (m \<noteq> 0)) (cp_block1_more q),
        cp_block1_size := sel p COAP_OPTION_BLOCK1 sz (cp_block1_size q),
        cp_block1_offset := sel p COAP_OPTION_BLOCK1 (num * ucast sz) (cp_block1_offset q)\<rparr>)"
  by (simp add: sel_def opt_if_def coap_parse_option_def parse_block_value)

text \<open>The nodes the parser makes of a list option, when \<open>cis_malloc\<close> gives it their 12 bytes.\<close>

definition static_nodes :: "multi_option list \<Rightarrow> multi_option list" where
  "static_nodes ms = map (\<lambda>m. m\<lparr>mo_is_static := True\<rparr>) ms"

lemma static_node:
  "unat (mo_len m) = length (mo_data m) \<Longrightarrow>
   \<lparr>mo_is_static = True, mo_len = of_nat (length (mo_data m)), mo_data = mo_data m\<rparr> = m\<lparr>mo_is_static := True\<rparr>"
proof -
  assume "unat (mo_len m) = length (mo_data m)"
  then have "mo_len m = of_nat (length (mo_data m))"
    using unat_u8_less [of "mo_len m"] by (simp add: word_unat_eq_iff del: unat_u8_less)
  then show ?thesis by (cases m) simp
qed

lemma add_multi_step:
  "mal 12 \<noteq> None \<Longrightarrow> unat (mo_len m) = length (mo_data m) \<Longrightarrow>
   coap_add_multi_option mal ms (mo_data m) True = ms @ [m\<lparr>mo_is_static := True\<rparr>]"
  by (auto simp: coap_add_multi_option_def static_node)

lemma reads_multi:
  assumes mal: "mal 12 \<noteq> None" and "multi_ok ms"
    and step: "\<And>q v. coap_parse_option mal n v q = Inr (upd (coap_add_multi_option mal (get q) v True) q)"
    and acc: "\<And>x q. get (upd x q) = x" "\<And>x y q. upd x (upd y q) = upd x q" "\<And>q. upd (get q) q = q"
  shows "reads mal (multi_if p n ms) q (upd (sel p n (get q @ static_nodes ms) (get q)) q)"
proof -
  have "reads mal (map (\<lambda>m. (n, mo_data m)) ms) q (upd (get q @ static_nodes ms) q)"
    using assms(2)
  proof (induction ms arbitrary: q)
    case (Cons m ms)
    then have m: "unat (mo_len m) = length (mo_data m)" and ms: "multi_ok ms" by (auto simp: multi_ok_def)
    show ?case using Cons.IH [OF ms, of "upd (get q @ [m\<lparr>mo_is_static := True\<rparr>]) q"]
      by (simp add: step add_multi_step mal m acc static_nodes_def)
  qed (simp add: static_nodes_def acc)
  then show ?thesis by (simp add: multi_if_def acc sel_def)
qed

lemma field_multi [field]:
  assumes "mal 12 \<noteq> None" and "multi_ok ms"
  shows "reads mal (multi_if p COAP_OPTION_URI_PATH ms) q
      (q\<lparr>cp_uri_path := sel p COAP_OPTION_URI_PATH (cp_uri_path q @ static_nodes ms) (cp_uri_path q)\<rparr>)"
    "reads mal (multi_if p COAP_OPTION_URI_QUERY ms) q
      (q\<lparr>cp_uri_query := sel p COAP_OPTION_URI_QUERY (cp_uri_query q @ static_nodes ms) (cp_uri_query q)\<rparr>)"
    "reads mal (multi_if p COAP_OPTION_LOCATION_PATH ms) q
      (q\<lparr>cp_location_path := sel p COAP_OPTION_LOCATION_PATH (cp_location_path q @ static_nodes ms) (cp_location_path q)\<rparr>)"
  using reads_multi [where mal = mal and get = cp_uri_path and upd = "\<lambda>x q. q\<lparr>cp_uri_path := x\<rparr>", OF assms, of COAP_OPTION_URI_PATH]
    reads_multi [where mal = mal and get = cp_uri_query and upd = "\<lambda>x q. q\<lparr>cp_uri_query := x\<rparr>", OF assms, of COAP_OPTION_URI_QUERY]
    reads_multi [where mal = mal and get = cp_location_path and upd = "\<lambda>x q. q\<lparr>cp_location_path := x\<rparr>", OF assms, of COAP_OPTION_LOCATION_PATH]
  by (simp_all add: coap_parse_option_def cong: if_cong)

lemma field_accept [field]:
  assumes "length (cp_accept q) = 2" and "cp_accept_num q = 0" and "length (cp_accept p) = 2"
    and "IS_OPTION p COAP_OPTION_ACCEPT \<longrightarrow> 1 \<le> cp_accept_num p \<and> cp_accept_num p \<le> 2"
  shows "reads mal (map (\<lambda>a. (COAP_OPTION_ACCEPT, int_option_bytes (ucast a))) (accepts p)) q
    (q\<lparr>cp_accept_num := sel p COAP_OPTION_ACCEPT (cp_accept_num p) 0,
       cp_accept := accepts p @ drop (length (accepts p)) (cp_accept q)\<rparr>)"
proof -
  obtain a b where qa: "cp_accept q = [a, b]" using assms(1) by (auto simp: numeral_2_eq_2 length_Suc_conv)
  obtain c d where pa: "cp_accept p = [c, d]" using assms(3) by (auto simp: numeral_2_eq_2 length_Suc_conv)
  have "cp_accept_num p = 1 \<or> cp_accept_num p = 2" if "1 \<le> cp_accept_num p" "cp_accept_num p \<le> 2"
  proof -
    have "unat (cp_accept_num p) = 1 \<or> unat (cp_accept_num p) = 2"
      using that by (auto simp: word_le_nat_alt)
    then show ?thesis by (auto simp: word_unat_eq_iff)
  qed
  then consider "\<not> IS_OPTION p COAP_OPTION_ACCEPT"
    | "IS_OPTION p COAP_OPTION_ACCEPT" "cp_accept_num p = 1"
    | "IS_OPTION p COAP_OPTION_ACCEPT" "cp_accept_num p = 2"
    using assms(4) by blast
  then show ?thesis
    by cases (simp_all add: sel_def accepts_def qa pa assms(2) coap_parse_option_def ucast_id16)
qed
section \<open>What a receiver gets\<close>

definition received_options :: "coap_packet \<Rightarrow> coap_packet \<Rightarrow> coap_packet" where
  "received_options p q = q\<lparr>
     cp_content_type := sel p COAP_OPTION_CONTENT_TYPE (cp_content_type p) (cp_content_type q),
     cp_max_age := sel p COAP_OPTION_MAX_AGE (cp_max_age p) (cp_max_age q),
     cp_auth_code := sel p COAP_OPTION_AUTH_CODE (cp_auth_code p) (cp_auth_code q),
     cp_etag_len := sel p COAP_OPTION_ETAG (cp_etag_len p) (cp_etag_len q),
     cp_etag := sel p COAP_OPTION_ETAG
       (take (unat (cp_etag_len p)) (cp_etag p) @ drop (unat (cp_etag_len p)) (cp_etag q)) (cp_etag q),
     cp_uri_host := sel p COAP_OPTION_URI_HOST (cp_uri_host p) (cp_uri_host q),
     cp_location_path := sel p COAP_OPTION_LOCATION_PATH
       (cp_location_path q @ static_nodes (cp_location_path p)) (cp_location_path q),
     cp_uri_port := sel p COAP_OPTION_URI_PORT (cp_uri_port p) (cp_uri_port q),
     cp_uri_path := sel p COAP_OPTION_URI_PATH
       (cp_uri_path q @ static_nodes (cp_uri_path p)) (cp_uri_path q),
     cp_observe := sel p COAP_OPTION_OBSERVE (cp_observe p) (cp_observe q),
     cp_accept_num := sel p COAP_OPTION_ACCEPT (cp_accept_num p) 0,
     cp_accept := accepts p @ drop (length (accepts p)) (cp_accept q),
     cp_if_match_len := sel p COAP_OPTION_IF_MATCH (cp_if_match_len p) (cp_if_match_len q),
     cp_if_match := sel p COAP_OPTION_IF_MATCH
       (take (unat (cp_if_match_len p)) (cp_if_match p) @ drop (unat (cp_if_match_len p)) (cp_if_match q))
       (cp_if_match q),
     cp_block2_num := sel p COAP_OPTION_BLOCK2 (cp_block2_num p) (cp_block2_num q),
     cp_block2_more := sel p COAP_OPTION_BLOCK2 (of_bool (cp_block2_more p \<noteq> 0)) (cp_block2_more q),
     cp_block2_size := sel p COAP_OPTION_BLOCK2 (cp_block2_size p) (cp_block2_size q),
     cp_block2_offset := sel p COAP_OPTION_BLOCK2 (cp_block2_num p * ucast (cp_block2_size p))
       (cp_block2_offset q),
     cp_block1_num := sel p COAP_OPTION_BLOCK1 (cp_block1_num p) (cp_block1_num q),
     cp_block1_more := sel p COAP_OPTION_BLOCK1 (of_bool (cp_block1_more p \<noteq> 0)) (cp_block1_more q),
     cp_block1_size := sel p COAP_OPTION_BLOCK1 (cp_block1_size p) (cp_block1_size q),
     cp_block1_offset := sel p COAP_OPTION_BLOCK1 (cp_block1_num p * ucast (cp_block1_size p))
       (cp_block1_offset q),
     cp_size := sel p COAP_OPTION_SIZE (cp_size p) (cp_size q),
     cp_uri_query := sel p COAP_OPTION_URI_QUERY
       (cp_uri_query q @ static_nodes (cp_uri_query p)) (cp_uri_query q),
     cp_if_none_match := sel p COAP_OPTION_IF_NONE_MATCH 1 (cp_if_none_match q)\<rparr>"

lemma reads_step:
  "reads mal xs q r \<Longrightarrow> r = r' \<Longrightarrow> reads mal ys r' q' \<Longrightarrow> reads mal (xs @ ys) q q'"
  using reads_append by blast

lemma coap_opts_read:
  assumes mal: "mal 12 \<noteq> None" and ok: "coap_ok p"
    and q: "cp_accept_num q = 0" "length (cp_accept q) = 2"
  shows "reads mal (coap_opts p) q (received_options p q)"
proof -
  have ok': "length (cp_if_match p) = 8" "length (cp_etag p) = 8" "length (cp_accept p) = 2"
    "cp_if_match_len p \<le> 8" "cp_etag_len p \<le> 8"
    "multi_ok (cp_location_path p)" "multi_ok (cp_uri_path p)" "multi_ok (cp_uri_query p)"
    "IS_OPTION p COAP_OPTION_ACCEPT \<longrightarrow> 1 \<le> cp_accept_num p \<and> cp_accept_num p \<le> 2"
    "IS_OPTION p COAP_OPTION_BLOCK2 \<longrightarrow> block_ok (cp_block2_num p) (cp_block2_size p)"
    "IS_OPTION p COAP_OPTION_BLOCK1 \<longrightarrow> block_ok (cp_block1_num p) (cp_block1_size p)"
    using ok by (auto simp: coap_ok_def)
  show ?thesis
    unfolding coap_opts_def
    by (rule reads_eq, (rule reads_step, rule field, (simp add: ok' mal q; fail)+)+, rule field,
        simp add: received_options_def)
qed
section \<open>Whole messages\<close>

definition coap_payload :: "coap_packet \<Rightarrow> bytes" where
  "coap_payload p = (if cp_payload_len p = 0 then [] else the (cp_payload p))"

definition coap_bytes :: "coap_packet \<Rightarrow> bytes" where
  "coap_bytes p =
     coap_header (p\<lparr>cp_version := 1\<rparr>) @ take (unat (cp_token_len p)) (cp_token p) @
     enc_opts 0 (coap_opts p) @ (if cp_payload_len p \<noteq> 0 then 0xFF # coap_payload p else [])"

lemma IS_OPTION_version [simp]: "IS_OPTION (p\<lparr>cp_version := v\<rparr>) n = IS_OPTION p n"
  by (simp add: IS_OPTION_def)

lemma coap_ok_version [simp]: "coap_ok (p\<lparr>cp_version := v\<rparr>) = coap_ok p"
  by (simp add: coap_ok_def)

lemma coap_opts_version [simp]: "coap_opts (p\<lparr>cp_version := v\<rparr>) = coap_opts p"
  by (simp add: coap_opts_def opt_if_def multi_if_def accepts_def)

lemma coap_ok_basic:
  assumes "coap_ok p"
  shows "length (cp_token p) = 8" "unat (cp_token_len p) \<le> 8"
    "cp_payload_len p \<noteq> 0 \<Longrightarrow> cp_payload p = Some (coap_payload p)"
    "length (coap_payload p) = unat (cp_payload_len p)"
  using assms by (auto simp: coap_ok_def word_le_nat_alt coap_payload_def)

lemma coap_serialize_eq:
  assumes ok: "coap_ok p"
  shows "coap_serialize_message p buf = do {
    b \<leftarrow> ablit buf 0 (coap_bytes p);
    Some (of_nat (length (coap_bytes p)), coap_free_header (p\<lparr>cp_version := 1\<rparr>), b) }"
proof -
  have pl: "payload_bytes (p\<lparr>cp_version := 1\<rparr>) = Some (coap_payload p)"
  proof (cases "cp_payload_len p = 0")
    case False
    then show ?thesis using coap_ok_basic(3) [OF ok False] coap_ok_basic(4) [OF ok]
      by (simp add: payload_bytes_def)
  qed (simp add: payload_bytes_def coap_payload_def)
  have opts: "coap_serialize_options (p\<lparr>cp_version := 1\<rparr>) = Some (st (coap_opts p))"
    using coap_serialize_options_opts [of "p\<lparr>cp_version := 1\<rparr>"] ok by simp
  have out: "coap_header (p\<lparr>cp_version := 1\<rparr>) @ take (unat (cp_token_len p)) (cp_token p) @
      enc_opts 0 (coap_opts p) @ (if cp_payload_len p \<noteq> 0 then [0xFF] else []) @ coap_payload p = coap_bytes p"
    by (simp add: coap_bytes_def coap_payload_def)
  show ?thesis
    using coap_ok_basic(1,2) [OF ok]
    by (simp add: coap_serialize_message_def Let_def pl opts st_def out del: length_append split del: if_split)
qed

lemma coap_serialize_bytes:
  assumes "coap_ok p" and "length (coap_bytes p) \<le> length buf"
  shows "coap_serialize_message p buf =
    Some (of_nat (length (coap_bytes p)), coap_free_header (p\<lparr>cp_version := 1\<rparr>),
          coap_bytes p @ drop (length (coap_bytes p)) buf)"
  using assms by (simp add: coap_serialize_eq)

lemma coap_header_parts:
  assumes "unat (cp_token_len p) \<le> 8"
  shows "\<exists>h. coap_header (p\<lparr>cp_version := 1\<rparr>) =
      [h, cp_code p, ucast (drop_bit 8 (cp_mid p)), ucast (cp_mid p)] \<and>
    drop_bit 6 (h AND 0xC0) = 1 \<and> code_type (drop_bit 4 (h AND 0x30)) = cp_type p \<and>
    h AND 0x0F = cp_token_len p"
proof -
  have "unat (cp_token_len p) \<in> {0, 1, 2, 3, 4, 5, 6, 7, 8}" using assms by (auto simp: numeral_eq_Suc)
  then have "cp_token_len p \<in> {0, 1, 2, 3, 4, 5, 6, 7, 8}" by (auto simp: word_unat_eq_iff)
  then show ?thesis
    by (cases "cp_type p") (auto simp: coap_header_def code_type_def)
qed

lemma coap_parse_tail:
  "length d < 65536 \<Longrightarrow>
   coap_parse_loop mal n (if k then 0xFF # d else []) q =
   Some (COAP_NO_ERROR, if k then q\<lparr>cp_payload := Some d, cp_payload_len := of_nat (length d)\<rparr> else q)"
  by (simp add: coap_parse_loop.simps)

text \<open>The packet the parser starts the option loop with, and the one it returns.\<close>

definition coap_start :: "coap_packet \<Rightarrow> coap_packet" where
  "coap_start p = coap_zero\<lparr>
     cp_version := 1, cp_type := cp_type p, cp_token_len := cp_token_len p, cp_code := cp_code p,
     cp_mid := cp_mid p,
     cp_token := take (unat (cp_token_len p)) (cp_token p) @ replicate (8 - unat (cp_token_len p)) 0\<rparr>"

definition coap_received :: "coap_packet \<Rightarrow> coap_packet" where
  "coap_received p = (received_options p (coap_start p))\<lparr>
     cp_payload := (if cp_payload_len p \<noteq> 0 then cp_payload p else None),
     cp_payload_len := cp_payload_len p,
     cp_options := marks (if cp_token_len p \<noteq> 0 then mark (replicate 8 0) COAP_OPTION_TOKEN
                          else replicate 8 0) (coap_opts p)\<rparr>"

lemma be16_or: "push_bit 8 (ucast (ucast (drop_bit 8 x) :: u8)) OR ucast (ucast x :: u8) = (x :: u16)"
  by (rule bit_word_eqI) (auto simp: bit_simps)

lemma coap_parse_bytes:
  assumes mal: "mal 12 \<noteq> None" and ok: "coap_ok p"
  shows "coap_parse_message mal (coap_bytes p) = Some (COAP_NO_ERROR, coap_received p)"
proof -
  note basic = coap_ok_basic [OF ok]
  let ?k = "unat (cp_token_len p)" and ?tok = "take (unat (cp_token_len p)) (cp_token p)"
  let ?tail = "if cp_payload_len p \<noteq> 0 then 0xFF # coap_payload p else []"
  let ?os = "if cp_token_len p \<noteq> 0 then mark (replicate 8 0) COAP_OPTION_TOKEN else replicate 8 0"
  obtain h where h: "coap_header (p\<lparr>cp_version := 1\<rparr>) =
      [h, cp_code p, ucast (drop_bit 8 (cp_mid p)), ucast (cp_mid p)]"
    "drop_bit 6 (h AND 0xC0) = 1" "code_type (drop_bit 4 (h AND 0x30)) = cp_type p"
    "h AND 0x0F = cp_token_len p"
    using coap_header_parts [OF basic(2)] by blast
  have tkl: "\<not> 8 < cp_token_len p" using basic(2) by (simp add: word_less_nat_alt)
  have "coap_parse_message mal (coap_bytes p) =
      coap_parse_loop mal 0 (enc_opts 0 (coap_opts p) @ ?tail) ((coap_start p)\<lparr>cp_options := ?os\<rparr>)"
    using basic(1,2)
    by (simp add: coap_parse_message_def coap_bytes_def h h(2-3) [simplified] be16_or tkl SET_OPTION_mark coap_start_def
        coap_zero_def Let_def)
  also have "apply_opts mal (coap_opts p) ((coap_start p)\<lparr>cp_options := ?os\<rparr>) =
      Some (Inr ((received_options p (coap_start p))\<lparr>cp_options := marks ?os (coap_opts p)\<rparr>))"
  proof (rule apply_opts_reads)
    show "reads mal (coap_opts p) (coap_start p) (received_options p (coap_start p))"
      by (rule coap_opts_read [where mal = mal, OF mal ok]) (simp_all add: coap_start_def coap_zero_def)
    show "\<forall>(n, v) \<in> set (coap_opts p). n < 64" by (rule coap_opts_bound [OF ok])
  qed simp
  then have "coap_parse_loop mal 0 (enc_opts 0 (coap_opts p) @ ?tail) ((coap_start p)\<lparr>cp_options := ?os\<rparr>) =
      coap_parse_loop mal (last_num 0 (coap_opts p)) ?tail
        ((received_options p (coap_start p))\<lparr>cp_options := marks ?os (coap_opts p)\<rparr>)"
    by (simp add: parse_loop_opts [OF coap_opts_ok [OF ok]])
  also have "\<dots> = Some (COAP_NO_ERROR, coap_received p)"
    using basic(3,4) by (simp add: coap_parse_tail coap_received_def received_options_def coap_start_def coap_zero_def)
  finally show ?thesis .
qed
end
