(* ===== verification/Coap_Contract.thy ===== *)
theory Coap_Contract
  imports Coap_Laws
begin

text \<open>
  The contract of the CoAP codec: a packet that was serialized into a large enough buffer is
  received with all its options, and how the parser reacts to options it does not know.
\<close>

section \<open>The same message\<close>

definition wire_options :: "u32 list" where
  "wire_options =
     [COAP_OPTION_IF_MATCH, COAP_OPTION_URI_HOST, COAP_OPTION_ETAG, COAP_OPTION_IF_NONE_MATCH,
      COAP_OPTION_OBSERVE, COAP_OPTION_URI_PORT, COAP_OPTION_LOCATION_PATH, COAP_OPTION_URI_PATH,
      COAP_OPTION_CONTENT_TYPE, COAP_OPTION_MAX_AGE, COAP_OPTION_URI_QUERY, COAP_OPTION_ACCEPT,
      COAP_OPTION_BLOCK2, COAP_OPTION_BLOCK1, COAP_OPTION_SIZE, COAP_OPTION_AUTH_CODE]"

text \<open>The list options agree as lists of values, the flags of the block options as truth values.\<close>

definition same_header :: "coap_packet \<Rightarrow> coap_packet \<Rightarrow> bool" where
  "same_header p q \<longleftrightarrow>
     cp_type q = cp_type p \<and> cp_code q = cp_code p \<and> cp_mid q = cp_mid p \<and>
     cp_token_len q = cp_token_len p \<and>
     take (unat (cp_token_len q)) (cp_token q) = take (unat (cp_token_len p)) (cp_token p) \<and>
     cp_payload_len q = cp_payload_len p \<and>
     (if cp_payload_len p = 0 then cp_payload q = None else cp_payload q = cp_payload p)"

definition same_option :: "coap_packet \<Rightarrow> coap_packet \<Rightarrow> u32 \<Rightarrow> bool" where
  "same_option p q n \<longleftrightarrow>
     (if n = COAP_OPTION_IF_MATCH then cp_if_match_len q = cp_if_match_len p \<and>
        take (unat (cp_if_match_len q)) (cp_if_match q) = take (unat (cp_if_match_len p)) (cp_if_match p)
      else if n = COAP_OPTION_URI_HOST then cp_uri_host q = cp_uri_host p
      else if n = COAP_OPTION_ETAG then cp_etag_len q = cp_etag_len p \<and>
        take (unat (cp_etag_len q)) (cp_etag q) = take (unat (cp_etag_len p)) (cp_etag p)
      else if n = COAP_OPTION_IF_NONE_MATCH then cp_if_none_match q = 1
      else if n = COAP_OPTION_OBSERVE then cp_observe q = cp_observe p
      else if n = COAP_OPTION_URI_PORT then cp_uri_port q = cp_uri_port p
      else if n = COAP_OPTION_LOCATION_PATH then
        map mo_data (cp_location_path q) = map mo_data (cp_location_path p)
      else if n = COAP_OPTION_URI_PATH then map mo_data (cp_uri_path q) = map mo_data (cp_uri_path p)
      else if n = COAP_OPTION_CONTENT_TYPE then cp_content_type q = cp_content_type p
      else if n = COAP_OPTION_MAX_AGE then cp_max_age q = cp_max_age p
      else if n = COAP_OPTION_URI_QUERY then map mo_data (cp_uri_query q) = map mo_data (cp_uri_query p)
      else if n = COAP_OPTION_ACCEPT then cp_accept_num q = cp_accept_num p \<and>
        take (unat (cp_accept_num q)) (cp_accept q) = take (unat (cp_accept_num p)) (cp_accept p)
      else if n = COAP_OPTION_BLOCK2 then cp_block2_num q = cp_block2_num p \<and>
        (cp_block2_more q \<noteq> 0) = (cp_block2_more p \<noteq> 0) \<and> cp_block2_size q = cp_block2_size p \<and>
        cp_block2_offset q = cp_block2_num p * ucast (cp_block2_size p)
      else if n = COAP_OPTION_BLOCK1 then cp_block1_num q = cp_block1_num p \<and>
        (cp_block1_more q \<noteq> 0) = (cp_block1_more p \<noteq> 0) \<and> cp_block1_size q = cp_block1_size p \<and>
        cp_block1_offset q = cp_block1_num p * ucast (cp_block1_size p)
      else if n = COAP_OPTION_SIZE then cp_size q = cp_size p
      else n = COAP_OPTION_AUTH_CODE \<longrightarrow> cp_auth_code q = cp_auth_code p)"

definition same_message :: "coap_packet \<Rightarrow> coap_packet \<Rightarrow> bool" where
  "same_message p q \<longleftrightarrow>
     same_header p q \<and>
     list_all (\<lambda>n. IS_OPTION q n = IS_OPTION p n \<and> (IS_OPTION p n \<longrightarrow> same_option p q n)) wire_options \<and>
     IS_OPTION q COAP_OPTION_TOKEN = (cp_token_len p \<noteq> 0)"

lemma opt_numbers:
  "k \<in> fst ` set (opt_if p n v) \<longleftrightarrow> IS_OPTION p n \<and> k = n"
  "k \<in> fst ` set (multi_if p n ms) \<longleftrightarrow> (IS_OPTION p n \<and> ms \<noteq> []) \<and> k = n"
  "k \<in> fst ` set (map (\<lambda>a. (n, f a)) xs) \<longleftrightarrow> xs \<noteq> [] \<and> k = n"
  by (auto simp: opt_if_def multi_if_def image_image image_constant_conv split: if_splits)

lemma coap_opts_numbers:
  assumes "coap_ok p"
  shows "list_all (\<lambda>n. n \<in> fst ` set (coap_opts p) \<longleftrightarrow> IS_OPTION p n) wire_options"
    and "COAP_OPTION_TOKEN \<notin> fst ` set (coap_opts p)"
proof -
  have a: "accepts p \<noteq> [] \<longleftrightarrow> IS_OPTION p COAP_OPTION_ACCEPT"
    using assms by (auto simp: accepts_def coap_ok_def word_le_nat_alt)
  have ne: "IS_OPTION p COAP_OPTION_LOCATION_PATH \<and> cp_location_path p \<noteq> [] \<longleftrightarrow> IS_OPTION p COAP_OPTION_LOCATION_PATH"
    "IS_OPTION p COAP_OPTION_URI_PATH \<and> cp_uri_path p \<noteq> [] \<longleftrightarrow> IS_OPTION p COAP_OPTION_URI_PATH"
    "IS_OPTION p COAP_OPTION_URI_QUERY \<and> cp_uri_query p \<noteq> [] \<longleftrightarrow> IS_OPTION p COAP_OPTION_URI_QUERY"
    using assms by (auto simp: coap_ok_def)
  have n: "k \<in> fst ` set (coap_opts p) \<longleftrightarrow>
      list_ex (\<lambda>n. IS_OPTION p n \<and> k = n) wire_options" for k
    by (simp only: coap_opts_def set_append image_Un Un_iff opt_numbers a ne wire_options_def list_ex_Nil_iff list_ex_Cons_iff simp_thms)
  show "list_all (\<lambda>n. n \<in> fst ` set (coap_opts p) \<longleftrightarrow> IS_OPTION p n) wire_options"
    by (auto simp: n list_ex_iff list_all_iff)
  show "COAP_OPTION_TOKEN \<notin> fst ` set (coap_opts p)"
    by (simp add: n wire_options_def)
qed

lemma IS_OPTION_received:
  assumes ok: "coap_ok p" and n: "n < 64"
  shows "IS_OPTION (coap_received p) n \<longleftrightarrow>
    n \<in> fst ` set (coap_opts p) \<or> n = COAP_OPTION_TOKEN \<and> cp_token_len p \<noteq> 0"
proof -
  have z: "\<not> marked (replicate 8 0) n"
    using n by (simp add: marked_def div8)
  let ?os = "if cp_token_len p \<noteq> 0 then mark (replicate 8 0) COAP_OPTION_TOKEN else replicate 8 0"
  have "IS_OPTION (coap_received p) n \<longleftrightarrow> marked (marks ?os (coap_opts p)) n"
    by (subst IS_OPTION_marked) (simp_all add: coap_received_def n)
  also have "\<dots> \<longleftrightarrow> n \<in> fst ` set (coap_opts p) \<or> marked ?os n"
    by (rule marked_marks [OF _ coap_opts_bound [OF ok] n]) simp
  also have "marked ?os n \<longleftrightarrow> n = COAP_OPTION_TOKEN \<and> cp_token_len p \<noteq> 0"
    using n z by (simp add: marked_mark)
  finally show ?thesis .
qed

lemma coap_received_same:
  assumes ok: "coap_ok p"
  shows "same_message p (coap_received p)"
proof -
  note b = coap_ok_basic(1,2) [OF ok]
  have lens: "length (cp_if_match p) = 8" "length (cp_etag p) = 8"
     "unat (cp_if_match_len p) \<le> 8" "unat (cp_etag_len p) \<le> 8"
    and acc: "length (cp_accept p) = 2" "IS_OPTION p COAP_OPTION_ACCEPT \<Longrightarrow> unat (cp_accept_num p) \<le> 2"
    using ok by (auto simp: coap_ok_def word_le_nat_alt)
  have "same_header p (coap_received p)"
    using b by (simp add: same_header_def coap_received_def received_options_def coap_start_def)
  moreover have "IS_OPTION (coap_received p) COAP_OPTION_TOKEN = (cp_token_len p \<noteq> 0)"
    using coap_opts_numbers(2) [OF ok] by (subst IS_OPTION_received [OF ok]) simp_all
  moreover have "list_all (\<lambda>n. IS_OPTION (coap_received p) n = IS_OPTION p n) wire_options"
    using coap_opts_numbers(1) [OF ok] by (simp add: wire_options_def IS_OPTION_received [OF ok])
  moreover have "list_all (\<lambda>n. IS_OPTION p n \<longrightarrow> same_option p (coap_received p) n) wire_options"
    using lens acc
    by (simp add: wire_options_def same_option_def coap_received_def received_options_def coap_start_def
        coap_zero_def sel_def static_nodes_def accepts_def)
  ultimately show ?thesis by (simp add: same_message_def list_all_iff)
qed

section \<open>Sizes and refused options\<close>

lemma no_options_size:
  assumes ok: "coap_ok p" and none: "list_all (\<lambda>n. \<not> IS_OPTION p n) wire_options"
  shows "coap_opts p = []"
    and "coap_serialize_get_size p = 4 + ucast (cp_payload_len p) + ucast (cp_token_len p)"
proof -
  have none': "\<not> IS_OPTION p COAP_OPTION_LOCATION_QUERY" "\<not> IS_OPTION p COAP_OPTION_PROXY_URI"
    using ok by (simp_all add: coap_ok_def)
  show "coap_opts p = []"
    using none by (simp add: wire_options_def coap_opts_def opt_if_def multi_if_def accepts_def)
  show "coap_serialize_get_size p = 4 + ucast (cp_payload_len p) + ucast (cp_token_len p)"
    using none none' by (simp add: wire_options_def coap_serialize_get_size_def opt_size_def)
qed

lemma length_coap_header [simp]: "length (coap_header p) = 4"
  by (simp add: coap_header_def)

lemma get_size_short:
  assumes ok: "coap_ok p" and none: "list_all (\<lambda>n. \<not> IS_OPTION p n) wire_options"
    and pl: "cp_payload_len p \<noteq> 0"
  shows "length (coap_bytes p) = unat (coap_serialize_get_size p) + 1"
proof -
  have "unat (cp_token_len p) \<le> 8" "unat (cp_payload_len p) < 65536"
    using coap_ok_basic(2) [OF ok] by simp_all
  then have "unat (coap_serialize_get_size p) = 4 + unat (cp_payload_len p) + unat (cp_token_len p)"
    by (simp add: no_options_size(2) [OF ok none] unat_word_ariths del: unat_u16_less)
  then show ?thesis
    using pl coap_ok_basic [OF ok] by (simp add: coap_bytes_def no_options_size(1) [OF ok none])
qed

lemma no_options_length:
  assumes ok: "coap_ok p" and none: "list_all (\<lambda>n. \<not> IS_OPTION p n) wire_options"
    and pl: "cp_payload_len p \<noteq> 0"
  shows "length (coap_bytes p) = 5 + unat (cp_payload_len p) + unat (cp_token_len p)"
  using pl coap_ok_basic [OF ok] by (simp add: coap_bytes_def no_options_size(1) [OF ok none])

lemma coap_serialize_overrun:
  "coap_ok p \<Longrightarrow> length buf < length (coap_bytes p) \<Longrightarrow> coap_serialize_message p buf = None"
  by (simp add: coap_serialize_eq ablit_def)

definition known_option :: "u32 \<Rightarrow> bool" where
  "known_option n \<longleftrightarrow>
     n \<in> set (COAP_OPTION_LOCATION_QUERY # COAP_OPTION_PROXY_URI # wire_options)"

lemma parse_unknown:
  "\<not> known_option n \<Longrightarrow>
   coap_parse_option mal n v q = (if n AND 1 \<noteq> 0 then Inl (COAP_402_BAD_OPTION, q) else Inr q)"
  by (simp add: coap_parse_option_def known_option_def wire_options_def)

text \<open>A datagram without token.\<close>

definition plain_start :: "u8 \<Rightarrow> u8 \<Rightarrow> u8 \<Rightarrow> coap_packet" where
  "plain_start code m1 m2 = coap_zero\<lparr>
     cp_version := 1, cp_type := COAP_TYPE_CON, cp_code := code,
     cp_mid := push_bit 8 (ucast m1) OR ucast m2\<rparr>"

lemma parse_plain:
  "coap_parse_message mal (0x40 # code # m1 # m2 # rest) = coap_parse_loop mal 0 rest (plain_start code m1 m2)"
  by (simp add: coap_parse_message_def plain_start_def Let_def coap_zero_def code_type_def)

lemma apply_opts_append:
  "apply_opts mal (xs @ ys) q =
     (case apply_opts mal xs q of Some (Inr q') \<Rightarrow> apply_opts mal ys q' | r \<Rightarrow> r)"
  by (induction mal xs q rule: apply_opts.induct) (simp_all split: option.splits sum.splits)

lemma marks_snoc: "marks os (xs @ [(n, v)]) = mark (marks os xs) n"
  by (simp add: marks_def)

lemma parse_unknown_critical:
  assumes os: "opts_ok 0 (xs @ (n, v) # ys)" and known: "reads mal xs (plain_start code m1 m2) q"
    and n: "\<not> known_option n" "n AND 1 \<noteq> 0"
  shows "coap_parse_message mal (0x40 # code # m1 # m2 # enc_opts 0 (xs @ (n, v) # ys) @ tail) =
    Some (COAP_402_BAD_OPTION, q\<lparr>cp_options := marks (replicate 8 0) (xs @ [(n, v)])\<rparr>)"
proof -
  have b: "opts_ok c (zs @ zs') \<Longrightarrow> \<forall>(k, v) \<in> set zs. k < 64" for c zs zs'
    by (induction c zs rule: opts_ok.induct) auto
  have o: "plain_start code m1 m2 = (plain_start code m1 m2)\<lparr>cp_options := replicate 8 0\<rparr>"
    by (simp add: plain_start_def coap_zero_def)
  have "apply_opts mal xs (plain_start code m1 m2) = Some (Inr (q\<lparr>cp_options := marks (replicate 8 0) xs\<rparr>))"
    by (subst o, rule apply_opts_reads [OF known b [OF os]]) simp
  moreover have "n < 64" using b [of 0 "xs @ [(n, v)]" ys] os by simp
  ultimately show ?thesis
    using n by (simp add: parse_plain parse_loop_opts [OF os] apply_opts_append SET_OPTION_mark parse_unknown
        marks_snoc)
qed

text \<open>Options behind which the parser goes on: the elective ones, and the critical ones it knows except
  Proxy-Uri.\<close>

definition passed_option :: "u32 \<Rightarrow> bool" where
  "passed_option n \<longleftrightarrow> (n AND 1 = 0 \<or> known_option n) \<and> n \<noteq> COAP_OPTION_PROXY_URI"

lemma passed_option_read: "passed_option n \<Longrightarrow> \<exists>r. coap_parse_option mal n v q = Inr r"
  by (cases "known_option n")
    (auto simp: passed_option_def parse_unknown, auto simp: coap_parse_option_def known_option_def wire_options_def
      Let_def split_beta)

lemma passed_options_read: "list_all (\<lambda>(n, v). passed_option n) xs \<Longrightarrow> \<exists>r. reads mal xs q r"
proof (induction xs arbitrary: q)
  case (Cons x xs)
  obtain n v where x: "x = (n, v)" by (cases x)
  with Cons.prems obtain r where "coap_parse_option mal n v q = Inr r"
    using passed_option_read by fastforce
  with Cons x show ?case by auto
next
  case Nil
  have "reads mal [] q q" by simp
  then show ?case by blast
qed

text \<open>The start of a datagram with any type, code and token.\<close>

lemma parse_start:
  assumes "drop_bit 6 (h AND 0xC0) = 1" and "h AND 0x0F \<le> 8" and "length tok = unat (h AND 0x0F)"
  shows "\<exists>q. length (cp_options q) = 8 \<and>
    (\<forall>rest. coap_parse_message mal (h # code # m1 # m2 # tok @ rest) = coap_parse_loop mal 0 rest q)"
proof -
  let ?q = "coap_zero\<lparr>cp_version := 1, cp_type := code_type (drop_bit 4 (h AND 0x30)),
    cp_token_len := h AND 0x0F, cp_code := code, cp_mid := push_bit 8 (ucast m1) OR ucast m2\<rparr>"
  let ?p = "if h AND 0x0F = 0 then ?q else ?q\<lparr>cp_token := tok @ drop (length tok) (cp_token ?q),
    cp_options := mark (cp_options ?q) COAP_OPTION_TOKEN\<rparr>"
  have "\<not> 8 < h AND 0x0F" using assms(2) by (simp add: linorder_not_less)
  then have "coap_parse_message mal (h # code # m1 # m2 # tok @ rest) = coap_parse_loop mal 0 rest ?p" for rest
    using assms(1,3) by (simp add: coap_parse_message_def Let_def coap_zero_def SET_OPTION_mark)
  moreover have "length (cp_options ?p) = 8" by (simp add: coap_zero_def)
  ultimately show ?thesis by blast
qed

lemma parse_overflow:
  assumes "length (cp_options q) = 8" and "opts_ok 0 xs" and "list_all (\<lambda>(n, v). passed_option n) xs"
    and "64 \<le> n" and "unat n \<le> 65804" and "length v \<le> 65804"
  shows "coap_parse_loop mal 0 (enc_opts 0 (xs @ [(n, v)]) @ rest) q = None"
proof -
  obtain r where r: "reads mal xs q r" using passed_options_read [OF assms(3)] by blast
  have b: "\<forall>(k, v) \<in> set xs. k < 64"
  proof -
    have "opts_ok c zs \<Longrightarrow> \<forall>(k, v) \<in> set zs. k < 64" for c zs
      by (induction c zs rule: opts_ok.induct) auto
    with assms(2) show ?thesis by blast
  qed
  have q: "q\<lparr>cp_options := cp_options q\<rparr> = q" by simp
  have "apply_opts mal xs q = Some (Inr (r\<lparr>cp_options := marks (cp_options q) xs\<rparr>))"
    using apply_opts_reads [OF r b assms(1)] unfolding q .
  then have "coap_parse_loop mal 0 (enc_opts 0 (xs @ [(n, v)]) @ rest) q =
      coap_parse_loop mal (last_num 0 xs) (enc_opts (last_num 0 xs) [(n, v)] @ rest)
        (r\<lparr>cp_options := marks (cp_options q) xs\<rparr>)"
    using parse_loop_opts [OF assms(2), of mal "enc_opts (last_num 0 xs) [(n, v)] @ rest" q]
    by (simp add: enc_opts_append)
  also have "\<dots> = None"
  proof -
    have "\<forall>x \<in> set xs. fst x < 64" using b by auto
    then have "last_num 0 xs < 64" using last_in_set [of xs] by (simp add: last_num_def)
    then have "last_num 0 xs \<le> n" using assms(4) by simp
    then have "unat (n - last_num 0 xs) \<le> 65804" using assms(5) by (simp add: unat_sub_id)
    from parse_loop_option [OF this assms(6), of mal rest] show ?thesis
      using assms(1,4) by (simp add: SET_OPTION_range)
  qed
  finally show ?thesis .
qed

lemma coap_sent:
  assumes "coap_ok p" and "mal 12 \<noteq> None"
    and "length (coap_bytes p) \<le> length buf" and "length buf < 2 ^ 32"
  shows "\<exists>len p' buf' q. coap_serialize_message p buf = Some (len, p', buf') \<and>
     take (unat len) buf' = coap_bytes p \<and>
     coap_parse_message mal (take (unat len) buf') = Some (COAP_NO_ERROR, q) \<and> same_message p q"
proof -
  have "unat (of_nat (length (coap_bytes p)) :: u32) = length (coap_bytes p)"
    using assms(3,4) by (intro unat_of_nat_id) simp
  then show ?thesis
    using coap_serialize_bytes [OF assms(1,3)] coap_parse_bytes [where mal = mal, OF assms(2,1)]
      coap_received_same [OF assms(1)] by simp
qed

section \<open>Properties\<close>

text \<open>C1. A packet the client builds, serialized into a buffer that is large enough, fills the
  front of the buffer with a datagram that the parser accepts, and the parsed packet is the same
  message: type, code, message id, token, payload, and every option with its value.\<close>

theorem coap_message_roundtrip:
  assumes "coap_ok p" and "mal 12 \<noteq> None"
    and "length (coap_bytes p) \<le> length buf" and "length buf < 2 ^ 32"
  shows "\<exists>len p' buf' q.
     coap_serialize_message p buf = Some (len, p', buf') \<and> length buf' = length buf \<and>
     drop (unat len) buf' = drop (unat len) buf \<and>
     coap_parse_message mal (take (unat len) buf') = Some (COAP_NO_ERROR, q) \<and> same_message p q"
proof -
  have "unat (of_nat (length (coap_bytes p)) :: u32) = length (coap_bytes p)"
    using assms(3,4) by (intro unat_of_nat_id) simp
  then show ?thesis
    using coap_serialize_bytes [OF assms(1,3)] coap_parse_bytes [where mal = mal, OF assms(2,1)]
      coap_received_same [OF assms(1)] assms(3) by simp
qed

text \<open>A GET of \<open>/rd\<close> with a token, Observe, Block2 and a two-byte payload.\<close>

definition example_packet :: coap_packet where
  "example_packet = coap_zero\<lparr>
     cp_code := 1, cp_mid := 0x1234, cp_token_len := 2, cp_token := [7, 8, 0, 0, 0, 0, 0, 0],
     cp_options := [0x40, 0x08, 0x80, 0, 0, 0, 0, 0], cp_observe := 300,
     cp_uri_path := [\<lparr>mo_is_static = False, mo_len = 2, mo_data = [0x72, 0x64]\<rparr>],
     cp_block2_num := 3, cp_block2_more := 1, cp_block2_size := 64,
     cp_payload_len := 2, cp_payload := Some [1, 2]\<rparr>"

lemma example_packet_ok: "coap_ok example_packet"
proof -
  have "block_ok 3 64" by (auto simp: block_ok_def intro!: exI [of _ 2])
  then show ?thesis
    by (simp add: coap_ok_def example_packet_def coap_zero_def multi_ok_def IS_OPTION_def)
qed

theorem coap_message_roundtrip_witness:
  "\<exists>len p' buf' q.
     coap_serialize_message example_packet (replicate 200 0) = Some (len, p', buf') \<and>
     length buf' = length (replicate 200 (0 :: u8)) \<and>
     drop (unat len) buf' = drop (unat len) (replicate 200 0) \<and>
     coap_parse_message (\<lambda>n. Some []) (take (unat len) buf') = Some (COAP_NO_ERROR, q) \<and>
     same_message example_packet q"
proof (rule coap_message_roundtrip [OF example_packet_ok])
  have "length (coap_bytes example_packet) \<le> 4 + 2 + length (enc_opts 0 (coap_opts example_packet)) + 3"
    by (simp add: coap_bytes_def example_packet_def coap_payload_def)
  moreover have "coap_opts example_packet =
      [(COAP_OPTION_OBSERVE, int_option_bytes 300), (COAP_OPTION_URI_PATH, [0x72, 0x64]),
       (COAP_OPTION_BLOCK2, int_option_bytes (block_value 3 1 64))]"
    by (simp add: coap_opts_def opt_if_def multi_if_def accepts_def example_packet_def coap_zero_def IS_OPTION_def)
  then have "length (enc_opts 0 (coap_opts example_packet)) \<le> 40"
    using length_int_option [of 300] length_int_option [of "block_value 3 1 64"]
    by (simp add: coap_set_option_header_def option_extension_def)
  ultimately show "length (coap_bytes example_packet) \<le> length (replicate 200 (0 :: u8))" by simp
qed simp_all

text \<open>An unknown critical option (odd number) is answered with \<open>4.02 Bad Option\<close> wherever it
  stands in the datagram: the options before it have been taken, nothing after it is.\<close>

theorem coap_parse_bad_option:
  assumes "opts_ok 0 (xs @ (n, v) # ys)" and "reads mal xs (plain_start code m1 m2) q"
    and "\<not> known_option n" and "n AND 1 \<noteq> 0"
  shows "coap_parse_message mal (0x40 # code # m1 # m2 # enc_opts 0 (xs @ (n, v) # ys) @ tail) =
    Some (COAP_402_BAD_OPTION, q\<lparr>cp_options := marks (replicate 8 0) (xs @ [(n, v)])\<rparr>)"
  using assms by (rule parse_unknown_critical)

text \<open>C37. The option bitmap has 8 bytes and the parser sets the bit of every option number it meets: an
  option with a number from 64 to 65804, with any value of up to 65804 bytes, behind any options that the
  parser passes and any token, makes it write behind the bitmap.\<close>

theorem coap_parse_bitmap_overflow:
  assumes "drop_bit 6 (h AND 0xC0) = 1" and "h AND 0x0F \<le> 8" and "length tok = unat (h AND 0x0F)"
    and "opts_ok 0 xs" and "list_all (\<lambda>(k, v). passed_option k) xs"
    and "64 \<le> n" and "unat n \<le> 65804" and "length v \<le> 65804"
  shows "coap_parse_message mal (h # code # m1 # m2 # tok @ enc_opts 0 (xs @ [(n, v)]) @ rest) = None"
  using parse_start [OF assms(1-3), of mal code m1 m2] parse_overflow [OF _ assms(4-8)] by auto

theorem coap_parse_bitmap_overflow_witness:
  "coap_parse_message (\<lambda>n. Some [])
     (0x41 # 1 # 0 # 5 # [9] @ enc_opts 0 ([(COAP_OPTION_OBSERVE, [])] @ [(300, [1, 2])]) @ []) = None"
  by (rule coap_parse_bitmap_overflow) (simp_all add: passed_option_def)

text \<open>C36. \<open>coap_serialize_get_size\<close> does not count the payload marker: for a packet with a payload and no
  options the size it returns is exactly one byte short. A buffer of that size is written over its
  end, one of a byte more is filled.\<close>

theorem coap_get_size_too_small:
  assumes "coap_ok p" and "list_all (\<lambda>n. \<not> IS_OPTION p n) wire_options"
    and "cp_payload_len p \<noteq> 0" and "length buf = unat (coap_serialize_get_size p)"
  shows "coap_serialize_message p buf = None \<and>
    (\<exists>len p' buf'. coap_serialize_message p (buf @ [b]) = Some (len, p', buf') \<and>
       unat len = length buf + 1 \<and> length buf' = length buf + 1)"
proof
  note l = get_size_short [OF assms(1-3)]
  show "coap_serialize_message p buf = None" using l assms(1,4) by (intro coap_serialize_overrun) simp_all
  have "unat (coap_serialize_get_size p) = 4 + unat (cp_payload_len p) + unat (cp_token_len p)"
    using l no_options_length [OF assms(1-3)] by simp
  then have "unat (of_nat (length (coap_bytes p)) :: u32) = length (coap_bytes p)"
    using coap_ok_basic(2) [OF assms(1)] unat_u16_less [of "cp_payload_len p"] l
    by (intro unat_of_nat_id) (simp del: unat_u16_less)
  then show "\<exists>len p' buf'. coap_serialize_message p (buf @ [b]) = Some (len, p', buf') \<and>
       unat len = length buf + 1 \<and> length buf' = length buf + 1"
    using coap_serialize_bytes [OF assms(1), of "buf @ [b]"] l assms(4) by simp
qed

theorem coap_get_size_too_small_witness:
  "coap_serialize_message (coap_zero\<lparr>cp_payload_len := 1, cp_payload := Some [5]\<rparr>) (replicate 5 0) = None \<and>
    (\<exists>len p' buf'. coap_serialize_message (coap_zero\<lparr>cp_payload_len := 1, cp_payload := Some [5]\<rparr>)
         (replicate 5 0 @ [0]) = Some (len, p', buf') \<and>
       unat len = length (replicate 5 (0 :: u8)) + 1 \<and> length buf' = length (replicate 5 (0 :: u8)) + 1)"
proof (rule coap_get_size_too_small)
  show "list_all (\<lambda>n. \<not> IS_OPTION (coap_zero\<lparr>cp_payload_len := 1, cp_payload := Some [5]\<rparr>) n) wire_options"
    by (simp add: IS_OPTION_def wire_options_def coap_zero_def)
  show "coap_ok (coap_zero\<lparr>cp_payload_len := 1, cp_payload := Some [5]\<rparr>)"
    by (simp add: coap_ok_def IS_OPTION_def coap_zero_def multi_ok_def)
  show "length (replicate 5 0) = unat (coap_serialize_get_size (coap_zero\<lparr>cp_payload_len := 1, cp_payload := Some [5]\<rparr>))"
    by (simp add: coap_serialize_get_size_def opt_size_def IS_OPTION_def coap_zero_def)
qed simp

end
