(* ===== verification/Coap_Headers.thy ===== *)
theory Coap_Headers
  imports Coap_Contract
begin

text \<open>
  \<open>er-coap-13.c\<close>: the getters and setters of the header options and the payload. A setter gives
  its return value and the packet. A getter gives its return value and what it stores through
  its pointer argument, \<open>None\<close> when it stores nothing. A C string is the list of its bytes; the
  string ends at the first zero byte or at the end of the list.
\<close>

definition c_string :: "bytes \<Rightarrow> bytes" where
  "c_string s = takeWhile (\<lambda>c. c \<noteq> 0) s"

definition coap_set_status_code :: "coap_packet \<Rightarrow> u32 \<Rightarrow> int \<times> coap_packet" where
  "coap_set_status_code pkt code =
     (if code \<le> 0xFF then (1, pkt\<lparr>cp_code := ucast code\<rparr>) else (0, pkt))"

definition with_option :: "coap_packet \<Rightarrow> u32 \<Rightarrow> int \<Rightarrow> (int \<times> coap_packet) option" where
  "with_option pkt number result = map_option (Pair result) (SET_OPTION pkt number)"

section \<open>Numbers\<close>

definition coap_get_header_content_type :: "coap_packet \<Rightarrow> int" where
  "coap_get_header_content_type pkt =
     (if \<not> IS_OPTION pkt COAP_OPTION_CONTENT_TYPE then -1 else sint (cp_content_type pkt))"

definition coap_set_header_content_type :: "coap_packet \<Rightarrow> u32 \<Rightarrow> (int \<times> coap_packet) option" where
  "coap_set_header_content_type pkt content_type =
     with_option (pkt\<lparr>cp_content_type := content_type\<rparr>) COAP_OPTION_CONTENT_TYPE 1"

definition coap_get_header_accept :: "coap_packet \<Rightarrow> int \<times> u16 list option" where
  "coap_get_header_accept pkt =
     (if \<not> IS_OPTION pkt COAP_OPTION_ACCEPT then (0, None)
      else (uint (cp_accept_num pkt), Some (cp_accept pkt)))"

definition coap_set_header_accept :: "coap_packet \<Rightarrow> u16 \<Rightarrow> (int \<times> coap_packet) option" where
  "coap_set_header_accept pkt accept =
     (if cp_accept_num pkt < 2
      then do {
        as \<leftarrow> astore (cp_accept pkt) (unat (cp_accept_num pkt)) accept;
        with_option (pkt\<lparr>cp_accept := as, cp_accept_num := cp_accept_num pkt + 1\<rparr>)
          COAP_OPTION_ACCEPT (uint (cp_accept_num pkt + 1)) }
      else Some (uint (cp_accept_num pkt), pkt))"

definition coap_get_header_max_age :: "coap_packet \<Rightarrow> int \<times> u32" where
  "coap_get_header_max_age pkt =
     (1, if \<not> IS_OPTION pkt COAP_OPTION_MAX_AGE then 60 else cp_max_age pkt)"

definition coap_set_header_max_age :: "coap_packet \<Rightarrow> u32 \<Rightarrow> (int \<times> coap_packet) option" where
  "coap_set_header_max_age pkt age = with_option (pkt\<lparr>cp_max_age := age\<rparr>) COAP_OPTION_MAX_AGE 1"

definition coap_get_header_observe :: "coap_packet \<Rightarrow> int \<times> u32 option" where
  "coap_get_header_observe pkt =
     (if \<not> IS_OPTION pkt COAP_OPTION_OBSERVE then (0, None) else (1, Some (cp_observe pkt)))"

definition coap_set_header_observe :: "coap_packet \<Rightarrow> u32 \<Rightarrow> (int \<times> coap_packet) option" where
  "coap_set_header_observe pkt observe =
     with_option (pkt\<lparr>cp_observe := 0x00FFFFFF AND observe\<rparr>) COAP_OPTION_OBSERVE 1"

definition coap_get_header_size :: "coap_packet \<Rightarrow> int \<times> u32 option" where
  "coap_get_header_size pkt =
     (if \<not> IS_OPTION pkt COAP_OPTION_SIZE then (0, None) else (1, Some (cp_size pkt)))"

definition coap_set_header_size :: "coap_packet \<Rightarrow> u32 \<Rightarrow> (int \<times> coap_packet) option" where
  "coap_set_header_size pkt sz = with_option (pkt\<lparr>cp_size := sz\<rparr>) COAP_OPTION_SIZE 1"

definition coap_get_header_if_none_match :: "coap_packet \<Rightarrow> int" where
  "coap_get_header_if_none_match pkt = (if IS_OPTION pkt COAP_OPTION_IF_NONE_MATCH then 1 else 0)"

definition coap_set_header_if_none_match :: "coap_packet \<Rightarrow> (int \<times> coap_packet) option" where
  "coap_set_header_if_none_match pkt = with_option pkt COAP_OPTION_IF_NONE_MATCH 1"

section \<open>Opaque values of at most 8 bytes\<close>

text \<open>\<open>memcpy\<close> of the first \<open>MIN(8, length)\<close> bytes into an array of 8 bytes.\<close>

definition store8 :: "bytes \<Rightarrow> bytes \<Rightarrow> bytes" where
  "store8 old new = take 8 new @ drop (length (take 8 new)) old"

definition coap_get_header_etag :: "coap_packet \<Rightarrow> int \<times> bytes option" where
  "coap_get_header_etag pkt =
     (if \<not> IS_OPTION pkt COAP_OPTION_ETAG then (0, None)
      else (uint (cp_etag_len pkt), Some (cp_etag pkt)))"

definition coap_set_header_etag :: "coap_packet \<Rightarrow> bytes \<Rightarrow> (int \<times> coap_packet) option" where
  "coap_set_header_etag pkt etag =
     with_option (pkt\<lparr>cp_etag_len := min_len (length etag), cp_etag := store8 (cp_etag pkt) etag\<rparr>)
       COAP_OPTION_ETAG (uint (min_len (length etag)))"

definition coap_get_header_if_match :: "coap_packet \<Rightarrow> int \<times> bytes option" where
  "coap_get_header_if_match pkt =
     (if \<not> IS_OPTION pkt COAP_OPTION_IF_MATCH then (0, None)
      else (uint (cp_if_match_len pkt), Some (cp_if_match pkt)))"

definition coap_set_header_if_match :: "coap_packet \<Rightarrow> bytes \<Rightarrow> (int \<times> coap_packet) option" where
  "coap_set_header_if_match pkt etag =
     with_option (pkt\<lparr>cp_if_match_len := min_len (length etag),
                      cp_if_match := store8 (cp_if_match pkt) etag\<rparr>)
       COAP_OPTION_IF_MATCH (uint (min_len (length etag)))"

definition coap_get_header_token :: "coap_packet \<Rightarrow> int \<times> bytes option" where
  "coap_get_header_token pkt =
     (if \<not> IS_OPTION pkt COAP_OPTION_TOKEN then (0, None)
      else (uint (cp_token_len pkt), Some (cp_token pkt)))"

definition coap_set_header_token :: "coap_packet \<Rightarrow> bytes \<Rightarrow> (int \<times> coap_packet) option" where
  "coap_set_header_token pkt token =
     with_option (pkt\<lparr>cp_token_len := min_len (length token), cp_token := store8 (cp_token pkt) token\<rparr>)
       COAP_OPTION_TOKEN (uint (min_len (length token)))"

section \<open>Strings\<close>

definition coap_get_header_proxy_uri :: "coap_packet \<Rightarrow> int \<times> bytes option" where
  "coap_get_header_proxy_uri pkt =
     (if \<not> IS_OPTION pkt COAP_OPTION_PROXY_URI then (0, None)
      else (int (length (cp_proxy_uri pkt)), Some (cp_proxy_uri pkt)))"

definition coap_set_header_proxy_uri :: "coap_packet \<Rightarrow> bytes \<Rightarrow> (int \<times> coap_packet) option" where
  "coap_set_header_proxy_uri pkt uri =
     with_option (pkt\<lparr>cp_proxy_uri := c_string uri\<rparr>) COAP_OPTION_PROXY_URI (int (length (c_string uri)))"

definition coap_get_header_uri_host :: "coap_packet \<Rightarrow> int \<times> bytes option" where
  "coap_get_header_uri_host pkt =
     (if \<not> IS_OPTION pkt COAP_OPTION_URI_HOST then (0, None)
      else (int (length (cp_uri_host pkt)), Some (cp_uri_host pkt)))"

definition coap_set_header_uri_host :: "coap_packet \<Rightarrow> bytes \<Rightarrow> (int \<times> coap_packet) option" where
  "coap_set_header_uri_host pkt host =
     with_option (pkt\<lparr>cp_uri_host := c_string host\<rparr>) COAP_OPTION_URI_HOST (int (length (c_string host)))"

definition coap_set_header_auth_code :: "coap_packet \<Rightarrow> bytes \<Rightarrow> (int \<times> coap_packet) option" where
  "coap_set_header_auth_code pkt code =
     with_option (pkt\<lparr>cp_auth_code := c_string code\<rparr>) COAP_OPTION_AUTH_CODE (int (length (c_string code)))"

definition coap_get_header_location_query :: "coap_packet \<Rightarrow> int \<times> bytes option" where
  "coap_get_header_location_query pkt =
     (if \<not> IS_OPTION pkt COAP_OPTION_LOCATION_QUERY then (0, None)
      else (int (length (cp_location_query pkt)), Some (cp_location_query pkt)))"

definition coap_set_header_location_query :: "coap_packet \<Rightarrow> bytes \<Rightarrow> (int \<times> coap_packet) option" where
  "coap_set_header_location_query pkt query =
     (let query = c_string (dropWhile (\<lambda>c. c = 0x3F) query) in
      with_option (pkt\<lparr>cp_location_query := query\<rparr>) COAP_OPTION_LOCATION_QUERY (int (length query)))"

section \<open>Lists of segments\<close>

text \<open>
  The \<open>do ... while\<close> loop of the path and query setters: it cuts at \<open>sep\<close> and appends each
  segment. A trailing separator adds no segment.
\<close>

definition segment_length :: "u8 \<Rightarrow> bytes \<Rightarrow> nat" where
  "segment_length sep path = length (takeWhile (\<lambda>c. c \<noteq> 0 \<and> c \<noteq> sep) path)"

definition segment_step :: "u8 \<Rightarrow> bytes \<Rightarrow> nat" where
  "segment_step sep path =
     (let i = segment_length sep path in
      if i < length path \<and> path ! i = sep then i + 1 else i)"

lemma segment_step_pos: "path \<noteq> [] \<Longrightarrow> hd path \<noteq> 0 \<Longrightarrow> 0 < segment_step sep path"
  by (cases path) (auto simp: segment_step_def segment_length_def Let_def)

definition at_end :: "bytes \<Rightarrow> bool" where
  "at_end path \<longleftrightarrow> path = [] \<or> hd path = 0"

function coap_split_loop ::
  "(u32 \<Rightarrow> bytes option) \<Rightarrow> u8 \<Rightarrow> bytes \<Rightarrow> int \<Rightarrow> multi_option list \<Rightarrow> int \<times> multi_option list" where
  "coap_split_loop mal sep path len opts =
     (let opts = coap_add_multi_option mal opts (take (segment_length sep path) path) False;
          i = segment_step sep path; path' = drop i path
      in if at_end path' then (len + int i, opts)
         else coap_split_loop mal sep path' (len + int i) opts)"
  by pat_completeness auto
termination
proof (relation "measure (\<lambda>(mal, sep, path, len, opts). length path)")
  fix mal sep path len opts x xa xb
  assume "xa = segment_step sep path" "xb = drop xa path" "\<not> at_end xb"
  then show "((mal, sep, xb, len + int xa, x), mal, sep, path, len, opts)
      \<in> measure (\<lambda>(mal, sep, path, len, opts). length path)"
    using segment_step_pos [of path sep]
    by (cases "segment_step sep path = 0") (auto simp: at_end_def)
qed simp

declare coap_split_loop.simps [simp del]

definition skip_first :: "u8 \<Rightarrow> bytes \<Rightarrow> bytes" where
  "skip_first c path = (if path \<noteq> [] \<and> hd path = c then tl path else path)"

definition coap_set_header_uri_path ::
  "(u32 \<Rightarrow> bytes option) \<Rightarrow> coap_packet \<Rightarrow> bytes \<Rightarrow> (int \<times> coap_packet) option" where
  "coap_set_header_uri_path mal pkt path =
     (let (len, opts) = coap_split_loop mal 0x2F (skip_first 0x2F path) 0 [] in
      with_option (pkt\<lparr>cp_uri_path := opts\<rparr>) COAP_OPTION_URI_PATH len)"

definition coap_get_header_uri_path :: "coap_packet \<Rightarrow> int" where
  "coap_get_header_uri_path pkt = 0"

text \<open>\<open>None\<close> is the null pointer.\<close>

definition coap_set_header_uri_path_segment ::
  "(u32 \<Rightarrow> bytes option) \<Rightarrow> coap_packet \<Rightarrow> bytes option \<Rightarrow> (int \<times> coap_packet) option" where
  "coap_set_header_uri_path_segment mal pkt segment =
     (case segment of
        None \<Rightarrow> with_option (pkt\<lparr>cp_uri_path := coap_add_multi_option mal (cp_uri_path pkt) [] True\<rparr>)
                  COAP_OPTION_URI_PATH 0
      | Some s \<Rightarrow>
          if at_end s
          then with_option (pkt\<lparr>cp_uri_path := coap_add_multi_option mal (cp_uri_path pkt) [] True\<rparr>)
                 COAP_OPTION_URI_PATH 0
          else with_option
                 (pkt\<lparr>cp_uri_path := coap_add_multi_option mal (cp_uri_path pkt) (c_string s) False\<rparr>)
                 COAP_OPTION_URI_PATH (int (length (c_string s))))"

definition coap_set_header_uri_query ::
  "(u32 \<Rightarrow> bytes option) \<Rightarrow> coap_packet \<Rightarrow> bytes \<Rightarrow> (int \<times> coap_packet) option" where
  "coap_set_header_uri_query mal pkt query =
     (let (len, opts) = coap_split_loop mal 0x26 (skip_first 0x3F query) 0 [] in
      with_option (pkt\<lparr>cp_uri_query := opts\<rparr>) COAP_OPTION_URI_QUERY len)"

definition coap_set_header_location_path ::
  "(u32 \<Rightarrow> bytes option) \<Rightarrow> coap_packet \<Rightarrow> bytes \<Rightarrow> (int \<times> coap_packet) option" where
  "coap_set_header_location_path mal pkt path =
     (let (len, opts) = coap_split_loop mal 0x2F (skip_first 0x2F path) 0 [] in
      with_option (pkt\<lparr>cp_location_path := opts\<rparr>) COAP_OPTION_LOCATION_PATH len)"

section \<open>Blocks and payload\<close>

definition coap_get_header_block2 :: "coap_packet \<Rightarrow> int \<times> (u32 \<times> u8 \<times> u16 \<times> u32) option" where
  "coap_get_header_block2 pkt =
     (if \<not> IS_OPTION pkt COAP_OPTION_BLOCK2 then (0, None)
      else (1, Some (cp_block2_num pkt, cp_block2_more pkt, cp_block2_size pkt, cp_block2_offset pkt)))"

definition coap_set_header_block2 ::
  "coap_packet \<Rightarrow> u32 \<Rightarrow> u8 \<Rightarrow> u16 \<Rightarrow> (int \<times> coap_packet) option" where
  "coap_set_header_block2 pkt num more_flag sz =
     (if sz < 16 \<or> 2048 < sz \<or> 0x0FFFFF < num then Some (0, pkt)
      else with_option (pkt\<lparr>cp_block2_num := num, cp_block2_more := (if more_flag \<noteq> 0 then 1 else 0),
                            cp_block2_size := sz\<rparr>) COAP_OPTION_BLOCK2 1)"

definition coap_get_header_block1 :: "coap_packet \<Rightarrow> int \<times> (u32 \<times> u8 \<times> u16 \<times> u32) option" where
  "coap_get_header_block1 pkt =
     (if \<not> IS_OPTION pkt COAP_OPTION_BLOCK1 then (0, None)
      else (1, Some (cp_block1_num pkt, cp_block1_more pkt, cp_block1_size pkt, cp_block1_offset pkt)))"

definition coap_set_header_block1 ::
  "coap_packet \<Rightarrow> u32 \<Rightarrow> u8 \<Rightarrow> u16 \<Rightarrow> (int \<times> coap_packet) option" where
  "coap_set_header_block1 pkt num more_flag sz =
     (if sz < 16 \<or> 2048 < sz \<or> 0x0FFFFF < num then Some (0, pkt)
      else with_option (pkt\<lparr>cp_block1_num := num, cp_block1_more := more_flag, cp_block1_size := sz\<rparr>)
             COAP_OPTION_BLOCK1 1)"

definition coap_get_payload :: "coap_packet \<Rightarrow> int \<times> bytes option" where
  "coap_get_payload pkt =
     (case cp_payload pkt of None \<Rightarrow> (0, None) | Some p \<Rightarrow> (uint (cp_payload_len pkt), Some p))"

text \<open>\<open>payload\<close> may be the null pointer; its length is an argument of its own.\<close>

definition coap_set_payload :: "coap_packet \<Rightarrow> bytes option \<Rightarrow> u32 \<Rightarrow> int \<times> coap_packet" where
  "coap_set_payload pkt payload len =
     (uint (ucast len :: u16), pkt\<lparr>cp_payload := payload, cp_payload_len := ucast len\<rparr>)"

section \<open>Interface: an option as the receiver reads it\<close>

text \<open>
  A getter that depends on the bit of its option and, when it is set, on what the option carries:
  such a getter gives the receiver what it gives the sender.
\<close>

locale wire_getter =
  fixes number :: u32 and get :: "coap_packet \<Rightarrow> 'a"
  assumes on_wire: "number \<in> set wire_options"
    and unset: "\<not> IS_OPTION p number \<Longrightarrow> \<not> IS_OPTION q number \<Longrightarrow> get p = get q"
    and carried: "IS_OPTION p number \<Longrightarrow> IS_OPTION q number \<Longrightarrow> same_option p q number \<Longrightarrow> get q = get p"
begin

lemma received:
  assumes "same_message p q"
  shows "get q = get p"
proof -
  have w: "IS_OPTION q number = IS_OPTION p number" "IS_OPTION p number \<Longrightarrow> same_option p q number"
    using assms on_wire by (auto simp: same_message_def list_all_iff)
  show ?thesis
  proof (cases "IS_OPTION p number")
    case True
    with w show ?thesis by (intro carried) simp_all
  next
    case False
    with w show ?thesis by (intro unset) simp_all
  qed
qed

end

definition opaque_value :: "int \<times> bytes option \<Rightarrow> bytes option" where
  "opaque_value r = map_option (take (nat (fst r))) (snd r)"

definition accept_values :: "int \<times> u16 list option \<Rightarrow> u16 list option" where
  "accept_values r = map_option (take (nat (fst r))) (snd r)"

definition block_fields_of :: "int \<times> (u32 \<times> u8 \<times> u16 \<times> u32) option \<Rightarrow> (u32 \<times> bool \<times> u16) option" where
  "block_fields_of r = map_option (\<lambda>(num, more_flag, sz, offset). (num, more_flag \<noteq> 0, sz)) (snd r)"

interpretation content_type_wire: wire_getter COAP_OPTION_CONTENT_TYPE coap_get_header_content_type
  by unfold_locales (simp_all add: wire_options_def coap_get_header_content_type_def same_option_def)

interpretation accept_wire: wire_getter COAP_OPTION_ACCEPT "accept_values \<circ> coap_get_header_accept"
  by unfold_locales
    (auto simp: wire_options_def coap_get_header_accept_def accept_values_def same_option_def)

interpretation max_age_wire: wire_getter COAP_OPTION_MAX_AGE coap_get_header_max_age
  by unfold_locales (simp_all add: wire_options_def coap_get_header_max_age_def same_option_def)

interpretation observe_wire: wire_getter COAP_OPTION_OBSERVE coap_get_header_observe
  by unfold_locales (simp_all add: wire_options_def coap_get_header_observe_def same_option_def)

interpretation size_wire: wire_getter COAP_OPTION_SIZE coap_get_header_size
  by unfold_locales (simp_all add: wire_options_def coap_get_header_size_def same_option_def)

interpretation if_none_match_wire: wire_getter COAP_OPTION_IF_NONE_MATCH coap_get_header_if_none_match
  by unfold_locales (simp_all add: wire_options_def coap_get_header_if_none_match_def)

interpretation etag_wire: wire_getter COAP_OPTION_ETAG "opaque_value \<circ> coap_get_header_etag"
  by unfold_locales
    (auto simp: wire_options_def coap_get_header_etag_def opaque_value_def same_option_def)

interpretation if_match_wire: wire_getter COAP_OPTION_IF_MATCH "opaque_value \<circ> coap_get_header_if_match"
  by unfold_locales
    (auto simp: wire_options_def coap_get_header_if_match_def opaque_value_def same_option_def)

interpretation uri_host_wire: wire_getter COAP_OPTION_URI_HOST coap_get_header_uri_host
  by unfold_locales (simp_all add: wire_options_def coap_get_header_uri_host_def same_option_def)

interpretation block2_wire: wire_getter COAP_OPTION_BLOCK2 "block_fields_of \<circ> coap_get_header_block2"
  by unfold_locales
    (simp_all add: wire_options_def coap_get_header_block2_def block_fields_of_def same_option_def)

interpretation block1_wire: wire_getter COAP_OPTION_BLOCK1 "block_fields_of \<circ> coap_get_header_block1"
  by unfold_locales
    (simp_all add: wire_options_def coap_get_header_block1_def block_fields_of_def same_option_def)

end
