(* ===== verification/Coap_Client.thy ===== *)
theory Coap_Client
  imports Coap_Headers
begin

text \<open>
  The contract of the header functions of \<open>er-coap-13.c\<close>: how the path setters cut a string into
  segments, that every packet built with the setters is one the codec delivers, and that the
  getters of the receiver give what those of the sender give.
\<close>

section \<open>Cutting a path into segments\<close>

fun join_with :: "u8 \<Rightarrow> bytes list \<Rightarrow> bytes" where
  "join_with c [] = []"
| "join_with c [s] = s"
| "join_with c (s # ss) = s @ c # join_with c ss"

lemma join_with_Cons: "ss \<noteq> [] \<Longrightarrow> join_with c (s # ss) = s @ c # join_with c ss"
  by (cases ss) simp_all

text \<open>The segments the loop cuts off, in order.\<close>

function segments :: "u8 \<Rightarrow> bytes \<Rightarrow> bytes list" where
  "segments sep path =
     (let seg = take (segment_length sep path) path; path' = drop (segment_step sep path) path
      in if at_end path' then [seg] else seg # segments sep path')"
  by pat_completeness auto
termination
proof (relation "measure (\<lambda>(sep, path). length path)")
  fix sep path x xa
  assume "xa = drop (segment_step sep path) path" "\<not> at_end xa"
  then show "((sep, xa), sep, path) \<in> measure (\<lambda>(sep, path). length path)"
    using segment_step_pos [of path sep]
    by (cases "segment_step sep path = 0") (auto simp: at_end_def)
qed simp

declare segments.simps [simp del]

lemma segments_ne [simp]: "segments sep path \<noteq> []"
  by (subst segments.simps) (simp add: Let_def)

definition node :: "bytes \<Rightarrow> multi_option" where
  "node s = \<lparr>mo_is_static = False, mo_len = of_nat (length s), mo_data = s\<rparr>"

definition mallocs :: "(u32 \<Rightarrow> bytes option) \<Rightarrow> bool" where
  "mallocs mal \<longleftrightarrow> (\<forall>n. mal n \<noteq> None)"

lemma add_node: "mallocs mal \<Longrightarrow> coap_add_multi_option mal ms s False = ms @ [node s]"
  by (auto simp: mallocs_def coap_add_multi_option_def node_def split: option.split)

lemma segment_split:
  assumes "0 \<notin> set path" and "sep \<noteq> 0"
  shows "at_end (drop (segment_step sep path) path) \<Longrightarrow>
      path = take (segment_length sep path) path \<or> path = take (segment_length sep path) path @ [sep]"
    and "\<not> at_end (drop (segment_step sep path) path) \<Longrightarrow>
      path = take (segment_length sep path) path @ sep # drop (segment_step sep path) path"
    and "sep \<notin> set (take (segment_length sep path) path)"
    and "segment_step sep path \<le> length path"
proof -
  define s where "s = takeWhile (\<lambda>c. c \<noteq> 0 \<and> c \<noteq> sep) path"
  define r where "r = dropWhile (\<lambda>c. c \<noteq> 0 \<and> c \<noteq> sep) path"
  have p: "path = s @ r" by (simp add: s_def r_def)
  have nz: "0 \<notin> set r" using assms(1) by (simp add: p)
  have r: "r = [] \<or> hd r = sep"
  proof (cases r)
    case (Cons a rs)
    have "\<not> (a \<noteq> 0 \<and> a \<noteq> sep)"
      using Cons unfolding r_def dropWhile_eq_Cons_conv by simp
    then show ?thesis using nz Cons by simp
  qed simp
  have l: "segment_length sep path = length s" by (simp add: segment_length_def s_def)
  have t: "take (segment_length sep path) path = s" by (simp only: l) (simp add: p)
  show "sep \<notin> set (take (segment_length sep path) path)"
    unfolding t s_def by (auto dest: set_takeWhileD)
  have st: "segment_step sep path = (if r = [] then length s else length s + 1)"
    using r unfolding segment_step_def l Let_def by (cases r) (simp_all add: p)
  have dr: "drop (segment_step sep path) path = tl r"
    unfolding st by (cases r) (simp_all add: p)
  have e: "at_end (tl r) \<Longrightarrow> r = [] \<or> r = [sep]"
    using r nz by (cases r; cases "tl r") (auto simp: at_end_def)
  show "at_end (drop (segment_step sep path) path) \<Longrightarrow>
      path = take (segment_length sep path) path \<or> path = take (segment_length sep path) path @ [sep]"
    unfolding dr t using e by (auto simp: p)
  have "\<not> at_end (tl r) \<Longrightarrow> path = s @ sep # tl r"
    using r by (cases r) (auto simp: at_end_def p)
  then show "\<not> at_end (drop (segment_step sep path) path) \<Longrightarrow>
      path = take (segment_length sep path) path @ sep # drop (segment_step sep path) path"
    unfolding dr t .
  show "segment_step sep path \<le> length path"
    unfolding st by (cases r) (simp_all add: p)
qed

lemma split_loop_segments:
  assumes "mallocs mal" and "0 \<notin> set path" and "sep \<noteq> 0"
  shows "coap_split_loop mal sep path len ms =
    (len + int (length path), ms @ map node (segments sep path))"
  using assms(2,3)
proof (induction sep path arbitrary: len ms rule: segments.induct)
  case (1 sep path)
  let ?p = "drop (segment_step sep path) path"
  note split = segment_split [OF "1.prems"]
  have nz: "0 \<notin> set ?p" using "1.prems"(1) in_set_dropD by metis
  show ?case
  proof (cases "at_end ?p")
    case True
    then have "?p = []" using nz by (cases ?p) (auto simp: at_end_def)
    with split(4) have "segment_step sep path = length path" by (intro le_antisym) (simp_all del: drop_eq_Nil add: drop_eq_Nil [symmetric])
    with True show ?thesis
      by (subst coap_split_loop.simps, subst segments.simps) (simp add: Let_def add_node assms(1))
  next
    case False
    have "coap_split_loop mal sep path len ms = coap_split_loop mal sep ?p (len + int (segment_step sep path))
        (ms @ [node (take (segment_length sep path) path)])"
      using False by (subst coap_split_loop.simps) (simp add: Let_def add_node assms(1))
    also have "\<dots> = (len + int (length path), ms @ map node (segments sep path))"
      using "1.IH" [OF refl refl False nz "1.prems"(2)] False split(4)
      by (subst segments.simps [of sep path]) (simp add: Let_def of_nat_diff)
    finally show ?thesis .
  qed
qed

lemma segments_join:
  assumes "0 \<notin> set path" and "sep \<noteq> 0"
  shows "(join_with sep (segments sep path) = path \<or> join_with sep (segments sep path) @ [sep] = path) \<and>
    (\<forall>s \<in> set (segments sep path). sep \<notin> set s)"
  using assms
proof (induction sep path rule: segments.induct)
  case (1 sep path)
  let ?p = "drop (segment_step sep path) path" and ?s = "take (segment_length sep path) path"
  note split = segment_split [OF "1.prems"]
  have nz: "0 \<notin> set ?p" using "1.prems"(1) in_set_dropD by metis
  show ?case
  proof (cases "at_end ?p")
    case True
    then have "segments sep path = [?s]" by (subst segments.simps) (simp add: Let_def)
    then show ?thesis using split(1) [OF True] split(3)
      by (metis empty_iff join_with.simps(2) list.set(1) set_ConsD)
  next
    case False
    then have "segments sep path = ?s # segments sep ?p" by (subst segments.simps) (simp add: Let_def)
    moreover note "1.IH" [OF refl refl False nz "1.prems"(2)] split(2) [OF False] split(3)
    ultimately show ?thesis
      by (auto simp: join_with_Cons)
  qed
qed
section \<open>Packets built with the setters\<close>

lemma with_option_in:
  "length (cp_options p) = 8 \<Longrightarrow> n < 64 \<Longrightarrow>
   with_option p n r = Some (r, p\<lparr>cp_options := mark (cp_options p) n\<rparr>)"
  by (simp add: with_option_def SET_OPTION_mark)

text \<open>\<open>coap_ok\<close> with the bits of the bitmap as a parameter.\<close>

definition fields_ok :: "coap_packet \<Rightarrow> (u32 \<Rightarrow> bool) \<Rightarrow> bool" where
  "fields_ok p has \<longleftrightarrow>
     length (cp_if_match p) = 8 \<and> length (cp_etag p) = 8 \<and>
     length (cp_token p) = 8 \<and> length (cp_accept p) = 2 \<and>
     cp_if_match_len p \<le> 8 \<and> cp_etag_len p \<le> 8 \<and> cp_token_len p \<le> 8 \<and>
     length (cp_uri_host p) \<le> 65804 \<and> length (cp_auth_code p) \<le> 65804 \<and>
     multi_ok (cp_location_path p) \<and> multi_ok (cp_uri_path p) \<and> multi_ok (cp_uri_query p) \<and>
     (has COAP_OPTION_LOCATION_PATH \<longrightarrow> cp_location_path p \<noteq> []) \<and>
     (has COAP_OPTION_URI_PATH \<longrightarrow> cp_uri_path p \<noteq> []) \<and>
     (has COAP_OPTION_URI_QUERY \<longrightarrow> cp_uri_query p \<noteq> []) \<and>
     (has COAP_OPTION_ACCEPT \<longrightarrow> 1 \<le> cp_accept_num p \<and> cp_accept_num p \<le> 2) \<and>
     \<not> has COAP_OPTION_LOCATION_QUERY \<and> \<not> has COAP_OPTION_PROXY_URI \<and>
     (has COAP_OPTION_BLOCK2 \<longrightarrow> block_ok (cp_block2_num p) (cp_block2_size p)) \<and>
     (has COAP_OPTION_BLOCK1 \<longrightarrow> block_ok (cp_block1_num p) (cp_block1_size p)) \<and>
     (cp_payload_len p \<noteq> 0 \<longrightarrow> (\<exists>d. cp_payload p = Some d \<and> length d = unat (cp_payload_len p)))"

lemma coap_ok_fields:
  "coap_ok p \<longleftrightarrow> length (cp_options p) = 8 \<and> fields_ok p (marked (cp_options p))"
  unfolding coap_ok_def fields_ok_def by (simp add: IS_OPTION_marked cong: conj_cong)

lemma fields_ok_bits:
  assumes "fields_ok p has" and "\<And>n. n < 64 \<Longrightarrow> has' n = has n"
  shows "fields_ok p has'"
  using assms(1) by (simp add: fields_ok_def assms(2))

lemma with_option_ok:
  assumes "with_option p n v = Some (r, q)" and "length (cp_options p) = 8" and "n < 64"
    and "fields_ok p (\<lambda>m. m = n \<or> marked (cp_options p) m)"
  shows "coap_ok q"
proof -
  have q: "q = p\<lparr>cp_options := mark (cp_options p) n\<rparr>" using assms(1-3) by (simp add: with_option_in)
  have "fields_ok p (marked (mark (cp_options p) n))"
    by (rule fields_ok_bits [OF assms(4)]) (simp add: marked_mark assms(2,3))
  then show ?thesis by (simp add: coap_ok_fields q assms(2) fields_ok_def)
qed

lemma multi_ok_node: "list_all (\<lambda>s. length s \<le> 255) ss \<Longrightarrow> multi_ok (map node ss)"
  by (auto simp: multi_ok_def node_def list_all_iff)

lemma multi_ok_append [simp]: "multi_ok (xs @ ys) \<longleftrightarrow> multi_ok xs \<and> multi_ok ys"
  by (auto simp: multi_ok_def)

inductive coap_built :: "(u32 \<Rightarrow> bytes option) \<Rightarrow> coap_packet \<Rightarrow> bool" for mal where
  built_init: "coap_built mal (coap_init_message t c m)"
| built_code: "coap_built mal p \<Longrightarrow> coap_built mal (snd (coap_set_status_code p c))"
| built_content_type: "coap_built mal p \<Longrightarrow> coap_set_header_content_type p v = Some (r, q) \<Longrightarrow> coap_built mal q"
| built_accept: "coap_built mal p \<Longrightarrow> coap_set_header_accept p a = Some (r, q) \<Longrightarrow> coap_built mal q"
| built_max_age: "coap_built mal p \<Longrightarrow> coap_set_header_max_age p v = Some (r, q) \<Longrightarrow> coap_built mal q"
| built_observe: "coap_built mal p \<Longrightarrow> coap_set_header_observe p v = Some (r, q) \<Longrightarrow> coap_built mal q"
| built_size: "coap_built mal p \<Longrightarrow> coap_set_header_size p v = Some (r, q) \<Longrightarrow> coap_built mal q"
| built_if_none_match: "coap_built mal p \<Longrightarrow> coap_set_header_if_none_match p = Some (r, q) \<Longrightarrow> coap_built mal q"
| built_etag: "coap_built mal p \<Longrightarrow> coap_set_header_etag p e = Some (r, q) \<Longrightarrow> coap_built mal q"
| built_if_match: "coap_built mal p \<Longrightarrow> coap_set_header_if_match p e = Some (r, q) \<Longrightarrow> coap_built mal q"
| built_token: "coap_built mal p \<Longrightarrow> coap_set_header_token p e = Some (r, q) \<Longrightarrow> coap_built mal q"
| built_uri_host: "coap_built mal p \<Longrightarrow> length s \<le> 65804 \<Longrightarrow> coap_set_header_uri_host p s = Some (r, q) \<Longrightarrow>
    coap_built mal q"
| built_auth_code: "coap_built mal p \<Longrightarrow> length s \<le> 65804 \<Longrightarrow> coap_set_header_auth_code p s = Some (r, q) \<Longrightarrow>
    coap_built mal q"
| built_uri_path: "coap_built mal p \<Longrightarrow> 0 \<notin> set s \<Longrightarrow> list_all (\<lambda>x. length x \<le> 255) (segments 0x2F (skip_first 0x2F s)) \<Longrightarrow>
    coap_set_header_uri_path mal p s = Some (r, q) \<Longrightarrow> coap_built mal q"
| built_uri_path_segment: "coap_built mal p \<Longrightarrow> length s \<le> 255 \<Longrightarrow>
    coap_set_header_uri_path_segment mal p (Some s) = Some (r, q) \<Longrightarrow> coap_built mal q"
| built_uri_query: "coap_built mal p \<Longrightarrow> 0 \<notin> set s \<Longrightarrow> list_all (\<lambda>x. length x \<le> 255) (segments 0x26 (skip_first 0x3F s)) \<Longrightarrow>
    coap_set_header_uri_query mal p s = Some (r, q) \<Longrightarrow> coap_built mal q"
| built_location_path: "coap_built mal p \<Longrightarrow> 0 \<notin> set s \<Longrightarrow> list_all (\<lambda>x. length x \<le> 255) (segments 0x2F (skip_first 0x2F s)) \<Longrightarrow>
    coap_set_header_location_path mal p s = Some (r, q) \<Longrightarrow> coap_built mal q"
| built_block2: "coap_built mal p \<Longrightarrow> k \<le> 7 \<Longrightarrow> coap_set_header_block2 p num m (push_bit k 16) = Some (r, q) \<Longrightarrow>
    coap_built mal q"
| built_block1: "coap_built mal p \<Longrightarrow> k \<le> 7 \<Longrightarrow> coap_set_header_block1 p num m (push_bit k 16) = Some (r, q) \<Longrightarrow>
    coap_built mal q"
| built_payload: "coap_built mal p \<Longrightarrow> length d < 65536 \<Longrightarrow>
    coap_built mal (snd (coap_set_payload p (Some d) (of_nat (length d))))"

lemma length_store8 [simp]: "length old = 8 \<Longrightarrow> length (store8 old new) = 8"
  by (simp add: store8_def)

lemma min_len_le [simp]: "min_len n \<le> 8"
  by (simp add: min_len_def word_le_nat_alt)

lemma c_string_le: "length s \<le> n \<Longrightarrow> length (c_string s) \<le> n"
  unfolding c_string_def using length_takeWhile_le le_trans by blast

lemma skip_first_nz: "0 \<notin> set s \<Longrightarrow> 0 \<notin> set (skip_first c s)"
  by (auto simp: skip_first_def dest: list.set_sel(2))

lemma marked_zero: "n < 64 \<Longrightarrow> \<not> marked (replicate 8 0) n"
  by (simp add: marked_def div8)

lemmas setter_defs =
  coap_set_header_content_type_def coap_set_header_max_age_def coap_set_header_observe_def
  coap_set_header_size_def coap_set_header_if_none_match_def coap_set_header_etag_def
  coap_set_header_if_match_def coap_set_header_token_def coap_set_header_uri_host_def
  coap_set_header_auth_code_def coap_set_header_uri_path_def coap_set_header_uri_query_def
  coap_set_header_location_path_def

lemma sep_nz: "(0x2F :: u8) \<noteq> 0" "(0x26 :: u8) \<noteq> 0"
  by simp_all

lemma fields_ok_accept:
  assumes "fields_ok p has" and "length as = 2" and "1 \<le> n \<and> n \<le> 2"
  shows "fields_ok (p\<lparr>cp_accept := as, cp_accept_num := n\<rparr>) (\<lambda>m. m = COAP_OPTION_ACCEPT \<or> has m)"
  using assms unfolding fields_ok_def by (elim conjE, intro conjI) simp_all

lemma accept_ok:
  assumes "coap_ok p" and "coap_set_header_accept p a = Some (r, q)"
  shows "coap_ok q"
proof (cases "cp_accept_num p < 2")
  case True
  have accept_len: "length (cp_accept p) = 2" using assms(1) unfolding coap_ok_def by (elim conjE) assumption
  from True have "unat (cp_accept_num p) = 0 \<or> unat (cp_accept_num p) = 1"
    by (auto simp: word_less_nat_alt)
  then have n: "cp_accept_num p = 0 \<or> cp_accept_num p = 1" by (auto simp: word_unat_eq_iff)
  have "astore (cp_accept p) (unat (cp_accept_num p)) a = Some ((cp_accept p)[unat (cp_accept_num p) := a])"
    using accept_len n by auto
  with assms(2) True have w: "with_option (p\<lparr>cp_accept := (cp_accept p)[unat (cp_accept_num p) := a],
      cp_accept_num := cp_accept_num p + 1\<rparr>) COAP_OPTION_ACCEPT (uint (cp_accept_num p + 1)) = Some (r, q)"
    by (simp add: coap_set_header_accept_def)
  have "1 \<le> cp_accept_num p + 1 \<and> cp_accept_num p + 1 \<le> 2" using n by auto
  then show ?thesis
    by (intro with_option_ok [OF w] fields_ok_accept) (use assms(1) accept_len in \<open>simp_all add: coap_ok_fields\<close>)
next
  case False
  then show ?thesis using assms by (simp add: coap_set_header_accept_def)
qed

lemma block_ok_push: "k \<le> 7 \<Longrightarrow> num \<le> 0xFFFFF \<Longrightarrow> block_ok num (push_bit k 16)"
  by (auto simp: block_ok_def)

lemma coap_built_ok:
  assumes mal: "mallocs mal" and "coap_built mal p"
  shows "coap_ok p"
  using assms(2)
proof (induction rule: coap_built.induct)
  case (built_init t c m)
  then show ?case
    by (simp add: coap_ok_fields fields_ok_def coap_init_message_def coap_zero_def marked_zero multi_ok_def)
next
  case (built_code p c)
  then show ?case by (simp add: coap_ok_fields fields_ok_def coap_set_status_code_def)
next
  case (built_accept p a r q)
  show ?case by (rule accept_ok [OF built_accept.IH built_accept(2)])
next
  case (built_uri_path_segment p s r q)
  have m: "multi_ok [node (c_string s)]"
    using multi_ok_node [of "[c_string s]"] built_uri_path_segment(2) by (simp add: c_string_le)
  have "coap_add_multi_option mal ms [] True = ms @ [\<lparr>mo_is_static = True, mo_len = 0, mo_data = []\<rparr>]" for ms
    using mal by (auto simp: mallocs_def coap_add_multi_option_def split: option.split)
  moreover have "multi_ok [\<lparr>mo_is_static = True, mo_len = 0, mo_data = []\<rparr>]" by (simp add: multi_ok_def)
  ultimately obtain ms len where w: "with_option (p\<lparr>cp_uri_path := cp_uri_path p @ ms\<rparr>) COAP_OPTION_URI_PATH len = Some (r, q)"
    and ms: "multi_ok ms" "ms \<noteq> []"
    using built_uri_path_segment(3) m
    by (cases "at_end s") (auto simp: coap_set_header_uri_path_segment_def add_node [OF mal])
  show ?case
    by (rule with_option_ok [OF w])
      (use built_uri_path_segment ms in \<open>simp_all add: coap_ok_fields fields_ok_def\<close>)
next
  case (built_block2 p k num m r q)
  show ?case
  proof (cases "push_bit k 16 < (16 :: u16) \<or> 2048 < (push_bit k 16 :: u16) \<or> 0x0FFFFF < num")
    case True
    with built_block2 show ?thesis by (simp add: coap_set_header_block2_def split: if_splits)
  next
    case False
    then have w: "with_option (p\<lparr>cp_block2_num := num, cp_block2_more := (if m \<noteq> 0 then 1 else 0),
        cp_block2_size := push_bit k 16\<rparr>) COAP_OPTION_BLOCK2 1 = Some (r, q)"
      using built_block2 unfolding coap_set_header_block2_def by (simp only: if_False)
    have "block_ok num (push_bit k 16)"
      using built_block2(2) False by (intro block_ok_push) (simp_all add: linorder_not_less)
    then show ?thesis
      by (intro with_option_ok [OF w])
        (use built_block2.IH in \<open>simp_all add: coap_ok_fields fields_ok_def\<close>)
  qed
next
  case (built_block1 p k num m r q)
  show ?case
  proof (cases "push_bit k 16 < (16 :: u16) \<or> 2048 < (push_bit k 16 :: u16) \<or> 0x0FFFFF < num")
    case True
    with built_block1 show ?thesis by (simp add: coap_set_header_block1_def split: if_splits)
  next
    case False
    then have w: "with_option (p\<lparr>cp_block1_num := num, cp_block1_more := m,
        cp_block1_size := push_bit k 16\<rparr>) COAP_OPTION_BLOCK1 1 = Some (r, q)"
      using built_block1 unfolding coap_set_header_block1_def by (simp only: if_False)
    have "block_ok num (push_bit k 16)"
      using built_block1(2) False by (intro block_ok_push) (simp_all add: linorder_not_less)
    then show ?thesis
      by (intro with_option_ok [OF w])
        (use built_block1.IH in \<open>simp_all add: coap_ok_fields fields_ok_def\<close>)
  qed
next
  case (built_payload p d)
  have "unat (ucast (of_nat (length d) :: u32) :: u16) = length d"
    using built_payload(2) by (subst unat_ucast_up) simp_all
  with built_payload show ?case by (simp add: coap_ok_fields fields_ok_def coap_set_payload_def)
next
  case (built_content_type p v r q)
  show ?case
    by (rule with_option_ok [OF built_content_type(2) [unfolded setter_defs]])
      (use built_content_type in \<open>simp_all add: coap_ok_fields fields_ok_def c_string_le\<close>)
next
  case (built_max_age p v r q)
  show ?case
    by (rule with_option_ok [OF built_max_age(2) [unfolded setter_defs]])
      (use built_max_age in \<open>simp_all add: coap_ok_fields fields_ok_def c_string_le\<close>)
next
  case (built_observe p v r q)
  show ?case
    by (rule with_option_ok [OF built_observe(2) [unfolded setter_defs]])
      (use built_observe in \<open>simp_all add: coap_ok_fields fields_ok_def c_string_le\<close>)
next
  case (built_size p v r q)
  show ?case
    by (rule with_option_ok [OF built_size(2) [unfolded setter_defs]])
      (use built_size in \<open>simp_all add: coap_ok_fields fields_ok_def c_string_le\<close>)
next
  case (built_if_none_match p r q)
  show ?case
    by (rule with_option_ok [OF built_if_none_match(2) [unfolded setter_defs]])
      (use built_if_none_match in \<open>simp_all add: coap_ok_fields fields_ok_def c_string_le\<close>)
next
  case (built_etag p e r q)
  show ?case
    by (rule with_option_ok [OF built_etag(2) [unfolded setter_defs]])
      (use built_etag in \<open>simp_all add: coap_ok_fields fields_ok_def c_string_le\<close>)
next
  case (built_if_match p e r q)
  show ?case
    by (rule with_option_ok [OF built_if_match(2) [unfolded setter_defs]])
      (use built_if_match in \<open>simp_all add: coap_ok_fields fields_ok_def c_string_le\<close>)
next
  case (built_token p e r q)
  show ?case
    by (rule with_option_ok [OF built_token(2) [unfolded setter_defs]])
      (use built_token in \<open>simp_all add: coap_ok_fields fields_ok_def c_string_le\<close>)
next
  case (built_uri_host p s r q)
  show ?case
    by (rule with_option_ok [OF built_uri_host(3) [unfolded setter_defs]])
      (use built_uri_host in \<open>simp_all add: coap_ok_fields fields_ok_def c_string_le\<close>)
next
  case (built_auth_code p s r q)
  show ?case
    by (rule with_option_ok [OF built_auth_code(3) [unfolded setter_defs]])
      (use built_auth_code in \<open>simp_all add: coap_ok_fields fields_ok_def c_string_le\<close>)
next
  case (built_uri_path p s r q)
  note w = built_uri_path(4) [unfolded setter_defs split_loop_segments [OF mal skip_first_nz [OF built_uri_path(2)] sep_nz(1)] Let_def prod.case]
  show ?case
    by (rule with_option_ok [OF w])
      (use built_uri_path in \<open>simp_all add: coap_ok_fields fields_ok_def multi_ok_node\<close>)
next
  case (built_uri_query p s r q)
  note w = built_uri_query(4) [unfolded setter_defs split_loop_segments [OF mal skip_first_nz [OF built_uri_query(2)] sep_nz(2)] Let_def prod.case]
  show ?case
    by (rule with_option_ok [OF w])
      (use built_uri_query in \<open>simp_all add: coap_ok_fields fields_ok_def multi_ok_node\<close>)
next
  case (built_location_path p s r q)
  note w = built_location_path(4) [unfolded setter_defs split_loop_segments [OF mal skip_first_nz [OF built_location_path(2)] sep_nz(1)] Let_def prod.case]
  show ?case
    by (rule with_option_ok [OF w])
      (use built_location_path in \<open>simp_all add: coap_ok_fields fields_ok_def multi_ok_node\<close>)
qed

section \<open>Properties\<close>



text \<open>\<open>coap_set_header_uri_path\<close> cuts the path, less a leading slash, at its slashes: the
  segments contain none, and joined by slashes they are the path, up to one trailing slash. The
  function returns the length of what it cut.\<close>

theorem coap_uri_path_segments:
  assumes "mallocs mal" and "length (cp_options p) = 8" and "0 \<notin> set path"
  shows "\<exists>ss q. coap_set_header_uri_path mal p path = Some (int (length (skip_first 0x2F path)), q) \<and>
    cp_uri_path q = map node ss \<and> IS_OPTION q COAP_OPTION_URI_PATH \<and>
    list_all (\<lambda>s. 0x2F \<notin> set s) ss \<and>
    (join_with 0x2F ss = skip_first 0x2F path \<or> join_with 0x2F ss @ [0x2F] = skip_first 0x2F path)"
proof -
  let ?r = "skip_first 0x2F path"
  have nz: "0 \<notin> set ?r" by (rule skip_first_nz [OF assms(3)])
  note loop = split_loop_segments [OF assms(1) nz sep_nz(1)] and join = segments_join [OF nz sep_nz(1)]
  let ?q = "p\<lparr>cp_uri_path := map node (segments 0x2F ?r),
              cp_options := mark (cp_options p) COAP_OPTION_URI_PATH\<rparr>"
  have "coap_set_header_uri_path mal p path = Some (int (length ?r), ?q)"
    using assms(2) by (simp add: coap_set_header_uri_path_def loop with_option_in)
  moreover have "IS_OPTION ?q COAP_OPTION_URI_PATH"
    using assms(2) by (simp add: IS_OPTION_marked marked_mark)
  ultimately show ?thesis using join by (intro exI conjI) (auto simp: list_all_iff)
qed

text \<open>Every getter gives the receiver of a message what it gives the sender.\<close>

theorem coap_getters_received:
  assumes "coap_ok p" and "mal 12 \<noteq> None"
  shows "\<exists>q. coap_parse_message mal (coap_bytes p) = Some (COAP_NO_ERROR, q) \<and>
    coap_get_header_content_type q = coap_get_header_content_type p \<and>
    accept_values (coap_get_header_accept q) = accept_values (coap_get_header_accept p) \<and>
    coap_get_header_max_age q = coap_get_header_max_age p \<and>
    coap_get_header_observe q = coap_get_header_observe p \<and>
    coap_get_header_size q = coap_get_header_size p \<and>
    coap_get_header_if_none_match q = coap_get_header_if_none_match p \<and>
    opaque_value (coap_get_header_etag q) = opaque_value (coap_get_header_etag p) \<and>
    opaque_value (coap_get_header_if_match q) = opaque_value (coap_get_header_if_match p) \<and>
    coap_get_header_uri_host q = coap_get_header_uri_host p \<and>
    block_fields_of (coap_get_header_block2 q) = block_fields_of (coap_get_header_block2 p) \<and>
    block_fields_of (coap_get_header_block1 q) = block_fields_of (coap_get_header_block1 p)"
proof -
  note same = coap_received_same [OF assms(1)]
  show ?thesis
    using coap_parse_bytes [where mal = mal, OF assms(2,1)] content_type_wire.received [OF same]
      accept_wire.received [OF same] max_age_wire.received [OF same] observe_wire.received [OF same]
      size_wire.received [OF same] if_none_match_wire.received [OF same] etag_wire.received [OF same]
      if_match_wire.received [OF same] uri_host_wire.received [OF same] block2_wire.received [OF same]
      block1_wire.received [OF same]
    by simp
qed

text \<open>A block size that is no power of two is accepted by \<open>coap_set_header_block2\<close> and
  silently sent as the power of two below it: of 100 bytes the receiver sees 64.\<close>

theorem coap_block_size_rounded:
  "block_value num m 100 = block_value num m 64 \<and>
   coap_set_header_block2 coap_zero 0 0 100 =
     Some (1, coap_zero\<lparr>cp_block2_size := 100, cp_options := mark (replicate 8 0) COAP_OPTION_BLOCK2\<rparr>)"
proof
  have "coap_log_2 6 = 2" by (simp add: coap_log_2_def coap_log_2_loop.simps)
  then show "block_value num m 100 = block_value num m 64"
    by (simp add: block_value_def coap_log_2_table)
  show "coap_set_header_block2 coap_zero 0 0 100 =
     Some (1, coap_zero\<lparr>cp_block2_size := 100, cp_options := mark (replicate 8 0) COAP_OPTION_BLOCK2\<rparr>)"
    by (simp add: coap_set_header_block2_def coap_zero_def with_option_in)
qed

end
