(* ===== verification/Cis_Uri_Laws.thy ===== *)
theory Cis_Uri_Laws
  imports Cis_Uri Cis_Utils_Laws
begin

text \<open>
  LwM2M URIs: what the readers of \<open>cis_uri.c\<close> make of decimal numbers between slashes, and what
  \<open>uri_toString\<close> writes. The identifiers of a URI are a list of one to three numbers.
\<close>

section \<open>Reading a number\<close>

text \<open>The loop over the characters; the second component counts those consumed.\<close>

fun parse_chars :: "bytes \<Rightarrow> int \<Rightarrow> (int \<times> nat) option" where
  "parse_chars [] r = Some (r div 10, 0)"
| "parse_chars (c # cs) r =
     (if c = 0x2F then Some (r div 10, 0)
      else if 0x30 \<le> c \<and> c \<le> 0x39
      then (if (r + (uint c - 0x30)) * 10 < 2 ^ 31
            then map_option (\<lambda>(n, k). (n, Suc k)) (parse_chars cs ((r + (uint c - 0x30)) * 10))
            else None)
      else Some (-1, 0))"

lemma parse_number_loop_chars:
  "len \<le> length mem \<Longrightarrow>
   parse_number_loop mem len head r =
     map_option (\<lambda>(n, k). (n, head + k)) (parse_chars (take (len - head) (drop head mem)) r)"
proof (induction mem len head r rule: parse_number_loop.induct)
  case (1 mem len head r)
  show ?case
  proof (cases "head < len")
    case True
    then have "take (len - head) (drop head mem) = mem ! head # take (len - Suc head) (drop (Suc head) mem)"
      using 1(2) by (simp add: Cons_nth_drop_Suc [symmetric] Suc_diff_Suc [symmetric])
    moreover have "aload mem head = Some (mem ! head)" using True 1(2) by simp
    ultimately show ?thesis using True 1
      by (subst parse_number_loop.simps) (simp add: option.map_comp comp_def case_prod_unfold)
  qed (subst parse_number_loop.simps; simp)
qed

lemma uint_digit: "d < 10 \<Longrightarrow> uint (digit d) = 0x30 + int d"
  using unat_digit [of d] by (metis of_nat_add of_nat_numeral uint_nat)

lemma digit_not_slash: "d < 10 \<Longrightarrow> digit d \<noteq> 0x2F"
  using unat_digit [of d] by auto

lemma parse_chars_decimal:
  "n < 200000000 \<Longrightarrow>
   parse_chars (decimal n @ cs) 0 =
     map_option (\<lambda>(m, k). (m, length (decimal n) + k)) (parse_chars cs (int n * 10))"
proof (induction n arbitrary: cs rule: decimal.induct)
  case (1 n)
  show ?case
  proof (cases "n < 10")
    case True
    then show ?thesis using digit_range [of n]
      by (simp add: decimal_small uint_digit digit_not_slash case_prod_unfold)
  next
    case False
    let ?q = "n div 10" and ?r = "n mod 10"
    have v: "(int ?q * 10 + int ?r) * 10 = int n * 10" by (simp add: zdiv_int zmod_int)
    have "parse_chars (decimal n @ cs) 0 =
        map_option (\<lambda>(m, k). (m, length (decimal ?q) + k)) (parse_chars (digit ?r # cs) (int ?q * 10))"
      using 1(1) [OF False, of "digit ?r # cs"] 1(2) False by (simp add: decimal_step)
    also have "parse_chars (digit ?r # cs) (int ?q * 10) =
        map_option (\<lambda>(m, k). (m, Suc k)) (parse_chars cs (int n * 10))"
      using digit_range [of ?r] digit_not_slash [of ?r] 1(2) v by (simp add: uint_digit)
    finally show ?thesis using False
      by (simp add: decimal_step option.map_comp comp_def case_prod_unfold)
  qed
qed

text \<open>A number that ends the text or is followed by a slash.\<close>

lemma hd_decimal_slash: "hd (decimal n) \<noteq> 0x2F"
proof (induction n rule: decimal.induct)
  case (1 n)
  then show ?case
    by (cases "n < 10") (simp_all add: decimal_small decimal_step hd_append digit_not_slash)
qed

lemma parse_number_decimal:
  assumes chars: "take (len - head) (drop head mem) = decimal n @ rest"
    and n: "n < 200000000" and len: "len \<le> length mem" and rest: "rest = [] \<or> hd rest = 0x2F"
  shows "prv_parseNumber mem len head = Some (int n, head + length (decimal n))"
proof -
  have ne: "take (len - head) (drop head mem) \<noteq> []" using chars by simp
  then have h: "head < len" by (cases "head < len") auto
  have "mem ! head = hd (take (len - head) (drop head mem))"
    using h len by (simp add: hd_drop_conv_nth hd_take)
  also have "\<dots> \<noteq> 0x2F" using hd_decimal_slash [of n] by (simp add: chars)
  finally have m: "mem ! head \<noteq> 0x2F" .
  have "parse_chars rest (int n * 10) = Some (int n, 0)" using rest by (cases rest) auto
  then show ?thesis
    using h len m by (simp add: prv_parseNumber_def parse_number_loop_chars chars parse_chars_decimal n)
qed

section \<open>Writing a URI\<close>

lemma put_number_decimal:
  assumes "head + length (decimal (unat n)) + 1 < length buffer"
  shows "\<exists>tail. put_number n buffer head =
      Some (Done (head + length (decimal (unat n))), take head buffer @ decimal (unat n) @ tail) \<and>
    length (take head buffer @ decimal (unat n) @ tail) = length buffer"
proof -
  have "uint n < 2 ^ LENGTH(16)" by (rule unsigned_less)
  then have v: "nat (uint n) = unat n" "uint n < 2 ^ 63" by simp_all
  have "length (decimal (nat (uint n))) \<le> length (drop head buffer)" using assms by (simp add: v)
  from intToText_nonneg [OF _ v(2) this] obtain tail where
    t: "utils_intToText (uint n) (drop head buffer) =
          Some (length (decimal (unat n)), decimal (unat n) @ tail)"
      "length (decimal (unat n) @ tail) = length (drop head buffer)"
    by (auto simp: v)
  then show ?thesis using assms by (simp add: put_number_def Let_def)
qed

text \<open>The identifiers of a URI, its text, and the URI itself.\<close>

definition uri_text :: "nat list \<Rightarrow> bytes" where
  "uri_text ids = 0x2F # concat (map (\<lambda>n. decimal n @ [0x2F]) ids)"

fun uri_of :: "nat list \<Rightarrow> st_uri" where
  "uri_of [a] = set_object (int a) uri_zero"
| "uri_of [a, b] = set_instance (int b) (set_object (int a) uri_zero)"
| "uri_of [a, b, c] = set_resource (int c) (set_instance (int b) (set_object (int a) uri_zero))"
| "uri_of _ = uri_zero"

fun depth_of :: "nat list \<Rightarrow> uri_depth" where
  "depth_of [] = URI_DEPTH_OBJECT"
| "depth_of [a] = URI_DEPTH_OBJECT_INSTANCE"
| "depth_of [a, b] = URI_DEPTH_RESOURCE"
| "depth_of _ = URI_DEPTH_RESOURCE_INSTANCE"

definition ids_ok :: "nat list \<Rightarrow> bool" where
  "ids_ok ids \<longleftrightarrow> 1 \<le> length ids \<and> length ids \<le> 3 \<and> list_all (\<lambda>n. n \<le> 65534) ids"

lemma ids_cases:
  assumes "ids_ok ids"
  obtains a where "ids = [a]" "a \<le> 65534"
  | a b where "ids = [a, b]" "a \<le> 65534" "b \<le> 65534"
  | a b c where "ids = [a, b, c]" "a \<le> 65534" "b \<le> 65534" "c \<le> 65534"
proof -
  have "length ids = 1 \<or> length ids = 2 \<or> length ids = 3" using assms by (auto simp: ids_ok_def)
  then show ?thesis
    using assms that by (auto simp: ids_ok_def length_Suc_conv numeral_2_eq_2 numeral_3_eq_3)
qed

lemma uri_of_fields:
  "uri_objectId (uri_of [a]) = of_nat a" "\<not> CIS_URI_IS_SET_INSTANCE (uri_of [a])"
  "uri_objectId (uri_of [a, b]) = of_nat a" "uri_instanceId (uri_of [a, b]) = of_nat b"
  "CIS_URI_IS_SET_INSTANCE (uri_of [a, b])" "\<not> CIS_URI_IS_SET_RESOURCE (uri_of [a, b])"
  "uri_objectId (uri_of [a, b, c]) = of_nat a" "uri_instanceId (uri_of [a, b, c]) = of_nat b"
  "uri_resourceId (uri_of [a, b, c]) = of_nat c"
  "CIS_URI_IS_SET_INSTANCE (uri_of [a, b, c])" "CIS_URI_IS_SET_RESOURCE (uri_of [a, b, c])"
  by (simp_all add: set_object_def set_instance_def set_resource_def uri_zero_def
      CIS_URI_IS_SET_INSTANCE_def CIS_URI_IS_SET_RESOURCE_def)

lemma unat_id [simp]: "n \<le> 65534 \<Longrightarrow> unat (of_nat n :: u16) = n"
  by simp

text \<open>One number and the slash behind it, after what is already there.\<close>

lemma put_number_slash:
  assumes "n \<le> 65534" and "length pre + length (decimal n) + 1 < length (pre @ rest)"
  obtains h B tail where
    "put_number (of_nat n) (pre @ rest) (length pre) = Some (Done h, B)"
    "put_slash B h = Some ((pre @ decimal n @ [0x2F]) @ tail)"
    "h + 1 = length (pre @ decimal n @ [0x2F])"
    "length ((pre @ decimal n @ [0x2F]) @ tail) = length (pre @ rest)"
proof -
  have "length pre + length (decimal (unat (of_nat n :: u16))) + 1 < length (pre @ rest)"
    using assms by simp
  from put_number_decimal [OF this] obtain tail where
    t: "put_number (of_nat n) (pre @ rest) (length pre) =
          Some (Done (length pre + length (decimal n)), pre @ decimal n @ tail)"
      "length (pre @ decimal n @ tail) = length (pre @ rest)"
    using assms(1) by auto
  then obtain c tl where tl: "tail = c # tl" using assms(2) by (cases tail) auto
  have "put_slash ((pre @ decimal n) @ c # tl) (length (pre @ decimal n)) =
      Some ((pre @ decimal n) @ 0x2F # tl)"
    unfolding put_slash_def by (subst astore_in) (simp_all add: list_update_append)
  with t tl show thesis by (intro that [of _ "pre @ decimal n @ tail" tl]) simp_all
qed

lemma toString_steps:
  assumes "put_slash buffer 0 = Some B0"
    and "put_number (uri_objectId u) B0 1 = Some (Done h1, B1)" and "put_slash B1 h1 = Some B2"
  shows "\<not> CIS_URI_IS_SET_INSTANCE u \<Longrightarrow>
      uri_toString (Some u) buffer = Some (int h1 + 1, B2, Some URI_DEPTH_OBJECT_INSTANCE)"
    and "CIS_URI_IS_SET_INSTANCE u \<Longrightarrow>
      put_number (uri_instanceId u) B2 (h1 + 1) = Some (Done h2, B3) \<Longrightarrow> put_slash B3 h2 = Some B4 \<Longrightarrow>
      \<not> CIS_URI_IS_SET_RESOURCE u \<Longrightarrow>
      uri_toString (Some u) buffer = Some (int h2 + 1, B4, Some URI_DEPTH_RESOURCE)"
    and "CIS_URI_IS_SET_INSTANCE u \<Longrightarrow>
      put_number (uri_instanceId u) B2 (h1 + 1) = Some (Done h2, B3) \<Longrightarrow> put_slash B3 h2 = Some B4 \<Longrightarrow>
      CIS_URI_IS_SET_RESOURCE u \<Longrightarrow>
      put_number (uri_resourceId u) B4 (h2 + 1) = Some (Done h3, B5) \<Longrightarrow> put_slash B5 h3 = Some B6 \<Longrightarrow>
      uri_toString (Some u) buffer = Some (int h3 + 1, B6, Some URI_DEPTH_RESOURCE_INSTANCE)"
    and "CIS_URI_IS_SET_INSTANCE u \<Longrightarrow>
      put_number (uri_instanceId u) B2 (h1 + 1) = Some (Done h2, B3) \<Longrightarrow> put_slash B3 h2 = Some B4 \<Longrightarrow>
      CIS_URI_IS_SET_RESOURCE u \<Longrightarrow>
      put_number (uri_resourceId u) B4 (h2 + 1) = Some (Fail, B5) \<Longrightarrow>
      uri_toString (Some u) buffer = Some (-1, B5, Some URI_DEPTH_RESOURCE)"
  using assms by (simp_all add: uri_toString_def)

lemma length_uri_text: "length (uri_text ids) = 1 + sum_list (map (\<lambda>n. length (decimal n) + 1) ids)"
  by (induction ids) (simp_all add: uri_text_def)

lemma uri_text_snoc: "uri_text (ids @ [n]) = uri_text ids @ decimal n @ [0x2F]"
  by (simp add: uri_text_def)

lemma put_next:
  assumes "n \<le> 65534" and "length (uri_text (ids @ [n])) < length (uri_text ids @ rest)"
  obtains h B tail where
    "put_number (of_nat n) (uri_text ids @ rest) (length (uri_text ids)) = Some (Done h, B)"
    "put_slash B h = Some (uri_text (ids @ [n]) @ tail)"
    "h + 1 = length (uri_text (ids @ [n]))"
    "length (uri_text (ids @ [n]) @ tail) = length (uri_text ids @ rest)"
proof -
  have "length (uri_text ids) + length (decimal n) + 1 < length (uri_text ids @ rest)"
    using assms(2) by (simp add: uri_text_snoc)
  from put_number_slash [OF assms(1) this] show thesis
    using that unfolding uri_text_snoc by metis
qed

lemma uri_toString_text:
  assumes "ids_ok ids" and "length (uri_text ids) < length buffer"
  shows "\<exists>tail. uri_toString (Some (uri_of ids)) buffer =
      Some (int (length (uri_text ids)), uri_text ids @ tail, Some (depth_of ids)) \<and>
    length (uri_text ids @ tail) = length buffer"
proof -
  obtain c0 rest where buf: "buffer = c0 # rest" using assms(2) by (cases buffer) auto
  have start: "put_slash buffer 0 = Some (uri_text [] @ rest)" by (simp add: put_slash_def buf uri_text_def)
  have bl: "length (uri_text [] @ rest) = length buffer" and l1: "length (uri_text []) = 1"
    by (simp_all add: buf uri_text_def)
  obtain a ids' where ids: "ids = a # ids'" using assms(1) by (cases ids) (auto simp: ids_ok_def)
  then have a: "a \<le> 65534" using assms(1) by (simp add: ids_ok_def)
  have "length (uri_text ([] @ [a])) < length (uri_text [] @ rest)"
    using assms(2) bl by (simp add: length_uri_text ids)
  from put_next [OF a this] obtain h1 B1 t1 where
    p1: "put_number (of_nat a) (uri_text [] @ rest) 1 = Some (Done h1, B1)"
      "put_slash B1 h1 = Some (uri_text [a] @ t1)" "h1 + 1 = length (uri_text [a])"
      "length (uri_text [a] @ t1) = length buffer" unfolding bl l1 by auto
  note steps = toString_steps [OF start _ p1(2)]
  show ?thesis
    using assms(1)
  proof (cases rule: ids_cases)
    case (1 x)
    have "uri_toString (Some (uri_of [a])) buffer =
        Some (int h1 + 1, uri_text [a] @ t1, Some URI_DEPTH_OBJECT_INSTANCE)"
      by (rule steps(1)) (simp_all only: uri_of_fields p1 simp_thms)
    then show ?thesis using p1(3,4) 1 ids by (intro exI [of _ t1]) simp
  next
    case (2 x b)
    then have "length (uri_text ([a] @ [b])) < length (uri_text [a] @ t1)"
      using assms(2) ids unfolding p1(4) by simp
    from put_next [OF 2(3) this] obtain h2 B3 t2 where
      p2: "put_number (of_nat b) (uri_text [a] @ t1) (h1 + 1) = Some (Done h2, B3)"
        "put_slash B3 h2 = Some (uri_text [a, b] @ t2)" "h2 + 1 = length (uri_text [a, b])"
        "length (uri_text [a, b] @ t2) = length buffer" unfolding p1(3,4) by auto
    have "uri_toString (Some (uri_of [a, b])) buffer =
        Some (int h2 + 1, uri_text [a, b] @ t2, Some URI_DEPTH_RESOURCE)"
      by (rule steps(2) [OF _ _ _ p2(2)]) (simp_all only: uri_of_fields p1(1) p2(1) simp_thms)
    then show ?thesis using p2(3,4) 2 ids by (intro exI [of _ t2]) simp
  next
    case (3 x b c)
    then have "length (uri_text ([a] @ [b])) < length (uri_text [a] @ t1)"
      using assms(2) ids unfolding p1(4) by (simp add: length_uri_text)
    from put_next [OF 3(3) this] obtain h2 B3 t2 where
      p2: "put_number (of_nat b) (uri_text [a] @ t1) (h1 + 1) = Some (Done h2, B3)"
        "put_slash B3 h2 = Some (uri_text [a, b] @ t2)" "h2 + 1 = length (uri_text [a, b])"
        "length (uri_text [a, b] @ t2) = length buffer" unfolding p1(3,4) by auto
    have "length (uri_text ([a, b] @ [c])) < length (uri_text [a, b] @ t2)"
      using assms(2) 3 ids unfolding p2(4) by simp
    from put_next [OF 3(4) this] obtain h3 B5 t3 where
      p3: "put_number (of_nat c) (uri_text [a, b] @ t2) (h2 + 1) = Some (Done h3, B5)"
        "put_slash B5 h3 = Some (uri_text [a, b, c] @ t3)" "h3 + 1 = length (uri_text [a, b, c])"
        "length (uri_text [a, b, c] @ t3) = length buffer" unfolding p2(3,4) by auto
    have "uri_toString (Some (uri_of [a, b, c])) buffer =
        Some (int h3 + 1, uri_text [a, b, c] @ t3, Some URI_DEPTH_RESOURCE_INSTANCE)"
      by (rule steps(3) [OF _ _ _ p2(2) _ _ p3(2)]) (simp_all only: uri_of_fields p1(1) p2(1) p3(1) simp_thms)
    then show ?thesis using p3(3,4) 3 ids by (intro exI [of _ t3]) simp
  qed
qed

section \<open>Reading a URI\<close>

lemma not_bad_id: "n \<le> 65534 \<Longrightarrow> \<not> bad_id (int n)"
  by (simp add: bad_id_def)

text \<open>A number inside a text, behind \<open>pre\<close> and before \<open>rest\<close>.\<close>

lemma parse_number_at:
  assumes "n \<le> 65534" and "len \<le> length (pre @ decimal n @ rest)"
    and "length pre + length (decimal n) \<le> len"
    and "length pre + length (decimal n) < len \<Longrightarrow> hd rest = 0x2F"
  shows "prv_parseNumber (pre @ decimal n @ rest) len (length pre) =
    Some (int n, length pre + length (decimal n))"
proof (rule parse_number_decimal)
  show "take (len - length pre) (drop (length pre) (pre @ decimal n @ rest)) =
      decimal n @ take (len - length pre - length (decimal n)) rest"
    using assms(3) by simp
  show "take (len - length pre - length (decimal n)) rest = [] \<or>
      hd (take (len - length pre - length (decimal n)) rest) = 0x2F"
    using assms(4) by (cases "length pre + length (decimal n) < len") (simp_all add: hd_take)
qed (use assms in simp_all)

lemma skip_slash_at: "skip_slash (pre @ 0x2F # rest) (length pre) = Some (length pre + 1)"
  by (simp add: skip_slash_def)

lemma stringToUri_start:
  assumes "mem = 0x2F # decimal a @ rest" and "a \<le> 65534" and "1 + length (decimal a) \<le> len"
    and "len \<le> length mem" and "1 + length (decimal a) < len \<Longrightarrow> hd rest = 0x2F"
  shows "uri_stringToUri mem len = do {
      let uri = set_object (int a) uri_zero;
      head \<leftarrow> skip_slash mem (1 + length (decimal a));
      if len \<le> head then Some (head, uri)
      else do {
        (n, head) \<leftarrow> prv_parseNumber mem len head;
        if bad_id n then Some (0, uri)
        else do {
          let uri = set_instance n uri;
          head \<leftarrow> skip_slash mem head;
          if len \<le> head then Some (head, uri)
          else do {
            (n, head) \<leftarrow> prv_parseNumber mem len head;
            if bad_id n then Some (0, uri)
            else (let uri = set_resource n uri in
                  Some (if head \<noteq> len then 0 else head, uri)) } } } }"
proof -
  have "0 < length (decimal a)" by simp
  then have len: "0 < len" "1 < len" using assms(3) by linarith+
  have chars: "aslice mem 0 len = Some (take len mem)" using assms(4) by simp
  obtain cs where cs: "take len mem = 0x2F # cs" using assms(1) len by (cases len) auto
  have sp: "length (takeWhile is_space (take len mem)) = 0" by (simp add: cs is_space_def)
  have "prv_parseNumber ([0x2F] @ decimal a @ rest) len (length [0x2F :: u8]) =
      Some (int a, length [0x2F :: u8] + length (decimal a))"
    by (rule parse_number_at) (use assms in simp_all)
  then have p: "prv_parseNumber mem len (0 + 1) = Some (int a, 1 + length (decimal a))"
    by (simp add: assms(1))
  have c: "take len mem ! 0 = 0x2F" by (simp add: cs)
  show ?thesis
    unfolding uri_stringToUri_def
    by (simp only: chars sp c p bind.bind_lunit Let_def len not_bad_id [OF assms(2)] if_False if_True
        prod.case refl simp_thms less_numeral_extra, use len in simp)
qed

text \<open>With and without the slash at the end.\<close>

lemma stringToUri_1:
  assumes "mem = 0x2F # decimal a @ 0x2F # tail" and "k \<le> 1" and "a \<le> 65534"
  shows "uri_stringToUri mem (1 + length (decimal a) + k) = Some (2 + length (decimal a), uri_of [a])"
proof -
  have s: "skip_slash mem (1 + length (decimal a)) = Some (2 + length (decimal a))"
    using skip_slash_at [of "0x2F # decimal a" tail] by (simp add: assms(1))
  have l: "1 + length (decimal a) + k \<le> 2 + length (decimal a)" using assms(2) by simp
  have start: "1 + length (decimal a) \<le> 1 + length (decimal a) + k"
    "1 + length (decimal a) + k \<le> length mem" using assms(2) by (simp_all add: assms(1))
  show ?thesis
    by (subst stringToUri_start [OF assms(1,3) start])
      (simp_all only: s l bind.bind_lunit Let_def if_True uri_of.simps list.sel)
qed

lemma stringToUri_2:
  assumes mem: "mem = 0x2F # decimal a @ 0x2F # decimal b @ 0x2F # tail"
    and len: "len = 2 + length (decimal a) + length (decimal b) + k" and k: "k \<le> 1"
    and "a \<le> 65534" and "b \<le> 65534"
  shows "uri_stringToUri mem len = Some (3 + length (decimal a) + length (decimal b), uri_of [a, b])"
proof -
  have s1: "skip_slash mem (1 + length (decimal a)) = Some (2 + length (decimal a))"
    using skip_slash_at [of "0x2F # decimal a" "decimal b @ 0x2F # tail"] by (simp add: mem)
  have p2: "prv_parseNumber mem len (2 + length (decimal a)) = Some (int b, 2 + length (decimal a) + length (decimal b))"
    using parse_number_at [of b len "0x2F # decimal a @ [0x2F]" "0x2F # tail"] assms(5) k by (simp add: mem len)
  have s2: "skip_slash mem (2 + length (decimal a) + length (decimal b)) = Some (3 + length (decimal a) + length (decimal b))"
    using skip_slash_at [of "0x2F # decimal a @ 0x2F # decimal b" tail] by (simp add: mem)
  have start: "1 + length (decimal a) \<le> len" "len \<le> length mem" using k by (simp_all add: mem len)
  have l: "\<not> len \<le> 2 + length (decimal a)" "len \<le> 3 + length (decimal a) + length (decimal b)"
    using k by (simp_all add: len not_le)
  show ?thesis
    by (subst stringToUri_start [OF mem assms(4) start])
      (simp_all only: s1 p2 s2 l bind.bind_lunit prod.case Let_def not_bad_id [OF assms(5)] if_False if_True
        uri_of.simps list.sel)
qed

text \<open>Behind a resource the slash is not allowed.\<close>

lemma stringToUri_3:
  assumes mem: "mem = 0x2F # decimal a @ 0x2F # decimal b @ 0x2F # decimal c @ 0x2F # tail"
    and len: "len = 3 + length (decimal a) + length (decimal b) + length (decimal c) + k" and k: "k \<le> 1"
    and "a \<le> 65534" and "b \<le> 65534" and "c \<le> 65534"
  shows "uri_stringToUri mem len = Some (if k = 0 then len else 0, uri_of [a, b, c])"
proof -
  let ?h2 = "2 + length (decimal a) + length (decimal b)"
  let ?h3 = "3 + length (decimal a) + length (decimal b) + length (decimal c)"
  have s1: "skip_slash mem (1 + length (decimal a)) = Some (2 + length (decimal a))"
    using skip_slash_at [of "0x2F # decimal a" "decimal b @ 0x2F # decimal c @ 0x2F # tail"] by (simp add: mem)
  have p2: "prv_parseNumber mem len (2 + length (decimal a)) = Some (int b, ?h2)"
    using parse_number_at [of b len "0x2F # decimal a @ [0x2F]" "0x2F # decimal c @ 0x2F # tail"] assms(5) k
    by (simp add: mem len)
  have s2: "skip_slash mem ?h2 = Some (3 + length (decimal a) + length (decimal b))"
    using skip_slash_at [of "0x2F # decimal a @ 0x2F # decimal b" "decimal c @ 0x2F # tail"] by (simp add: mem)
  have p3: "prv_parseNumber mem len (3 + length (decimal a) + length (decimal b)) = Some (int c, ?h3)"
    using parse_number_at [of c len "0x2F # decimal a @ 0x2F # decimal b @ [0x2F]" "0x2F # tail"] assms(6) k
    by (simp add: mem len numeral_3_eq_3)
  have start: "1 + length (decimal a) \<le> len" "len \<le> length mem" using k by (simp_all add: mem len)
  have l: "\<not> len \<le> 2 + length (decimal a)" "\<not> len \<le> 3 + length (decimal a) + length (decimal b)"
    by (simp_all add: len not_le)
  have e: "(if ?h3 \<noteq> len then 0 else ?h3) = (if k = 0 then len else 0)" by (simp add: len)
  show ?thesis
    by (subst stringToUri_start [OF mem assms(4) start])
      (simp_all only: s1 p2 s2 p3 l e bind.bind_lunit prod.case Let_def not_bad_id [OF assms(5)]
        not_bad_id [OF assms(6)] if_False if_True uri_of.simps list.sel simp_thms)
qed

lemma stringToUri_text:
  assumes "ids_ok ids"
  shows "uri_stringToUri (uri_text ids @ tail) (length (uri_text ids)) =
      Some (if length ids = 3 then 0 else length (uri_text ids), uri_of ids)"
    and "uri_stringToUri (uri_text ids @ tail) (length (uri_text ids) - 1) =
      Some (if length ids = 3 then length (uri_text ids) - 1 else length (uri_text ids), uri_of ids)"
proof -
  have both: "k \<le> 1 \<Longrightarrow> uri_stringToUri (uri_text ids @ tail) (length (uri_text ids) - 1 + k) =
      Some (if length ids = 3 then (if k = 0 then length (uri_text ids) - 1 else 0) else length (uri_text ids),
            uri_of ids)" for k
    using assms
  proof (cases rule: ids_cases)
    case (1 a)
    assume k: "k \<le> 1"
    show ?thesis
      using stringToUri_1 [OF _ k 1(2), of "uri_text [a] @ tail" tail] by (simp add: 1(1) uri_text_def)
  next
    case (2 a b)
    assume k: "k \<le> 1"
    show ?thesis
      using stringToUri_2 [OF _ refl k 2(2,3), of "uri_text [a, b] @ tail" tail]
      by (simp add: 2(1) uri_text_def add.assoc)
  next
    case (3 a b c)
    assume k: "k \<le> 1"
    show ?thesis
      using stringToUri_3 [OF _ refl k 3(2-4), of "uri_text [a, b, c] @ tail" tail]
      by (cases "k = 0") (simp_all add: 3(1) uri_text_def numeral_3_eq_3 add.assoc)
  qed
  have "length (uri_text ids) - 1 + 1 = length (uri_text ids)" by (simp add: uri_text_def)
  with both [of 1] both [of 0]
  show "uri_stringToUri (uri_text ids @ tail) (length (uri_text ids)) =
      Some (if length ids = 3 then 0 else length (uri_text ids), uri_of ids)"
    "uri_stringToUri (uri_text ids @ tail) (length (uri_text ids) - 1) =
      Some (if length ids = 3 then length (uri_text ids) - 1 else length (uri_text ids), uri_of ids)"
    by simp_all
qed

section \<open>Buffers that are too small\<close>

lemma int_text_loop_long:
  assumes "i < length buf" and "Suc i < length (decimal n)"
  shows "\<exists>d buf'. int_text_loop (int n) buf i = Some (d, buf', -1) \<and> 0 < d \<and> length buf' = length buf"
  using assms
proof (induction i arbitrary: n buf)
  case 0
  then have "\<not> n < 10" by (auto simp: decimal_small)
  then have "0 < int n div 10" by simp
  with 0 show ?case by simp
next
  case (Suc i)
  then have n: "\<not> n < 10" by (auto simp: decimal_small)
  then have "Suc i < length (decimal (n div 10))" using Suc.prems(2) by (simp add: decimal_step)
  moreover have "i < length (buf[Suc i := of_int (0x30 + int n mod 10)])" using Suc.prems(1) by simp
  moreover have "int n div 10 = int (n div 10)" "0 < n div 10" using n by (auto simp: zdiv_int)
  ultimately show ?case using Suc.prems(1) Suc.IH [of "buf[Suc i := of_int (0x30 + int n mod 10)]" "n div 10"]
    by simp
qed

lemma put_number_short:
  assumes "head < length buffer" and "length buffer \<le> head + length (decimal (unat n)) + 1"
  shows "\<exists>B. put_number n buffer head = Some (Fail, B)"
proof -
  have "uint n < 2 ^ LENGTH(16)" by (rule unsigned_less)
  then have v: "nat (uint n) = unat n" "0 \<le> uint n" "uint n < 2 ^ 63" by simp_all
  let ?room = "drop head buffer"
  show ?thesis
  proof (cases "length (decimal (unat n)) \<le> length ?room")
    case True
    then obtain tail where "utils_intToText (uint n) ?room =
        Some (length (decimal (unat n)), decimal (unat n) @ tail)"
      "length (decimal (unat n) @ tail) = length ?room"
      using intToText_nonneg [OF v(2,3), of ?room] by (auto simp: v(1))
    then show ?thesis using assms by (simp add: put_number_def Let_def)
  next
    case False
    have ne: "?room \<noteq> []" using assms(1) by simp
    have i: "length ?room - Suc 0 < length ?room" using ne by (cases ?room) auto
    have l: "Suc (length ?room - Suc 0) < length (decimal (unat n))" using False ne by simp
    obtain d B where "int_text_loop (int (unat n)) ?room (length ?room - Suc 0) = Some (d, B, -1)" "0 < d"
      using int_text_loop_long [OF i l] by blast
    moreover have neq: "uint n \<noteq> -9223372036854775808"
      by (rule not_sym, rule less_imp_neq, rule less_le_trans [OF _ v(2)]) simp
    ultimately have "utils_intToText (uint n) ?room = Some (0, B)"
      using ne v(2,3) by (simp add: utils_intToText_def Let_def neq)
    then show ?thesis by (simp add: put_number_def Let_def)
  qed
qed

lemma uri_toString_short:
  assumes "a \<le> 65534" and "b \<le> 65534" and "c \<le> 65534"
    and "length (uri_text [a, b]) < length buffer" and "length buffer \<le> length (uri_text [a, b, c])"
  shows "\<exists>B. uri_toString (Some (uri_of [a, b, c])) buffer = Some (-1, B, Some URI_DEPTH_RESOURCE)"
proof -
  obtain c0 rest where buf: "buffer = c0 # rest" using assms(4) by (cases buffer) auto
  have start: "put_slash buffer 0 = Some (uri_text [] @ rest)" by (simp add: put_slash_def buf uri_text_def)
  have bl: "length (uri_text [] @ rest) = length buffer" and l1: "length (uri_text []) = 1"
    by (simp_all add: buf uri_text_def)
  have "length (uri_text ([] @ [a])) < length (uri_text [] @ rest)"
    using assms(4) bl by (simp add: length_uri_text)
  from put_next [OF assms(1) this] obtain h1 B1 t1 where
    p1: "put_number (of_nat a) (uri_text [] @ rest) 1 = Some (Done h1, B1)"
      "put_slash B1 h1 = Some (uri_text [a] @ t1)" "h1 + 1 = length (uri_text [a])"
      "length (uri_text [a] @ t1) = length buffer" unfolding bl l1 by auto
  have "length (uri_text ([a] @ [b])) < length (uri_text [a] @ t1)"
    using assms(4) unfolding p1(4) by simp
  from put_next [OF assms(2) this] obtain h2 B3 t2 where
    p2: "put_number (of_nat b) (uri_text [a] @ t1) (h1 + 1) = Some (Done h2, B3)"
      "put_slash B3 h2 = Some (uri_text [a, b] @ t2)" "h2 + 1 = length (uri_text [a, b])"
      "length (uri_text [a, b] @ t2) = length buffer" unfolding p1(3,4) by auto
  have "\<exists>B. put_number (of_nat c) (uri_text [a, b] @ t2) (h2 + 1) = Some (Fail, B)"
    by (rule put_number_short) (use assms(3-5) p2(3,4) in \<open>simp_all add: length_uri_text\<close>)
  then obtain B5 where p3: "put_number (of_nat c) (uri_text [a, b] @ t2) (h2 + 1) = Some (Fail, B5)" ..
  have "uri_toString (Some (uri_of [a, b, c])) buffer = Some (-1, B5, Some URI_DEPTH_RESOURCE)"
    by (rule toString_steps(4) [OF start _ p1(2) _ _ p2(2)])
      (simp_all only: uri_of_fields p1(1) p2(1) p3 simp_thms)
  then show ?thesis ..
qed

section \<open>Path segments\<close>

definition is_digit :: "u8 \<Rightarrow> bool" where
  "is_digit c \<longleftrightarrow> 0x30 \<le> c \<and> c \<le> 0x39"

lemma parse_chars_overflow:
  assumes "list_all is_digit cs" and "0 \<le> r" and "r < 2 ^ 31" and "2 ^ 31 \<le> r * 10 ^ length cs"
  shows "parse_chars cs r = None"
  using assms
proof (induction cs arbitrary: r)
  case (Cons c cs)
  then have c: "is_digit c" "c \<noteq> 0x2F" by (auto simp: is_digit_def)
  let ?r = "(r + (uint c - 0x30)) * 10"
  have d: "0 \<le> uint c - 0x30" using c by (simp add: is_digit_def word_le_def)
  show ?case
  proof (cases "?r < 2 ^ 31")
    case True
    have "r * 10 ^ length (c # cs) \<le> ?r * 10 ^ length cs" using d by (simp add: algebra_simps)
    with Cons.prems(4) have "2 ^ 31 \<le> ?r * 10 ^ length cs" by linarith
    then have "parse_chars cs ?r = None"
      using Cons.IH [of ?r] Cons.prems d True by simp
    then show ?thesis using c True by (simp add: is_digit_def)
  next
    case False
    then show ?thesis using c by (simp add: is_digit_def)
  qed
qed simp

lemma segment_number_overflow:
  assumes "list_all is_digit (mo_data s)" and "unat (mo_len s) = length (mo_data s)"
    and "10 \<le> length (mo_data s)" and "hd (mo_data s) \<noteq> 0x30"
  shows "segment_number s = None"
proof -
  obtain c cs where s: "mo_data s = c # cs" using assms(3) by (cases "mo_data s") auto
  have c: "is_digit c" "c \<noteq> 0x2F" "c \<noteq> 0x30" and cs: "list_all is_digit cs" "9 \<le> length cs"
    using assms s by (auto simp: is_digit_def)
  have "uint c \<noteq> 0x30" using c(3) by (simp add: word_uint_eq_iff)
  then have d: "1 \<le> uint c - 0x30" "uint c - 0x30 \<le> 9"
    using c(1) by (auto simp: is_digit_def word_le_def)
  have "(10 :: int) ^ 9 \<le> 10 ^ length cs" using cs(2) by (intro power_increasing) simp_all
  then have "1 * 10 ^ 9 \<le> (uint c - 0x30) * 10 ^ length cs" using d(1) by (intro mult_mono) simp_all
  then have "10 ^ 9 \<le> (uint c - 0x30) * 10 ^ length cs" by (simp only: mult_1)
  then have "10 * 10 ^ 9 \<le> 10 * ((uint c - 0x30) * 10 ^ length cs)" by (rule mult_left_mono) simp
  moreover have "(2 :: int) ^ 31 \<le> 10 * 10 ^ 9" by simp
  ultimately have "2 ^ 31 \<le> 10 * ((uint c - 0x30) * 10 ^ length cs)" by (rule order_trans [rotated])
  then have "2 ^ 31 \<le> (uint c - 0x30) * 10 * 10 ^ length cs" by (simp only: ac_simps)
  then have "parse_chars cs ((uint c - 0x30) * 10) = None"
    using parse_chars_overflow [OF cs(1), of "(uint c - 0x30) * 10"] d by simp
  then show ?thesis
    using c(1,2) d assms(2)
    by (simp add: segment_number_def uri_getNumber_def prv_parseNumber_def parse_number_loop_chars s is_digit_def)
qed

lemma hd_decimal_digit: "is_digit (hd (decimal n))"
proof (induction n rule: decimal.induct)
  case (1 n)
  then show ?case
    by (cases "n < 10") (simp_all add: decimal_small decimal_step hd_append is_digit_def digit_range)
qed

definition id_segment :: "multi_option \<Rightarrow> nat \<Rightarrow> bool" where
  "id_segment s n \<longleftrightarrow> mo_data s = decimal n \<and> mo_len s = of_nat (length (decimal n)) \<and> n \<le> 65534"

lemma id_segment_length:
  assumes "id_segment s n"
  shows "unat (mo_len s) = length (decimal n)" "mo_len s \<noteq> 0"
proof -
  have n: "mo_len s = of_nat (length (decimal n))" "n < 10 ^ 5" using assms by (simp_all add: id_segment_def)
  then have "length (decimal n) \<le> 5" by (intro length_decimal) simp_all
  then show u: "unat (mo_len s) = length (decimal n)" using n(1) by simp
  show "mo_len s \<noteq> 0"
  proof
    assume "mo_len s = 0"
    then have "length (decimal n) = 0" using u by simp
    then show False by simp
  qed
qed

lemma segment_number_id: "id_segment s n \<Longrightarrow> segment_number s = Some (int n)"
  using parse_number_decimal [of "length (decimal n)" 0 "decimal n" n "[]"] id_segment_length [of s n]
  by (simp add: segment_number_def uri_getNumber_def id_segment_def)

lemma id_segment_name: "id_segment s n \<Longrightarrow> c # cs = name \<Longrightarrow> \<not> is_digit c \<Longrightarrow> \<not> starts_with name (s # path)"
proof
  assume a: "id_segment s n" "c # cs = name" "\<not> is_digit c" "starts_with name (s # path)"
  have "hd (mo_data s) \<noteq> c" "mo_data s \<noteq> []" using a(1,3) hd_decimal_digit [of n] by (auto simp: id_segment_def)
  moreover have "unat (mo_len s) = Suc (length cs)" using a(2,4) by (auto simp: starts_with_def)
  moreover have "utils_strncmp name (mo_data s) (Suc (length cs)) = 0"
    using a(4) unfolding starts_with_def list.sel calculation(3) by blast
  ultimately show False using a(2) unfolding utils_strncmp.simps(2)
    by (auto simp: Let_def simp del: utils_strncmp.simps split: if_splits)
qed

lemma uri_decode_ids:
  assumes "mal 8 \<noteq> None" and "ids_ok ids" and "list_all2 id_segment path ids"
  shows "uri_decode mal None path = Some (Done (uri_of ids))"
proof -
  have n: "\<not> starts_with [0x72, 0x64] (s # p)" "\<not> starts_with [0x62, 0x73] (s # p)"
    if "id_segment s k" for s k p
    using id_segment_name [OF that refl] by (simp_all add: is_digit_def)
  note seg = segment_number_id id_segment_length not_bad_id
  from assms(2) show ?thesis
  proof (cases rule: ids_cases)
    case (1 a)
    then obtain s where "path = [s]" "id_segment s a" using assms(3) by (auto simp: list_all2_Cons2)
    then show ?thesis using assms(1) 1
      by (simp add: uri_decode_def n seg decode_object_def decode_instance_def uri_zero_def)
  next
    case (2 a b)
    then obtain s t where "path = [s, t]" "id_segment s a" "id_segment t b"
      using assms(3) by (auto simp: list_all2_Cons2)
    then show ?thesis using assms(1) 2
      by (simp add: uri_decode_def n seg decode_object_def decode_instance_def decode_resource_def uri_zero_def)
  next
    case (3 a b c)
    then obtain s t r where "path = [s, t, r]" "id_segment s a" "id_segment t b" "id_segment r c"
      using assms(3) by (auto simp: list_all2_Cons2)
    then show ?thesis using assms(1) 3
      by (simp add: uri_decode_def n seg decode_object_def decode_instance_def decode_resource_def
          set_object_def set_instance_def uri_zero_def)
  qed
qed

end
