(* ===== verification/Cis_Uri_Contract.thy ===== *)
theory Cis_Uri_Contract
  imports Coap_Client Cis_Uri_Laws
begin

text \<open>
  What the conversions of \<open>cis_utils.c\<close> and the URI functions of \<open>cis_uri.c\<close> promise, alone and
  behind the CoAP codec, and where they break the promise.
\<close>

section \<open>A request path on the wire\<close>

lemma decimal_digits: "list_all is_digit (decimal n)"
proof (induction n rule: decimal.induct)
  case (1 n)
  then show ?case
    by (cases "n < 10") (simp_all add: decimal_small decimal_step is_digit_def digit_range)
qed

lemma digits_path_chars: "list_all is_digit cs \<Longrightarrow> c \<in> set cs \<Longrightarrow> c \<noteq> 0 \<and> c \<noteq> 0x2F"
  by (auto simp: list_all_iff is_digit_def word_le_nat_alt)

lemma segments_slash:
  assumes "list_all is_digit cs"
  shows "segments 0x2F (cs @ 0x2F # rest) = cs # (if at_end rest then [] else segments 0x2F rest)"
proof -
  have "takeWhile (\<lambda>c. c \<noteq> 0 \<and> c \<noteq> 0x2F) (cs @ 0x2F # rest) = cs"
    using digits_path_chars [OF assms] by (simp add: takeWhile_append2)
  then have l: "segment_length 0x2F (cs @ 0x2F # rest) = length cs" by (simp add: segment_length_def)
  then have "segment_step 0x2F (cs @ 0x2F # rest) = length cs + 1" by (simp add: segment_step_def)
  then show ?thesis by (subst segments.simps) (simp add: l Let_def)
qed

lemma at_end_decimal [simp]: "\<not> at_end (decimal n @ cs)"
  using digits_path_chars [OF decimal_digits, of "hd (decimal n)" n] by (simp add: at_end_def)

lemma segments_ids:
  "ids \<noteq> [] \<Longrightarrow> segments 0x2F (concat (map (\<lambda>n. decimal n @ [0x2F]) ids)) = map decimal ids"
proof (induction ids)
  case (Cons n ids)
  then show ?case
    by (cases ids) (simp_all add: segments_slash decimal_digits at_end_def [of "[]"])
qed simp

lemma skip_uri_text: "skip_first 0x2F (uri_text ids) = concat (map (\<lambda>n. decimal n @ [0x2F]) ids)"
  by (simp add: skip_first_def uri_text_def)

lemma uri_text_nz: "0 \<notin> set (uri_text ids)"
  using digits_path_chars [OF decimal_digits] by (auto simp: uri_text_def)

lemma short_decimals: "ids_ok ids \<Longrightarrow> list_all (\<lambda>x. length x \<le> 255) (map decimal ids)"
proof -
  have "length (decimal n) \<le> 255" if "n \<le> 65534" for n
    using length_decimal [of n 5] that by simp
  then show "ids_ok ids \<Longrightarrow> ?thesis" by (auto simp: ids_ok_def list_all_iff)
qed

lemma id_segments: "ids_ok ids \<Longrightarrow> list_all2 id_segment (static_nodes (map node (map decimal ids))) ids"
  by (simp add: static_nodes_def node_def id_segment_def ids_ok_def list_all2_conv_all_nth list_all_length)

lemma coap_received_path:
  "IS_OPTION p COAP_OPTION_URI_PATH \<Longrightarrow> cp_uri_path (coap_received p) = static_nodes (cp_uri_path p)"
  by (simp add: coap_received_def received_options_def coap_start_def coap_zero_def sel_def)

lemma with_option_marks:
  "length (cp_options p) = 8 \<Longrightarrow> n < 64 \<Longrightarrow> with_option p n v = Some (r, q) \<Longrightarrow> IS_OPTION q n"
  by (auto simp: with_option_in IS_OPTION_marked marked_mark)

lemma uri_text_short_buffer:
  assumes "10000 \<le> a" and "a \<le> 65534" and "10000 \<le> b" and "b \<le> 65534" and "10000 \<le> c" and "c \<le> 65534"
  shows "\<exists>buf. uri_toString (Some (uri_of [a, b, c])) (replicate 18 0) = Some (-1, buf, Some URI_DEPTH_RESOURCE)"
proof -
  have five: "length (decimal n) = 5" if n: "10000 \<le> n" "n \<le> 65534" for n
  proof -
    have "n div 10 div 10 div 10 div 10 < 10" "\<not> n < 10" "\<not> n div 10 < 10" "\<not> n div 10 div 10 < 10"
      "\<not> n div 10 div 10 div 10 < 10"
      using n by linarith+
    then show ?thesis by (simp only: decimal.simps [of n] decimal.simps [of "n div 10"]
        decimal.simps [of "n div 10 div 10"] decimal.simps [of "n div 10 div 10 div 10"]
        decimal.simps [of "n div 10 div 10 div 10 div 10"] if_False if_True length_append list.size arith_simps add_0_left One_nat_def)
  qed
  show ?thesis
    by (rule uri_toString_short) (use assms five in \<open>simp_all add: length_uri_text\<close>)
qed

text \<open>A request with such a path, written and read.\<close>

lemma path_set:
  assumes "mallocs mal" and "coap_built mal p" and "ids_ok ids"
  shows "\<exists>n. coap_set_header_uri_path mal p (uri_text ids) =
    Some (n, p\<lparr>cp_uri_path := map node (map decimal ids),
               cp_options := mark (cp_options p) COAP_OPTION_URI_PATH\<rparr>)"
proof -
  have ne: "ids \<noteq> []" using assms(3) by (auto simp: ids_ok_def)
  note nz = skip_first_nz [OF uri_text_nz]
  have segs: "segments 0x2F (skip_first 0x2F (uri_text ids)) = map decimal ids"
    by (simp only: skip_uri_text segments_ids [OF ne])
  have len: "length (cp_options p) = 8"
    using coap_built_ok [OF assms(1,2)] by (simp add: coap_ok_def)
  show ?thesis
    using len by (simp add: coap_set_header_uri_path_def split_loop_segments [OF assms(1) nz sep_nz(1)] segs
        with_option_in)
qed

lemma path_built:
  assumes "mallocs mal" and "coap_built mal p" and "ids_ok ids"
    and "coap_set_header_uri_path mal p (uri_text ids) = Some (n, q)"
  shows "coap_built mal q"
proof (rule built_uri_path [OF assms(2) uri_text_nz _ assms(4)])
  have "ids \<noteq> []" using assms(3) by (auto simp: ids_ok_def)
  then show "list_all (\<lambda>x. length x \<le> 255) (segments 0x2F (skip_first 0x2F (uri_text ids)))"
    using short_decimals [OF assms(3)] by (simp add: skip_uri_text segments_ids)
qed

lemma path_received:
  assumes "mallocs mal" and "coap_built mal p" and "ids_ok ids"
    and "coap_set_header_uri_path mal p (uri_text ids) = Some (n, q)"
  shows "uri_decode mal None (cp_uri_path (coap_received q)) = Some (Done (uri_of ids))"
proof -
  have c: "q = p\<lparr>cp_uri_path := map node (map decimal ids),
      cp_options := mark (cp_options p) COAP_OPTION_URI_PATH\<rparr>"
    using path_set [OF assms(1-3)] assms(4) by simp
  have "length (cp_options p) = 8" using coap_built_ok [OF assms(1,2)] by (simp add: coap_ok_def)
  then have "IS_OPTION q COAP_OPTION_URI_PATH" by (simp add: c IS_OPTION_marked marked_mark)
  from coap_received_path [OF this]
  have "cp_uri_path (coap_received q) = static_nodes (map node (map decimal ids))" by (simp add: c)
  moreover have "mal 8 \<noteq> None" using assms(1) by (simp add: mallocs_def)
  ultimately show ?thesis
    using uri_decode_ids [where mal = mal, OF _ assms(3) id_segments [OF assms(3)]] by simp
qed

lemma path_sent:
  assumes "mallocs mal" and "coap_built mal p" and "ids_ok ids"
    and "coap_set_header_uri_path mal p (uri_text ids) = Some (n, q)"
    and "length (coap_bytes q) \<le> length buf" and "length buf < 2 ^ 32"
  shows "\<exists>len q' buf' r. coap_serialize_message q buf = Some (len, q', buf') \<and>
    coap_parse_message mal (take (unat len) buf') = Some (COAP_NO_ERROR, r) \<and> same_message q r \<and>
    uri_decode mal None (cp_uri_path r) = Some (Done (uri_of ids))"
proof -
  have ok: "coap_ok q" by (rule coap_built_ok [OF assms(1) path_built [OF assms(1-4)]])
  have mal: "mal 12 \<noteq> None" using assms(1) by (simp add: mallocs_def)
  have "unat (of_nat (length (coap_bytes q)) :: u32) = length (coap_bytes q)"
    using assms(5,6) by (intro unat_of_nat_id) simp
  then show ?thesis
    using coap_serialize_bytes [OF ok assms(5)] coap_parse_bytes [where mal = mal, OF mal ok]
      coap_received_same [OF ok] path_received [OF assms(1-4)] by simp
qed

section \<open>Properties\<close>

text \<open>C11. The path of a request reaches the server's resource: the text of a URI is given to
  \<open>coap_set_header_uri_path\<close> in any packet built with the setters, \<open>coap_serialize_message\<close> writes the
  packet, \<open>coap_parse_message\<close> reads what it wrote, and \<open>uri_decode\<close> of the received path is that URI.\<close>

theorem request_path_delivered:
  assumes "mallocs mal" and "coap_built mal p" and "ids_ok ids"
    and "coap_set_header_uri_path mal p (uri_text ids) = Some (n, q)"
    and "length (coap_bytes q) \<le> length buf" and "length buf < 2 ^ 32"
  shows "\<exists>len q' buf' r. coap_serialize_message q buf = Some (len, q', buf') \<and>
    coap_parse_message mal (take (unat len) buf') = Some (COAP_NO_ERROR, r) \<and>
    uri_decode mal None (cp_uri_path r) = Some (Done (uri_of ids))"
  using path_sent [OF assms] by blast

theorem request_path_delivered_witness:
  "\<exists>n q len q' buf' r.
    coap_set_header_uri_path (\<lambda>n. Some []) (coap_init_message COAP_TYPE_CON 1 7) (uri_text [3, 0, 1]) = Some (n, q) \<and>
    coap_serialize_message q (replicate 100 0) = Some (len, q', buf') \<and>
    coap_parse_message (\<lambda>n. Some []) (take (unat len) buf') = Some (COAP_NO_ERROR, r) \<and>
    uri_decode (\<lambda>n. Some []) None (cp_uri_path r) =
      Some (Done \<lparr>uri_flag = 7, uri_objectId = 3, uri_instanceId = 0, uri_resourceId = 1\<rparr>)"
proof -
  let ?p = "coap_init_message COAP_TYPE_CON 1 7" and ?mal = "\<lambda>n. Some [] :: bytes option"
  have m: "mallocs ?mal" "ids_ok [3, 0, 1]" by (simp_all add: mallocs_def ids_ok_def)
  obtain n q where q: "coap_set_header_uri_path ?mal ?p (uri_text [3, 0, 1]) = Some (n, q)"
    and c: "q = ?p\<lparr>cp_uri_path := map node (map decimal [3, 0, 1]),
      cp_options := mark (cp_options ?p) COAP_OPTION_URI_PATH\<rparr>"
    using path_set [OF m(1) built_init m(2), of COAP_TYPE_CON 1 7] by blast
  have "coap_opts q = map (\<lambda>n. (COAP_OPTION_URI_PATH, decimal n)) [3, 0, 1]"
    by (simp add: c coap_opts_def opt_if_def multi_if_def accepts_def coap_init_message_def coap_zero_def
        IS_OPTION_def mark_def node_def decimal_small)
  then have "length (coap_bytes q) \<le> length (replicate 100 (0 :: u8))"
    by (simp add: coap_bytes_def c coap_init_message_def coap_zero_def decimal_small coap_set_option_header_def
        option_extension_def)
  from request_path_delivered [OF m(1) built_init m(2) q this] q
  show ?thesis by (simp add: set_object_def set_instance_def set_resource_def uri_zero_def)
qed

text \<open>C30. A URI written by \<open>uri_toString\<close> into a buffer with room is its text, with a slash at the end, and
  \<open>uri_stringToUri\<close> gives the URI back. With the slash it accepts the text of an object or an instance and
  refuses that of a resource, as its documentation says; without the slash it accepts all three.\<close>

theorem uri_text_roundtrip:
  assumes "ids_ok ids" and "length (uri_text ids) < length buffer"
  shows "\<exists>n buf. uri_toString (Some (uri_of ids)) buffer = Some (int n, buf, Some (depth_of ids)) \<and>
    take n buf = uri_text ids \<and> length buf = length buffer \<and>
    uri_stringToUri buf n = Some (if length ids = 3 then 0 else n, uri_of ids) \<and>
    uri_stringToUri buf (n - 1) = Some (if length ids = 3 then n - 1 else n, uri_of ids)"
proof -
  obtain tail where t: "uri_toString (Some (uri_of ids)) buffer =
      Some (int (length (uri_text ids)), uri_text ids @ tail, Some (depth_of ids))"
    "length (uri_text ids @ tail) = length buffer"
    using uri_toString_text [OF assms] by blast
  with stringToUri_text [OF assms(1), of tail] show ?thesis
    by (intro exI [of _ "length (uri_text ids)"] exI [of _ "uri_text ids @ tail"]) simp
qed

theorem uri_text_roundtrip_witness:
  "\<exists>n buf. uri_toString (Some (uri_of [3, 0, 1])) (replicate 18 0) =
      Some (int n, buf, Some URI_DEPTH_RESOURCE_INSTANCE) \<and>
    take n buf = uri_text [3, 0, 1] \<and> length buf = length (replicate 18 (0 :: u8)) \<and>
    uri_stringToUri buf n = Some (0, uri_of [3, 0, 1]) \<and>
    uri_stringToUri buf (n - 1) = Some (n - 1, uri_of [3, 0, 1])"
  using uri_text_roundtrip [of "[3, 0, 1]" "replicate 18 0"]
  by (simp add: ids_ok_def length_uri_text decimal_small)

text \<open>The buffer of \<open>URI_MAX_STRING_LEN\<close> bytes is too small for a resource whose three
  identifiers have five digits: \<open>uri_toString\<close> fails, and leaves the depth at \<open>URI_DEPTH_RESOURCE\<close>.\<close>

theorem uri_text_truncated:
  assumes "10000 \<le> a" and "a \<le> 65534" and "10000 \<le> b" and "b \<le> 65534" and "10000 \<le> c" and "c \<le> 65534"
  shows "\<exists>buf. uri_toString (Some (uri_of [a, b, c])) (replicate 18 0) = Some (-1, buf, Some URI_DEPTH_RESOURCE)"
  by (rule uri_text_short_buffer [OF assms])

theorem uri_text_truncated_witness:
  "\<exists>buf. uri_toString (Some (uri_of [10241, 65534, 10000])) (replicate 18 0) = Some (-1, buf, Some URI_DEPTH_RESOURCE)"
  by (rule uri_text_truncated) simp_all

text \<open>C38. A request whose first path segment is a number of ten or more digits, whatever its value,
  makes the \<open>int\<close> of \<open>prv_parseNumber\<close> overflow: undefined behaviour that a peer can cause.\<close>

theorem uri_decode_overflow:
  assumes "mal 8 \<noteq> None" and "list_all is_digit (mo_data s)" and "unat (mo_len s) = length (mo_data s)"
    and "10 \<le> length (mo_data s)" and "hd (mo_data s) \<noteq> 0x30"
  shows "uri_decode mal None (s # rest) = None"
proof -
  have l: "unat (mo_len s) \<noteq> 2" "mo_len s \<noteq> 0" using assms(3,4) by (auto simp: unat_eq_0 [symmetric])
  have "\<not> starts_with [x, y] (s # rest)" for x y using l(1) by (simp add: starts_with_def)
  then show ?thesis
    using assms(1) l segment_number_overflow [OF assms(2-5)]
    by (simp add: uri_decode_def decode_object_def)
qed

theorem uri_decode_overflow_witness:
  "uri_decode (\<lambda>n. Some []) None [node (replicate 10 0x39)] = None"
  by (rule uri_decode_overflow) (simp_all add: node_def is_digit_def list_all_length)

text \<open>The decimal text of any \<open>int64_t\<close> but the smallest is read back to it.\<close>

theorem int64_text_roundtrip:
  assumes "mallocs mal" and "data \<noteq> 0x8000000000000000"
  shows "\<exists>cs. utils_int64ToPlainText mal data = Some (Done cs) \<and> utils_plainTextToInt64 cs = Done data"
proof -
  have "sint data \<noteq> - (2 ^ 63)"
  proof
    assume "sint data = - (2 ^ 63)"
    then have "of_int (sint data) = (of_int (- (2 ^ 63)) :: u64)" by (rule arg_cong)
    then show False using assms(2) by simp
  qed
  then show ?thesis
    using int64_text [of data mal] plain_text_int [of data] assms(1) by (simp add: mallocs_def)
qed

text \<open>Every 64-bit integer is read back by \<open>utils_opaqueToInt\<close> from the 1, 2, 4 or 8 bytes of
  \<open>utils_encodeInt\<close>, with its sign.\<close>

theorem int_bytes_roundtrip:
  "utils_opaqueToInt (utils_encodeInt data) = (int (length (utils_encodeInt data)), data)"
  by (rule opaque_encode)

text \<open>\<open>utils_plainTextToInt64\<close> accepts a number behind the range of 64 bits and wraps it round:
  the check before the multiplication leaves out the digit added after it.\<close>

theorem plain_text_wraps:
  "utils_plainTextToInt64 (decimal 18446744073709551616) = Done 0 \<and>
   utils_plainTextToInt64 (decimal 18446744073709551615) = Fail"
proof -
  have d: "decimal 18446744073709551616 = decimal 1844674407370955161 @ [0x36]"
    "decimal 18446744073709551615 = decimal 1844674407370955161 @ [0x35]"
    by (simp_all add: decimal_step digit_def)
  have "plain_digits (decimal 1844674407370955161 @ cs) 0 = plain_digits cs 1844674407370955161" for cs
    using plain_digits_decimal [of 1844674407370955161 cs] by simp
  moreover have "hd (decimal 1844674407370955161 @ cs) \<noteq> 0x2D" for cs
    using hd_decimal [of 1844674407370955161] by (simp add: hd_append)
  ultimately show ?thesis by (simp add: utils_plainTextToInt64_def d Let_def)
qed

text \<open>\<open>utils_intToText\<close> on a buffer one byte longer than the digits of a negative number, room
  enough for the text, returns 0; on one of exactly the digits it writes before the buffer.\<close>

theorem int_text_exact_fit:
  "map_option fst (utils_intToText (- 12) [0, 0, 0]) = Some 0 \<and>
   utils_intToText (- 12) [0, 0] = None \<and>
   map_option fst (utils_intToText (- 12) [0, 0, 0, 0]) = Some 3"
  by (simp add: utils_intToText_def Let_def numeral_2_eq_2 numeral_3_eq_3)

end
