(* ===== verification/Cis_Tlv_Contract.thy ===== *)
theory Cis_Tlv_Contract
  imports Cis_Tlv_Laws Cis_Format Cis_Uri_Contract
begin

text \<open>
  What \<open>cis_tlv.c\<close> and \<open>cis_data.c\<close> promise: trees of values are delivered, every input is parsed
  without undefined behaviour while memory lasts, and the inputs for which the code fails.
\<close>

section \<open>Every input\<close>

lemma decode_content:
  assumes "tlv_decode_TLV bs = Some (Inr (n, t, i, idx, len))"
  shows "aslice bs idx len = Some (take len (drop idx bs))" "aslice bs n (length bs - n) = Some (drop n bs)"
    "length (take len (drop idx bs)) \<le> length bs - 2" "length (drop n bs) \<le> length bs - 2" "2 \<le> length bs"
  using tlv_decode_bounds [OF assms] by (auto simp: aslice_def)

text \<open>Every read of the header lies behind a test of the length.\<close>

lemma decode_length_total: "buffer \<noteq> [] \<Longrightarrow> \<exists>r. decode_length buffer idx = Some r"
  by (simp add: decode_length_def Let_def)

lemma tlv_decode_total: "\<exists>r. tlv_decode_TLV buffer = Some r"
proof (cases "length buffer < 2")
  case False
  then have b: "aload buffer 0 = Some (buffer ! 0)" "buffer \<noteq> []"
    by (cases buffer; simp add: aload_def)+
  obtain r where r: "decode_length buffer (if (buffer ! 0) AND 0x20 = 0x20 then 3 else 2) = Some r"
    using decode_length_total [OF b(2)] by blast
  have i: "\<exists>i. decode_id buffer wide = Some i" if "\<not> (wide \<and> length buffer < 3)" for wide
    using that False by (cases wide) (simp_all add: decode_id_def aload_def)
  show ?thesis
    using False i [of "(buffer ! 0) AND 0x20 = 0x20"]
    by (auto simp: tlv_decode_TLV_def b(1) r Let_def split: sum.split)
qed (simp add: tlv_decode_TLV_def)

lemma tlv_parse_loop_total:
  "alloc_ok mal \<Longrightarrow> 24 * (length acc + 1 + length bs) < 2 ^ 31 \<Longrightarrow>
   \<exists>ds. tlv_parse_loop mal bs acc = Some ds \<and> length ds \<le> length acc + length bs div 2"
proof (induction mal bs acc rule: tlv_parse_loop.induct)
  case (1 mal bs acc)
  obtain r where r: "tlv_decode_TLV bs = Some r" using tlv_decode_total by blast
  show ?case
  proof (cases r)
    case (Inl u)
    then show ?thesis using r by (subst tlv_parse_loop.simps) simp
  next
    case (Inr x)
    obtain n t i idx len where x: "x = (n, t, i, idx, len)" by (cases x) auto
    note dec = r [unfolded Inr x]
    note l = decode_content [OF dec]
    have new: "data_new mal (length acc + 1) = Some (replicate (length acc + 1) data_zero)"
      by (rule data_new_ok [OF "1.prems"(1)]) (use "1.prems"(2) in simp)
    note IH = "1.IH" [OF dec refl refl refl refl refl new refl l(1,2) refl]
    note unfold = tlv_parse_loop.simps [of mal bs acc]
    have room: "24 * (length (acc @ [d]) + 1 + length (drop n bs)) < 2 ^ 31" for d
      using "1.prems"(2) l(4,5) by simp
    have half: "length (acc @ [d]) + length (drop n bs) div 2 \<le> length acc + length bs div 2" for d
      using l(4,5) by simp
    show ?thesis
    proof (cases "t = DATA_TYPE_OBJECT_INSTANCE \<or> t = DATA_TYPE_MULTIPLE_RESOURCE")
      case True
      have "24 * (length ([] :: st_data list) + 1 + length (take len (drop idx bs))) < 2 ^ 31"
        using "1.prems"(2) l(3,5) by simp
      then obtain cs where cs: "tlv_parse_loop mal (take len (drop idx bs)) [] = Some cs"
        using IH(1) [OF True "1.prems"(1)] by blast
      show ?thesis
      proof (cases "cs = []")
        case True
        with cs dec new l(1,2) \<open>t = DATA_TYPE_OBJECT_INSTANCE \<or> t = DATA_TYPE_MULTIPLE_RESOURCE\<close>
        show ?thesis by (subst unfold) auto
      next
        case False
        from IH(2) [OF True cs False "1.prems"(1) room] half
        obtain ds where "tlv_parse_loop mal (drop n bs)
            (acc @ [set_value (AsChildren cs) (set_id i (set_type t data_zero))]) = Some ds"
          "length ds \<le> length acc + length bs div 2" by (meson order_trans)
        with cs dec new l(1,2) False True show ?thesis by (subst unfold) auto
      qed
    next
      case False
      from IH(3) [OF False "1.prems"(1) room] half
      obtain ds where "tlv_parse_loop mal (drop n bs)
          (acc @ [data_encode_opaque mal (take len (drop idx bs)) (set_id i (set_type t data_zero))]) = Some ds"
        "length ds \<le> length acc + length bs div 2" by (meson order_trans)
      with dec new l(1,2) False show ?thesis by (subst unfold) auto
    qed
  qed
qed

section \<open>Formats\<close>

lemma tlv_format:
  "format = LWM2M_CONTENT_TLV \<or> format = LWM2M_CONTENT_TLV_NEW \<Longrightarrow> final_format uri ds format = format"
  by (auto simp: final_format_def Let_def)

lemma data_serialize_tlv:
  assumes "format = LWM2M_CONTENT_TLV \<or> format = LWM2M_CONTENT_TLV_NEW"
    and "uri_toString (Some uri) (replicate 18 0) = Some (n, buf, Some level)" and "n \<noteq> 0"
    and "tlv_serialize mal (level = URI_DEPTH_RESOURCE_INSTANCE) ds = Some (len, bs)"
  shows "data_serialize mal float_text uri ds format = Some (int len, format, bs)"
  using assms(1) by (auto simp: data_serialize_def tlv_format assms(2-4) Let_def)

lemma data_serialize_ids:
  assumes "ids_ok ids" and "length (uri_text ids) < 18"
    and "tlv_serialize mal (depth_of ids = URI_DEPTH_RESOURCE_INSTANCE) ds = Some (len, bs)"
  shows "data_serialize mal float_text (uri_of ids) ds LWM2M_CONTENT_TLV = Some (int len, LWM2M_CONTENT_TLV, bs)"
proof -
  obtain tail where t: "uri_toString (Some (uri_of ids)) (replicate 18 0) =
      Some (int (length (uri_text ids)), uri_text ids @ tail, Some (depth_of ids))"
    using uri_toString_text [OF assms(1), of "replicate 18 0"] assms(2) by auto
  have n: "int (length (uri_text ids)) \<noteq> 0" by (simp add: length_uri_text)
  show ?thesis by (rule data_serialize_tlv [OF _ t n assms(3)]) simp
qed

lemma data_parse_tlv:
  "format = LWM2M_CONTENT_TLV \<or> format = LWM2M_CONTENT_TLV_NEW \<Longrightarrow> data_parse mal uri bs format = tlv_parse mal bs"
  by (auto simp: data_parse_def Let_def)

lemma tlv_delivered:
  assumes "alloc_ok mal" and "tlv_ok ds" and "ds \<noteq> []" and "24 * length (tlv_bytes r ds) < 2 ^ 31"
  shows "tlv_serialize mal r ds = Some (length (tlv_bytes r ds), tlv_bytes r ds)"
    and "tlv_decode_TLV rest = Some Fail \<Longrightarrow> tlv_parse mal (tlv_bytes r ds @ rest) = Some (received ds)"
proof -
  have "length (tlv_bytes r ds) < 2 ^ 31" using assms(4) by simp
  then show "tlv_serialize mal r ds = Some (length (tlv_bytes r ds), tlv_bytes r ds)"
    by (rule tlv_serialize_bytes [OF assms(1-3)])
  assume rest: "tlv_decode_TLV rest = Some Fail"
  have "tlv_parse mal (tlv_bytes r ds @ rest) = tlv_parse_loop mal rest ([] @ received ds)"
    unfolding tlv_parse_def by (rule tlv_parse_loop_bytes [OF assms(1,2)]) (use assms(4) in simp)
  also have "\<dots> = Some (received ds)" by (subst tlv_parse_loop.simps) (simp add: rest)
  finally show "tlv_parse mal (tlv_bytes r ds @ rest) = Some (received ds)" .
qed

lemma short_rest: "length rest < 2 \<Longrightarrow> tlv_decode_TLV rest = Some Fail"
  by (simp add: tlv_decode_TLV_def)

lemma leaf_received:
  assumes "leaf_bytes d = Some content"
  shows "received [d] = [Data (sd_id d) DATA_TYPE_OPAQUE content (AsInteger (snd (utils_opaqueToInt content)))]"
  using leaf_type(2) [OF assms] by (simp add: assms)

lemma leaf_tlv_ok: "leaf_bytes d = Some content \<Longrightarrow> content \<noteq> [] \<Longrightarrow> length content \<le> 0xFFFFFF \<Longrightarrow> tlv_ok [d]"
  using leaf_type(2) [of d content] by (simp add: leaf_ok_def)

lemma leaf_tlv_bytes: "leaf_bytes d = Some content \<Longrightarrow> tlv_bytes r [d] = tlv_item r (sd_type d) (sd_id d) content"
  using leaf_type(2) [of d content] by simp

lemma int_bytes_length: "utils_encodeInt v \<noteq> []" "length (utils_encodeInt v) \<le> 8"
  by (auto simp: utils_encodeInt_def Let_def dest!: arg_cong [where f = length])

lemma item_length_le: "length (tlv_item r t i content) \<le> 6 + length content"
  by (simp add: tlv_item_def tlv_header_def id_bytes_def length_field_def)

section \<open>Properties\<close>

text \<open>C7. A tree of values, of any depth and width within the limits of the format, is delivered:
  what \<open>tlv_serialize\<close> writes, \<open>tlv_parse\<close> reads as the same tree, each leaf the byte string of its
  value, the identifiers unchanged.\<close>

theorem tlv_tree_delivered:
  assumes "alloc_ok mal" and "tlv_ok ds" and "ds \<noteq> []" and "24 * length (tlv_bytes r ds) < 2 ^ 31"
  shows "\<exists>bs. tlv_serialize mal r ds = Some (length bs, bs) \<and> tlv_parse mal bs = Some (received ds)"
  using tlv_delivered(1) [OF assms] tlv_delivered(2) [OF assms, of "[]"] short_rest [of "[]"] by simp

definition example_tree :: "st_data list" where
  "example_tree = [Data 3 DATA_TYPE_OBJECT_INSTANCE []
     (AsChildren [Data 1 DATA_TYPE_BOOL [] (AsBoolean True), Data 300 DATA_TYPE_STRING [0x41, 0x42] NoValue])]"

lemma example_tree_ok: "tlv_ok example_tree" "length (tlv_bytes r example_tree) < 100"
  by (simp_all add: example_tree_def leaf_ok_def leaf_bytes_def as_boolean_def as_children_def kids_def
      tlv_item_def tlv_header_def id_bytes_def length_field_def)

theorem tlv_tree_delivered_witness:
  "\<exists>bs. tlv_serialize calloc False example_tree = Some (length bs, bs) \<and>
    tlv_parse calloc bs = Some (received example_tree)"
proof -
  have "24 * length (tlv_bytes False example_tree) < 2 ^ 31" using example_tree_ok(2) [of False] by simp
  moreover have "example_tree \<noteq> []" by (simp add: example_tree_def)
  ultimately show ?thesis by (intro tlv_tree_delivered example_tree_ok) simp_all
qed

text \<open>C24. An integer reported for a resource in the TLV format reaches the server as the same integer:
  through \<open>data_encode_int\<close>, \<open>data_serialize\<close>, \<open>data_parse\<close> and \<open>data_decode_int\<close>.\<close>

theorem report_int_delivered:
  assumes "alloc_ok mal" and "ids_ok ids" and "length (uri_text ids) < 18"
  shows "\<exists>bs d. data_serialize mal float_text (uri_of ids) [data_encode_int v (set_id i data_zero)] LWM2M_CONTENT_TLV =
      Some (int (length bs), LWM2M_CONTENT_TLV, bs) \<and>
    data_parse mal (uri_of ids) bs LWM2M_CONTENT_TLV = Some [d] \<and> sd_id d = i \<and>
    data_decode_int d = Some (Done v)"
proof -
  let ?d = "data_encode_int v (set_id i data_zero)" and ?r = "depth_of ids = URI_DEPTH_RESOURCE_INSTANCE"
  let ?bs = "tlv_bytes ?r [?d]"
  have d: "leaf_bytes ?d = Some (utils_encodeInt v)" "sd_id ?d = i"
    by (simp_all add: leaf_bytes_def data_encode_int_def set_value_def set_type_def set_id_def as_integer_def)
  have ok: "tlv_ok [?d]" by (rule leaf_tlv_ok [OF d(1)]) (use int_bytes_length [of v] in simp_all)
  have "length ?bs \<le> 14"
    unfolding leaf_tlv_bytes [OF d(1)]
    by (rule order_trans [OF item_length_le]) (use int_bytes_length(2) [of v] in simp)
  then have "24 * length ?bs \<le> 24 * 14" by (rule mult_le_mono2)
  then have len: "24 * length ?bs < 2 ^ 31" by (rule le_less_trans) simp
  have "data_serialize mal float_text (uri_of ids) [?d] LWM2M_CONTENT_TLV =
      Some (int (length ?bs), LWM2M_CONTENT_TLV, ?bs)"
    by (rule data_serialize_ids [OF assms(2,3) tlv_delivered(1) [OF assms(1) ok _ len]]) simp
  moreover have "tlv_parse mal (?bs @ []) = Some (received [?d])"
    by (rule tlv_delivered(2) [OF assms(1) ok _ len short_rest]) simp_all
  then have "data_parse mal (uri_of ids) ?bs LWM2M_CONTENT_TLV = Some (received [?d])"
    by (simp add: data_parse_tlv)
  moreover have "received [?d] = [Data i DATA_TYPE_OPAQUE (utils_encodeInt v) (AsInteger v)]"
    by (simp only: leaf_received [OF d(1)] d(2) opaque_encode snd_conv)
  ultimately show ?thesis
    by (intro exI [of _ ?bs] exI [of _ "Data i DATA_TYPE_OPAQUE (utils_encodeInt v) (AsInteger v)"])
      (simp only: st_data.sel data_decode_int_def et_data_type.case opaque_encode Let_def prod.case if_True refl simp_thms)
qed

theorem report_int_delivered_witness:
  "\<exists>bs d. data_serialize calloc (\<lambda>f. Fail) (uri_of [3, 0, 9])
      [data_encode_int 70000 (set_id 9 data_zero)] LWM2M_CONTENT_TLV = Some (int (length bs), LWM2M_CONTENT_TLV, bs) \<and>
    data_parse calloc (uri_of [3, 0, 9]) bs LWM2M_CONTENT_TLV = Some [d] \<and> sd_id d = 9 \<and>
    data_decode_int d = Some (Done 70000)"
  by (rule report_int_delivered) (simp_all add: ids_ok_def length_uri_text decimal_small)

text \<open>C29. \<open>tlv_parse\<close> has no undefined behaviour on any input while memory lasts: it never reads
  outside the buffer, it ends, and it makes at most half as many values as there are bytes.\<close>

theorem tlv_parse_safe:
  assumes "alloc_ok mal" and "24 * (length bs + 1) < 2 ^ 31"
  shows "\<exists>ds. tlv_parse mal bs = Some ds \<and> length ds \<le> length bs div 2"
  using tlv_parse_loop_total [OF assms(1), of "[]" bs] assms(2) by (simp add: tlv_parse_def)

theorem tlv_parse_safe_witness:
  "\<exists>ds. tlv_parse calloc [0xC8, 1, 200, 0, 0] = Some ds \<and> length ds \<le> length [0xC8 :: u8, 1, 200, 0, 0] div 2"
  by (rule tlv_parse_safe) simp_all

text \<open>When not even the first value can be allocated, a message with a record makes \<open>tlv_parse\<close>
  write through the null pointer: the test for it stands behind \<open>size >= 1\<close>.\<close>

theorem tlv_parse_no_memory:
  assumes "mal 24 = None" and "tlv_valid (t, i, content)"
  shows "tlv_parse mal (enc_tlv (t, i, content) @ rest) = None"
proof -
  have "length content \<le> 0xFFFFFF" using assms(2) by (simp add: tlv_valid_def)
  then show ?thesis
    unfolding tlv_parse_def
    by (subst tlv_parse_loop.simps) (simp add: enc_tlv_def decode_item data_new_def assms(1))
qed

text \<open>A record cut off at the end of a message is dropped without an error: the values before it
  are taken as if the message ended there.\<close>

theorem tlv_parse_ignores_tail:
  assumes "alloc_ok mal" and "tlv_ok ds" and "ds \<noteq> []" and "24 * length (tlv_bytes r ds) < 2 ^ 31"
    and "tlv_decode_TLV rest = Some Fail"
  shows "tlv_parse mal (tlv_bytes r ds @ rest) = Some (received ds)"
  by (rule tlv_delivered(2) [OF assms])

theorem tlv_parse_ignores_tail_witness:
  "tlv_parse calloc (tlv_bytes False example_tree @ [0xC8, 7, 200, 1]) = Some (received example_tree)"
proof -
  have "24 * length (tlv_bytes False example_tree) < 2 ^ 31" using example_tree_ok(2) [of False] by simp
  moreover have "example_tree \<noteq> []" by (simp add: example_tree_def)
  ultimately show ?thesis
    by (intro tlv_parse_ignores_tail example_tree_ok)
      (simp_all add: tlv_decode_TLV_def decode_length_def decode_id_def)
qed

text \<open>For a resource with three identifiers of five digits the failure of \<open>uri_toString\<close> goes
  unnoticed in \<open>data_serialize\<close>: the value is sent as a resource, where with shorter identifiers it
  is sent as a resource instance.\<close>

theorem data_serialize_unnoticed:
  assumes "10000 \<le> a" and "a \<le> 65534" and "10000 \<le> b" and "b \<le> 65534" and "10000 \<le> c" and "c \<le> 65534"
    and "alloc_ok mal" and "tlv_ok ds" and "ds \<noteq> []" and "24 * length (tlv_bytes False ds) < 2 ^ 31"
  shows "data_serialize mal float_text (uri_of [a, b, c]) ds LWM2M_CONTENT_TLV =
      Some (int (length (tlv_bytes False ds)), LWM2M_CONTENT_TLV, tlv_bytes False ds) \<and>
    data_serialize mal float_text (uri_of [3, 0, 1]) ds LWM2M_CONTENT_TLV =
      Some (int (length (tlv_bytes True ds)), LWM2M_CONTENT_TLV, tlv_bytes True ds)"
proof
  obtain buf where "uri_toString (Some (uri_of [a, b, c])) (replicate 18 0) = Some (-1, buf, Some URI_DEPTH_RESOURCE)"
    using uri_text_short_buffer [OF assms(1-6)] by blast
  then show "data_serialize mal float_text (uri_of [a, b, c]) ds LWM2M_CONTENT_TLV =
      Some (int (length (tlv_bytes False ds)), LWM2M_CONTENT_TLV, tlv_bytes False ds)"
    by (rule data_serialize_tlv [rotated]) (use tlv_delivered(1) [OF assms(7-10)] in simp_all)
  have "ids_ok [3, 0, 1]" "length (uri_text [3, 0, 1]) < 18"
    by (simp_all add: ids_ok_def length_uri_text decimal_small)
  moreover have "24 * length (tlv_bytes True ds) < 2 ^ 31" using assms(10) length_tlv_bytes [of True ds] by simp
  ultimately show "data_serialize mal float_text (uri_of [3, 0, 1]) ds LWM2M_CONTENT_TLV =
      Some (int (length (tlv_bytes True ds)), LWM2M_CONTENT_TLV, tlv_bytes True ds)"
    using tlv_delivered(1) [OF assms(7-9), of True] by (intro data_serialize_ids) simp_all
qed

end
