(* ===== verification/Cis_Transaction.thy ===== *)
theory Cis_Transaction
  imports Coap_Headers Coap_Codec Cis_Uri Cis_List
begin

text \<open>
  \<open>cis_transaction.c\<close>: the transactions that wait for an answer of the server. The list
  \<open>contextP->transactionList\<close> is sorted by message id; a pointer into it is the node. What a
  function does to the outside is a list of events: a datagram handed to the network, a call of
  the transaction's callback, an acknowledgement packet sent. The callbacks belong to the
  registration and bootstrap, which leave the transaction list alone.

  Times are \<open>int32_t\<close> seconds; an overflow is undefined.
\<close>

section \<open>State\<close>

text \<open>
  A server is the handle of its session. The buffer has \<open>buffer_len\<close> bytes. The three identifier
  strings only hold the texts that \<open>transaction_new\<close> puts into the path.
\<close>

record transaction =
  tr_mID :: u32
  tr_server :: "nat option"
  tr_ackReceived :: bool
  tr_responseTimeout :: int
  tr_retransCounter :: u8
  tr_retransTime :: int
  tr_message :: coap_packet
  tr_buffer :: "bytes option"
  tr_callback :: bool

datatype tr_event =
    Transmit nat bytes
  | Callback u32 "coap_packet option"
  | AckSent u16

text \<open>
  The platform: the allocator, the time, the sizes of the two structures and the bytes of the token
  that are left uninitialised.
\<close>

record platform =
  pf_malloc :: allocator
  pf_time :: int
  pf_sizeof_transaction :: u32
  pf_sizeof_packet :: u32
  pf_noise :: bytes

abbreviation COAP_RESPONSE_TIMEOUT :: int where "COAP_RESPONSE_TIMEOUT \<equiv> 2"
abbreviation COAP_MAX_RETRANSMIT :: u8 where "COAP_MAX_RETRANSMIT \<equiv> 4"

definition time32 :: "int \<Rightarrow> int option" where
  "time32 t = (if - (2 ^ 31) \<le> t \<and> t < 2 ^ 31 then Some t else None)"

section \<open>Creation\<close>

text \<open>A decimal segment of the path; \<open>STRING_ID_MAX_LEN\<close> is 6.\<close>

definition path_number :: "allocator \<Rightarrow> u16 \<Rightarrow> coap_packet \<Rightarrow> coap_packet status option" where
  "path_number mal n msg = do {
     (result, str) \<leftarrow> utils_intCopy (replicate 6 0) 6 (uint n);
     if result < 0 then Some Fail
     else do {
       (_, msg) \<leftarrow> coap_set_header_uri_path_segment mal msg (Some str);
       Some (Done msg) } }"

definition path_of_uri :: "allocator \<Rightarrow> st_uri \<Rightarrow> coap_packet \<Rightarrow> coap_packet status option" where
  "path_of_uri mal uri msg = do {
     r \<leftarrow> path_number mal (uri_objectId uri) msg;
     case r of
       Inl _ \<Rightarrow> Some Fail
     | Inr msg \<Rightarrow> do {
         r \<leftarrow> (if CIS_URI_IS_SET_INSTANCE uri then path_number mal (uri_instanceId uri) msg
               else if CIS_URI_IS_SET_RESOURCE uri
               then map_option (\<lambda>(_, msg). Done msg) (coap_set_header_uri_path_segment mal msg None)
               else Some (Done msg));
         case r of
           Inl _ \<Rightarrow> Some Fail
         | Inr msg \<Rightarrow>
             if CIS_URI_IS_SET_RESOURCE uri then path_number mal (uri_resourceId uri) msg
             else Some (Done msg) } }"

definition generated_token :: "platform \<Rightarrow> u16 \<Rightarrow> bytes" where
  "generated_token pf mID =
     (let t = (of_int (pf_time pf) :: u32) in
      [ucast mID, ucast (drop_bit 8 mID), ucast t, ucast (drop_bit 8 t), ucast (drop_bit 16 t),
       ucast (drop_bit 24 t)] @ pf_noise pf)"

text \<open>\<open>None\<close> as \<open>altPath\<close>, \<open>uriP\<close> or \<open>token\<close> is the null pointer, \<open>Fail\<close> the null pointer returned.\<close>

definition transaction_new ::
  "platform \<Rightarrow> coap_message_type \<Rightarrow> u8 \<Rightarrow> bytes option \<Rightarrow> st_uri option \<Rightarrow> u16 \<Rightarrow> u8 \<Rightarrow>
   bytes option \<Rightarrow> transaction status option" where
  "transaction_new pf type method altPath uriP mID token_len token =
     (let mal = pf_malloc pf in
      if type = COAP_TYPE_ACK \<or> type = COAP_TYPE_RST then Some Fail
      else if type = COAP_TYPE_NON \<and> (COAP_DELETE < method \<or> token_len = 0) then Some Fail
      else if mal (pf_sizeof_transaction pf) = None then Some Fail
      else if mal (pf_sizeof_packet pf) = None then Some Fail
      else do {
        let msg = coap_init_message type method mID;
        msg \<leftarrow> (case altPath of
                  None \<Rightarrow> Some msg
                | Some alt \<Rightarrow> map_option snd (coap_set_header_uri_path_segment mal msg (Some (tl alt))));
        r \<leftarrow> (case uriP of None \<Rightarrow> Some (Done msg) | Some uri \<Rightarrow> path_of_uri mal uri msg);
        case r of
          Inl _ \<Rightarrow> Some Fail
        | Inr msg \<Rightarrow> do {
            msg \<leftarrow> (if token_len = 0 then Some msg
                    else do {
                      tok \<leftarrow> aslice (case token of None \<Rightarrow> generated_token pf mID | Some t \<Rightarrow> t) 0
                               (unat (min token_len 8));
                      map_option snd (coap_set_header_token msg tok) });
            Some (Done \<lparr>tr_mID = ucast mID, tr_server = None, tr_ackReceived = False,
              tr_responseTimeout = 0, tr_retransCounter = 0, tr_retransTime = 0, tr_message = msg,
              tr_buffer = None, tr_callback = False\<rparr>) } })"

section \<open>The list\<close>

abbreviation trans_list :: "transaction list \<Rightarrow> bool" where
  "trans_list \<equiv> cis_list_ok tr_mID"

definition transaction_remove :: "transaction list \<Rightarrow> transaction \<Rightarrow> transaction list" where
  "transaction_remove l t = fst (cis_list_remove tr_mID l (tr_mID t))"

text \<open>An assignment through the pointer to a node.\<close>

definition write_node :: "transaction \<Rightarrow> transaction list \<Rightarrow> transaction list" where
  "write_node t l = map (\<lambda>u. if tr_mID u = tr_mID t then t else u) l"

fun transaction_removeAll :: "transaction list \<Rightarrow> transaction list" where
  "transaction_removeAll [] = []"
| "transaction_removeAll (t # ts) = transaction_removeAll ts"

fun transaction_count_loop :: "transaction list \<Rightarrow> u32 \<Rightarrow> u32" where
  "transaction_count_loop [] result = result"
| "transaction_count_loop (t # ts) result = transaction_count_loop ts (result + 1)"

definition transaction_count :: "transaction list \<Rightarrow> u32" where
  "transaction_count l = transaction_count_loop l 0"

section \<open>Answers\<close>

text \<open>\<open>memcmp\<close> of the token of the request with the one received.\<close>

definition prv_checkFinished :: "transaction \<Rightarrow> coap_packet \<Rightarrow> bool option" where
  "prv_checkFinished t received =
     (if COAP_DELETE < cp_code (tr_message t) then Some (tr_ackReceived t)
      else if \<not> IS_OPTION (tr_message t) COAP_OPTION_TOKEN then Some (tr_ackReceived t)
      else (let (len, token) = coap_get_header_token received in
            if uint (cp_token_len (tr_message t)) = len
            then (if len = 0 then Some True
                  else do {
                    token \<leftarrow> token;
                    a \<leftarrow> aslice (cp_token (tr_message t)) 0 (nat len);
                    b \<leftarrow> aslice token 0 (nat len);
                    Some (a = b) })
            else Some False))"

text \<open>
  The loop of \<open>transaction_handleResponse\<close> from the node \<open>t\<close> on; \<open>l\<close> is the whole list. The last
  argument says whether \<open>response\<close> is not null.
\<close>

fun handle_response_loop ::
  "platform \<Rightarrow> coap_packet \<Rightarrow> bool \<Rightarrow> transaction list \<Rightarrow> transaction list \<Rightarrow>
   (bool \<times> transaction list \<times> tr_event list) option" where
  "handle_response_loop pf message has_response [] l = Some (False, l, [])"
| "handle_response_loop pf message has_response (t # ts) l =
     (let answer = (cp_type message = COAP_TYPE_ACK \<or> cp_type message = COAP_TYPE_RST);
          found = (\<not> tr_ackReceived t \<and> answer \<and> tr_mID t = ucast (cp_mid message));
          reset = (found \<and> cp_type message = COAP_TYPE_RST);
          t = (if found then t\<lparr>tr_ackReceived := True\<rparr> else t)
      in do {
        finished \<leftarrow> (if reset then Some True else prv_checkFinished t message);
        if finished
        then (let acks = (if \<not> reset \<and> cp_type message = COAP_TYPE_CON \<and> has_response
                          then [AckSent (cp_mid message)] else [])
              in if \<not> reset \<and> cp_code message = COAP_401_UNAUTHORIZED \<and>
                    tr_retransCounter t < COAP_MAX_RETRANSMIT
                 then do {
                   rt \<leftarrow> time32 (tr_retransTime t + COAP_RESPONSE_TIMEOUT);
                   Some (True, write_node (t\<lparr>tr_ackReceived := False, tr_retransTime := rt\<rparr>) l, acks) }
                 else Some (True, transaction_remove l t,
                        acks @ (if tr_callback t then [Callback (tr_mID t) (Some message)] else [])))
        else if found
        then do {
          let base = (if 0 \<le> pf_time pf then pf_time pf else tr_retransTime t);
          rt \<leftarrow> time32 (base +
                  (if tr_responseTimeout t \<noteq> 0 then tr_responseTimeout t
                   else COAP_RESPONSE_TIMEOUT * uint (tr_retransCounter t)));
          Some (True, write_node (t\<lparr>tr_retransTime := rt\<rparr>) l, []) }
        else handle_response_loop pf message has_response ts l })"

definition transaction_handleResponse ::
  "platform \<Rightarrow> transaction list \<Rightarrow> coap_packet \<Rightarrow> bool \<Rightarrow>
   (bool \<times> transaction list \<times> tr_event list) option" where
  "transaction_handleResponse pf l message has_response =
     handle_response_loop pf message has_response l l"

section \<open>Sending\<close>

text \<open>The first part of \<open>transaction_send\<close>: serializing the message when that has not been done.\<close>

datatype prepared = Ready transaction | NotReady | Dropped

definition prepare_buffer :: "allocator \<Rightarrow> transaction \<Rightarrow> prepared option" where
  "prepare_buffer mal t =
     (if tr_buffer t \<noteq> None then Some (Ready t)
      else (let size = coap_serialize_get_size (tr_message t) in
            if size = 0 then Some NotReady
            else (case mal size of
                    None \<Rightarrow> Some NotReady
                  | Some buffer \<Rightarrow> do {
                      (len, msg, buffer) \<leftarrow> coap_serialize_message (tr_message t) buffer;
                      if len = 0 then Some Dropped
                      else Some (Ready (t\<lparr>tr_message := msg, tr_buffer := Some (take (unat len) buffer)\<rparr>)) })))"

definition give_up :: "transaction \<Rightarrow> tr_event list" where
  "give_up t = (if tr_callback t then [Callback (tr_mID t) None] else [])"

text \<open>
  \<open>transaction_send\<close>: the return value, the transaction, \<open>None\<close> when it was removed and freed, and
  the events. The network's verdict on the datagram is only logged.
\<close>

definition transaction_send ::
  "platform \<Rightarrow> transaction \<Rightarrow> (bool \<times> transaction option \<times> tr_event list) option" where
  "transaction_send pf t = do {
     p \<leftarrow> prepare_buffer (pf_malloc pf) t;
     case p of
       NotReady \<Rightarrow> Some (False, Some t, [])
     | Dropped \<Rightarrow> if tr_callback t then Some (False, None, give_up t) else None
     | Ready t \<Rightarrow>
         if tr_ackReceived t then Some (False, None, give_up t)
         else do {
           let first = (tr_retransCounter t = 0);
           let clock_bad = (first \<and> pf_time pf < 0);
           let timeout = (if first then 0 else COAP_RESPONSE_TIMEOUT * 2 ^ (unat (tr_retransCounter t) - 1));
           start \<leftarrow> (if first \<and> \<not> clock_bad then time32 (pf_time pf + COAP_RESPONSE_TIMEOUT)
                     else Some (tr_retransTime t));
           let t = t\<lparr>tr_retransTime := start,
                     tr_retransCounter := (if first \<and> \<not> clock_bad then 1 else tr_retransCounter t)\<rparr>;
           if tr_retransCounter t \<le> COAP_MAX_RETRANSMIT + 1
           then (case tr_server t of
                   None \<Rightarrow> Some (False, None, give_up t)
                 | Some session \<Rightarrow> do {
                     rt \<leftarrow> time32 (tr_retransTime t + timeout);
                     let t = t\<lparr>tr_retransTime := rt, tr_retransCounter := tr_retransCounter t + 1\<rparr>;
                     let sent = Transmit session (the (tr_buffer t));
                     if clock_bad then Some (False, None, sent # give_up t)
                     else Some (True, Some t, [sent]) })
           else Some (False, None, give_up t) } }"

text \<open>The walk over the list; the next node is read before \<open>transaction_send\<close> may free this one.\<close>

fun transaction_step_loop ::
  "platform \<Rightarrow> int \<Rightarrow> transaction list \<Rightarrow> transaction list \<Rightarrow>
   (transaction list \<times> tr_event list) option" where
  "transaction_step_loop pf currentTime [] l = Some (l, [])"
| "transaction_step_loop pf currentTime (t # ts) l =
     (if tr_retransTime t \<le> currentTime
      then do {
        (_, kept, evs) \<leftarrow> transaction_send pf t;
        let l = (case kept of None \<Rightarrow> transaction_remove l t | Some t' \<Rightarrow> write_node t' l);
        (l, evs') \<leftarrow> transaction_step_loop pf currentTime ts l;
        Some (l, evs @ evs') }
      else transaction_step_loop pf currentTime ts l)"

definition transaction_step ::
  "platform \<Rightarrow> transaction list \<Rightarrow> int \<Rightarrow> (transaction list \<times> tr_event list) option" where
  "transaction_step pf l currentTime = transaction_step_loop pf currentTime l l"

end
