(* ===== verification/Cis_Transaction_Laws.thy ===== *)
theory Cis_Transaction_Laws
  imports Cis_Transaction
begin

text \<open>
  The transaction list: the walk of \<open>transaction_step\<close>, which changes the list under its feet, polls
  every transaction once and independently of the others; the life of a transaction that is never
  answered; what an answer does; and the invariant of the reachable lists.
\<close>

section \<open>Nodes\<close>

lemma transaction_remove_filter:
  "trans_list l \<Longrightarrow> transaction_remove l t = filter (\<lambda>u. tr_mID u \<noteq> tr_mID t) l"
  by (simp add: transaction_remove_def cis_list_remove_filter)

lemma trans_list_ids: "trans_list l \<longleftrightarrow> sorted_wrt (<) (map tr_mID l)"
  by (simp add: cis_list_ok_def sorted_wrt_map)

lemma write_node_ids [simp]: "map tr_mID (write_node t l) = map tr_mID l"
  by (simp add: write_node_def)

lemma trans_list_write [simp]: "trans_list (write_node t l) = trans_list l"
  by (simp add: trans_list_ids)

lemma trans_list_remove: "trans_list l \<Longrightarrow> trans_list (transaction_remove l t)"
  by (simp add: transaction_remove_filter cis_list_ok_filter)

lemma trans_list_middle:
  assumes "trans_list (pre @ t # ts)"
  shows "\<And>u. u \<in> set pre \<union> set ts \<Longrightarrow> tr_mID u \<noteq> tr_mID t"
  using cis_list_ok_distinct [OF assms] by (auto simp: image_iff)

lemma write_middle:
  assumes "trans_list (pre @ t # ts)" and "tr_mID t' = tr_mID t"
  shows "write_node t' (pre @ t # ts) = pre @ t' # ts"
  using trans_list_middle [OF assms(1)] assms(2) by (auto simp: write_node_def intro!: map_idI)

lemma remove_middle:
  assumes "trans_list (pre @ t # ts)" and "tr_mID t' = tr_mID t"
  shows "transaction_remove (pre @ t # ts) t' = pre @ ts"
  using trans_list_middle [OF assms(1)] assms(2)
  by (auto simp: transaction_remove_filter [OF assms(1)] filter_empty_conv intro!: filter_True)

section \<open>Polling\<close>

lemma send_keeps_id:
  assumes "transaction_send pf t = Some (r, Some t', evs)"
  shows "tr_mID t' = tr_mID t"
proof -
  have p: "tr_mID u = tr_mID t" if "prepare_buffer (pf_malloc pf) t = Some (Ready u)" for u
    using that by (auto simp: prepare_buffer_def Let_def split: if_splits option.splits bind_splits)
  show ?thesis
    using assms p
    by (auto simp: transaction_send_def Let_def split: bind_splits prepared.splits if_splits option.splits)
qed

text \<open>One transaction at the time \<open>now\<close>.\<close>

definition poll :: "platform \<Rightarrow> int \<Rightarrow> transaction \<Rightarrow> (transaction option \<times> tr_event list) option" where
  "poll pf now t =
     (if tr_retransTime t \<le> now then map_option (\<lambda>(_, kept, evs). (kept, evs)) (transaction_send pf t)
      else Some (Some t, []))"

fun poll_all :: "platform \<Rightarrow> int \<Rightarrow> transaction list \<Rightarrow> (transaction list \<times> tr_event list) option" where
  "poll_all pf now [] = Some ([], [])"
| "poll_all pf now (t # ts) = do {
     (kept, evs) \<leftarrow> poll pf now t;
     (l, evs') \<leftarrow> poll_all pf now ts;
     Some ((case kept of None \<Rightarrow> l | Some t' \<Rightarrow> t' # l), evs @ evs') }"

lemma step_loop_polls:
  "trans_list (pre @ ts) \<Longrightarrow>
   transaction_step_loop pf now ts (pre @ ts) = map_option (\<lambda>(l, evs). (pre @ l, evs)) (poll_all pf now ts)"
proof (induction ts arbitrary: pre)
  case (Cons t ts)
  show ?case
  proof (cases "tr_retransTime t \<le> now")
    case True
    show ?thesis
    proof (cases "transaction_send pf t")
      case None
      then show ?thesis using True by (simp add: poll_def)
    next
      case (Some x)
      obtain r kept evs where x: "x = (r, kept, evs)" by (cases x)
      show ?thesis
      proof (cases kept)
        case None
        have "trans_list (pre @ ts)"
          using Cons.prems remove_middle [OF Cons.prems refl] trans_list_remove [OF Cons.prems, of t] by simp
        from Cons.IH [OF this] show ?thesis
          using True Some x None remove_middle [OF Cons.prems refl]
          by (simp add: poll_def split: bind_splits)
      next
        case (Some t')
        have i: "tr_mID t' = tr_mID t" using send_keeps_id \<open>transaction_send pf t = Some x\<close> x Some by blast
        have "trans_list ((pre @ [t']) @ ts)"
          using Cons.prems i by (simp add: trans_list_ids)
        from Cons.IH [OF this] show ?thesis
          using True \<open>transaction_send pf t = Some x\<close> x Some write_middle [OF Cons.prems i]
          by (simp add: poll_def) (cases "poll_all pf now ts"; simp add: case_prod_unfold)
      qed
    qed
  next
    case False
    have "trans_list ((pre @ [t]) @ ts)" using Cons.prems by simp
    from Cons.IH [OF this] False show ?thesis
      by (simp add: poll_def) (cases "poll_all pf now ts"; simp add: case_prod_unfold)
  qed
qed simp

lemma step_polls: "trans_list l \<Longrightarrow> transaction_step pf l now = poll_all pf now l"
  using step_loop_polls [of "[]" l pf now]
  by (cases "poll_all pf now l") (auto simp: transaction_step_def)

section \<open>A transaction without an answer\<close>

text \<open>After \<open>k\<close> transmissions, the first at \<open>t0\<close>.\<close>

definition waiting :: "nat \<Rightarrow> bytes \<Rightarrow> int \<Rightarrow> nat \<Rightarrow> transaction \<Rightarrow> bool" where
  "waiting session b t0 k t \<longleftrightarrow>
     tr_server t = Some session \<and> tr_buffer t = Some b \<and> \<not> tr_ackReceived t \<and>
     tr_retransCounter t = of_nat (k + 1) \<and> tr_retransTime t = t0 + 2 * (2 ^ k - 1)"

lemma sends_cases: "1 \<le> k \<Longrightarrow> k \<le> 5 \<Longrightarrow> k = 1 \<or> k = 2 \<or> k = 3 \<or> k = 4 \<or> k = (5 :: nat)"
  by arith

lemma poll_waiting:
  assumes "waiting session b t0 k t" and "1 \<le> k" and "k \<le> 5" and "0 \<le> t0" and "t0 < 2 ^ 30"
  shows "now < t0 + 2 * (2 ^ k - 1) \<Longrightarrow> poll pf now t = Some (Some t, [])"
    and "t0 + 2 * (2 ^ k - 1) \<le> now \<Longrightarrow> k < 5 \<Longrightarrow>
      \<exists>t'. poll pf now t = Some (Some t', [Transmit session b]) \<and> waiting session b t0 (k + 1) t' \<and>
        tr_callback t' = tr_callback t \<and> tr_mID t' = tr_mID t"
    and "t0 + 2 * (2 ^ k - 1) \<le> now \<Longrightarrow> k = 5 \<Longrightarrow> poll pf now t = Some (None, give_up t)"
  using assms sends_cases [OF assms(2,3)]
  by (auto simp: poll_def waiting_def transaction_send_def prepare_buffer_def time32_def give_up_def Let_def)

text \<open>The pump calls \<open>transaction_step\<close> at the times of a list; the clock shows these times.\<close>

fun transaction_polls ::
  "platform \<Rightarrow> transaction list \<Rightarrow> int list \<Rightarrow> (transaction list \<times> tr_event list) option" where
  "transaction_polls pf l [] = Some (l, [])"
| "transaction_polls pf l (now # ts) = do {
     (l, evs) \<leftarrow> transaction_step (pf\<lparr>pf_time := now\<rparr>) l now;
     (l, evs') \<leftarrow> transaction_polls pf l ts;
     Some (l, evs @ evs') }"

lemma polls_none [simp]: "transaction_polls pf [] ts = Some ([], [])"
  by (induction ts) (simp_all add: transaction_step_def)

lemma step_single:
  "transaction_step pf [t] now =
     map_option (\<lambda>(kept, evs). (case kept of None \<Rightarrow> [] | Some t' \<Rightarrow> [t'], evs)) (poll pf now t)"
  by (simp add: step_polls) (cases "poll pf now t"; auto split: option.splits)

definition late :: "int \<Rightarrow> int list \<Rightarrow> nat" where
  "late t0 ts = length (filter (\<lambda>n. t0 + 62 \<le> n) ts)"

lemma due_bound: "k \<le> 5 \<Longrightarrow> (t0 :: int) + 62 \<le> now \<Longrightarrow> t0 + 2 * (2 ^ k - 1) \<le> now"
proof -
  assume a: "k \<le> 5" "t0 + 62 \<le> now"
  have "(2 :: int) ^ k \<le> 2 ^ 5" using a(1) by (intro power_increasing) simp_all
  then show ?thesis using a(2) by simp
qed

lemma polls_waiting:
  assumes "waiting session b t0 k t" and "1 \<le> k" and "k \<le> 5" and "0 \<le> t0" and "t0 < 2 ^ 30"
  shows "\<exists>l j. transaction_polls pf [t] ts =
      Some (l, replicate j (Transmit session b) @ (if l = [] then give_up t else [])) \<and>
    k + j \<le> 5 \<and> (l = [] \<longrightarrow> k + j = 5) \<and> (5 - k < late t0 ts \<longrightarrow> l = [])"
  using assms(1-3)
proof (induction ts arbitrary: t k)
  case Nil
  then show ?case by (intro exI [of _ "[t]"] exI [of _ 0]) (simp add: late_def)
next
  case (Cons now ts)
  let ?pf = "pf\<lparr>pf_time := now\<rparr>"
  note p = poll_waiting [OF Cons.prems assms(4,5), of now ?pf]
  consider (wait) "now < t0 + 2 * (2 ^ k - 1)" | (retry) "t0 + 2 * (2 ^ k - 1) \<le> now" "k < 5"
    | (last) "t0 + 2 * (2 ^ k - 1) \<le> now" "k = 5"
    using Cons.prems(3) by linarith
  then show ?case
  proof cases
    case wait
    have "\<not> t0 + 62 \<le> now" using due_bound [OF Cons.prems(3), of t0 now] wait by linarith
    then have "late t0 (now # ts) = late t0 ts" by (simp add: late_def)
    then show ?thesis using Cons.IH [OF Cons.prems] p(1) [OF wait] by (simp add: step_single)
  next
    case retry
    from p(2) [OF retry] obtain t' where t': "poll ?pf now t = Some (Some t', [Transmit session b])"
      "waiting session b t0 (k + 1) t'" "give_up t' = give_up t" by (auto simp: give_up_def)
    from Cons.IH [OF t'(2)] retry(2) obtain l j where
      "transaction_polls pf [t'] ts = Some (l, replicate j (Transmit session b) @ (if l = [] then give_up t else []))"
      "k + 1 + j \<le> 5" "l = [] \<longrightarrow> k + 1 + j = 5" "5 - (k + 1) < late t0 ts \<longrightarrow> l = []"
      by (auto simp: t'(3))
    moreover have "late t0 (now # ts) \<le> Suc (late t0 ts)" by (simp add: late_def)
    ultimately show ?thesis using t'(1)
      by (intro exI [of _ l] exI [of _ "Suc j"]) (auto simp: step_single)
  next
    case last
    then show ?thesis using p(3) [OF last] by (intro exI [of _ "[]"] exI [of _ 0]) (simp add: step_single)
  qed
qed

text \<open>A transaction just created for a server, whose message serializes to \<open>b\<close>.\<close>

definition fresh :: "allocator \<Rightarrow> nat \<Rightarrow> bytes \<Rightarrow> transaction \<Rightarrow> bool" where
  "fresh mal session b t \<longleftrightarrow>
     tr_server t = Some session \<and> \<not> tr_ackReceived t \<and> tr_retransCounter t = 0 \<and> tr_retransTime t = 0 \<and>
     (case prepare_buffer mal t of Some (Ready u) \<Rightarrow> tr_buffer u = Some b | _ \<Rightarrow> False)"

lemma prepare_keeps:
  assumes "prepare_buffer mal t = Some (Ready u)"
  shows "tr_server u = tr_server t" "tr_ackReceived u = tr_ackReceived t" "tr_mID u = tr_mID t"
    "tr_retransCounter u = tr_retransCounter t" "tr_retransTime u = tr_retransTime t"
    "tr_callback u = tr_callback t" "tr_buffer u \<noteq> None"
  using assms by (auto simp: prepare_buffer_def Let_def split: if_splits option.splits bind_splits)

lemma first_send:
  assumes "fresh (pf_malloc pf) session b t" and "pf_time pf = t0" and "0 \<le> t0" and "t0 < 2 ^ 30"
  shows "\<exists>t'. poll pf t0 t = Some (Some t', [Transmit session b]) \<and> waiting session b t0 1 t' \<and>
    tr_callback t' = tr_callback t \<and> tr_mID t' = tr_mID t"
proof -
  obtain u where u: "prepare_buffer (pf_malloc pf) t = Some (Ready u)" "tr_buffer u = Some b"
    using assms(1) by (auto simp: fresh_def split: option.splits prepared.splits)
  show ?thesis
    using assms u prepare_keeps [OF u(1)]
    by (simp add: fresh_def poll_def transaction_send_def waiting_def time32_def Let_def)
qed

lemma polls_fresh:
  assumes "fresh (pf_malloc pf) session b t" and "0 \<le> t0" and "t0 < 2 ^ 30"
  shows "\<exists>l k. transaction_polls pf [t] (t0 # ts) =
      Some (l, replicate k (Transmit session b) @ (if l = [] then give_up t else [])) \<and>
    1 \<le> k \<and> k \<le> 5 \<and> (l = [] \<longrightarrow> k = 5) \<and> (4 < late t0 ts \<longrightarrow> l = [])"
proof -
  have "fresh (pf_malloc (pf\<lparr>pf_time := t0\<rparr>)) session b t" using assms(1) by simp
  from first_send [OF this, of t0] assms(2,3) obtain t' where
    t': "poll (pf\<lparr>pf_time := t0\<rparr>) t0 t = Some (Some t', [Transmit session b])"
      "waiting session b t0 1 t'" "give_up t' = give_up t"
    by (auto simp: give_up_def)
  from polls_waiting [OF t'(2) _ _ assms(2,3), of pf ts] obtain l j where
    "transaction_polls pf [t'] ts = Some (l, replicate j (Transmit session b) @ (if l = [] then give_up t else []))"
    "1 + j \<le> 5" "l = [] \<longrightarrow> 1 + j = 5" "5 - 1 < late t0 ts \<longrightarrow> l = []"
    by (auto simp: t'(3))
  then show ?thesis using t'(1)
    by (intro exI [of _ l] exI [of _ "Suc j"]) (auto simp: step_single)
qed

section \<open>Answers\<close>

text \<open>The token of a request, as far as it is compared.\<close>

definition token_of :: "coap_packet \<Rightarrow> bytes" where
  "token_of p = (if IS_OPTION p COAP_OPTION_TOKEN then take (unat (cp_token_len p)) (cp_token p) else [])"

definition token_ok :: "coap_packet \<Rightarrow> bool" where
  "token_ok p \<longleftrightarrow> unat (cp_token_len p) \<le> length (cp_token p)"

lemma length_token: "token_ok p \<Longrightarrow> IS_OPTION p COAP_OPTION_TOKEN \<Longrightarrow> length (token_of p) = unat (cp_token_len p)"
  by (simp add: token_of_def token_ok_def)

lemma checkFinished_token:
  assumes "cp_code (tr_message t) \<le> COAP_DELETE" and "IS_OPTION (tr_message t) COAP_OPTION_TOKEN"
    and "token_ok (tr_message t)" and "token_ok m"
  shows "prv_checkFinished t m = Some (token_of (tr_message t) = token_of m)"
proof (cases "IS_OPTION m COAP_OPTION_TOKEN")
  case True
  have nat: "nat (uint (cp_token_len m)) = unat (cp_token_len m)" by simp
  have z: "uint (cp_token_len m) = 0 \<longleftrightarrow> unat (cp_token_len m) = 0" by (simp add: unat_eq_0 word_uint_eq_iff)
  have "uint (cp_token_len (tr_message t)) = uint (cp_token_len m) \<longleftrightarrow>
      unat (cp_token_len (tr_message t)) = unat (cp_token_len m)" by (simp add: word_uint_eq_iff [symmetric] word_unat_eq_iff [symmetric])
  then show ?thesis
    using assms True length_token [OF assms(3,2)] length_token [OF assms(4) True]
    by (auto simp: prv_checkFinished_def coap_get_header_token_def token_of_def token_ok_def not_less z dest: arg_cong [where f = length])
next
  case False
  have z: "uint (cp_token_len (tr_message t)) = 0 \<longleftrightarrow> cp_token_len (tr_message t) = 0"
    by (simp add: word_uint_eq_iff)
  show ?thesis
    using False assms length_token [OF assms(3,2)]
    by (auto simp: prv_checkFinished_def coap_get_header_token_def token_of_def token_ok_def not_less unat_eq_0 z)
qed

text \<open>A message that leaves a transaction alone.\<close>

definition ignores :: "coap_packet \<Rightarrow> transaction \<Rightarrow> bool" where
  "ignores m t \<longleftrightarrow>
     prv_checkFinished t m = Some False \<and>
     \<not> (\<not> tr_ackReceived t \<and> (cp_type m = COAP_TYPE_ACK \<or> cp_type m = COAP_TYPE_RST) \<and>
        tr_mID t = ucast (cp_mid m))"

lemma response_skips:
  "list_all (ignores m) pre \<Longrightarrow>
   handle_response_loop pf m h (pre @ ts) l = handle_response_loop pf m h ts l"
  by (induction pre) (auto simp: ignores_def Let_def)

lemma response_finishes:
  assumes "trans_list (pre @ t # ts)" and "list_all (ignores m) pre"
    and "cp_type m \<noteq> COAP_TYPE_RST" and "cp_code m \<noteq> COAP_401_UNAUTHORIZED"
    and "prv_checkFinished (if \<not> tr_ackReceived t \<and> cp_type m = COAP_TYPE_ACK \<and> tr_mID t = ucast (cp_mid m)
           then t\<lparr>tr_ackReceived := True\<rparr> else t) m = Some True"
  shows "transaction_handleResponse pf (pre @ t # ts) m h =
    Some (True, pre @ ts, (if cp_type m = COAP_TYPE_CON \<and> h then [AckSent (cp_mid m)] else []) @
      (if tr_callback t then [Callback (tr_mID t) (Some m)] else []))"
proof -
  have rm: "transaction_remove (pre @ t # ts) t' = pre @ ts" if "tr_mID t' = tr_mID t" for t'
    by (rule remove_middle [OF assms(1) that])
  show ?thesis
    using assms(3-5)
    by (auto simp: transaction_handleResponse_def response_skips [OF assms(2)] Let_def rm split: if_splits)
qed

lemma response_acknowledges:
  assumes "trans_list (pre @ t # ts)" and "list_all (ignores m) pre"
    and "\<not> tr_ackReceived t" and "cp_type m = COAP_TYPE_ACK" and "tr_mID t = ucast (cp_mid m)"
    and "prv_checkFinished (t\<lparr>tr_ackReceived := True\<rparr>) m = Some False"
    and "0 \<le> pf_time pf" and "pf_time pf < 2 ^ 30" and "0 \<le> tr_responseTimeout t" and "tr_responseTimeout t < 2 ^ 30"
  shows "\<exists>rt. transaction_handleResponse pf (pre @ t # ts) m h =
    Some (True, pre @ t\<lparr>tr_ackReceived := True, tr_retransTime := rt\<rparr> # ts, [])"
proof -
  have "uint (tr_retransCounter t) < 2 ^ LENGTH(8)" by (rule unsigned_less)
  moreover have "0 \<le> uint (tr_retransCounter t)" by simp
  ultimately obtain c where c: "uint (tr_retransCounter t) = c" "0 \<le> c" "c < 256" by simp
  have w: "write_node t' (pre @ t # ts) = pre @ t' # ts" if "tr_mID t' = tr_mID t" for t'
    by (rule write_middle [OF assms(1) that])
  let ?rt = "pf_time pf + (if tr_responseTimeout t \<noteq> 0 then tr_responseTimeout t
      else COAP_RESPONSE_TIMEOUT * uint (tr_retransCounter t))"
  have "time32 ?rt = Some ?rt" using assms(7-10) c(2,3) by (simp add: time32_def c(1))
  then show ?thesis
    using assms(3-7)
    by (intro exI [of _ ?rt], cases "tr_responseTimeout t = 0")
      (simp_all add: transaction_handleResponse_def response_skips [OF assms(2)] Let_def w)
qed

section \<open>Reachable lists\<close>

text \<open>
  What happens to the list: the registration creates a transaction under a fresh message id, puts
  it into the list and sends it; the pump polls; answers arrive; everything is dropped.
\<close>

inductive trans_reach :: "transaction list \<Rightarrow> bool" where
  reach_start: "trans_reach []"
| reach_add: "trans_reach l \<Longrightarrow> transaction_new pf ty meth alt uri mID n tok = Some (Done t) \<Longrightarrow>
    ucast mID \<notin> set (map tr_mID l) \<Longrightarrow>
    trans_reach (cis_list_add tr_mID l (t\<lparr>tr_server := srv, tr_callback := cb\<rparr>))"
| reach_send: "trans_reach l \<Longrightarrow> t \<in> set l \<Longrightarrow> transaction_send pf t = Some (r, kept, evs) \<Longrightarrow>
    trans_reach (case kept of None \<Rightarrow> transaction_remove l t | Some t' \<Rightarrow> write_node t' l)"
| reach_step: "trans_reach l \<Longrightarrow> transaction_step pf l now = Some (l', evs) \<Longrightarrow> trans_reach l'"
| reach_response: "trans_reach l \<Longrightarrow> transaction_handleResponse pf l m h = Some (r, l', evs) \<Longrightarrow> trans_reach l'"
| reach_clear: "trans_reach l \<Longrightarrow> trans_reach (transaction_removeAll l)"

inductive_cases trans_reachE: "trans_reach l"

definition trans_inv :: "transaction list \<Rightarrow> bool" where
  "trans_inv l \<longleftrightarrow> trans_list l \<and> list_all (\<lambda>t. tr_retransCounter t \<le> 6) l"

lemma new_transaction:
  assumes "transaction_new pf ty meth alt uri mID n tok = Some (Done t)"
  shows "tr_mID t = ucast mID" "tr_retransCounter t = 0"
  using assms by (auto simp: transaction_new_def Let_def split: if_splits bind_splits sum.splits)

lemma send_counter:
  assumes "transaction_send pf t = Some (r, Some t', evs)" and "tr_retransCounter t \<le> 6"
  shows "tr_retransCounter t' \<le> 6"
proof -
  have inc: "c + 1 \<le> 6" if "c \<le> 5" for c :: u8
    using that unat_add_id [of c 1] by (simp add: word_le_nat_alt)
  have p: "tr_retransCounter u = tr_retransCounter t" if "prepare_buffer (pf_malloc pf) t = Some (Ready u)" for u
    by (rule prepare_keeps [OF that])
  show ?thesis
    using assms p inc
    by (auto simp: transaction_send_def Let_def split: bind_splits prepared.splits if_splits option.splits)
qed

lemma inv_remove: "trans_inv l \<Longrightarrow> trans_inv (transaction_remove l t)"
  by (auto simp: trans_inv_def transaction_remove_filter cis_list_ok_filter list_all_iff)

lemma inv_write: "trans_inv l \<Longrightarrow> tr_retransCounter t \<le> 6 \<Longrightarrow> trans_inv (write_node t l)"
  by (auto simp: trans_inv_def list_all_iff write_node_def trans_list_write [unfolded write_node_def])

lemma step_loop_inv:
  "trans_inv l \<Longrightarrow> list_all (\<lambda>t. tr_retransCounter t \<le> 6) ts \<Longrightarrow>
   transaction_step_loop pf now ts l = Some (l', evs) \<Longrightarrow> trans_inv l'"
proof (induction ts arbitrary: l evs)
  case (Cons t ts)
  show ?case
  proof (cases "tr_retransTime t \<le> now")
    case True
    then obtain r kept e1 e2 where s: "transaction_send pf t = Some (r, kept, e1)"
      and l: "transaction_step_loop pf now ts (case kept of None \<Rightarrow> transaction_remove l t | Some t' \<Rightarrow> write_node t' l) =
        Some (l', e2)"
      using Cons.prems(3) by (auto simp: Let_def split: bind_splits)
    have "trans_inv (case kept of None \<Rightarrow> transaction_remove l t | Some t' \<Rightarrow> write_node t' l)"
      using Cons.prems(1,2) s send_counter [of pf t r] by (auto simp: inv_remove inv_write split: option.splits)
    from Cons.IH [OF this _ l] show ?thesis using Cons.prems(2) by simp
  next
    case False
    then show ?thesis using Cons by simp
  qed
qed simp

lemma response_inv:
  "trans_inv l \<Longrightarrow> list_all (\<lambda>t. tr_retransCounter t \<le> 6) ts \<Longrightarrow>
   handle_response_loop pf m h ts l = Some (r, l', evs) \<Longrightarrow> trans_inv l'"
proof (induction ts)
  case (Cons t ts)
  have w: "trans_inv (write_node (t\<lparr>tr_ackReceived := a, tr_retransTime := rt\<rparr>) l)"
    "trans_inv (write_node (t\<lparr>tr_retransTime := rt\<rparr>) l)" "trans_inv (transaction_remove l u)" for a rt u
    using Cons.prems(1,2) by (simp_all add: inv_write inv_remove)
  show ?case
    using Cons.prems Cons.IH w
    by (auto simp: Let_def split: bind_splits if_splits)
qed simp

lemma removeAll_Nil [simp]: "transaction_removeAll l = []"
  by (induction l) simp_all

lemma reach_inv: "trans_reach l \<Longrightarrow> trans_inv l"
proof (induction rule: trans_reach.induct)
  case reach_start
  show ?case by (simp add: trans_inv_def)
next
  case (reach_add l pf ty meth alt uri mID n tok t cb srv)
  have "tr_mID (t\<lparr>tr_server := srv, tr_callback := cb\<rparr>) \<notin> tr_mID ` set l"
    using reach_add new_transaction(1) [OF reach_add(2)] by simp
  then show ?case
    using reach_add.IH new_transaction(2) [OF reach_add(2)]
    by (auto simp: trans_inv_def list_all_iff cis_list_add_ok)
next
  case (reach_send l t pf r kept evs)
  then have "tr_retransCounter t \<le> 6" by (auto simp: trans_inv_def list_all_iff)
  then show ?case
    using reach_send send_counter [of pf t r] by (auto simp: inv_remove inv_write split: option.splits)
next
  case (reach_step l pf now l' evs)
  then show ?case using step_loop_inv [of l l pf now l' evs] by (simp add: transaction_step_def trans_inv_def)
next
  case (reach_response l pf m h r l' evs)
  then show ?case
    using response_inv [of l l pf m h r l' evs] by (simp add: transaction_handleResponse_def trans_inv_def)
next
  case (reach_clear l)
  then show ?case by (simp add: trans_inv_def)
qed

end
