(* ===== verification/Cis_Transaction_Contract.thy ===== *)
theory Cis_Transaction_Contract
  imports Cis_Transaction_Laws Cis_Uri_Contract
begin

text \<open>
  What \<open>cis_transaction.c\<close> promises: retransmission with exponential back-off that ends, answers
  that reach their request, and a list that stays in order.
\<close>

definition example_transaction :: transaction where
  "example_transaction = \<lparr>tr_mID = 7, tr_server = Some 1, tr_ackReceived = False, tr_responseTimeout = 0,
     tr_retransCounter = 0, tr_retransTime = 0,
     tr_message = coap_zero\<lparr>cp_code := 1, cp_mid := 7, cp_token_len := 1, cp_token := 5 # replicate 7 0,
       cp_options := [0, 0, 8, 0, 0, 0, 0, 0]\<rparr>,
     tr_buffer = Some [0x41, 1, 0, 7, 5], tr_callback = True\<rparr>"

definition example_platform :: platform where
  "example_platform = \<lparr>pf_malloc = calloc, pf_time = 100, pf_sizeof_transaction = 68,
     pf_sizeof_packet = 144, pf_noise = [0, 0]\<rparr>"

definition example_answer :: coap_packet where
  "example_answer = coap_zero\<lparr>cp_type := COAP_TYPE_CON, cp_code := 0x45, cp_mid := 99, cp_token_len := 1,
     cp_token := 5 # replicate 7 0, cp_options := [0, 0, 8, 0, 0, 0, 0, 0]\<rparr>"

definition example_ack :: coap_packet where
  "example_ack = coap_zero\<lparr>cp_type := COAP_TYPE_ACK, cp_mid := 7\<rparr>"

lemma example_fresh: "fresh calloc 1 [0x41, 1, 0, 7, 5] example_transaction"
  by (simp add: fresh_def prepare_buffer_def example_transaction_def)

lemma example_tokens:
  "token_of (tr_message example_transaction) = [5]" "token_of example_answer = [5]" "token_of example_ack = []"
  "token_ok (tr_message example_transaction)" "token_ok example_answer" "token_ok example_ack"
  "IS_OPTION (tr_message example_transaction) COAP_OPTION_TOKEN"
  by (simp_all add: token_of_def token_ok_def example_transaction_def example_answer_def example_ack_def
      coap_zero_def IS_OPTION_def)

section \<open>Requests\<close>

abbreviation with_path :: "bytes list \<Rightarrow> coap_packet \<Rightarrow> coap_packet" where
  "with_path segs p \<equiv> p\<lparr>cp_uri_path := map node segs, cp_options := mark (cp_options p) COAP_OPTION_URI_PATH\<rparr>"

lemma mark_again: "length os = 8 \<Longrightarrow> n < 64 \<Longrightarrow> mark (mark os n) n = mark os n"
  by (simp add: mark_def div8)

lemma path_number_segment:
  assumes "mallocs mal" and "coap_built mal p" and "n \<le> 65534" and "cp_uri_path p = map node segs"
  shows "path_number mal (of_nat n) p = Some (Done (with_path (segs @ [decimal n]) p)) \<and>
    coap_built mal (with_path (segs @ [decimal n]) p)"
proof -
  let ?d = "decimal n"
  have u: "uint (of_nat n :: u16) = int n" using assms(3) unat_id [OF assms(3)] by (simp add: uint_nat del: of_nat_unat)
  have len: "length ?d \<le> 5" by (rule length_decimal) (use assms(3) in simp_all)
  obtain tail where "utils_intToText (int n) (replicate 11 0) = Some (length ?d, ?d @ tail)"
    using intToText_nonneg [of "int n" "replicate 11 0"] assms(3) len by auto
  then have copy: "utils_intCopy (replicate 6 0) 6 (int n) = Some (int (length ?d), ?d @ 0 # replicate (5 - length ?d) 0)"
    using len by (auto simp: utils_intCopy_def list_update_append replicate_append_same Suc_diff_le [symmetric]
        split: if_splits intro!: nth_equalityI simp: nth_list_update nth_append nth_Cons')
  let ?s = "?d @ 0 # replicate (5 - length ?d) 0"
  have s: "\<not> at_end ?s" "c_string ?s = ?d" "length ?s \<le> 255"
    using digits_path_chars [OF decimal_digits, of _ n] len by (simp_all add: c_string_def takeWhile_append2)
  have opts: "length (cp_options p) = 8" using coap_built_ok [OF assms(1,2)] by (simp add: coap_ok_def)
  have q: "\<exists>r. coap_set_header_uri_path_segment mal p (Some ?s) = Some (r, with_path (segs @ [?d]) p)"
    using opts s by (simp add: coap_set_header_uri_path_segment_def add_node [OF assms(1)] with_option_in assms(4))
  then obtain r where r: "coap_set_header_uri_path_segment mal p (Some ?s) = Some (r, with_path (segs @ [?d]) p)" ..
  have "coap_built mal (with_path (segs @ [?d]) p)" by (rule built_uri_path_segment [OF assms(2) s(3) r])
  then show ?thesis using r copy by (simp add: path_number_def u)
qed

lemma uri_of_object: "\<not> CIS_URI_IS_SET_RESOURCE (uri_of [a])"
  by (simp add: set_object_def uri_zero_def CIS_URI_IS_SET_RESOURCE_def)

lemma path_of_uri_segments:
  assumes "mallocs mal" and "coap_built mal p" and "ids_ok ids" and "cp_uri_path p = []"
  shows "path_of_uri mal (uri_of ids) p = Some (Done (with_path (map decimal ids) p)) \<and>
    coap_built mal (with_path (map decimal ids) p)"
proof -
  have nil: "cp_uri_path p = map node []" by (simp add: assms(4))
  have opts: "length (cp_options p) = 8" using coap_built_ok [OF assms(1,2)] by (simp add: coap_ok_def)
  have again: "with_path segs (with_path segs' p) = with_path segs p" for segs segs'
    by (simp add: mark_again opts)
  have path: "cp_uri_path (with_path segs q) = map node segs" for segs q by simp
  note first = path_number_segment [OF assms(1,2) _ nil, unfolded append_Nil]
  note more = path_number_segment [OF assms(1) _ _ path, unfolded again append_Cons append_Nil]
  show ?thesis
    using assms(3)
  proof (cases rule: ids_cases)
    case (1 a)
    from first [OF 1(2)] 1 show ?thesis
      by (simp add: path_of_uri_def uri_of_fields uri_of_object del: uri_of.simps)
  next
    case (2 a b)
    note p1 = first [OF 2(2)]
    note p2 = more [OF conjunct2 [OF p1] 2(3)]
    from p1 p2 2 show ?thesis
      by (simp add: path_of_uri_def uri_of_fields mark_again opts del: uri_of.simps)
  next
    case (3 a b c)
    note p1 = first [OF 3(2)]
    note p2 = more [OF conjunct2 [OF p1] 3(3)]
    note p3 = more [OF conjunct2 [OF p2] 3(4)]
    from p1 p2 p3 3 show ?thesis
      by (simp add: path_of_uri_def uri_of_fields mark_again opts del: uri_of.simps)
  qed
qed

text \<open>The datagram of such a request is short.\<close>

lemma path_opts_length:
  assumes "list_all (\<lambda>n. n \<le> 65534) ids"
  shows "length (enc_opts COAP_OPTION_URI_PATH (map (\<lambda>n. (COAP_OPTION_URI_PATH, decimal n)) ids)) \<le> 6 * length ids"
  using assms
proof (induction ids)
  case (Cons n ids)
  have "length (decimal n) \<le> 5" by (rule length_decimal) (use Cons.prems in simp_all)
  moreover from this have "unat (of_nat (length (decimal n)) :: u32) = length (decimal n)" by (intro unat_of_nat_id) simp
  ultimately show ?case using Cons by (simp add: coap_set_option_header_def option_extension_def word_less_nat_alt)
qed simp

lemma path_request_length:
  assumes "ids_ok ids" and "unat (cp_token_len m) \<le> 8" and "cp_payload_len m = 0"
    and "coap_opts m = map (\<lambda>n. (COAP_OPTION_URI_PATH, decimal n)) ids"
  shows "length (coap_bytes m) \<le> 64"
proof -
  obtain n ns where ids: "ids = n # ns" using assms(1) by (cases ids) (auto simp: ids_ok_def)
  have le: "n \<le> 65534" "list_all (\<lambda>n. n \<le> 65534) ns" "length ns \<le> 2" using assms(1) by (auto simp: ids_ok_def ids)
  have "length (decimal n) \<le> 5" by (rule length_decimal) (use le(1) in simp_all)
  moreover from this have "unat (of_nat (length (decimal n)) :: u32) = length (decimal n)" by (intro unat_of_nat_id) simp
  ultimately have "length (enc_opts 0 (coap_opts m)) \<le> 20"
    using path_opts_length [OF le(2)] le(3)
    by (simp add: assms(4) ids coap_set_option_header_def option_extension_def word_less_nat_alt)
  then show ?thesis using assms(2,3) by (simp add: coap_bytes_def)
qed

section \<open>Properties\<close>

text \<open>C6. A request that is never answered is sent at most five times, each time with the same bytes to
  the same server; it is dropped only after the fifth, and then its callback is told so, once, after
  the last transmission. When the pump has run five times more than 62 seconds after the first
  transmission, it has been dropped.\<close>

theorem transaction_gives_up:
  assumes "fresh (pf_malloc pf) session b t" and "0 \<le> t0" and "t0 < 2 ^ 30"
  shows "\<exists>l k. transaction_polls pf [t] (t0 # ts) =
      Some (l, replicate k (Transmit session b) @ (if l = [] then give_up t else [])) \<and>
    1 \<le> k \<and> k \<le> 5 \<and> (l = [] \<longrightarrow> k = 5) \<and> (4 < late t0 ts \<longrightarrow> l = [])"
  by (rule polls_fresh [OF assms])

theorem transaction_gives_up_witness:
  "transaction_polls example_platform [example_transaction] (100 # [102, 170, 170, 170, 170, 171]) =
    Some ([], replicate 5 (Transmit 1 [0x41, 1, 0, 7, 5]) @ [Callback 7 None])"
proof -
  have f: "fresh (pf_malloc example_platform) 1 [0x41, 1, 0, 7, 5] example_transaction"
    using example_fresh by (simp add: example_platform_def)
  have g: "give_up example_transaction = [Callback 7 None]"
    by (simp add: give_up_def example_transaction_def)
  have l: "4 < late 100 [102, 170, 170, 170, 170, 171]" by (simp add: late_def)
  show ?thesis
    using transaction_gives_up [OF f, of 100 "[102, 170, 170, 170, 170, 171]"] l unfolding g by auto
qed

text \<open>The back-off doubles: between the first transmission, at \<open>t0\<close>, and the one after \<open>k\<close>
  transmissions there are at least \<open>2 * (2 ^ k - 1)\<close> seconds, and a poll at or after that moment
  sends again.\<close>

theorem transaction_backs_off:
  assumes "waiting session b t0 k t" and "1 \<le> k" and "k < 5" and "0 \<le> t0" and "t0 < 2 ^ 30"
  shows "if now < t0 + 2 * (2 ^ k - 1) then transaction_step pf [t] now = Some ([t], [])
    else (\<exists>t'. transaction_step pf [t] now = Some ([t'], [Transmit session b]) \<and> waiting session b t0 (k + 1) t')"
proof -
  have k: "k \<le> 5" using assms(3) by simp
  note p = poll_waiting [OF assms(1,2) k assms(4,5), of now pf]
  show ?thesis
  proof (cases "now < t0 + 2 * (2 ^ k - 1)")
    case True
    then show ?thesis using p(1) by (simp add: step_single)
  next
    case False
    then obtain t' where "poll pf now t = Some (Some t', [Transmit session b])" "waiting session b t0 (k + 1) t'"
      using p(2) assms(3) by auto
    then show ?thesis using False by (simp add: step_single)
  qed
qed

text \<open>C26. One walk of \<open>transaction_step\<close> over a list in order, with the removals and updates it makes on
  the way, is polling each transaction once, independently of the others.\<close>

theorem transaction_step_polls_each:
  assumes "trans_list l"
  shows "transaction_step pf l now = poll_all pf now l"
  by (rule step_polls [OF assms])

theorem transaction_step_polls_each_witness:
  "transaction_step example_platform [example_transaction, example_transaction\<lparr>tr_mID := 9\<rparr>] 100 =
   poll_all example_platform 100 [example_transaction, example_transaction\<lparr>tr_mID := 9\<rparr>]"
  by (rule transaction_step_polls_each) (simp add: example_transaction_def)

text \<open>C25. A response with the token of a request, arriving with the acknowledgement or for itself,
  finishes that request and no other: the callback is given the response, the request leaves the
  list, and a confirmable response is acknowledged.\<close>

theorem response_finishes_request:
  assumes "trans_list (pre @ t # ts)" and "list_all (ignores m) pre"
    and "cp_type m \<noteq> COAP_TYPE_RST" and "cp_code m \<noteq> COAP_401_UNAUTHORIZED"
    and "cp_code (tr_message t) \<le> COAP_DELETE" and "IS_OPTION (tr_message t) COAP_OPTION_TOKEN"
    and "token_ok (tr_message t)" and "token_ok m" and "token_of (tr_message t) = token_of m"
  shows "transaction_handleResponse pf (pre @ t # ts) m True =
    Some (True, pre @ ts, (if cp_type m = COAP_TYPE_CON then [AckSent (cp_mid m)] else []) @
      (if tr_callback t then [Callback (tr_mID t) (Some m)] else []))"
proof -
  have "prv_checkFinished t' m = Some True" if "tr_message t' = tr_message t" for t'
    using checkFinished_token [of t' m] assms(5-9) that by simp
  then show ?thesis using response_finishes [OF assms(1-4), of pf True] by simp
qed

theorem response_finishes_request_witness:
  "transaction_handleResponse example_platform [example_transaction] example_answer True =
    Some (True, [], [AckSent 99, Callback 7 (Some example_answer)])"
  using response_finishes_request [of "[]" example_transaction "[]" example_answer example_platform] example_tokens
  by (simp add: example_transaction_def example_answer_def)

text \<open>A separate response: the empty acknowledgement stops the retransmission and keeps the request
  waiting, and the response that follows in a message of its own finishes it.\<close>

theorem separate_response:
  assumes "trans_list (pre @ t # ts)" and "list_all (ignores ack) pre" and "list_all (ignores m) pre"
    and "\<not> tr_ackReceived t" and "cp_type ack = COAP_TYPE_ACK" and "tr_mID t = ucast (cp_mid ack)"
    and "cp_type m = COAP_TYPE_CON" and "cp_code m \<noteq> COAP_401_UNAUTHORIZED"
    and "cp_code (tr_message t) \<le> COAP_DELETE" and "IS_OPTION (tr_message t) COAP_OPTION_TOKEN"
    and "token_ok (tr_message t)" and "token_ok ack" and "token_ok m"
    and "token_of (tr_message t) \<noteq> token_of ack" and "token_of (tr_message t) = token_of m"
    and "0 \<le> pf_time pf" and "pf_time pf < 2 ^ 30" and "0 \<le> tr_responseTimeout t" and "tr_responseTimeout t < 2 ^ 30"
  shows "\<exists>l. transaction_handleResponse pf (pre @ t # ts) ack h = Some (True, l, []) \<and>
    transaction_handleResponse pf l m True =
      Some (True, pre @ ts, [AckSent (cp_mid m)] @ (if tr_callback t then [Callback (tr_mID t) (Some m)] else []))"
proof -
  have tok: "prv_checkFinished t' x = Some (token_of (tr_message t) = token_of x)"
    if "tr_message t' = tr_message t" "token_ok x" for t' x
    using checkFinished_token [of t' x] assms(9-11) that by simp
  have "prv_checkFinished (t\<lparr>tr_ackReceived := True\<rparr>) ack = Some False" using tok assms(12,14) by simp
  from response_acknowledges [OF assms(1,2,4-6) this assms(16-19), of h] obtain rt where
    a: "transaction_handleResponse pf (pre @ t # ts) ack h =
      Some (True, pre @ t\<lparr>tr_ackReceived := True, tr_retransTime := rt\<rparr> # ts, [])" ..
  let ?t = "t\<lparr>tr_ackReceived := True, tr_retransTime := rt\<rparr>"
  have l: "trans_list (pre @ ?t # ts)" using assms(1) by (simp add: trans_list_ids)
  have "transaction_handleResponse pf (pre @ ?t # ts) m True =
      Some (True, pre @ ts, [AckSent (cp_mid m)] @ (if tr_callback t then [Callback (tr_mID t) (Some m)] else []))"
    using response_finishes [OF l assms(3), of pf True] tok [of ?t m] assms(7,8,13,15) by simp
  with a show ?thesis by blast
qed

text \<open>C20. A confirmable request made by \<open>transaction_new\<close> for a URI reaches the peer: what
  \<open>coap_serialize_message\<close> writes of its message into a buffer of 64 bytes or more, \<open>coap_parse_message\<close>
  reads as a confirmable message with the method, the message id and the token given, whose path
  \<open>uri_decode\<close> reads as that URI.\<close>

theorem transaction_request_delivered:
  assumes "mallocs (pf_malloc pf)" and "ids_ok ids" and "0 < length tok" and "length tok \<le> 8"
    and "64 \<le> length buf" and "length buf < 2 ^ 32"
  shows "\<exists>t len t' buf' m.
    transaction_new pf COAP_TYPE_CON method None (Some (uri_of ids)) mID (of_nat (length tok)) (Some tok) =
      Some (Done t) \<and>
    coap_serialize_message (tr_message t) buf = Some (len, t', buf') \<and>
    coap_parse_message (pf_malloc pf) (take (unat len) buf') = Some (COAP_NO_ERROR, m) \<and>
    uri_decode (pf_malloc pf) None (cp_uri_path m) = Some (Done (uri_of ids)) \<and>
    cp_type m = COAP_TYPE_CON \<and> cp_code m = method \<and> cp_mid m = mID \<and> token_of m = tok"
proof -
  let ?mal = "pf_malloc pf" and ?p = "coap_init_message COAP_TYPE_CON method mID"
  let ?q = "with_path (map decimal ids) ?p"
  have p: "cp_uri_path ?p = []" by (simp add: coap_init_message_def coap_zero_def)
  note q = path_of_uri_segments [OF assms(1) built_init assms(2) p]
  have lens: "length (cp_options ?q) = 8" "length (cp_token ?q) = 8"
    by (simp_all add: coap_init_message_def coap_zero_def)
  let ?m = "?q\<lparr>cp_token_len := min_len (length tok), cp_token := store8 (cp_token ?q) tok,
    cp_options := mark (cp_options ?q) COAP_OPTION_TOKEN\<rparr>"
  have set: "coap_set_header_token ?q tok = Some (uint (min_len (length tok)), ?m)"
    using lens by (simp add: coap_set_header_token_def with_option_in)
  have built: "coap_built ?mal ?m" by (rule built_token [OF conjunct2 [OF q] set])
  then have ok: "coap_ok ?m" by (rule coap_built_ok [OF assms(1)])
  have n: "unat (of_nat (length tok) :: u8) = length tok" using assms(4) by (intro unat_of_nat_id) simp
  have nz: "(of_nat (length tok) :: u8) \<noteq> 0" using n assms(3) by (metis length_greater_0_conv less_irrefl unat_0)
  have min: "unat (min (of_nat (length tok)) (8 :: u8)) = length tok"
    using n assms(4) by (simp add: min_def word_le_nat_alt)
  have mal: "?mal k \<noteq> None" for k using assms(1) by (simp add: mallocs_def)
  have new: "\<exists>t. transaction_new pf COAP_TYPE_CON method None (Some (uri_of ids)) mID (of_nat (length tok)) (Some tok) =
      Some (Done t) \<and> tr_message t = ?m"
    using conjunct1 [OF q] set nz mal min by (simp add: transaction_new_def Let_def aslice_def)
  have opts: "coap_opts ?m = map (\<lambda>n. (COAP_OPTION_URI_PATH, decimal n)) ids"
  proof -
    have "ids \<noteq> []" using assms(2) by (auto simp: ids_ok_def)
    then show ?thesis
      by (simp add: coap_opts_def opt_if_def multi_if_def accepts_def coap_init_message_def coap_zero_def
          IS_OPTION_def mark_def node_def)
  qed
  have "length (coap_bytes ?m) \<le> 64"
    by (rule path_request_length [OF assms(2) _ _ opts]) (simp_all add: min_len_def coap_init_message_def coap_zero_def)
  then have room: "length (coap_bytes ?m) \<le> length buf" using assms(5) by simp
  obtain len t' buf' m where m: "coap_serialize_message ?m buf = Some (len, t', buf')"
    "coap_parse_message ?mal (take (unat len) buf') = Some (COAP_NO_ERROR, m)" "same_message ?m m"
    "take (unat len) buf' = coap_bytes ?m"
    using coap_sent [where mal = ?mal, OF ok mal room assms(6)] by blast
  then have recv: "m = coap_received ?m" using coap_parse_bytes [where mal = ?mal, OF mal ok] by simp
  have opt: "IS_OPTION ?m COAP_OPTION_URI_PATH" using lens by (simp add: IS_OPTION_marked marked_mark)
  have "cp_uri_path m = static_nodes (map node (map decimal ids))"
    unfolding recv by (simp only: coap_received_path [OF opt]) simp
  then have dec: "uri_decode ?mal None (cp_uri_path m) = Some (Done (uri_of ids))"
    using uri_decode_ids [where mal = ?mal, OF mal assms(2) id_segments [OF assms(2)]] by simp
  have len: "unat (min_len (length tok)) = length tok" using n assms(4) by (simp add: min_len_def)
  then have ne: "min_len (length tok) \<noteq> 0" using assms(3) by (metis length_greater_0_conv less_irrefl unat_0)
  have h: "same_header ?m m" using m(3) unfolding same_message_def by blast
  have "IS_OPTION m COAP_OPTION_TOKEN = (cp_token_len ?m \<noteq> 0)" using m(3) unfolding same_message_def by blast
  then have t: "IS_OPTION m COAP_OPTION_TOKEN" using ne by simp
  have head: "cp_type m = COAP_TYPE_CON" "cp_code m = method" "cp_mid m = mID"
    using h by (simp_all add: same_header_def coap_init_message_def coap_zero_def)
  have "take (unat (cp_token_len m)) (cp_token m) = take (unat (cp_token_len ?m)) (cp_token ?m)"
    using h unfolding same_header_def by blast
  also have "\<dots> = tok" using lens len assms(4) by (simp add: store8_def)
  finally have tk: "token_of m = tok" using t by (simp add: token_of_def)
  show ?thesis using new m(1,2) dec head tk by auto
qed

theorem transaction_request_delivered_witness:
  "\<exists>t len t' buf' m.
    transaction_new (example_platform\<lparr>pf_malloc := \<lambda>n. Some []\<rparr>) COAP_TYPE_CON 2 None (Some (uri_of [3, 0, 1])) 7
      (of_nat (length [5 :: u8, 6])) (Some [5, 6]) = Some (Done t) \<and>
    coap_serialize_message (tr_message t) (replicate 64 0) = Some (len, t', buf') \<and>
    coap_parse_message (pf_malloc (example_platform\<lparr>pf_malloc := \<lambda>n. Some []\<rparr>)) (take (unat len) buf') =
      Some (COAP_NO_ERROR, m) \<and>
    uri_decode (pf_malloc (example_platform\<lparr>pf_malloc := \<lambda>n. Some []\<rparr>)) None (cp_uri_path m) = Some (Done (uri_of [3, 0, 1])) \<and>
    cp_type m = COAP_TYPE_CON \<and> cp_code m = 2 \<and> cp_mid m = 7 \<and> token_of m = [5, 6]"
  by (rule transaction_request_delivered) (simp_all add: mallocs_def ids_ok_def)

text \<open>C8. Whatever transactions are created under fresh message ids, sent, polled and answered, in any
  order: the list stays sorted without duplicate ids, and no retransmission counter exceeds 6, so
  that the shift by it in \<open>transaction_send\<close> stays within its type.\<close>

theorem transactions_in_order:
  assumes "trans_reach l"
  shows "trans_list l \<and> list_all (\<lambda>t. tr_retransCounter t \<le> 6) l"
  using reach_inv [OF assms] by (simp add: trans_inv_def)

theorem transactions_in_order_witness:
  "\<exists>t. tr_mID t = 7 \<and> trans_list [t] \<and> list_all (\<lambda>t. tr_retransCounter t \<le> 6) [t]"
proof -
  obtain t where t: "transaction_new example_platform COAP_TYPE_CON 1 None None 7 0 None = Some (Done t)"
    by (simp add: transaction_new_def example_platform_def calloc_def)
  have "trans_reach (cis_list_add tr_mID [] (t\<lparr>tr_server := Some 1, tr_callback := True\<rparr>))"
    by (rule reach_add [OF reach_start t]) simp
  then have "trans_reach [t\<lparr>tr_server := Some 1, tr_callback := True\<rparr>]" by (simp add: cis_list_add_def)
  from transactions_in_order [OF this] show ?thesis
    using new_transaction(1) [OF t] by (intro exI [of _ "t\<lparr>tr_server := Some 1, tr_callback := True\<rparr>"]) simp
qed

end
