(* ===== verification/Cis_Block1.thy ===== *)
theory Cis_Block1
  imports Coap_Codes
begin

text \<open>
  \<open>cis_block1.c\<close>: the reassembly of a request body that arrives in blocks (option Block1). The
  server structure owns one \<open>cis_block1_data_t\<close>; \<open>None\<close> is its null pointer. The buffer inside may be
  null as well, when an allocation failed.
\<close>

section \<open>State\<close>

record cis_block1_data =
  block1buffer :: "bytes option"
  block1bufferSize :: u32
  lastmid :: u16

abbreviation (input) CIS_CONFIG_BLOCK1_SIZE_MAX :: u32 where "CIS_CONFIG_BLOCK1_SIZE_MAX \<equiv> 2048"
abbreviation (input) sizeof_block1_data :: u32 where "sizeof_block1_data \<equiv> 12"

section \<open>Operations\<close>

text \<open>\<open>memcpy (dst + off, src, n)\<close> between pointers that may be null, with the bytes of \<open>dst\<close> after it.\<close>

definition copy_into :: "bytes option \<Rightarrow> nat \<Rightarrow> bytes option \<Rightarrow> nat \<Rightarrow> bytes option option" where
  "copy_into dst off src n =
     (if n = 0 then Some dst
      else do { d \<leftarrow> dst; s \<leftarrow> src; s \<leftarrow> aslice s 0 n; d \<leftarrow> ablit d off s; Some (Some d) })"

text \<open>
  The branch of the first block: a fresh buffer in the old structure or a new one. The size is
  stored and the buffer filled without a look at the result of \<open>malloc\<close>.
\<close>

definition block1_first ::
  "allocator \<Rightarrow> cis_block1_data option \<Rightarrow> u16 \<Rightarrow> bytes \<Rightarrow> u32 \<Rightarrow> (u8 \<times> cis_block1_data option) option" where
  "block1_first mal data mid buffer len =
     (if data = None \<and> mal sizeof_block1_data = None
      then Some (COAP_500_INTERNAL_SERVER_ERROR, None)
      else do {
        b \<leftarrow> copy_into (mal len) 0 (Some buffer) (unat len);
        Some (COAP_NO_ERROR, Some \<lparr>block1buffer = b, block1bufferSize = len, lastmid = mid\<rparr>) })"

definition block1_next ::
  "allocator \<Rightarrow> cis_block1_data option \<Rightarrow> u16 \<Rightarrow> bytes \<Rightarrow> u32 \<Rightarrow> u16 \<Rightarrow> u32 \<Rightarrow>
   (u8 \<times> cis_block1_data option) option" where
  "block1_next mal data mid buffer len blockSize blockNum =
     (case data of
        None \<Rightarrow> Some (COAP_408_REQ_ENTITY_INCOMPLETE, None)
      | Some d \<Rightarrow>
          if lastmid d = mid then Some (COAP_NO_ERROR, Some d)
          else if block1bufferSize d \<noteq> ucast blockSize * blockNum
          then Some (COAP_408_REQ_ENTITY_INCOMPLETE, Some d)
          else if CIS_CONFIG_BLOCK1_SIZE_MAX \<le> block1bufferSize d + len
          then Some (COAP_413_ENTITY_TOO_LARGE, Some d)
          else (let oldSize = block1bufferSize d; newSize = oldSize + len in
                case mal newSize of
                  None \<Rightarrow> Some (COAP_500_INTERNAL_SERVER_ERROR,
                            Some (d\<lparr>block1bufferSize := newSize, block1buffer := None\<rparr>))
                | Some b \<Rightarrow> do {
                    b \<leftarrow> copy_into (Some b) 0 (block1buffer d) (unat oldSize);
                    b \<leftarrow> copy_into b (unat oldSize) (Some buffer) (unat len);
                    Some (COAP_NO_ERROR,
                      Some \<lparr>block1buffer = b, block1bufferSize = newSize, lastmid = mid\<rparr>) }))"

text \<open>
  The result: the code, the structure behind \<open>pBlock1Data\<close>, and what is stored through
  \<open>outputLength\<close> and \<open>outputBuffer\<close>; the outer \<open>None\<close> means that nothing is stored.
\<close>

definition coap_block1_handler ::
  "allocator \<Rightarrow> cis_block1_data option \<Rightarrow> u16 \<Rightarrow> bytes \<Rightarrow> u32 \<Rightarrow> u16 \<Rightarrow> u32 \<Rightarrow> bool \<Rightarrow>
   (u8 \<times> cis_block1_data option \<times> u32 option \<times> bytes option option) option" where
  "coap_block1_handler mal data mid buffer len blockSize blockNum blockMore = do {
     (code, data) \<leftarrow> (if blockNum = 0 then block1_first mal data mid buffer len
                      else block1_next mal data mid buffer len blockSize blockNum);
     if code \<noteq> COAP_NO_ERROR then Some (code, data, None, None)
     else if blockMore then Some (COAP_231_CONTINUE, data, Some 0, None)
     else do {
       d \<leftarrow> data;
       Some (COAP_NO_ERROR, data, Some (block1bufferSize d), Some (block1buffer d)) } }"

text \<open>\<open>free_block1_buffer\<close>: the addresses handed to \<open>cis_free\<close>, the buffer before the structure.\<close>

datatype block1_address = Block1Buffer "bytes option" | Block1Data

definition free_block1_buffer :: "cis_block1_data option \<Rightarrow> block1_address list" where
  "free_block1_buffer data =
     (case data of None \<Rightarrow> [] | Some d \<Rightarrow> [Block1Buffer (block1buffer d), Block1Data])"

section \<open>The state of a transfer\<close>

text \<open>\<open>holds body mid data\<close>: the structure holds exactly \<open>body\<close>, last fed by the message \<open>mid\<close>.\<close>

definition block1_holds :: "bytes \<Rightarrow> u16 \<Rightarrow> cis_block1_data option \<Rightarrow> bool" where
  "block1_holds body mid data \<longleftrightarrow>
     data = Some \<lparr>block1buffer = Some body, block1bufferSize = of_nat (length body), lastmid = mid\<rparr> \<and>
     length body < 2 ^ 31"

lemma copy_into_all:
  assumes "off + length s \<le> length d"
  shows "copy_into (Some d) off (Some s) (length s) =
     Some (Some (take off d @ s @ drop (off + length s) d))"
  using assms by (simp add: copy_into_def)

lemma block1_first_holds:
  assumes "alloc_ok mal" and "length buffer < 2 ^ 31"
  shows "yields (block1_first mal data mid buffer (of_nat (length buffer)))
           (\<lambda>(code, data'). code = COAP_NO_ERROR \<and> block1_holds buffer mid data')"
proof -
  have len: "unat (of_nat (length buffer) :: u32) = length buffer"
    using assms(2) by simp
  obtain s where "mal 12 = Some s" using assms(1) by (rule alloc_okE [of _ 12]) simp
  moreover from assms len obtain b where "mal (of_nat (length buffer)) = Some b" and "length b = length buffer"
    by (metis alloc_okE)
  ultimately show ?thesis
    using assms(2) by (simp add: block1_first_def len copy_into_all block1_holds_def)
qed

lemma block1_next_holds:
  assumes "alloc_ok mal" and "block1_holds body m data" and "m \<noteq> mid"
    and "length body = unat blockSize * unat blockNum"
    and "length body + length buffer < 2048"
  shows "yields (block1_next mal data mid buffer (of_nat (length buffer)) blockSize blockNum)
           (\<lambda>(code, data'). code = COAP_NO_ERROR \<and> block1_holds (body @ buffer) mid data')"
proof -
  let ?n = "of_nat (length body + length buffer) :: u32"
  have lens: "unat (of_nat (length body) :: u32) = length body"
    "unat (of_nat (length buffer) :: u32) = length buffer"
    using assms(5) by simp_all
  have len: "unat ?n = length body + length buffer"
    using assms(5) by (intro unat_of_nat_id) simp
  have prod: "ucast blockSize * blockNum = (of_nat (length body) :: u32)"
    unfolding assms(4) by simp
  have small: "\<not> 2048 \<le> ?n"
    using assms(5) by (simp add: word_le_nat_alt len del: of_nat_add)
  have "unat ?n < 2 ^ 31" using assms(5) by (simp add: len del: of_nat_add)
  with assms(1) obtain b where b: "mal ?n = Some b" "length b = length body + length buffer"
    by (metis alloc_okE len)
  show ?thesis
    using assms(2,3,5) b prod small
    by (simp add: block1_next_def block1_holds_def lens copy_into_all)
qed

text \<open>A retransmission leaves the state alone.\<close>

lemma block1_next_again:
  "block1_holds body mid data \<Longrightarrow>
   block1_next mal data mid buffer len blockSize blockNum = Some (COAP_NO_ERROR, data)"
  by (simp add: block1_next_def block1_holds_def)

section \<open>Transfers\<close>

text \<open>
  A message of a transfer: its id, the number of its block, whether more follow, and the block.
  \<open>block1_messages\<close> cuts a body into blocks of \<open>sz\<close> bytes, one for each message id.
\<close>

type_synonym block1_message = "u16 \<times> u32 \<times> bool \<times> bytes"

fun block1_messages :: "nat \<Rightarrow> u32 \<Rightarrow> u16 list \<Rightarrow> bytes \<Rightarrow> block1_message list" where
  "block1_messages sz num [] body = []"
| "block1_messages sz num [mid] body = [(mid, num, False, body)]"
| "block1_messages sz num (mid # mids) body =
     (mid, num, True, take sz body) # block1_messages sz (num + 1) mids (drop sz body)"

type_synonym block1_reply = "u8 \<times> u32 option \<times> bytes option option"

fun block1_run ::
  "allocator \<Rightarrow> u16 \<Rightarrow> cis_block1_data option \<Rightarrow> block1_message list \<Rightarrow>
   (block1_reply list \<times> cis_block1_data option) option" where
  "block1_run mal blockSize data [] = Some ([], data)"
| "block1_run mal blockSize data ((mid, num, blockMore, block) # msgs) = do {
     (code, data, len, buf) \<leftarrow>
       coap_block1_handler mal data mid block (of_nat (length block)) blockSize num blockMore;
     (replies, data) \<leftarrow> block1_run mal blockSize data msgs;
     Some ((code, len, buf) # replies, data) }"

text \<open>Each message arrives one time and as many more times as the list of numbers says.\<close>

definition retransmitted :: "nat list \<Rightarrow> 'a list \<Rightarrow> 'a list" where
  "retransmitted ks xs = concat (map2 (\<lambda>k x. replicate (Suc k) x) ks xs)"

definition block1_reply_to :: "bytes \<Rightarrow> block1_message \<Rightarrow> block1_reply" where
  "block1_reply_to body m =
     (if fst (snd (snd m)) then (COAP_231_CONTINUE, Some 0, None)
      else (COAP_NO_ERROR, Some (of_nat (length body)), Some (Some body)))"

lemma retransmitted_simps [simp]:
  "retransmitted [] xs = []" "retransmitted ks [] = []"
  "retransmitted (k # ks) (x # xs) = replicate (Suc k) x @ retransmitted ks xs"
  by (simp_all add: retransmitted_def)

lemma block1_reply_to_simps [simp]:
  "block1_reply_to body (mid, num, True, block) = (COAP_231_CONTINUE, Some 0, None)"
  "block1_reply_to body (mid, num, False, block) =
     (COAP_NO_ERROR, Some (of_nat (length body)), Some (Some body))"
  by (simp_all add: block1_reply_to_def)

text \<open>The handler when the state already holds what the message brings.\<close>

lemma coap_block1_handler_again:
  assumes "alloc_ok mal" and "block1_holds got mid data"
    and "num = 0 \<Longrightarrow> got = block"
  shows "coap_block1_handler mal data mid block (of_nat (length block)) blockSize num blockMore =
     Some (if blockMore then (COAP_231_CONTINUE, data, Some 0, None)
           else (COAP_NO_ERROR, data, Some (of_nat (length got)), Some (Some got)))"
proof (cases "num = 0")
  case True
  have "length block < 2 ^ 31" using assms(2,3) True by (simp add: block1_holds_def)
  from block1_first_holds [OF assms(1) this, of data mid]
  obtain data' where first: "block1_first mal data mid block (of_nat (length block)) = Some (0, data')"
    and "block1_holds block mid data'"
    by (auto elim!: yieldsE)
  then have "data' = data" using assms(2,3) True by (simp add: block1_holds_def)
  then show ?thesis
    using first assms(2,3) True by (simp add: coap_block1_handler_def block1_holds_def)
next
  case False
  with assms(2) show ?thesis
    by (simp add: coap_block1_handler_def block1_next_again) (simp add: block1_holds_def)
qed

lemma block1_run_again:
  assumes "alloc_ok mal" and "block1_holds got mid data" and "num = 0 \<Longrightarrow> got = block"
    and "block1_run mal blockSize data msgs = Some (rs, data')"
  shows "block1_run mal blockSize data (replicate k (mid, num, blockMore, block) @ msgs) =
     Some (replicate k (block1_reply_to got (mid, num, blockMore, block)) @ rs, data')"
  using assms(4)
  by (induction k) (auto simp: coap_block1_handler_again [OF assms(1-3)] block1_reply_to_def)

text \<open>The handler on the next block of the body.\<close>

lemma coap_block1_handler_next:
  assumes "alloc_ok mal" and "block1_holds got m data" and "m \<noteq> mid" and "num \<noteq> 0"
    and "length got = unat blockSize * unat num" and "length got + length block < 2048"
  obtains data' where "block1_holds (got @ block) mid data'"
    and "coap_block1_handler mal data mid block (of_nat (length block)) blockSize num blockMore =
      Some (if blockMore then (COAP_231_CONTINUE, data', Some 0, None)
            else (COAP_NO_ERROR, data', Some (of_nat (length (got @ block))), Some (Some (got @ block))))"
proof -
  from block1_next_holds [OF assms(1-3,5,6)] obtain data'
    where nxt: "block1_next mal data mid block (of_nat (length block)) blockSize num = Some (0, data')"
      and holds: "block1_holds (got @ block) mid data'"
    by (auto elim!: yieldsE)
  show ?thesis
  proof (rule that [OF holds])
    show "coap_block1_handler mal data mid block (of_nat (length block)) blockSize num blockMore =
      Some (if blockMore then (COAP_231_CONTINUE, data', Some 0, None)
            else (COAP_NO_ERROR, data', Some (of_nat (length (got @ block))), Some (Some (got @ block))))"
      using nxt holds assms(4) by (simp add: coap_block1_handler_def) (simp add: block1_holds_def)
  qed
qed

lemma coap_block1_handler_first:
  assumes "alloc_ok mal" and "length block < 2 ^ 31"
  obtains data' where "block1_holds block mid data'"
    and "coap_block1_handler mal data mid block (of_nat (length block)) blockSize 0 blockMore =
      Some (if blockMore then (COAP_231_CONTINUE, data', Some 0, None)
            else (COAP_NO_ERROR, data', Some (of_nat (length block)), Some (Some block)))"
proof -
  from block1_first_holds [OF assms] obtain data'
    where first: "block1_first mal data mid block (of_nat (length block)) = Some (0, data')"
      and holds: "block1_holds block mid data'"
    by (auto elim!: yieldsE)
  show ?thesis
  proof (rule that [OF holds])
    show "coap_block1_handler mal data mid block (of_nat (length block)) blockSize 0 blockMore =
      Some (if blockMore then (COAP_231_CONTINUE, data', Some 0, None)
            else (COAP_NO_ERROR, data', Some (of_nat (length block)), Some (Some block)))"
      using first holds by (simp add: coap_block1_handler_def) (simp add: block1_holds_def)
  qed
qed

text \<open>One message with its retransmissions, then the rest.\<close>

lemma block1_run_message:
  assumes "alloc_ok mal" and "block1_holds got mid data'" and "num = 0 \<Longrightarrow> got = block"
    and "coap_block1_handler mal data mid block (of_nat (length block)) blockSize num blockMore =
      Some (if blockMore then (COAP_231_CONTINUE, data', Some 0, None)
            else (COAP_NO_ERROR, data', Some (of_nat (length got)), Some (Some got)))"
    and "block1_run mal blockSize data' msgs = Some (rs, data'')"
  shows "block1_run mal blockSize data (replicate (Suc k) (mid, num, blockMore, block) @ msgs) =
     Some (replicate (Suc k) (block1_reply_to got (mid, num, blockMore, block)) @ rs, data'')"
  using block1_run_again [OF assms(1,2,3,5), where k = k and num = num and blockMore = blockMore] assms(4)
  by (cases blockMore) (simp_all add: block1_reply_to_def)

lemma block1_messages_mids: "map fst (block1_messages sz num mids body) = mids"
  by (induction sz num mids body rule: block1_messages.induct) simp_all

lemma block1_run_rest:
  assumes "alloc_ok mal" and "length got + length body < 2048"
    and "block1_holds got m data" and "distinct_adj (m # mids)" and "mids \<noteq> []"
    and "0 < num" and "num + length mids < 2 ^ 32"
    and "length got = unat blockSize * num" and "(length mids - 1) * unat blockSize \<le> length body"
    and "length ks = length mids"
  shows "yields (block1_run mal blockSize data
             (retransmitted ks (block1_messages (unat blockSize) (of_nat num) mids body)))
           (\<lambda>(replies, data').
              replies = retransmitted ks (map (block1_reply_to (got @ body))
                (block1_messages (unat blockSize) (of_nat num) mids body)) \<and>
              block1_holds (got @ body) (last mids) data')"
  using assms(2-)
proof (induction mids arbitrary: got body m data num ks)
  case (Cons mid mids)
  obtain k ks' where ks: "ks = k # ks'" "length ks' = length mids"
    using Cons.prems(9) by (cases ks) auto
  have num: "unat (of_nat num :: u32) = num" "(of_nat num :: u32) \<noteq> 0"
    using Cons.prems(5,6) by (auto simp: unat_of_nat_mod dest: arg_cong [of _ _ unat])
  have new: "m \<noteq> mid" using Cons.prems(3) by simp
  have size: "length got = unat blockSize * unat (of_nat num :: u32)"
    "length got + length body < 2048" "length got + length (take (unat blockSize) body) < 2048"
    using Cons.prems(1,7) num(1) by simp_all
  show ?case
  proof (cases mids)
    case Nil
    obtain data' where holds: "block1_holds (got @ body) mid data'"
      and step: "coap_block1_handler mal data mid body (of_nat (length body)) blockSize (of_nat num) False =
        Some (if False then (COAP_231_CONTINUE, data', Some 0, None)
          else (COAP_NO_ERROR, data', Some (of_nat (length (got @ body))), Some (Some (got @ body))))"
      by (rule coap_block1_handler_next [OF assms(1) Cons.prems(2) new num(2) size(1,2), where blockMore = False])
    from block1_run_message [OF assms(1) holds _ step, of "[]" "[]" data' k] num Nil ks
    show ?thesis using holds by simp
  next
    case (Cons mid' mids')
    let ?b = "take (unat blockSize) body" and ?rest = "drop (unat blockSize) body"
    have full: "length ?b = unat blockSize"
      using Cons.prems(8) Cons by simp
    obtain data' where holds: "block1_holds (got @ ?b) mid data'"
      and step: "coap_block1_handler mal data mid ?b (of_nat (length ?b)) blockSize (of_nat num) True =
        Some (if True then (COAP_231_CONTINUE, data', Some 0, None)
          else (COAP_NO_ERROR, data', Some (of_nat (length (got @ ?b))), Some (Some (got @ ?b))))"
      by (rule coap_block1_handler_next [OF assms(1) Cons.prems(2) new num(2) size(1,3), where blockMore = True])
    have suc: "of_nat (Suc num) = (of_nat num + 1 :: u32)" by simp
    have "yields (block1_run mal blockSize data'
             (retransmitted ks' (block1_messages (unat blockSize) (of_nat (Suc num)) mids ?rest)))
           (\<lambda>(replies, data'').
              replies = retransmitted ks' (map (block1_reply_to ((got @ ?b) @ ?rest))
                (block1_messages (unat blockSize) (of_nat (Suc num)) mids ?rest)) \<and>
              block1_holds ((got @ ?b) @ ?rest) (last mids) data'')"
      by (rule Cons.IH [OF _ holds])
         (use Cons.prems Cons ks full in \<open>auto simp: algebra_simps\<close>)
    then obtain data'' where rest: "block1_run mal blockSize data'
             (retransmitted ks' (block1_messages (unat blockSize) (of_nat num + 1) mids ?rest)) =
        Some (retransmitted ks' (map (block1_reply_to (got @ body))
                (block1_messages (unat blockSize) (of_nat num + 1) mids ?rest)), data'')"
      and "block1_holds (got @ body) (last mids) data''"
      unfolding suc by (auto elim!: yieldsE)
    with block1_run_message [OF assms(1) holds _ step rest, of k] num Cons ks show ?thesis
      by simp
  qed
qed simp

lemma block1_run_transfer:
  assumes "alloc_ok mal" and "length body < 2048" and "distinct_adj mids" and "mids \<noteq> []"
    and "length mids < 2 ^ 32" and "(length mids - 1) * unat blockSize \<le> length body"
    and "length ks = length mids"
  shows "yields (block1_run mal blockSize data
             (retransmitted ks (block1_messages (unat blockSize) 0 mids body)))
           (\<lambda>(replies, data').
              replies = retransmitted ks (map (block1_reply_to body)
                (block1_messages (unat blockSize) 0 mids body)) \<and>
              block1_holds body (last mids) data')"
proof -
  obtain mid mids' where mids: "mids = mid # mids'" using assms(4) by (cases mids) auto
  obtain k ks' where ks: "ks = k # ks'" "length ks' = length mids'"
    using assms(7) mids by (cases ks) auto
  have size: "length body < 2 ^ 31" "length (take (unat blockSize) body) < 2 ^ 31"
    using assms(2) by simp_all
  show ?thesis
  proof (cases mids')
    case Nil
    obtain data' where holds: "block1_holds body mid data'"
      and step: "coap_block1_handler mal data mid body (of_nat (length body)) blockSize 0 False =
        Some (if False then (COAP_231_CONTINUE, data', Some 0, None)
          else (COAP_NO_ERROR, data', Some (of_nat (length body)), Some (Some body)))"
      by (rule coap_block1_handler_first [OF assms(1) size(1), where blockMore = False])
    from block1_run_message [OF assms(1) holds _ step, of "[]" "[]" data' k] Nil mids ks
    show ?thesis using holds by simp
  next
    case (Cons mid' mids'')
    let ?b = "take (unat blockSize) body" and ?rest = "drop (unat blockSize) body"
    have full: "length ?b = unat blockSize"
      using assms(6) Cons mids by simp
    obtain data' where holds: "block1_holds ?b mid data'"
      and step: "coap_block1_handler mal data mid ?b (of_nat (length ?b)) blockSize 0 True =
        Some (if True then (COAP_231_CONTINUE, data', Some 0, None)
          else (COAP_NO_ERROR, data', Some (of_nat (length ?b)), Some (Some ?b)))"
      by (rule coap_block1_handler_first [OF assms(1) size(2), where blockMore = True])
    have "yields (block1_run mal blockSize data'
             (retransmitted ks' (block1_messages (unat blockSize) (of_nat 1) mids' ?rest)))
           (\<lambda>(replies, data'').
              replies = retransmitted ks' (map (block1_reply_to (?b @ ?rest))
                (block1_messages (unat blockSize) (of_nat 1) mids' ?rest)) \<and>
              block1_holds (?b @ ?rest) (last mids') data'')"
      by (rule block1_run_rest [OF assms(1) _ holds])
         (use assms(2-) mids Cons ks full in \<open>auto simp: algebra_simps\<close>)
    then obtain data'' where rest: "block1_run mal blockSize data'
             (retransmitted ks' (block1_messages (unat blockSize) 1 mids' ?rest)) =
        Some (retransmitted ks' (map (block1_reply_to body)
                (block1_messages (unat blockSize) 1 mids' ?rest)), data'')"
      and "block1_holds body (last mids') data''"
      by (auto elim!: yieldsE)
    with block1_run_message [OF assms(1) holds _ step rest, of k] mids Cons ks show ?thesis
      by simp
  qed
qed

section \<open>Any messages\<close>

definition block1_ok :: "cis_block1_data option \<Rightarrow> bool" where
  "block1_ok data \<longleftrightarrow>
     (case data of
        None \<Rightarrow> True
      | Some d \<Rightarrow> (case block1buffer d of
          None \<Rightarrow> False
        | Some b \<Rightarrow> length b = unat (block1bufferSize d) \<and> length b < 2048))"

lemma block1_holds_ok: "block1_holds body mid data \<Longrightarrow> length body < 2048 \<Longrightarrow> block1_ok data"
  by (simp add: block1_ok_def block1_holds_def)

lemma block1_next_ok:
  assumes "alloc_ok mal" and "block1_ok data" and "length block < 2048"
  shows "yields (block1_next mal data mid block (of_nat (length block)) blockSize num)
           (\<lambda>(code, data'). block1_ok data' \<and> (code = COAP_NO_ERROR \<longrightarrow> data' \<noteq> None))"
proof (cases data)
  case (Some d)
  then obtain b where b: "block1buffer d = Some b" "length b = unat (block1bufferSize d)" "length b < 2048"
    using assms(2) by (auto simp: block1_ok_def split: option.splits)
  have len: "unat (of_nat (length block) :: u32) = length block" using assms(3) by simp
  have sum: "unat (block1bufferSize d + of_nat (length block)) = length b + length block"
    using b assms(3) len by (subst unat_add_id) simp_all
  have "unat (block1bufferSize d + of_nat (length block)) < 2 ^ 31"
    using sum b(3) assms(3) by simp
  with assms(1) obtain m where m: "mal (block1bufferSize d + of_nat (length block)) = Some m"
    "length m = length b + length block"
    by (metis alloc_okE sum)
  have "copy_into (Some m) 0 (Some b) (unat (block1bufferSize d)) = Some (Some (b @ drop (length b) m))"
    using copy_into_all [of 0 b m] m(2) b(2) by simp
  moreover have "copy_into (Some (b @ drop (length b) m)) (unat (block1bufferSize d)) (Some block) (length block)
      = Some (Some (b @ block))"
    using copy_into_all [of "length b" block "b @ drop (length b) m"] m(2) b(2) by simp
  ultimately have appended: "block1_next mal data mid block (of_nat (length block)) blockSize num = Some (0,
      Some \<lparr>block1buffer = Some (b @ block),
        block1bufferSize = block1bufferSize d + of_nat (length block), lastmid = mid\<rparr>)"
    if "lastmid d \<noteq> mid" and "ucast blockSize * num = block1bufferSize d"
      and "\<not> 2048 \<le> block1bufferSize d + of_nat (length block)"
    using that m(1) b(1) len by (simp add: Some block1_next_def Let_def)
  show ?thesis
  proof (cases "lastmid d \<noteq> mid \<and> ucast blockSize * num = block1bufferSize d \<and>
      \<not> 2048 \<le> block1bufferSize d + of_nat (length block)")
    case True
    then show ?thesis
      using appended by (simp add: block1_ok_def sum word_le_nat_alt)
  next
    case False
    then show ?thesis
      using assms(2) by (auto simp: Some block1_next_def)
  qed
qed (simp add: block1_next_def block1_ok_def)

lemma coap_block1_handler_ok:
  assumes "alloc_ok mal" and "block1_ok data" and "length block < 2048"
  shows "yields (coap_block1_handler mal data mid block (of_nat (length block)) blockSize num blockMore)
           (\<lambda>(code, data', _). block1_ok data')"
proof -
  have first: "yields (block1_first mal data mid block (of_nat (length block)))
      (\<lambda>(code, data'). block1_ok data' \<and> (code = COAP_NO_ERROR \<longrightarrow> data' \<noteq> None))"
    by (rule yields_mono [OF block1_first_holds])
       (use assms(1,3) in \<open>auto simp: block1_holds_def block1_ok_def\<close>)
  show ?thesis
    unfolding coap_block1_handler_def yields_bind
    by (rule yields_mono [where P = "\<lambda>(code, data'). block1_ok data' \<and> (code = COAP_NO_ERROR \<longrightarrow> data' \<noteq> None)"])
       (use first block1_next_ok [OF assms] in \<open>auto split: option.splits\<close>)
qed

lemma block1_run_ok:
  assumes "alloc_ok mal" and "block1_ok data" and "\<forall>m \<in> set msgs. length (snd (snd (snd m))) < 2048"
  shows "yields (block1_run mal blockSize data msgs) (\<lambda>(replies, data'). block1_ok data')"
  using assms(2,3)
proof (induction msgs arbitrary: data)
  case (Cons m msgs)
  obtain mid num blockMore block where m: "m = (mid, num, blockMore, block)" by (metis surj_pair)
  have "yields (coap_block1_handler mal data mid block (of_nat (length block)) blockSize num blockMore)
           (\<lambda>(code, data', _). block1_ok data')"
    by (rule coap_block1_handler_ok [OF assms(1)]) (use Cons.prems m in simp_all)
  then show ?case
    using Cons by (auto simp: m yields_iff split: prod.splits) fastforce
qed simp

section \<open>Properties\<close>

text \<open>C27. Reassembly of a block-wise request. A body of fewer than 2048 bytes is cut into blocks of the
  negotiated size and sent in order, each message any number of times: every message but the last is
  answered 2.31 Continue, and the last one, each time it arrives, delivers exactly the body.
\<close>

theorem block1_reassembles:
  assumes "alloc_ok mal" and "length body < 2048" and "distinct_adj mids" and "mids \<noteq> []"
    and "length mids < 2 ^ 32" and "(length mids - 1) * unat blockSize \<le> length body"
    and "length ks = length mids"
  shows "map_option fst (block1_run mal blockSize data
             (retransmitted ks (block1_messages (unat blockSize) 0 mids body))) =
         Some (retransmitted ks
           (replicate (length mids - 1) (COAP_231_CONTINUE, Some 0, None) @
            [(COAP_NO_ERROR, Some (of_nat (length body)), Some (Some body))]))"
proof -
  have replies: "mids \<noteq> [] \<Longrightarrow> map (block1_reply_to body) (block1_messages sz num mids rest) =
      replicate (length mids - 1) (COAP_231_CONTINUE, Some 0, None) @
        [(COAP_NO_ERROR, Some (of_nat (length body)), Some (Some body))]" for sz num rest
    by (induction sz num mids rest rule: block1_messages.induct) simp_all
  show ?thesis
    using block1_run_transfer [OF assms, of data] replies [OF assms(4)] by (auto elim!: yieldsE)
qed

theorem block1_reassembles_witness:
  "map_option fst (block1_run calloc 2 None
       [(7, 0, True, [1, 2]), (7, 0, True, [1, 2]), (8, 1, False, [3]), (8, 1, False, [3])]) =
     Some [(COAP_231_CONTINUE, Some 0, None), (COAP_231_CONTINUE, Some 0, None),
           (COAP_NO_ERROR, Some 3, Some (Some [1, 2, 3])), (COAP_NO_ERROR, Some 3, Some (Some [1, 2, 3]))]"
  using block1_reassembles [of calloc "[1, 2, 3]" "[7, 8]" 2 "[1, 1]" None]
  by (simp add: retransmitted_def)

text \<open>
  Whatever blocks arrive, in any order, with any numbers and any ids, the handler has no undefined
  behaviour while memory lasts, and it never holds more than 2047 bytes: an unexpected block or one that
  would not fit is refused and leaves a state from which the handler goes on.
\<close>

theorem block1_bounded:
  assumes "alloc_ok mal" and "\<forall>m \<in> set msgs. length (snd (snd (snd m))) < 2048"
  shows "yields (block1_run mal blockSize None msgs)
     (\<lambda>(replies, data). case data of
        None \<Rightarrow> True
      | Some d \<Rightarrow> yields (block1buffer d)
          (\<lambda>b. length b = unat (block1bufferSize d) \<and> length b < 2048))"
  by (rule yields_mono [OF block1_run_ok])
     (use assms in \<open>auto simp: block1_ok_def split: option.splits\<close>)

theorem block1_bounded_witness:
  "yields (block1_run calloc 2 None [(7, 3, True, [1]), (8, 0, True, [1, 2]), (9, 2, False, [5])])
     (\<lambda>(replies, data). case data of
        None \<Rightarrow> True
      | Some d \<Rightarrow> yields (block1buffer d)
          (\<lambda>b. length b = unat (block1bufferSize d) \<and> length b < 2048))"
  by (rule block1_bounded) simp_all

text \<open>
  The handler does not look at the result of \<open>malloc\<close> for the first block: when it fails, the block is
  copied through the null pointer. The failure of a later block is reported as 5.00 instead.
\<close>

theorem block1_first_no_memory:
  assumes "mal 12 \<noteq> None \<or> data \<noteq> None" and "mal len = None" and "len \<noteq> 0"
  shows "coap_block1_handler mal data mid block len blockSize 0 blockMore = None"
  using assms by (auto simp: coap_block1_handler_def block1_first_def copy_into_def unat_eq_0)

theorem block1_first_no_memory_witness:
  "coap_block1_handler (\<lambda>n. if n < 100 then calloc n else None) None 7 [] 512 512 0 True = None"
  by (rule block1_first_no_memory) (simp_all add: calloc_def)

end
