(* ===== verification/Cis_Context.thy ===== *)
theory Cis_Context
  imports Cis_Transaction Cis_Format Cis_Block1
begin

text \<open>
  The state of the LwM2M client: \<open>st_cis_context\<close> of \<open>cis_internals.h\<close> with the servers, objects,
  requests, notifications and observations it points to, and \<open>packet_send\<close> of \<open>cis_packet.c\<close>, through
  which every answer leaves. A pointer into the list of observations, whose nodes have no identifier
  of their own, is the position in the list; in the other lists a node is known by its identifier.

  What a function does to the outside is a list of events. The callbacks of the application are
  parameters that give the returned code; what the application does later it does through the public
  functions.
\<close>

section \<open>Enumerations\<close>

datatype et_status =
    STATE_UNCREATED | STATE_CREATED | STATE_CREATE_FAILED | STATE_CONNECT_PENDING | STATE_CONNECTED
  | STATE_CONNECT_FAILED | STATE_REG_PENDING | STATE_REG_FAILED | STATE_REGISTERED
  | STATE_REG_UPDATE_PENDING | STATE_REG_UPDATE_NEEDED | STATE_REG_UPDATE_NEEDED_WITHOBJECTS
  | STATE_DEREG_PENDING | STATE_BS_HOLD_OFF | STATE_BS_INITIATED | STATE_BS_PENDING
  | STATE_BS_FINISHED | STATE_BS_FAILED

datatype et_client_state =
    PUMP_STATE_HALT | PUMP_STATE_INITIAL | PUMP_STATE_BOOTSTRAPPING | PUMP_STATE_CONNECTING
  | PUMP_STATE_REGISTER_REQUIRED | PUMP_STATE_REGISTERING | PUMP_STATE_READY
  | PUMP_STATE_DISCONNECTED | PUMP_STATE_UNREGISTER

datatype et_callback_type =
    CALLBACK_TYPE_READ | CALLBACK_TYPE_WRITE | CALLBACK_TYPE_EXECUTE | CALLBACK_TYPE_DISCOVER
  | CALLBACK_TYPE_OBSERVE | CALLBACK_TYPE_OBSERVE_CANCEL | CALLBACK_TYPE_OBSERVE_PARAMS
  | CALLBACK_BLOCK_WRITE

abbreviation (input) CIS_EVENT_BOOTSTRAP_START :: nat where "CIS_EVENT_BOOTSTRAP_START \<equiv> 1"
abbreviation (input) CIS_EVENT_BOOTSTRAP_SUCCESS :: nat where "CIS_EVENT_BOOTSTRAP_SUCCESS \<equiv> 2"
abbreviation (input) CIS_EVENT_BOOTSTRAP_FAILED :: nat where "CIS_EVENT_BOOTSTRAP_FAILED \<equiv> 3"
abbreviation (input) CIS_EVENT_CONNECT_SUCCESS :: nat where "CIS_EVENT_CONNECT_SUCCESS \<equiv> 4"
abbreviation (input) CIS_EVENT_CONNECT_FAILED :: nat where "CIS_EVENT_CONNECT_FAILED \<equiv> 5"
abbreviation (input) CIS_EVENT_REG_SUCCESS :: nat where "CIS_EVENT_REG_SUCCESS \<equiv> 6"
abbreviation (input) CIS_EVENT_REG_FAILED :: nat where "CIS_EVENT_REG_FAILED \<equiv> 7"
abbreviation (input) CIS_EVENT_REG_TIMEOUT :: nat where "CIS_EVENT_REG_TIMEOUT \<equiv> 8"
abbreviation (input) CIS_EVENT_LIFETIME_TIMEOUT :: nat where "CIS_EVENT_LIFETIME_TIMEOUT \<equiv> 9"
abbreviation (input) CIS_EVENT_UPDATE_SUCCESS :: nat where "CIS_EVENT_UPDATE_SUCCESS \<equiv> 11"
abbreviation (input) CIS_EVENT_UPDATE_FAILED :: nat where "CIS_EVENT_UPDATE_FAILED \<equiv> 12"
abbreviation (input) CIS_EVENT_UPDATE_TIMEOUT :: nat where "CIS_EVENT_UPDATE_TIMEOUT \<equiv> 13"
abbreviation (input) CIS_EVENT_UPDATE_NEED :: nat where "CIS_EVENT_UPDATE_NEED \<equiv> 14"
abbreviation (input) CIS_EVENT_STATUS_HALT :: nat where "CIS_EVENT_STATUS_HALT \<equiv> 10"
abbreviation (input) CIS_EVENT_UNREG_DONE :: nat where "CIS_EVENT_UNREG_DONE \<equiv> 15"
abbreviation (input) CIS_EVENT_RESPONSE_FAILED :: nat where "CIS_EVENT_RESPONSE_FAILED \<equiv> 20"
abbreviation (input) CIS_EVENT_RESPONSE_SUCCESS :: nat where "CIS_EVENT_RESPONSE_SUCCESS \<equiv> 21"
abbreviation (input) CIS_EVENT_NOTIFY_FAILED :: nat where "CIS_EVENT_NOTIFY_FAILED \<equiv> 25"
abbreviation (input) CIS_EVENT_NOTIFY_SUCCESS :: nat where "CIS_EVENT_NOTIFY_SUCCESS \<equiv> 26"

text \<open>The constants of \<open>et_media_type_t\<close> as they are sent.\<close>

fun media_code :: "et_media_type \<Rightarrow> u32" where
  "media_code LWM2M_CONTENT_TEXT = 0"
| "media_code LWM2M_CONTENT_LINK = 40"
| "media_code LWM2M_CONTENT_OPAQUE = 42"
| "media_code LWM2M_CONTENT_TLV = 1542"
| "media_code LWM2M_CONTENT_TLV_NEW = 11542"
| "media_code LWM2M_CONTENT_JSON = 1543"

section \<open>Records\<close>

text \<open>A value of the public interface; the buffer may be a null pointer.\<close>

record cis_data =
  cd_id :: u16
  cd_type :: et_data_type
  cd_length :: u32
  cd_buffer :: "bytes option"
  cd_value :: data_value

record st_object =
  oj_objID :: u32
  oj_instBitmapBytes :: u16
  oj_instBitmapCount :: u16
  oj_instBitmapPtr :: "bytes option"
  oj_instValidCount :: u16
  oj_attributeCount :: u16
  oj_actionCount :: u16

record st_request =
  rq_mid :: u32
  rq_type :: et_callback_type
  rq_tokenLen :: u8
  rq_token :: bytes
  rq_uri :: st_uri
  rq_time :: int
  rq_format :: et_media_type
  rq_respData :: "st_data list option"

record st_notify =
  nt_id :: u32
  nt_mid :: u32
  nt_result :: u8
  nt_data :: "cis_data option"
  nt_uri :: st_uri
  nt_isResponse :: bool

text \<open>A \<open>float\<close> is its 32-bit pattern.\<close>

record st_observe_attr =
  at_toSet :: u8
  at_toClear :: u8
  at_minPeriod :: int
  at_maxPeriod :: int
  at_greaterThan :: u32
  at_lessThan :: u32
  at_step :: u32

record st_observed =
  ob_msgid :: u32
  ob_uri :: st_uri
  ob_actived :: bool
  ob_parameters :: "st_observe_attr option"
  ob_token :: bytes
  ob_tokenLen :: u32
  ob_lastTime :: int
  ob_counter :: u32
  ob_lastMid :: u16
  ob_format :: et_media_type
  ob_reportData :: "st_data list option"

text \<open>\<open>sessionH\<close> is the network handle; \<open>None\<close> is the null pointer in each pointer field.\<close>

record st_server =
  sv_secObjInstID :: u32
  sv_host :: "bytes option"
  sv_registration :: int
  sv_sessionH :: "nat option"
  sv_status :: et_status
  sv_location :: "bytes option"
  sv_dirty :: bool
  sv_block1Data :: "cis_block1_data option"

text \<open>
  A security instance (\<open>std_object_security.c\<close>), an instance of the objects that report on the connection
  (the node tells which of the two it was made for; nothing reads its other fields), and who takes the
  answer to a transaction.
\<close>

record security_instance =
  si_instanceId :: u32
  si_host :: "bytes option"
  si_identify :: "bytes option"
  si_secret :: "bytes option"
  si_public_key :: "bytes option"
  si_isBootstrap :: bool
  si_shortID :: u16
  si_clientHoldOffTime :: u32
  si_securityMode :: u8
  si_id_len :: u8
  si_psk_len :: u8

datatype std_inst = ConnInst u16 | MoniterInst u16

datatype reply_handler = RegistrationReply | UpdateReply | DeregistrationReply | BootstrapReply

text \<open>
  \<open>cx_replyOf\<close> holds the field \<open>callback\<close> of the transaction with a message id, which also says whether
  its server is \<open>server\<close> or \<open>bootstrapServer\<close>; \<open>cx_errorMessage\<close> is the global \<open>coap_error_message\<close>.
\<close>

record st_context =
  cx_endpointName :: bytes
  cx_altPath :: "bytes option"
  cx_nextMid :: u16
  cx_nextObserveNum :: u16
  cx_nextNotifyId :: u32
  cx_stateStep :: et_client_state
  cx_server :: "st_server option"
  cx_bootstrapServer :: "st_server option"
  cx_requestList :: "st_request list"
  cx_notifyList :: "st_notify list"
  cx_objectList :: "st_object list"
  cx_observedList :: "st_observed list"
  cx_transactionList :: "transaction list"
  cx_replyOf :: "u32 \<Rightarrow> reply_handler option"
  cx_instSecurity :: "security_instance list"
  cx_conn_inst :: "std_inst list"
  cx_moniter_inst :: "std_inst list"
  cx_moniter_created :: bool
  cx_lifetime :: int
  cx_lifetimeWarnningTime :: int
  cx_lasttime :: int
  cx_registerEnabled :: bool
  cx_bootstrapEanbled :: bool
  cx_onEvent :: bool
  cx_isDM :: bool
  cx_authCode :: "bytes option"
  cx_errorMessage :: bytes

section \<open>The outside\<close>

text \<open>
  Datagrams sent, events reported to the application through \<open>onEvent\<close>, and the calls of its other
  callbacks, and the calls of the network layer other than writing.
\<close>

datatype cis_event =
    Sent nat bytes
  | OnEvent nat u32
  | OnRead st_uri u32
  | OnWrite st_uri "cis_data list" u32
  | OnExec st_uri bytes u32
  | OnObserve st_uri bool u32
  | OnSetParams st_uri st_observe_attr u32
  | OnDiscover st_uri u32
  | NetCreate "bytes option"
  | NetConnect nat
  | NetDisconnect nat
  | NetDestroy nat

text \<open>
  \<open>env_net\<close> says whether the network layer takes a datagram. \<open>env_noise8\<close> are the bytes of a token field
  that has not been written. \<open>env_float_text\<close> and \<open>env_stp_bad\<close> (the test \<open>lt + 2 * stp >= gt\<close>) are
  computations in floating point, and so are \<open>env_text_float\<close> (of the memory from a text on, with its
  length), \<open>env_float_negative\<close>, \<open>env_narrow\<close> and \<open>env_notify_time\<close>. \<open>env_behind\<close> are the bytes that follow
  an option in the datagram. \<open>env_reading\<close> is what the modem reports for a resource of the objects
  that monitor the connection, as it stands in a register. What a context with device management adds, the values of a
  read and the query of an update, are parameters.
\<close>

record cis_env = platform +
  env_net :: "nat \<Rightarrow> bytes \<Rightarrow> bool"
  env_noise8 :: bytes
  env_sizeof_request :: u32
  env_sizeof_observed :: u32
  env_sizeof_attr :: u32
  env_sizeof_notify :: u32
  env_sizeof_data :: u32
  env_float_text :: "u64 \<Rightarrow> bytes status"
  env_stp_bad :: "u32 \<Rightarrow> u32 \<Rightarrow> u32 \<Rightarrow> bool"
  env_onRead :: "st_uri \<Rightarrow> u32 \<Rightarrow> u8"
  env_onWrite :: "st_uri \<Rightarrow> cis_data list \<Rightarrow> u32 \<Rightarrow> u8"
  env_onExec :: "st_uri \<Rightarrow> bytes \<Rightarrow> u32 \<Rightarrow> u8"
  env_onObserve :: "st_uri \<Rightarrow> bool \<Rightarrow> u32 \<Rightarrow> u8"
  env_onSetParams :: "(st_uri \<Rightarrow> st_observe_attr \<Rightarrow> u32 \<Rightarrow> u8) option"
  env_onDiscover :: "st_uri \<Rightarrow> u32 \<Rightarrow> u8"
  env_reading :: "u16 \<Rightarrow> u32"
  env_dm_read :: "st_context \<Rightarrow> st_uri \<Rightarrow> st_data list"
  env_behind :: "multi_option \<Rightarrow> bytes"
  env_text_float :: "bytes \<Rightarrow> int \<Rightarrow> u64 status"
  env_float_negative :: "u64 \<Rightarrow> bool"
  env_narrow :: "u64 \<Rightarrow> u32"
  env_notify_time :: "int \<Rightarrow> int"
  env_sizeof_security :: u32
  env_sizeof_server :: u32
  env_net_attached :: bool
  env_net_create :: "bytes option \<Rightarrow> nat option"
  env_net_connect :: "nat \<Rightarrow> bool"
  env_net_read :: "nat \<Rightarrow> bytes option"
  env_dm_query :: "st_context \<Rightarrow> bytes option"

abbreviation env_platform :: "cis_env \<Rightarrow> platform" where
  "env_platform env \<equiv> platform.truncate env"

text \<open>\<open>cis_list_find\<close> as a pointer into the list: the node found and what is linked behind it.\<close>

fun list_from :: "('a \<Rightarrow> u32) \<Rightarrow> 'a list \<Rightarrow> u32 \<Rightarrow> 'a list" where
  "list_from idf [] i = []"
| "list_from idf (h # t) i = (if idf h < i then list_from idf t i else if idf h = i then h # t else [])"

text \<open>\<open>cx_onEvent\<close>: the application has set \<open>callback.onEvent\<close>. The null parameter is 0.\<close>

definition core_callbackEvent :: "st_context \<Rightarrow> nat \<Rightarrow> u32 \<Rightarrow> cis_event list" where
  "core_callbackEvent cx evt param = (if cx_onEvent cx then [OnEvent evt param] else [])"

definition core_updatePumpState :: "st_context \<Rightarrow> et_client_state \<Rightarrow> st_context" where
  "core_updatePumpState cx state = cx\<lparr>cx_stateStep := state\<rparr>"

section \<open>Sending\<close>

definition send_session :: "st_context \<Rightarrow> nat option option" where
  "send_session cx =
     (if cx_stateStep cx = PUMP_STATE_BOOTSTRAPPING then map_option sv_sessionH (cx_bootstrapServer cx)
      else map_option sv_sessionH (cx_server cx))"

text \<open>The code and the events; the packet itself is a temporary of every caller.\<close>

definition packet_send ::
  "cis_env \<Rightarrow> st_context \<Rightarrow> coap_packet \<Rightarrow> (u8 \<times> cis_event list) option" where
  "packet_send env cx message =
     (let allocLen = coap_serialize_get_size message in
      if allocLen = 0 then Some (COAP_500_INTERNAL_SERVER_ERROR, [])
      else case pf_malloc env allocLen of
        None \<Rightarrow> Some (COAP_500_INTERNAL_SERVER_ERROR, [])
      | Some pktBuffer \<Rightarrow> do {
          (pktBufferLen, _, pktBuffer) \<leftarrow> coap_serialize_message message pktBuffer;
          if pktBufferLen = 0 then Some (COAP_500_INTERNAL_SERVER_ERROR, [])
          else do {
            sessionH \<leftarrow> send_session cx;
            case sessionH of
              None \<Rightarrow> Some (COAP_500_INTERNAL_SERVER_ERROR, [])
            | Some h \<Rightarrow>
                (let datagram = take (unat pktBufferLen) pktBuffer in
                 Some (if env_net env h datagram then COAP_NO_ERROR else COAP_500_INTERNAL_SERVER_ERROR,
                       [Sent h datagram])) } })"

section \<open>The buffer of \<open>data_serialize\<close>\<close>

text \<open>
  What \<open>*bufferP\<close> holds when \<open>data_serialize\<close> returns: nothing was stored, the null pointer, a block
  of the caller, or a block that has been freed already (by \<open>tlv_serialize\<close>, when a nested value has
  no bytes). The callers free it.
\<close>

datatype out_pointer = Unset | Null | Owned | Dangling

definition text_pointer :: "allocator \<Rightarrow> (u64 \<Rightarrow> bytes status) \<Rightarrow> st_data \<Rightarrow> out_pointer" where
  "text_pointer mal float_text d =
     (if sd_type d \<in> {DATA_TYPE_STRING, DATA_TYPE_INTEGER, DATA_TYPE_FLOAT, DATA_TYPE_BOOL}
      then (case prv_textSerialize mal float_text d of Some (Inr _) \<Rightarrow> Owned | _ \<Rightarrow> Null)
      else Unset)"

definition tlv_pointer :: "allocator \<Rightarrow> bool \<Rightarrow> st_data list \<Rightarrow> out_pointer" where
  "tlv_pointer mal isInstance ds =
     (case prv_getLength ds of
        None \<Rightarrow> Null
      | Some len \<Rightarrow>
          if len = 0 then Null
          else (case mal (of_nat len) of
                  None \<Rightarrow> Null
                | Some _ \<Rightarrow>
                    (case tlv_serialize mal isInstance ds of
                       Some (n, _) \<Rightarrow> if n = 0 then Dangling else Owned
                     | None \<Rightarrow> Owned)))"

definition serialize_pointer ::
  "allocator \<Rightarrow> (u64 \<Rightarrow> bytes status) \<Rightarrow> st_uri \<Rightarrow> st_data list \<Rightarrow> et_media_type \<Rightarrow> out_pointer" where
  "serialize_pointer mal float_text uri ds format =
     (case final_format uri ds format of
        LWM2M_CONTENT_TEXT \<Rightarrow> text_pointer mal float_text (hd ds)
      | LWM2M_CONTENT_OPAQUE \<Rightarrow> if mal (of_nat (length (sd_buffer (hd ds)))) = None then Null else Owned
      | LWM2M_CONTENT_LINK \<Rightarrow> Unset
      | LWM2M_CONTENT_JSON \<Rightarrow> Unset
      | _ \<Rightarrow> (case uri_toString (Some uri) (replicate 18 0) of
                Some (_, _, Some level) \<Rightarrow> tlv_pointer mal (level = URI_DEPTH_RESOURCE_INSTANCE) ds
              | _ \<Rightarrow> Unset))"

text \<open>\<open>cis_free\<close> of such a pointer.\<close>

definition free_out :: "out_pointer \<Rightarrow> unit option" where
  "free_out p = (if p = Unset \<or> p = Dangling then None else Some ())"

end
