(* ===== verification/Cis_Request.thy ===== *)
theory Cis_Request
  imports Cis_Context
begin

text \<open>
  The requests of the server that wait for the application (\<open>requestList\<close>) and what the application
  has said to them or reported on its own (\<open>notifyList\<close>): the \<open>packet_asyn\<close> functions of
  \<open>cis_packet.c\<close> and \<open>cis_response\<close> and \<open>cis_notify\<close> of \<open>cis_core.c\<close>. The locks around the lists, which
  another thread takes in the public functions, are left out: each function is one step.
\<close>

section \<open>Requests\<close>

text \<open>
  \<open>packet_asynPushRequest\<close>. Only the first bytes of the new node are cleared (\<open>sizeof(nodeP)\<close>), so the
  rest of the token field keeps what was in memory.
\<close>

definition packet_asynPushRequest ::
  "cis_env \<Rightarrow> st_context \<Rightarrow> coap_packet \<Rightarrow> et_callback_type \<Rightarrow> u32 \<Rightarrow> (bool \<times> st_context) option" where
  "packet_asynPushRequest env cx packet type mid =
     (if cis_list_find rq_mid (cx_requestList cx) mid \<noteq> None then Some (False, cx)
      else if pf_malloc env (env_sizeof_request env) = None then Some (False, cx)
      else do {
        r \<leftarrow> uri_decode (pf_malloc env) (cx_altPath cx) (cp_uri_path packet);
        case r of
          Inl _ \<Rightarrow> Some (False, cx)
        | Inr uri \<Rightarrow> do {
            tok \<leftarrow> aslice (cp_token packet) 0 (unat (cp_token_len packet));
            tok \<leftarrow> ablit (env_noise8 env) 0 tok;
            let node = \<lparr>rq_mid = mid, rq_type = type, rq_tokenLen = cp_token_len packet, rq_token = tok,
                        rq_uri = uri, rq_time = pf_time env,
                        rq_format = utils_convertMediaType (cp_content_type packet),
                        rq_respData = None\<rparr>;
            Some (True, cx\<lparr>cx_requestList := cis_list_add rq_mid (cx_requestList cx) node\<rparr>) } })"

text \<open>\<open>packet_asynRemoveRequest\<close> reads through the node it has unlinked; there must be one.\<close>

definition packet_asynRemoveRequest :: "st_context \<Rightarrow> u32 \<Rightarrow> st_context option" where
  "packet_asynRemoveRequest cx mid =
     (case cis_list_remove rq_mid (cx_requestList cx) mid of
        (_, None) \<Rightarrow> None
      | (l, Some _) \<Rightarrow> Some (cx\<lparr>cx_requestList := l\<rparr>))"

definition packet_asynFindObserveRequest :: "st_context \<Rightarrow> u16 \<Rightarrow> u32 option" where
  "packet_asynFindObserveRequest cx coapmid =
     map_option rq_mid (cis_list_find_u16 rq_mid (cx_requestList cx) coapmid)"

definition packet_asynRemoveRequestAll :: "st_context \<Rightarrow> st_context" where
  "packet_asynRemoveRequestAll cx = cx\<lparr>cx_requestList := []\<rparr>"

definition packet_asynRemoveNotifyAll :: "st_context \<Rightarrow> st_context" where
  "packet_asynRemoveNotifyAll cx = cx\<lparr>cx_notifyList := []\<rparr>"

text \<open>
  The second half of \<open>packet_step\<close>: a request the application has not answered for
  \<open>CIS_CONFIG_CALLBACK_TIMEOUT\<close> seconds is dropped. The walk reads the next node before it removes one.
\<close>

abbreviation (input) CIS_CONFIG_CALLBACK_TIMEOUT :: int where "CIS_CONFIG_CALLBACK_TIMEOUT \<equiv> 30"

fun request_timeout_loop :: "int \<Rightarrow> st_request list \<Rightarrow> st_context \<Rightarrow> st_context option" where
  "request_timeout_loop currentTime [] cx = Some cx"
| "request_timeout_loop currentTime (r # rs) cx = do {
     interval \<leftarrow> time32 (currentTime - rq_time r);
     if interval < CIS_CONFIG_CALLBACK_TIMEOUT then request_timeout_loop currentTime rs cx
     else do {
       cx \<leftarrow> packet_asynRemoveRequest cx (rq_mid r);
       request_timeout_loop currentTime rs cx } }"

section \<open>Answers and reports of the application\<close>

abbreviation (input) CIS_RET_OK :: int where "CIS_RET_OK \<equiv> 0"
abbreviation (input) CIS_RET_ERROR :: int where "CIS_RET_ERROR \<equiv> -1"
abbreviation (input) CIS_RET_INVILID :: int where "CIS_RET_INVILID \<equiv> -3"
abbreviation (input) CIS_RET_PARAMETER_ERR :: int where "CIS_RET_PARAMETER_ERR \<equiv> -5"
abbreviation (input) CIS_RET_MEMORY_ERR :: int where "CIS_RET_MEMORY_ERR \<equiv> -6"

text \<open>
  \<open>prv_dataDup\<close>; \<open>None\<close> is undefined behaviour, \<open>Fail\<close> the null pointer. The identifier is not copied
  (\<open>noise_id\<close> stands for what is in memory), nor the buffer of a value without one.
\<close>

definition prv_dataDup :: "cis_env \<Rightarrow> u16 \<Rightarrow> cis_data \<Rightarrow> cis_data status option" where
  "prv_dataDup env noise_id src =
     (if pf_malloc env (env_sizeof_data env) = None then Some Fail
      else if cd_type src = DATA_TYPE_OPAQUE \<or> cd_type src = DATA_TYPE_STRING
      then (case pf_malloc env (cd_length src) of
              None \<Rightarrow> Some Fail
            | Some b \<Rightarrow> do {
                b \<leftarrow> copy_into (Some b) 0 (cd_buffer src) (unat (cd_length src));
                Some (Done \<lparr>cd_id = noise_id, cd_type = cd_type src, cd_length = cd_length src,
                            cd_buffer = b, cd_value = cd_value src\<rparr>) })
      else Some (Done \<lparr>cd_id = noise_id, cd_type = cd_type src, cd_length = 0, cd_buffer = None,
                       cd_value = cd_value src\<rparr>))"

text \<open>\<open>cis_uri_make\<close>: an identifier 0 of an object or a resource is left out like an invalid one.\<close>

definition cis_uri_make :: "u16 \<Rightarrow> u16 \<Rightarrow> u16 \<Rightarrow> st_uri" where
  "cis_uri_make oid iid rid =
     (let uri = uri_zero;
          uri = (if 0 < oid \<and> oid \<le> URI_MAX_ID then set_object (uint oid) uri else uri);
          uri = (if iid \<le> URI_MAX_ID then set_instance (uint iid) uri else uri)
      in if 0 < rid \<and> rid \<le> URI_MAX_ID then set_resource (uint rid) uri else uri)"

definition cis_uri_update :: "st_uri \<Rightarrow> st_uri" where
  "cis_uri_update uri = cis_uri_make (uri_objectId uri) (uri_instanceId uri) (uri_resourceId uri)"

text \<open>The common part of \<open>cis_response\<close> and \<open>cis_notify\<close>; a failed allocation stops in the assertion.\<close>

definition enqueue_notify ::
  "cis_env \<Rightarrow> st_context \<Rightarrow> bool \<Rightarrow> st_uri option \<Rightarrow> cis_data option \<Rightarrow> u32 \<Rightarrow> u8 \<Rightarrow> (int \<times> st_context) option" where
  "enqueue_notify env cx isResponse uri data mid result =
     (if pf_malloc env (env_sizeof_notify env) = None then None
      else do {
        let cx = cx\<lparr>cx_nextNotifyId := cx_nextNotifyId cx + 1\<rparr>;
        copy \<leftarrow> (case data of
                   None \<Rightarrow> Some (Done None)
                 | Some v \<Rightarrow> map_option (map_sum id Some) (prv_dataDup env 0 v));
        case copy of
          Inl _ \<Rightarrow> Some (CIS_RET_MEMORY_ERR, cx)
        | Inr v \<Rightarrow>
            (let node = \<lparr>nt_id = cx_nextNotifyId cx, nt_mid = mid, nt_result = result, nt_data = v,
                         nt_uri = (case uri of None \<Rightarrow> cis_uri_make URI_INVALID URI_INVALID URI_INVALID | Some u \<Rightarrow> u),
                         nt_isResponse = isResponse\<rparr>
             in Some (CIS_RET_OK, cx\<lparr>cx_notifyList := cis_list_add nt_id (cx_notifyList cx) node\<rparr>)) })"

definition cis_response ::
  "cis_env \<Rightarrow> st_context \<Rightarrow> st_uri option \<Rightarrow> cis_data option \<Rightarrow> u32 \<Rightarrow> u8 \<Rightarrow> (int \<times> st_context) option" where
  "cis_response env cx uri data mid result =
     (if cx_stateStep cx \<noteq> PUMP_STATE_READY then Some (CIS_RET_INVILID, cx)
      else if result < COAP_204_CHANGED \<or> COAP_503_SERVICE_UNAVAILABLE < result then Some (CIS_RET_ERROR, cx)
      else enqueue_notify env cx True uri data mid result)"

definition cis_notify ::
  "cis_env \<Rightarrow> st_context \<Rightarrow> st_uri option \<Rightarrow> cis_data option \<Rightarrow> u32 \<Rightarrow> u8 \<Rightarrow> (int \<times> st_context) option" where
  "cis_notify env cx uri data mid result =
     (if cx_stateStep cx \<noteq> PUMP_STATE_READY then Some (CIS_RET_INVILID, cx)
      else if result \<noteq> COAP_205_CONTENT \<and> result \<noteq> COAP_231_CONTINUE then Some (CIS_RET_PARAMETER_ERR, cx)
      else enqueue_notify env cx False uri data mid result)"

end
