(* ===== verification/Cis_Observe.thy ===== *)
theory Cis_Observe
  imports Cis_Request
begin

text \<open>
  \<open>cis_observe.c\<close>: the observations of the server. The list is kept in the order of \<open>cis_list_add\<close>, but
  the field it is ordered by, \<open>msgid\<close>, is 0 when a node is added and set later, so the code searches it
  from the front. A node is known by its position.
\<close>

section \<open>The list\<close>

definition observed_matches :: "st_uri \<Rightarrow> st_observed \<Rightarrow> bool" where
  "observed_matches uri t \<longleftrightarrow>
     uri_objectId (ob_uri t) = uri_objectId uri \<and>
     (\<not> CIS_URI_IS_SET_INSTANCE uri \<and> \<not> CIS_URI_IS_SET_INSTANCE (ob_uri t) \<or>
      CIS_URI_IS_SET_INSTANCE uri \<and> CIS_URI_IS_SET_INSTANCE (ob_uri t) \<and>
        uri_instanceId uri = uri_instanceId (ob_uri t)) \<and>
     (CIS_URI_IS_SET_RESOURCE uri \<and> CIS_URI_IS_SET_RESOURCE (ob_uri t) \<and>
        uri_resourceId uri = uri_resourceId (ob_uri t) \<or>
      \<not> CIS_URI_IS_SET_RESOURCE uri \<and> \<not> CIS_URI_IS_SET_RESOURCE (ob_uri t))"

text \<open>The first node with a property, as a position: the loops of \<open>cis_observe.c\<close>.\<close>

fun find_observed :: "(st_observed \<Rightarrow> bool) \<Rightarrow> st_observed list \<Rightarrow> nat option" where
  "find_observed P [] = None"
| "find_observed P (t # ts) = (if P t then Some 0 else map_option Suc (find_observed P ts))"

text \<open>\<open>prv_findObserved\<close>; the URI may be the null pointer, which is read once there is a node.\<close>

definition prv_findObserved :: "st_context \<Rightarrow> st_uri option \<Rightarrow> nat option option" where
  "prv_findObserved cx uriP =
     (case uriP of
        None \<Rightarrow> if cx_observedList cx = [] then Some None else None
      | Some uri \<Rightarrow> Some (find_observed (observed_matches uri) (cx_observedList cx)))"

definition observe_findByMsgid :: "st_context \<Rightarrow> u32 \<Rightarrow> nat option" where
  "observe_findByMsgid cx mid = find_observed (\<lambda>t. ob_msgid t = mid) (cx_observedList cx)"

fun unlink_node :: "'a list \<Rightarrow> nat \<Rightarrow> 'a list" where
  "unlink_node [] i = []"
| "unlink_node (t # ts) 0 = ts"
| "unlink_node (t # ts) (Suc i) = t # unlink_node ts i"

definition prv_unlinkObserved :: "st_context \<Rightarrow> nat \<Rightarrow> st_context" where
  "prv_unlinkObserved cx i = cx\<lparr>cx_observedList := unlink_node (cx_observedList cx) i\<rparr>"

definition new_observed :: "st_uri \<Rightarrow> st_observed" where
  "new_observed uri =
     \<lparr>ob_msgid = 0, ob_uri = uri, ob_actived = False, ob_parameters = None, ob_token = replicate 8 0,
      ob_tokenLen = 0, ob_lastTime = 0, ob_counter = 0, ob_lastMid = 0, ob_format = LWM2M_CONTENT_TEXT,
      ob_reportData = None\<rparr>"

text \<open>Where \<open>cis_list_add\<close> puts a node with \<open>msgid\<close> 0.\<close>

definition new_place :: "st_observed list \<Rightarrow> nat" where
  "new_place l = (case l of [] \<Rightarrow> 0 | h # _ \<Rightarrow> if 0 < ob_msgid h then 0 else 1)"

definition prv_getObserved :: "cis_env \<Rightarrow> st_context \<Rightarrow> st_uri \<Rightarrow> nat option \<times> st_context" where
  "prv_getObserved env cx uri =
     (case find_observed (observed_matches uri) (cx_observedList cx) of
        Some i \<Rightarrow> (Some i, cx)
      | None \<Rightarrow>
          if pf_malloc env (env_sizeof_observed env) = None then (None, cx)
          else (Some (new_place (cx_observedList cx)),
                cx\<lparr>cx_observedList := cis_list_add ob_msgid (cx_observedList cx) (new_observed uri)\<rparr>))"

definition update_observed :: "nat \<Rightarrow> (st_observed \<Rightarrow> st_observed) \<Rightarrow> st_context \<Rightarrow> st_context" where
  "update_observed i f cx = cx\<lparr>cx_observedList := (cx_observedList cx)[i := f (cx_observedList cx ! i)]\<rparr>"

fun observe_removeAll_loop :: "st_observed list \<Rightarrow> st_observed list" where
  "observe_removeAll_loop [] = []"
| "observe_removeAll_loop (t # ts) = observe_removeAll_loop ts"

definition observe_removeAll :: "st_context \<Rightarrow> st_context" where
  "observe_removeAll cx = cx\<lparr>cx_observedList := observe_removeAll_loop (cx_observedList cx)\<rparr>"

text \<open>
  \<open>observe_cancel\<close>: by URI when \<open>mid\<close> is \<open>MESSAGEID_INVALID\<close> (0), otherwise by the id of the last
  notification sent.
\<close>

abbreviation (input) MESSAGEID_INVALID :: u16 where "MESSAGEID_INVALID \<equiv> 0"

definition observe_cancel :: "st_context \<Rightarrow> u16 \<Rightarrow> st_uri option \<Rightarrow> st_context option" where
  "observe_cancel cx mid uriP =
     (if mid = MESSAGEID_INVALID
      then do {
        found \<leftarrow> prv_findObserved cx uriP;
        Some (case found of None \<Rightarrow> cx | Some i \<Rightarrow> prv_unlinkObserved cx i) }
      else Some (case find_observed (\<lambda>t. ob_lastMid t = mid) (cx_observedList cx) of
                   None \<Rightarrow> cx
                 | Some i \<Rightarrow> prv_unlinkObserved cx i))"

section \<open>Acknowledging an observe request\<close>

definition token_of_request :: "st_request \<Rightarrow> bytes option" where
  "token_of_request request = aslice (rq_token request) 0 (unat (rq_tokenLen request))"

text \<open>
  Entering the request into the list, and the packet with the observe option; \<open>Inl\<close> is the error
  code of an early return.
\<close>

definition ack_observe ::
  "cis_env \<Rightarrow> st_context \<Rightarrow> st_request \<Rightarrow> u8 \<Rightarrow> coap_packet \<Rightarrow>
   (u8 + (st_context \<times> coap_packet)) option" where
  "ack_observe env cx request result packet =
     (let uri = rq_uri request in
      if \<not> CIS_URI_IS_SET_INSTANCE uri \<and> CIS_URI_IS_SET_RESOURCE uri then Some (Inl COAP_400_BAD_REQUEST)
      else if result \<noteq> COAP_205_CONTENT then Some (Inr (cx, packet))
      else case prv_getObserved env cx uri of
             (None, cx) \<Rightarrow> Some (Inl COAP_500_INTERNAL_SERVER_ERROR)
           | (Some i, cx) \<Rightarrow> do {
               let observed = cx_observedList cx ! i;
               tok \<leftarrow> token_of_request request;
               tok \<leftarrow> ablit (ob_token observed) 0 tok;
               (_, packet) \<leftarrow> coap_set_header_observe packet (ob_counter observed);
               Some (Inr (update_observed i
                 (\<lambda>t. t\<lparr>ob_actived := True, ob_msgid := rq_mid request,
                        ob_tokenLen := ucast (rq_tokenLen request), ob_token := tok,
                        ob_lastTime := pf_time env, ob_counter := ob_counter t + 1\<rparr>) cx, packet)) })"

definition observe_asynAckNodata ::
  "cis_env \<Rightarrow> st_context \<Rightarrow> st_request \<Rightarrow> u8 \<Rightarrow> (u8 \<times> st_context \<times> cis_event list) option" where
  "observe_asynAckNodata env cx request result =
     (if rq_tokenLen request = 0 then Some (COAP_500_INTERNAL_SERVER_ERROR, cx, [])
      else do {
        tok \<leftarrow> token_of_request request;
        (_, packet) \<leftarrow> coap_set_header_token (coap_init_message COAP_TYPE_ACK result (ucast (rq_mid request))) tok;
        r \<leftarrow> (case rq_type request of
                CALLBACK_TYPE_OBSERVE \<Rightarrow> ack_observe env cx request result packet
              | CALLBACK_TYPE_OBSERVE_CANCEL \<Rightarrow> do {
                  found \<leftarrow> prv_findObserved cx (Some (rq_uri request));
                  if found = None then Some (Inl COAP_500_INTERNAL_SERVER_ERROR)
                  else do {
                    cx \<leftarrow> observe_cancel cx MESSAGEID_INVALID (Some (rq_uri request));
                    Some (Inr (cx, packet)) } }
              | CALLBACK_TYPE_OBSERVE_PARAMS \<Rightarrow> do {
                  found \<leftarrow> prv_findObserved cx (Some (rq_uri request));
                  Some (if found = None then Inl COAP_500_INTERNAL_SERVER_ERROR else Inr (cx, packet)) }
              | _ \<Rightarrow> Some (Inl COAP_400_BAD_REQUEST));
        case r of
          Inl code \<Rightarrow> Some (code, cx, [])
        | Inr (cx, packet) \<Rightarrow> do {
            (_, evs) \<leftarrow> packet_send env cx packet;
            Some (COAP_NO_ERROR, cx, evs) } })"

section \<open>Notifications\<close>

text \<open>
  \<open>observe_asynReport\<close> of the node at position \<open>i\<close>: it searches the list for its own \<open>msgid\<close>, and sends
  the data collected in \<open>reportData\<close> to the observation found.
\<close>

definition observe_asynReport ::
  "cis_env \<Rightarrow> st_context \<Rightarrow> nat \<Rightarrow> (u8 \<times> st_context \<times> cis_event list) option" where
  "observe_asynReport env cx i =
     (let observe = cx_observedList cx ! i in
      case ob_reportData observe of
        None \<Rightarrow> Some (COAP_400_BAD_REQUEST, cx, [])
      | Some ds \<Rightarrow>
          (case observe_findByMsgid cx (ob_msgid observe) of
             None \<Rightarrow> Some (COAP_404_NOT_FOUND, cx, [])
           | Some j \<Rightarrow>
               (let target = cx_observedList cx ! j; uri = ob_uri target in
                if CIS_URI_IS_SET_INSTANCE uri \<and> CIS_URI_IS_SET_RESOURCE uri \<and>
                   (1 < length ds \<or> \<not> uri_exist (Some uri) (Some (ob_uri observe)))
                then Some (COAP_400_BAD_REQUEST, cx, [])
                else do {
                  (len, format, buffer) \<leftarrow> data_serialize (pf_malloc env) (env_float_text env) uri ds (ob_format target);
                  if len \<le> -1 then Some (COAP_500_INTERNAL_SERVER_ERROR, cx, [])
                  else do {
                    let packet = coap_init_message COAP_TYPE_ACK COAP_205_CONTENT 0;
                    (_, packet) \<leftarrow> coap_set_header_content_type packet (media_code format);
                    let packet = snd (coap_set_payload packet (Some buffer) (of_int len));
                    let lastMid = cx_nextMid cx;
                    let packet = packet\<lparr>cp_mid := lastMid\<rparr>;
                    tok \<leftarrow> aslice (ob_token target) 0 (unat (ob_tokenLen target));
                    (_, packet) \<leftarrow> coap_set_header_token packet tok;
                    (_, packet) \<leftarrow> coap_set_header_observe packet (ob_counter target);
                    let cx = update_observed j
                      (\<lambda>t. t\<lparr>ob_lastTime := pf_time env, ob_lastMid := lastMid, ob_counter := ob_counter t + 1\<rparr>)
                      (cx\<lparr>cx_nextMid := cx_nextMid cx + 1\<rparr>);
                    (_, evs) \<leftarrow> packet_send env cx packet;
                    _ \<leftarrow> free_out (serialize_pointer (pf_malloc env) (env_float_text env) uri ds (ob_format target));
                    Some (COAP_NO_ERROR, cx, evs) } })))"

section \<open>Requests\<close>

text \<open>\<open>std_object_isStdObject\<close> with \<open>CIS_ENABLE_MONITER\<close> and \<open>CIS_ENABLE_DM\<close>, without \<open>CIS_ENABLE_UPDATE\<close>.\<close>

definition std_object_isStdObject :: "u16 \<Rightarrow> bool" where
  "std_object_isStdObject oid \<longleftrightarrow> oid = 4 \<or> oid = 0 \<or> oid = 10290 \<or> oid = 666"

text \<open>
  \<open>observe_handleRequest\<close>: the code for the caller, the state and the events. A new observe request
  is known to the application by a number in the upper half of the id; a repeated one keeps the id
  under which it waits.
\<close>

definition observe_id :: "st_context \<Rightarrow> u16 \<Rightarrow> u32 \<times> bool \<times> st_context" where
  "observe_id cx mid =
     (case packet_asynFindObserveRequest cx mid of
        Some observeMid \<Rightarrow> (observeMid, True, cx)
      | None \<Rightarrow>
          (let n = cx_nextObserveNum cx + 1 in
           (push_bit 16 (ucast n) OR ucast mid, False, cx\<lparr>cx_nextObserveNum := n\<rparr>)))"

definition observe_handleRequest ::
  "cis_env \<Rightarrow> st_context \<Rightarrow> st_uri \<Rightarrow> coap_packet \<Rightarrow> (u8 \<times> st_context \<times> cis_event list) option" where
  "observe_handleRequest env cx uri message =
     (if \<not> CIS_URI_IS_SET_INSTANCE uri \<and> CIS_URI_IS_SET_RESOURCE uri
      then Some (COAP_400_BAD_REQUEST, cx, [])
      else if cp_token_len message = 0 then Some (COAP_400_BAD_REQUEST, cx, [])
      else if cis_list_find oj_objID (cx_objectList cx) (ucast (uri_objectId uri)) = None
      then Some (COAP_404_NOT_FOUND, cx, [])
      else if std_object_isStdObject (uri_objectId uri)
      then do {
        tok \<leftarrow> aslice (cp_token message) 0 (unat (cp_token_len message));
        (_, packet) \<leftarrow> coap_set_header_token
          (coap_init_message COAP_TYPE_ACK COAP_405_METHOD_NOT_ALLOWED (cp_mid message)) tok;
        (_, evs) \<leftarrow> packet_send env cx packet;
        Some (COAP_IGNORE, cx, evs) }
      else do {
        flag \<leftarrow> snd (coap_get_header_observe message);
        if flag = 0
        then (let (observeMid, repeated, cx) = observe_id cx (cp_mid message);
                  result = env_onObserve env uri True observeMid;
                  ev = OnObserve uri True observeMid
              in if result \<noteq> COAP_206_CONFORM then Some (result, cx, [ev])
                 else if repeated then Some (COAP_IGNORE, cx, [ev])
                 else do {
                   (_, cx) \<leftarrow> packet_asynPushRequest env cx message CALLBACK_TYPE_OBSERVE observeMid;
                   Some (COAP_IGNORE, cx, [ev]) })
        else do {
          found \<leftarrow> prv_findObserved cx (Some uri);
          if found = None then Some (COAP_404_NOT_FOUND, cx, [])
          else (let mid = ucast (cp_mid message);
                    result = env_onObserve env uri False mid;
                    ev = OnObserve uri False mid
                in if result = COAP_206_CONFORM
                   then do {
                     (_, cx) \<leftarrow> packet_asynPushRequest env cx message CALLBACK_TYPE_OBSERVE_CANCEL mid;
                     Some (COAP_IGNORE, cx, [ev]) }
                   else Some (result, cx, [ev])) } })"

section \<open>Attributes\<close>

abbreviation (input) ATTR_FLAG_MIN_PERIOD :: u8 where "ATTR_FLAG_MIN_PERIOD \<equiv> 0x01"
abbreviation (input) ATTR_FLAG_MAX_PERIOD :: u8 where "ATTR_FLAG_MAX_PERIOD \<equiv> 0x02"
abbreviation (input) ATTR_FLAG_GREATER_THAN :: u8 where "ATTR_FLAG_GREATER_THAN \<equiv> 0x04"
abbreviation (input) ATTR_FLAG_LESS_THAN :: u8 where "ATTR_FLAG_LESS_THAN \<equiv> 0x08"
abbreviation (input) ATTR_FLAG_STEP :: u8 where "ATTR_FLAG_STEP \<equiv> 0x10"
abbreviation (input) ATTR_FLAG_NUMERIC :: u8 where "ATTR_FLAG_NUMERIC \<equiv> 0x1C"

text \<open>
  The attribute used in the check \<open>lt + 2 * stp < gt\<close>: the new one when it is set, otherwise the one
  stored.
\<close>

definition effective :: "u8 \<Rightarrow> (st_observe_attr \<Rightarrow> u32) \<Rightarrow> st_observe_attr \<Rightarrow> st_observe_attr option \<Rightarrow> u32 option" where
  "effective flag field attr stored =
     (if at_toSet attr AND flag \<noteq> 0 then Some (field attr) else map_option field stored)"

definition steps_bad :: "cis_env \<Rightarrow> st_observe_attr \<Rightarrow> st_observe_attr option \<Rightarrow> bool option" where
  "steps_bad env attr stored =
     (if (at_toSet attr OR (case stored of None \<Rightarrow> 0 | Some p \<Rightarrow> at_toSet p)) AND NOT (at_toClear attr)
           AND ATTR_FLAG_NUMERIC = ATTR_FLAG_NUMERIC
      then do {
        gt \<leftarrow> effective ATTR_FLAG_GREATER_THAN at_greaterThan attr stored;
        lt \<leftarrow> effective ATTR_FLAG_LESS_THAN at_lessThan attr stored;
        stp \<leftarrow> effective ATTR_FLAG_STEP at_step attr stored;
        Some (env_stp_bad env lt stp gt) }
      else Some False)"

text \<open>Storing into existing parameters; \<open>toSet\<close> only loses bits.\<close>

definition merge_attr :: "st_observe_attr \<Rightarrow> st_observe_attr \<Rightarrow> st_observe_attr" where
  "merge_attr attr p =
     (let has = (\<lambda>flag. at_toSet attr AND flag \<noteq> 0) in
      p\<lparr>at_toSet := at_toSet p AND NOT (at_toClear attr),
        at_minPeriod := (if has ATTR_FLAG_MIN_PERIOD then at_minPeriod attr else at_minPeriod p),
        at_maxPeriod := (if has ATTR_FLAG_MAX_PERIOD then at_maxPeriod attr else at_maxPeriod p),
        at_greaterThan := (if has ATTR_FLAG_GREATER_THAN then at_greaterThan attr else at_greaterThan p),
        at_lessThan := (if has ATTR_FLAG_LESS_THAN then at_lessThan attr else at_lessThan p),
        at_step := (if has ATTR_FLAG_STEP then at_step attr else at_step p)\<rparr>)"

text \<open>
  \<open>observe_setParameters\<close>. The log line after the update prints the stored parameters without a test,
  so that there must be some.
\<close>

definition observe_setParameters ::
  "cis_env \<Rightarrow> st_context \<Rightarrow> st_uri \<Rightarrow> st_observe_attr \<Rightarrow> coap_packet \<Rightarrow>
   (u8 \<times> st_context \<times> cis_event list) option" where
  "observe_setParameters env cx uri attr message =
     (if \<not> CIS_URI_IS_SET_INSTANCE uri \<and> CIS_URI_IS_SET_RESOURCE uri
      then Some (COAP_400_BAD_REQUEST, cx, [])
      else case prv_getObserved env cx uri of
        (None, cx) \<Rightarrow> Some (COAP_500_INTERNAL_SERVER_ERROR, cx, [])
      | (Some i, cx) \<Rightarrow>
          (let stored = ob_parameters (cx_observedList cx ! i) in do {
             bad \<leftarrow> steps_bad env attr stored;
             if bad then Some (COAP_400_BAD_REQUEST, cx, [])
             else if stored = None \<and> at_toSet attr \<noteq> 0 \<and> pf_malloc env (env_sizeof_attr env) = None
             then Some (COAP_500_INTERNAL_SERVER_ERROR, cx, [])
             else do {
               let new = (case stored of
                            Some p \<Rightarrow> Some (merge_attr attr p)
                          | None \<Rightarrow> if at_toSet attr \<noteq> 0 then Some attr else None);
               let cx = update_observed i (\<lambda>t. t\<lparr>ob_parameters := new\<rparr>) cx;
               _ \<leftarrow> new;
               case env_onSetParams env of
                 None \<Rightarrow> Some (COAP_500_INTERNAL_SERVER_ERROR, cx, [])
               | Some onSetParams \<Rightarrow>
                   (let mid = ucast (cp_mid message);
                        result = onSetParams uri attr mid;
                        ev = OnSetParams uri attr mid
                    in if result = COAP_206_CONFORM
                       then do {
                         (_, cx) \<leftarrow> packet_asynPushRequest env cx message CALLBACK_TYPE_OBSERVE_PARAMS mid;
                         Some (COAP_IGNORE, cx, [ev]) }
                       else Some (result, cx, [ev])) } }))"

end
