(* ===== verification/Cis_Instances.thy ===== *)
theory Cis_Instances
  imports Cis_Observe
begin

text \<open>
  The objects the application has added, and the bitmaps of their instances (\<open>cis_objects.c\<close>, the object
  functions of \<open>cis_core.c\<close>), and the request for an update of the registration (\<open>cis_registration.c\<close>),
  which the standard objects make, too.
\<close>

section \<open>Instances\<close>

text \<open>The bit of an instance, most significant bit first; the index is not compared with the bitmap.\<close>

definition bitmap_bit :: "bytes \<Rightarrow> u16 \<Rightarrow> bool option" where
  "bitmap_bit bitmap iid = do {
     b \<leftarrow> aload bitmap (unat iid div 8);
     Some (drop_bit (7 - unat iid mod 8) b AND 1 > 0) }"

definition object_checkInstExisted :: "bytes option \<Rightarrow> u16 \<Rightarrow> bool option" where
  "object_checkInstExisted inst_bitmap iid =
     (case inst_bitmap of None \<Rightarrow> Some True | Some bitmap \<Rightarrow> bitmap_bit bitmap iid)"

definition prv_getInstId :: "bytes option \<Rightarrow> u16 \<Rightarrow> bool option" where
  "prv_getInstId inst_bitmap index =
     (case inst_bitmap of None \<Rightarrow> Some False | Some bitmap \<Rightarrow> bitmap_bit bitmap index)"

definition prv_findObject :: "st_context \<Rightarrow> u16 \<Rightarrow> st_object option" where
  "prv_findObject cx objectid = cis_list_find oj_objID (cx_objectList cx) (ucast objectid)"

definition object_isInstanceNew :: "st_context \<Rightarrow> u16 \<Rightarrow> u16 \<Rightarrow> bool option" where
  "object_isInstanceNew cx objectId instanceId =
     (case prv_findObject cx objectId of
        None \<Rightarrow> Some True
      | Some target \<Rightarrow>
          if oj_instBitmapBytes target = 0 then Some False
          else object_checkInstExisted (oj_instBitmapPtr target) instanceId)"

record inst_bitmap =
  ib_instanceCount :: u16
  ib_instanceBytes :: u16
  ib_instanceBitmap :: "bytes option"

text \<open>The loop of \<open>cis_addobject\<close> over the \<open>n\<close> remaining indices.\<close>

fun count_instances :: "bytes \<Rightarrow> nat \<Rightarrow> u16 \<Rightarrow> u16 \<Rightarrow> u16 option" where
  "count_instances bitmap 0 index valid = Some valid"
| "count_instances bitmap (Suc n) index valid = do {
     found \<leftarrow> object_checkInstExisted (Some bitmap) index;
     count_instances bitmap n (index + 1) (if found then valid + 1 else valid) }"

abbreviation (input) CIS_RET_EXIST :: int where "CIS_RET_EXIST \<equiv> -4"
abbreviation (input) sizeof_object :: u32 where "sizeof_object \<equiv> 28"

text \<open>Without a bitmap the object has the one instance 0.\<close>

definition cis_addobject ::
  "cis_env \<Rightarrow> st_context \<Rightarrow> u16 \<Rightarrow> inst_bitmap option \<Rightarrow> (u16 \<times> u16) option \<Rightarrow> (int \<times> st_context) option" where
  "cis_addobject env cx objectid bitmap res =
     (let (instCount, instBytes, source) =
        (case bitmap of
           None \<Rightarrow> (1, 1, None)
         | Some b \<Rightarrow> (case ib_instanceBitmap b of
             None \<Rightarrow> (1, 1, None)
           | Some bs \<Rightarrow> (ib_instanceCount b, ib_instanceBytes b, Some bs)))
      in if source \<noteq> None \<and> (instBytes = 0 \<or> instCount = 0 \<or> int (unat instBytes) \<noteq> (uint instCount - 1) div 8 + 1)
         then Some (CIS_RET_ERROR, cx)
         else if prv_findObject cx objectid \<noteq> None then Some (CIS_RET_EXIST, cx)
         else if pf_malloc env sizeof_object = None \<or> pf_malloc env (ucast instBytes) = None
         then Some (CIS_RET_MEMORY_ERR, cx)
         else do {
           instPtr \<leftarrow> (case source of None \<Rightarrow> Some [0x80] | Some bs \<Rightarrow> aslice bs 0 (unat instBytes));
           valid \<leftarrow> count_instances instPtr (unat instCount) 0 0;
           if valid = 0 then Some (CIS_RET_ERROR, cx)
           else (let target = \<lparr>oj_objID = ucast objectid, oj_instBitmapBytes = instBytes,
                     oj_instBitmapCount = instCount, oj_instBitmapPtr = Some instPtr,
                     oj_instValidCount = valid,
                     oj_attributeCount = (case res of None \<Rightarrow> 0 | Some (a, _) \<Rightarrow> a),
                     oj_actionCount = (case res of None \<Rightarrow> 0 | Some (_, b) \<Rightarrow> b)\<rparr>
                 in Some (CIS_RET_OK, cx\<lparr>cx_objectList := cis_list_add oj_objID (cx_objectList cx) target\<rparr>)) })"

text \<open>\<open>cis_delobject\<close> returns the CoAP code 4.04 when there is no such object.\<close>

definition cis_delobject :: "st_context \<Rightarrow> u16 \<Rightarrow> int \<times> st_context" where
  "cis_delobject cx objectid =
     (case cis_list_remove oj_objID (cx_objectList cx) (ucast objectid) of
        (l, target) \<Rightarrow> (if target = None then 0x84 else CIS_RET_OK, cx\<lparr>cx_objectList := l\<rparr>))"

definition object_removeAll :: "st_context \<Rightarrow> st_context" where
  "object_removeAll cx = cx\<lparr>cx_objectList := []\<rparr>"

text \<open>An assignment through the pointer to an object.\<close>

definition write_object :: "st_object \<Rightarrow> st_context \<Rightarrow> st_context" where
  "write_object obj cx =
     cx\<lparr>cx_objectList := map (\<lambda>t. if oj_objID t = oj_objID obj then obj else t) (cx_objectList cx)\<rparr>"

section \<open>Asking for an update\<close>

definition set_status :: "et_status \<Rightarrow> st_context \<Rightarrow> st_context" where
  "set_status s cx = cx\<lparr>cx_server := map_option (\<lambda>server. server\<lparr>sv_status := s\<rparr>) (cx_server cx)\<rparr>"

definition registration_update_registration :: "st_context \<Rightarrow> bool \<Rightarrow> int \<times> st_context" where
  "registration_update_registration cx withObjects =
     (case cx_server cx of
        None \<Rightarrow> (0x84, cx)
      | Some target \<Rightarrow>
          if sv_status target = STATE_REGISTERED
          then (0, set_status (if withObjects then STATE_REG_UPDATE_NEEDED_WITHOBJECTS
                               else STATE_REG_UPDATE_NEEDED) cx)
          else (0x80, cx))"

abbreviation (input) LIFETIME_LIMIT_MIN :: int where "LIFETIME_LIMIT_MIN \<equiv> 0x0F"
abbreviation (input) LIFETIME_LIMIT_MAX :: int where "LIFETIME_LIMIT_MAX \<equiv> 0x0FFFFFFF"

definition cis_update_reg :: "st_context \<Rightarrow> int \<Rightarrow> bool \<Rightarrow> int \<times> st_context" where
  "cis_update_reg cx lifetime withObjects =
     (if cx_stateStep cx \<noteq> PUMP_STATE_READY then (CIS_RET_INVILID, cx)
      else (let n = lifetime mod 2 ^ 32 in
            registration_update_registration
              (if n \<noteq> 0xFFFFFFFF \<and> LIFETIME_LIMIT_MIN < n \<and> n < LIFETIME_LIMIT_MAX
               then cx\<lparr>cx_lifetime := lifetime\<rparr> else cx) withObjects))"

end
