(* ===== verification/Cis_Security.thy ===== *)
theory Cis_Security
  imports Cis_Context Cis_Data
begin

text \<open>
  \<open>std_object_security.c\<close>, the security object (object 0) that holds the addresses of the servers, and
  the dispatch of \<open>std_object.c\<close> for it. DTLS is compiled in; the run-time flag \<open>isDTLS\<close> is off, so
  that the scheme in front of a host has seven bytes.
\<close>

section \<open>Instances\<close>

definition prv_security_find :: "st_context \<Rightarrow> u16 \<Rightarrow> security_instance option" where
  "prv_security_find cx instanceId = cis_list_find si_instanceId (cx_instSecurity cx) (ucast instanceId)"

text \<open>A value of the instance, as a code and the filled value.\<close>

definition prv_get_value :: "allocator \<Rightarrow> st_data \<Rightarrow> security_instance \<Rightarrow> u8 \<times> st_data" where
  "prv_get_value mal d target =
     (if sd_id d = 0 then (COAP_205_CONTENT, data_encode_string mal (si_host target) d)
      else if sd_id d = 1 then (COAP_205_CONTENT, data_encode_bool (si_isBootstrap target) d)
      else if sd_id d = 2 then (COAP_205_CONTENT, data_encode_int (ucast (si_securityMode target)) d)
      else if sd_id d = 10 then (COAP_205_CONTENT, data_encode_int (ucast (si_shortID target)) d)
      else if sd_id d = 11 then (COAP_205_CONTENT, data_encode_int (ucast (si_clientHoldOffTime target)) d)
      else (COAP_404_NOT_FOUND, d))"

text \<open>The loop stops behind the first value that is not found.\<close>

fun read_values :: "allocator \<Rightarrow> security_instance \<Rightarrow> st_data list \<Rightarrow> u8 \<times> st_data list" where
  "read_values mal target [] = (COAP_205_CONTENT, [])"
| "read_values mal target (d # ds) =
     (let (result, d) = prv_get_value mal d target in
      if result = COAP_205_CONTENT
      then (let (result, ds) = read_values mal target ds in (result, d # ds))
      else (result, d # ds))"

definition std_security_read ::
  "allocator \<Rightarrow> st_context \<Rightarrow> u16 \<Rightarrow> st_data list \<Rightarrow> u8 \<times> st_data list" where
  "std_security_read mal cx instanceId ds =
     (case prv_security_find cx instanceId of
        None \<Rightarrow> (COAP_404_NOT_FOUND, ds)
      | Some target \<Rightarrow>
          if ds = []
          then (case data_new mal 4 of
                  None \<Rightarrow> (COAP_500_INTERNAL_SERVER_ERROR, [])
                | Some ds \<Rightarrow> read_values mal target (map2 set_id [0, 1, 10, 11] ds))
          else read_values mal target ds)"

section \<open>Writing\<close>

text \<open>
  The host of a URI \<open>coap://host:port\<close>: the seven bytes in front and five at the end are cut off. The
  size given to \<open>utils_stringCopy\<close> wraps round for a text of less than twelve bytes: the copy then
  goes on up to the next zero byte, which must be in the text.
\<close>

definition host_of_uri :: "bytes \<Rightarrow> bytes option" where
  "host_of_uri buffer =
     (let n = length buffer; body = drop 7 buffer in
      if 12 \<le> n then Some (c_string (take (n - 12) body))
      else if 0 \<in> set body then Some (c_string body)
      else None)"

definition zero_filled :: "nat \<Rightarrow> bytes \<Rightarrow> bytes" where
  "zero_filled n bs = bs @ replicate (n - length bs) 0"

text \<open>A number in the range \<open>0 .. hi\<close>.\<close>

definition write_number ::
  "st_data \<Rightarrow> u64 \<Rightarrow> (u64 \<Rightarrow> security_instance \<Rightarrow> security_instance) \<Rightarrow> security_instance \<Rightarrow>
   (u8 \<times> security_instance) option" where
  "write_number d hi set_field target = do {
     r \<leftarrow> data_decode_int d;
     Some (case r of
             Inl _ \<Rightarrow> (COAP_400_BAD_REQUEST, target)
           | Inr v \<Rightarrow> if 0 \<le> sint v \<and> sint v \<le> sint hi then (COAP_204_CHANGED, set_field v target)
                      else (COAP_406_NOT_ACCEPTABLE, target)) }"

text \<open>A block of bytes; the old one is freed before the new one is asked for.\<close>

definition write_block ::
  "allocator \<Rightarrow> st_data \<Rightarrow> (bytes option \<Rightarrow> security_instance \<Rightarrow> security_instance) \<Rightarrow>
   (security_instance \<Rightarrow> security_instance) \<Rightarrow> security_instance \<Rightarrow> u8 \<times> security_instance" where
  "write_block mal d set_field set_len target =
     (case mal (of_nat (length (sd_buffer d)) + 1) of
        None \<Rightarrow> (COAP_500_INTERNAL_SERVER_ERROR, set_field None target)
      | Some _ \<Rightarrow> (COAP_204_CHANGED, set_len (set_field (Some (sd_buffer d @ [0])) target)))"

definition write_value ::
  "allocator \<Rightarrow> st_data \<Rightarrow> security_instance \<Rightarrow> (u8 \<times> security_instance) option" where
  "write_value mal d target =
     (let len = (of_nat (length (sd_buffer d)) :: u8) in
      if sd_id d = 0
      then (case mal (of_nat (length (sd_buffer d)) + 1) of
              None \<Rightarrow> Some (COAP_500_INTERNAL_SERVER_ERROR, target\<lparr>si_host := None\<rparr>)
            | Some _ \<Rightarrow> do {
                host \<leftarrow> host_of_uri (sd_buffer d);
                Some (COAP_204_CHANGED,
                      target\<lparr>si_host := Some (zero_filled (length (sd_buffer d) + 1) host)\<rparr>) })
      else if sd_id d = 2
      then write_number d 3 (\<lambda>v t. t\<lparr>si_securityMode := ucast v\<rparr>) target
      else if sd_id d = 1
      then do {
        r \<leftarrow> data_decode_bool d;
        Some (case r of
                Inl _ \<Rightarrow> (COAP_400_BAD_REQUEST, target)
              | Inr b \<Rightarrow> (COAP_204_CHANGED, target\<lparr>si_isBootstrap := b\<rparr>)) }
      else if sd_id d = 10
      then write_number d 0xFFFF (\<lambda>v t. t\<lparr>si_shortID := ucast v\<rparr>) target
      else if sd_id d = 11
      then write_number d 0xFFFF (\<lambda>v t. t\<lparr>si_clientHoldOffTime := ucast v\<rparr>) target
      else if sd_id d = 3
      then Some (write_block mal d (\<lambda>b t. t\<lparr>si_identify := b\<rparr>) (\<lambda>t. t\<lparr>si_id_len := len\<rparr>) target)
      else if sd_id d = 5
      then Some (write_block mal d (\<lambda>b t. t\<lparr>si_secret := b\<rparr>) (\<lambda>t. t\<lparr>si_psk_len := len\<rparr>) target)
      else if sd_id d = 4
      then Some (write_block mal d (\<lambda>b t. t\<lparr>si_public_key := b\<rparr>) (\<lambda>t. t) target)
      else Some (COAP_404_NOT_FOUND, target))"

text \<open>\<open>do ... while\<close>: the first value is written in any case, and there must be one.\<close>

fun write_values :: "allocator \<Rightarrow> st_data list \<Rightarrow> security_instance \<Rightarrow> (u8 \<times> security_instance) option" where
  "write_values mal [] target = None"
| "write_values mal (d # ds) target = do {
     (result, target) \<leftarrow> write_value mal d target;
     if ds \<noteq> [] \<and> result = COAP_204_CHANGED then write_values mal ds target
     else Some (result, target) }"

text \<open>An assignment through the pointer to an instance.\<close>

definition update_security :: "security_instance \<Rightarrow> st_context \<Rightarrow> st_context" where
  "update_security target cx =
     cx\<lparr>cx_instSecurity := map (\<lambda>t. if si_instanceId t = si_instanceId target then target else t)
                             (cx_instSecurity cx)\<rparr>"

definition std_security_write ::
  "allocator \<Rightarrow> st_context \<Rightarrow> u16 \<Rightarrow> st_data list \<Rightarrow> (u8 \<times> st_context) option" where
  "std_security_write mal cx instanceId ds =
     (case prv_security_find cx instanceId of
        None \<Rightarrow> Some (COAP_404_NOT_FOUND, cx)
      | Some target \<Rightarrow> do {
          (result, target) \<leftarrow> write_values mal ds target;
          Some (result, update_security target cx) })"

definition std_security_get_host :: "allocator \<Rightarrow> st_context \<Rightarrow> u16 \<Rightarrow> bytes option option" where
  "std_security_get_host mal cx instanceId =
     (case prv_security_find cx instanceId of
        None \<Rightarrow> Some None
      | Some target \<Rightarrow> do {
          host \<leftarrow> si_host target;
          Some (case utils_strdup mal host of Inl _ \<Rightarrow> None | Inr copy \<Rightarrow> Some copy) })"

section \<open>Creation and removal\<close>

text \<open>The bits of the instances of the list, added up without a look at the size of the bitmap.\<close>

fun add_bits :: "security_instance list \<Rightarrow> bytes \<Rightarrow> bytes option" where
  "add_bits [] bitmap = Some bitmap"
| "add_bits (t # ts) bitmap = do {
     let iid = unat (si_instanceId t);
     let pos = unat (ucast (si_instanceId t) :: u16) div 8;
     b \<leftarrow> aload bitmap pos;
     bitmap \<leftarrow> astore bitmap pos (b + push_bit (7 - iid mod 8) 1);
     add_bits ts bitmap }"

text \<open>
  \<open>std_security_create\<close>, without DTLS: the object it returns has the new bitmap, except for the first
  instance. A failed allocation of the bitmap is not noticed before it is cleared. When the 16-bit count
  of the instances is 0 the new one is freed but stays in the list (\<open>None\<close>).
\<close>

definition std_security_create ::
  "cis_env \<Rightarrow> st_context \<Rightarrow> u32 \<Rightarrow> bytes \<Rightarrow> bool \<Rightarrow> st_object option \<Rightarrow>
   (bool \<times> st_context \<times> st_object option) option" where
  "std_security_create env cx instanceId serverHost isBootstrap securityObj =
     (case securityObj of
        None \<Rightarrow> Some (False, cx, None)
      | Some obj \<Rightarrow>
          (let mal = pf_malloc env; n = utils_strlen serverHost in
           if mal (env_sizeof_security env) = None \<or> mal (of_nat n + 1) = None then Some (False, cx, Some obj)
           else do {
             let target = \<lparr>si_instanceId = ucast (ucast instanceId :: u16),
                   si_host = Some (zero_filled (n + 1) (take n serverHost)), si_identify = None,
                   si_secret = None, si_public_key = None, si_isBootstrap = isBootstrap, si_shortID = 0,
                   si_clientHoldOffTime = 10, si_securityMode = 0, si_id_len = 0, si_psk_len = 0\<rparr>;
             let cx = cx\<lparr>cx_instSecurity := cis_list_add si_instanceId (cx_instSecurity cx) target\<rparr>;
             let instCount = (of_nat (length (cx_instSecurity cx)) :: u16);
             let instBytes = (instCount - 1) div 8 + 1;
             if instCount = 0 then None
             else if instCount = 1 then Some (True, cx, Some obj)
             else do {
               let obj = obj\<lparr>oj_instBitmapCount := instCount\<rparr>;
               let obj = (if oj_instBitmapBytes obj < instBytes
                          then obj\<lparr>oj_instBitmapPtr := mal (ucast instBytes), oj_instBitmapBytes := instBytes\<rparr>
                          else obj);
               old \<leftarrow> oj_instBitmapPtr obj;
               zeroed \<leftarrow> ablit old 0 (replicate (unat instBytes) 0);
               bitmap \<leftarrow> add_bits (take (unat instCount) (cx_instSecurity cx)) zeroed;
               Some (True, cx, Some (obj\<lparr>oj_instBitmapPtr := Some bitmap\<rparr>)) } }))"

fun security_clean_loop :: "security_instance list \<Rightarrow> security_instance list \<Rightarrow> security_instance list" where
  "security_clean_loop [] l = l"
| "security_clean_loop (t # ts) l =
     security_clean_loop ts (fst (cis_list_remove si_instanceId l (si_instanceId t)))"

definition std_security_clean :: "st_context \<Rightarrow> st_context" where
  "std_security_clean cx =
     cx\<lparr>cx_instSecurity := security_clean_loop (cx_instSecurity cx) (cx_instSecurity cx)\<rparr>"

section \<open>Dispatch\<close>

text \<open>
  \<open>std_object_write_handler\<close> for the security object: whatever the object answers, the handler says that
  all went well.
\<close>

definition std_object_write_handler ::
  "allocator \<Rightarrow> st_context \<Rightarrow> u16 \<Rightarrow> st_data list \<Rightarrow> (u8 \<times> st_context) option" where
  "std_object_write_handler mal cx instanceId ds = do {
     (_, cx) \<leftarrow> std_security_write mal cx instanceId ds;
     Some (COAP_204_CHANGED, cx) }"

definition std_object_writeInstance ::
  "allocator \<Rightarrow> st_context \<Rightarrow> st_uri \<Rightarrow> st_data \<Rightarrow> (u8 \<times> st_context) option" where
  "std_object_writeInstance mal cx uri d =
     (if uri_objectId uri \<noteq> 0 \<or> cis_list_find oj_objID (cx_objectList cx) (ucast (uri_objectId uri)) = None
      then Some (COAP_404_NOT_FOUND, cx)
      else std_object_write_handler mal cx (uri_instanceId uri) [d])"

end
