(* ===== verification/Cis_Monitor.thy ===== *)
theory Cis_Monitor
  imports Cis_Instances Cis_Security
begin

text \<open>
  The standard objects that report on the connection: \<open>cis_object_conn_moniter.c\<close> (object 4),
  \<open>cis_object_extend_moniter.c\<close> (object 10290), their instances and the handlers of \<open>std_object.c\<close>, and
  \<open>prv_createMoniterObjects\<close> of \<open>cis_objects.c\<close>, which adds both to the client on the first read of
  the second.
\<close>

section \<open>The lists of instances\<close>

fun inst_id :: "std_inst \<Rightarrow> u16" where
  "inst_id (ConnInst i) = i"
| "inst_id (MoniterInst i) = i"

abbreviation (input) std_inst_id :: "std_inst \<Rightarrow> u32" where
  "std_inst_id t \<equiv> ucast (inst_id t)"

definition std_object_put_conn :: "st_context \<Rightarrow> std_inst \<Rightarrow> st_context" where
  "std_object_put_conn cx target =
     cx\<lparr>cx_conn_inst := cis_list_add (\<lambda>t. std_inst_id t) (cx_conn_inst cx) target\<rparr>"

definition std_object_remove_conn :: "st_context \<Rightarrow> std_inst \<Rightarrow> st_context" where
  "std_object_remove_conn cx target =
     cx\<lparr>cx_conn_inst := fst (cis_list_remove (\<lambda>t. std_inst_id t) (cx_conn_inst cx) (std_inst_id target))\<rparr>"

definition std_object_put_moniter :: "st_context \<Rightarrow> std_inst \<Rightarrow> st_context" where
  "std_object_put_moniter cx target =
     cx\<lparr>cx_moniter_inst := cis_list_add (\<lambda>t. std_inst_id t) (cx_moniter_inst cx) target\<rparr>"

definition std_object_remove_moniter :: "st_context \<Rightarrow> std_inst \<Rightarrow> st_context" where
  "std_object_remove_moniter cx target =
     cx\<lparr>cx_moniter_inst := fst (cis_list_remove (\<lambda>t. std_inst_id t) (cx_moniter_inst cx) (std_inst_id target))\<rparr>"

text \<open>The node found in \<open>moniter_inst\<close> is stored in \<open>conn_inst\<close>.\<close>

definition std_object_get_moniter :: "st_context \<Rightarrow> u16 \<Rightarrow> std_inst option \<times> st_context" where
  "std_object_get_moniter cx instanceId =
     (let found = list_from (\<lambda>t. std_inst_id t) (cx_moniter_inst cx) (ucast instanceId)
      in (case found of [] \<Rightarrow> None | t # _ \<Rightarrow> Some t, cx\<lparr>cx_conn_inst := found\<rparr>))"

section \<open>Creation\<close>

text \<open>The loop over the instances of the list, which sets their bits in the bitmap.\<close>

fun instance_bits :: "std_inst list \<Rightarrow> bytes \<Rightarrow> bytes option" where
  "instance_bits [] bitmap = Some bitmap"
| "instance_bits (t # ts) bitmap = do {
     let iid = unat (inst_id t);
     let pos = unat (of_nat (iid div 8) :: u8);
     b \<leftarrow> aload bitmap pos;
     bitmap \<leftarrow> astore bitmap pos (b + push_bit (7 - iid mod 8) 1);
     instance_bits ts bitmap }"

text \<open>
  What both functions do behind the new node in the list: the count of the instances is a byte; with
  more than one the bitmap is made anew. When the count is 0 the node is freed but stays in the list
  (\<open>None\<close>), and a failed allocation of the bitmap is not noticed.
\<close>

definition grow_instances :: "allocator \<Rightarrow> std_inst list \<Rightarrow> st_object \<Rightarrow> (bool \<times> st_object) option" where
  "grow_instances mal insts obj =
     (let instCount = (ucast (cis_list_count insts) :: u8) in
      if instCount = 0 then None
      else if instCount = 1 then Some (True, obj)
      else do {
        let obj = obj\<lparr>oj_instBitmapCount := ucast instCount\<rparr>;
        let instBytes = (instCount - 1) div 8 + 1;
        let obj = (if oj_instBitmapBytes obj < ucast instBytes
                   then obj\<lparr>oj_instBitmapPtr := mal (ucast instBytes), oj_instBitmapBytes := ucast instBytes\<rparr>
                   else obj);
        old \<leftarrow> oj_instBitmapPtr obj;
        zeroed \<leftarrow> ablit old 0 (replicate (unat instBytes) 0);
        bitmap \<leftarrow> instance_bits (take (unat instCount) insts) zeroed;
        Some (True, obj\<lparr>oj_instBitmapPtr := Some bitmap\<rparr>) })"

text \<open>The object is a node of the list of the objects. An instance takes 16 and 28 bytes.\<close>

definition std_conn_moniter_create ::
  "cis_env \<Rightarrow> st_context \<Rightarrow> int \<Rightarrow> st_object option \<Rightarrow> (bool \<times> st_context) option" where
  "std_conn_moniter_create env cx instanceId connObj =
     (case connObj of
        None \<Rightarrow> Some (False, cx)
      | Some obj \<Rightarrow>
          if pf_malloc env 16 = None then Some (False, cx)
          else (let cx = std_object_put_conn cx (ConnInst (of_int instanceId)) in
                map_option (\<lambda>(ok, obj). (ok, write_object obj cx))
                  (grow_instances (pf_malloc env) (cx_conn_inst cx) obj)))"

definition std_moniter_create ::
  "cis_env \<Rightarrow> st_context \<Rightarrow> int \<Rightarrow> st_object option \<Rightarrow> (bool \<times> st_context) option" where
  "std_moniter_create env cx instanceId moniterObj =
     (case moniterObj of
        None \<Rightarrow> Some (False, cx)
      | Some obj \<Rightarrow>
          if pf_malloc env 28 = None then Some (False, cx)
          else (let cx = std_object_put_moniter cx (MoniterInst (of_int instanceId)) in
                map_option (\<lambda>(ok, obj). (ok, write_object obj cx))
                  (grow_instances (pf_malloc env) (cx_moniter_inst cx) obj)))"

text \<open>The returned code, which nobody looks at, is left out.\<close>

definition prv_createMoniterObjects :: "cis_env \<Rightarrow> st_context \<Rightarrow> st_context option" where
  "prv_createMoniterObjects env cx = do {
     (ret, cx) \<leftarrow> cis_addobject env cx 4 None None;
     if prv_findObject cx 4 = None then Some cx
     else do {
       cx \<leftarrow> (if ret \<noteq> CIS_RET_EXIST
               then map_option snd (std_conn_moniter_create env cx 0 (prv_findObject cx 4))
               else Some cx);
       (_, cx) \<leftarrow> cis_addobject env cx 10290 None None;
       if prv_findObject cx 10290 = None then Some cx
       else do {
         (_, cx) \<leftarrow> std_moniter_create env cx 0 (prv_findObject cx 10290);
         let cx = snd (cis_update_reg cx 0 True);
         Some (cx\<lparr>cx_moniter_created := True\<rparr>) } } }"

section \<open>Removal\<close>

text \<open>
  The nodes from \<open>conn_inst\<close> on are freed one after the other, and the nodes from \<open>moniter_inst\<close> on
  after them. The second walk reads a node before it frees it: when the first has freed it already
  that is undefined.
\<close>

fun conn_clean_loop :: "std_inst list \<Rightarrow> st_context \<Rightarrow> st_context" where
  "conn_clean_loop [] cx = cx"
| "conn_clean_loop (t # ts) cx = conn_clean_loop ts (std_object_remove_conn cx t)"

definition std_conn_moniter_clean :: "st_context \<Rightarrow> std_inst list \<times> st_context" where
  "std_conn_moniter_clean cx = (cx_conn_inst cx, conn_clean_loop (cx_conn_inst cx) cx)"

fun moniter_clean_loop :: "std_inst list \<Rightarrow> std_inst list \<Rightarrow> st_context \<Rightarrow> st_context option" where
  "moniter_clean_loop freed [] cx = Some cx"
| "moniter_clean_loop freed (t # ts) cx =
     (if t \<in> set freed then None else moniter_clean_loop freed ts (std_object_remove_moniter cx t))"

definition std_moniter_clean :: "std_inst list \<Rightarrow> st_context \<Rightarrow> st_context option" where
  "std_moniter_clean freed cx = moniter_clean_loop freed (cx_moniter_inst cx) cx"

section \<open>Reading\<close>

abbreviation (input) CIS_RET_UNSUPPORTIVE :: "8 word" where "CIS_RET_UNSUPPORTIVE \<equiv> -11"

definition conn_resources :: "u16 list" where
  "conn_resources = [2, 8, 6038]"

definition moniter_resources :: "u16 list" where
  "moniter_resources = [0, 6, 30, 31, 32, 6034, 20626, 6032, 20628, 20629, 20630, 20631, 6030]"

text \<open>A reading kept in an \<open>int8_t\<close>, whatever the modem's function returns; one value is reserved.\<close>

definition encode_int8 :: "u32 \<Rightarrow> st_data \<Rightarrow> st_data" where
  "encode_int8 reading d =
     (let v = (ucast reading :: 8 word) in
      if v = CIS_RET_UNSUPPORTIVE then d else data_encode_int (scast v) d)"

text \<open>The loops over the values; an unknown resource ends them.\<close>

fun prv_conn_moniter_get_value :: "cis_env \<Rightarrow> u8 \<Rightarrow> st_data list \<Rightarrow> u8 \<times> st_data list" where
  "prv_conn_moniter_get_value env result [] = (result, [])"
| "prv_conn_moniter_get_value env result (d # ds) =
     (if sd_id d = 2 \<or> sd_id d = 8
      then (let (r, ds) = prv_conn_moniter_get_value env COAP_205_CONTENT ds
            in (r, data_encode_int (ucast (env_reading env (sd_id d))) d # ds))
      else if sd_id d = 6038
      then (let (r, ds) = prv_conn_moniter_get_value env result ds
            in (r, encode_int8 (env_reading env (sd_id d)) d # ds))
      else (COAP_404_NOT_FOUND, d # ds))"

text \<open>The frequency (6032) is asked for a second time, in full, once its low byte is found supported.\<close>

fun prv_moniter_get_value :: "cis_env \<Rightarrow> st_data list \<Rightarrow> u8 \<times> st_data list" where
  "prv_moniter_get_value env [] = (COAP_205_CONTENT, [])"
| "prv_moniter_get_value env (d # ds) =
     (let reading = env_reading env (sd_id d) in
      if sd_id d = 6032
      then (let (r, ds) = prv_moniter_get_value env ds
            in (r, (if (ucast reading :: 8 word) = CIS_RET_UNSUPPORTIVE then d
                    else data_encode_int (scast reading) d) # ds))
      else if sd_id d \<in> set moniter_resources
      then (let (r, ds) = prv_moniter_get_value env ds in (r, encode_int8 reading d # ds))
      else (COAP_404_NOT_FOUND, d # ds))"

text \<open>
  The values of a whole instance: zeroed, with their identifiers. They are cleared without a look at
  the pointer.
\<close>

definition instance_values :: "allocator \<Rightarrow> u16 list \<Rightarrow> st_data list option" where
  "instance_values mal ids = map_option (map2 set_id ids) (data_new mal (length ids))"

definition set_instance_values :: "st_data list \<Rightarrow> st_data \<Rightarrow> st_data" where
  "set_instance_values ds d = set_value (AsChildren ds) (set_type DATA_TYPE_OBJECT_INSTANCE (set_id 0 d))"

text \<open>\<open>full\<close>: no resource is named, \<open>*numDataP\<close> is 0. The code and the value.\<close>

definition std_conn_moniter_read :: "cis_env \<Rightarrow> bool \<Rightarrow> st_data \<Rightarrow> (u8 \<times> st_data) option" where
  "std_conn_moniter_read env full d =
     (if full
      then do {
        ds \<leftarrow> instance_values (pf_malloc env) conn_resources;
        let (result, ds) = prv_conn_moniter_get_value env COAP_404_NOT_FOUND ds;
        Some (if result \<noteq> COAP_205_CONTENT then COAP_500_INTERNAL_SERVER_ERROR else COAP_205_CONTENT,
              set_instance_values ds d) }
      else (let (result, ds) = prv_conn_moniter_get_value env COAP_404_NOT_FOUND [d] in Some (result, hd ds)))"

definition std_moniter_read ::
  "cis_env \<Rightarrow> st_context \<Rightarrow> u16 \<Rightarrow> bool \<Rightarrow> st_data \<Rightarrow> (u8 \<times> st_context \<times> st_data) option" where
  "std_moniter_read env cx instanceId full d =
     (let (target, cx) = std_object_get_moniter cx instanceId in
      if instanceId \<noteq> 0 \<or> target = None then Some (COAP_404_NOT_FOUND, cx, d)
      else if full
      then do {
        ds \<leftarrow> instance_values (pf_malloc env) moniter_resources;
        let (result, ds) = prv_moniter_get_value env ds;
        Some (if result \<noteq> COAP_205_CONTENT then COAP_500_INTERNAL_SERVER_ERROR else COAP_205_CONTENT,
              cx, set_instance_values ds d) }
      else (let (result, ds) = prv_moniter_get_value env [d] in Some (result, cx, hd ds)))"

section \<open>Discovery\<close>

text \<open>The object that a link names, which nothing reads, is left out.\<close>

definition discover_instance :: "allocator \<Rightarrow> u16 list \<Rightarrow> st_data \<Rightarrow> st_data option" where
  "discover_instance mal ids d = do {
     ds \<leftarrow> instance_values mal ids;
     Some (set_instance_values (map (set_type DATA_TYPE_LINK) ds) d) }"

definition std_conn_moniter_discover :: "allocator \<Rightarrow> u16 \<Rightarrow> bool \<Rightarrow> st_data \<Rightarrow> (u8 \<times> st_data) option" where
  "std_conn_moniter_discover mal instanceId full d =
     (if instanceId \<noteq> 0 then Some (COAP_404_NOT_FOUND, d)
      else if full then map_option (Pair COAP_205_CONTENT) (discover_instance mal conn_resources d)
      else Some (if sd_id d = 2 \<or> sd_id d = 8 then COAP_205_CONTENT else COAP_404_NOT_FOUND, d))"

definition std_moniter_discover :: "allocator \<Rightarrow> u16 \<Rightarrow> bool \<Rightarrow> st_data \<Rightarrow> (u8 \<times> st_data) option" where
  "std_moniter_discover mal instanceId full d =
     (if instanceId \<noteq> 0 then Some (COAP_404_NOT_FOUND, d)
      else if full then map_option (Pair COAP_205_CONTENT) (discover_instance mal moniter_resources d)
      else Some (if sd_id d \<in> set moniter_resources then COAP_205_CONTENT else COAP_404_NOT_FOUND, d))"

section \<open>The handlers\<close>

text \<open>
  \<open>std_object_read_handler\<close> on the object with an identifier: the values it leaves behind the pointer.
  Whatever an object answers, the handler says that all went well. The security object replaces the
  values by a list of its own for a whole instance (\<open>None\<close>: the null pointer); without an instance it
  leaves them alone, and so does the device-management object (666), which has none before the device
  management starts. The monitor objects fill in the first value.
\<close>

definition std_object_read_handler ::
  "cis_env \<Rightarrow> st_context \<Rightarrow> u16 \<Rightarrow> bool \<Rightarrow> st_data list \<Rightarrow> u32 \<Rightarrow>
   (u8 \<times> st_context \<times> st_data list option) option" where
  "std_object_read_handler env cx instanceId full ds objID =
     (if objID = 0
      then (if prv_security_find cx instanceId = None then Some (COAP_205_CONTENT, cx, Some ds)
            else (let ds = snd (std_security_read (pf_malloc env) cx instanceId (if full then [] else ds))
                  in Some (COAP_205_CONTENT, cx, if ds = [] then None else Some ds)))
      else if objID = 4
      then map_option (\<lambda>(_, d). (COAP_205_CONTENT, cx, Some (d # tl ds))) (std_conn_moniter_read env full (hd ds))
      else if objID = 10290
      then map_option (\<lambda>(_, cx, d). (COAP_205_CONTENT, cx, Some (d # tl ds)))
             (std_moniter_read env cx instanceId full (hd ds))
      else if objID = 666 then Some (COAP_205_CONTENT, cx, Some ds)
      else Some (COAP_503_SERVICE_UNAVAILABLE, cx, Some ds))"

text \<open>\<open>std_object_discover_handler\<close>, which is only called for the two objects of this theory.\<close>

definition std_object_discover_handler ::
  "allocator \<Rightarrow> u16 \<Rightarrow> bool \<Rightarrow> st_data \<Rightarrow> u32 \<Rightarrow> (u8 \<times> st_data) option" where
  "std_object_discover_handler mal instanceId full d objID =
     map_option (\<lambda>(_, d). (COAP_205_CONTENT, d))
       (if objID = 4 then std_conn_moniter_discover mal instanceId full d
        else std_moniter_discover mal instanceId full d)"

end
