(* ===== verification/Cis_Objects.thy ===== *)
theory Cis_Objects
  imports Cis_Monitor
begin

text \<open>
  \<open>cis_objects.c\<close>, \<open>cis_discover.c\<close> and the object functions of \<open>cis_core.c\<close>: the objects the
  application has added, the link text in which they are registered and discovered, and the requests
  that are handed to the application. \<open>CIS_ENABLE_UPDATE\<close> and \<open>CIS_ENABLE_CMIOT_OTA\<close> are off,
  \<open>CIS_ENABLE_MONITER\<close> and \<open>CIS_ENABLE_DM\<close> on.
\<close>

section \<open>Link text\<close>

text \<open>
  A text that is written from the front of a buffer of \<open>cap\<close> bytes is the list of the bytes written so
  far; a failed write is \<open>Fail\<close>.
\<close>

definition then_write :: "bytes status option \<Rightarrow> (bytes \<Rightarrow> bytes status option) \<Rightarrow> bytes status option" where
  "then_write m f = (case m of None \<Rightarrow> None | Some (Inl _) \<Rightarrow> Some Fail | Some (Inr out) \<Rightarrow> f out)"

text \<open>\<open>utils_stringCopy\<close>, \<open>utils_intCopy\<close> and \<open>utils_intToText\<close> behind the text.\<close>

definition put_string :: "nat \<Rightarrow> bytes \<Rightarrow> bytes \<Rightarrow> bytes status option" where
  "put_string cap str out = do {
     (res, _) \<leftarrow> utils_stringCopy (replicate (cap - length out) 0) (cap - length out) str;
     Some (if res < 0 then Fail else Done (out @ take (nat res) str)) }"

definition put_int :: "nat \<Rightarrow> int \<Rightarrow> bytes \<Rightarrow> bytes status option" where
  "put_int cap v out = do {
     (res, buffer) \<leftarrow> utils_intCopy (replicate (cap - length out) 0) (cap - length out) v;
     Some (if res < 0 then Fail else Done (out @ take (nat res) buffer)) }"

definition link_string :: "nat \<Rightarrow> bytes \<Rightarrow> bytes \<Rightarrow> bytes status option" where
  "link_string cap str out = Some (if cap - length out < length str then Fail else Done (out @ str))"

definition link_number :: "nat \<Rightarrow> int \<Rightarrow> bytes \<Rightarrow> bytes status option" where
  "link_number cap v out = do {
     (res, buffer) \<leftarrow> utils_intToText v (replicate (cap - length out) 0);
     Some (if res = 0 then Fail else Done (out @ take res buffer)) }"

abbreviation (input) LINK_ITEM_START :: bytes where "LINK_ITEM_START \<equiv> [0x3C]"
abbreviation (input) LINK_ITEM_END :: bytes where "LINK_ITEM_END \<equiv> [0x3E, 0x2C]"
abbreviation (input) LINK_URI_SEPARATOR :: bytes where "LINK_URI_SEPARATOR \<equiv> [0x2F]"
abbreviation (input) REG_RESOURCE_TYPE :: bytes where
  "REG_RESOURCE_TYPE \<equiv> [0x3E, 0x3B, 0x72, 0x74, 0x3D, 0x22, 0x6F, 0x6D, 0x61, 0x2E, 0x6C, 0x77, 0x6D, 0x32, 0x6D, 0x22, 0x2C]"

text \<open>\<open>prv_getObjectTemplate\<close>: the template \<open></id/\<close> behind the text.\<close>

definition prv_getObjectTemplate :: "nat \<Rightarrow> u32 \<Rightarrow> bytes \<Rightarrow> bytes status option" where
  "prv_getObjectTemplate cap objID out =
     (if cap - length out < 5 then Some Fail
      else then_write (put_int cap (uint objID) (out @ [0x3C, 0x2F]))
        (\<lambda>out'. if cap - length out' < 2 then Some Fail else Some (Done (out' @ [0x2F]))))"

text \<open>The loop over the \<open>n\<close> remaining instances; \<open>start\<close> and \<open>len\<close> are the place of the template.\<close>

fun instance_links ::
  "nat \<Rightarrow> bytes option \<Rightarrow> nat \<Rightarrow> nat \<Rightarrow> nat \<Rightarrow> u16 \<Rightarrow> bytes \<Rightarrow> bytes status option" where
  "instance_links cap bitmap start len 0 index out = Some (Done out)"
| "instance_links cap bitmap start len (Suc n) index out = do {
     exists \<leftarrow> prv_getInstId bitmap index;
     if \<not> exists then instance_links cap bitmap start len n (index + 1) out
     else if cap - length out \<le> len then Some Fail
     else then_write
       (then_write (put_int cap (uint index)
           (if length out = start + len then out else out @ take len (drop start out)))
         (put_string cap LINK_ITEM_END))
       (instance_links cap bitmap start len n (index + 1)) }"

fun object_links :: "nat \<Rightarrow> st_object list \<Rightarrow> bytes \<Rightarrow> bytes status option" where
  "object_links cap [] out = Some (Done out)"
| "object_links cap (obj # objs) out =
     then_write
       (then_write (prv_getObjectTemplate cap (oj_objID obj) out)
         (\<lambda>out'. if oj_instBitmapBytes obj = 0 then put_string cap LINK_ITEM_END (butlast out')
                 else instance_links cap (oj_instBitmapPtr obj) (length out) (length out' - length out)
                        (unat (oj_instBitmapCount obj)) 0 out'))
       (object_links cap objs)"

text \<open>
  \<open>object_getRegisterPayload\<close> with a buffer of \<open>cap\<close> bytes: the text, or \<open>Fail\<close> for the return value 0.
  The comma at the end is cut off, and a zero is stored in its place.
\<close>

definition object_getRegisterPayload :: "st_context \<Rightarrow> nat \<Rightarrow> bytes status option" where
  "object_getRegisterPayload cx cap =
     then_write
       (then_write
         (then_write (put_string cap LINK_ITEM_START [])
           (put_string cap (case cx_altPath cx of
                              Some p \<Rightarrow> if p \<noteq> [] \<and> hd p \<noteq> 0 then p else LINK_URI_SEPARATOR
                            | None \<Rightarrow> LINK_URI_SEPARATOR)))
         (put_string cap REG_RESOURCE_TYPE))
       (\<lambda>out. then_write (object_links cap (cx_objectList cx) out)
         (\<lambda>out. if length out \<le> cap then Some (Done (butlast out)) else None))"

section \<open>Discovery\<close>

definition link_entry :: "nat \<Rightarrow> bytes \<Rightarrow> u16 \<Rightarrow> bytes \<Rightarrow> bytes status option" where
  "link_entry cap parentUri n out =
     then_write (link_string cap LINK_ITEM_START out)
       (\<lambda>out. then_write (link_string cap parentUri out)
         (\<lambda>out. then_write (link_string cap LINK_URI_SEPARATOR out)
           (\<lambda>out. then_write (link_number cap (uint n) out) (link_string cap LINK_ITEM_END))))"

text \<open>The URI of an instance, in a buffer of \<open>URI_MAX_STRING_LEN\<close> bytes.\<close>

definition instance_uri :: "bytes \<Rightarrow> u16 \<Rightarrow> bytes status option" where
  "instance_uri parentUri n =
     (if 17 \<le> length parentUri then Some Fail
      else then_write (link_string 18 LINK_URI_SEPARATOR parentUri) (link_number 18 (uint n)))"

text \<open>
  \<open>prv_serializeLinkData\<close> behind the text, in what is left of a buffer of \<open>cap\<close> bytes. Nested values are
  the elements of \<open>kids\<close>.
\<close>

function prv_serializeLinkData :: "nat \<Rightarrow> bytes \<Rightarrow> st_data \<Rightarrow> bytes \<Rightarrow> bytes status option"
  and link_children :: "nat \<Rightarrow> bytes \<Rightarrow> st_data list \<Rightarrow> bytes \<Rightarrow> bytes status option" where
  "prv_serializeLinkData cap parentUri d out =
     (if sd_type d = DATA_TYPE_UNDEFINE then Some (Done out)
      else if sd_type d \<in> {DATA_TYPE_STRING, DATA_TYPE_OPAQUE, DATA_TYPE_INTEGER, DATA_TYPE_FLOAT,
                           DATA_TYPE_BOOL, DATA_TYPE_LINK}
      then link_entry cap parentUri (sd_id d) out
      else if sd_type d \<in> {DATA_TYPE_OBJECT_INSTANCE, DATA_TYPE_OBJECT}
      then (case instance_uri parentUri (sd_id d) of
              None \<Rightarrow> None
            | Some (Inl _) \<Rightarrow> Some Fail
            | Some (Inr uriStr) \<Rightarrow>
                (case then_write (link_string cap LINK_ITEM_START out)
                        (\<lambda>out. then_write (link_string cap uriStr out) (link_string cap LINK_ITEM_END)) of
                   None \<Rightarrow> None
                 | Some (Inl _) \<Rightarrow> Some Fail
                 | Some (Inr out) \<Rightarrow>
                     if as_children d = None then None else link_children cap uriStr (kids d) out))
      else Some Fail)"
| "link_children cap parentUri [] out = Some (Done out)"
| "link_children cap parentUri (d # ds) out =
     (if sd_id d \<noteq> URI_INVALID \<and> sd_type d \<noteq> DATA_TYPE_UNDEFINE
      then (case prv_serializeLinkData cap parentUri d out of
              None \<Rightarrow> None
            | Some (Inl _) \<Rightarrow> Some Fail
            | Some (Inr out) \<Rightarrow> link_children cap parentUri ds out)
      else link_children cap parentUri ds out)"
  by pat_completeness auto
termination
  by (relation "measure (\<lambda>x. case x of Inl (cap, p, d, out) \<Rightarrow> 2 * size d + 1
                               | Inr (cap, p, ds, out) \<Rightarrow> 2 * size_list size ds)")
     (auto simp: size_kids_twice [where n = 0, simplified])

text \<open>The entries of the values; the loop stops when the buffer is full.\<close>

fun link_values :: "nat \<Rightarrow> bytes \<Rightarrow> st_data list \<Rightarrow> bytes \<Rightarrow> bytes status option" where
  "link_values cap baseUri [] out = Some (Done out)"
| "link_values cap baseUri (d # ds) out =
     (if length out < cap
      then then_write (prv_serializeLinkData cap baseUri d out) (link_values cap baseUri ds)
      else Some (Done out))"

abbreviation (input) PRV_LINK_BUFFER_SIZE :: nat where "PRV_LINK_BUFFER_SIZE \<equiv> 512"

text \<open>\<open>discover_serialize\<close>: the text without its last byte, or \<open>Fail\<close> for -1.\<close>

definition discover_serialize :: "allocator \<Rightarrow> st_uri \<Rightarrow> st_data list \<Rightarrow> bytes status option" where
  "discover_serialize mal uri ds =
     (if mal 512 = None then Some Fail
      else do {
        (len, base, _) \<leftarrow> uri_toString (Some uri) (replicate 18 0);
        if len < 0 then Some Fail
        else (let baseUri = take (nat (len - 1)) base in
          then_write (link_entry PRV_LINK_BUFFER_SIZE [] (uri_objectId uri) [])
            (\<lambda>out. then_write
              (if CIS_URI_IS_SET_INSTANCE uri
               then then_write (link_string PRV_LINK_BUFFER_SIZE LINK_ITEM_START out)
                 (\<lambda>out. then_write (link_string PRV_LINK_BUFFER_SIZE LINK_URI_SEPARATOR out)
                   (\<lambda>out. then_write (link_number PRV_LINK_BUFFER_SIZE (uint (uri_objectId uri)) out)
                     (\<lambda>out. then_write (link_string PRV_LINK_BUFFER_SIZE LINK_URI_SEPARATOR out)
                       (\<lambda>out. then_write (link_number PRV_LINK_BUFFER_SIZE (uint (uri_instanceId uri)) out)
                         (link_string PRV_LINK_BUFFER_SIZE LINK_ITEM_END)))))
               else Some (Done out))
              (\<lambda>out. then_write (link_values PRV_LINK_BUFFER_SIZE baseUri ds out)
                (\<lambda>out. case mal (of_nat (length out - 1)) of
                         None \<Rightarrow> Some Fail
                       | Some _ \<Rightarrow> Some (Done (butlast out)))))) })"

section \<open>Answers\<close>

text \<open>The bytes of the answer, their format and the pointer to them; \<open>Inl\<close> is an early return.\<close>

definition answer_bytes ::
  "cis_env \<Rightarrow> st_request \<Rightarrow> u8 \<Rightarrow> (u8 + (int \<times> et_media_type \<times> bytes \<times> out_pointer)) option" where
  "answer_bytes env request result =
     (case rq_respData request of
        Some ds \<Rightarrow>
          if result = COAP_205_CONTENT \<and> rq_type request = CALLBACK_TYPE_READ
          then do {
            (len, format, buffer) \<leftarrow>
              data_serialize (pf_malloc env) (env_float_text env) (rq_uri request) ds (rq_format request);
            if len \<le> -1 then Some (Inl COAP_500_INTERNAL_SERVER_ERROR)
            else (let p = serialize_pointer (pf_malloc env) (env_float_text env) (rq_uri request) ds (rq_format request)
                  in Some (Inr (len, format, buffer, if p = Unset then Null else p))) }
          else if result = COAP_205_CONTENT \<and> rq_type request = CALLBACK_TYPE_DISCOVER
          then do {
            r \<leftarrow> discover_serialize (pf_malloc env) (rq_uri request) ds;
            Some (case r of
                    Inl _ \<Rightarrow> Inl COAP_500_INTERNAL_SERVER_ERROR
                  | Inr text \<Rightarrow> if text = [] then Inl COAP_500_INTERNAL_SERVER_ERROR
                                else Inr (int (length text), LWM2M_CONTENT_LINK, text, Owned)) }
          else Some (Inr (0, LWM2M_CONTENT_TEXT, [], Null))
      | None \<Rightarrow> Some (Inr (0, LWM2M_CONTENT_TEXT, [], Null)))"

definition object_asynAckReadData ::
  "cis_env \<Rightarrow> st_context \<Rightarrow> st_request \<Rightarrow> u8 \<Rightarrow> (u8 \<times> cis_event list) option" where
  "object_asynAckReadData env cx request result = do {
     r \<leftarrow> answer_bytes env request result;
     case r of
       Inl code \<Rightarrow> Some (code, [])
     | Inr (len, format, buffer, p) \<Rightarrow> do {
         tok \<leftarrow> token_of_request request;
         (_, packet) \<leftarrow> coap_set_header_token (coap_init_message COAP_TYPE_ACK result (ucast (rq_mid request))) tok;
         packet \<leftarrow> (if 0 < len
                     then map_option (\<lambda>(_, pkt). snd (coap_set_payload pkt (Some buffer) (of_int len)))
                            (coap_set_header_content_type packet (media_code format))
                     else Some packet);
         (_, evs) \<leftarrow> packet_send env cx packet;
         _ \<leftarrow> free_out p;
         Some (COAP_NO_ERROR, evs) } }"

definition object_asynAckNodata ::
  "cis_env \<Rightarrow> st_context \<Rightarrow> st_request \<Rightarrow> u8 \<Rightarrow> (u8 \<times> cis_event list) option" where
  "object_asynAckNodata env cx request result = do {
     tok \<leftarrow> token_of_request request;
     (_, response) \<leftarrow> coap_set_header_token (coap_init_message COAP_TYPE_ACK result (ucast (rq_mid request))) tok;
     (_, evs) \<leftarrow> packet_send env cx response;
     Some (COAP_NO_ERROR, evs) }"

section \<open>Requests\<close>

text \<open>A request of the server that is answered at once, from the standard objects.\<close>

definition answer_now ::
  "cis_env \<Rightarrow> st_context \<Rightarrow> st_uri \<Rightarrow> coap_packet \<Rightarrow> et_callback_type \<Rightarrow> et_media_type \<Rightarrow>
   st_data list option \<Rightarrow> (u8 \<times> cis_event list) option" where
  "answer_now env cx uri message type format ds = do {
     _ \<leftarrow> pf_malloc env (env_sizeof_request env);
     tok \<leftarrow> aslice (cp_token message) 0 (unat (cp_token_len message));
     tok \<leftarrow> ablit (env_noise8 env) 0 tok;
     object_asynAckReadData env cx
       \<lparr>rq_mid = ucast (cp_mid message), rq_type = type, rq_tokenLen = cp_token_len message, rq_token = tok,
        rq_uri = uri, rq_time = 0, rq_format = format, rq_respData = ds\<rparr> COAP_205_CONTENT }"

text \<open>A request that the application has taken: it waits in the list until the application answers.\<close>

definition push_conform ::
  "cis_env \<Rightarrow> st_context \<Rightarrow> coap_packet \<Rightarrow> et_callback_type \<Rightarrow> u8 \<Rightarrow> cis_event list \<Rightarrow>
   (u8 \<times> st_context \<times> cis_event list) option" where
  "push_conform env cx message type result evs =
     (if result = COAP_206_CONFORM
      then do {
        (_, cx) \<leftarrow> packet_asynPushRequest env cx message type (ucast (cp_mid message));
        Some (COAP_IGNORE, cx, evs) }
      else Some (result, cx, evs))"

text \<open>
  What a read of a standard object fills in, given to the handler as one zeroed value. The first value
  is answered. With the device management the handler gets a null pointer instead.
\<close>

definition std_object_data ::
  "cis_env \<Rightarrow> st_context \<Rightarrow> st_uri \<Rightarrow> st_object \<Rightarrow> (st_context \<times> st_data list option) option" where
  "std_object_data env cx uri target =
     (if cx_isDM cx then Some (cx, Some (env_dm_read env cx uri))
      else do {
        ds \<leftarrow> data_new (pf_malloc env) 1;
        let full = (\<not> CIS_URI_IS_SET_RESOURCE uri);
        let ds = (if full then map (set_type DATA_TYPE_OBJECT_INSTANCE) ds
                  else map (set_id (uri_resourceId uri)) ds);
        (_, cx, ds) \<leftarrow> std_object_read_handler env cx 0 full ds (oj_objID target);
        Some (cx, map_option (take 1) ds) })"

definition std_object_answer ::
  "cis_env \<Rightarrow> st_context \<Rightarrow> st_uri \<Rightarrow> coap_packet \<Rightarrow> (u8 \<times> st_context \<times> cis_event list) option" where
  "std_object_answer env cx uri message =
     (case prv_findObject cx (uri_objectId uri) of
        None \<Rightarrow> Some (COAP_404_NOT_FOUND, cx, [])
      | Some target \<Rightarrow> do {
          (cx, ds) \<leftarrow> std_object_data env cx uri target;
          (_, evs) \<leftarrow> answer_now env cx uri message CALLBACK_TYPE_READ
                       (utils_convertMediaType (cp_content_type message)) ds;
          Some (COAP_IGNORE, cx, evs) })"

definition object_read ::
  "cis_env \<Rightarrow> st_context \<Rightarrow> st_uri \<Rightarrow> coap_packet \<Rightarrow> (u8 \<times> st_context \<times> cis_event list) option" where
  "object_read env cx uri message =
     (if std_object_isStdObject (uri_objectId uri)
      then do {
        cx \<leftarrow> (if uri_objectId uri = 10290 \<and> \<not> cx_moniter_created cx then prv_createMoniterObjects env cx
                else Some cx);
        if uri_objectId uri = 10290 \<and> \<not> cx_moniter_created cx then Some (COAP_503_SERVICE_UNAVAILABLE, cx, [])
        else std_object_answer env cx uri message }
      else (case prv_findObject cx (uri_objectId uri) of
              None \<Rightarrow> Some (COAP_404_NOT_FOUND, cx, [])
            | Some target \<Rightarrow> do {
                exists \<leftarrow> (if CIS_URI_IS_SET_INSTANCE uri
                            then object_checkInstExisted (oj_instBitmapPtr target) (uri_instanceId uri)
                            else Some True);
                if \<not> exists then Some (COAP_404_NOT_FOUND, cx, [])
                else (let mid = ucast (cp_mid message) in
                      push_conform env cx message CALLBACK_TYPE_READ (env_onRead env uri mid) [OnRead uri mid]) }))"

text \<open>The copy of a parsed value for the application; its buffer is null when \<open>malloc\<close> fails.\<close>

definition to_cis_data :: "allocator \<Rightarrow> st_data \<Rightarrow> cis_data" where
  "to_cis_data mal d =
     \<lparr>cd_id = sd_id d, cd_type = sd_type d, cd_length = of_nat (length (sd_buffer d)),
      cd_buffer = utils_bufferdup mal (sd_buffer d) (length (sd_buffer d)), cd_value = sd_value d\<rparr>"

text \<open>
  \<open>object_write\<close>. Values that arrive as an object instance are dropped: the function returns
  \<open>COAP_NO_ERROR\<close> without asking the application.
\<close>

definition object_write ::
  "cis_env \<Rightarrow> st_context \<Rightarrow> st_uri \<Rightarrow> et_media_type \<Rightarrow> bytes \<Rightarrow> coap_packet \<Rightarrow>
   (u8 \<times> st_context \<times> cis_event list) option" where
  "object_write env cx uri format buffer message =
     (case prv_findObject cx (uri_objectId uri) of
        None \<Rightarrow> Some (COAP_404_NOT_FOUND, cx, [])
      | Some target \<Rightarrow> do {
          exists \<leftarrow> (if CIS_URI_IS_SET_INSTANCE uri
                      then object_checkInstExisted (oj_instBitmapPtr target) (uri_instanceId uri)
                      else Some True);
          if \<not> exists then Some (COAP_404_NOT_FOUND, cx, [])
          else do {
            ds \<leftarrow> data_parse (pf_malloc env) uri buffer format;
            if (of_nat (length ds) :: u16) = 0 then Some (COAP_406_NOT_ACCEPTABLE, cx, [])
            else if sd_type (hd ds) \<notin> {DATA_TYPE_STRING, DATA_TYPE_OPAQUE, DATA_TYPE_INTEGER,
                                       DATA_TYPE_FLOAT, DATA_TYPE_BOOL}
            then Some (COAP_NO_ERROR, cx, [])
            else (let resCount = (of_nat (length ds) :: u16) in
                  if pf_malloc env (env_sizeof_data env * ucast resCount) = None
                  then Some (COAP_500_INTERNAL_SERVER_ERROR, cx, [])
                  else (let uri = snd (uri_make (uri_objectId uri) (uri_instanceId uri) URI_INVALID);
                            data = map (to_cis_data (pf_malloc env)) (take (unat resCount) ds);
                            mid = ucast (cp_mid message)
                        in push_conform env cx message CALLBACK_TYPE_WRITE (env_onWrite env uri data mid)
                             [OnWrite uri data mid])) } })"

definition object_execute ::
  "cis_env \<Rightarrow> st_context \<Rightarrow> st_uri \<Rightarrow> bytes \<Rightarrow> coap_packet \<Rightarrow> (u8 \<times> st_context \<times> cis_event list) option" where
  "object_execute env cx uri buffer message =
     (case prv_findObject cx (uri_objectId uri) of
        None \<Rightarrow> Some (COAP_404_NOT_FOUND, cx, [])
      | Some target \<Rightarrow> do {
          exists \<leftarrow> (if CIS_URI_IS_SET_INSTANCE uri
                      then object_checkInstExisted (oj_instBitmapPtr target) (uri_instanceId uri)
                      else Some True);
          if \<not> exists then Some (COAP_404_NOT_FOUND, cx, [])
          else (let mid = ucast (cp_mid message) in
                push_conform env cx message CALLBACK_TYPE_EXECUTE (env_onExec env uri buffer mid)
                  [OnExec uri buffer mid]) })"

text \<open>
  \<open>object_discover\<close>; for the monitored objects the answer is sent here, and the code returned makes the
  caller send another one.
\<close>

definition object_discover ::
  "cis_env \<Rightarrow> st_context \<Rightarrow> st_uri \<Rightarrow> coap_packet \<Rightarrow> (u8 \<times> st_context \<times> cis_event list) option" where
  "object_discover env cx uri message =
     (case prv_findObject cx (uri_objectId uri) of
        None \<Rightarrow> Some (COAP_404_NOT_FOUND, cx, [])
      | Some target \<Rightarrow>
          if uri_objectId uri = 10290 \<or> uri_objectId uri = 4
          then do {
            ds \<leftarrow> data_new (pf_malloc env) 1;
            (_, d) \<leftarrow> std_object_discover_handler (pf_malloc env) 0 True
                        (set_type DATA_TYPE_OBJECT_INSTANCE (hd ds)) (oj_objID target);
            (code, evs) \<leftarrow> answer_now env cx uri message CALLBACK_TYPE_DISCOVER LWM2M_CONTENT_LINK (Some [d]);
            Some (code, cx, evs) }
          else do {
            exists \<leftarrow> (if CIS_URI_IS_SET_INSTANCE uri
                        then object_checkInstExisted (oj_instBitmapPtr target) (uri_instanceId uri)
                        else Some True);
            if \<not> exists then Some (COAP_404_NOT_FOUND, cx, [])
            else (let mid = ucast (cp_mid message) in
                  push_conform env cx message CALLBACK_TYPE_DISCOVER (env_onDiscover env uri mid)
                    [OnDiscover uri mid]) })"

end
