(* ===== verification/Cis_Management.thy ===== *)
theory Cis_Management
  imports Cis_Objects Cis_Security
begin

text \<open>
  \<open>cis_management.c\<close>: the requests of the registered server, the attributes in their queries, and the
  connections to the servers. The functions on a server take it and return it changed; the test that
  it is one of the two servers of the context holds at every call.
\<close>

section \<open>Attributes\<close>

datatype attr_name = Pmin | Pmax | Gt | Lt | Stp

text \<open>\<open>ATTR_MIN_PERIOD_STR\<close> and so on.\<close>

fun attr_text :: "attr_name \<Rightarrow> bytes" where
  "attr_text Pmin = [0x70, 0x6D, 0x69, 0x6E, 0x3D]"
| "attr_text Pmax = [0x70, 0x6D, 0x61, 0x78, 0x3D]"
| "attr_text Gt = [0x67, 0x74, 0x3D]"
| "attr_text Lt = [0x6C, 0x74, 0x3D]"
| "attr_text Stp = [0x73, 0x74, 0x3D]"

fun attr_flag :: "attr_name \<Rightarrow> u8" where
  "attr_flag Pmin = ATTR_FLAG_MIN_PERIOD"
| "attr_flag Pmax = ATTR_FLAG_MAX_PERIOD"
| "attr_flag Gt = ATTR_FLAG_GREATER_THAN"
| "attr_flag Lt = ATTR_FLAG_LESS_THAN"
| "attr_flag Stp = ATTR_FLAG_STEP"

text \<open>
  The value behind the \<open>=\<close>. The name may have been found partly behind the option; the length is then
  negative, and an integer is read as 0.
\<close>

definition period_value :: "multi_option \<Rightarrow> bytes \<Rightarrow> nat \<Rightarrow> int status" where
  "period_value q mem n =
     (case (if unat (mo_len q) < n then Done 0
            else utils_plainTextToInt64 (take (unat (mo_len q) - n) (drop n mem))) of
        Inl _ \<Rightarrow> Fail
      | Inr v \<Rightarrow> if sint v < 0 then Fail else Done (sint (ucast v :: u32)))"

definition float_value :: "cis_env \<Rightarrow> bool \<Rightarrow> multi_option \<Rightarrow> bytes \<Rightarrow> nat \<Rightarrow> u32 status" where
  "float_value env positive q mem n =
     (case env_text_float env (drop n mem) (int (unat (mo_len q)) - int n) of
        Inl _ \<Rightarrow> Fail
      | Inr v \<Rightarrow> if positive \<and> env_float_negative env v then Fail else Done (env_narrow env v))"

fun attr_value ::
  "cis_env \<Rightarrow> attr_name \<Rightarrow> multi_option \<Rightarrow> bytes \<Rightarrow> st_observe_attr \<Rightarrow> st_observe_attr status" where
  "attr_value env Pmin q mem attr = map_sum id (\<lambda>v. attr\<lparr>at_minPeriod := v\<rparr>) (period_value q mem 5)"
| "attr_value env Pmax q mem attr = map_sum id (\<lambda>v. attr\<lparr>at_maxPeriod := v\<rparr>) (period_value q mem 5)"
| "attr_value env Gt q mem attr = map_sum id (\<lambda>v. attr\<lparr>at_greaterThan := v\<rparr>) (float_value env False q mem 3)"
| "attr_value env Lt q mem attr = map_sum id (\<lambda>v. attr\<lparr>at_lessThan := v\<rparr>) (float_value env False q mem 3)"
| "attr_value env Stp q mem attr = map_sum id (\<lambda>v. attr\<lparr>at_step := v\<rparr>) (float_value env True q mem 3)"

text \<open>The two branches of an attribute, with and without \<open>=\<close>; the outer \<open>None\<close> means neither applies.\<close>

definition read_attribute ::
  "cis_env \<Rightarrow> attr_name \<Rightarrow> multi_option \<Rightarrow> st_observe_attr \<Rightarrow> st_observe_attr status option" where
  "read_attribute env a q attr =
     (let mem = mo_data q @ env_behind env q; n = length (attr_text a);
          seen = ((at_toSet attr OR at_toClear attr) AND attr_flag a \<noteq> 0)
      in if utils_strncmp mem (attr_text a) n = 0
         then Some (if seen \<or> unat (mo_len q) = n then Fail
                    else map_sum id (\<lambda>attr. attr\<lparr>at_toSet := at_toSet attr OR attr_flag a\<rparr>)
                           (attr_value env a q mem attr))
         else if utils_strncmp mem (attr_text a) (n - 1) = 0
         then Some (if seen \<or> unat (mo_len q) \<noteq> n - 1 then Fail
                    else Done (attr\<lparr>at_toClear := at_toClear attr OR attr_flag a\<rparr>))
         else None)"

fun first_attribute ::
  "cis_env \<Rightarrow> attr_name list \<Rightarrow> multi_option \<Rightarrow> st_observe_attr \<Rightarrow> st_observe_attr status" where
  "first_attribute env [] q attr = Fail"
| "first_attribute env (a # as) q attr =
     (case read_attribute env a q attr of
        None \<Rightarrow> first_attribute env as q attr
      | Some r \<Rightarrow> r)"

fun attributes_loop ::
  "cis_env \<Rightarrow> multi_option list \<Rightarrow> st_observe_attr \<Rightarrow> st_observe_attr status" where
  "attributes_loop env [] attr = Done attr"
| "attributes_loop env (q # qs) attr =
     (case first_attribute env [Pmin, Pmax, Gt, Lt, Stp] q attr of
        Inl _ \<Rightarrow> Fail
      | Inr attr \<Rightarrow> attributes_loop env qs attr)"

definition attr_zero :: st_observe_attr where
  "attr_zero = \<lparr>at_toSet = 0, at_toClear = 0, at_minPeriod = 0, at_maxPeriod = 0, at_greaterThan = 0,
                at_lessThan = 0, at_step = 0\<rparr>"

definition prv_readAttributes :: "cis_env \<Rightarrow> multi_option list \<Rightarrow> st_observe_attr status" where
  "prv_readAttributes env query = attributes_loop env query attr_zero"

section \<open>Requests of the server\<close>

text \<open>The payload of a message; a null pointer is an empty payload.\<close>

definition message_payload :: "coap_packet \<Rightarrow> bytes option" where
  "message_payload message =
     aslice (case cp_payload message of None \<Rightarrow> [] | Some p \<Rightarrow> p) 0 (unat (cp_payload_len message))"

definition management_get ::
  "cis_env \<Rightarrow> st_context \<Rightarrow> st_uri \<Rightarrow> coap_packet \<Rightarrow> (u8 \<times> st_context \<times> cis_event list) option" where
  "management_get env cx uri message =
     (if IS_OPTION message COAP_OPTION_OBSERVE then observe_handleRequest env cx uri message
      else if IS_OPTION message COAP_OPTION_ACCEPT \<and> cp_accept_num message = 1 \<and> hd (cp_accept message) = 40
      then object_discover env cx uri message
      else object_read env cx uri message)"

definition management_post ::
  "cis_env \<Rightarrow> st_context \<Rightarrow> st_uri \<Rightarrow> coap_packet \<Rightarrow> (u8 \<times> st_context \<times> cis_event list) option" where
  "management_post env cx uri message =
     (if \<not> CIS_URI_IS_SET_INSTANCE uri then Some (COAP_400_BAD_REQUEST, cx, [])
      else do {
        payload \<leftarrow> message_payload message;
        if \<not> CIS_URI_IS_SET_RESOURCE uri
        then object_write env cx uri (utils_convertMediaType (cp_content_type message)) payload message
        else object_execute env cx uri payload message })"

definition management_put ::
  "cis_env \<Rightarrow> st_context \<Rightarrow> st_uri \<Rightarrow> coap_packet \<Rightarrow> (u8 \<times> st_context \<times> cis_event list) option" where
  "management_put env cx uri message =
     (if IS_OPTION message COAP_OPTION_URI_QUERY
      then (case prv_readAttributes env (cp_uri_query message) of
              Inl _ \<Rightarrow> Some (COAP_400_BAD_REQUEST, cx, [])
            | Inr attr \<Rightarrow> observe_setParameters env cx uri attr message)
      else if CIS_URI_IS_SET_INSTANCE uri
      then do {
        payload \<leftarrow> message_payload message;
        object_write env cx uri (utils_convertMediaType (cp_content_type message)) payload message }
      else Some (COAP_400_BAD_REQUEST, cx, []))"

definition serving :: "et_status \<Rightarrow> bool" where
  "serving s \<longleftrightarrow> s = STATE_REGISTERED \<or> s = STATE_REG_UPDATE_NEEDED \<or>
     s = STATE_REG_UPDATE_NEEDED_WITHOBJECTS \<or> s = STATE_REG_UPDATE_PENDING"

definition management_handleRequest ::
  "cis_env \<Rightarrow> st_context \<Rightarrow> st_uri \<Rightarrow> coap_packet \<Rightarrow> (u8 \<times> st_context \<times> cis_event list) option" where
  "management_handleRequest env cx uri message = do {
     server \<leftarrow> cx_server cx;
     if uri_objectId uri = 0 then Some (COAP_404_NOT_FOUND, cx, [])
     else if \<not> serving (sv_status server) then Some (COAP_IGNORE, cx, [])
     else if cp_code message = COAP_GET then management_get env cx uri message
     else if cp_code message = COAP_POST then management_post env cx uri message
     else if cp_code message = COAP_PUT then management_put env cx uri message
     else Some (COAP_400_BAD_REQUEST, cx, []) }"

section \<open>Servers\<close>

text \<open>\<open>cisnet_disconnect\<close> and \<open>cisnet_destroy\<close> of the session; what is left is a server without one.\<close>

definition close_session :: "st_server \<Rightarrow> cis_event list" where
  "close_session s = (case sv_sessionH s of None \<Rightarrow> [] | Some h \<Rightarrow> [NetDisconnect h, NetDestroy h])"

text \<open>\<open>management_createNetwork\<close>: whether a session was made.\<close>

definition management_createNetwork :: "cis_env \<Rightarrow> st_server \<Rightarrow> bool \<times> st_server \<times> cis_event list" where
  "management_createNetwork env s =
     (let evs = (case sv_sessionH s of None \<Rightarrow> [] | Some h \<Rightarrow> [NetDestroy h]) @ [NetCreate (sv_host s)] in
      case env_net_create env (sv_host s) of
        None \<Rightarrow> (False, s\<lparr>sv_sessionH := None, sv_status := STATE_CREATE_FAILED\<rparr>, evs)
      | Some h \<Rightarrow> (True, s\<lparr>sv_sessionH := Some h, sv_status := STATE_CREATED\<rparr>, evs))"

definition management_connectServer :: "cis_env \<Rightarrow> st_server \<Rightarrow> bool \<times> st_server \<times> cis_event list" where
  "management_connectServer env s =
     (case sv_sessionH s of
        None \<Rightarrow> (False, s, [])
      | Some h \<Rightarrow>
          if env_net_connect env h then (True, s\<lparr>sv_status := STATE_CONNECT_PENDING\<rparr>, [NetConnect h])
          else (False, s\<lparr>sv_status := STATE_CONNECT_FAILED\<rparr>, [NetConnect h]))"

definition management_disconnectServer :: "st_server \<Rightarrow> st_server \<times> cis_event list" where
  "management_disconnectServer s =
     (if sv_sessionH s = None then (s, [])
      else (s\<lparr>sv_status := STATE_CREATED, sv_sessionH := None\<rparr>, close_session s))"

text \<open>\<open>management_destoryServer\<close> of a server of the context: the pointers to it become null.\<close>

definition management_destoryServer :: "st_server option \<Rightarrow> cis_event list" where
  "management_destoryServer s = (case s of None \<Rightarrow> [] | Some s \<Rightarrow> close_session s)"

definition refresh_server :: "st_server option \<Rightarrow> st_server option \<times> cis_event list" where
  "refresh_server s =
     (case s of
        None \<Rightarrow> (None, [])
      | Some s \<Rightarrow> if \<not> sv_dirty s then (Some (s\<lparr>sv_status := STATE_UNCREATED\<rparr>), [])
                  else (None, close_session s))"

definition management_refreshDirtyServer :: "st_context \<Rightarrow> st_context \<times> cis_event list" where
  "management_refreshDirtyServer cx =
     (let (b, evs) = refresh_server (cx_bootstrapServer cx);
          (s, evs') = refresh_server (cx_server cx)
      in (cx\<lparr>cx_bootstrapServer := b, cx_server := s\<rparr>, evs @ evs'))"

text \<open>
  \<open>management_makeServerList\<close>: the instances of the security object of the wanted kind that are not in
  the list yet, each with the code's early returns, which forget the servers made so far. There are
  four values of which three are named, the last one being asked for the host.
\<close>

definition new_server :: "security_instance \<Rightarrow> bytes option \<Rightarrow> st_server" where
  "new_server t host =
     \<lparr>sv_secObjInstID = ucast (ucast (si_instanceId t) :: u16), sv_host = host, sv_registration = 0,
      sv_sessionH = None, sv_status = STATE_UNCREATED, sv_location = None, sv_dirty = False,
      sv_block1Data = None\<rparr>"

fun make_servers ::
  "cis_env \<Rightarrow> st_context \<Rightarrow> bool \<Rightarrow> security_instance list \<Rightarrow> st_server list \<Rightarrow> st_server list option" where
  "make_servers env cx bootstrap [] targets = Some targets"
| "make_servers env cx bootstrap (t # ts) targets =
     (let instid = (ucast (si_instanceId t) :: u16); mal = pf_malloc env in
      if cis_list_find sv_secObjInstID targets (ucast instid) \<noteq> None then make_servers env cx bootstrap ts targets
      else case data_new mal 4 of
        None \<Rightarrow> Some []
      | Some ds \<Rightarrow>
          do {
             (_, _, ds) \<leftarrow> std_object_read_handler env cx instid False (map2 set_id [1, 10, 11, 0] ds) 0;
             ds \<leftarrow> ds;
             flag \<leftarrow> data_decode_bool (hd ds);
             case flag of
               Inl _ \<Rightarrow> Some []
             | Inr isBootstrap \<Rightarrow>
                 if isBootstrap \<noteq> bootstrap then make_servers env cx bootstrap ts targets
                 else if mal (env_sizeof_server env) = None then Some []
                 else do {
                   host \<leftarrow> std_security_get_host mal cx instid;
                   make_servers env cx bootstrap ts
                     (cis_list_add sv_secObjInstID targets (new_server t host)) } })"

definition management_makeServerList :: "cis_env \<Rightarrow> st_context \<Rightarrow> bool \<Rightarrow> st_server list option" where
  "management_makeServerList env cx bootstrap =
     (if \<not> list_ex (\<lambda>obj. oj_objID obj = 0) (cx_objectList cx) then Some []
      else make_servers env cx bootstrap (cx_instSecurity cx)
             (case (if bootstrap then cx_bootstrapServer cx else cx_server cx) of
                None \<Rightarrow> [] | Some s \<Rightarrow> [s]))"

end
