(* ===== verification/Cis_Registration.thy ===== *)
theory Cis_Registration
  imports Cis_Management
begin

text \<open>
  \<open>cis_registration.c\<close>, with the transactions of \<open>cis_transaction.c\<close> put into the context: registering,
  updating and removing the registration, and what the answer to each of them, or its absence, does
  to the state of the server. There is one server.
\<close>

section \<open>Answers\<close>

text \<open>The time of the answer becomes the time of the registration.\<close>

definition note_registration :: "int \<Rightarrow> st_context \<Rightarrow> st_context" where
  "note_registration now cx =
     (if 0 \<le> now
      then cx\<lparr>cx_server := map_option (\<lambda>server. server\<lparr>sv_registration := now\<rparr>) (cx_server cx),
              cx_lifetimeWarnningTime := 0\<rparr>
      else cx)"

text \<open>\<open>None\<close> as the packet is the null pointer: there was no answer.\<close>

definition prv_handleRegistrationReply ::
  "cis_env \<Rightarrow> st_context \<Rightarrow> coap_packet option \<Rightarrow> (st_context \<times> cis_event list) option" where
  "prv_handleRegistrationReply env cx packet = do {
     target \<leftarrow> cx_server cx;
     if sv_status target \<noteq> STATE_REG_PENDING then Some (cx, [])
     else (let cx = note_registration (pf_time env) cx in
           case packet of
             None \<Rightarrow> Some (set_status STATE_REG_FAILED cx, core_callbackEvent cx CIS_EVENT_REG_TIMEOUT 0)
           | Some p \<Rightarrow>
               if cp_code p = COAP_201_CREATED
               then (let location = coap_get_multi_option_as_string (pf_malloc env) (cp_location_path p);
                         cx = set_status STATE_REGISTERED cx
                     in Some (cx\<lparr>cx_server := map_option (\<lambda>s. s\<lparr>sv_location := location\<rparr>) (cx_server cx)\<rparr>,
                              core_callbackEvent cx CIS_EVENT_REG_SUCCESS 0))
               else Some (set_status STATE_REG_FAILED cx, core_callbackEvent cx CIS_EVENT_REG_FAILED 0)) }"

definition prv_handleRegistrationUpdateReply ::
  "cis_env \<Rightarrow> st_context \<Rightarrow> coap_packet option \<Rightarrow> (st_context \<times> cis_event list) option" where
  "prv_handleRegistrationUpdateReply env cx packet = do {
     target \<leftarrow> cx_server cx;
     if sv_status target \<noteq> STATE_REG_UPDATE_PENDING then Some (cx, [])
     else (let cx = note_registration (pf_time env) cx in
           case packet of
             None \<Rightarrow> Some (set_status STATE_REG_FAILED cx, core_callbackEvent cx CIS_EVENT_UPDATE_TIMEOUT 0)
           | Some p \<Rightarrow>
               if cp_code p = COAP_204_CHANGED
               then Some (set_status STATE_REGISTERED cx, core_callbackEvent cx CIS_EVENT_UPDATE_SUCCESS 0)
               else Some (set_status STATE_REG_FAILED cx, core_callbackEvent cx CIS_EVENT_UPDATE_FAILED 0)) }"

definition prv_handleDeregistrationReply :: "st_context \<Rightarrow> st_context option" where
  "prv_handleDeregistrationReply cx = do {
     target \<leftarrow> cx_server cx;
     Some (if sv_status target = STATE_DEREG_PENDING then set_status STATE_UNCREATED cx else cx) }"

definition set_bootstrap_status :: "et_status \<Rightarrow> st_context \<Rightarrow> st_context" where
  "set_bootstrap_status s cx =
     cx\<lparr>cx_bootstrapServer := map_option (\<lambda>server. server\<lparr>sv_status := s\<rparr>) (cx_bootstrapServer cx)\<rparr>"

text \<open>From \<open>cis_bootstrap.c\<close>.\<close>

definition prv_handleBootstrapReply :: "st_context \<Rightarrow> coap_packet option \<Rightarrow> st_context option" where
  "prv_handleBootstrapReply cx packet = do {
     target \<leftarrow> cx_bootstrapServer cx;
     Some (if sv_status target = STATE_BS_INITIATED
           then set_bootstrap_status
                  (case packet of
                     Some p \<Rightarrow> if cp_code p = COAP_204_CHANGED then STATE_BS_PENDING else STATE_BS_FAILED
                   | None \<Rightarrow> STATE_BS_FAILED) cx
           else cx) }"

text \<open>The call through \<open>transacP->callback\<close>.\<close>

definition call_back ::
  "cis_env \<Rightarrow> st_context \<Rightarrow> u32 \<Rightarrow> coap_packet option \<Rightarrow> (st_context \<times> cis_event list) option" where
  "call_back env cx mid packet = do {
     handler \<leftarrow> cx_replyOf cx mid;
     case handler of
       RegistrationReply \<Rightarrow> prv_handleRegistrationReply env cx packet
     | UpdateReply \<Rightarrow> prv_handleRegistrationUpdateReply env cx packet
     | DeregistrationReply \<Rightarrow> map_option (\<lambda>cx. (cx, [])) (prv_handleDeregistrationReply cx)
     | BootstrapReply \<Rightarrow> map_option (\<lambda>cx. (cx, [])) (prv_handleBootstrapReply cx packet) }"

section \<open>Transactions in the context\<close>

text \<open>
  The functions of \<open>cis_transaction.c\<close> are applied to the list, and then what they did to the outside
  is done: callbacks change neither the list nor a session. The session of a transaction's server is
  looked up when a function runs; the number 0 stands for a null handle, on which writing is
  undefined, and for a server that is gone.
\<close>

definition session_number :: "st_context \<Rightarrow> u32 \<Rightarrow> nat" where
  "session_number cx mid =
     (let server = (if cx_replyOf cx mid = Some BootstrapReply then cx_bootstrapServer cx else cx_server cx)
      in case server \<bind> sv_sessionH of None \<Rightarrow> 0 | Some h \<Rightarrow> Suc h)"

definition with_session :: "st_context \<Rightarrow> transaction \<Rightarrow> transaction" where
  "with_session cx t = t\<lparr>tr_server := Some (session_number cx (tr_mID t))\<rparr>"

fun run_event :: "cis_env \<Rightarrow> st_context \<Rightarrow> tr_event \<Rightarrow> (st_context \<times> cis_event list) option" where
  "run_event env cx (Transmit n datagram) = (case n of 0 \<Rightarrow> None | Suc h \<Rightarrow> Some (cx, [Sent h datagram]))"
| "run_event env cx (Callback mid packet) = call_back env cx mid packet"
| "run_event env cx (AckSent mid) =
     map_option (\<lambda>(_, evs). (cx, evs)) (packet_send env cx (coap_init_message COAP_TYPE_ACK 0 mid))"

fun run_events :: "cis_env \<Rightarrow> st_context \<Rightarrow> tr_event list \<Rightarrow> (st_context \<times> cis_event list) option" where
  "run_events env cx [] = Some (cx, [])"
| "run_events env cx (e # es) = do {
     (cx, evs) \<leftarrow> run_event env cx e;
     (cx, evs') \<leftarrow> run_events env cx es;
     Some (cx, evs @ evs') }"

text \<open>Entering a transaction and sending it the first time.\<close>

definition context_send ::
  "cis_env \<Rightarrow> st_context \<Rightarrow> transaction \<Rightarrow> (bool \<times> st_context \<times> cis_event list) option" where
  "context_send env cx t = do {
     let t = with_session cx t;
     (sent, kept, evs) \<leftarrow> transaction_send (env_platform env) t;
     let l = (case kept of
                None \<Rightarrow> transaction_remove (cx_transactionList cx) t
              | Some t' \<Rightarrow> write_node t' (cx_transactionList cx));
     (cx, evs) \<leftarrow> run_events env (cx\<lparr>cx_transactionList := l\<rparr>) evs;
     Some (sent, cx, evs) }"

definition enter_transaction :: "st_context \<Rightarrow> transaction \<Rightarrow> reply_handler \<Rightarrow> st_context" where
  "enter_transaction cx t handler =
     cx\<lparr>cx_transactionList := cis_list_add tr_mID (cx_transactionList cx) t,
        cx_replyOf := (cx_replyOf cx)(tr_mID t := Some handler)\<rparr>"

definition context_transaction_step :: "cis_env \<Rightarrow> st_context \<Rightarrow> int \<Rightarrow> (st_context \<times> cis_event list) option" where
  "context_transaction_step env cx currentTime = do {
     (l, evs) \<leftarrow> transaction_step (env_platform env) (map (with_session cx) (cx_transactionList cx)) currentTime;
     run_events env (cx\<lparr>cx_transactionList := l\<rparr>) evs }"

definition context_handleResponse ::
  "cis_env \<Rightarrow> st_context \<Rightarrow> coap_packet \<Rightarrow> bool \<Rightarrow> (bool \<times> st_context \<times> cis_event list) option" where
  "context_handleResponse env cx message has_response = do {
     (found, l, evs) \<leftarrow> transaction_handleResponse (env_platform env) (cx_transactionList cx) message has_response;
     (cx, evs) \<leftarrow> run_events env (cx\<lparr>cx_transactionList := l\<rparr>) evs;
     Some (found, cx, evs) }"

text \<open>
  When the text of the payload is freed, the message of a transaction that is still to be serialized
  keeps a pointer to it: a null pointer with a length.
\<close>

definition free_payload :: "u32 \<Rightarrow> st_context \<Rightarrow> st_context" where
  "free_payload mid cx =
     cx\<lparr>cx_transactionList :=
          map (\<lambda>t. if tr_mID t = mid then t\<lparr>tr_message := (tr_message t)\<lparr>cp_payload := None\<rparr>\<rparr> else t)
            (cx_transactionList cx)\<rparr>"

section \<open>Registering\<close>

text \<open>\<open>?ep=\<close>, \<open>&b=U\<close>, \<open>lt=\<close>, \<open>/rd\<close> and \<open>/bs\<close>.\<close>

abbreviation (input) text_ep :: bytes where "text_ep \<equiv> [0x3F, 0x65, 0x70, 0x3D]"
abbreviation (input) text_binding :: bytes where "text_binding \<equiv> [0x26, 0x62, 0x3D, 0x55]"
abbreviation (input) text_lt :: bytes where "text_lt \<equiv> [0x6C, 0x74, 0x3D]"
abbreviation (input) text_rd :: bytes where "text_rd \<equiv> [0x2F, 0x72, 0x64]"
abbreviation (input) text_bs :: bytes where "text_bs \<equiv> [0x2F, 0x62, 0x73]"

abbreviation (input) CIS_COFNIG_REG_QUERY_SIZE :: nat where "CIS_COFNIG_REG_QUERY_SIZE \<equiv> 256"
abbreviation (input) CIS_COFNIG_REG_PAYLOAD_SIZE :: nat where "CIS_COFNIG_REG_PAYLOAD_SIZE \<equiv> 512"
abbreviation (input) PRV_QUERY_BUFFER_LENGTH :: nat where "PRV_QUERY_BUFFER_LENGTH \<equiv> 200"

definition prv_getRegistrationQuery :: "st_context \<Rightarrow> nat \<Rightarrow> bytes status option" where
  "prv_getRegistrationQuery cx cap =
     then_write
       (then_write (put_string cap text_ep []) (put_string cap (cx_endpointName cx)))
       (put_string cap text_binding)"

text \<open>
  The lifetime is written as if the buffer had \<open>PRV_QUERY_BUFFER_LENGTH\<close> bytes. When the text is longer
  already, the size wraps round and only the buffer of \<open>CIS_COFNIG_REG_QUERY_SIZE\<close> bytes itself is a limit.
\<close>

definition query_room :: "nat \<Rightarrow> nat" where
  "query_room n = (if n \<le> PRV_QUERY_BUFFER_LENGTH then PRV_QUERY_BUFFER_LENGTH - n
                   else 2 ^ 32 - (n - PRV_QUERY_BUFFER_LENGTH))"

definition query_string :: "bytes \<Rightarrow> bytes \<Rightarrow> bytes status option" where
  "query_string str out = do {
     (res, _) \<leftarrow> utils_stringCopy (replicate (CIS_COFNIG_REG_QUERY_SIZE - length out) 0)
                  (query_room (length out)) str;
     Some (if res < 0 then Fail else Done (out @ take (nat res) str)) }"

definition query_int :: "int \<Rightarrow> bytes \<Rightarrow> bytes status option" where
  "query_int v out = do {
     (res, buffer) \<leftarrow> utils_intCopy (replicate (CIS_COFNIG_REG_QUERY_SIZE - length out) 0)
                       (query_room (length out)) v;
     Some (if res < 0 then Fail else Done (out @ take (nat res) buffer)) }"

definition query_lifetime :: "bytes \<Rightarrow> int \<Rightarrow> bytes \<Rightarrow> bytes status option" where
  "query_lifetime prefix lifetime out =
     (if lifetime = 0 then Some (Done out)
      else then_write (query_string prefix out) (query_int lifetime))"

definition auth_header :: "st_context \<Rightarrow> coap_packet \<Rightarrow> coap_packet option" where
  "auth_header cx message =
     (case cx_authCode cx of
        None \<Rightarrow> Some message
      | Some code \<Rightarrow> if cx_isDM cx then Some message
                     else map_option snd (coap_set_header_auth_code message code))"

definition take_mid :: "st_context \<Rightarrow> u16 \<times> st_context" where
  "take_mid cx = (cx_nextMid cx, cx\<lparr>cx_nextMid := cx_nextMid cx + 1\<rparr>)"

text \<open>The texts of the registration, payload before query; \<open>Fail\<close> for the error code 5.00.\<close>

definition registration_texts :: "st_context \<Rightarrow> (bytes \<times> bytes) status option" where
  "registration_texts cx = do {
     p \<leftarrow> object_getRegisterPayload cx (CIS_COFNIG_REG_PAYLOAD_SIZE - 1);
     case p of
       Inl _ \<Rightarrow> Some Fail
     | Inr payload \<Rightarrow>
         if payload = [] then Some Fail
         else do {
           q \<leftarrow> then_write (prv_getRegistrationQuery cx CIS_COFNIG_REG_QUERY_SIZE)
                  (query_lifetime (0x26 # text_lt) (cx_lifetime cx));
           Some (map_sum id (Pair payload) q) } }"

definition prv_register :: "cis_env \<Rightarrow> st_context \<Rightarrow> (u8 \<times> st_context \<times> cis_event list) option" where
  "prv_register env cx = do {
     server \<leftarrow> cx_server cx;
     let mal = pf_malloc env;
     if mal 256 = None \<or> mal 512 = None then Some (COAP_500_INTERNAL_SERVER_ERROR, cx, [])
     else do {
       texts \<leftarrow> registration_texts cx;
       case texts of
         Inl _ \<Rightarrow> Some (COAP_500_INTERNAL_SERVER_ERROR, cx, [])
       | Inr (payload, query) \<Rightarrow>
           if sv_sessionH server = None then Some (COAP_503_SERVICE_UNAVAILABLE, cx, [])
           else do {
             let (mid, cx) = take_mid cx;
             tr \<leftarrow> transaction_new (env_platform env) COAP_TYPE_CON COAP_POST None None mid 4 None;
             case tr of
               Inl _ \<Rightarrow> Some (COAP_500_INTERNAL_SERVER_ERROR, cx, [])
             | Inr t \<Rightarrow> do {
                 (_, message) \<leftarrow> coap_set_header_uri_path mal (tr_message t) text_rd;
                 (_, message) \<leftarrow> coap_set_header_uri_query mal message query;
                 (_, message) \<leftarrow> coap_set_header_content_type message (media_code LWM2M_CONTENT_LINK);
                 message \<leftarrow> auth_header cx message;
                 let message = snd (coap_set_payload message (Some payload) (of_nat (length payload)));
                 let t = t\<lparr>tr_message := message, tr_callback := True\<rparr>;
                 let cx = set_status STATE_REG_PENDING (enter_transaction cx t RegistrationReply);
                 (sent, cx, evs) \<leftarrow> context_send env cx t;
                 Some (if sent then COAP_NO_ERROR else COAP_500_INTERNAL_SERVER_ERROR,
                       free_payload (tr_mID t) cx, evs) } } } }"

section \<open>Updating\<close>

text \<open>The query of an update; \<open>Fail\<close> for an early return with 5.00.\<close>

definition update_query :: "cis_env \<Rightarrow> st_context \<Rightarrow> coap_packet \<Rightarrow> coap_packet status option" where
  "update_query env cx message =
     (if cx_isDM cx
      then (case env_dm_query env cx of
              None \<Rightarrow> Some Fail
            | Some q \<Rightarrow> map_option (Done \<circ> snd) (coap_set_header_uri_query (pf_malloc env) message q))
      else do {
        message \<leftarrow> auth_header cx message;
        if cx_lifetime cx = 0 then Some (Done message)
        else do {
          q \<leftarrow> query_lifetime text_lt (cx_lifetime cx) [];
          case q of
            Inl _ \<Rightarrow> Some Fail
          | Inr query \<Rightarrow> map_option (Done \<circ> snd) (coap_set_header_uri_query (pf_malloc env) message query) } })"

definition update_payload :: "cis_env \<Rightarrow> st_context \<Rightarrow> bool \<Rightarrow> coap_packet \<Rightarrow> coap_packet status option" where
  "update_payload env cx withObjects message =
     (if \<not> withObjects then Some (Done message)
      else if pf_malloc env 512 = None then Some Fail
      else do {
        p \<leftarrow> object_getRegisterPayload cx CIS_COFNIG_REG_PAYLOAD_SIZE;
        Some (case p of
                Inl _ \<Rightarrow> Fail
              | Inr payload \<Rightarrow>
                  if payload = [] then Fail
                  else Done (snd (coap_set_payload message (Some payload) (of_nat (length payload))))) })"

text \<open>The code is \<open>COAP_NO_ERROR\<close> when sending fails, too.\<close>

definition prv_updateRegistration ::
  "cis_env \<Rightarrow> st_context \<Rightarrow> bool \<Rightarrow> (u8 \<times> st_context \<times> cis_event list) option" where
  "prv_updateRegistration env cx withObjects = do {
     server \<leftarrow> cx_server cx;
     let mal = pf_malloc env;
     if cx_transactionList cx \<noteq> [] then Some (COAP_NO_ERROR, cx, [])
     else if mal 256 = None then Some (COAP_500_INTERNAL_SERVER_ERROR, cx, [])
     else do {
       let (mid, cx) = take_mid cx;
       tr \<leftarrow> transaction_new (env_platform env) COAP_TYPE_CON COAP_POST None None mid 4 None;
       case tr of
         Inl _ \<Rightarrow> Some (COAP_500_INTERNAL_SERVER_ERROR, cx, [])
       | Inr t \<Rightarrow> do {
           location \<leftarrow> sv_location server;
           (_, message) \<leftarrow> coap_set_header_uri_path mal (tr_message t) location;
           q \<leftarrow> update_query env cx message;
           case q of
             Inl _ \<Rightarrow> Some (COAP_500_INTERNAL_SERVER_ERROR, cx, [])
           | Inr message \<Rightarrow> do {
               p \<leftarrow> update_payload env cx withObjects message;
               case p of
                 Inl _ \<Rightarrow> Some (COAP_500_INTERNAL_SERVER_ERROR, cx, [])
               | Inr message \<Rightarrow> do {
                   let t = t\<lparr>tr_message := message, tr_callback := True\<rparr>;
                   let cx = set_status STATE_REG_UPDATE_PENDING (enter_transaction cx t UpdateReply);
                   (_, cx, evs) \<leftarrow> context_send env cx t;
                   Some (COAP_NO_ERROR, free_payload (tr_mID t) cx, evs) } } } } }"

definition registration_start :: "cis_env \<Rightarrow> st_context \<Rightarrow> (u8 \<times> st_context \<times> cis_event list) option" where
  "registration_start env cx =
     (case cx_server cx of
        None \<Rightarrow> Some (COAP_NO_ERROR, cx, [])
      | Some target \<Rightarrow>
          if sv_status target = STATE_CONNECTED \<or> sv_status target = STATE_REG_FAILED
          then prv_register env cx
          else Some (COAP_NO_ERROR, cx, []))"

definition registration_getStatus :: "st_context \<Rightarrow> et_status" where
  "registration_getStatus cx =
     (case cx_server cx of
        None \<Rightarrow> STATE_REG_FAILED
      | Some target \<Rightarrow>
          if serving (sv_status target) then STATE_REGISTERED
          else if sv_status target = STATE_REG_PENDING then STATE_REG_PENDING
          else if sv_status target = STATE_DEREG_PENDING then STATE_DEREG_PENDING
          else STATE_REG_FAILED)"

section \<open>Deregistering\<close>

definition deregisterable :: "st_server \<Rightarrow> bool" where
  "deregisterable s \<longleftrightarrow>
     sv_status s \<notin> {STATE_UNCREATED, STATE_CREATED, STATE_CONNECT_PENDING, STATE_CONNECTED,
                    STATE_REG_PENDING, STATE_DEREG_PENDING, STATE_REG_FAILED} \<and> sv_location s \<noteq> None"

definition registration_deregister :: "cis_env \<Rightarrow> st_context \<Rightarrow> (st_context \<times> cis_event list) option" where
  "registration_deregister env cx =
     (case cx_server cx of
        None \<Rightarrow> Some (cx, [])
      | Some server \<Rightarrow>
          if \<not> deregisterable server then Some (cx, [])
          else do {
            let (mid, cx) = take_mid cx;
            tr \<leftarrow> transaction_new (env_platform env) COAP_TYPE_CON COAP_DELETE None None mid 4 None;
            case tr of
              Inl _ \<Rightarrow> Some (cx, [])
            | Inr t \<Rightarrow> do {
                location \<leftarrow> sv_location server;
                (_, message) \<leftarrow> coap_set_header_uri_path (pf_malloc env) (tr_message t) location;
                message \<leftarrow> auth_header cx message;
                let t = t\<lparr>tr_message := message, tr_callback := True\<rparr>;
                (sent, cx, evs) \<leftarrow> context_send env (enter_transaction cx t DeregistrationReply) t;
                Some (if sent then set_status STATE_DEREG_PENDING cx else cx, evs) } })"

section \<open>The step\<close>

text \<open>
  How long before the end of the lifetime the application is warned: \<open>COAP_MAX_TRANSMIT_WAIT\<close> (93),
  \<open>COAP_MIN_TRANSMIT_WAIT\<close> (62), or a computation in floating point for a short lifetime.
\<close>

definition notify_time :: "cis_env \<Rightarrow> int \<Rightarrow> int" where
  "notify_time env lifetime =
     (if 186 < lifetime then 93 else if 93 < lifetime then 62 else env_notify_time env lifetime)"

text \<open>\<open>onEvent\<close> is called without a test; \<open>INFINITE_TIMEOUT\<close> as a time is -1.\<close>

definition lifetime_step :: "cis_env \<Rightarrow> st_context \<Rightarrow> st_server \<Rightarrow> int \<Rightarrow> (st_context \<times> cis_event list) option" where
  "lifetime_step env cx target currentTime = do {
     expiry \<leftarrow> time32 (sv_registration target + cx_lifetime cx);
     interval \<leftarrow> time32 (expiry - currentTime);
     if interval \<le> 0
     then (if 0 \<le> cx_lifetimeWarnningTime cx
           then (if cx_onEvent cx
                 then Some (core_updatePumpState (cx\<lparr>cx_lifetimeWarnningTime := -1\<rparr>) PUMP_STATE_UNREGISTER,
                            [OnEvent CIS_EVENT_LIFETIME_TIMEOUT 0])
                 else None)
           else Some (cx, []))
     else if interval \<le> notify_time env (cx_lifetime cx)
     then do {
       due \<leftarrow> (if cx_lifetimeWarnningTime cx = 0 then Some True
               else map_option (\<lambda>since. interval < since) (time32 (currentTime - cx_lifetimeWarnningTime cx)));
       if \<not> due then Some (cx, [])
       else if cx_onEvent cx
       then Some (cx\<lparr>cx_lifetimeWarnningTime := currentTime\<rparr>, [OnEvent CIS_EVENT_UPDATE_NEED (of_int interval)])
       else None }
     else Some (cx, []) }"

definition registration_step :: "cis_env \<Rightarrow> st_context \<Rightarrow> int \<Rightarrow> (st_context \<times> cis_event list) option" where
  "registration_step env cx currentTime =
     (case cx_server cx of
        None \<Rightarrow> Some (cx, [])
      | Some target \<Rightarrow>
          (case sv_status target of
             STATE_REGISTERED \<Rightarrow> lifetime_step env cx target currentTime
           | STATE_REG_UPDATE_NEEDED \<Rightarrow> map_option snd (prv_updateRegistration env cx False)
           | STATE_REG_UPDATE_NEEDED_WITHOBJECTS \<Rightarrow> map_option snd (prv_updateRegistration env cx True)
           | STATE_REG_FAILED \<Rightarrow>
               Some (cx\<lparr>cx_server := Some (target\<lparr>sv_sessionH := None\<rparr>)\<rparr>, close_session target)
           | _ \<Rightarrow> Some (cx, [])))"

section \<open>The public functions\<close>

text \<open>
  \<open>cis_register\<close>; \<open>complete\<close> says that no callback is null. The lifetime is compared as an unsigned
  number.
\<close>

definition cis_register :: "st_context \<Rightarrow> int \<Rightarrow> bool \<Rightarrow> int \<times> st_context" where
  "cis_register cx lifetime complete =
     (if \<not> complete then (CIS_RET_ERROR, cx)
      else if lifetime mod 2 ^ 32 < LIFETIME_LIMIT_MIN \<or> LIFETIME_LIMIT_MAX < lifetime mod 2 ^ 32
      then (CIS_RET_ERROR, cx)
      else (CIS_RET_OK, cx\<lparr>cx_lifetime := lifetime, cx_registerEnabled := True, cx_onEvent := True\<rparr>))"

definition cis_unregister :: "st_context \<Rightarrow> int \<times> st_context" where
  "cis_unregister cx =
     (if \<not> cx_registerEnabled cx then (CIS_RET_ERROR, cx)
      else (CIS_RET_OK, core_updatePumpState cx PUMP_STATE_UNREGISTER))"

end
