(* ===== verification/Cis_Bootstrap.thy ===== *)
theory Cis_Bootstrap
  imports Cis_Registration
begin

text \<open>
  \<open>cis_bootstrap.c\<close>: asking a bootstrap server for the addresses of the servers, and what it may write.
  The functions that take the server change the one bootstrap server of the context.
\<close>

section \<open>Connecting\<close>

definition bootstrap_getStatus :: "st_context \<Rightarrow> et_status" where
  "bootstrap_getStatus cx =
     (case cx_bootstrapServer cx of
        None \<Rightarrow> STATE_BS_FAILED
      | Some target \<Rightarrow>
          if sv_status target \<in> {STATE_BS_FAILED, STATE_CREATE_FAILED, STATE_CONNECT_FAILED}
          then STATE_BS_FAILED
          else sv_status target)"

text \<open>Of several instances the first one is used.\<close>

definition bootstrap_init :: "cis_env \<Rightarrow> st_context \<Rightarrow> st_context option" where
  "bootstrap_init env cx = do {
     servers \<leftarrow> management_makeServerList env cx True;
     Some (case servers of
             [] \<Rightarrow> cx
           | s # _ \<Rightarrow> cx\<lparr>cx_bootstrapServer := Some (s\<lparr>sv_status := STATE_UNCREATED\<rparr>)\<rparr>) }"

definition bootstrap_create :: "cis_env \<Rightarrow> st_context \<Rightarrow> (st_context \<times> cis_event list) option" where
  "bootstrap_create env cx = do {
     s \<leftarrow> cx_bootstrapServer cx;
     let (_, s, evs) = management_createNetwork env s;
     let s = (if sv_sessionH s = None then s\<lparr>sv_status := STATE_CREATE_FAILED\<rparr> else s);
     Some (cx\<lparr>cx_bootstrapServer := Some s\<rparr>, evs) }"

definition bootstrap_connect :: "cis_env \<Rightarrow> st_context \<Rightarrow> (st_context \<times> cis_event list) option" where
  "bootstrap_connect env cx = do {
     s \<leftarrow> cx_bootstrapServer cx;
     let (connecting, s, evs) = management_connectServer env s;
     let s = (if connecting then s else s\<lparr>sv_status := STATE_CONNECT_FAILED\<rparr>);
     Some (cx\<lparr>cx_bootstrapServer := Some s\<rparr>, evs) }"

text \<open>The transactions of the bootstrap server go with it; the walk reads the next one first.\<close>

fun remove_bootstrap_transactions :: "st_context \<Rightarrow> transaction list \<Rightarrow> transaction list \<Rightarrow> transaction list" where
  "remove_bootstrap_transactions cx [] l = l"
| "remove_bootstrap_transactions cx (t # ts) l =
     remove_bootstrap_transactions cx ts
       (if cx_replyOf cx (tr_mID t) = Some BootstrapReply then transaction_remove l t else l)"

definition bootstrap_destory :: "st_context \<Rightarrow> st_context \<times> cis_event list" where
  "bootstrap_destory cx =
     (let l = (if cx_bootstrapServer cx = None then cx_transactionList cx
               else remove_bootstrap_transactions cx (cx_transactionList cx) (cx_transactionList cx))
      in (cx\<lparr>cx_transactionList := l, cx_bootstrapServer := None\<rparr>,
          management_destoryServer (cx_bootstrapServer cx)))"

section \<open>The request\<close>

definition prv_requestBootstrap :: "cis_env \<Rightarrow> st_context \<Rightarrow> (st_context \<times> cis_event list) option" where
  "prv_requestBootstrap env cx = do {
     server \<leftarrow> cx_bootstrapServer cx;
     q \<leftarrow> then_write (put_string PRV_QUERY_BUFFER_LENGTH text_ep [])
            (put_string PRV_QUERY_BUFFER_LENGTH (cx_endpointName cx));
     case q of
       Inl _ \<Rightarrow> Some (set_bootstrap_status STATE_BS_FAILED cx, [])
     | Inr query \<Rightarrow>
         if sv_sessionH server = None then Some (set_bootstrap_status STATE_BS_FAILED cx, [])
         else do {
           let (mid, cx) = take_mid cx;
           tr \<leftarrow> transaction_new (env_platform env) COAP_TYPE_CON COAP_POST None None mid 4 None;
           case tr of
             Inl _ \<Rightarrow> Some (set_bootstrap_status STATE_BS_FAILED cx, [])
           | Inr t \<Rightarrow> do {
               (_, message) \<leftarrow> coap_set_header_uri_path (pf_malloc env) (tr_message t) text_bs;
               (_, message) \<leftarrow> coap_set_header_uri_query (pf_malloc env) message query;
               message \<leftarrow> auth_header cx message;
               let t = t\<lparr>tr_message := message, tr_callback := True\<rparr>;
               (sent, cx, evs) \<leftarrow> context_send env (enter_transaction cx t BootstrapReply) t;
               Some (if sent then set_bootstrap_status STATE_BS_INITIATED cx else cx, evs) } } }"

definition bootstrap_step :: "cis_env \<Rightarrow> st_context \<Rightarrow> int \<Rightarrow> (st_context \<times> cis_event list) option" where
  "bootstrap_step env cx currentTime =
     (case cx_bootstrapServer cx of
        None \<Rightarrow> Some (cx, [])
      | Some target \<Rightarrow>
          if sv_status target = STATE_CONNECTED
          then do {
            registration \<leftarrow> time32 (currentTime + cx_lifetime cx);
            prv_requestBootstrap env
              (cx\<lparr>cx_bootstrapServer :=
                    Some (target\<lparr>sv_registration := registration, sv_status := STATE_BS_HOLD_OFF\<rparr>)\<rparr>) }
          else Some (cx, []))"

section \<open>What the server says\<close>

definition bootstrap_handleFinish :: "st_context \<Rightarrow> u8 \<times> st_context" where
  "bootstrap_handleFinish cx =
     (case cx_bootstrapServer cx of
        None \<Rightarrow> (COAP_IGNORE, cx)
      | Some target \<Rightarrow>
          if sv_status target = STATE_BS_PENDING
          then (COAP_204_CHANGED, set_bootstrap_status STATE_BS_FINISHED cx)
          else (COAP_IGNORE, cx))"

definition prv_checkServerStatus :: "et_status \<Rightarrow> u8 \<times> et_status" where
  "prv_checkServerStatus s =
     (if s = STATE_BS_HOLD_OFF \<or> s = STATE_BS_INITIATED then (COAP_NO_ERROR, STATE_BS_PENDING)
      else if s = STATE_UNCREATED \<or> s = STATE_BS_PENDING then (COAP_NO_ERROR, s)
      else (COAP_IGNORE, s))"

text \<open>The server whose security instance has the number \<open>n\<close>; the caller passes the id of a resource.\<close>

definition prv_tagServer :: "st_context \<Rightarrow> u16 \<Rightarrow> st_context" where
  "prv_tagServer cx n =
     (let is = (\<lambda>s. case s of None \<Rightarrow> False | Some s \<Rightarrow> sv_secObjInstID s = ucast n);
          tag = map_option (\<lambda>s. s\<lparr>sv_dirty := True\<rparr>)
      in if is (cx_bootstrapServer cx) then cx\<lparr>cx_bootstrapServer := tag (cx_bootstrapServer cx)\<rparr>
         else if is (cx_server cx) then cx\<lparr>cx_server := tag (cx_server cx)\<rparr>
         else cx)"

text \<open>The loop over the values; the result of the last write, or the first that is not 2.04.\<close>

fun bootstrap_writes :: "cis_env \<Rightarrow> st_context \<Rightarrow> u16 \<Rightarrow> st_data list \<Rightarrow> u8 \<Rightarrow> (u8 \<times> st_context) option" where
  "bootstrap_writes env cx instanceId [] result = Some (result, cx)"
| "bootstrap_writes env cx instanceId (d # ds) result = do {
     (result, cx) \<leftarrow> std_object_write_handler (pf_malloc env) cx instanceId [d];
     if result = COAP_204_CHANGED
     then bootstrap_writes env (prv_tagServer cx (sd_id d)) instanceId ds result
     else Some (result, cx) }"

definition bootstrap_put ::
  "cis_env \<Rightarrow> st_context \<Rightarrow> st_uri \<Rightarrow> coap_packet \<Rightarrow> (u8 \<times> st_context) option" where
  "bootstrap_put env cx uri message =
     (if \<not> CIS_URI_IS_SET_INSTANCE uri then Some (COAP_501_NOT_IMPLEMENTED, cx)
      else if uri_objectId uri \<noteq> 0 then Some (COAP_404_NOT_FOUND, cx)
      else if \<not> list_ex (\<lambda>obj. oj_objID obj = 0) (cx_objectList cx) then Some (COAP_404_NOT_FOUND, cx)
      else if cp_payload_len message = 0 \<or> cp_payload message = None then Some (COAP_400_BAD_REQUEST, cx)
      else do {
        payload \<leftarrow> message_payload message;
        ds \<leftarrow> data_parse (pf_malloc env) uri payload (utils_convertMediaType (cp_content_type message));
        if ds = [] then Some (COAP_500_INTERNAL_SERVER_ERROR, cx)
        else bootstrap_writes env cx (uri_instanceId uri) ds COAP_NO_ERROR })"

definition bootstrap_handleCommand ::
  "cis_env \<Rightarrow> st_context \<Rightarrow> st_uri \<Rightarrow> coap_packet \<Rightarrow> (u8 \<times> st_context) option" where
  "bootstrap_handleCommand env cx uri message = do {
     server \<leftarrow> cx_bootstrapServer cx;
     let (result, status) = prv_checkServerStatus (sv_status server);
     if result \<noteq> COAP_NO_ERROR then Some (result, cx)
     else do {
       let cx = set_bootstrap_status status cx;
       (result, cx) \<leftarrow>
         (if cp_code message = COAP_PUT then bootstrap_put env cx uri message
          else if cp_code message = COAP_DELETE
          then Some (if CIS_URI_IS_SET_RESOURCE uri then COAP_400_BAD_REQUEST else COAP_501_NOT_IMPLEMENTED, cx)
          else Some (COAP_400_BAD_REQUEST, cx));
       Some (result,
             if (result = COAP_202_DELETED \<or> result = COAP_204_CHANGED) \<and> status \<noteq> STATE_BS_PENDING
             then set_bootstrap_status STATE_BS_FAILED cx else cx) } }"

end
