(* ===== verification/Cis_Report.thy ===== *)
theory Cis_Report
  imports Cis_Management
begin

text \<open>
  The first half of \<open>packet_step\<close> (\<open>cis_packet.c\<close>): what the application has answered or reported is
  collected value by value in a request or an observation, and sent when the last value has come.
\<close>

section \<open>Values\<close>

text \<open>
  Storing a value into a slot. When \<open>malloc\<close> fails the code leaves a length without a buffer behind;
  the model stops there (\<open>None\<close>).
\<close>

definition put_value :: "cis_env \<Rightarrow> u16 \<Rightarrow> cis_data \<Rightarrow> st_data \<Rightarrow> st_data option" where
  "put_value env rid v d =
     (let d = set_type (cd_type v) (set_id rid d) in
      if cd_type v = DATA_TYPE_OPAQUE \<or> cd_type v = DATA_TYPE_STRING
      then do {
        _ \<leftarrow> pf_malloc env (cd_length v);
        bs \<leftarrow> (if cd_length v = 0 then Some [] else cd_buffer v \<bind> (\<lambda>b. aslice b 0 (unat (cd_length v))));
        Some (set_buffer bs d) }
      else Some (set_value (cd_value v) d))"

text \<open>The first slot of type \<open>DATA_TYPE_UNDEFINE\<close> among \<open>n\<close>, from position \<open>i\<close> on; \<open>n\<close> when all are in use.\<close>

fun first_unused :: "st_data list \<Rightarrow> nat \<Rightarrow> nat \<Rightarrow> nat option" where
  "first_unused ds i 0 = Some i"
| "first_unused ds i (Suc n) = do {
     d \<leftarrow> aload ds i;
     if sd_type d = DATA_TYPE_UNDEFINE then Some i else first_unused ds (i + 1) n }"

text \<open>An instance whose array of \<open>n\<close> slots is made on first use.\<close>

definition open_instance :: "cis_env \<Rightarrow> u16 \<Rightarrow> u16 \<Rightarrow> st_data \<Rightarrow> st_data" where
  "open_instance env iid n d =
     (if sd_value d = NoValue
      then (let d = set_type DATA_TYPE_OBJECT_INSTANCE (set_id iid d) in
            case data_new (pf_malloc env) (unat n) of
              None \<Rightarrow> d
            | Some slots \<Rightarrow> set_value (AsChildren slots) d)
      else d)"

text \<open>Storing a value into the next free slot of an instance: the code and the instance.\<close>

definition add_child ::
  "cis_env \<Rightarrow> u16 \<Rightarrow> u16 \<Rightarrow> u16 \<Rightarrow> cis_data \<Rightarrow> st_data \<Rightarrow> (u8 \<times> st_data) option" where
  "add_child env n iid rid v d =
     (let d = open_instance env iid n d in
      if n = 0 then Some (COAP_400_BAD_REQUEST, d)
      else (case sd_value d of
              AsChildren slots \<Rightarrow> do {
                i \<leftarrow> first_unused slots 0 (unat n);
                if unat n \<le> i then Some (COAP_400_BAD_REQUEST, d)
                else do {
                  slot \<leftarrow> put_value env rid v (slots ! i);
                  Some (COAP_NO_ERROR, set_value (AsChildren (slots[i := slot])) d) } }
            | _ \<Rightarrow> None))"

definition URI_IS_SET_OBJECT :: "st_uri \<Rightarrow> bool" where
  "URI_IS_SET_OBJECT u \<longleftrightarrow> uri_flag u AND URI_FLAG_OBJECT_ID \<noteq> 0"

definition full_uri :: "st_uri \<Rightarrow> bool" where
  "full_uri u \<longleftrightarrow> CIS_URI_IS_SET_INSTANCE u \<and> CIS_URI_IS_SET_RESOURCE u \<and> URI_IS_SET_OBJECT u"

definition has_value :: "st_notify \<Rightarrow> bool" where
  "has_value n \<longleftrightarrow> (case nt_data n of None \<Rightarrow> False | Some v \<Rightarrow> cd_type v \<noteq> DATA_TYPE_UNDEFINE)"

section \<open>Observations\<close>

text \<open>The collected values are sent and dropped, whatever became of the sending.\<close>

definition report_done :: "cis_env \<Rightarrow> st_context \<Rightarrow> nat \<Rightarrow> (u8 \<times> st_context \<times> cis_event list) option" where
  "report_done env cx i = do {
     (_, cx, evs) \<leftarrow> observe_asynReport env cx i;
     Some (COAP_NO_ERROR, update_observed i (\<lambda>t. t\<lparr>ob_reportData := None\<rparr>) cx, evs) }"

text \<open>
  The value goes into the one slot of the observation when a single resource is observed (or the
  object has a single resource), otherwise into the next free one of the instance.
\<close>

definition collect_report ::
  "cis_env \<Rightarrow> st_uri \<Rightarrow> st_object \<Rightarrow> st_notify \<Rightarrow> cis_data \<Rightarrow> st_data \<Rightarrow> (u8 \<times> st_data) option" where
  "collect_report env uri object n v d =
     (let single = CIS_URI_IS_SET_INSTANCE uri \<and> CIS_URI_IS_SET_RESOURCE uri;
          attrCount = (if single then 1 else oj_attributeCount object)
      in if attrCount = 1 \<and> (CIS_URI_IS_SET_INSTANCE uri \<or> CIS_URI_IS_SET_RESOURCE uri)
         then map_option (Pair COAP_NO_ERROR) (put_value env (uri_resourceId (nt_uri n)) v d)
         else add_child env (oj_attributeCount object) (uri_instanceId (nt_uri n))
                (uri_resourceId (nt_uri n)) v d)"

definition prv_notifyObserveReport ::
  "cis_env \<Rightarrow> st_context \<Rightarrow> nat \<Rightarrow> st_notify \<Rightarrow> (u8 \<times> st_context \<times> cis_event list) option" where
  "prv_notifyObserveReport env cx i n =
     (if (\<not> URI_IS_SET_OBJECT (nt_uri n) \<or> nt_data n = None) \<and> nt_result n \<noteq> COAP_231_CONTINUE
      then report_done env cx i
      else if \<not> full_uri (nt_uri n) then Some (COAP_400_BAD_REQUEST, cx, [])
      else if \<not> has_value n then Some (COAP_400_BAD_REQUEST, cx, [])
      else case prv_findObject cx (uri_objectId (nt_uri n)) of
        None \<Rightarrow> Some (COAP_404_NOT_FOUND, cx, [])
      | Some object \<Rightarrow> do {
          v \<leftarrow> nt_data n;
          exists \<leftarrow> object_checkInstExisted (oj_instBitmapPtr object) (uri_instanceId (nt_uri n));
          if \<not> exists then Some (COAP_404_NOT_FOUND, cx, [])
          else do {
            let uri = ob_uri (cx_observedList cx ! i);
            d \<leftarrow> (case ob_reportData (cx_observedList cx ! i) of
                    Some ds \<Rightarrow> Some (hd ds)
                  | None \<Rightarrow>
                      if CIS_URI_IS_SET_RESOURCE uri \<and> \<not> CIS_URI_IS_SET_INSTANCE uri then None
                      else map_option (\<lambda>ds. set_id (uri_instanceId (nt_uri n)) (hd ds))
                             (data_new (pf_malloc env) 1));
            let cx = update_observed i (\<lambda>t. t\<lparr>ob_reportData := Some [d]\<rparr>) cx;
            if sd_id d \<noteq> uri_instanceId (nt_uri n) then Some (COAP_400_BAD_REQUEST, cx, [])
            else do {
              (code, d) \<leftarrow> collect_report env uri object n v d;
              let cx = update_observed i (\<lambda>t. t\<lparr>ob_reportData := Some [d]\<rparr>) cx;
              if code \<noteq> COAP_NO_ERROR then Some (code, cx, [])
              else if nt_result n = COAP_231_CONTINUE then Some (COAP_231_CONTINUE, cx, [])
              else report_done env cx i } } })"

section \<open>Reading\<close>

text \<open>An assignment through the pointer to a request.\<close>

definition update_request :: "st_request \<Rightarrow> st_context \<Rightarrow> st_context" where
  "update_request r cx =
     cx\<lparr>cx_requestList := map (\<lambda>t. if rq_mid t = rq_mid r then r else t) (cx_requestList cx)\<rparr>"

definition answer_done ::
  "cis_env \<Rightarrow> st_context \<Rightarrow> st_request \<Rightarrow> u8 \<Rightarrow> (u8 \<times> st_context \<times> cis_event list) option" where
  "answer_done env cx request result = do {
     (_, evs) \<leftarrow> object_asynAckReadData env cx request result;
     Some (COAP_NO_ERROR, update_request (request\<lparr>rq_respData := None\<rparr>) cx, evs) }"

text \<open>
  The position of the instance among the instances of the object: the loop over the \<open>n\<close> remaining
  indices stops at the instance.
\<close>

fun instance_index :: "bytes option \<Rightarrow> u16 \<Rightarrow> nat \<Rightarrow> u16 \<Rightarrow> nat \<Rightarrow> nat option" where
  "instance_index bitmap iid 0 index i = Some i"
| "instance_index bitmap iid (Suc n) index i =
     (if iid = index then Some i
      else do {
        exists \<leftarrow> object_checkInstExisted bitmap index;
        instance_index bitmap iid n (index + 1) (if exists then i + 1 else i) })"

text \<open>The slots for the answer; a failed allocation stops in the assertion.\<close>

definition response_slots :: "cis_env \<Rightarrow> st_request \<Rightarrow> st_object \<Rightarrow> st_data list option option" where
  "response_slots env request object =
     (case rq_respData request of
        Some ds \<Rightarrow> Some (Some ds)
      | None \<Rightarrow>
          if CIS_URI_IS_SET_INSTANCE (rq_uri request) then map_option Some (data_new (pf_malloc env) 1)
          else if CIS_URI_IS_SET_RESOURCE (rq_uri request) then Some None
          else map_option Some (data_new (pf_malloc env) (unat (oj_instValidCount object))))"

definition collect_answer ::
  "cis_env \<Rightarrow> st_uri \<Rightarrow> st_object \<Rightarrow> st_notify \<Rightarrow> cis_data \<Rightarrow> st_data list \<Rightarrow> (u8 \<times> st_data list) option" where
  "collect_answer env uri object n v ds =
     (let whole = (\<not> CIS_URI_IS_SET_INSTANCE uri \<and> \<not> CIS_URI_IS_SET_RESOURCE uri);
          single = (CIS_URI_IS_SET_INSTANCE uri \<and> CIS_URI_IS_SET_RESOURCE uri);
          attrCount = (if single then 1 else oj_attributeCount object);
          iid = uri_instanceId (nt_uri n); rid = uri_resourceId (nt_uri n)
      in if attrCount = 1 \<and> \<not> whole
         then do {
           d \<leftarrow> aload ds 0;
           d \<leftarrow> put_value env rid v d;
           Some (COAP_NO_ERROR, ds[0 := d]) }
         else do {
           i \<leftarrow> (if whole then instance_index (oj_instBitmapPtr object) iid (unat (oj_instBitmapCount object)) 0 0
                 else Some 0);
           d \<leftarrow> aload ds i;
           (code, d) \<leftarrow> add_child env (oj_attributeCount object) iid rid v d;
           Some (code, ds[i := d]) })"

definition prv_notifyReadReport ::
  "cis_env \<Rightarrow> st_context \<Rightarrow> st_request \<Rightarrow> st_notify \<Rightarrow> (u8 \<times> st_context \<times> cis_event list) option" where
  "prv_notifyReadReport env cx request n =
     (if nt_result n \<noteq> COAP_231_CONTINUE \<and> nt_result n \<noteq> COAP_205_CONTENT
      then answer_done env cx request (nt_result n)
      else if (\<not> URI_IS_SET_OBJECT (nt_uri n) \<or> nt_data n = None) \<and> nt_result n \<noteq> COAP_231_CONTINUE
      then answer_done env cx request (nt_result n)
      else if \<not> full_uri (nt_uri n) then Some (COAP_400_BAD_REQUEST, cx, [])
      else if \<not> has_value n then Some (COAP_400_BAD_REQUEST, cx, [])
      else case prv_findObject cx (uri_objectId (nt_uri n)) of
        None \<Rightarrow> Some (COAP_404_NOT_FOUND, cx, [])
      | Some object \<Rightarrow> do {
          v \<leftarrow> nt_data n;
          slots \<leftarrow> response_slots env request object;
          case slots of
            None \<Rightarrow> Some (COAP_400_BAD_REQUEST, cx, [])
          | Some ds \<Rightarrow> do {
              let request = request\<lparr>rq_respData := Some ds\<rparr>;
              exists \<leftarrow> object_checkInstExisted (oj_instBitmapPtr object) (uri_instanceId (nt_uri n));
              if \<not> exists then Some (COAP_400_BAD_REQUEST, update_request request cx, [])
              else do {
                (code, ds) \<leftarrow> collect_answer env (rq_uri request) object n v ds;
                let request = request\<lparr>rq_respData := Some ds\<rparr>;
                let cx = update_request request cx;
                if code \<noteq> COAP_NO_ERROR then Some (code, cx, [])
                else if nt_result n = COAP_231_CONTINUE then Some (COAP_231_CONTINUE, cx, [])
                else answer_done env cx request (nt_result n) } } })"

section \<open>Discovery\<close>

text \<open>
  The link goes into the next free slot of every instance; \<open>Fail\<close> when one has none left. The
  target of the link, which nobody reads, is left out.
\<close>

fun discover_instances ::
  "cis_env \<Rightarrow> st_object \<Rightarrow> u16 \<Rightarrow> nat \<Rightarrow> u16 \<Rightarrow> nat \<Rightarrow> st_data list \<Rightarrow> st_data list status option" where
  "discover_instances env object rid 0 index i ds = Some (Done ds)"
| "discover_instances env object rid (Suc n) index i ds = do {
     exists \<leftarrow> object_checkInstExisted (oj_instBitmapPtr object) index;
     if \<not> exists then discover_instances env object rid n (index + 1) i ds
     else do {
       d \<leftarrow> aload ds i;
       let resCount = oj_attributeCount object + oj_actionCount object;
       let d = open_instance env index resCount d;
       if resCount = 0 then Some Fail
       else (case sd_value d of
               AsChildren slots \<Rightarrow> do {
                 j \<leftarrow> first_unused slots 0 (unat resCount);
                 if unat resCount \<le> j then Some Fail
                 else (let slot = set_type DATA_TYPE_LINK (set_id rid (slots ! j)) in
                       discover_instances env object rid n (index + 1) (i + 1)
                         (ds[i := set_value (AsChildren (slots[j := slot])) d])) }
             | _ \<Rightarrow> None) } }"

definition prv_notifyDiscoverReport ::
  "cis_env \<Rightarrow> st_context \<Rightarrow> st_request \<Rightarrow> st_notify \<Rightarrow> (u8 \<times> st_context \<times> cis_event list) option" where
  "prv_notifyDiscoverReport env cx request n =
     (if nt_result n \<noteq> COAP_231_CONTINUE \<and> nt_result n \<noteq> COAP_205_CONTENT
      then answer_done env cx request (nt_result n)
      else if \<not> CIS_URI_IS_SET_RESOURCE (nt_uri n) \<and> nt_data n = None \<and> nt_result n \<noteq> COAP_231_CONTINUE
      then answer_done env cx request (nt_result n)
      else case prv_findObject cx (uri_objectId (rq_uri request)) of
        None \<Rightarrow> Some (COAP_404_NOT_FOUND, cx, core_callbackEvent cx CIS_EVENT_RESPONSE_FAILED (nt_mid n))
      | Some object \<Rightarrow> do {
          ds \<leftarrow> (case rq_respData request of
                   Some ds \<Rightarrow> Some ds
                 | None \<Rightarrow> data_new (pf_malloc env) (unat (oj_instValidCount object)));
          r \<leftarrow> discover_instances env object (uri_resourceId (nt_uri n)) (unat (oj_instBitmapCount object)) 0 0 ds;
          case r of
            Inl _ \<Rightarrow> Some (COAP_NO_ERROR, update_request (request\<lparr>rq_respData := None\<rparr>) cx,
                          core_callbackEvent cx CIS_EVENT_RESPONSE_FAILED (nt_mid n))
          | Inr ds \<Rightarrow>
              (let request = request\<lparr>rq_respData := Some ds\<rparr>; cx = update_request request cx in
               if nt_result n = COAP_231_CONTINUE then Some (COAP_231_CONTINUE, cx, [])
               else answer_done env cx request (nt_result n)) })"

section \<open>The step\<close>

definition handle_answer ::
  "cis_env \<Rightarrow> st_context \<Rightarrow> st_request \<Rightarrow> st_notify \<Rightarrow> (u8 \<times> st_context \<times> cis_event list) option" where
  "handle_answer env cx request n =
     (case rq_type request of
        CALLBACK_TYPE_READ \<Rightarrow> prv_notifyReadReport env cx request n
      | CALLBACK_TYPE_DISCOVER \<Rightarrow> prv_notifyDiscoverReport env cx request n
      | CALLBACK_TYPE_EXECUTE \<Rightarrow>
          map_option (\<lambda>(code, evs). (code, cx, evs)) (object_asynAckNodata env cx request (nt_result n))
      | CALLBACK_TYPE_WRITE \<Rightarrow>
          map_option (\<lambda>(code, evs). (code, cx, evs)) (object_asynAckNodata env cx request (nt_result n))
      | CALLBACK_TYPE_OBSERVE_CANCEL \<Rightarrow> observe_asynAckNodata env cx request (nt_result n)
      | CALLBACK_TYPE_OBSERVE_PARAMS \<Rightarrow> observe_asynAckNodata env cx request (nt_result n)
      | CALLBACK_TYPE_OBSERVE \<Rightarrow> observe_asynAckNodata env cx request (nt_result n)
      | CALLBACK_BLOCK_WRITE \<Rightarrow> Some (COAP_500_INTERNAL_SERVER_ERROR, cx, []))"

definition step_response ::
  "cis_env \<Rightarrow> st_context \<Rightarrow> st_notify \<Rightarrow> (st_context \<times> cis_event list) option" where
  "step_response env cx n =
     (case cis_list_find rq_mid (cx_requestList cx) (nt_mid n) of
        None \<Rightarrow> Some (cx, core_callbackEvent cx CIS_EVENT_RESPONSE_FAILED (nt_mid n))
      | Some request \<Rightarrow>
          if CIS_URI_IS_SET_INSTANCE (nt_uri n) \<and> \<not> uri_exist (Some (rq_uri request)) (Some (nt_uri n))
          then map_option (\<lambda>cx. (cx, core_callbackEvent cx CIS_EVENT_RESPONSE_FAILED (nt_mid n)))
                 (packet_asynRemoveRequest cx (nt_mid n))
          else do {
            (_, cx, evs) \<leftarrow> handle_answer env cx request n;
            let success = core_callbackEvent cx CIS_EVENT_RESPONSE_SUCCESS (nt_mid n);
            if nt_result n = COAP_231_CONTINUE
            then Some (cx, evs @ (if rq_type request = CALLBACK_TYPE_READ then success else []))
            else map_option (\<lambda>cx. (cx, evs @ success)) (packet_asynRemoveRequest cx (nt_mid n)) })"

definition step_notify ::
  "cis_env \<Rightarrow> st_context \<Rightarrow> st_notify \<Rightarrow> (st_context \<times> cis_event list) option" where
  "step_notify env cx n =
     (case observe_findByMsgid cx (nt_mid n) of
        None \<Rightarrow> Some (cx, core_callbackEvent cx CIS_EVENT_NOTIFY_FAILED (nt_mid n))
      | Some i \<Rightarrow>
          if \<not> uri_exist (Some (ob_uri (cx_observedList cx ! i))) (Some (nt_uri n))
          then Some (cx, core_callbackEvent cx CIS_EVENT_NOTIFY_FAILED (nt_mid n))
          else do {
            (_, cx, evs) \<leftarrow> prv_notifyObserveReport env cx i n;
            Some (cx, evs @ core_callbackEvent cx CIS_EVENT_NOTIFY_SUCCESS (nt_mid n)) })"

text \<open>A node that \<open>CIS_LIST_RM\<close> does not find would be freed in the list.\<close>

fun notify_loop :: "cis_env \<Rightarrow> st_notify list \<Rightarrow> st_context \<Rightarrow> (st_context \<times> cis_event list) option" where
  "notify_loop env [] cx = Some (cx, [])"
| "notify_loop env (n # ns) cx = do {
     (cx, evs) \<leftarrow> (if nt_isResponse n then step_response env cx n else step_notify env cx n);
     let (l, removed) = cis_list_remove nt_id (cx_notifyList cx) (nt_id n);
     _ \<leftarrow> removed;
     (cx, evs') \<leftarrow> notify_loop env ns (cx\<lparr>cx_notifyList := l\<rparr>);
     Some (cx, evs @ evs') }"

definition packet_step :: "cis_env \<Rightarrow> st_context \<Rightarrow> int \<Rightarrow> (st_context \<times> cis_event list) option" where
  "packet_step env cx currentTime =
     (if cx_server cx = None \<and> cx_bootstrapServer cx = None then Some (cx, [])
      else do {
        (cx, evs) \<leftarrow> notify_loop env (cx_notifyList cx) cx;
        cx \<leftarrow> request_timeout_loop currentTime (cx_requestList cx) cx;
        Some (cx, evs) })"

end
