(* ===== verification/Cis_Packet.thy ===== *)
theory Cis_Packet
  imports Cis_Bootstrap Cis_Report
begin

text \<open>
  \<open>packet_handle_packet\<close> and \<open>packet_read\<close> of \<open>cis_packet.c\<close>: a datagram is parsed, a request is handed
  to the management or the bootstrap and answered, a response goes to the transactions, a reset
  cancels an observation.
\<close>

section \<open>Requests\<close>

definition prv_handleReset :: "st_context \<Rightarrow> coap_packet \<Rightarrow> st_context option" where
  "prv_handleReset cx message = observe_cancel cx (cp_mid message) None"

definition utils_findBootstrapServer :: "st_context \<Rightarrow> nat \<Rightarrow> st_server option" where
  "utils_findBootstrapServer cx from_session =
     (case cx_bootstrapServer cx of
        None \<Rightarrow> None
      | Some s \<Rightarrow> if sv_sessionH s = Some from_session then Some s else None)"

definition dispatch_request ::
  "cis_env \<Rightarrow> st_context \<Rightarrow> nat \<Rightarrow> st_uri \<Rightarrow> coap_packet \<Rightarrow> (u8 \<times> st_context \<times> cis_event list) option" where
  "dispatch_request env cx from_session uri message =
     (let kind = uri_flag uri AND URI_MASK_TYPE in
      if kind = 0
      then (if (case cx_server cx of None \<Rightarrow> False | Some s \<Rightarrow> sv_sessionH s = Some from_session)
            then management_handleRequest env cx uri message
            else if utils_findBootstrapServer cx from_session = None then Some (COAP_IGNORE, cx, [])
            else map_option (\<lambda>(code, cx). (code, cx, [])) (bootstrap_handleCommand env cx uri message))
      else if kind = URI_FLAG_DELETE_ALL then Some (COAP_400_BAD_REQUEST, cx, [])
      else if kind = URI_FLAG_BOOTSTRAP \<and> cp_code message = COAP_POST \<and>
              utils_findBootstrapServer cx from_session \<noteq> None
      then (let (code, cx) = bootstrap_handleFinish cx in Some (code, cx, []))
      else Some (COAP_IGNORE, cx, []))"

text \<open>A success code is stored in the answer and becomes \<open>COAP_NO_ERROR\<close>.\<close>

definition prv_handleRequest ::
  "cis_env \<Rightarrow> st_context \<Rightarrow> nat \<Rightarrow> coap_packet \<Rightarrow> coap_packet \<Rightarrow>
   (u8 \<times> coap_packet \<times> st_context \<times> cis_event list) option" where
  "prv_handleRequest env cx from_session message response = do {
     r \<leftarrow> uri_decode (pf_malloc env) (cx_altPath cx) (cp_uri_path message);
     case r of
       Inl _ \<Rightarrow> Some (COAP_400_BAD_REQUEST, response, cx, [])
     | Inr uri \<Rightarrow> do {
         (result, cx, evs) \<leftarrow> dispatch_request env cx from_session uri message;
         let response = snd (coap_set_status_code response (ucast result));
         Some (if COAP_IGNORE < result \<and> result < COAP_400_BAD_REQUEST then COAP_NO_ERROR else result,
               response, cx, evs) } }"

section \<open>Blocks\<close>

abbreviation (input) REST_MAX_CHUNK_SIZE :: u16 where "REST_MAX_CHUNK_SIZE \<equiv> 512"

text \<open>
  The block1 option: the code, the message with the complete payload, the answer and the context. The
  transfer is kept in \<open>contextP->server\<close>, also when the request comes from the bootstrap server.
\<close>

definition handle_block1 ::
  "cis_env \<Rightarrow> st_context \<Rightarrow> nat \<Rightarrow> coap_packet \<Rightarrow> coap_packet \<Rightarrow>
   (u8 \<times> coap_packet \<times> coap_packet \<times> st_context) option" where
  "handle_block1 env cx from_session message response =
     (if \<not> IS_OPTION message COAP_OPTION_BLOCK1 then Some (COAP_NO_ERROR, message, response, cx)
      else if cx_server cx = None \<and>
              \<not> (cx_bootstrapEanbled cx \<and> utils_findBootstrapServer cx from_session \<noteq> None)
      then Some (COAP_500_INTERNAL_SERVER_ERROR, message, response, cx)
      else do {
        server \<leftarrow> cx_server cx;
        payload \<leftarrow> message_payload message;
        (code, data, len, body) \<leftarrow> coap_block1_handler (pf_malloc env) (sv_block1Data server) (cp_mid message)
           payload (ucast (cp_payload_len message)) (cp_block1_size message) (cp_block1_num message)
           (cp_block1_more message \<noteq> 0);
        let cx = cx\<lparr>cx_server := Some (server\<lparr>sv_block1Data := data\<rparr>)\<rparr>;
        if code = COAP_NO_ERROR
        then do {
          len \<leftarrow> len;
          body \<leftarrow> body;
          Some (code, message\<lparr>cp_payload := body, cp_payload_len := ucast len\<rparr>, response, cx) }
        else if code = COAP_231_CONTINUE
        then do {
          (_, response) \<leftarrow> coap_set_header_block1 response (cp_block1_num message) (cp_block1_more message)
                             (min (cp_block1_size message) REST_MAX_CHUNK_SIZE);
          Some (code, message, response, cx) }
        else Some (code, message, response, cx) })"

text \<open>\<open>BlockOutOfScope\<close>.\<close>

abbreviation (input) block_out_of_scope :: bytes where
  "block_out_of_scope \<equiv> [0x42, 0x6C, 0x6F, 0x63, 0x6B, 0x4F, 0x75, 0x74, 0x4F, 0x66, 0x53, 0x63, 0x6F, 0x70, 0x65]"

text \<open>
  The slice of the answer that a block2 option asks for; \<open>new_offset\<close> is never changed, so the other
  branches are not taken. The payload pointer is freed after sending, and \<open>False\<close> says that it does not
  point to the beginning of a block of the heap.
\<close>

definition slice_block2 :: "coap_packet \<Rightarrow> coap_packet \<Rightarrow> (coap_packet \<times> bool) option" where
  "slice_block2 message response =
     (if \<not> IS_OPTION message COAP_OPTION_BLOCK2 then Some (response, True)
      else (let block_size = min (cp_block2_size message) REST_MAX_CHUNK_SIZE;
                offset = cp_block2_offset message;
                len = (ucast (cp_payload_len response) :: u32)
            in if len \<le> offset
               then Some (snd (coap_set_payload (response\<lparr>cp_code := COAP_402_BAD_OPTION\<rparr>)
                                 (Some block_out_of_scope) 15), False)
               else do {
                 (_, response) \<leftarrow> coap_set_header_block2 response (cp_block2_num message)
                                    (if ucast block_size < len - offset then 1 else 0) block_size;
                 Some (snd (coap_set_payload response
                              (map_option (drop (unat offset)) (cp_payload response))
                              (min (len - offset) (ucast block_size))), offset = 0) }))"

section \<open>Datagrams\<close>

definition start_response :: "st_context \<Rightarrow> coap_packet \<Rightarrow> (coap_packet \<times> st_context) option" where
  "start_response cx message = do {
     let (response, cx) =
       (if cp_type message = COAP_TYPE_CON
        then (coap_init_message COAP_TYPE_ACK COAP_205_CONTENT (cp_mid message), cx)
        else (coap_init_message COAP_TYPE_NON COAP_205_CONTENT (cx_nextMid cx),
              cx\<lparr>cx_nextMid := cx_nextMid cx + 1\<rparr>));
     if cp_token_len message = 0 then Some (response, cx)
     else do {
       tok \<leftarrow> aslice (cp_token message) 0 (unat (cp_token_len message));
       (_, response) \<leftarrow> coap_set_header_token response tok;
       Some (response, cx) } }"

definition handle_request ::
  "cis_env \<Rightarrow> st_context \<Rightarrow> nat \<Rightarrow> coap_packet \<Rightarrow> (u8 \<times> st_context \<times> cis_event list) option" where
  "handle_request env cx from_session message = do {
     (response, cx) \<leftarrow> start_response cx message;
     (code, message, response, cx) \<leftarrow> handle_block1 env cx from_session message response;
     (code, response, cx, evs) \<leftarrow>
       (if code = COAP_NO_ERROR then prv_handleRequest env cx from_session message response
        else Some (code, response, cx, []));
     if code = COAP_NO_ERROR
     then do {
       (response, heap) \<leftarrow> slice_block2 message response;
       (code, evs') \<leftarrow> packet_send env cx response;
       if heap then Some (code, cx, evs @ evs') else None }
     else if code = COAP_IGNORE then Some (code, cx, evs)
     else do {
       (code, evs') \<leftarrow> packet_send env cx (snd (coap_set_status_code response (ucast code)));
       Some (code, cx, evs @ evs') } }"

definition handle_reply ::
  "cis_env \<Rightarrow> st_context \<Rightarrow> coap_packet \<Rightarrow> (u8 \<times> st_context \<times> cis_event list) option" where
  "handle_reply env cx message =
     (case cp_type message of
        COAP_TYPE_RST \<Rightarrow> do {
          cx \<leftarrow> prv_handleReset cx message;
          (_, cx, evs) \<leftarrow> context_handleResponse env cx message False;
          Some (COAP_NO_ERROR, cx, evs) }
      | COAP_TYPE_ACK \<Rightarrow> do {
          (_, cx, evs) \<leftarrow> context_handleResponse env cx message False;
          Some (COAP_NO_ERROR, cx, evs) }
      | _ \<Rightarrow> do {
          (found, cx, evs) \<leftarrow> context_handleResponse env cx message True;
          if \<not> found \<and> cp_type message = COAP_TYPE_CON
          then do {
            (code, evs') \<leftarrow> packet_send env cx (coap_init_message COAP_TYPE_ACK 0 (cp_mid message));
            Some (code, cx, evs @ evs') }
          else Some (COAP_NO_ERROR, cx, evs) })"

text \<open>The texts that \<open>coap_parse_message\<close> leaves in \<open>coap_error_message\<close>.\<close>

definition ascii :: "string \<Rightarrow> bytes" where
  "ascii s = map of_char s"

definition parse_error_text :: "u8 \<Rightarrow> bytes" where
  "parse_error_text code =
     (if code = COAP_400_BAD_REQUEST then ascii ''CoAP version must be 1''
      else if code = COAP_505_PROXYING_NOT_SUPPORTED then ascii ''This is a constrained server (Contiki)''
      else ascii ''Unsupported critical option'')"

text \<open>The answer to a datagram that could not be handled: the last error text, whatever it was about.\<close>

definition send_error ::
  "cis_env \<Rightarrow> st_context \<Rightarrow> u16 \<Rightarrow> u8 \<Rightarrow> cis_event list option" where
  "send_error env cx mid code =
     (if code = COAP_NO_ERROR \<or> code = COAP_IGNORE then Some []
      else (let code = (if COAP_UNKOWN_ERROR \<le> code then COAP_500_INTERNAL_SERVER_ERROR else code);
                message = snd (coap_set_payload (coap_init_message COAP_TYPE_ACK code mid)
                                 (Some (cx_errorMessage cx)) (of_nat (length (cx_errorMessage cx))))
            in map_option snd (packet_send env cx message)))"

definition packet_handle_packet ::
  "cis_env \<Rightarrow> st_context \<Rightarrow> nat \<Rightarrow> bytes \<Rightarrow> (st_context \<times> cis_event list) option" where
  "packet_handle_packet env cx from_session buffer =
     (if buffer = [] then Some (cx, [])
      else do {
        (code, message) \<leftarrow> coap_parse_message (pf_malloc env) (take (length buffer mod 2 ^ 16) buffer);
        (code, cx, evs) \<leftarrow>
          (if code \<noteq> COAP_NO_ERROR then Some (code, cx\<lparr>cx_errorMessage := parse_error_text code\<rparr>, [])
           else if COAP_GET \<le> cp_code message \<and> cp_code message \<le> COAP_DELETE
           then handle_request env cx from_session message
           else handle_reply env cx message);
        evs' \<leftarrow> send_error env cx (cp_mid message) code;
        Some (cx, evs @ evs') })"

text \<open>What the network layer hands over; \<open>None\<close> when there is nothing to read.\<close>

definition packet_read :: "cis_env \<Rightarrow> st_context \<Rightarrow> (bool \<times> st_context \<times> cis_event list) option" where
  "packet_read env cx =
     (let session = (case cx_server cx of
                       Some s \<Rightarrow> sv_sessionH s
                     | None \<Rightarrow> cx_bootstrapServer cx \<bind> sv_sessionH)
      in case session of
           None \<Rightarrow> Some (False, cx, [])
         | Some h \<Rightarrow>
             (case env_net_read env h of
                None \<Rightarrow> Some (False, cx, [])
              | Some buffer \<Rightarrow> map_option (\<lambda>(cx, evs). (True, cx, evs)) (packet_handle_packet env cx h buffer)))"

end
