(* ===== verification/Cis_Pump.thy ===== *)
theory Cis_Pump
  imports Cis_Packet
begin

text \<open>
  \<open>cis_pump\<close> of \<open>cis_core.c\<close>, the state machine that the application runs again and again, and
  \<open>prv_onNetEventHandler\<close>, through which the network layer changes its state. DTLS is off at run time
  and saving the address of the server is left out.
\<close>

section \<open>The network layer\<close>

datatype cisnet_event = cisnet_event_unknow | cisnet_event_connected | cisnet_event_disconnect

text \<open>The pointers to the servers are not tested.\<close>

definition prv_onNetEventHandler :: "st_context \<Rightarrow> cisnet_event \<Rightarrow> st_context option" where
  "prv_onNetEventHandler cx evt =
     (let bootstrap = (\<lambda>s. map_option (\<lambda>_. set_bootstrap_status s cx) (cx_bootstrapServer cx));
          server = (\<lambda>s. map_option (\<lambda>_. set_status s cx) (cx_server cx))
      in case evt of
           cisnet_event_unknow \<Rightarrow> Some (core_updatePumpState cx PUMP_STATE_HALT)
         | cisnet_event_connected \<Rightarrow>
             if cx_stateStep cx = PUMP_STATE_BOOTSTRAPPING then bootstrap STATE_CONNECTED
             else if cx_stateStep cx = PUMP_STATE_CONNECTING then server STATE_CONNECTED
             else Some cx
         | cisnet_event_disconnect \<Rightarrow>
             if cx_stateStep cx = PUMP_STATE_READY
             then Some (core_updatePumpState cx PUMP_STATE_DISCONNECTED)
             else if cx_stateStep cx = PUMP_STATE_BOOTSTRAPPING then bootstrap STATE_BS_FAILED
             else if cx_stateStep cx = PUMP_STATE_CONNECTING then server STATE_CONNECT_FAILED
             else Some cx)"

section \<open>The states\<close>

text \<open>
  A state either returns at once, with \<open>PUMP_RET_CUSTOM\<close> or \<open>PUMP_RET_NOSLEEP\<close>, or goes on to the steps
  that follow the \<open>switch\<close>.
\<close>

datatype pump_ret = PUMP_RET_CUSTOM | PUMP_RET_NOSLEEP

type_synonym pump_result = "(pump_ret option \<times> st_context \<times> cis_event list) option"

abbreviation (input) CIS_CONFIG_BOOTSTRAP_TIMEOUT :: int where "CIS_CONFIG_BOOTSTRAP_TIMEOUT \<equiv> 20"
abbreviation (input) CIS_CONFIG_CONNECT_RETRY_TIME :: int where "CIS_CONFIG_CONNECT_RETRY_TIME \<equiv> 2"
abbreviation (input) CIS_CONFIG_REG_INTERVAL_TIME :: int where "CIS_CONFIG_REG_INTERVAL_TIME \<equiv> 5"

text \<open>\<open>lasttime == 0 || tv_sec - lasttime > interval\<close>.\<close>

definition time_over :: "st_context \<Rightarrow> int \<Rightarrow> int \<Rightarrow> bool option" where
  "time_over cx now interval =
     (if cx_lasttime cx = 0 then Some True
      else map_option (\<lambda>since. interval < since) (time32 (now - cx_lasttime cx)))"

definition noting :: "int \<Rightarrow> st_context \<Rightarrow> st_context" where
  "noting now cx = cx\<lparr>cx_lasttime := now\<rparr>"

text \<open>A function of the bootstrap, after which the pump returns \<open>PUMP_RET_NOSLEEP\<close>.\<close>

definition no_sleep :: "cis_event list \<Rightarrow> (st_context \<times> cis_event list) option \<Rightarrow> pump_result" where
  "no_sleep evs r = map_option (\<lambda>(cx, evs'). (Some PUMP_RET_NOSLEEP, cx, evs @ evs')) r"

definition pump_bootstrap_status ::
  "cis_env \<Rightarrow> st_context \<Rightarrow> int \<Rightarrow> cis_event list \<Rightarrow> pump_result" where
  "pump_bootstrap_status env cx now evs =
     (case bootstrap_getStatus cx of
        STATE_UNCREATED \<Rightarrow> no_sleep evs (bootstrap_create env (noting now cx))
      | STATE_CREATED \<Rightarrow> no_sleep evs (bootstrap_connect env (noting now cx))
      | STATE_CONNECT_PENDING \<Rightarrow> do {
          over \<leftarrow> time_over cx now CIS_CONFIG_CONNECT_RETRY_TIME;
          no_sleep evs (if over then bootstrap_connect env (noting now cx) else Some (cx, [])) }
      | STATE_BS_INITIATED \<Rightarrow> Some (None, cx, evs)
      | STATE_BS_PENDING \<Rightarrow> do {
          over \<leftarrow> time_over cx now CIS_CONFIG_BOOTSTRAP_TIMEOUT;
          Some (None, if over then set_bootstrap_status STATE_BS_FAILED (noting now cx) else cx, evs) }
      | STATE_BS_FINISHED \<Rightarrow>
          (let (cx, closed) = bootstrap_destory cx; cx = core_updatePumpState cx PUMP_STATE_CONNECTING
           in Some (Some PUMP_RET_NOSLEEP, cx,
                    evs @ closed @ core_callbackEvent cx CIS_EVENT_BOOTSTRAP_SUCCESS 0))
      | STATE_BS_FAILED \<Rightarrow>
          (let (cx, closed) = bootstrap_destory cx; cx = core_updatePumpState cx PUMP_STATE_INITIAL
           in Some (Some PUMP_RET_CUSTOM, cx,
                    evs @ closed @ core_callbackEvent cx CIS_EVENT_BOOTSTRAP_FAILED 0))
      | _ \<Rightarrow> map_option (\<lambda>(cx, evs'). (None, cx, evs @ evs')) (bootstrap_step env cx now))"

definition pump_bootstrapping :: "cis_env \<Rightarrow> st_context \<Rightarrow> int \<Rightarrow> pump_result" where
  "pump_bootstrapping env cx now =
     (if \<not> cx_bootstrapEanbled cx
      then Some (Some PUMP_RET_NOSLEEP, core_updatePumpState cx PUMP_STATE_CONNECTING, [])
      else if cx_bootstrapServer cx \<noteq> None then pump_bootstrap_status env cx now []
      else do {
        let evs = core_callbackEvent cx CIS_EVENT_BOOTSTRAP_START 0;
        cx \<leftarrow> bootstrap_init env cx;
        if cx_bootstrapServer cx = None then Some (Some PUMP_RET_CUSTOM, cx, evs)
        else pump_bootstrap_status env cx now evs })"

definition give_up_connecting :: "st_context \<Rightarrow> cis_event list \<Rightarrow> pump_result" where
  "give_up_connecting cx evs = Some (Some PUMP_RET_CUSTOM, core_updatePumpState cx PUMP_STATE_INITIAL, evs)"

text \<open>\<open>prv_deleteServer\<close> closes both servers.\<close>

definition prv_deleteServer :: "st_context \<Rightarrow> st_context \<times> cis_event list" where
  "prv_deleteServer cx =
     (cx\<lparr>cx_server := None, cx_bootstrapServer := None\<rparr>,
      management_destoryServer (cx_server cx) @ management_destoryServer (cx_bootstrapServer cx))"

definition pump_connect :: "cis_env \<Rightarrow> st_context \<Rightarrow> st_server \<Rightarrow> int \<Rightarrow> pump_result" where
  "pump_connect env cx s now =
     (let (connecting, s, evs) = management_connectServer env s;
          cx = (noting now cx)\<lparr>cx_server := Some s\<rparr>
      in if connecting then Some (Some PUMP_RET_NOSLEEP, cx, evs) else give_up_connecting cx evs)"

definition pump_server_status :: "cis_env \<Rightarrow> st_context \<Rightarrow> st_server \<Rightarrow> int \<Rightarrow> pump_result" where
  "pump_server_status env cx s now =
     (case sv_status s of
        STATE_UNCREATED \<Rightarrow>
          (let (created, s, evs) = management_createNetwork env s;
               cx = (noting now cx)\<lparr>cx_server := Some s\<rparr>
           in if created then Some (Some PUMP_RET_NOSLEEP, cx, evs) else give_up_connecting cx evs)
      | STATE_CREATED \<Rightarrow>
          if sv_sessionH s = None then give_up_connecting cx [] else pump_connect env cx s now
      | STATE_CONNECT_PENDING \<Rightarrow>
          if sv_sessionH s = None then give_up_connecting cx []
          else do {
            over \<leftarrow> time_over cx now CIS_CONFIG_CONNECT_RETRY_TIME;
            if over then pump_connect env cx s now else Some (Some PUMP_RET_NOSLEEP, cx, []) }
      | STATE_CONNECTED \<Rightarrow>
          (let cx = core_updatePumpState (noting 0 cx) PUMP_STATE_REGISTER_REQUIRED
           in Some (Some PUMP_RET_NOSLEEP, cx, core_callbackEvent cx CIS_EVENT_CONNECT_SUCCESS 0))
      | STATE_CONNECT_FAILED \<Rightarrow>
          (let (cx, closed) = prv_deleteServer cx; cx = core_updatePumpState cx PUMP_STATE_INITIAL
           in Some (Some PUMP_RET_CUSTOM, cx, closed @ core_callbackEvent cx CIS_EVENT_CONNECT_FAILED 0))
      | _ \<Rightarrow> Some (None, cx, []))"

definition pump_connecting :: "cis_env \<Rightarrow> st_context \<Rightarrow> int \<Rightarrow> pump_result" where
  "pump_connecting env cx now =
     (case cx_server cx of
        Some s \<Rightarrow> pump_server_status env cx s now
      | None \<Rightarrow> do {
          servers \<leftarrow> management_makeServerList env cx False;
          case servers of
            [] \<Rightarrow> give_up_connecting cx []
          | s # _ \<Rightarrow> pump_server_status env (cx\<lparr>cx_server := Some s\<rparr>) s now })"

text \<open>The servers and everything that hangs on them, objects excepted.\<close>

definition clear_session :: "st_context \<Rightarrow> st_context \<times> cis_event list" where
  "clear_session cx =
     (let (cx, closed) = prv_deleteServer cx;
          cx = observe_removeAll cx;
          cx = cx\<lparr>cx_transactionList := transaction_removeAll (cx_transactionList cx)\<rparr>
      in (packet_asynRemoveNotifyAll (packet_asynRemoveRequestAll cx), closed))"

definition pump_disconnected :: "st_context \<Rightarrow> pump_result" where
  "pump_disconnected cx =
     (let (cx, closed) = clear_session cx
      in Some (Some PUMP_RET_NOSLEEP, core_updatePumpState cx PUMP_STATE_CONNECTING, closed))"

definition pump_unregister :: "cis_env \<Rightarrow> st_context \<Rightarrow> pump_result" where
  "pump_unregister env cx = do {
     (cx, evs) \<leftarrow> registration_deregister env cx;
     let (cx, closed) = clear_session cx;
     let cx = (if cx_isDM cx then cx else cx\<lparr>cx_registerEnabled := False\<rparr>);
     let cx = core_updatePumpState cx PUMP_STATE_CONNECTING;
     Some (Some PUMP_RET_NOSLEEP, cx, evs @ closed @ core_callbackEvent cx CIS_EVENT_UNREG_DONE 0) }"

definition pump_register_required :: "cis_env \<Rightarrow> st_context \<Rightarrow> int \<Rightarrow> pump_result" where
  "pump_register_required env cx now = do {
     over \<leftarrow> time_over cx now CIS_CONFIG_REG_INTERVAL_TIME;
     if \<not> over then Some (None, cx, [])
     else do {
       (result, cx, evs) \<leftarrow> registration_start env cx;
       if result \<noteq> COAP_NO_ERROR then Some (Some PUMP_RET_CUSTOM, cx, evs)
       else Some (None, noting now (core_updatePumpState cx PUMP_STATE_REGISTERING), evs) } }"

definition pump_registering :: "st_context \<Rightarrow> pump_result" where
  "pump_registering cx =
     (case registration_getStatus cx of
        STATE_REGISTERED \<Rightarrow>
          Some (Some PUMP_RET_NOSLEEP, core_updatePumpState (noting 0 cx) PUMP_STATE_READY, [])
      | STATE_REG_FAILED \<Rightarrow>
          Some (Some PUMP_RET_CUSTOM, core_updatePumpState cx PUMP_STATE_DISCONNECTED, [])
      | _ \<Rightarrow> Some (None, cx, []))"

definition pump_ready :: "st_context \<Rightarrow> pump_result" where
  "pump_ready cx =
     (if registration_getStatus cx = STATE_REG_FAILED
      then Some (Some PUMP_RET_NOSLEEP, core_updatePumpState cx PUMP_STATE_DISCONNECTED, [])
      else Some (None, cx, []))"

text \<open>
  In \<open>PUMP_STATE_HALT\<close> the context is freed and its pointer set to null before the state is assigned
  through it: \<open>None\<close>.
\<close>

definition pump_switch :: "cis_env \<Rightarrow> st_context \<Rightarrow> int \<Rightarrow> pump_result" where
  "pump_switch env cx now =
     (case cx_stateStep cx of
        PUMP_STATE_HALT \<Rightarrow> None
      | PUMP_STATE_INITIAL \<Rightarrow>
          Some (Some PUMP_RET_NOSLEEP, core_updatePumpState cx PUMP_STATE_BOOTSTRAPPING, [])
      | PUMP_STATE_BOOTSTRAPPING \<Rightarrow> pump_bootstrapping env cx now
      | PUMP_STATE_CONNECTING \<Rightarrow> pump_connecting env cx now
      | PUMP_STATE_DISCONNECTED \<Rightarrow> pump_disconnected cx
      | PUMP_STATE_UNREGISTER \<Rightarrow> pump_unregister env cx
      | PUMP_STATE_REGISTER_REQUIRED \<Rightarrow> pump_register_required env cx now
      | PUMP_STATE_REGISTERING \<Rightarrow> pump_registering cx
      | PUMP_STATE_READY \<Rightarrow> pump_ready cx)"

section \<open>The pump\<close>

text \<open>The steps behind the \<open>switch\<close>, and whether there is something left to do.\<close>

definition pump_steps :: "cis_env \<Rightarrow> st_context \<Rightarrow> int \<Rightarrow> (pump_ret \<times> st_context \<times> cis_event list) option" where
  "pump_steps env cx now = do {
     (cx, evs1) \<leftarrow> registration_step env cx now;
     (cx, evs2) \<leftarrow> context_transaction_step env cx now;
     (cx, evs3) \<leftarrow> packet_step env cx now;
     (readHasData, cx, evs4) \<leftarrow> packet_read env cx;
     let evs = evs1 @ evs2 @ evs3 @ evs4;
     if readHasData \<or> cx_stateStep cx \<noteq> PUMP_STATE_READY \<or> transaction_count (cx_transactionList cx) \<noteq> 0
     then Some (PUMP_RET_NOSLEEP, cx, evs)
     else do {
       since \<leftarrow> time32 (now - cx_lasttime cx);
       if since < 1 \<or> cx_requestList cx \<noteq> [] \<or> cx_notifyList cx \<noteq> []
       then Some (PUMP_RET_NOSLEEP, cx, evs)
       else Some (PUMP_RET_CUSTOM, noting now cx, evs) } }"

definition cis_pump :: "cis_env \<Rightarrow> st_context \<Rightarrow> (pump_ret \<times> st_context \<times> cis_event list) option" where
  "cis_pump env cx =
     (if pf_time env \<le> 0 \<or> \<not> cx_registerEnabled cx \<or> \<not> env_net_attached env
      then Some (PUMP_RET_CUSTOM, cx, [])
      else do {
        (ret, cx, evs) \<leftarrow> pump_switch env cx (pf_time env);
        case ret of
          Some r \<Rightarrow> Some (r, cx, evs)
        | None \<Rightarrow> map_option (\<lambda>(r, cx, evs'). (r, cx, evs @ evs')) (pump_steps env cx (pf_time env)) })"

end
