(* ===== verification/Cis_Invariant.thy ===== *)
theory Cis_Invariant
  imports Cis_Pump "HOL-Library.Multiset"
begin

text \<open>
  The invariant of the client's state, \<open>cx_ok\<close>, and that the operations of one component after the
  other preserve it. \<open>keeps m Q\<close> is partial correctness: what an operation yields, if it is defined,
  satisfies \<open>Q\<close>.
\<close>

section \<open>Partial correctness\<close>

definition keeps :: "'a option \<Rightarrow> ('a \<Rightarrow> bool) \<Rightarrow> bool" where
  "keeps m Q \<longleftrightarrow> (\<forall>x. m = Some x \<longrightarrow> Q x)"

lemma keeps_Some [simp]: "keeps (Some x) Q = Q x"
  by (simp add: keeps_def)

lemma keeps_None [simp]: "keeps None Q"
  by (simp add: keeps_def)

lemma keeps_bind [simp]: "keeps (m \<bind> f) Q = keeps m (\<lambda>x. keeps (f x) Q)"
  by (cases m) simp_all

lemma keeps_map_option [simp]: "keeps (map_option f m) Q = keeps m (\<lambda>x. Q (f x))"
  by (cases m) simp_all

lemma keeps_const [simp]: "keeps m (\<lambda>x. P) \<longleftrightarrow> (m = None \<or> P)"
  by (cases m) (simp_all add: keeps_def)

lemma keepsI: "(\<And>x. m = Some x \<Longrightarrow> Q x) \<Longrightarrow> keeps m Q"
  by (simp add: keeps_def)

lemma keepsD: "keeps m Q \<Longrightarrow> m = Some x \<Longrightarrow> Q x"
  by (simp add: keeps_def)

text \<open>Skipping an operation about whose result nothing is needed.\<close>

lemma keeps_skip: "(\<And>x. keeps (f x) (Q x)) \<Longrightarrow> keeps m (\<lambda>x. keeps (f x) (Q x))"
  by (simp add: keeps_def)

lemma keeps_any: "(\<And>x. Q x) \<Longrightarrow> keeps m Q"
  by (simp add: keeps_def)

lemma keeps_mono: "keeps m P \<Longrightarrow> (\<And>x. P x \<Longrightarrow> Q x) \<Longrightarrow> keeps m Q"
  by (simp add: keeps_def)

section \<open>Observations\<close>

text \<open>What \<open>prv_findObserved\<close> compares.\<close>

definition uri_key :: "st_uri \<Rightarrow> u16 \<times> u16 option \<times> u16 option" where
  "uri_key u = (uri_objectId u,
     if CIS_URI_IS_SET_INSTANCE u then Some (uri_instanceId u) else None,
     if CIS_URI_IS_SET_RESOURCE u then Some (uri_resourceId u) else None)"

lemma observed_matches_key: "observed_matches uri t \<longleftrightarrow> uri_key uri = uri_key (ob_uri t)"
  by (auto simp: observed_matches_def uri_key_def)

text \<open>A token fits its field, values are collected in one slot, and reports are sent as plain text.\<close>

definition observed_ok :: "st_observed \<Rightarrow> bool" where
  "observed_ok t \<longleftrightarrow> length (ob_token t) = 8 \<and> ob_tokenLen t \<le> 8 \<and> ob_format t = LWM2M_CONTENT_TEXT \<and>
     (case ob_reportData t of None \<Rightarrow> True | Some ds \<Rightarrow> length ds = 1)"

definition observations_ok :: "st_observed list \<Rightarrow> bool" where
  "observations_ok l \<longleftrightarrow> distinct (map (\<lambda>t. uri_key (ob_uri t)) l) \<and> list_all observed_ok l"

lemma find_observed_Some: "find_observed P l = Some i \<Longrightarrow> i < length l \<and> P (l ! i)"
  by (induction l arbitrary: i) (auto split: if_splits)

lemma find_observed_None: "find_observed P l = None \<longleftrightarrow> (\<forall>t \<in> set l. \<not> P t)"
  by (induction l) (auto split: if_splits)

lemma set_unlink_node: "set (unlink_node l i) \<subseteq> set l"
  by (induction l i rule: unlink_node.induct) auto

lemma map_unlink_node: "map f (unlink_node l i) = unlink_node (map f l) i"
  by (induction l i rule: unlink_node.induct) auto

lemma distinct_unlink_node: "distinct l \<Longrightarrow> distinct (unlink_node l i)"
  by (induction l i rule: unlink_node.induct) (auto dest: subsetD [OF set_unlink_node])

lemma observations_ok_unlink: "observations_ok l \<Longrightarrow> observations_ok (unlink_node l i)"
  using set_unlink_node [of l i]
  by (auto simp: observations_ok_def map_unlink_node distinct_unlink_node list_all_iff)

lemma observations_ok_update:
  assumes "observations_ok l" and "\<And>t. ob_uri (f t) = ob_uri t" and "\<And>t. observed_ok t \<Longrightarrow> observed_ok (f t)"
  shows "observations_ok (l[i := f (l ! i)])"
proof (cases "i < length l")
  case True
  have "map (\<lambda>t. uri_key (ob_uri t)) (l[i := f (l ! i)]) = map (\<lambda>t. uri_key (ob_uri t)) l"
    using True by (simp add: map_update assms(2) list_update_same_conv)
  with assms True show ?thesis
    by (auto simp: observations_ok_def list_all_length nth_list_update)
qed (use assms(1) in \<open>simp add: list_update_beyond\<close>)

lemma new_observed_ok [simp]: "observed_ok (new_observed uri)" "ob_uri (new_observed uri) = uri"
  by (simp_all add: new_observed_def observed_ok_def)

lemma add_after_mset: "mset (cis_list_add_after idf n xs) = add_mset n (mset xs)"
  by (induction xs) auto

lemma cis_list_add_mset: "mset (cis_list_add idf xs n) = add_mset n (mset xs)"
  by (auto simp: cis_list_add_def add_after_mset split: list.splits)

lemma cis_list_add_not_Nil [simp]: "cis_list_add idf xs n \<noteq> []"
  using length_cis_list_add [of idf xs n] by fastforce

lemma observations_ok_add:
  assumes "observations_ok l" and "find_observed (observed_matches uri) l = None"
  shows "observations_ok (cis_list_add ob_msgid l (new_observed uri))"
proof -
  let ?k = "\<lambda>t. uri_key (ob_uri t)"
  have "mset (map ?k (cis_list_add ob_msgid l (new_observed uri))) = mset (uri_key uri # map ?k l)"
    by (simp add: cis_list_add_mset)
  moreover have "distinct (uri_key uri # map ?k l)"
    using assms by (auto simp: observations_ok_def find_observed_None observed_matches_key)
  ultimately have "distinct (map ?k (cis_list_add ob_msgid l (new_observed uri)))"
    using mset_eq_imp_distinct_iff by blast
  with assms(1) show ?thesis by (auto simp: observations_ok_def list_all_iff)
qed

section \<open>The context\<close>

definition request_ok :: "st_request \<Rightarrow> bool" where
  "request_ok r \<longleftrightarrow> length (rq_token r) = 8 \<and> rq_tokenLen r \<le> 8"

text \<open>The bitmap has the bytes it says and room for every instance.\<close>

definition object_ok :: "st_object \<Rightarrow> bool" where
  "object_ok o' \<longleftrightarrow>
     (case oj_instBitmapPtr o' of
        None \<Rightarrow> True
      | Some bs \<Rightarrow> length bs = unat (oj_instBitmapBytes o') \<and>
                   unat (oj_instBitmapCount o') \<le> 8 * unat (oj_instBitmapBytes o'))"

text \<open>The states in which the pump uses the server without a test.\<close>

definition needs_server :: "et_client_state \<Rightarrow> bool" where
  "needs_server s \<longleftrightarrow> s = PUMP_STATE_REGISTER_REQUIRED \<or> s = PUMP_STATE_REGISTERING \<or> s = PUMP_STATE_READY"

definition cx_ok :: "st_context \<Rightarrow> bool" where
  "cx_ok cx \<longleftrightarrow>
     cis_list_ok rq_mid (cx_requestList cx) \<and> list_all request_ok (cx_requestList cx) \<and>
     observations_ok (cx_observedList cx) \<and>
     cis_list_ok oj_objID (cx_objectList cx) \<and> list_all object_ok (cx_objectList cx) \<and>
     (needs_server (cx_stateStep cx) \<longrightarrow> cx_server cx \<noteq> None)"

text \<open>The fields that the invariant does not speak about.\<close>

lemma cx_ok_frame [simp]:
  "cx_ok (cx\<lparr>cx_nextMid := a\<rparr>) = cx_ok cx"
  "cx_ok (cx\<lparr>cx_nextObserveNum := a\<rparr>) = cx_ok cx"
  "cx_ok (cx\<lparr>cx_nextNotifyId := b\<rparr>) = cx_ok cx"
  "cx_ok (cx\<lparr>cx_notifyList := n\<rparr>) = cx_ok cx"
  "cx_ok (cx\<lparr>cx_transactionList := t\<rparr>) = cx_ok cx"
  "cx_ok (cx\<lparr>cx_transactionList := t, cx_replyOf := r\<rparr>) = cx_ok cx"
  "cx_ok (cx\<lparr>cx_transactionList := t, cx_bootstrapServer := s\<rparr>) = cx_ok cx"
  "cx_ok (cx\<lparr>cx_bootstrapServer := s\<rparr>) = cx_ok cx"
  "cx_ok (cx\<lparr>cx_instSecurity := i\<rparr>) = cx_ok cx"
  "cx_ok (cx\<lparr>cx_lifetime := l\<rparr>) = cx_ok cx"
  "cx_ok (cx\<lparr>cx_lasttime := l\<rparr>) = cx_ok cx"
  "cx_ok (cx\<lparr>cx_lifetimeWarnningTime := l\<rparr>) = cx_ok cx"
  "cx_ok (cx\<lparr>cx_registerEnabled := e\<rparr>) = cx_ok cx"
  "cx_ok (cx\<lparr>cx_lifetime := l, cx_registerEnabled := e, cx_onEvent := e'\<rparr>) = cx_ok cx"
  "cx_ok (cx\<lparr>cx_errorMessage := m\<rparr>) = cx_ok cx"
  "cx_ok (cx\<lparr>cx_conn_inst := c\<rparr>) = cx_ok cx"
  "cx_ok (cx\<lparr>cx_moniter_inst := c\<rparr>) = cx_ok cx"
  "cx_ok (cx\<lparr>cx_moniter_created := e\<rparr>) = cx_ok cx"
  by (simp_all add: cx_ok_def)

lemma cx_ok_server [simp]:
  "cx_ok cx \<Longrightarrow> cx_ok (cx\<lparr>cx_server := Some s\<rparr>)"
  "cx_ok cx \<Longrightarrow> cx_ok (cx\<lparr>cx_server := map_option f (cx_server cx)\<rparr>)"
  "cx_ok cx \<Longrightarrow> cx_ok (cx\<lparr>cx_server := map_option f (cx_server cx), cx_lifetimeWarnningTime := l\<rparr>)"
  by (auto simp: cx_ok_def)

lemma cx_ok_state:
  "cx_ok cx \<Longrightarrow> (needs_server s \<longrightarrow> cx_server cx \<noteq> None) \<Longrightarrow> cx_ok (core_updatePumpState cx s)"
  by (simp add: cx_ok_def core_updatePumpState_def)

lemma cx_ok_state_idle [simp]: "cx_ok cx \<Longrightarrow> \<not> needs_server s \<Longrightarrow> cx_ok (core_updatePumpState cx s)"
  by (simp add: cx_ok_state)

lemma needs_server_states [simp]:
  "\<not> needs_server PUMP_STATE_HALT" "\<not> needs_server PUMP_STATE_INITIAL"
  "\<not> needs_server PUMP_STATE_BOOTSTRAPPING" "\<not> needs_server PUMP_STATE_CONNECTING"
  "\<not> needs_server PUMP_STATE_DISCONNECTED" "\<not> needs_server PUMP_STATE_UNREGISTER"
  "needs_server PUMP_STATE_REGISTER_REQUIRED" "needs_server PUMP_STATE_REGISTERING"
  "needs_server PUMP_STATE_READY"
  by (simp_all add: needs_server_def)

text \<open>What the parameters promise.\<close>

definition env_ok :: "cis_env \<Rightarrow> bool" where
  "env_ok env \<longleftrightarrow> length (env_noise8 env) = 8 \<and>
     (\<forall>n d. pf_malloc env n = Some d \<longrightarrow> length d = unat n)"

section \<open>Requests\<close>

lemma ablit_token:
  assumes "length dst = 8"
  shows "keeps (do { tok \<leftarrow> aslice tok 0 (unat (n :: u8)); ablit dst 0 tok }) (\<lambda>t. length t = 8 \<and> n \<le> 8)"
  using assms by (auto simp: aslice_def ablit_def word_le_nat_alt)

lemma push_request_ok:
  assumes "env_ok env" and "cx_ok cx"
  shows "keeps (packet_asynPushRequest env cx packet type mid) (\<lambda>(_, cx). cx_ok cx)"
proof (cases "cis_list_find rq_mid (cx_requestList cx) mid")
  case None
  from assms(2) None have new: "mid \<notin> rq_mid ` set (cx_requestList cx)"
    using cis_list_find_None by (auto simp: cx_ok_def)
  have add: "cx_ok (cx\<lparr>cx_requestList := cis_list_add rq_mid (cx_requestList cx) r\<rparr>)"
    if "rq_mid r = mid" and "request_ok r" for r
    using assms(2) that new by (auto simp: cx_ok_def cis_list_add_ok list_all_iff)
  have "length (env_noise8 env) = 8" using assms(1) by (simp add: env_ok_def)
  with None assms(2) show ?thesis
    by (auto simp: packet_asynPushRequest_def Let_def aslice_def ablit_def word_le_nat_alt request_ok_def
        intro!: keeps_any add split: sum.split)
qed (use assms in \<open>simp add: packet_asynPushRequest_def\<close>)

lemma requests_ok_filter:
  assumes "cx_ok cx"
  shows "cx_ok (cx\<lparr>cx_requestList := filter P (cx_requestList cx)\<rparr>)"
  using assms by (auto simp: cx_ok_def cis_list_ok_filter list_all_iff)

lemma remove_request_ok: "cx_ok cx \<Longrightarrow> keeps (packet_asynRemoveRequest cx mid) cx_ok"
  by (auto simp: packet_asynRemoveRequest_def cis_list_remove_filter cx_ok_def cis_list_ok_filter list_all_iff
      split: option.split)

lemma request_timeout_ok: "cx_ok cx \<Longrightarrow> keeps (request_timeout_loop now rs cx) cx_ok"
proof (induction rs arbitrary: cx)
  case (Cons r rs)
  have "keeps (packet_asynRemoveRequest cx (rq_mid r)) (\<lambda>cx. keeps (request_timeout_loop now rs cx) cx_ok)"
    using remove_request_ok [OF Cons.prems] by (rule keeps_mono) (rule Cons.IH)
  with Cons show ?case by (auto intro!: keeps_skip)
qed simp

lemma enqueue_ok: "cx_ok cx \<Longrightarrow> keeps (enqueue_notify env cx isResponse uri data mid result) (\<lambda>(_, cx). cx_ok cx)"
  by (auto simp: enqueue_notify_def Let_def intro!: keeps_skip split: sum.split)

lemma response_ok:
  "cx_ok cx \<Longrightarrow> keeps (cis_response env cx uri data mid result) (\<lambda>(_, cx). cx_ok cx)"
  "cx_ok cx \<Longrightarrow> keeps (cis_notify env cx uri data mid result) (\<lambda>(_, cx). cx_ok cx)"
  by (simp_all add: cis_response_def cis_notify_def enqueue_ok)

section \<open>Observations\<close>

lemma get_observed_ok:
  assumes "cx_ok cx" and "prv_getObserved env cx uri = (r, cx')"
  shows "cx_ok cx'" and "r = Some i \<Longrightarrow> length (ob_token (cx_observedList cx' ! i)) = 8"
proof -
  show ok: "cx_ok cx'"
    using assms
    by (auto simp: prv_getObserved_def cx_ok_def observations_ok_add split: option.splits if_splits)
  assume r: "r = Some i"
  have "i < length (cx_observedList cx')"
    using assms(2) r
    by (auto simp: prv_getObserved_def new_place_def split: option.splits if_splits list.splits dest: find_observed_Some)
  moreover have "list_all observed_ok (cx_observedList cx')"
    using ok by (simp add: cx_ok_def observations_ok_def)
  ultimately show "length (ob_token (cx_observedList cx' ! i)) = 8"
    by (simp add: list_all_length observed_ok_def)
qed

lemma update_observed_ok:
  assumes "cx_ok cx" and "\<And>t. ob_uri (f t) = ob_uri t" and "\<And>t. observed_ok t \<Longrightarrow> observed_ok (f t)"
  shows "cx_ok (update_observed i f cx)"
  using assms observations_ok_update [of "cx_observedList cx" f i] by (simp add: cx_ok_def update_observed_def)

lemma unlink_observed_ok: "cx_ok cx \<Longrightarrow> cx_ok (prv_unlinkObserved cx i)"
  by (simp add: cx_ok_def prv_unlinkObserved_def observations_ok_unlink)

lemma observe_cancel_ok: "cx_ok cx \<Longrightarrow> keeps (observe_cancel cx mid uri) cx_ok"
  by (auto simp: observe_cancel_def unlink_observed_ok intro!: keeps_skip split: option.split)

lemma observe_removeAll_ok [simp]: "observe_removeAll_loop l = []"
  by (induction l) simp_all

lemma ack_observe_ok:
  assumes "cx_ok cx"
  shows "keeps (ack_observe env cx request result packet)
           (\<lambda>r. case r of Inl _ \<Rightarrow> True | Inr (cx, _) \<Rightarrow> cx_ok cx)"
proof -
  obtain r cx' where g: "prv_getObserved env cx (rq_uri request) = (r, cx')" by fastforce
  show ?thesis
    using assms get_observed_ok [OF assms g]
    by (auto simp: ack_observe_def Let_def g token_of_request_def aslice_def ablit_def observed_ok_def
        word_le_nat_alt intro!: keeps_skip update_observed_ok split: option.split)
qed

lemma observe_asynAckNodata_ok:
  assumes "cx_ok cx"
  shows "keeps (observe_asynAckNodata env cx request result) (\<lambda>(_, cx, _). cx_ok cx)"
proof -
  let ?Q = "\<lambda>r. case r of Inl (_ :: u8) \<Rightarrow> True | Inr (cx, _ :: coap_packet) \<Rightarrow> cx_ok cx"
  have "keeps (case rq_type request of
                CALLBACK_TYPE_OBSERVE \<Rightarrow> ack_observe env cx request result packet
              | CALLBACK_TYPE_OBSERVE_CANCEL \<Rightarrow> do {
                  found \<leftarrow> prv_findObserved cx (Some (rq_uri request));
                  if found = None then Some (Inl COAP_500_INTERNAL_SERVER_ERROR)
                  else do {
                    cx \<leftarrow> observe_cancel cx MESSAGEID_INVALID (Some (rq_uri request));
                    Some (Inr (cx, packet)) } }
              | CALLBACK_TYPE_OBSERVE_PARAMS \<Rightarrow> do {
                  found \<leftarrow> prv_findObserved cx (Some (rq_uri request));
                  Some (if found = None then Inl COAP_500_INTERNAL_SERVER_ERROR else Inr (cx, packet)) }
              | _ \<Rightarrow> Some (Inl COAP_400_BAD_REQUEST)) ?Q" for packet
    using assms
    by (auto simp: ack_observe_ok observe_cancel_ok intro!: keeps_skip split: et_callback_type.split)
  note change = keeps_mono [OF this]
  show ?thesis
    using assms unfolding observe_asynAckNodata_def
    by (auto intro!: keeps_skip change split: sum.splits)
qed

lemma observe_asynReport_ok:
  "cx_ok cx \<Longrightarrow> keeps (observe_asynReport env cx i) (\<lambda>(_, cx, _). cx_ok cx)"
  by (auto simp: observe_asynReport_def Let_def observed_ok_def intro!: keeps_skip update_observed_ok
      split: option.split)

lemma observe_handleRequest_ok:
  assumes "env_ok env" and "cx_ok cx"
  shows "keeps (observe_handleRequest env cx uri message) (\<lambda>(_, cx, _). cx_ok cx)"
proof -
  have push: "keeps (packet_asynPushRequest env cx' message type mid) (\<lambda>x. cx_ok (snd x))"
    if "cx_ok cx'" for cx' type mid
    using push_request_ok [OF assms(1) that] by (rule keeps_mono) auto
  have "cx_ok (snd (snd (observe_id cx mid)))" for mid
    using assms(2) by (auto simp: observe_id_def Let_def split: option.split)
  with assms(2) push show ?thesis
    by (auto simp: observe_handleRequest_def Let_def split_beta intro!: keeps_skip intro: keeps_any)
qed

lemma observe_setParameters_ok:
  assumes "env_ok env" and "cx_ok cx"
  shows "keeps (observe_setParameters env cx uri attr message) (\<lambda>(_, cx, _). cx_ok cx)"
proof -
  obtain r cx' where g: "prv_getObserved env cx uri = (r, cx')" by fastforce
  have ok: "cx_ok cx'" by (rule get_observed_ok(1) [OF assms(2) g])
  have upd: "cx_ok (update_observed i (\<lambda>t. t\<lparr>ob_parameters := new\<rparr>) cx')" for i new
    by (rule update_observed_ok [OF ok]) (simp_all add: observed_ok_def)
  have push: "keeps (packet_asynPushRequest env (update_observed i (\<lambda>t. t\<lparr>ob_parameters := new\<rparr>) cx') message type mid)
      (\<lambda>x. cx_ok (snd x))" for i new type mid
    using push_request_ok [OF assms(1) upd] by (rule keeps_mono) auto
  show ?thesis
    using assms ok upd push
    by (auto simp: observe_setParameters_def Let_def g split_beta intro!: keeps_skip split: option.split)
qed

section \<open>Objects\<close>

text \<open>An object that is added has the bitmap its caller describes.\<close>

lemma new_object_room:
  assumes "int (unat m) = (uint n - 1) div 8 + 1"
  shows "unat (n :: u16) \<le> 8 * unat (m :: u16)"
proof -
  have "uint n - 1 < 8 * ((uint n - 1) div 8 + 1)" by simp
  then have "int (unat n) \<le> int (8 * unat m)" unfolding assms [symmetric] by simp
  then show ?thesis by linarith
qed

lemma add_new_object_ok:
  assumes "cx_ok cx" and "prv_findObject cx objectid = None"
    and "oj_objID obj = ucast objectid" and "object_ok obj"
  shows "cx_ok (cx\<lparr>cx_objectList := cis_list_add oj_objID (cx_objectList cx) obj\<rparr>)"
proof -
  have "ucast objectid \<notin> oj_objID ` set (cx_objectList cx)"
    using assms cis_list_find_None by (auto simp: cx_ok_def prv_findObject_def)
  with assms show ?thesis by (auto simp: cx_ok_def cis_list_add_ok list_all_iff)
qed

lemma add_object_ok:
  assumes "cx_ok cx"
  shows "keeps (cis_addobject env cx objectid bitmap res) (\<lambda>(_, cx). cx_ok cx)"
proof (cases "prv_findObject cx objectid = None")
  case True
  note add = add_new_object_ok [OF assms True]
  show ?thesis
  proof (cases "\<exists>b bs. bitmap = Some b \<and> ib_instanceBitmap b = Some bs")
    case True
    then obtain b bs where b: "bitmap = Some b" "ib_instanceBitmap b = Some bs" by blast
    show ?thesis
      by (auto simp: cis_addobject_def Let_def b assms aslice_def object_ok_def
          intro!: keeps_any add new_object_room simp del: add_0)
  next
    case False
    then have none: "(case bitmap of None \<Rightarrow> (1, 1, None) | Some b \<Rightarrow> (case ib_instanceBitmap b of
        None \<Rightarrow> (1, 1, None) | Some bs \<Rightarrow> (ib_instanceCount b, ib_instanceBytes b, Some bs)))
      = (1 :: u16, 1 :: u16, None :: bytes option)"
      by (auto split: option.split)
    show ?thesis
      unfolding cis_addobject_def none Let_def
      by (auto simp: assms object_ok_def intro!: keeps_any add)
  qed
qed (use assms in \<open>simp add: cis_addobject_def split_beta Let_def\<close>)

lemma delete_object_ok: "cx_ok cx \<Longrightarrow> cx_ok (snd (cis_delobject cx objectid))"
  by (auto simp: cis_delobject_def cis_list_remove_filter cx_ok_def cis_list_ok_filter list_all_iff)

section \<open>The monitor objects\<close>

lemma write_object_ok:
  assumes "cx_ok cx" and "object_ok obj"
  shows "cx_ok (write_object obj cx)"
proof -
  have same: "oj_objID (if oj_objID t = oj_objID obj then obj else t) = oj_objID t" for t by simp
  have "cis_list_ok oj_objID (map (\<lambda>t. if oj_objID t = oj_objID obj then obj else t) l) = cis_list_ok oj_objID l" for l
    unfolding cis_list_ok_def sorted_wrt_map same ..
  then show ?thesis
    using assms by (auto simp: cx_ok_def write_object_def list_all_iff)
qed

lemma instance_bits_length: "keeps (instance_bits ts bitmap) (\<lambda>b. length b = length bitmap)"
proof (induction ts arbitrary: bitmap)
  case (Cons t ts)
  show ?case
    by (auto simp: aload_def astore_def Let_def intro: keeps_mono [OF Cons.IH])
qed simp

lemma room_of_byte_count:
  assumes "(n :: u8) \<noteq> 0" and "ucast ((n - 1) div 8 + 1) \<le> (m :: u16)"
  shows "unat n \<le> 8 * unat m"
proof -
  have n: "unat (n - 1) = unat n - 1" using assms(1) by (rule unat_minus_one)
  have d: "unat ((n - 1) div 8) = (unat n - 1) div 8" by (simp add: unat_div n)
  have "unat n < 2 ^ 8" using unsigned_less [of n, where 'a = nat] by simp
  moreover have "0 < unat n" using assms(1) by (simp add: word_unat_eq_iff)
  ultimately have "(unat n - 1) div 8 + 1 < 2 ^ 8" using div_le_dividend [of "unat n - 1" 8] by linarith
  then have "unat ((n - 1) div 8 + 1) = (unat n - 1) div 8 + 1"
    using unat_word_ariths(1) [of "(n - 1) div 8" 1] by (simp add: d)
  moreover have "unat (ucast ((n - 1) div 8 + 1) :: u16) = unat ((n - 1) div 8 + 1)"
    by (simp add: unsigned_ucast_eq)
  ultimately have "(unat n - 1) div 8 + 1 \<le> unat m" using assms(2) by (simp add: word_le_nat_alt)
  then show ?thesis by arith
qed

lemma grow_instances_ok:
  assumes "\<And>n d. (mal :: allocator) n = Some d \<Longrightarrow> length d = unat n" and "object_ok obj"
  shows "keeps (grow_instances mal insts obj) (\<lambda>(_, o'). object_ok o' \<and> oj_objID o' = oj_objID obj)"
proof -
  define n where "n = (ucast (cis_list_count insts) :: u8)"
  define bytes where "bytes = (n - 1) div 8 + 1"
  define obj1 where "obj1 = obj\<lparr>oj_instBitmapCount := ucast n\<rparr>"
  define obj2 where "obj2 = (if oj_instBitmapBytes obj1 < ucast bytes
    then obj1\<lparr>oj_instBitmapPtr := mal (ucast bytes), oj_instBitmapBytes := ucast bytes\<rparr> else obj1)"
  have u: "unat (ucast bytes :: u32) = unat (ucast bytes :: u16)" by (simp add: unsigned_ucast_eq)
  have good: "object_ok (obj2\<lparr>oj_instBitmapPtr := Some bitmap\<rparr>)"
    if "n \<noteq> 0" and "oj_instBitmapPtr obj2 = Some old" and "length bitmap = length old" for old bitmap
  proof -
    have "ucast bytes \<le> oj_instBitmapBytes obj2" by (auto simp: obj2_def)
    then have "unat n \<le> 8 * unat (oj_instBitmapBytes obj2)"
      unfolding bytes_def by (rule room_of_byte_count [OF that(1)])
    moreover have "length old = unat (oj_instBitmapBytes obj2)"
      using assms(1) [of "ucast bytes"] assms(2) that(2)
      by (auto simp: u obj2_def obj1_def object_ok_def split: if_splits)
    moreover have "unat (oj_instBitmapCount obj2) = unat n"
      by (simp add: obj2_def obj1_def unsigned_ucast_eq)
    ultimately show ?thesis using that(3) by (simp add: object_ok_def)
  qed
  have id: "oj_objID obj2 = oj_objID obj" by (simp add: obj2_def obj1_def)
  have grown: "keeps (do { old \<leftarrow> oj_instBitmapPtr obj2; zeroed \<leftarrow> ablit old 0 zs; bitmap \<leftarrow> instance_bits ts zeroed;
      Some (True, obj2\<lparr>oj_instBitmapPtr := Some bitmap\<rparr>) }) (\<lambda>(_, o'). object_ok o' \<and> oj_objID o' = oj_objID obj)"
    if "n \<noteq> 0" for zs ts
  proof (cases "oj_instBitmapPtr obj2")
    case (Some old)
    have "keeps (instance_bits ts zeroed) (\<lambda>bitmap. object_ok (obj2\<lparr>oj_instBitmapPtr := Some bitmap\<rparr>))"
      if "length zeroed = length old" for zeroed
      using instance_bits_length by (rule keeps_mono) (simp add: good [OF \<open>n \<noteq> 0\<close> Some] that)
    then show ?thesis by (simp add: Some ablit_def id)
  qed simp
  then show ?thesis
    unfolding grow_instances_def Let_def n_def [symmetric]
    unfolding bytes_def [symmetric] obj1_def [symmetric] obj2_def [symmetric]
    using assms(2) by (simp del: keeps_bind)
qed

lemma create_instance_ok:
  assumes "env_ok env" and "cx_ok cx"
  shows "keeps (std_conn_moniter_create env cx i (prv_findObject cx oid)) (\<lambda>(_, cx). cx_ok cx)"
    and "keeps (std_moniter_create env cx i (prv_findObject cx oid)) (\<lambda>(_, cx). cx_ok cx)"
proof -
  have mal: "length d = unat n" if "pf_malloc env n = Some d" for n d
    using assms(1) that by (simp add: env_ok_def)
  have found: "object_ok obj" if "prv_findObject cx oid = Some obj" for obj
    using assms(2) that cis_list_find_iff by (fastforce simp: cx_ok_def prv_findObject_def list_all_iff)
  have grow: "keeps (grow_instances (pf_malloc env) insts obj) (\<lambda>x. cx_ok (write_object (snd x) cx'))"
    if "cx_ok cx'" and "object_ok obj" for insts obj cx'
    using grow_instances_ok [OF mal that(2)] by (rule keeps_mono) (auto simp: write_object_ok that(1))
  show "keeps (std_conn_moniter_create env cx i (prv_findObject cx oid)) (\<lambda>(_, cx). cx_ok cx)"
    using assms(2) found
    by (auto simp: std_conn_moniter_create_def std_object_put_conn_def Let_def split_beta intro!: grow split: option.split)
  show "keeps (std_moniter_create env cx i (prv_findObject cx oid)) (\<lambda>(_, cx). cx_ok cx)"
    using assms(2) found
    by (auto simp: std_moniter_create_def std_object_put_moniter_def Let_def split_beta intro!: grow split: option.split)
qed

lemma update_reg_ok: "cx_ok cx \<Longrightarrow> cx_ok (snd (cis_update_reg cx lifetime withObjects))"
  by (auto simp: cis_update_reg_def registration_update_registration_def set_status_def Let_def split: option.split)

text \<open>\<open>prv_createMoniterObjects\<close>, called while a read of the monitor object is handled.\<close>

lemma create_moniter_ok:
  assumes "env_ok env" and "cx_ok cx"
  shows "keeps (prv_createMoniterObjects env cx) cx_ok"
proof -
  have add: "keeps (cis_addobject env cx' oid None None) (\<lambda>x. cx_ok (snd x))" if "cx_ok cx'" for cx' oid
    using add_object_ok [OF that] by (simp add: case_prod_beta')
  have conn: "keeps (std_conn_moniter_create env cx' 0 (prv_findObject cx' 4)) (\<lambda>x. cx_ok (snd x))"
    and mon: "keeps (std_moniter_create env cx' 0 (prv_findObject cx' 10290)) (\<lambda>x. cx_ok (snd x))"
    if "cx_ok cx'" for cx'
    using create_instance_ok [OF assms(1) that] by (simp_all add: case_prod_beta')
  define rest where "rest = (\<lambda>cx'. do {
       (_, cx) \<leftarrow> cis_addobject env cx' 10290 None None;
       if prv_findObject cx 10290 = None then Some cx
       else do {
         (_, cx) \<leftarrow> std_moniter_create env cx 0 (prv_findObject cx 10290);
         let cx = snd (cis_update_reg cx 0 True);
         Some (cx\<lparr>cx_moniter_created := True\<rparr>) } })"
  have monitor: "keeps (rest cx') cx_ok" if "cx_ok cx'" for cx'
    using that unfolding rest_def
    by (auto simp: split_beta Let_def update_reg_ok intro!: keeps_mono [OF add] keeps_mono [OF mon])
  have first: "keeps (if b then map_option snd (std_conn_moniter_create env cx' 0 (prv_findObject cx' 4)) else Some cx') cx_ok"
    if "cx_ok cx'" for cx' b
    using that conn by simp
  show ?thesis
    unfolding prv_createMoniterObjects_def rest_def [symmetric] keeps_bind
    using add [OF assms(2)]
  proof (rule keeps_mono)
    fix x :: "int \<times> st_context"
    assume "cx_ok (snd x)"
    then have "keeps ((if fst x \<noteq> CIS_RET_EXIST
        then map_option snd (std_conn_moniter_create env (snd x) 0 (prv_findObject (snd x) 4))
        else Some (snd x)) \<bind> rest) cx_ok"
      unfolding keeps_bind by (intro keeps_mono [OF first monitor])
    with \<open>cx_ok (snd x)\<close> show "keeps (case x of (ret, cx) \<Rightarrow>
        if prv_findObject cx 4 = None then Some cx
        else (if ret \<noteq> CIS_RET_EXIST
              then map_option snd (std_conn_moniter_create env cx 0 (prv_findObject cx 4))
              else Some cx) \<bind> rest) cx_ok"
      by (simp add: split_beta del: keeps_bind)
  qed
qed

lemma std_object_data_ok: "cx_ok cx \<Longrightarrow> keeps (std_object_data env cx uri target) (\<lambda>x. cx_ok (fst x))"
  by (auto simp: std_object_data_def std_object_read_handler_def std_moniter_read_def std_object_get_moniter_def
      Let_def split_beta intro!: keeps_skip)

section \<open>Requests for objects\<close>

lemma push_conform_ok:
  assumes "env_ok env" and "cx_ok cx"
  shows "keeps (push_conform env cx message type result evs) (\<lambda>(_, cx, _). cx_ok cx)"
proof -
  have "keeps (packet_asynPushRequest env cx message type mid) (\<lambda>x. cx_ok (snd x))" for mid
    using push_request_ok [OF assms] by (rule keeps_mono) auto
  with assms(2) show ?thesis by (simp add: push_conform_def split_beta)
qed

lemma std_object_answer_ok:
  assumes "cx_ok cx"
  shows "keeps (std_object_answer env cx uri message) (\<lambda>(_, cx, _). cx_ok cx)"
  using assms
  by (auto simp: std_object_answer_def split_beta intro!: keeps_mono [OF std_object_data_ok [OF assms]]
      split: option.split)

lemma object_requests_ok:
  assumes "env_ok env" and "cx_ok cx"
  shows "keeps (object_read env cx uri message) (\<lambda>(_, cx, _). cx_ok cx)"
    and "keeps (object_write env cx uri format buffer message) (\<lambda>(_, cx, _). cx_ok cx)"
    and "keeps (object_execute env cx uri buffer message) (\<lambda>(_, cx, _). cx_ok cx)"
    and "keeps (object_discover env cx uri message) (\<lambda>(_, cx, _). cx_ok cx)"
proof -
  note push = push_conform_ok [OF assms]
  show "keeps (object_read env cx uri message) (\<lambda>(_, cx, _). cx_ok cx)"
    using assms(2) push unfolding object_read_def
    by (auto simp: Let_def std_object_answer_ok intro!: keeps_skip keeps_mono [OF create_moniter_ok [OF assms]]
        split: option.split)
  show "keeps (object_write env cx uri format buffer message) (\<lambda>(_, cx, _). cx_ok cx)"
    using assms(2) push
    by (auto simp: object_write_def Let_def intro!: keeps_skip split: option.split)
  show "keeps (object_execute env cx uri buffer message) (\<lambda>(_, cx, _). cx_ok cx)"
    using assms(2) push
    by (auto simp: object_execute_def Let_def intro!: keeps_skip split: option.split)
  show "keeps (object_discover env cx uri message) (\<lambda>(_, cx, _). cx_ok cx)"
    using assms(2) push
    by (auto simp: object_discover_def Let_def split_beta intro!: keeps_skip split: option.split)
qed

section \<open>The server's requests\<close>

lemma management_ok:
  assumes "env_ok env" and "cx_ok cx"
  shows "keeps (management_handleRequest env cx uri message) (\<lambda>(_, cx, _). cx_ok cx)"
  using assms
  by (auto simp: management_handleRequest_def management_get_def management_post_def management_put_def
      object_requests_ok observe_handleRequest_ok observe_setParameters_ok intro!: keeps_skip
      split: option.split sum.split)

end
