(* ===== verification/Cis_Reach.thy ===== *)
theory Cis_Reach
  imports Cis_Invariant
begin

text \<open>
  The invariant of the client's state through the report of values, datagrams, the registration, the
  bootstrap and the pump, up to the states that the application and the network can reach.
\<close>

section \<open>Reports\<close>

lemma slots_ok:
  assumes "cx_ok cx"
  shows "cx_ok (update_observed i (\<lambda>t. t\<lparr>ob_reportData := None\<rparr>) cx)"
    and "cx_ok (update_observed i (\<lambda>t. t\<lparr>ob_reportData := Some [d]\<rparr>) cx)"
  by (rule update_observed_ok [OF assms]; simp add: observed_ok_def)+

lemma report_done_ok:
  assumes "cx_ok cx"
  shows "keeps (report_done env cx i) (\<lambda>(_, cx, _). cx_ok cx)"
  using keeps_mono [OF observe_asynReport_ok [OF assms]]
  by (simp add: report_done_def split_beta slots_ok)

lemma observe_report_ok:
  assumes "cx_ok cx"
  shows "keeps (prv_notifyObserveReport env cx i n) (\<lambda>(_, cx, _). cx_ok cx)"
  using assms unfolding prv_notifyObserveReport_def
  by (auto simp: Let_def split_beta report_done_ok slots_ok intro!: keeps_skip split: option.split)

text \<open>A request in the list is changed; its identifier and its token stay.\<close>

lemma update_request_ok:
  assumes "cx_ok cx" and "request_ok r"
  shows "cx_ok (update_request r cx)"
proof -
  have mid: "rq_mid (if rq_mid t = rq_mid r then r else t) = rq_mid t" for t by simp
  have "cis_list_ok rq_mid (map (\<lambda>t. if rq_mid t = rq_mid r then r else t) l) = cis_list_ok rq_mid l" for l
    unfolding cis_list_ok_def sorted_wrt_map mid ..
  then show ?thesis
    using assms by (auto simp: cx_ok_def update_request_def list_all_iff)
qed

lemma request_ok_data [simp]: "request_ok (r\<lparr>rq_respData := ds\<rparr>) = request_ok r"
  by (simp add: request_ok_def)

lemma answer_done_ok:
  assumes "cx_ok cx" and "request_ok r"
  shows "keeps (answer_done env cx r result) (\<lambda>(_, cx, _). cx_ok cx)"
  using assms by (auto simp: answer_done_def intro!: keeps_skip update_request_ok)

lemma handle_answer_ok:
  assumes "cx_ok cx" and "request_ok r"
  shows "keeps (prv_notifyReadReport env cx r n) (\<lambda>(_, cx, _). cx_ok cx)"
    and "keeps (prv_notifyDiscoverReport env cx r n) (\<lambda>(_, cx, _). cx_ok cx)"
    and "keeps (handle_answer env cx r n) (\<lambda>(_, cx, _). cx_ok cx)"
proof -
  show read: "keeps (prv_notifyReadReport env cx r n) (\<lambda>(_, cx, _). cx_ok cx)"
    using assms unfolding prv_notifyReadReport_def
    by (auto simp: Let_def split_beta answer_done_ok update_request_ok intro!: keeps_skip split: option.split)
  show disc: "keeps (prv_notifyDiscoverReport env cx r n) (\<lambda>(_, cx, _). cx_ok cx)"
    using assms unfolding prv_notifyDiscoverReport_def
    by (auto simp: Let_def split_beta answer_done_ok update_request_ok intro!: keeps_skip split: option.split sum.split)
  show "keeps (handle_answer env cx r n) (\<lambda>(_, cx, _). cx_ok cx)"
    using assms read disc
    by (auto simp: handle_answer_def observe_asynAckNodata_ok split_beta intro!: keeps_any
        split: et_callback_type.split)
qed

lemma step_response_ok:
  assumes "cx_ok cx"
  shows "keeps (step_response env cx n) (\<lambda>(cx, _). cx_ok cx)"
proof (cases "cis_list_find rq_mid (cx_requestList cx) (nt_mid n)")
  case (Some r)
  then have "r \<in> set (cx_requestList cx)" using assms cis_list_find_iff by (fastforce simp: cx_ok_def)
  with assms have r: "request_ok r" by (auto simp: cx_ok_def list_all_iff)
  show ?thesis
    unfolding step_response_def Some
    using assms remove_request_ok
    by (auto simp: Let_def split_beta intro!: keeps_mono [OF handle_answer_ok(3) [OF assms r]])
qed (use assms in \<open>simp add: step_response_def\<close>)

lemma step_notify_ok:
  assumes "cx_ok cx"
  shows "keeps (step_notify env cx n) (\<lambda>(cx, _). cx_ok cx)"
  using assms
  by (auto simp: step_notify_def split_beta intro!: keeps_mono [OF observe_report_ok [OF assms]]
      split: option.split)

lemma notify_loop_ok: "cx_ok cx \<Longrightarrow> keeps (notify_loop env ns cx) (\<lambda>(cx, _). cx_ok cx)"
proof (induction ns arbitrary: cx)
  case (Cons n ns)
  have one: "keeps (if nt_isResponse n then step_response env cx n else step_notify env cx n) (\<lambda>(cx, _). cx_ok cx)"
    using Cons.prems by (simp add: step_response_ok step_notify_ok)
  show ?case
    unfolding notify_loop.simps keeps_bind
    using one
    by (rule keeps_mono)
       (auto simp: Let_def split_beta intro!: keeps_skip intro: keeps_mono [OF Cons.IH])
qed simp

lemma packet_step_ok:
  assumes "cx_ok cx"
  shows "keeps (packet_step env cx now) (\<lambda>(cx, _). cx_ok cx)"
proof -
  have "keeps (notify_loop env (cx_notifyList cx) cx)
    (\<lambda>x. keeps (request_timeout_loop now (cx_requestList (fst x)) (fst x)) cx_ok)"
    using notify_loop_ok [OF assms] by (rule keeps_mono) (auto intro: request_timeout_ok)
  with assms show ?thesis by (auto simp: packet_step_def split_beta)
qed

section \<open>The client's own requests\<close>

text \<open>
  A property of the context that does not depend on the status of the servers, the registration, the
  transactions or the next message id is kept by everything that registering, updating and removing
  the registration do, and by what the answers do.
\<close>

locale client_property =
  fixes P :: "st_context \<Rightarrow> bool"
  assumes server: "P cx \<Longrightarrow> P (cx\<lparr>cx_server := map_option f (cx_server cx)\<rparr>)"
    and bootstrap: "P cx \<Longrightarrow> P (cx\<lparr>cx_bootstrapServer := s\<rparr>)"
    and warning: "P cx \<Longrightarrow> P (cx\<lparr>cx_lifetimeWarnningTime := w\<rparr>)"
    and transactions: "P cx \<Longrightarrow> P (cx\<lparr>cx_transactionList := l\<rparr>)"
    and handlers: "P cx \<Longrightarrow> P (cx\<lparr>cx_replyOf := h\<rparr>)"
    and mid: "P cx \<Longrightarrow> P (cx\<lparr>cx_nextMid := m\<rparr>)"
begin

lemma changes:
  assumes "P cx"
  shows "P (set_status s cx)" "P (set_bootstrap_status s cx)" "P (note_registration now cx)"
    "P (enter_transaction cx t handler)" "P (free_payload n cx)" "P (snd (take_mid cx))"
proof -
  show "P (note_registration now cx)"
    using assms warning [OF server [OF assms]] by (simp add: note_registration_def)
  show "P (enter_transaction cx t handler)"
    using handlers [OF transactions [OF assms]] by (simp add: enter_transaction_def)
qed (simp_all add: assms server bootstrap transactions mid set_status_def set_bootstrap_status_def
    free_payload_def take_mid_def)

lemma replies:
  assumes "P cx"
  shows "keeps (prv_handleRegistrationReply env cx packet) (\<lambda>(cx, _). P cx)"
    and "keeps (prv_handleRegistrationUpdateReply env cx packet) (\<lambda>(cx, _). P cx)"
    and "keeps (prv_handleDeregistrationReply cx) P"
    and "keeps (prv_handleBootstrapReply cx packet) P"
  using assms
  by (auto simp: prv_handleRegistrationReply_def prv_handleRegistrationUpdateReply_def
      prv_handleDeregistrationReply_def prv_handleBootstrapReply_def Let_def changes server intro!: keeps_any
      split: option.split)

lemma event:
  assumes "P cx"
  shows "keeps (run_event env cx e) (\<lambda>(cx, _). P cx)"
proof (cases e)
  case (Callback n packet)
  have "keeps (case handler of
       RegistrationReply \<Rightarrow> prv_handleRegistrationReply env cx packet
     | UpdateReply \<Rightarrow> prv_handleRegistrationUpdateReply env cx packet
     | DeregistrationReply \<Rightarrow> map_option (\<lambda>cx. (cx, [])) (prv_handleDeregistrationReply cx)
     | BootstrapReply \<Rightarrow> map_option (\<lambda>cx. (cx, [])) (prv_handleBootstrapReply cx packet))
     (\<lambda>(cx, _). P cx)" for handler
    using replies [OF assms] by (cases handler) simp_all
  with Callback show ?thesis by (auto simp: call_back_def intro!: keeps_any)
qed (use assms in \<open>auto simp: split_beta intro!: keeps_any split: nat.split\<close>)

lemma events: "P cx \<Longrightarrow> keeps (run_events env cx es) (\<lambda>(cx, _). P cx)"
proof (induction es arbitrary: cx)
  case (Cons e es)
  show ?case
    unfolding run_events.simps keeps_bind
    using event [OF Cons.prems]
    by (rule keeps_mono) (auto simp: split_beta intro: keeps_mono [OF Cons.IH])
qed simp

lemma sends:
  assumes "P cx"
  shows "keeps (context_send env cx t) (\<lambda>(_, cx, _). P cx)"
    and "keeps (context_transaction_step env cx now) (\<lambda>(cx, _). P cx)"
    and "keeps (context_handleResponse env cx message b) (\<lambda>(_, cx, _). P cx)"
proof -
  have run: "keeps (run_events env (cx\<lparr>cx_transactionList := l\<rparr>) es) (\<lambda>x. P (fst x))" for l es
    using events [OF transactions [OF assms]] by (simp add: case_prod_beta')
  show "keeps (context_send env cx t) (\<lambda>(_, cx, _). P cx)"
    by (auto simp: context_send_def Let_def split_beta intro!: keeps_skip run)
  show "keeps (context_transaction_step env cx now) (\<lambda>(cx, _). P cx)"
    by (auto simp: context_transaction_step_def split_beta intro!: keeps_skip events transactions assms)
  show "keeps (context_handleResponse env cx message b) (\<lambda>(_, cx, _). P cx)"
    by (auto simp: context_handleResponse_def split_beta intro!: keeps_skip run)
qed

text \<open>Operations whose result only decides how it goes on.\<close>

lemmas skip_texts =
  keeps_any [where m = "cx_server cx"]
  keeps_any [where m = "cx_bootstrapServer cx"]
  keeps_any [where m = "registration_texts cx"]
  keeps_any [where m = "update_query env cx message"]
  keeps_any [where m = "update_payload env cx withObjects message"]
  keeps_any [where m = "transaction_new pf type code alt uri mid len tok"]
  keeps_any [where m = "then_write a b"]
  for cx env message withObjects pf type code alt uri mid len tok a b

lemma requests:
  assumes "P cx"
  shows "keeps (prv_register env cx) (\<lambda>(_, cx, _). P cx)"
    and "keeps (prv_updateRegistration env cx withObjects) (\<lambda>(_, cx, _). P cx)"
    and "keeps (registration_start env cx) (\<lambda>(_, cx, _). P cx)"
    and "keeps (registration_deregister env cx) (\<lambda>(cx, _). P cx)"
    and "keeps (prv_requestBootstrap env cx) (\<lambda>(cx, _). P cx)"
proof -
  have send: "keeps (context_send env cx' t) (\<lambda>x. P (fst (snd x)))" if "P cx'" for cx' t
    using sends(1) [OF that] by (simp add: case_prod_beta')
  show reg: "keeps (prv_register env cx) (\<lambda>(_, cx, _). P cx)"
    using assms unfolding prv_register_def
    by (auto simp: Let_def split_beta changes intro!: keeps_skip skip_texts keeps_mono [OF send] split: sum.split)
  show "keeps (prv_updateRegistration env cx withObjects) (\<lambda>(_, cx, _). P cx)"
    using assms unfolding prv_updateRegistration_def
    by (auto simp: Let_def split_beta changes intro!: keeps_skip skip_texts keeps_mono [OF send] split: sum.split)
  show "keeps (registration_start env cx) (\<lambda>(_, cx, _). P cx)"
    using assms reg by (auto simp: registration_start_def split: option.split)
  show "keeps (registration_deregister env cx) (\<lambda>(cx, _). P cx)"
    using assms unfolding registration_deregister_def
    by (auto simp: Let_def split_beta changes intro!: keeps_skip skip_texts keeps_mono [OF send]
        split: sum.split option.split)
  show "keeps (prv_requestBootstrap env cx) (\<lambda>(cx, _). P cx)"
    using assms unfolding prv_requestBootstrap_def
    by (auto simp: Let_def split_beta changes intro!: keeps_skip skip_texts keeps_mono [OF send] split: sum.split)
qed

end

text \<open>The invariant is such a property, also together with the state of the pump.\<close>

interpretation inv: client_property cx_ok
  by unfold_locales (auto simp: cx_ok_def)

interpretation inv_state: client_property "\<lambda>cx. cx_ok cx \<and> cx_stateStep cx = s" for s
  by unfold_locales (auto simp: cx_ok_def)

lemma set_status_ok [simp]: "cx_ok cx \<Longrightarrow> cx_ok (set_status s cx)"
  by (rule inv.changes)

lemma set_bootstrap_status_ok [simp]: "cx_ok (set_bootstrap_status s cx) = cx_ok cx"
  by (simp add: set_bootstrap_status_def)

lemma registration_step_ok:
  assumes "cx_ok cx"
  shows "keeps (registration_step env cx now) (\<lambda>(cx, _). cx_ok cx)"
proof -
  have update: "keeps (prv_updateRegistration env cx w) (\<lambda>x. cx_ok (fst (snd x)))" for w
    using inv.requests(2) [OF assms] by (simp add: case_prod_beta')
  show ?thesis
    using assms
    by (auto simp: registration_step_def lifetime_step_def split_beta intro!: keeps_skip update
        split: option.split et_status.split)
qed

section \<open>Bootstrap\<close>

lemma bootstrap_destory_ok [simp]: "cx_ok (fst (bootstrap_destory cx)) = cx_ok cx"
  by (simp add: bootstrap_destory_def)

lemma bootstrap_ok:
  assumes "cx_ok cx"
  shows "keeps (bootstrap_init env cx) cx_ok"
    and "keeps (bootstrap_create env cx) (\<lambda>(cx, _). cx_ok cx)"
    and "keeps (bootstrap_connect env cx) (\<lambda>(cx, _). cx_ok cx)"
  using assms
  by (auto simp: bootstrap_init_def bootstrap_create_def bootstrap_connect_def Let_def split_beta
      intro!: keeps_any split: list.split)

lemma bootstrap_step_ok:
  assumes "cx_ok cx"
  shows "keeps (bootstrap_step env cx now) (\<lambda>(cx, _). cx_ok cx)"
  using assms inv.requests(5)
  by (auto simp: bootstrap_step_def intro!: keeps_skip split: option.split)

lemma bootstrap_handleFinish_ok: "cx_ok cx \<Longrightarrow> cx_ok (snd (bootstrap_handleFinish cx))"
  by (auto simp: bootstrap_handleFinish_def split: option.split)

lemma prv_tagServer_ok: "cx_ok cx \<Longrightarrow> cx_ok (prv_tagServer cx n)"
  by (simp add: prv_tagServer_def Let_def)

lemma security_write_ok:
  assumes "cx_ok cx"
  shows "keeps (std_object_write_handler mal cx instanceId ds) (\<lambda>(_, cx). cx_ok cx)"
  using assms
  by (auto simp: std_object_write_handler_def std_security_write_def update_security_def split_beta
      intro!: keeps_any split: option.split)

lemma bootstrap_writes_ok: "cx_ok cx \<Longrightarrow> keeps (bootstrap_writes env cx iid ds result) (\<lambda>(_, cx). cx_ok cx)"
proof (induction ds arbitrary: cx result)
  case (Cons d ds)
  show ?case
    unfolding bootstrap_writes.simps keeps_bind
    using security_write_ok [OF Cons.prems]
    by (rule keeps_mono) (auto simp: Cons.IH prv_tagServer_ok)
qed simp

lemma bootstrap_put_ok: "cx_ok cx \<Longrightarrow> keeps (bootstrap_put env cx uri message) (\<lambda>(_, cx). cx_ok cx)"
  unfolding bootstrap_put_def
  by (auto simp: bootstrap_writes_ok intro!: keeps_skip
      keeps_any [where m = "data_parse mal uri payload format" for mal payload format])

lemma bootstrap_handleCommand_ok:
  assumes "cx_ok cx"
  shows "keeps (bootstrap_handleCommand env cx uri message) (\<lambda>(_, cx). cx_ok cx)"
proof -
  have put: "keeps (bootstrap_put env (set_bootstrap_status s cx) uri message) (\<lambda>x. cx_ok (snd x))" for s
    using bootstrap_put_ok [of "set_bootstrap_status s cx"] assms by (simp add: case_prod_beta')
  show ?thesis
    using assms unfolding bootstrap_handleCommand_def
    by (auto simp: Let_def split_beta intro!: inv.skip_texts keeps_mono [OF put])
qed

section \<open>Datagrams\<close>

lemma dispatch_ok:
  assumes "env_ok env" and "cx_ok cx"
  shows "keeps (dispatch_request env cx h uri message) (\<lambda>(_, cx, _). cx_ok cx)"
proof -
  have "keeps (bootstrap_handleCommand env cx uri message) (\<lambda>x. cx_ok (snd x))"
    using bootstrap_handleCommand_ok [OF assms(2)] by (simp add: case_prod_beta')
  with assms show ?thesis
    by (auto simp: dispatch_request_def Let_def split_beta management_ok bootstrap_handleFinish_ok)
qed

lemma prv_handleRequest_ok:
  assumes "env_ok env" and "cx_ok cx"
  shows "keeps (prv_handleRequest env cx h message response) (\<lambda>(_, _, cx, _). cx_ok cx)"
proof -
  have "keeps (dispatch_request env cx h uri message) (\<lambda>x. cx_ok (fst (snd x)))" for uri
    using dispatch_ok [OF assms] by (simp add: case_prod_beta')
  with assms(2) show ?thesis
    by (auto simp: prv_handleRequest_def Let_def split_beta intro!: keeps_any split: sum.split)
qed

lemma handle_block1_ok:
  assumes "cx_ok cx"
  shows "keeps (handle_block1 env cx h message response) (\<lambda>(_, _, _, cx). cx_ok cx)"
  using assms unfolding handle_block1_def
  by (auto simp: Let_def split_beta intro!: keeps_any)

lemma start_response_ok:
  assumes "cx_ok cx"
  shows "keeps (start_response cx message) (\<lambda>(_, cx). cx_ok cx)"
  using assms unfolding start_response_def
  by (auto simp: Let_def split_beta intro!: keeps_any)

lemma handle_request_ok:
  assumes "env_ok env" and "cx_ok cx"
  shows "keeps (handle_request env cx h message) (\<lambda>(_, cx, _). cx_ok cx)"
proof -
  have start: "keeps (start_response cx message) (\<lambda>x. cx_ok (snd x))"
    using start_response_ok [OF assms(2)] by (simp add: case_prod_beta')
  have block1: "keeps (handle_block1 env cx' h message r) (\<lambda>x. cx_ok (snd (snd (snd x))))"
    if "cx_ok cx'" for cx' r
    using handle_block1_ok [OF that] by (simp add: case_prod_beta')
  have request: "keeps (prv_handleRequest env cx' h m r) (\<lambda>x. cx_ok (fst (snd (snd x))))"
    if "cx_ok cx'" for cx' m r
    using prv_handleRequest_ok [OF assms(1) that] by (simp add: case_prod_beta')
  show ?thesis
    unfolding handle_request_def
    by (auto simp: split_beta intro!: keeps_mono [OF start] keeps_mono [OF block1] keeps_mono [OF request]
        keeps_any [where m = "slice_block2 m r" for m r] keeps_any [where m = "packet_send e c m" for e c m])
qed

lemma observe_cancel_reset_ok: "cx_ok cx \<Longrightarrow> keeps (prv_handleReset cx message) cx_ok"
  by (simp add: prv_handleReset_def observe_cancel_ok)

lemma handle_reply_ok:
  assumes "cx_ok cx"
  shows "keeps (handle_reply env cx message) (\<lambda>(_, cx, _). cx_ok cx)"
proof -
  have response: "keeps (context_handleResponse env cx' message b) (\<lambda>x. cx_ok (fst (snd x)))"
    if "cx_ok cx'" for cx' b
    using inv.sends(3) [OF that] by (simp add: case_prod_beta')
  show ?thesis
    using assms unfolding handle_reply_def
    by (auto simp: split_beta intro!: keeps_mono [OF response] keeps_mono [OF observe_cancel_reset_ok]
        keeps_any [where m = "packet_send e c m" for e c m] split: coap_message_type.split)
qed

lemma packet_handle_packet_ok:
  assumes "env_ok env" and "cx_ok cx"
  shows "keeps (packet_handle_packet env cx h buffer) (\<lambda>(cx, _). cx_ok cx)"
proof -
  have request: "keeps (handle_request env cx h m) (\<lambda>x. cx_ok (fst (snd x)))" for m
    using handle_request_ok [OF assms] by (simp add: case_prod_beta')
  have reply: "keeps (handle_reply env cx m) (\<lambda>x. cx_ok (fst (snd x)))" for m
    using handle_reply_ok [OF assms(2)] by (simp add: case_prod_beta')
  show ?thesis
    using assms(2) unfolding packet_handle_packet_def
    by (auto simp: split_beta intro!: keeps_mono [OF request] keeps_mono [OF reply]
        keeps_any [where m = "coap_parse_message mal b" for mal b]
        keeps_any [where m = "send_error e c m code" for e c m code])
qed

lemma packet_read_ok:
  assumes "env_ok env" and "cx_ok cx"
  shows "keeps (packet_read env cx) (\<lambda>(_, cx, _). cx_ok cx)"
proof -
  have packet: "keeps (packet_handle_packet env cx h b) (\<lambda>x. cx_ok (fst x))" for h b
    using packet_handle_packet_ok [OF assms] by (simp add: case_prod_beta')
  show ?thesis
    using assms(2) by (auto simp: packet_read_def split_beta packet split: option.split)
qed

section \<open>The pump\<close>

text \<open>Without a server the state must be one that does not use it.\<close>

lemma delete_server_ok [simp]:
  "cx_ok cx \<Longrightarrow> \<not> needs_server s \<Longrightarrow> cx_ok (core_updatePumpState (fst (prv_deleteServer cx)) s)"
  by (simp add: cx_ok_def core_updatePumpState_def prv_deleteServer_def)

lemma clear_session_ok [simp]:
  "cx_ok cx \<Longrightarrow> \<not> needs_server s \<Longrightarrow> cx_ok (core_updatePumpState (fst (clear_session cx)) s)"
  "cx_ok cx \<Longrightarrow> \<not> needs_server s \<Longrightarrow>
     cx_ok (core_updatePumpState (fst (clear_session cx)\<lparr>cx_registerEnabled := e\<rparr>) s)"
  by (simp_all add: clear_session_def prv_deleteServer_def observe_removeAll_def packet_asynRemoveRequestAll_def
      packet_asynRemoveNotifyAll_def cx_ok_def core_updatePumpState_def observations_ok_def)

lemma noting_ok [simp]: "cx_ok (noting now cx) = cx_ok cx"
  by (simp add: noting_def)

abbreviation pump_keeps :: "pump_result \<Rightarrow> bool" where
  "pump_keeps m \<equiv> keeps m (\<lambda>(_, cx, _). cx_ok cx)"

lemma no_sleep_ok: "keeps r (\<lambda>(cx, _). cx_ok cx) \<Longrightarrow> pump_keeps (no_sleep evs r)"
  by (auto simp: no_sleep_def split_beta elim: keeps_mono)

lemma pump_bootstrapping_ok:
  assumes "cx_ok cx"
  shows "pump_keeps (pump_bootstrapping env cx now)"
proof -
  have status: "pump_keeps (pump_bootstrap_status env cx now evs)" if "cx_ok cx" for cx evs
  proof -
    have "keeps (bootstrap_step env cx now) (\<lambda>x. cx_ok (fst x))"
      using bootstrap_step_ok [OF that] by (simp add: case_prod_beta')
    with that show ?thesis
      by (auto simp: pump_bootstrap_status_def Let_def split_beta bootstrap_ok no_sleep_ok
          intro!: keeps_any [where m = "time_over cx now n" for n] split: et_status.split)
  qed
  have init: "keeps (bootstrap_init env cx) (\<lambda>cx. pump_keeps
      (if cx_bootstrapServer cx = None then Some (Some PUMP_RET_CUSTOM, cx, evs)
       else pump_bootstrap_status env cx now evs))" for evs
    using bootstrap_ok(1) [OF assms] by (rule keeps_mono) (simp add: status)
  show ?thesis
    unfolding pump_bootstrapping_def Let_def
    using assms init status by simp
qed

lemma pump_connect_ok: "cx_ok cx \<Longrightarrow> pump_keeps (pump_connect env cx s now)"
  by (simp add: pump_connect_def give_up_connecting_def split_beta Let_def)

lemma pump_server_status_ok:
  assumes "cx_ok cx" and "cx_server cx \<noteq> None"
  shows "pump_keeps (pump_server_status env cx s now)"
proof -
  have "cx_ok (core_updatePumpState (noting 0 cx) PUMP_STATE_REGISTER_REQUIRED)"
    using assms by (simp add: cx_ok_state noting_def)
  with assms show ?thesis
    by (auto simp: pump_server_status_def give_up_connecting_def split_beta Let_def pump_connect_ok
        intro!: keeps_any [where m = "time_over cx now n" for n] split: et_status.split)
qed

lemma pump_connecting_ok:
  assumes "cx_ok cx"
  shows "pump_keeps (pump_connecting env cx now)"
  using assms
  by (auto simp: pump_connecting_def pump_server_status_ok give_up_connecting_def intro!: keeps_any
      split: option.split list.split)

lemma pump_unregister_ok:
  assumes "cx_ok cx"
  shows "pump_keeps (pump_unregister env cx)"
proof -
  have "keeps (registration_deregister env cx) (\<lambda>x. cx_ok (fst x))"
    using inv.requests(4) [OF assms] by (simp add: case_prod_beta')
  then show ?thesis
    unfolding pump_unregister_def
    by (auto simp: split_beta Let_def elim!: keeps_mono)
qed

lemma pump_register_required_ok:
  assumes "cx_ok cx" and "cx_stateStep cx = PUMP_STATE_REGISTER_REQUIRED"
  shows "pump_keeps (pump_register_required env cx now)"
proof -
  have "keeps (registration_start env cx)
      (\<lambda>(_, cx, _). cx_ok cx \<and> cx_stateStep cx = PUMP_STATE_REGISTER_REQUIRED)"
    by (rule inv_state.requests) (use assms in simp)
  then have start: "keeps (registration_start env cx)
      (\<lambda>x. cx_ok (fst (snd x)) \<and> cx_ok (core_updatePumpState (fst (snd x)) PUMP_STATE_REGISTERING))"
    by (rule keeps_mono) (auto simp: cx_ok_def core_updatePumpState_def)
  with assms(1) show ?thesis
    unfolding pump_register_required_def
    by (auto simp: split_beta intro!: keeps_any [where m = "time_over cx now n" for n] elim!: keeps_mono)
qed

lemma pump_switch_ok:
  assumes "cx_ok cx"
  shows "pump_keeps (pump_switch env cx now)"
proof -
  have "cx_ok (core_updatePumpState (noting 0 cx) PUMP_STATE_READY)"
    if "cx_stateStep cx = PUMP_STATE_REGISTERING"
    using assms that by (simp add: cx_ok_def core_updatePumpState_def noting_def)
  with assms show ?thesis
    unfolding pump_switch_def
    by (auto simp: pump_bootstrapping_ok pump_connecting_ok pump_unregister_ok pump_disconnected_def
        pump_register_required_ok pump_registering_def pump_ready_def split_beta Let_def
        split: et_client_state.split et_status.split)
qed

lemma pump_steps_ok:
  assumes "env_ok env" and "cx_ok cx"
  shows "keeps (pump_steps env cx now) (\<lambda>(_, cx, _). cx_ok cx)"
proof -
  have reg: "keeps (registration_step env cx now) (\<lambda>x. cx_ok (fst x))"
    using registration_step_ok [OF assms(2)] by (simp add: case_prod_beta')
  have tr: "keeps (context_transaction_step env cx' now) (\<lambda>x. cx_ok (fst x))" if "cx_ok cx'" for cx'
    using inv.sends(2) [OF that] by (simp add: case_prod_beta')
  have packet: "keeps (packet_step env cx' now) (\<lambda>x. cx_ok (fst x))" if "cx_ok cx'" for cx'
    using packet_step_ok [OF that] by (simp add: case_prod_beta')
  have read: "keeps (packet_read env cx') (\<lambda>x. cx_ok (fst (snd x)))" if "cx_ok cx'" for cx'
    using packet_read_ok [OF assms(1) that] by (simp add: case_prod_beta')
  show ?thesis
    unfolding pump_steps_def
    by (auto simp: split_beta Let_def intro!: keeps_mono [OF reg] keeps_mono [OF tr] keeps_mono [OF packet]
        keeps_mono [OF read] keeps_any [where m = "time32 n" for n])
qed

lemma cis_pump_ok:
  assumes "env_ok env" and "cx_ok cx"
  shows "keeps (cis_pump env cx) (\<lambda>(_, cx, _). cx_ok cx)"
proof -
  have switch: "keeps (pump_switch env cx (pf_time env)) (\<lambda>x. cx_ok (fst (snd x)))"
    using pump_switch_ok [OF assms(2)] by (simp add: case_prod_beta')
  have steps: "keeps (pump_steps env cx' (pf_time env)) (\<lambda>x. cx_ok (fst (snd x)))" if "cx_ok cx'" for cx'
    using pump_steps_ok [OF assms(1) that] by (simp add: case_prod_beta')
  show ?thesis
    using assms(2) unfolding cis_pump_def
    by (auto simp: split_beta intro!: keeps_mono [OF switch] steps split: option.split)
qed

end
