(* ===== verification/Cis_Config.thy ===== *)
theory Cis_Config
  imports Cis_Pump
begin

text \<open>
  \<open>cis_config.c\<close>: the configuration that the application hands to \<open>cis_init\<close>, a header and up to fifteen
  items, each with its own size. A pointer into the configuration is the memory from there on. The
  sizes are only used to go from one item to the next: the parsers of the items trust the lengths
  inside. Logging is left out, the checksum is always right.
\<close>

section \<open>The configuration\<close>

record cfg_vdata =
  vd_len :: u16
  vd_data :: "bytes option"

record cfg_net =
  cn_mtu :: u16
  cn_linktype :: u8
  cn_bandtype :: u8
  cn_bs_enabled :: u8
  cn_dtls_enabled :: u8
  cn_apn :: cfg_vdata
  cn_username :: cfg_vdata
  cn_password :: cfg_vdata
  cn_host :: cfg_vdata
  cn_user_data :: cfg_vdata

record cfg_sys =
  cs_log_enabled :: u8
  cs_log_ext_output :: u8
  cs_log_output_type :: u8
  cs_log_output_level :: u8
  cs_log_buffer_size :: u16
  cs_user_data :: cfg_vdata

record cfg_context =
  cf_version :: u8
  cf_cfgcount :: u8
  cf_bytes :: u16
  cf_net :: cfg_net
  cf_sys :: cfg_sys

section \<open>Parsing\<close>

text \<open>Big endian, whatever the machine is.\<close>

definition prvMakeU16 :: "bytes \<Rightarrow> nat \<Rightarrow> u16 option" where
  "prvMakeU16 p i = do {
     hi \<leftarrow> aload p i;
     lo \<leftarrow> aload p (i + 1);
     Some (push_bit 8 (ucast hi) + ucast lo) }"

definition prvSysParser :: "bytes \<Rightarrow> cfg_sys option" where
  "prvSysParser config = do {
     b \<leftarrow> aload config 0;
     bufsize \<leftarrow> prvMakeU16 config 1;
     len \<leftarrow> prvMakeU16 config 4;
     Some \<lparr>cs_log_enabled = drop_bit 7 b AND 1, cs_log_ext_output = drop_bit 6 b AND 1,
           cs_log_output_type = drop_bit 4 b AND 3, cs_log_output_level = b AND 0x0F,
           cs_log_buffer_size = bufsize,
           cs_user_data = \<lparr>vd_len = len, vd_data = (if 0 < len then Some (drop 6 config) else None)\<rparr>\<rparr> }"

text \<open>A length and the bytes behind it, and where the next one begins.\<close>

definition read_vdata :: "bytes \<Rightarrow> nat \<Rightarrow> (cfg_vdata \<times> nat) option" where
  "read_vdata config i = do {
     len \<leftarrow> prvMakeU16 config i;
     Some (\<lparr>vd_len = len, vd_data = Some (drop (i + 2) config)\<rparr>, i + 2 + unat len) }"

definition prvNetParser :: "bytes \<Rightarrow> cfg_net option" where
  "prvNetParser config = do {
     mtu \<leftarrow> prvMakeU16 config 0;
     types \<leftarrow> aload config 2;
     flags \<leftarrow> aload config 3;
     (apn, i) \<leftarrow> read_vdata config 4;
     (username, i) \<leftarrow> read_vdata config i;
     (password, i) \<leftarrow> read_vdata config i;
     (host, i) \<leftarrow> read_vdata config i;
     (user_data, i) \<leftarrow> read_vdata config i;
     Some \<lparr>cn_mtu = mtu, cn_linktype = drop_bit 4 types AND 0x0F, cn_bandtype = types AND 0x0F,
           cn_bs_enabled = drop_bit 7 flags AND 1, cn_dtls_enabled = drop_bit 6 flags AND 1,
           cn_apn = apn, cn_username = username, cn_password = password, cn_host = host,
           cn_user_data = user_data\<rparr> }"

text \<open>The loop over the items: the return code, and the context as far as it was filled in.\<close>

fun config_items :: "nat \<Rightarrow> bytes \<Rightarrow> cfg_context \<Rightarrow> (int \<times> cfg_context) option" where
  "config_items 0 p cf = Some (0, cf)"
| "config_items (Suc n) p cf = do {
     header \<leftarrow> aload p 0;
     size \<leftarrow> prvMakeU16 p 1;
     let cfgid = header AND 0x0F;
     result \<leftarrow>
       (if cfgid = 1 then Some (Some cf)
        else if cfgid = 2 then map_option (\<lambda>net. Some (cf\<lparr>cf_net := net\<rparr>)) (prvNetParser (drop 3 p))
        else if cfgid = 3 then map_option (\<lambda>sys. Some (cf\<lparr>cf_sys := sys\<rparr>)) (prvSysParser (drop 3 p))
        else Some None);
     case result of
       None \<Rightarrow> Some (CIS_RET_ERROR, cf)
     | Some cf \<Rightarrow> config_items n (drop (unat size) p) cf }"

text \<open>\<open>183.230.40.39\<close>.\<close>

abbreviation (input) NBCFG_DEFAULT_BOOTSTRAP :: bytes where
  "NBCFG_DEFAULT_BOOTSTRAP \<equiv> [0x31, 0x38, 0x33, 0x2E, 0x32, 0x33, 0x30, 0x2E, 0x34, 0x30, 0x2E, 0x33, 0x39]"

definition no_vdata :: cfg_vdata where
  "no_vdata = \<lparr>vd_len = 0, vd_data = None\<rparr>"

definition prvDefaultConfig :: "cfg_context \<Rightarrow> cfg_context" where
  "prvDefaultConfig cf =
     cf\<lparr>cf_sys := \<lparr>cs_log_enabled = 1, cs_log_ext_output = 0, cs_log_output_type = 0,
                   cs_log_output_level = 3, cs_log_buffer_size = 200, cs_user_data = no_vdata\<rparr>,
        cf_net := \<lparr>cn_mtu = 1024, cn_linktype = 0, cn_bandtype = 0, cn_bs_enabled = 1,
                   cn_dtls_enabled = 1, cn_apn = no_vdata, cn_username = no_vdata,
                   cn_password = no_vdata,
                   cn_host = \<lparr>vd_len = 13, vd_data = Some (NBCFG_DEFAULT_BOOTSTRAP @ [0])\<rparr>,
                   cn_user_data = no_vdata\<rparr>\<rparr>"

text \<open>
  \<open>cis_config_init\<close> for a null \<open>*config_context\<close>. \<open>noise\<close> is what is in the new block; \<open>None\<close> as the context
  means that it has not been made or has been freed. The only version refused is 0.
\<close>

abbreviation (input) NBCFG_SUPPORT_VERSION :: u8 where "NBCFG_SUPPORT_VERSION \<equiv> 1"

definition cis_config_init ::
  "allocator \<Rightarrow> u32 \<Rightarrow> cfg_context \<Rightarrow> bytes option \<Rightarrow> u16 \<Rightarrow> (int \<times> cfg_context option) option" where
  "cis_config_init mal sizeof_context noise config config_len =
     (if mal sizeof_context = None then Some (CIS_RET_ERROR, None)
      else case config of
        None \<Rightarrow> Some (0, Some (prvDefaultConfig noise))
      | Some p \<Rightarrow>
          if config_len = 0 then Some (0, Some (prvDefaultConfig noise))
          else do {
            b \<leftarrow> aload p 0;
            size \<leftarrow> prvMakeU16 p 1;
            let cf = noise\<lparr>cf_version := drop_bit 4 b AND 0x0F, cf_cfgcount := b AND 0x0F, cf_bytes := size\<rparr>;
            if cf_version cf \<noteq> NBCFG_SUPPORT_VERSION \<and> cf_version cf = 0 then Some (CIS_RET_ERROR, None)
            else if cf_bytes cf \<noteq> config_len then Some (CIS_RET_ERROR, None)
            else do {
              (ret, cf) \<leftarrow> config_items (unat (cf_cfgcount cf)) (drop 3 p) cf;
              Some (ret, Some cf) } })"

section \<open>What a configuration says\<close>

text \<open>The settings, and the bytes in which they are written.\<close>

record net_setting =
  ns_mtu :: u16
  ns_linktype :: u8
  ns_bandtype :: u8
  ns_bs :: bool
  ns_dtls :: bool
  ns_apn :: bytes
  ns_username :: bytes
  ns_password :: bytes
  ns_host :: bytes
  ns_user_data :: bytes

record sys_setting =
  ss_log :: bool
  ss_ext :: bool
  ss_type :: u8
  ss_level :: u8
  ss_bufsize :: u16
  ss_user_data :: bytes

definition short :: "bytes \<Rightarrow> bool" where
  "short bs \<longleftrightarrow> length bs < 2 ^ 16"

definition net_ok :: "net_setting \<Rightarrow> bool" where
  "net_ok s \<longleftrightarrow> ns_linktype s < 16 \<and> ns_bandtype s < 16 \<and>
     length (ns_apn s) + length (ns_username s) + length (ns_password s) + length (ns_host s) +
     length (ns_user_data s) + 17 < 2 ^ 16"

definition sys_ok :: "sys_setting \<Rightarrow> bool" where
  "sys_ok s \<longleftrightarrow> ss_type s < 4 \<and> ss_level s < 16 \<and> length (ss_user_data s) + 9 < 2 ^ 16"

definition enc_vdata :: "bytes \<Rightarrow> bytes" where
  "enc_vdata bs = be16 (of_nat (length bs)) @ bs"

definition bit_of :: "bool \<Rightarrow> u8" where
  "bit_of b = (if b then 1 else 0)"

definition enc_net :: "net_setting \<Rightarrow> bytes" where
  "enc_net s =
     be16 (ns_mtu s) @ [16 * ns_linktype s + ns_bandtype s, 128 * bit_of (ns_bs s) + 64 * bit_of (ns_dtls s)] @
     enc_vdata (ns_apn s) @ enc_vdata (ns_username s) @ enc_vdata (ns_password s) @
     enc_vdata (ns_host s) @ enc_vdata (ns_user_data s)"

definition enc_sys :: "sys_setting \<Rightarrow> bytes" where
  "enc_sys s =
     [128 * bit_of (ss_log s) + 64 * bit_of (ss_ext s) + 16 * ss_type s + ss_level s] @
     be16 (ss_bufsize s) @ [0] @ enc_vdata (ss_user_data s)"

definition enc_item :: "u8 \<Rightarrow> bytes \<Rightarrow> bytes" where
  "enc_item cfgid bs = [cfgid] @ be16 (of_nat (length bs + 3)) @ bs"

definition enc_config :: "net_setting \<Rightarrow> sys_setting \<Rightarrow> bytes" where
  "enc_config net sys =
     (let items = enc_item 2 (enc_net net) @ enc_item 3 (enc_sys sys)
      in [0x12] @ be16 (of_nat (length items + 3)) @ items)"

definition vdata_text :: "cfg_vdata \<Rightarrow> bytes" where
  "vdata_text v = (case vd_data v of None \<Rightarrow> [] | Some bs \<Rightarrow> take (unat (vd_len v)) bs)"

definition net_of :: "cfg_net \<Rightarrow> net_setting" where
  "net_of c =
     \<lparr>ns_mtu = cn_mtu c, ns_linktype = cn_linktype c, ns_bandtype = cn_bandtype c,
      ns_bs = (cn_bs_enabled c \<noteq> 0), ns_dtls = (cn_dtls_enabled c \<noteq> 0), ns_apn = vdata_text (cn_apn c),
      ns_username = vdata_text (cn_username c), ns_password = vdata_text (cn_password c),
      ns_host = vdata_text (cn_host c), ns_user_data = vdata_text (cn_user_data c)\<rparr>"

definition sys_of :: "cfg_sys \<Rightarrow> sys_setting" where
  "sys_of c =
     \<lparr>ss_log = (cs_log_enabled c \<noteq> 0), ss_ext = (cs_log_ext_output c \<noteq> 0), ss_type = cs_log_output_type c,
      ss_level = cs_log_output_level c, ss_bufsize = cs_log_buffer_size c,
      ss_user_data = vdata_text (cs_user_data c)\<rparr>"

section \<open>Parsing gives the settings back\<close>

lemma make_u16_at:
  assumes "i = length xs"
  shows "prvMakeU16 (xs @ be16 n @ ys) i = Some n"
  using be16_join [of n] by (simp add: assms prvMakeU16_def be16_def aload_def nth_append)

lemma read_vdata_at:
  assumes "i = length xs" and "length bs < 2 ^ 16"
  shows "read_vdata (xs @ enc_vdata bs @ ys) i =
    Some (\<lparr>vd_len = of_nat (length bs), vd_data = Some (bs @ ys)\<rparr>, length (xs @ enc_vdata bs))"
  using make_u16_at [OF assms(1), of "of_nat (length bs)" "bs @ ys"] assms
  by (simp add: read_vdata_def enc_vdata_def be16_def)

text \<open>The fields of a byte.\<close>

lemma bit_small:
  assumes "unat (x :: u8) < 2 ^ n" and "n \<le> k"
  shows "\<not> bit x k"
proof -
  have "take_bit n (unat x) = unat x" using assms(1) by (rule take_bit_nat_eq_self)
  then have "bit (unat x) k = bit (take_bit n (unat x)) k" by simp
  then have "\<not> bit (unat x) k" using assms(2) by (simp add: bit_take_bit_iff)
  then show ?thesis by (simp add: bit_unsigned_iff)
qed

lemma nibbles:
  assumes "(l :: u8) < 16" and "(r :: u8) < 16"
  shows "drop_bit 4 (16 * l + r) AND 15 = l" and "(16 * l + r) AND 15 = r"
proof -
  have l: "bit l k \<Longrightarrow> k < 4" and r: "bit r k \<Longrightarrow> k < 4" for k
    using bit_small [of l 4 k] bit_small [of r 4 k] assms
    by (fastforce simp: word_less_nat_alt)+
  have "16 * l + r = push_bit 4 l + r" by (simp add: push_bit_eq_mult)
  also have "\<dots> = push_bit 4 l OR r"
    by (rule disjunctive_add) (auto simp: bit_simps dest: r)
  finally have sum: "16 * l + r = push_bit 4 l OR r" .
  have mask: "(15 :: u8) = mask 4" by (simp add: mask_eq_exp_minus_1)
  show "drop_bit 4 (16 * l + r) AND 15 = l" and "(16 * l + r) AND 15 = r"
    unfolding sum mask by (rule bit_word_eqI; auto simp: bit_simps dest: l r)+
qed

lemma two_bits: "(t :: u8) < 4 \<Longrightarrow> t = 0 \<or> t = 1 \<or> t = 2 \<or> t = 3"
proof -
  assume "t < 4"
  then have "unat t < 4" by (simp add: word_less_nat_alt)
  then have "unat t = 0 \<or> unat t = 1 \<or> unat t = 2 \<or> unat t = 3" by arith
  then show ?thesis by (auto simp: word_unat_eq_iff)
qed

lemma high_flags:
  assumes "(t :: u8) < 4"
  shows "8 * bit_of x + 4 * bit_of y + t < 16" "(8 * bit_of x + 4 * bit_of y + t) AND 3 = t"
    "drop_bit 3 (8 * bit_of x + 4 * bit_of y + t) AND 1 = bit_of x"
    "drop_bit 2 (8 * bit_of x + 4 * bit_of y + t) AND 1 = bit_of y"
  using two_bits [OF assms] by (auto simp: bit_of_def)

lemma flags:
  assumes "(t :: u8) < 4" and "(l :: u8) < 16" and "b = 128 * bit_of x + 64 * bit_of y + 16 * t + l"
  shows "drop_bit 7 b AND 1 = bit_of x" "drop_bit 6 b AND 1 = bit_of y"
    "drop_bit 4 b AND 3 = t" "b AND 15 = l"
proof -
  let ?h = "8 * bit_of x + 4 * bit_of y + t"
  have b: "b = 16 * ?h + l" by (simp add: assms(3) algebra_simps)
  note h = nibbles [OF high_flags(1) [OF assms(1), of x y] assms(2), folded b]
  show "b AND 15 = l" by (rule h)
  have masks: "(15 :: u8) = mask 4" "(3 :: u8) = mask 2" "(1 :: u8) = mask 1"
    by (simp_all add: mask_eq_exp_minus_1)
  have "drop_bit 7 b AND 1 = drop_bit 3 (drop_bit 4 b AND 15) AND 1"
    "drop_bit 6 b AND 1 = drop_bit 2 (drop_bit 4 b AND 15) AND 1"
    "drop_bit 4 b AND 3 = (drop_bit 4 b AND 15) AND 3"
    unfolding masks by (rule bit_word_eqI; auto simp: bit_simps)+
  then show "drop_bit 7 b AND 1 = bit_of x" "drop_bit 6 b AND 1 = bit_of y" "drop_bit 4 b AND 3 = t"
    unfolding h high_flags [OF assms(1)] .
qed

lemma top_flags:
  "drop_bit 7 (128 * bit_of x + 64 * bit_of y) AND 1 = bit_of x"
  "drop_bit 6 (128 * bit_of x + 64 * bit_of y) AND 1 = bit_of y"
  by (auto simp: bit_of_def)

lemma bit_of_nonzero [simp]: "bit_of b \<noteq> 0 \<longleftrightarrow> b"
  by (simp add: bit_of_def)

text \<open>An item is read as it was written, wherever it stands.\<close>

lemma vdata_text_at [simp]:
  "length bs < 2 ^ 16 \<Longrightarrow> vdata_text \<lparr>vd_len = of_nat (length bs), vd_data = Some (bs @ ys)\<rparr> = bs"
  by (simp add: vdata_text_def)

lemma parse_net:
  assumes "net_ok s"
  shows "yields (prvNetParser (enc_net s @ rest)) (\<lambda>c. net_of c = s)"
proof -
  define config where "config = enc_net s @ rest"
  define p where "p = be16 (ns_mtu s) @
    [16 * ns_linktype s + ns_bandtype s, 128 * bit_of (ns_bs s) + 64 * bit_of (ns_dtls s)]"
  define p1 where "p1 = p @ enc_vdata (ns_apn s)"
  define p2 where "p2 = p1 @ enc_vdata (ns_username s)"
  define p3 where "p3 = p2 @ enc_vdata (ns_password s)"
  define p4 where "p4 = p3 @ enc_vdata (ns_host s)"
  define p5 where "p5 = p4 @ enc_vdata (ns_user_data s)"
  note parts = p1_def p2_def p3_def p4_def p5_def
  note ok = assms [unfolded net_ok_def]
  have at: "\<exists>ys. read_vdata config (length xs) =
      Some (\<lparr>vd_len = of_nat (length bs), vd_data = Some (bs @ ys)\<rparr>, length (xs @ enc_vdata bs))"
    if "config = xs @ enc_vdata bs @ ys" and "length bs < 2 ^ 16" for xs bs ys
    unfolding that(1) using read_vdata_at [OF refl that(2)] by blast
  have config: "config = p @ enc_vdata (ns_apn s) @ enc_vdata (ns_username s) @ enc_vdata (ns_password s) @
      enc_vdata (ns_host s) @ enc_vdata (ns_user_data s) @ rest"
    by (simp add: config_def enc_net_def p_def)
  have short: "length (ns_apn s) < 2 ^ 16" "length (ns_username s) < 2 ^ 16" "length (ns_password s) < 2 ^ 16"
    "length (ns_host s) < 2 ^ 16" "length (ns_user_data s) < 2 ^ 16"
    using ok by auto
  obtain y1 where r1: "read_vdata config (length p) =
      Some (\<lparr>vd_len = of_nat (length (ns_apn s)), vd_data = Some (ns_apn s @ y1)\<rparr>, length p1)"
    using at [of p "ns_apn s" "enc_vdata (ns_username s) @ enc_vdata (ns_password s) @ enc_vdata (ns_host s) @ enc_vdata (ns_user_data s) @ rest"] short by (auto simp: parts config)
  obtain y2 where r2: "read_vdata config (length p1) =
      Some (\<lparr>vd_len = of_nat (length (ns_username s)), vd_data = Some (ns_username s @ y2)\<rparr>, length p2)"
    using at [of p1 "ns_username s" "enc_vdata (ns_password s) @ enc_vdata (ns_host s) @ enc_vdata (ns_user_data s) @ rest"] short by (auto simp: parts config)
  obtain y3 where r3: "read_vdata config (length p2) =
      Some (\<lparr>vd_len = of_nat (length (ns_password s)), vd_data = Some (ns_password s @ y3)\<rparr>, length p3)"
    using at [of p2 "ns_password s" "enc_vdata (ns_host s) @ enc_vdata (ns_user_data s) @ rest"] short by (auto simp: parts config)
  obtain y4 where r4: "read_vdata config (length p3) =
      Some (\<lparr>vd_len = of_nat (length (ns_host s)), vd_data = Some (ns_host s @ y4)\<rparr>, length p4)"
    using at [of p3 "ns_host s" "enc_vdata (ns_user_data s) @ rest"] short by (auto simp: parts config)
  obtain y5 where r5: "read_vdata config (length p4) =
      Some (\<lparr>vd_len = of_nat (length (ns_user_data s)), vd_data = Some (ns_user_data s @ y5)\<rparr>, length p5)"
    using at [of p4 "ns_user_data s" "rest"] short by (auto simp: parts config)
  have head: "prvMakeU16 config 0 = Some (ns_mtu s)"
    "aload config 2 = Some (16 * ns_linktype s + ns_bandtype s)"
    "aload config 3 = Some (128 * bit_of (ns_bs s) + 64 * bit_of (ns_dtls s))"
    using make_u16_at [of 0 "[]" "ns_mtu s"] by (simp_all add: config p_def aload_def nth_append be16_def)
  have "length p = 4" by (simp add: p_def)
  with r1 have first: "read_vdata config 4 = Some (\<lparr>vd_len = of_nat (length (ns_apn s)), vd_data = Some (ns_apn s @ y1)\<rparr>, length p1)"
    by simp
  show ?thesis
    using short nibbles [of "ns_linktype s" "ns_bandtype s"] ok
    unfolding prvNetParser_def config_def [symmetric]
    by (simp add: first r2 r3 r4 r5 head net_of_def top_flags)
qed

lemma parse_sys:
  assumes "sys_ok s"
  shows "yields (prvSysParser (enc_sys s @ rest)) (\<lambda>c. sys_of c = s)"
proof -
  define b where "b = 128 * bit_of (ss_log s) + 64 * bit_of (ss_ext s) + 16 * ss_type s + ss_level s"
  note ok = assms [unfolded sys_ok_def]
  note f = flags [of "ss_type s" "ss_level s" b "ss_log s" "ss_ext s"]
  have c: "enc_sys s @ rest = [b] @ be16 (ss_bufsize s) @ [0] @ be16 (of_nat (length (ss_user_data s))) @
      ss_user_data s @ rest"
    by (simp add: enc_sys_def enc_vdata_def b_def)
  have some: "0 < (of_nat (length (ss_user_data s)) :: u16) \<longleftrightarrow> ss_user_data s \<noteq> []"
    using ok by (simp add: word_less_nat_alt)
  have "aload (enc_sys s @ rest) 0 = Some b" by (simp add: c aload_def)
  moreover have "prvMakeU16 (enc_sys s @ rest) 1 = Some (ss_bufsize s)"
    unfolding c by (rule make_u16_at) simp
  moreover have "prvMakeU16 (enc_sys s @ rest) 4 = Some (of_nat (length (ss_user_data s)))"
    using make_u16_at [of 4 "[b] @ be16 (ss_bufsize s) @ [0]"] unfolding c by simp
  moreover have "drop 6 (enc_sys s @ rest) = ss_user_data s @ rest"
    unfolding c by (simp add: be16_def)
  ultimately show ?thesis
    using ok f [OF _ _ b_def] by (simp add: prvSysParser_def sys_of_def vdata_text_def some)
qed

lemma item_at:
  assumes "length bs + 3 < 2 ^ 16"
  shows "config_items (Suc n) (enc_item cfgid bs @ rest) cf = do {
     result \<leftarrow>
       (if cfgid AND 0x0F = 1 then Some (Some cf)
        else if cfgid AND 0x0F = 2 then map_option (\<lambda>net. Some (cf\<lparr>cf_net := net\<rparr>)) (prvNetParser (bs @ rest))
        else if cfgid AND 0x0F = 3 then map_option (\<lambda>sys. Some (cf\<lparr>cf_sys := sys\<rparr>)) (prvSysParser (bs @ rest))
        else Some None);
     case result of
       None \<Rightarrow> Some (CIS_RET_ERROR, cf)
     | Some cf \<Rightarrow> config_items n rest cf }"
proof -
  have "prvMakeU16 (enc_item cfgid bs @ rest) 1 = Some (of_nat (length bs + 3))"
    using make_u16_at [of 1 "[cfgid]"] by (simp add: enc_item_def)
  moreover have "unat (of_nat (length bs + 3) :: u16) = length (enc_item cfgid bs)"
    using assms by (subst unat_of_nat_id) (simp_all add: enc_item_def)
  moreover have "drop 3 (enc_item cfgid bs @ rest) = bs @ rest" "aload (enc_item cfgid bs @ rest) 0 = Some cfgid"
    by (simp_all add: enc_item_def be16_def aload_def)
  ultimately show ?thesis by (simp add: Let_def)
qed

text \<open>C21. Round trip: what is written as a configuration is what the parser reads, both items.\<close>

theorem config_roundtrip:
  assumes "net_ok net" and "sys_ok sys" and "length (enc_config net sys) < 2 ^ 16"
    and "mal sizeof_context \<noteq> None"
  shows "yields (cis_config_init mal sizeof_context noise (Some (enc_config net sys))
           (of_nat (length (enc_config net sys))))
         (\<lambda>(ret, cf). ret = 0 \<and> map_option (net_of \<circ> cf_net) cf = Some net \<and>
                      map_option (sys_of \<circ> cf_sys) cf = Some sys)"
proof -
  let ?items = "enc_item 2 (enc_net net) @ enc_item 3 (enc_sys sys)"
  define n where "n = (of_nat (length (enc_config net sys)) :: u16)"
  have len: "length (enc_config net sys) = length ?items + 3"
    by (simp add: enc_config_def Let_def)
  have small: "length (enc_net net) + 3 < 2 ^ 16" "length (enc_sys sys) + 3 < 2 ^ 16"
    using assms(3) unfolding len by (simp_all add: enc_item_def)
  have c: "enc_config net sys = [0x12] @ be16 n @ ?items"
    unfolding n_def len by (simp add: enc_config_def Let_def)
  obtain c1 where net: "prvNetParser (enc_net net @ enc_item 3 (enc_sys sys)) = Some c1" "net_of c1 = net"
    using parse_net [OF assms(1)] by (auto simp: yields_iff)
  obtain c2 where sys: "prvSysParser (enc_sys sys @ []) = Some c2" "sys_of c2 = sys"
    using parse_sys [OF assms(2)] by (auto simp: yields_iff simp del: append_Nil2)
  have items: "config_items 2 ?items cf = Some (0, cf\<lparr>cf_net := c1, cf_sys := c2\<rparr>)" for cf
    using item_at [OF small(1), of 1 2 "enc_item 3 (enc_sys sys)" cf]
      item_at [OF small(2), of 0 3 "[]" "cf\<lparr>cf_net := c1\<rparr>"] net sys
    by (simp add: numeral_2_eq_2)
  have "prvMakeU16 (enc_config net sys) 1 = Some n"
    using make_u16_at [of 1 "[0x12]" n ?items] unfolding c [symmetric] by simp
  moreover have "aload (enc_config net sys) 0 = Some 0x12" "drop 3 (enc_config net sys) = ?items"
    unfolding c by (simp_all add: aload_def be16_def)
  moreover have "unat n = length (enc_config net sys)" unfolding n_def using assms(3) by simp
  then have "n \<noteq> 0" by (auto simp: len)
  ultimately show ?thesis
    using assms(4) items net sys by (auto simp: cis_config_init_def Let_def n_def [symmetric])
qed

definition some_net :: net_setting where
  "some_net = \<lparr>ns_mtu = 1024, ns_linktype = 1, ns_bandtype = 2, ns_bs = False, ns_dtls = True, ns_apn = [],
     ns_username = [0x75], ns_password = [0x70, 0x77], ns_host = [0x68], ns_user_data = []\<rparr>"

definition some_sys :: sys_setting where
  "some_sys = \<lparr>ss_log = True, ss_ext = False, ss_type = 1, ss_level = 5, ss_bufsize = 200, ss_user_data = [7]\<rparr>"

theorem config_roundtrip_witness:
  "net_ok some_net \<and> sys_ok some_sys \<and>
   (\<forall>noise. yields (cis_config_init calloc 100 noise (Some (enc_config some_net some_sys)) 34)
     (\<lambda>(ret, cf). ret = 0 \<and> map_option (net_of \<circ> cf_net) cf = Some some_net \<and>
                  map_option (sys_of \<circ> cf_sys) cf = Some some_sys))"
proof -
  have ok: "net_ok some_net" "sys_ok some_sys"
    by (simp_all add: net_ok_def sys_ok_def some_net_def some_sys_def)
  have "length (enc_config some_net some_sys) = 34"
    by (simp add: enc_config_def Let_def enc_item_def enc_net_def enc_sys_def enc_vdata_def some_net_def some_sys_def)
  with config_roundtrip [OF ok, of calloc 100] ok show ?thesis
    by (simp add: calloc_def)
qed

end
