(* ===== verification/Cis_Core.thy ===== *)
theory Cis_Core
  imports Cis_Config
begin

text \<open>
  \<open>cis_init\<close> and \<open>cis_deinit\<close> of \<open>cis_core.c\<close>: from the configuration to a context that the pump can
  run. The device management (\<open>DMconf\<close>) is off, so that the name of the device is made of its IMEI and
  IMSI; DTLS is off at run time, the flag and the key of the configuration are read and dropped.
\<close>

section \<open>The configuration\<close>

text \<open>What the platform gives: a random number, the identities of the device, sizes and memory contents.\<close>

record startup =
  su_rand :: u32
  su_imei :: bytes
  su_imsi :: bytes
  su_sizeof_context :: u32
  su_sizeof_config :: u32
  su_noise :: cfg_context

text \<open>
  \<open>prv_makeDeviceName\<close>: the returned number and the name. Two identities of full length leave the last
  byte of the block unwritten, in which the terminator should be (\<open>None\<close>).
\<close>

definition prv_makeDeviceName :: "allocator \<Rightarrow> bytes \<Rightarrow> bytes \<Rightarrow> (int \<times> bytes) option" where
  "prv_makeDeviceName mal imei imsi =
     (if mal 34 = None then Some (-1, [])
      else if 16 < length imei \<or> 16 < length imsi \<or> length imei + length imsi = 32 then None
      else if imei = [] \<or> imsi = [] \<or> utils_strlen (imei @ [0x3B] @ imsi) = 0 then Some (0, [])
      else Some (int (length imei + length imsi), c_string (imei @ [0x3B] @ imsi)))"

text \<open>The place of a byte in memory; without one the loop runs out of it.\<close>

fun byte_at :: "u8 \<Rightarrow> bytes \<Rightarrow> nat option" where
  "byte_at c [] = None"
| "byte_at c (b # bs) = (if b = c then Some 0 else map_option Suc (byte_at c bs))"

text \<open>
  \<open>AuthCode:...;\<close> and \<open>PSK:...;\<close> at the beginning of the user data: the text, and the pointer behind it.
  The prefix is copied before it is compared.
\<close>

definition prefixed_text :: "allocator \<Rightarrow> bytes \<Rightarrow> bytes option \<Rightarrow> (bytes option \<times> bytes option) option" where
  "prefixed_text mal prefix data = do {
     p \<leftarrow> data;
     temp \<leftarrow> aslice p 0 (length prefix);
     if temp \<noteq> prefix then Some (None, data)
     else do {
       n \<leftarrow> byte_at 0x3B (drop (length prefix) p);
       let back_len = (of_nat (length prefix + n) :: u16);
       let len = back_len - of_nat (length prefix);
       text \<leftarrow> (if len = 0 then Some None
                 else do {
                   _ \<leftarrow> mal (ucast len + 1);
                   t \<leftarrow> aslice p (length prefix) (unat len);
                   Some (Some (c_string t)) });
       Some (text, Some (drop (unat back_len + 1) p)) } }"

abbreviation (input) text_authcode :: bytes where
  "text_authcode \<equiv> [0x41, 0x75, 0x74, 0x68, 0x43, 0x6F, 0x64, 0x65, 0x3A]"

abbreviation (input) text_psk :: bytes where
  "text_psk \<equiv> [0x50, 0x53, 0x4B, 0x3A]"

text \<open>
  The address is a text up to the first zero, whatever the length of the item says; its last five
  characters are taken for a colon and a port. The address goes into 16 bytes.
\<close>

definition split_host :: "allocator \<Rightarrow> bytes option \<Rightarrow> (bytes \<times> bytes) option" where
  "split_host mal data = do {
     p \<leftarrow> data;
     n \<leftarrow> byte_at 0 p;
     if n < 5 \<or> 20 < n then None
     else do {
       _ \<leftarrow> mal 5;
       Some (take (n - 5) p, take 4 (drop (n - 4) p)) } }"

section \<open>Starting\<close>

text \<open>The context after \<open>memset\<close>; \<open>PUMP_STATE_INITIAL\<close> is 0.\<close>

definition blank_context :: "u16 \<Rightarrow> st_context" where
  "blank_context mid =
     \<lparr>cx_endpointName = [], cx_altPath = None, cx_nextMid = mid, cx_nextObserveNum = 0,
      cx_nextNotifyId = 0, cx_stateStep = PUMP_STATE_INITIAL, cx_server = None,
      cx_bootstrapServer = None, cx_requestList = [], cx_notifyList = [], cx_objectList = [],
      cx_observedList = [], cx_transactionList = [], cx_replyOf = (\<lambda>_. None), cx_instSecurity = [],
      cx_conn_inst = [], cx_moniter_inst = [], cx_moniter_created = False, cx_lifetime = 0, cx_lifetimeWarnningTime = 0, cx_lasttime = 0, cx_registerEnabled = False,
      cx_bootstrapEanbled = False, cx_onEvent = False, cx_isDM = False, cx_authCode = None,
      cx_errorMessage = []\<rparr>"

text \<open>\<open>std_security_create\<close> on the security object in the list.\<close>

definition create_security :: "cis_env \<Rightarrow> st_context \<Rightarrow> u32 \<Rightarrow> bytes \<Rightarrow> bool \<Rightarrow> st_context option" where
  "create_security env cx instanceId host isBootstrap = do {
     (_, cx, obj) \<leftarrow> std_security_create env cx instanceId host isBootstrap (prv_findObject cx 0);
     Some (case obj of None \<Rightarrow> cx | Some obj \<Rightarrow> write_object obj cx) }"

definition init_objects :: "cis_env \<Rightarrow> st_context \<Rightarrow> bytes \<Rightarrow> (int \<times> st_context option) option" where
  "init_objects env cx host = do {
     (_, cx) \<leftarrow> cis_addobject env cx 0 None None;
     if prv_findObject cx 0 = None then Some (CIS_RET_ERROR, Some cx)
     else do {
       cx \<leftarrow> (if cx_bootstrapEanbled cx
               then do {
                 cx \<leftarrow> create_security env cx 0 [] False;
                 create_security env cx 1 host True }
               else create_security env cx 0 host False);
       Some (CIS_RET_OK, Some (cx\<lparr>cx_stateStep := PUMP_STATE_INITIAL\<rparr>)) } }"

text \<open>
  \<open>cis_init\<close>: the returned code and what \<open>*context\<close> points to afterwards. The early returns behind the
  reading of the configuration leave the unfinished context there.
\<close>

definition cis_init ::
  "cis_env \<Rightarrow> startup \<Rightarrow> st_context option \<Rightarrow> bytes option \<Rightarrow> u16 \<Rightarrow> (int \<times> st_context option) option" where
  "cis_init env su context config len =
     (let mal = pf_malloc env in
      if context \<noteq> None then Some (CIS_RET_EXIST, context)
      else if mal (su_sizeof_context su) = None then Some (CIS_RET_ERROR, None)
      else do {
        (ret, cf) \<leftarrow> cis_config_init mal (su_sizeof_config su) (su_noise su) config len;
        if ret < 0 then Some (CIS_RET_ERROR, None)
        else do {
          cf \<leftarrow> cf;
          let cx = blank_context (ucast (su_rand su));
          (n, name) \<leftarrow> prv_makeDeviceName mal (su_imei su) (su_imsi su);
          if n \<le> 0 then Some (CIS_RET_ERROR, Some cx)
          else do {
            let net = cf_net cf;
            (auth, data) \<leftarrow> prefixed_text mal text_authcode (vd_data (cn_user_data net));
            _ \<leftarrow> prefixed_text mal text_psk data;
            (host, _) \<leftarrow> split_host mal (vd_data (cn_host net));
            let cx = cx\<lparr>cx_endpointName := name, cx_authCode := auth,
                        cx_bootstrapEanbled := (cn_bs_enabled net \<noteq> 0)\<rparr>;
            if host = [] then Some (CIS_RET_ERROR, Some cx)
            else init_objects env cx host } } })"

section \<open>Ending\<close>

text \<open>
  Everything is freed; what is seen of it are the sessions of the servers. An instance of the monitor
  object that a read has stored in the other list is freed twice (\<open>None\<close>).
\<close>

definition prv_localDeinit :: "st_context \<Rightarrow> cis_event list option" where
  "prv_localDeinit cx = do {
     let cx = std_security_clean cx;
     let cx = observe_removeAll cx;
     let cx = cx\<lparr>cx_transactionList := transaction_removeAll (cx_transactionList cx)\<rparr>;
     let cx = object_removeAll (packet_asynRemoveNotifyAll (packet_asynRemoveRequestAll cx));
     let (cx, evs) = prv_deleteServer cx;
     let (freed, cx) = std_conn_moniter_clean cx;
     _ \<leftarrow> std_moniter_clean freed cx;
     Some evs }"

abbreviation (input) CIS_RET_PENDING :: int where "CIS_RET_PENDING \<equiv> -10"

definition cis_deinit :: "st_context option \<Rightarrow> (int \<times> st_context option \<times> cis_event list) option" where
  "cis_deinit context = do {
     cx \<leftarrow> context;
     if cx_registerEnabled cx then Some (CIS_RET_PENDING, Some cx, [])
     else map_option (\<lambda>evs. (CIS_RET_OK, None, evs)) (prv_localDeinit cx) }"

definition cis_check_object_instance_id :: "st_context \<Rightarrow> st_uri \<Rightarrow> int option" where
  "cis_check_object_instance_id cx uri =
     (case cis_list_find oj_objID (cx_objectList cx) (ucast (uri_objectId uri)) of
        None \<Rightarrow> Some CIS_RET_ERROR
      | Some obj \<Rightarrow>
          map_option (\<lambda>found. if found then CIS_RET_OK else CIS_RET_ERROR)
            (object_checkInstExisted (oj_instBitmapPtr obj) (uri_instanceId uri)))"

end
