(* ===== verification/Cis_Client.thy ===== *)
theory Cis_Client
  imports Cis_Reach Cis_Core
begin

text \<open>
  The client as a state machine: \<open>cis_init\<close>, then the pump, the public functions and the events of the
  network in any order. The invariant holds in every state that is reached, and what follows from it.
\<close>

section \<open>Initialisation\<close>

lemma add_bits_length: "keeps (add_bits ts bitmap) (\<lambda>b. length b = length bitmap)"
proof (induction ts arbitrary: bitmap)
  case (Cons t ts)
  show ?case
    by (auto simp: aload_def astore_def Let_def intro: keeps_mono [OF Cons.IH])
qed simp

lemma room_of_count:
  assumes "(n :: u16) \<noteq> 0" and "(n - 1) div 8 + 1 \<le> m"
  shows "unat n \<le> 8 * unat m"
proof -
  have n: "unat (n - 1) = unat n - 1" using assms(1) by (rule unat_minus_one)
  have d: "unat ((n - 1) div 8) = (unat n - 1) div 8" by (simp add: unat_div n)
  have "unat n < 2 ^ 16" using unsigned_less [of n, where 'a = nat] by simp
  moreover have "0 < unat n" using assms(1) by (simp add: word_unat_eq_iff)
  ultimately have "(unat n - 1) div 8 + 1 < 2 ^ 16" using div_le_dividend [of "unat n - 1" 8] by linarith
  then have "unat ((n - 1) div 8 + 1) = (unat n - 1) div 8 + 1"
    using unat_word_ariths(1) [of "(n - 1) div 8" 1] by (simp add: d)
  then have "(unat n - 1) div 8 + 1 \<le> unat m" using assms(2) by (simp add: word_le_nat_alt)
  then show ?thesis by arith
qed

text \<open>The bitmap of the grown security object.\<close>

lemma grown_object_ok:
  assumes "\<And>n d. (mal :: allocator) n = Some d \<Longrightarrow> length d = unat n" and "object_ok obj" and "n \<noteq> 0"
  defines "bytes \<equiv> (n - 1) div 8 + (1 :: u16)"
  defines "obj1 \<equiv> obj\<lparr>oj_instBitmapCount := n\<rparr>"
  defines "obj2 \<equiv> (if oj_instBitmapBytes obj1 < bytes
    then obj1\<lparr>oj_instBitmapPtr := mal (ucast bytes), oj_instBitmapBytes := bytes\<rparr> else obj1)"
  assumes "oj_instBitmapPtr obj2 = Some old" and "length bitmap = length old"
  shows "object_ok (obj2\<lparr>oj_instBitmapPtr := Some bitmap\<rparr>)"
proof -
  have u: "unat (ucast bytes :: u32) = unat bytes" by (simp add: unsigned_ucast_eq)
  have room: "unat n \<le> 8 * unat (oj_instBitmapBytes obj2)"
    by (rule room_of_count [OF assms(3)]) (auto simp: obj2_def bytes_def)
  have "length old = unat (oj_instBitmapBytes obj2)"
    using assms(1) [of "ucast bytes"] assms(2,7)
    by (auto simp: u obj2_def obj1_def object_ok_def split: if_splits)
  moreover have "oj_instBitmapCount obj2 = n" by (simp add: obj2_def obj1_def)
  ultimately show ?thesis using room assms(8) by (simp add: object_ok_def)
qed

lemma grow_bitmap_ok:
  assumes "\<And>n d. (mal :: allocator) n = Some d \<Longrightarrow> length d = unat n" and "object_ok obj" and "n \<noteq> 0"
    and "\<And>o'. object_ok o' \<Longrightarrow> oj_objID o' = oj_objID obj \<Longrightarrow> Q (f o')"
  shows "keeps (do {
      let obj = obj\<lparr>oj_instBitmapCount := n\<rparr>;
      let obj = (if oj_instBitmapBytes obj < (n - 1) div 8 + 1
                 then obj\<lparr>oj_instBitmapPtr := mal (ucast ((n - 1) div 8 + 1)), oj_instBitmapBytes := (n - 1) div 8 + 1\<rparr>
                 else obj);
      old \<leftarrow> oj_instBitmapPtr obj;
      zeroed \<leftarrow> ablit old 0 zs;
      bitmap \<leftarrow> add_bits ts zeroed;
      Some (f (obj\<lparr>oj_instBitmapPtr := Some bitmap\<rparr>)) }) Q"
proof -
  define obj1 where "obj1 = obj\<lparr>oj_instBitmapCount := n\<rparr>"
  define obj2 where "obj2 = (if oj_instBitmapBytes obj1 < (n - 1) div 8 + 1
    then obj1\<lparr>oj_instBitmapPtr := mal (ucast ((n - 1) div 8 + 1)), oj_instBitmapBytes := (n - 1) div 8 + 1\<rparr>
    else obj1)"
  have id: "oj_objID obj2 = oj_objID obj" by (simp add: obj2_def obj1_def)
  have "keeps (do { old \<leftarrow> oj_instBitmapPtr obj2; zeroed \<leftarrow> ablit old 0 zs; bitmap \<leftarrow> add_bits ts zeroed;
      Some (f (obj2\<lparr>oj_instBitmapPtr := Some bitmap\<rparr>)) }) Q"
  proof (cases "oj_instBitmapPtr obj2")
    case (Some old)
    have "object_ok (obj2\<lparr>oj_instBitmapPtr := Some bitmap\<rparr>)" if "length bitmap = length old" for bitmap
      using grown_object_ok [OF assms(1-3), folded obj1_def] Some that unfolding obj2_def by blast
    then have good: "Q (f (obj2\<lparr>oj_instBitmapPtr := Some bitmap\<rparr>))" if "length bitmap = length old" for bitmap
      using that assms(4) id by simp
    have "keeps (add_bits ts zeroed) (\<lambda>bitmap. Q (f (obj2\<lparr>oj_instBitmapPtr := Some bitmap\<rparr>)))"
      if "length zeroed = length old" for zeroed
      using add_bits_length by (rule keeps_mono) (simp add: good that)
    then show ?thesis by (simp add: Some ablit_def)
  qed simp
  then show ?thesis by (simp only: Let_def obj1_def obj2_def)
qed

lemma security_create_ok:
  assumes "\<And>n d. pf_malloc env n = Some d \<Longrightarrow> length d = unat n" and "cx_ok cx" and "object_ok obj"
  shows "keeps (std_security_create env cx iid host bs (Some obj))
    (\<lambda>(_, cx', obj'). cx_ok cx' \<and> cx_objectList cx' = cx_objectList cx \<and>
       (case obj' of None \<Rightarrow> False | Some o' \<Rightarrow> object_ok o' \<and> oj_objID o' = oj_objID obj))"
    (is "keeps _ ?Q")
proof -
  note grow = grow_bitmap_ok [OF assms(1,3), unfolded Let_def]
  have "if": "(c \<Longrightarrow> keeps A Q) \<Longrightarrow> (\<not> c \<Longrightarrow> keeps B Q) \<Longrightarrow> keeps (if c then A else B) Q"
    for c A B and Q :: "(bool \<times> st_context \<times> st_object option) \<Rightarrow> bool"
    by simp
  show ?thesis
    unfolding std_security_create_def option.case Let_def
    by (intro "if" grow) (use assms(2,3) in auto)
qed

lemma create_security_ok:
  assumes "\<And>n d. pf_malloc env n = Some d \<Longrightarrow> length d = unat n" and "cx_ok cx"
  shows "keeps (create_security env cx iid host bs) cx_ok"
proof (cases "prv_findObject cx 0")
  case None
  then show ?thesis using assms(2) by (simp add: create_security_def std_security_create_def)
next
  case (Some obj)
  then have "obj \<in> set (cx_objectList cx)"
    using assms(2) cis_list_find_iff by (fastforce simp: cx_ok_def prv_findObject_def)
  then have "object_ok obj" using assms(2) by (auto simp: cx_ok_def list_all_iff)
  from security_create_ok [OF assms this] show ?thesis
    unfolding create_security_def Some keeps_bind
    by (rule keeps_mono) (auto simp: write_object_ok split: option.splits)
qed

lemma blank_context_ok [simp]: "cx_ok (blank_context mid)"
  by (simp add: blank_context_def cx_ok_def cis_list_ok_def observations_ok_def)

lemma cx_ok_start [simp]:
  "cx_ok (cx\<lparr>cx_endpointName := n, cx_authCode := a, cx_bootstrapEanbled := b\<rparr>) = cx_ok cx"
  "cx_ok cx \<Longrightarrow> cx_ok (cx\<lparr>cx_stateStep := PUMP_STATE_INITIAL\<rparr>)"
  by (simp_all add: cx_ok_def)

lemma cis_init_ok:
  assumes "\<And>n d. pf_malloc env n = Some d \<Longrightarrow> length d = unat n"
  shows "keeps (cis_init env su None config len) (\<lambda>(_, context). case context of None \<Rightarrow> True | Some cx \<Rightarrow> cx_ok cx)"
proof -
  note create = create_security_ok [OF assms]
  have objects: "keeps (init_objects env cx host) (\<lambda>(_, context). case context of None \<Rightarrow> True | Some cx \<Rightarrow> cx_ok cx)"
    if "cx_ok cx" for cx host
  proof -
    have add: "keeps (cis_addobject env cx 0 None None) (\<lambda>x. cx_ok (snd x))"
      using add_object_ok [OF that] by (simp add: case_prod_beta')
    show ?thesis
      unfolding init_objects_def
      by (auto simp: split_beta intro!: keeps_mono [OF add] keeps_mono [OF create])
  qed
  show ?thesis
    unfolding cis_init_def
    by (auto simp: Let_def split_beta intro!: keeps_any objects)
qed

section \<open>Steps\<close>

text \<open>
  What the application and the network may do with a context, each with the platform as it is at that
  moment. A call that runs into undefined behaviour ends the run.
\<close>

datatype client_call =
    Pump cis_env
  | NetEvent cisnet_event
  | Register int bool
  | Unregister
  | UpdateReg int bool
  | AddObject cis_env u16 "inst_bitmap option" "(u16 \<times> u16) option"
  | DelObject u16
  | Response cis_env "st_uri option" "cis_data option" u32 u8
  | Notify cis_env "st_uri option" "cis_data option" u32 u8

fun client_step :: "client_call \<Rightarrow> st_context \<Rightarrow> st_context option" where
  "client_step (Pump env) cx = map_option (\<lambda>(_, cx, _). cx) (cis_pump env cx)"
| "client_step (NetEvent evt) cx = prv_onNetEventHandler cx evt"
| "client_step (Register lifetime complete) cx = Some (snd (cis_register cx lifetime complete))"
| "client_step Unregister cx = Some (snd (cis_unregister cx))"
| "client_step (UpdateReg lifetime withObjects) cx = Some (snd (cis_update_reg cx lifetime withObjects))"
| "client_step (AddObject env oid bitmap res) cx = map_option snd (cis_addobject env cx oid bitmap res)"
| "client_step (DelObject oid) cx = Some (snd (cis_delobject cx oid))"
| "client_step (Response env uri data mid result) cx = map_option snd (cis_response env cx uri data mid result)"
| "client_step (Notify env uri data mid result) cx = map_option snd (cis_notify env cx uri data mid result)"

fun call_ok :: "client_call \<Rightarrow> bool" where
  "call_ok (Pump env) = env_ok env"
| "call_ok _ = True"

inductive client_reach :: "st_context \<Rightarrow> bool" where
  start: "\<lbrakk>env_ok env; cis_init env su None config len = Some (CIS_RET_OK, Some cx)\<rbrakk> \<Longrightarrow> client_reach cx"
| step: "\<lbrakk>client_reach cx; call_ok call; client_step call cx = Some cx'\<rbrakk> \<Longrightarrow> client_reach cx'"

lemma net_event_ok: "cx_ok cx \<Longrightarrow> keeps (prv_onNetEventHandler cx evt) cx_ok"
  by (cases evt) (auto simp: prv_onNetEventHandler_def Let_def keeps_def)

lemma public_functions_ok:
  assumes "cx_ok cx"
  shows "cx_ok (snd (cis_register cx lifetime complete))" "cx_ok (snd (cis_unregister cx))"
    "cx_ok (snd (cis_update_reg cx lifetime withObjects))"
  using assms
  by (auto simp: cis_register_def cis_unregister_def cis_update_reg_def registration_update_registration_def
      Let_def split: option.split)

lemma client_step_ok:
  assumes "call_ok call" and "cx_ok cx"
  shows "keeps (client_step call cx) cx_ok"
  using assms cis_pump_ok add_object_ok response_ok net_event_ok public_functions_ok delete_object_ok
  by (cases call) (simp_all add: case_prod_beta')

lemma client_reach_ok: "client_reach cx \<Longrightarrow> cx_ok cx"
proof (induction rule: client_reach.induct)
  case (start env su config len cx)
  have "keeps (cis_init env su None config len) (\<lambda>(_, context). case context of None \<Rightarrow> True | Some cx \<Rightarrow> cx_ok cx)"
    by (rule cis_init_ok) (use start in \<open>auto simp: env_ok_def\<close>)
  with start show ?case by simp
next
  case (step cx call cx')
  with client_step_ok show ?case by (auto simp: keeps_def)
qed

text \<open>A sequence of calls.\<close>

fun client_run :: "client_call list \<Rightarrow> st_context \<Rightarrow> st_context option" where
  "client_run [] cx = Some cx"
| "client_run (c # cs) cx = client_step c cx \<bind> client_run cs"

lemma client_run_reach: "client_reach cx \<Longrightarrow> list_all call_ok cs \<Longrightarrow> client_run cs cx = Some cx' \<Longrightarrow> client_reach cx'"
proof (induction cs arbitrary: cx)
  case (Cons c cs)
  from Cons.prems(3) obtain cx1 where "client_step c cx = Some cx1" "client_run cs cx1 = Some cx'"
    by (cases "client_step c cx") auto
  with Cons show ?case by (auto intro: client_reach.step)
qed simp

end
