(* ===== verification/Cis_Client_Contract.thy ===== *)
theory Cis_Client_Contract
  imports Cis_Client
begin

text \<open>
  What the client as a whole promises: the invariant of the reachable contexts, who may make it call the
  application, what happens to requests nobody answers, and the states it does not get out of.
\<close>

section \<open>A concrete client\<close>

text \<open>A platform on which everything succeeds, a configuration without bootstrap and the calls up to registering.\<close>

definition quiet_env :: "int \<Rightarrow> cis_env" where
  "quiet_env now =
     \<lparr>pf_malloc = calloc, pf_time = now, pf_sizeof_transaction = 64, pf_sizeof_packet = 256,
      pf_noise = replicate 8 0, env_net = (\<lambda>_ _. True), env_noise8 = replicate 8 0, env_sizeof_request = 64,
      env_sizeof_observed = 64, env_sizeof_attr = 64, env_sizeof_notify = 64, env_sizeof_data = 64,
      env_float_text = (\<lambda>_. Fail), env_stp_bad = (\<lambda>_ _ _. False), env_onRead = (\<lambda>_ _. COAP_206_CONFORM),
      env_onWrite = (\<lambda>_ _ _. COAP_206_CONFORM), env_onExec = (\<lambda>_ _ _. COAP_206_CONFORM),
      env_onObserve = (\<lambda>_ _ _. COAP_206_CONFORM), env_onSetParams = Some (\<lambda>_ _ _. COAP_206_CONFORM),
      env_onDiscover = (\<lambda>_ _. COAP_206_CONFORM), env_reading = (\<lambda>_. 0),
      env_dm_read = (\<lambda>_ _. []), env_behind = (\<lambda>_. []),
      env_text_float = (\<lambda>_ _. Fail), env_float_negative = (\<lambda>_. False), env_narrow = (\<lambda>_. 0),
      env_notify_time = (\<lambda>_. 0), env_sizeof_security = 64, env_sizeof_server = 64,
      env_net_attached = True, env_net_create = (\<lambda>_. Some 1), env_net_connect = (\<lambda>_. True),
      env_net_read = (\<lambda>_. None), env_dm_query = (\<lambda>_. None)\<rparr>"

definition start_net :: net_setting where
  "start_net = \<lparr>ns_mtu = 1024, ns_linktype = 1, ns_bandtype = 2, ns_bs = False, ns_dtls = False, ns_apn = [],
     ns_username = [], ns_password = [], ns_host = map of_char ''10.0.0.1:5683'', ns_user_data = replicate 10 0\<rparr>"

definition some_startup :: startup where
  "some_startup = \<lparr>su_rand = 7, su_imei = [0x31, 0x32], su_imsi = [0x33], su_sizeof_context = 400,
     su_sizeof_config = 100,
     su_noise = prvDefaultConfig \<lparr>cf_version = 0, cf_cfgcount = 0, cf_bytes = 0,
       cf_net = \<lparr>cn_mtu = 0, cn_linktype = 0, cn_bandtype = 0, cn_bs_enabled = 0, cn_dtls_enabled = 0,
          cn_apn = no_vdata, cn_username = no_vdata, cn_password = no_vdata, cn_host = no_vdata, cn_user_data = no_vdata\<rparr>,
       cf_sys = \<lparr>cs_log_enabled = 0, cs_log_ext_output = 0, cs_log_output_type = 0, cs_log_output_level = 0,
          cs_log_buffer_size = 0, cs_user_data = no_vdata\<rparr>\<rparr>\<rparr>"

definition start_config :: bytes where
  "start_config = enc_config start_net some_sys"

definition registering :: "client_call list" where
  "registering = [Register 3600 True, Pump (quiet_env 100), Pump (quiet_env 101), Pump (quiet_env 102),
     Pump (quiet_env 103), NetEvent cisnet_event_connected, Pump (quiet_env 104), Pump (quiet_env 105)]"

lemma quiet_env_ok [simp]: "env_ok (quiet_env now)"
  by (auto simp: env_ok_def quiet_env_def calloc_def split: if_splits)

definition start_result :: "(int \<times> st_context option) option" where
  "start_result = cis_init (quiet_env 100) some_startup None (Some start_config) 53"

lemma registering_runs:
  "(case start_result of
      Some (r, Some cx) \<Rightarrow> r = 0 \<and> map_option cx_stateStep (client_run registering cx) = Some PUMP_STATE_REGISTERING
    | _ \<Rightarrow> False)"
  by code_simp

lemma registering_reached:
  obtains cx where "client_reach cx" and "cx_stateStep cx = PUMP_STATE_REGISTERING"
proof -
  obtain cx0 where init: "cis_init (quiet_env 100) some_startup None (Some start_config) 53 = Some (0, Some cx0)"
    and run: "map_option cx_stateStep (client_run registering cx0) = Some PUMP_STATE_REGISTERING"
    using registering_runs by (auto simp: start_result_def split: option.splits)
  obtain cx where cx: "client_run registering cx0 = Some cx" "cx_stateStep cx = PUMP_STATE_REGISTERING"
    using run by auto
  have "client_reach cx0" by (rule client_reach.start [OF quiet_env_ok init])
  then have "client_reach cx"
    by (rule client_run_reach [OF _ _ cx(1)]) (simp add: registering_def)
  with cx(2) that show thesis by blast
qed

section \<open>The invariant\<close>

text \<open>C3. Every context that the pump, the public functions and the network can bring about, in any order, from
  one that \<open>cis_init\<close> has made without a device-management configuration, is well formed: the requests and
  the objects are in the order of their identifiers, no URI is observed twice, the tokens fit their
  fields, observations are reported as plain text, the bitmap of every object has room for its instances,
  and in the states in which the pump uses the server there is one. The standard objects that a request
  of the server makes the client add on the way are included.
\<close>

theorem reachable_well_formed: "client_reach cx \<Longrightarrow> cx_ok cx"
  by (rule client_reach_ok)

theorem reachable_well_formed_witness:
  "\<exists>cx. client_reach cx \<and> cx_ok cx \<and> cx_stateStep cx = PUMP_STATE_REGISTERING"
  using registering_reached reachable_well_formed by metis

text \<open>The pump never looks for a server that is not there: while it registers, or is ready, the pointer
  to the server is not null, whatever was called before and in whatever order.
\<close>

theorem reachable_server_present:
  assumes "client_reach cx" and "needs_server (cx_stateStep cx)"
  shows "cx_server cx \<noteq> None"
  using client_reach_ok [OF assms(1)] assms(2) by (simp add: cx_ok_def)

section \<open>Who is asked\<close>

text \<open>The URI with which the application is called.\<close>

fun called :: "cis_event \<Rightarrow> st_uri option" where
  "called (OnRead u mid) = Some u"
| "called (OnWrite u data mid) = Some u"
| "called (OnExec u args mid) = Some u"
| "called (OnObserve u flag mid) = Some u"
| "called (OnSetParams u attr mid) = Some u"
| "called (OnDiscover u mid) = Some u"
| "called _ = None"

fun sets_params :: "cis_event \<Rightarrow> bool" where
  "sets_params (OnSetParams u attr mid) = True"
| "sets_params _ = False"

definition silent :: "cis_event list \<Rightarrow> bool" where
  "silent evs \<longleftrightarrow> (\<forall>e \<in> set evs. called e = None)"

lemma silent_simps [simp]: "silent []" "silent (e # evs) \<longleftrightarrow> called e = None \<and> silent evs"
  "silent (evs @ evs') \<longleftrightarrow> silent evs \<and> silent evs'" "silent (core_callbackEvent cx ev p)"
  by (auto simp: silent_def core_callbackEvent_def)

lemma packet_send_silent: "keeps (packet_send env cx message) (\<lambda>x. silent (snd x))"
  by (auto simp: packet_send_def Let_def split_beta intro!: keeps_any split: option.split)

lemma reply_silent: "keeps (call_back env cx mid packet) (\<lambda>x. silent (snd x))"
proof -
  have "keeps (prv_handleRegistrationReply env cx packet) (\<lambda>x. silent (snd x))"
    and "keeps (prv_handleRegistrationUpdateReply env cx packet) (\<lambda>x. silent (snd x))"
    by (auto simp: prv_handleRegistrationReply_def prv_handleRegistrationUpdateReply_def Let_def
        intro!: keeps_any split: option.split)
  then show ?thesis
    by (auto simp: call_back_def intro!: keeps_any split: reply_handler.split)
qed

lemma run_events_silent: "keeps (run_events env cx es) (\<lambda>x. silent (snd x))"
proof (induction es arbitrary: cx)
  case (Cons e es)
  have one: "keeps (run_event env cx e) (\<lambda>x. silent (snd x))"
    by (cases e) (auto simp: reply_silent split_beta intro: packet_send_silent split: nat.split)
  show ?case
    unfolding run_events.simps keeps_bind
    using one by (rule keeps_mono) (auto simp: split_beta intro: keeps_mono [OF Cons.IH])
qed simp

lemma handle_reply_silent: "keeps (handle_reply env cx message) (\<lambda>x. silent (snd (snd x)))"
proof -
  have response: "keeps (context_handleResponse env cx' message b) (\<lambda>x. silent (snd (snd x)))" for cx' b
    by (auto simp: context_handleResponse_def split_beta intro!: keeps_skip run_events_silent)
  show ?thesis
    unfolding handle_reply_def
    by (auto simp: split_beta intro!: keeps_any [where m = "prv_handleReset cx m" for cx m]
        keeps_mono [OF response] keeps_mono [OF packet_send_silent] split: coap_message_type.split)
qed

text \<open>A call that the state of the client permits.\<close>

definition permitted :: "st_context \<Rightarrow> cis_event \<Rightarrow> bool" where
  "permitted cx e \<longleftrightarrow> (case called e of None \<Rightarrow> True | Some u \<Rightarrow>
     sets_params e \<or> uri_objectId u = 0 \<or> prv_findObject cx (uri_objectId u) \<noteq> None)"

lemma permitted_simps [simp]:
  "prv_findObject cx (uri_objectId u) = Some obj \<Longrightarrow> permitted cx (OnRead u mid)"
  "prv_findObject cx (uri_objectId u) = Some obj \<Longrightarrow> permitted cx (OnExec u args mid)"
  "prv_findObject cx (uri_objectId u) = Some obj \<Longrightarrow> permitted cx (OnObserve u flag mid)"
  "prv_findObject cx (uri_objectId u) = Some obj \<Longrightarrow> permitted cx (OnDiscover u mid)"
  "permitted cx (OnSetParams u attr mid)"
  by (simp_all add: permitted_def)

abbreviation all_permitted :: "st_context \<Rightarrow> cis_event list \<Rightarrow> bool" where
  "all_permitted cx evs \<equiv> \<forall>e \<in> set evs. permitted cx e"

lemma silent_permitted: "silent evs \<Longrightarrow> all_permitted cx evs"
  by (auto simp: silent_def permitted_def)

lemma uri_make_object: "uri_objectId (snd (uri_make a b c)) = 0 \<or> uri_objectId (snd (uri_make a b c)) = a"
  by (auto simp: uri_make_def Let_def uri_zero_def set_object_def set_instance_def set_resource_def)

lemma push_conform_permitted:
  "all_permitted cx evs \<Longrightarrow> keeps (push_conform env cx' message type result evs) (\<lambda>x. all_permitted cx (snd (snd x)))"
  by (auto simp: push_conform_def split_beta intro!: keeps_any)

lemma answer_now_silent: "keeps (answer_now env cx uri message type format ds) (\<lambda>x. silent (snd x))"
  unfolding answer_now_def object_asynAckReadData_def
  by (auto simp: split_beta intro!: keeps_skip keeps_any [where m = "answer_bytes e r c" for e r c]
      keeps_any [where m = "coap_set_header_token p tok" for p tok]
      keeps_mono [OF packet_send_silent] split: sum.split)

lemma object_requests_permitted:
  shows "keeps (object_read env cx uri message) (\<lambda>x. all_permitted cx (snd (snd x)))"
    and "keeps (object_write env cx uri format buffer message) (\<lambda>x. all_permitted cx (snd (snd x)))"
    and "keeps (object_execute env cx uri buffer message) (\<lambda>x. all_permitted cx (snd (snd x)))"
    and "keeps (object_discover env cx uri message) (\<lambda>x. all_permitted cx (snd (snd x)))"
proof -
  have answer: "keeps (answer_now env cx' uri message type format ds) (\<lambda>x. all_permitted cx (snd x))"
    for cx' type format ds
    using answer_now_silent silent_permitted by (rule keeps_mono)
  have push: "permitted cx e \<Longrightarrow>
      keeps (push_conform env cx' message type result [e]) (\<lambda>x. all_permitted cx (snd (snd x)))" for e cx' type result
    by (rule push_conform_permitted) simp
  have made: "permitted cx (OnWrite (snd (uri_make (uri_objectId uri) b c)) data mid)"
    if "prv_findObject cx (uri_objectId uri) = Some obj" for b c data mid obj
    using uri_make_object [of "uri_objectId uri" b c] that by (auto simp: permitted_def)
  note skip = keeps_any [where m = "object_checkInstExisted b i" for b i]
    keeps_any [where m = "data_parse mal u p format" for mal u p format]
  have std: "keeps (std_object_answer env cx' uri message) (\<lambda>x. all_permitted cx (snd (snd x)))" for cx'
    by (auto simp: std_object_answer_def split_beta intro!: keeps_any [where m = "std_object_data e c u t" for e c u t]
        keeps_mono [OF answer] split: option.split)
  show "keeps (object_read env cx uri message) (\<lambda>x. all_permitted cx (snd (snd x)))"
    by (auto simp: object_read_def Let_def split_beta
        intro!: skip keeps_any [where m = "prv_createMoniterObjects e c" for e c] std push split: option.split)
  show "keeps (object_write env cx uri format buffer message) (\<lambda>x. all_permitted cx (snd (snd x)))"
    by (auto simp: object_write_def Let_def intro!: skip push made split: option.split)
  show "keeps (object_execute env cx uri buffer message) (\<lambda>x. all_permitted cx (snd (snd x)))"
    by (auto simp: object_execute_def Let_def intro!: skip push split: option.split)
  show "keeps (object_discover env cx uri message) (\<lambda>x. all_permitted cx (snd (snd x)))"
    by (auto simp: object_discover_def Let_def split_beta intro!: skip
        keeps_any [where m = "data_new mal n" for mal n]
        keeps_any [where m = "std_object_discover_handler mal i f d obj" for mal i f d obj] keeps_mono [OF answer] push
        split: option.split)
qed

lemma observe_permitted:
  shows "keeps (observe_handleRequest env cx uri message) (\<lambda>x. all_permitted cx (snd (snd x)))"
    and "keeps (observe_setParameters env cx uri attr message) (\<lambda>x. all_permitted cx (snd (snd x)))"
proof -
  have send: "keeps (packet_send env cx packet) (\<lambda>x. all_permitted cx (snd x))" for packet
    using packet_send_silent silent_permitted by (rule keeps_mono)
  have found: "permitted cx (OnObserve uri flag mid)"
    if "cis_list_find oj_objID (cx_objectList cx) (ucast (uri_objectId uri)) \<noteq> None" for flag mid
    using that by (auto simp: prv_findObject_def)
  note skip = keeps_any [where m = "coap_set_header_token p tok" for p tok]
    keeps_any [where m = "aslice (cp_token p) i n" for p i n]
    keeps_any [where m = "prv_findObserved c u" for c u]
    keeps_any [where m = "packet_asynPushRequest e c p ty n" for e c p ty n]
    keeps_any [where m = "steps_bad e a s" for e a s]
    keeps_any [where m = "snd (coap_get_header_observe p)" for p]
  show "keeps (observe_handleRequest env cx uri message) (\<lambda>x. all_permitted cx (snd (snd x)))"
    by (auto simp: observe_handleRequest_def Let_def split_beta found intro!: skip keeps_mono [OF send])
  show "keeps (observe_setParameters env cx uri attr message) (\<lambda>x. all_permitted cx (snd (snd x)))"
    by (auto simp: observe_setParameters_def Let_def split_beta intro!: skip split: option.split prod.split)
qed

lemma management_permitted:
  "keeps (management_handleRequest env cx uri message)
     (\<lambda>x. all_permitted cx (snd (snd x)) \<and>
          (snd (snd x) = [] \<or> (\<exists>s. cx_server cx = Some s \<and> serving (sv_status s))))"
proof (cases "\<exists>s. cx_server cx = Some s \<and> serving (sv_status s)")
  case True
  note requests = object_requests_permitted [of env cx] observe_permitted [of env cx]
  have "keeps (management_get env cx uri message) (\<lambda>x. all_permitted cx (snd (snd x)))"
    "keeps (management_post env cx uri message) (\<lambda>x. all_permitted cx (snd (snd x)))"
    "keeps (management_put env cx uri message) (\<lambda>x. all_permitted cx (snd (snd x)))"
    by (auto simp: management_get_def management_post_def management_put_def
        intro!: keeps_any [where m = "message_payload m" for m] requests split: sum.split)
  with True show ?thesis by (auto simp: management_handleRequest_def)
next
  case False
  then show ?thesis by (cases "cx_server cx") (auto simp: management_handleRequest_def)
qed

text \<open>The registered server, on its own session.\<close>

definition registered_on :: "st_context \<Rightarrow> nat \<Rightarrow> bool" where
  "registered_on cx h \<longleftrightarrow>
     (\<exists>s. cx_server cx = Some s \<and> sv_sessionH s = Some h \<and> serving (sv_status s))"

definition heard :: "st_context \<Rightarrow> nat \<Rightarrow> cis_event list \<Rightarrow> bool" where
  "heard cx h evs \<longleftrightarrow> all_permitted cx evs \<and> (silent evs \<or> registered_on cx h)"

lemma heard_silent: "silent evs \<Longrightarrow> heard cx h evs"
  by (simp add: heard_def silent_permitted)

lemma heard_append [simp]: "silent evs' \<Longrightarrow> heard cx h (evs @ evs') \<longleftrightarrow> heard cx h evs"
  using silent_permitted by (auto simp: heard_def)

lemma dispatch_heard: "keeps (dispatch_request env cx h uri message) (\<lambda>x. heard cx h (snd (snd x)))"
  using management_permitted [of env cx uri message]
  by (auto simp: dispatch_request_def Let_def split_beta heard_def registered_on_def
      intro!: keeps_any [where m = "bootstrap_handleCommand e c u m" for e c u m]
      elim: keeps_mono split: option.splits)

text \<open>What a datagram changes before it is dispatched does not matter.\<close>

definition same_server :: "st_context \<Rightarrow> st_context \<Rightarrow> bool" where
  "same_server cx cx' \<longleftrightarrow> cx_objectList cx' = cx_objectList cx \<and>
     map_option sv_sessionH (cx_server cx') = map_option sv_sessionH (cx_server cx) \<and>
     map_option sv_status (cx_server cx') = map_option sv_status (cx_server cx)"

lemma heard_same:
  assumes "same_server cx cx'"
  shows "heard cx' h evs = heard cx h evs"
proof -
  have "registered_on cx' h = registered_on cx h"
    using assms by (cases "cx_server cx"; cases "cx_server cx'") (auto simp: same_server_def registered_on_def)
  moreover have "permitted cx' = permitted cx"
    using assms by (auto simp: same_server_def permitted_def prv_findObject_def fun_eq_iff split: option.split)
  ultimately show ?thesis by (simp add: heard_def)
qed

lemma block1_same_server:
  "keeps (handle_block1 env cx h message response) (\<lambda>x. same_server cx (snd (snd (snd x))))"
proof -
  have done': "same_server cx (cx\<lparr>cx_server := Some (s\<lparr>sv_block1Data := d\<rparr>)\<rparr>)" if "cx_server cx = Some s" for s d
    using that by (simp add: same_server_def)
  show ?thesis
    unfolding handle_block1_def
    by (cases "cx_server cx") (auto simp: Let_def split_beta done' same_server_def intro!: keeps_any)
qed

lemma handle_request_heard: "keeps (handle_request env cx h message) (\<lambda>x. heard cx h (snd (snd x)))"
proof -
  have start: "keeps (start_response cx message) (\<lambda>x. same_server cx (snd x))"
    by (auto simp: start_response_def Let_def split_beta same_server_def intro!: keeps_any)
  have block1: "keeps (handle_block1 env cx' h message r) (\<lambda>x. same_server cx (snd (snd (snd x))))"
    if "same_server cx cx'" for cx' r
    using block1_same_server by (rule keeps_mono) (use that in \<open>auto simp: same_server_def\<close>)
  have request: "keeps (prv_handleRequest env cx' h m r) (\<lambda>x. heard cx h (snd (snd (snd x))))"
    if "same_server cx cx'" for cx' m r
    unfolding prv_handleRequest_def
    by (auto simp: Let_def split_beta heard_same [OF that, symmetric] intro: heard_silent
        intro!: keeps_any [where m = "uri_decode mal alt p" for mal alt p] dispatch_heard split: sum.split)
  show ?thesis
    unfolding handle_request_def
    by (auto simp: split_beta intro: heard_silent intro!: keeps_mono [OF start] keeps_mono [OF block1]
        keeps_mono [OF request] keeps_any [where m = "slice_block2 m r" for m r]
        keeps_mono [OF packet_send_silent])
qed

text \<open>C4. The application is called from outside only on behalf of the registered server: whatever datagram
  arrives, if it makes the client call \<open>onRead\<close>, \<open>onWrite\<close>, \<open>onExec\<close>, \<open>onObserve\<close>, \<open>onDiscover\<close> or
  \<open>onSetParams\<close>, then it came over the session of the server and the server is registered; and, except
  for \<open>onSetParams\<close>, the application has added the object it is called for.
\<close>

theorem callbacks_need_registration:
  assumes "packet_handle_packet env cx h buffer = Some (cx', evs)" and "e \<in> set evs" and "called e = Some u"
  shows "registered_on cx h \<and> permitted cx e"
proof -
  have reply: "keeps (handle_reply env cx m) (\<lambda>x. heard cx h (snd (snd x)))" for m
    using handle_reply_silent by (rule keeps_mono) (rule heard_silent)
  have error: "keeps (send_error env cx'' mid code) silent" for cx'' mid code
    using packet_send_silent by (auto simp: send_error_def Let_def)
  have "keeps (packet_handle_packet env cx h buffer) (\<lambda>x. heard cx h (snd x))"
    unfolding packet_handle_packet_def
    by (auto simp: split_beta intro: heard_silent intro!: keeps_any [where m = "coap_parse_message mal b" for mal b]
        keeps_mono [OF error] keeps_mono [OF reply] keeps_mono [OF handle_request_heard])
  with assms(1) have "heard cx h evs" by (simp add: keeps_def)
  with assms(2,3) show ?thesis
    by (auto simp: heard_def silent_def)
qed

text \<open>A client that is registered and has the object 3303 with the instance 0; a request to read it.\<close>

definition some_server :: st_server where
  "some_server = \<lparr>sv_secObjInstID = 0, sv_host = None, sv_registration = 100, sv_sessionH = Some 1,
     sv_status = STATE_REGISTERED, sv_location = None, sv_dirty = False, sv_block1Data = None\<rparr>"

definition some_object :: st_object where
  "some_object = \<lparr>oj_objID = 3303, oj_instBitmapBytes = 1, oj_instBitmapCount = 1,
     oj_instBitmapPtr = Some [0x80], oj_instValidCount = 1, oj_attributeCount = 1, oj_actionCount = 0\<rparr>"

definition ready_context :: st_context where
  "ready_context = (blank_context 7)\<lparr>cx_stateStep := PUMP_STATE_READY, cx_server := Some some_server,
     cx_objectList := [some_object], cx_lifetime := 3600, cx_registerEnabled := True, cx_onEvent := True\<rparr>"

definition get_3303 :: bytes where
  "get_3303 = [0x40, 1, 0, 9, 0xB4, 0x33, 0x33, 0x30, 0x33, 0x01, 0x30]"

definition uri_3303 :: st_uri where
  "uri_3303 = snd (uri_make 3303 0 URI_INVALID)"

definition get_3303_packet :: coap_packet where
  "get_3303_packet = coap_zero\<lparr>cp_version := 1, cp_code := 1, cp_mid := 9, cp_options := (replicate 8 0)[1 := 8],
     cp_uri_path := [\<lparr>mo_is_static = True, mo_len = 4, mo_data = [0x33, 0x33, 0x30, 0x33]\<rparr>,
                     \<lparr>mo_is_static = True, mo_len = 1, mo_data = [0x30]\<rparr>]\<rparr>"

lemma get_3303_parsed: "coap_parse_message calloc get_3303 = Some (0, get_3303_packet)"
  by (simp add: get_3303_def get_3303_packet_def coap_parse_message_def coap_parse_loop.simps parse_extension_def
      SET_OPTION_def coap_parse_option_def coap_zero_def aslice_def code_type_def aload_def astore_def
      calloc_def coap_add_multi_option_def Let_def)

lemma get_3303_handled:
  "map_option (\<lambda>(code, _, evs). (code, evs)) (handle_request (quiet_env 100) ready_context 1 get_3303_packet) =
     Some (COAP_IGNORE, [OnRead uri_3303 9])"
  by code_simp

lemma get_3303_asks:
  "map_option snd (packet_handle_packet (quiet_env 100) ready_context 1 get_3303) = Some [OnRead uri_3303 9]"
proof -
  have "pf_malloc (quiet_env 100) = calloc" "get_3303 \<noteq> []" "take (length get_3303 mod 2 ^ 16) get_3303 = get_3303"
    by (simp_all add: quiet_env_def get_3303_def)
  moreover have "COAP_GET \<le> cp_code get_3303_packet \<and> cp_code get_3303_packet \<le> COAP_DELETE"
    by (simp add: get_3303_packet_def)
  ultimately show ?thesis
    using get_3303_handled by (auto simp: packet_handle_packet_def get_3303_parsed send_error_def split_beta)
qed

theorem callbacks_need_registration_witness:
  "OnRead uri_3303 9 \<in> set (snd (the (packet_handle_packet (quiet_env 100) ready_context 1 get_3303))) \<and>
   registered_on ready_context 1 \<and> permitted ready_context (OnRead uri_3303 9)"
proof -
  obtain cx' where p: "packet_handle_packet (quiet_env 100) ready_context 1 get_3303 = Some (cx', [OnRead uri_3303 9])"
    using get_3303_asks by auto
  from callbacks_need_registration [OF p] p show ?thesis by simp
qed

end
