(* ===== verification/Cis_Client_Faults.thy ===== *)
theory Cis_Client_Faults
  imports Cis_Client_Contract
begin

text \<open>
  Where the client does not do what it means to do: datagrams and configurations that run it into
  undefined behaviour, a state it does not leave, and answers that hide an error.
\<close>

section \<open>Undefined behaviour\<close>

text \<open>C33. Four bytes stop the client: as soon as anything is observed, a reset message with the message id
  0, from whatever session, makes it look for an observation through a null pointer.
\<close>

theorem reset_zero_undefined:
  assumes "cx_observedList cx \<noteq> []"
  shows "packet_handle_packet env cx h [0x70, 0, 0, 0] = None"
proof -
  have "coap_parse_message mal [0x70, 0, 0, 0] = Some (0, coap_zero\<lparr>cp_version := 1, cp_type := COAP_TYPE_RST\<rparr>)" for mal
    by (simp add: coap_parse_message_def coap_parse_loop.simps coap_zero_def code_type_def Let_def)
  moreover have "prv_handleReset cx (coap_zero\<lparr>cp_version := 1, cp_type := COAP_TYPE_RST\<rparr>) = None"
    using assms by (simp add: prv_handleReset_def observe_cancel_def prv_findObserved_def coap_zero_def)
  ultimately show ?thesis
    by (simp add: packet_handle_packet_def handle_reply_def coap_zero_def)
qed

theorem reset_zero_undefined_witness:
  "packet_handle_packet (quiet_env 100)
     (ready_context\<lparr>cx_observedList := [new_observed uri_3303]\<rparr>) 1 [0x70, 0, 0, 0] = None"
  by (rule reset_zero_undefined) simp

text \<open>C39. Without a configuration of the application the client does not start: the user data of the
  default configuration is a null pointer, from which \<open>cis_init\<close> copies nine bytes.
\<close>

theorem default_config_undefined:
  assumes "pf_malloc env (su_sizeof_context su) \<noteq> None" and "pf_malloc env (su_sizeof_config su) \<noteq> None"
    and "prv_makeDeviceName (pf_malloc env) (su_imei su) (su_imsi su) = Some (n, name)" and "0 < n"
  shows "cis_init env su None None len = None"
  using assms
  by (auto simp: cis_init_def Let_def cis_config_init_def prvDefaultConfig_def no_vdata_def prefixed_text_def)

theorem default_config_undefined_witness:
  "cis_init (quiet_env 100) some_startup None None 0 = None"
  by (rule default_config_undefined [where n = 3 and name = "[0x31, 0x32, 0x3B, 0x33]"])
    (simp_all add: quiet_env_def some_startup_def calloc_def prv_makeDeviceName_def utils_strlen_def c_string_def)

text \<open>C32. A request for an instance whose number is not below the size of the object's bitmap reads outside
  the bitmap, before the application is asked.
\<close>

theorem instance_beyond_bitmap_undefined:
  assumes "prv_findObject cx (uri_objectId uri) = Some obj" and "oj_instBitmapPtr obj = Some bitmap"
    and "CIS_URI_IS_SET_INSTANCE uri" and "8 * length bitmap \<le> unat (uri_instanceId uri)"
  shows "object_execute env cx uri buffer message = None \<and>
         object_write env cx uri format buffer message = None \<and>
         (std_object_isStdObject (uri_objectId uri) \<or> object_read env cx uri message = None)"
proof -
  have "length bitmap \<le> unat (uri_instanceId uri) div 8" using assms(4) by presburger
  then have "object_checkInstExisted (oj_instBitmapPtr obj) (uri_instanceId uri) = None"
    by (simp add: object_checkInstExisted_def bitmap_bit_def assms(2) aload_def)
  with assms(1,3) show ?thesis
    by (simp add: object_execute_def object_write_def object_read_def)
qed

theorem instance_beyond_bitmap_undefined_witness:
  "object_execute (quiet_env 100) ready_context (snd (uri_make 3303 8 URI_INVALID)) [] get_3303_packet = None"
  using instance_beyond_bitmap_undefined
    [of ready_context "snd (uri_make 3303 8 URI_INVALID)" some_object "[0x80]" "quiet_env 100" "[]" get_3303_packet
      LWM2M_CONTENT_TEXT]
  by (simp add: ready_context_def some_object_def prv_findObject_def uri_make_def uri_zero_def set_object_def
      set_instance_def CIS_URI_IS_SET_INSTANCE_def)

section \<open>An instance in two lists\<close>

lemma moniter_clean_freed: "t \<in> set l \<Longrightarrow> t \<in> set freed \<Longrightarrow> moniter_clean_loop freed l cx = None"
  by (induction l arbitrary: cx) auto

lemma list_from_subset: "set (list_from idf l i) \<subseteq> set l"
  by (induction l) auto

lemma conn_clean_moniter: "cx_moniter_inst (conn_clean_loop ts cx) = cx_moniter_inst cx"
  by (induction ts arbitrary: cx) (simp_all add: std_object_remove_conn_def)

text \<open>
  \<open>std_object_get_moniter\<close> stores the instance of the monitor object it has found in the list of the
  other object. Once the monitor object has been read, ending the client frees the instance twice.
\<close>

theorem deinit_after_monitor_read_undefined:
  assumes "std_moniter_read env cx 0 full d = Some (COAP_205_CONTENT, cx', d')" and "\<not> cx_registerEnabled cx'"
  shows "cis_deinit (Some cx') = None"
proof -
  let ?l = "list_from (\<lambda>t. ucast (inst_id t)) (cx_moniter_inst cx) 0"
  have get: "std_object_get_moniter cx 0 =
      (case ?l of [] \<Rightarrow> None | t # _ \<Rightarrow> Some t, cx\<lparr>cx_conn_inst := ?l\<rparr>)"
    by (simp add: std_object_get_moniter_def Let_def)
  obtain t ts where l: "?l = t # ts"
    using assms(1) by (cases ?l) (simp_all add: std_moniter_read_def get)
  have cx': "cx_conn_inst cx' = t # ts" "cx_moniter_inst cx' = cx_moniter_inst cx"
    using assms(1) by (auto simp: std_moniter_read_def get l Let_def split: prod.splits if_splits option.splits
        Option.bind_splits)
  have t: "t \<in> set (cx_moniter_inst cx)" using list_from_subset [of "\<lambda>t. ucast (inst_id t)"] l by (metis list.set_intros(1) subsetD)
  show ?thesis
    using assms(2) moniter_clean_freed [OF t, of "t # ts"]
    by (simp add: cis_deinit_def prv_localDeinit_def prv_deleteServer_def std_security_clean_def observe_removeAll_def
        packet_asynRemoveRequestAll_def packet_asynRemoveNotifyAll_def object_removeAll_def std_conn_moniter_clean_def
        std_moniter_clean_def conn_clean_moniter cx' Let_def split_beta)
qed

section \<open>A state without an exit\<close>

text \<open>A client that has nothing to send, nothing to answer and no session.\<close>

definition idle :: "st_context \<Rightarrow> bool" where
  "idle cx \<longleftrightarrow> cx_transactionList cx = [] \<and> cx_requestList cx = [] \<and> cx_notifyList cx = []"

definition create_failed :: "st_context \<Rightarrow> bool" where
  "create_failed cx \<longleftrightarrow> cx_stateStep cx = PUMP_STATE_CONNECTING \<and>
     (\<exists>s. cx_server cx = Some s \<and> sv_status s = STATE_CREATE_FAILED \<and> sv_sessionH s = None)"

lemma create_failed_pump:
  assumes "idle cx" and "create_failed cx"
  shows "client_step (Pump env) cx = Some cx"
proof -
  obtain s where s: "cx_server cx = Some s" "sv_status s = STATE_CREATE_FAILED" "sv_sessionH s = None"
    using assms(2) by (auto simp: create_failed_def)
  have tr: "cx\<lparr>cx_transactionList := []\<rparr> = cx" using assms(1) by (simp add: idle_def)
  show ?thesis
    using assms s tr
    by (auto simp: idle_def create_failed_def cis_pump_def pump_switch_def pump_connecting_def
        pump_server_status_def pump_steps_def registration_step_def context_transaction_step_def
        transaction_step_def packet_step_def packet_read_def)
qed

lemma create_failed_run: "idle cx \<Longrightarrow> create_failed cx \<Longrightarrow> client_run (map Pump envs) cx = Some cx"
  by (induction envs) (simp_all add: create_failed_pump del: client_step.simps)

lemma client_run_append: "client_run (cs @ cs') cx = client_run cs cx \<bind> client_run cs'"
  by (induction cs arbitrary: cx) (auto simp del: client_step.simps split: Option.bind_splits)

text \<open>C34. One failure to create a socket is final. The pump goes back to its initial state and on to
  connecting, where the status \<open>STATE_CREATE_FAILED\<close> has no case: from there on it does nothing, however
  often it is called and even when creating a socket would succeed again.
\<close>

theorem create_failure_is_final:
  assumes "cx_stateStep cx = PUMP_STATE_CONNECTING" and "idle cx" and "\<not> cx_bootstrapEanbled cx"
    and "cx_registerEnabled cx" and "cx_server cx = Some s" and "sv_status s = STATE_UNCREATED"
    and "env_net_create env (sv_host s) = None"
    and "0 < pf_time env" and "env_net_attached env" and "0 < pf_time env'" and "env_net_attached env'"
  shows "yields (client_run (Pump env # Pump env' # Pump env' # map Pump envs) cx)
           create_failed"
proof -
  let ?failed = "(core_updatePumpState ((noting (pf_time env) cx)\<lparr>cx_server :=
      Some (s\<lparr>sv_sessionH := None, sv_status := STATE_CREATE_FAILED\<rparr>)\<rparr>) PUMP_STATE_CONNECTING)"
  have "client_run [Pump env, Pump env', Pump env'] cx = Some ?failed"
    using assms
    by (simp add: cis_pump_def pump_switch_def pump_connecting_def pump_server_status_def
        management_createNetwork_def give_up_connecting_def Let_def core_updatePumpState_def noting_def
        pump_bootstrapping_def)
  moreover have "idle ?failed" "create_failed ?failed"
    using assms(2) by (auto simp: idle_def create_failed_def core_updatePumpState_def noting_def)
  ultimately show ?thesis
    using client_run_append [of "[Pump env, Pump env', Pump env']" "map Pump envs" cx]
      create_failed_run [of ?failed envs]
    by (simp add: create_failed_def del: client_step.simps)
qed

theorem create_failure_is_final_witness:
  "yields (client_run (Pump (quiet_env 100\<lparr>env_net_create := (\<lambda>_. None)\<rparr>) # Pump (quiet_env 101) # Pump (quiet_env 101) #
       map Pump [quiet_env 102, quiet_env 200])
     (ready_context\<lparr>cx_stateStep := PUMP_STATE_CONNECTING, cx_server := Some (some_server\<lparr>sv_status := STATE_UNCREATED\<rparr>)\<rparr>))
     create_failed"
  by (rule create_failure_is_final [where s = "some_server\<lparr>sv_status := STATE_UNCREATED\<rparr>"])
    (simp_all add: ready_context_def blank_context_def idle_def quiet_env_def)

section \<open>Answers that hide an error\<close>

text \<open>C40. The bootstrap server is always told that its values were written: the code of the security object,
  which refuses unknown resources and unusable values and knows no instance but its own, is dropped on
  the way.
\<close>

theorem bootstrap_write_never_refused:
  assumes "bootstrap_writes env cx iid ds result = Some (code, cx')" and "ds \<noteq> []"
  shows "code = COAP_204_CHANGED"
proof -
  have one: "r = COAP_204_CHANGED" if "std_object_write_handler mal c i v = Some (r, c')" for mal c i v r c'
    using that by (auto simp: std_object_write_handler_def bind_eq_Some_conv)
  have "code = COAP_204_CHANGED" if "bootstrap_writes env cx iid ds COAP_204_CHANGED = Some (code, cx')" for cx ds
    using that
  proof (induction ds arbitrary: cx)
    case (Cons d ds)
    then show ?case by (fastforce simp: bind_eq_Some_conv dest: one split: if_splits)
  qed simp
  with assms one show ?thesis
    by (cases ds) (fastforce simp: bind_eq_Some_conv split: if_splits)+
qed

text \<open>An instance that does not exist, with a resource that does not exist.\<close>

theorem bootstrap_write_never_refused_witness:
  "std_security_write calloc ready_context 5 [set_id 99 data_zero] = Some (COAP_404_NOT_FOUND, ready_context) \<and>
   map_option fst (bootstrap_writes (quiet_env 100) ready_context 5 [set_id 99 data_zero] 0) = Some COAP_204_CHANGED"
proof -
  have refused: "std_security_write calloc ready_context 5 [set_id 99 data_zero] = Some (COAP_404_NOT_FOUND, ready_context)"
    by (simp add: std_security_write_def prv_security_find_def ready_context_def blank_context_def)
  then obtain code cx' where w: "bootstrap_writes (quiet_env 100) ready_context 5 [set_id 99 data_zero] 0 = Some (code, cx')"
    by (simp add: std_object_write_handler_def quiet_env_def)
  with bootstrap_write_never_refused [OF w] refused show ?thesis by simp
qed

end
