(* ===== verification/Cis_Request_Contract.thy ===== *)
theory Cis_Request_Contract
  imports Cis_Client_Contract Cis_Utils_Laws
begin

text \<open>
  Requests that wait, attributes in queries and the texts of a registration: what the functions behind
  the pump compute, stated without the lists and buffers they work on.
\<close>

section \<open>Requests nobody answers\<close>

abbreviation young :: "int \<Rightarrow> st_request \<Rightarrow> bool" where
  "young now r \<equiv> now - rq_time r < CIS_CONFIG_CALLBACK_TIMEOUT"

lemma timeout_loop_filter:
  assumes "cis_list_ok rq_mid (cx_requestList cx)" and "cis_list_ok rq_mid rs"
    and "set rs \<subseteq> set (cx_requestList cx)" and "\<forall>r \<in> set rs. time32 (now - rq_time r) \<noteq> None"
  shows "request_timeout_loop now rs cx =
    Some (cx\<lparr>cx_requestList := filter (\<lambda>r. r \<in> set rs \<longrightarrow> young now r) (cx_requestList cx)\<rparr>)"
  using assms
proof (induction rs arbitrary: cx)
  case Nil
  then show ?case by simp
next
  case (Cons r rs)
  let ?l = "cx_requestList cx"
  have t: "time32 (now - rq_time r) = Some (now - rq_time r)"
    using Cons.prems(4) by (auto simp: time32_def split: if_splits)
  have rs: "cis_list_ok rq_mid rs" "r \<notin> set rs" and mids: "\<forall>x \<in> set rs. rq_mid x \<noteq> rq_mid r"
    using Cons.prems(2) by (auto simp: cis_list_ok_def)
  show ?case
  proof (cases "young now r")
    case True
    have same: "filter (\<lambda>x. x \<in> set rs \<longrightarrow> young now x) ?l = filter (\<lambda>x. x \<in> set (r # rs) \<longrightarrow> young now x) ?l"
      using True by (intro filter_cong) auto
    have "request_timeout_loop now (r # rs) cx = request_timeout_loop now rs cx" using True t by simp
    also have "\<dots> = Some (cx\<lparr>cx_requestList := filter (\<lambda>x. x \<in> set rs \<longrightarrow> young now x) ?l\<rparr>)"
      by (rule Cons.IH) (use Cons.prems rs in auto)
    finally show ?thesis by (simp only: same)
  next
    case False
    let ?cx = "cx\<lparr>cx_requestList := filter (\<lambda>x. rq_mid x \<noteq> rq_mid r) ?l\<rparr>"
    have found: "cis_list_find rq_mid ?l (rq_mid r) = Some r"
      using Cons.prems(1,3) by (simp add: cis_list_find_iff)
    then have remove: "packet_asynRemoveRequest cx (rq_mid r) = Some ?cx"
      using cis_list_remove_filter [OF Cons.prems(1)] by (simp add: packet_asynRemoveRequest_def)
    have uniq: "x = r" if "x \<in> set ?l" "rq_mid x = rq_mid r" for x
    proof -
      have "cis_list_find rq_mid ?l (rq_mid r) = Some x"
        using cis_list_find_iff [OF Cons.prems(1)] that by blast
      with found show ?thesis by simp
    qed
    have same: "filter (\<lambda>x. x \<in> set rs \<longrightarrow> young now x) (filter (\<lambda>x. rq_mid x \<noteq> rq_mid r) ?l) =
        filter (\<lambda>x. x \<in> set (r # rs) \<longrightarrow> young now x) ?l"
      unfolding filter_filter using uniq False mids by (intro filter_cong) auto
    have "request_timeout_loop now (r # rs) cx = request_timeout_loop now rs ?cx" using False t remove by simp
    also have "request_timeout_loop now rs ?cx = Some (?cx\<lparr>cx_requestList :=
        filter (\<lambda>x. x \<in> set rs \<longrightarrow> young now x) (cx_requestList ?cx)\<rparr>)"
      by (rule Cons.IH) (use Cons.prems rs mids in \<open>auto simp: cis_list_ok_filter\<close>)
    finally have "request_timeout_loop now (r # rs) cx = Some (?cx\<lparr>cx_requestList :=
        filter (\<lambda>x. x \<in> set rs \<longrightarrow> young now x) (cx_requestList ?cx)\<rparr>)" .
    moreover have "cx_requestList ?cx = filter (\<lambda>x. rq_mid x \<noteq> rq_mid r) ?l"
      and "?cx\<lparr>cx_requestList := z\<rparr> = cx\<lparr>cx_requestList := z\<rparr>" for z
      by simp_all
    ultimately show ?thesis by (simp only: same)
  qed
qed

text \<open>C22. The pump drops exactly the requests that the application has not answered for thirty seconds, and
  keeps the others in their order.
\<close>

theorem stale_requests_dropped:
  assumes "cx_ok cx" and "\<forall>r \<in> set (cx_requestList cx). time32 (now - rq_time r) \<noteq> None"
  shows "request_timeout_loop now (cx_requestList cx) cx =
    Some (cx\<lparr>cx_requestList := filter (\<lambda>r. now - rq_time r < 30) (cx_requestList cx)\<rparr>)"
proof -
  have ok: "cis_list_ok rq_mid (cx_requestList cx)" using assms(1) by (simp add: cx_ok_def)
  have "filter (\<lambda>r. r \<in> set (cx_requestList cx) \<longrightarrow> young now r) (cx_requestList cx) =
      filter (young now) (cx_requestList cx)"
    by (intro filter_cong) auto
  with timeout_loop_filter [OF ok ok _ assms(2)] show ?thesis by simp
qed

definition waiting_request :: "u32 \<Rightarrow> int \<Rightarrow> st_request" where
  "waiting_request mid t = \<lparr>rq_mid = mid, rq_type = CALLBACK_TYPE_READ, rq_tokenLen = 0, rq_token = replicate 8 0,
     rq_uri = uri_3303, rq_time = t, rq_format = LWM2M_CONTENT_TEXT, rq_respData = None\<rparr>"

theorem stale_requests_dropped_witness:
  "request_timeout_loop 140 [waiting_request 3 100, waiting_request 5 120]
     (ready_context\<lparr>cx_requestList := [waiting_request 3 100, waiting_request 5 120]\<rparr>) =
   Some (ready_context\<lparr>cx_requestList := [waiting_request 5 120]\<rparr>)"
proof -
  have "cx_ok (ready_context\<lparr>cx_requestList := [waiting_request 3 100, waiting_request 5 120]\<rparr>)"
    by (simp add: cx_ok_def ready_context_def blank_context_def cis_list_ok_def observations_ok_def
        request_ok_def waiting_request_def object_ok_def some_object_def)
  from stale_requests_dropped [OF this, of 140] show ?thesis
    by (simp add: time32_def waiting_request_def)
qed

section \<open>Attributes\<close>

text \<open>A query option that holds the name of an attribute, \<open>=\<close> and a value.\<close>

definition attr_option :: "attr_name \<Rightarrow> bytes \<Rightarrow> multi_option" where
  "attr_option a v = \<lparr>mo_is_static = True, mo_len = of_nat (length (attr_text a @ v)), mo_data = attr_text a @ v\<rparr>"

lemma decimal_int64: "n < 2 ^ 31 \<Longrightarrow> utils_plainTextToInt64 (decimal n) = Done (of_nat n)"
proof -
  assume n: "n < 2 ^ 31"
  have s: "sint (of_nat n :: u64) = int n"
    using n by (simp add: signed_of_nat signed_take_bit_int_eq_self)
  then show ?thesis
    using plain_text_int [of "of_nat n"] by (simp add: int_text_def)
qed

lemma length_decimal_31: "n < 2 ^ 31 \<Longrightarrow> length (decimal n) \<le> 10"
  using length_decimal [of n 10] by simp

lemma period_value_decimal:
  assumes "n < 2 ^ 31" and "length (attr_text a) = 5"
  shows "period_value (attr_option a (decimal n)) (attr_text a @ decimal n @ rest) 5 = Done (int n)"
proof -
  have u: "unat (mo_len (attr_option a (decimal n))) = 5 + length (decimal n)"
    using length_decimal_31 [OF assms(1)] assms(2) unfolding attr_option_def
    by (simp only: multi_option.simps length_append) (subst unat_of_nat_id, simp_all)
  have "(ucast (of_nat n :: u64) :: u32) = of_nat (unat (of_nat n :: u64))" by (simp only: of_nat_unat)
  also have "\<dots> = of_nat n" using assms(1) by simp
  finally have s: "sint (of_nat n :: u64) = int n" "sint (ucast (of_nat n :: u64) :: u32) = int n"
    using assms(1) by (simp_all add: signed_of_nat signed_take_bit_int_eq_self)
  show ?thesis
    using u assms(2) decimal_int64 [OF assms(1)] s by (simp add: period_value_def)
qed

lemma attr_option_len:
  assumes "n < 2 ^ 31" and "length (attr_text a) = 5"
  shows "unat (mo_len (attr_option a (decimal n))) = 5 + length (decimal n)"
  using length_decimal_31 [OF assms(1)] assms(2) unfolding attr_option_def
  by (simp only: multi_option.simps length_append) (subst unat_of_nat_id, simp_all)

lemma read_period:
  assumes "n < 2 ^ 31"
  shows "(at_toSet attr OR at_toClear attr) AND ATTR_FLAG_MIN_PERIOD = 0 \<Longrightarrow>
      read_attribute env Pmin (attr_option Pmin (decimal n)) attr =
        Some (Done (attr\<lparr>at_minPeriod := int n, at_toSet := at_toSet attr OR ATTR_FLAG_MIN_PERIOD\<rparr>))"
    and "(at_toSet attr OR at_toClear attr) AND ATTR_FLAG_MAX_PERIOD = 0 \<Longrightarrow>
      read_attribute env Pmax (attr_option Pmax (decimal n)) attr =
        Some (Done (attr\<lparr>at_maxPeriod := int n, at_toSet := at_toSet attr OR ATTR_FLAG_MAX_PERIOD\<rparr>))"
  using period_value_decimal [OF assms, of Pmin] attr_option_len [OF assms, of Pmin]
    period_value_decimal [OF assms, of Pmax] attr_option_len [OF assms, of Pmax]
  by (simp_all add: read_attribute_def Let_def attr_option_def eval_nat_numeral)

lemma strncmp_numeral:
  "utils_strncmp (c # s1) (d # s2) (numeral k) =
     (if c \<noteq> d then (if d \<le> c then 1 else -1) else if c = 0 then 0 else utils_strncmp s1 s2 (pred_numeral k))"
  by (simp add: numeral_eq_Suc)

lemma read_other: "read_attribute env Pmin (attr_option Pmax v) attr = None"
  by (simp add: read_attribute_def Let_def attr_option_def strncmp_numeral)

text \<open>C31. The periods of an observation are read from the query of the request: \<open>pmin=m\<close> and \<open>pmax=n\<close>, in
  decimal and in either order, set these two attributes and nothing else.
\<close>

theorem period_attributes_read:
  assumes "m < 2 ^ 31" and "n < 2 ^ 31"
    and "query = [attr_option Pmin (decimal m), attr_option Pmax (decimal n)] \<or>
         query = [attr_option Pmax (decimal n), attr_option Pmin (decimal m)]"
  shows "prv_readAttributes env query =
    Done (attr_zero\<lparr>at_toSet := ATTR_FLAG_MIN_PERIOD OR ATTR_FLAG_MAX_PERIOD,
                    at_minPeriod := int m, at_maxPeriod := int n\<rparr>)"
  using assms(3) read_period [OF assms(1)] read_period [OF assms(2)]
  by (auto simp: prv_readAttributes_def attr_zero_def read_other)

theorem period_attributes_read_witness:
  "prv_readAttributes (quiet_env 100) [attr_option Pmax (decimal 600), attr_option Pmin (decimal 30)] =
    Done (attr_zero\<lparr>at_toSet := 3, at_minPeriod := 30, at_maxPeriod := 600\<rparr>)"
  using period_attributes_read [of 30 600] by simp

text \<open>\<open>pmin=30\<close> is what it should be.\<close>

lemma attr_option_text: "mo_data (attr_option Pmin (decimal 30)) = map of_char ''pmin=30''"
  by (simp add: attr_option_def decimal_step decimal_small digit_def)

end
