(* ===== verification/Cis_Register_Contract.thy ===== *)
theory Cis_Register_Contract
  imports Cis_Client_Contract Cis_Utils_Laws
begin

text \<open>
  The text in which the client registers its objects: the loops of \<open>object_getRegisterPayload\<close>, which
  write into a buffer piece by piece and copy the template of an object again for every instance,
  against the list of links that the text should be.
\<close>

section \<open>Pieces\<close>

lemma put_string_text:
  assumes "0 \<notin> set str" and "length out + length str < cap"
  shows "put_string cap str out = Some (Done (out @ str))"
proof -
  have tw: "takeWhile (\<lambda>c. c \<noteq> 0) str = str" using assms(1) by (auto simp: takeWhile_eq_all_conv)
  from assms(2) show ?thesis
    unfolding put_string_def utils_stringCopy_def tw by (simp add: ablit_def Let_def)
qed

lemma put_int_text:
  assumes "n < 2 ^ 16" and "length out + length (decimal n) < cap"
  shows "put_int cap (int n) out = Some (Done (out @ decimal n))"
proof -
  let ?d = "decimal n" and ?room = "cap - length out"
  have len: "length ?d \<le> 5" using length_decimal [of n 5] assms(1) by simp
  then obtain tail where t: "utils_intToText (int n) (replicate 11 0) = Some (length ?d, ?d @ tail)"
    using intToText_nonneg [of "int n" "replicate 11 0"] assms(1) by fastforce
  have "utils_intCopy (replicate ?room 0) ?room (int n) = Some (int (length ?d), (?d @ drop (length ?d) (replicate ?room 0)) [length ?d := 0])"
    using t assms(2) by (auto simp: utils_intCopy_def ablit_def astore_def)
  then show ?thesis using assms(2) by (simp add: put_int_def list_update_append)
qed

section \<open>Links\<close>

definition inst_bit :: "bytes \<Rightarrow> nat \<Rightarrow> bool" where
  "inst_bit bs i \<longleftrightarrow> drop_bit (7 - i mod 8) (bs ! (i div 8)) AND 1 > 0"

definition template :: "nat \<Rightarrow> bytes" where
  "template oid = [0x3C, 0x2F] @ decimal oid @ [0x2F]"

definition link :: "bytes \<Rightarrow> nat \<Rightarrow> bytes" where
  "link tm i = tm @ decimal i @ [0x3E, 0x2C]"

definition links :: "bytes \<Rightarrow> nat list \<Rightarrow> bytes" where
  "links tm is = concat (map (link tm) is)"

lemma links_simps [simp]: "links tm [] = []" "links tm (i # is) = link tm i @ links tm is"
  by (simp_all add: links_def)

lemma decimal_no_zero: "0 \<notin> set (decimal n)"
proof (induction n rule: decimal.induct)
  case (1 n)
  have "digit k \<noteq> 0" if "k < 10" for k
  proof -
    have "k \<in> {0, 1, 2, 3, 4, 5, 6, 7, 8, 9}" using that by auto
    then show ?thesis by (auto simp: digit_def)
  qed
  with 1 show ?case by (cases "n < 10") (auto simp: decimal_small decimal_step)
qed

text \<open>Behind the first link the template is copied before every number.\<close>

lemma instance_links_rest:
  assumes "length tm = len" and "start = length pre" and "rest \<noteq> []"
    and "unat index + n \<le> 8 * length bs" and "unat index + n < 2 ^ 16"
    and "length (pre @ tm @ rest) + length (links tm (filter (inst_bit bs) [unat index ..< unat index + n])) + len < cap"
  shows "instance_links cap (Some bs) start len n index (pre @ tm @ rest) =
    Some (Done (pre @ tm @ rest @ links tm (filter (inst_bit bs) [unat index ..< unat index + n])))"
  using assms(3-6)
proof (induction n arbitrary: index rest)
  case 0
  then show ?case by simp
next
  case (Suc n)
  let ?i = "unat index"
  have in_range: "?i div 8 < length bs" using Suc.prems(2) by simp
  then have bit: "prv_getInstId (Some bs) index = Some (inst_bit bs ?i)"
    by (simp add: prv_getInstId_def bitmap_bit_def inst_bit_def)
  have nx: "unat (index + 1) = Suc ?i"
    using Suc.prems(3) unat_word_ariths(1) [of index 1] by simp
  have split: "[?i ..< ?i + Suc n] = ?i # [Suc ?i ..< Suc ?i + n]" by (simp add: upt_conv_Cons)
  show ?case
  proof (cases "inst_bit bs ?i")
    case False
    have "instance_links cap (Some bs) start len n (index + 1) (pre @ tm @ rest) =
        Some (Done (pre @ tm @ rest @ links tm (filter (inst_bit bs) [unat (index + 1) ..< unat (index + 1) + n])))"
      by (rule Suc.IH) (use Suc.prems(1-3) Suc.prems(4) [unfolded split] False in \<open>simp_all add: nx del: upt_Suc\<close>)
    with bit False show ?thesis unfolding split nx by (simp del: upt_Suc)
  next
    case True
    let ?out = "pre @ tm @ rest"
    let ?more = "links tm (filter (inst_bit bs) [Suc ?i ..< Suc ?i + n])"
    have len: "length ?out + len + length (decimal ?i) + 2 + length ?more + len < cap"
      using Suc.prems(4) [unfolded split] True assms(1) by (simp add: link_def del: upt_Suc)
    have "put_int cap (uint index) (?out @ tm) = Some (Done (?out @ tm @ decimal ?i))"
    proof -
      have "put_int cap (int ?i) (?out @ tm) = Some (Done ((?out @ tm) @ decimal ?i))"
        by (rule put_int_text) (use Suc.prems(3) len assms(1) in simp_all)
      then show ?thesis by simp
    qed
    moreover have "put_string cap [0x3E, 0x2C] (?out @ tm @ decimal ?i) = Some (Done (?out @ link tm ?i))"
      using put_string_text [of "[0x3E, 0x2C]" "?out @ tm @ decimal ?i" cap] len assms(1) by (simp add: link_def)
    moreover have "instance_links cap (Some bs) start len n (index + 1) (pre @ tm @ (rest @ link tm ?i)) =
        Some (Done (pre @ tm @ (rest @ link tm ?i) @ links tm (filter (inst_bit bs) [unat (index + 1) ..< unat (index + 1) + n])))"
      by (rule Suc.IH) (use Suc.prems(1-3) len assms(1) in \<open>simp_all add: nx link_def del: upt_Suc\<close>)
    ultimately show ?thesis
      using bit True assms(1,2) Suc.prems(1) len unfolding split by (simp add: then_write_def nx del: upt_Suc)
  qed
qed

text \<open>Before the first link the template is there already.\<close>

lemma instance_links_first:
  assumes "length tm = len" and "start = length pre"
    and "unat index + n \<le> 8 * length bs" and "unat index + n < 2 ^ 16"
    and "filter (inst_bit bs) [unat index ..< unat index + n] \<noteq> []"
    and "length (pre @ tm) + length (links tm (filter (inst_bit bs) [unat index ..< unat index + n])) + len < cap"
  shows "instance_links cap (Some bs) start len n index (pre @ tm) =
    Some (Done (pre @ links tm (filter (inst_bit bs) [unat index ..< unat index + n])))"
  using assms(3-6)
proof (induction n arbitrary: index)
  case (Suc n)
  let ?i = "unat index"
  have in_range: "?i div 8 < length bs" using Suc.prems(1) by simp
  then have bit: "prv_getInstId (Some bs) index = Some (inst_bit bs ?i)"
    by (simp add: prv_getInstId_def bitmap_bit_def inst_bit_def)
  have nx: "unat (index + 1) = Suc ?i"
    using Suc.prems(2) unat_word_ariths(1) [of index 1] by simp
  have split: "[?i ..< ?i + Suc n] = ?i # [Suc ?i ..< Suc ?i + n]" by (simp add: upt_conv_Cons)
  note prems = Suc.prems(1,2) Suc.prems(3,4) [unfolded split]
  show ?case
  proof (cases "inst_bit bs ?i")
    case False
    have "instance_links cap (Some bs) start len n (index + 1) (pre @ tm) =
        Some (Done (pre @ links tm (filter (inst_bit bs) [unat (index + 1) ..< unat (index + 1) + n])))"
      by (rule Suc.IH) (use prems False in \<open>simp_all add: nx del: upt_Suc\<close>)
    with bit False show ?thesis unfolding split nx by (simp del: upt_Suc)
  next
    case True
    let ?more = "links tm (filter (inst_bit bs) [Suc ?i ..< Suc ?i + n])"
    have len: "length pre + len + len + length (decimal ?i) + 2 + length ?more + len < cap"
      using prems(4) True assms(1) by (simp add: link_def del: upt_Suc)
    have "put_int cap (int ?i) (pre @ tm) = Some (Done ((pre @ tm) @ decimal ?i))"
      by (rule put_int_text) (use prems(2) len assms(1) in simp_all)
    moreover have "put_string cap [0x3E, 0x2C] ((pre @ tm) @ decimal ?i) = Some (Done (((pre @ tm) @ decimal ?i) @ [0x3E, 0x2C]))"
      by (rule put_string_text) (use len assms(1) in simp_all)
    moreover have "instance_links cap (Some bs) start len n (index + 1) (pre @ tm @ (decimal ?i @ [0x3E, 0x2C])) =
        Some (Done (pre @ tm @ (decimal ?i @ [0x3E, 0x2C]) @
          links tm (filter (inst_bit bs) [unat (index + 1) ..< unat (index + 1) + n])))"
      by (rule instance_links_rest [OF assms(1,2)]) (use prems(1,2) len assms(1) in \<open>simp_all add: nx del: upt_Suc\<close>)
    ultimately show ?thesis
      using bit True assms(1,2) len unfolding split by (simp add: then_write_def nx link_def del: upt_Suc)
  qed
qed simp

section \<open>Objects\<close>

definition object_text :: "st_object \<Rightarrow> bytes" where
  "object_text obj = (let tm = template (unat (oj_objID obj)) in
     if oj_instBitmapBytes obj = 0 then butlast tm @ [0x3E, 0x2C]
     else case oj_instBitmapPtr obj of
       None \<Rightarrow> []
     | Some bs \<Rightarrow> links tm (filter (inst_bit bs) [0 ..< unat (oj_instBitmapCount obj)]))"

text \<open>
  An object without a bitmap, as the standard objects are, or one as \<open>cis_addobject\<close> makes it: with a bitmap
  that has at least one instance.
\<close>

definition registrable :: "st_object \<Rightarrow> bool" where
  "registrable obj \<longleftrightarrow> oj_objID obj < 2 ^ 16 \<and> (oj_instBitmapBytes obj \<noteq> 0 \<longrightarrow>
     (case oj_instBitmapPtr obj of
        None \<Rightarrow> False
      | Some bs \<Rightarrow> unat (oj_instBitmapCount obj) \<le> 8 * length bs \<and>
                   filter (inst_bit bs) [0 ..< unat (oj_instBitmapCount obj)] \<noteq> []))"

lemma template_written:
  assumes "oid < 2 ^ 16" and "length out + length (template oid) + 5 < cap"
  shows "prv_getObjectTemplate cap (of_nat oid) out = Some (Done (out @ template oid))"
proof -
  have "put_int cap (int oid) (out @ [0x3C, 0x2F]) = Some (Done ((out @ [0x3C, 0x2F]) @ decimal oid))"
    by (rule put_int_text) (use assms in \<open>simp_all add: template_def\<close>)
  moreover have "uint (of_nat oid :: u32) = int oid"
    using assms(1) by (simp add: unsigned_of_nat take_bit_nat_eq_self)
  moreover have "length out + length (decimal oid) + 8 < cap" using assms(2) by (simp add: template_def)
  ultimately show ?thesis by (simp add: prv_getObjectTemplate_def then_write_def template_def) arith
qed

lemma object_link_text:
  assumes "registrable obj" and "length out + length (object_text obj) + 30 < cap"
  shows "(if oj_instBitmapBytes obj = 0 then put_string cap [0x3E, 0x2C] (butlast (out @ template (unat (oj_objID obj))))
          else instance_links cap (oj_instBitmapPtr obj) (length out) (length (template (unat (oj_objID obj))))
                 (unat (oj_instBitmapCount obj)) 0 (out @ template (unat (oj_objID obj)))) =
         Some (Done (out @ object_text obj))"
proof -
  let ?tm = "template (unat (oj_objID obj))" and ?n = "unat (oj_instBitmapCount obj)"
  have tm: "length ?tm \<le> 8" "?tm \<noteq> []"
    using length_decimal [of "unat (oj_objID obj)" 5] assms(1)
    by (simp_all add: template_def registrable_def word_less_nat_alt)
  show ?thesis
  proof (cases "oj_instBitmapBytes obj = 0")
    case True
    have "put_string cap [0x3E, 0x2C] (out @ butlast ?tm) = Some (Done ((out @ butlast ?tm) @ [0x3E, 0x2C]))"
      by (rule put_string_text) (use assms(2) tm True in \<open>simp_all add: object_text_def Let_def\<close>)
    then show ?thesis using True tm(2) by (simp add: object_text_def butlast_append)
  next
    case False
    then obtain bs where bs: "oj_instBitmapPtr obj = Some bs" "?n \<le> 8 * length bs"
        "filter (inst_bit bs) [0 ..< ?n] \<noteq> []"
      using assms(1) by (auto simp: registrable_def split: option.splits)
    have n: "?n < 2 ^ 16" using unsigned_less [of "oj_instBitmapCount obj", where 'a = nat] by simp
    have "instance_links cap (Some bs) (length out) (length ?tm) ?n 0 (out @ ?tm) =
        Some (Done (out @ links ?tm (filter (inst_bit bs) [unat (0 :: u16) ..< unat (0 :: u16) + ?n])))"
      by (rule instance_links_first) (use bs n tm assms(2) False in \<open>simp_all add: object_text_def\<close>)
    then show ?thesis using bs(1) False by (simp add: object_text_def)
  qed
qed

lemma object_links_text:
  assumes "list_all registrable objs"
    and "length out + length (concat (map object_text objs)) + 30 < cap"
  shows "object_links cap objs out = Some (Done (out @ concat (map object_text objs)))"
  using assms
proof (induction objs arbitrary: out)
  case (Cons obj objs)
  let ?oid = "unat (oj_objID obj)"
  have reg: "registrable obj" and oid: "?oid < 2 ^ 16"
    using Cons.prems(1) by (simp_all add: registrable_def word_less_nat_alt)
  have tm: "length (template ?oid) \<le> 8"
    using length_decimal [of ?oid 5] oid by (simp add: template_def)
  have cap: "length out + length (object_text obj) + 30 < cap" using Cons.prems(2) by simp
  have "prv_getObjectTemplate cap (of_nat ?oid) out = Some (Done (out @ template ?oid))"
    by (rule template_written [OF oid]) (use cap tm in linarith)
  moreover have "object_links cap objs (out @ object_text obj) =
      Some (Done ((out @ object_text obj) @ concat (map object_text objs)))"
    by (rule Cons.IH) (use Cons.prems in simp_all)
  ultimately show ?case using object_link_text [OF reg cap]
    by (simp add: then_write_def split: if_splits)
qed simp

lemma object_text_nonempty: "registrable obj \<Longrightarrow> object_text obj \<noteq> []"
  by (auto simp: registrable_def object_text_def links_def link_def template_def Let_def filter_empty_conv
      split: option.splits if_splits)

section \<open>The registration text\<close>

text \<open>C12. The text of a registration lists exactly the instances the client has: for objects that have
  no bitmap or at least one instance in it, and a buffer with room for the text and 60 bytes more, \<open>object_getRegisterPayload\<close>
  returns the root path with the resource type, followed by the link \<open></object>\<close> of every object without a
  bitmap and one link \<open></object/instance>\<close> for every bit set in the bitmap of every other object, in ascending order, separated by commas and without a comma at the
  end.\<close>

theorem register_text_lists_instances:
  assumes "cx_altPath cx = None" and "cx_objectList cx \<noteq> []" and "list_all registrable (cx_objectList cx)"
    and "length (concat (map object_text (cx_objectList cx))) + 60 < cap"
  shows "object_getRegisterPayload cx cap =
    Some (Done ([0x3C, 0x2F] @ REG_RESOURCE_TYPE @ butlast (concat (map object_text (cx_objectList cx)))))"
proof -
  let ?head = "[0x3C, 0x2F] @ REG_RESOURCE_TYPE" and ?text = "concat (map object_text (cx_objectList cx))"
  have "object_links cap (cx_objectList cx) ?head = Some (Done (?head @ ?text))"
    by (rule object_links_text [OF assms(3)]) (use assms(4) in simp)
  moreover have "?text \<noteq> []"
    using assms(2,3) object_text_nonempty by (cases "cx_objectList cx") auto
  ultimately show ?thesis
    using assms(1,4) by (simp add: object_getRegisterPayload_def then_write_def put_string_text butlast_append)
qed

theorem register_text_lists_instances_witness:
  "object_getRegisterPayload ready_context 100 =
    Some (Done ([0x3C, 0x2F] @ REG_RESOURCE_TYPE @ butlast (concat (map object_text [some_object]))))"
proof -
  have objs: "cx_objectList ready_context = [some_object]" "cx_altPath ready_context = None" by code_simp+
  have room: "length (concat (map object_text [some_object])) + 60 < 100" by code_simp
  have reg: "list_all registrable [some_object]" by code_simp
  show ?thesis using register_text_lists_instances [of ready_context 100] objs room reg by simp
qed

end
