(* ===== verification/Cis_Answer_Contract.thy ===== *)
theory Cis_Answer_Contract
  imports Cis_Request_Contract Coap_Client Cis_Tlv_Contract Cis_Transaction_Contract
begin

text \<open>
  From the application to the wire: what the application answers to a request or reports on its own
  becomes one datagram over the session of the server, and the parser of the other side reads the
  token, the message id and the value from it.
\<close>

declare uri_of.simps [simp del] uri_of_fields [simp]

section \<open>Sending a packet\<close>

text \<open>A packet for which \<open>coap_serialize_get_size\<close> counts enough bytes leaves as its datagram.\<close>

lemma packet_send_delivers:
  assumes "alloc_ok (pf_malloc env)" and "coap_ok p" and "send_session cx = Some (Some h)"
    and "length (coap_bytes p) \<le> unat (coap_serialize_get_size p)" and "unat (coap_serialize_get_size p) < 2 ^ 31"
  shows "\<exists>code. packet_send env cx p = Some (code, [Sent h (coap_bytes p)])"
proof -
  let ?n = "coap_serialize_get_size p" and ?len = "length (coap_bytes p)"
  obtain buf where buf: "pf_malloc env ?n = Some buf" "length buf = unat ?n"
    using assms(1,5) by (auto simp: alloc_ok_def)
  have len: "4 \<le> ?len"
    using coap_header_parts [OF coap_ok_basic(2) [OF assms(2)]] by (auto simp: coap_bytes_def)
  then have n: "?n \<noteq> 0" using assms(4) by auto
  have u: "unat (of_nat ?len :: u32) = ?len" using assms(4,5) by (intro unat_of_nat_id) simp
  with len have "(of_nat ?len :: u32) \<noteq> 0" by (auto simp: word_unat_eq_iff)
  then show ?thesis
    using coap_serialize_bytes [OF assms(2), of buf] assms(3,4) buf n u
    by (simp add: packet_send_def Let_def)
qed

text \<open>The packets that answer a request or carry a report: a token, some options, a payload.\<close>

definition answer_packet ::
  "u8 \<Rightarrow> u16 \<Rightarrow> bytes \<Rightarrow> u32 \<Rightarrow> u32 option \<Rightarrow> bytes \<Rightarrow> coap_packet" where
  "answer_packet code mid tok format counter body =
     (coap_init_message COAP_TYPE_ACK code mid)\<lparr>
       cp_token_len := min_len (length tok), cp_token := store8 (replicate 8 0) tok,
       cp_content_type := format, cp_observe := (case counter of None \<Rightarrow> 0 | Some n \<Rightarrow> n),
       cp_payload := Some body, cp_payload_len := of_nat (length body),
       cp_options := (let o1 = mark (mark (replicate 8 0) COAP_OPTION_TOKEN) COAP_OPTION_CONTENT_TYPE
                      in case counter of None \<Rightarrow> o1 | Some _ \<Rightarrow> mark o1 COAP_OPTION_OBSERVE)\<rparr>"

lemma min_len_length: "length tok \<le> 8 \<Longrightarrow> unat (min_len (length tok)) = length tok"
  by (simp add: min_len_def)

lemma store8_zero: "length tok \<le> 8 \<Longrightarrow> take (length tok) (store8 (replicate 8 0) tok) = tok"
  by (simp add: store8_def)

lemma answer_packet_ok:
  assumes "length tok \<le> 8" and "length body < 65536"
  shows "coap_ok (answer_packet code mid tok format counter body)"
proof -
  have "unat (of_nat (length body) :: u16) = length body" using assms(2) by (intro unat_of_nat_id) simp
  then show ?thesis
    by (auto simp: coap_ok_fields fields_ok_def answer_packet_def coap_init_message_def coap_zero_def marked_mark
        marked_zero multi_ok_def Let_def split: option.split)
qed

lemma answer_packet_options:
  "IS_OPTION (answer_packet code mid tok format counter body) n \<longleftrightarrow>
     n = COAP_OPTION_TOKEN \<or> n = COAP_OPTION_CONTENT_TYPE \<or> (counter \<noteq> None \<and> n = COAP_OPTION_OBSERVE)"
  if "n < 64"
  using that
  by (auto simp: IS_OPTION_marked answer_packet_def marked_mark marked_zero Let_def split: option.split)

lemma answer_packet_fields [simp]:
  "cp_token_len (answer_packet code mid tok format counter body) = min_len (length tok)"
  "cp_token (answer_packet code mid tok format counter body) = store8 (replicate 8 0) tok"
  "cp_payload_len (answer_packet code mid tok format counter body) = of_nat (length body)"
  "cp_payload (answer_packet code mid tok format counter body) = Some body"
  "cp_content_type (answer_packet code mid tok format counter body) = format"
  "cp_type (answer_packet code mid tok format counter body) = COAP_TYPE_ACK"
  "cp_code (answer_packet code mid tok format counter body) = code"
  "cp_mid (answer_packet code mid tok format counter body) = mid"
  by (simp_all add: answer_packet_def coap_init_message_def coap_zero_def Let_def)

lemma answer_packet_observe [simp]:
  "cp_observe (answer_packet code mid tok format (Some n) body) = n"
  by (simp add: answer_packet_def coap_init_message_def)

lemma answer_packet_opts:
  "coap_opts (answer_packet code mid tok format counter body) =
     (case counter of None \<Rightarrow> [] | Some n \<Rightarrow> [(COAP_OPTION_OBSERVE, int_option_bytes n)]) @
     [(COAP_OPTION_CONTENT_TYPE, int_option_bytes format)]"
  by (simp add: coap_opts_def opt_if_def multi_if_def accepts_def answer_packet_options split: option.split)

lemma media_code_short: "length (int_option_bytes (media_code f)) \<le> 3"
  by (cases f) (simp_all add: int_option_bytes_def)

lemma short_header:
  assumes "delta \<le> 12" and "length v \<le> 4"
  shows "length (coap_set_option_header delta (of_nat (length v))) = 1"
proof -
  have "unat (of_nat (length v) :: u32) = length v" using assms(2) by (intro unat_of_nat_id) simp
  with assms(2) have "(of_nat (length v) :: u32) \<le> 12" by (simp add: word_le_nat_alt)
  moreover have "\<not> 12 < x \<and> \<not> 268 < x" if "x \<le> 12" for x :: u32
    using that order_trans [of x 12 268] by (simp add: not_less)
  ultimately show ?thesis
    using assms(1) by (simp add: coap_set_option_header_def option_extension_def)
qed

lemma answer_packet_size:
  assumes "length tok \<le> 8" and "length body < 65536" and "length (int_option_bytes format) \<le> 3"
  shows "length (coap_bytes (answer_packet code mid tok format counter body)) \<le>
           unat (coap_serialize_get_size (answer_packet code mid tok format counter body))"
    and "unat (coap_serialize_get_size (answer_packet code mid tok format counter body)) < 2 ^ 31"
proof -
  let ?p = "answer_packet code mid tok format counter body"
  let ?extra = "case counter of None \<Rightarrow> 0 | Some _ \<Rightarrow> 5"
  have body: "unat (of_nat (length body) :: u16) = length body" using assms(2) by (intro unat_of_nat_id) simp
  have "coap_serialize_get_size ?p = of_nat (9 + ?extra + length body + length tok)"
    using assms(1,2) by (simp add: coap_serialize_get_size_def opt_size_def answer_packet_options min_len_def
        unsigned_of_nat take_bit_nat_eq_self split: option.split)
  then have n: "unat (coap_serialize_get_size ?p) = 9 + ?extra + length body + length tok"
    using assms(1,2) unfolding \<open>coap_serialize_get_size ?p = _\<close>
    by (intro unat_of_nat_id) (simp split: option.split)
  have "length (enc_opts 0 (coap_opts ?p)) \<le> 4 + ?extra"
    using add_mono [OF length_int_option assms(3)] length_int_option assms(3)
    by (simp add: answer_packet_opts short_header split: option.split)
  moreover have "length (coap_header (?p\<lparr>cp_version := 1\<rparr>)) = 4"
    using coap_header_parts [of ?p] assms(1) by (auto simp: min_len_length)
  ultimately show "length (coap_bytes ?p) \<le> unat (coap_serialize_get_size ?p)"
    using assms(1) body unfolding n by (simp add: coap_bytes_def coap_payload_def min_len_length store8_zero)
  show "unat (coap_serialize_get_size ?p) < 2 ^ 31"
    using assms(1,2) unfolding n by (simp split: option.split)
qed

text \<open>What the receiver makes of such a packet.\<close>

definition reads_answer ::
  "allocator \<Rightarrow> bytes \<Rightarrow> u8 \<Rightarrow> u16 \<Rightarrow> bytes \<Rightarrow> u32 \<Rightarrow> u32 option \<Rightarrow> bytes \<Rightarrow> bool" where
  "reads_answer mal datagram code mid tok format counter body \<longleftrightarrow>
     yields (coap_parse_message mal datagram) (\<lambda>(r, q).
       r = COAP_NO_ERROR \<and> cp_type q = COAP_TYPE_ACK \<and> cp_code q = code \<and> cp_mid q = mid \<and>
       token_of q = tok \<and> coap_get_header_content_type q = uint format \<and>
       (case counter of None \<Rightarrow> \<not> IS_OPTION q COAP_OPTION_OBSERVE
        | Some n \<Rightarrow> IS_OPTION q COAP_OPTION_OBSERVE \<and> cp_observe q = n) \<and>
       coap_payload q = body)"

lemma answer_packet_read:
  assumes "alloc_ok mal" and "length tok \<le> 8" and "length body < 65536" and "unat format < 2 ^ 31"
  shows "reads_answer mal (coap_bytes (answer_packet code mid tok format counter body)) code mid tok format counter body"
proof -
  let ?p = "answer_packet code mid tok format counter body"
  have ok: "coap_ok ?p" by (rule answer_packet_ok [OF assms(2,3)])
  have "mal 12 \<noteq> None" using assms(1) by (auto simp: alloc_ok_def dest: spec [of _ 12])
  from coap_parse_bytes [where mal = mal, OF this ok]
  have parse: "coap_parse_message mal (coap_bytes ?p) = Some (COAP_NO_ERROR, coap_received ?p)" .
  let ?q = "coap_received ?p"
  have same: "same_message ?p ?q" by (rule coap_received_same [OF ok])
  then have header: "same_header ?p ?q" and token: "IS_OPTION ?q COAP_OPTION_TOKEN = (min_len (length tok) \<noteq> 0)"
    by (simp_all add: same_message_def)
  have option: "IS_OPTION ?q n = IS_OPTION ?p n \<and> (IS_OPTION ?p n \<longrightarrow> same_option ?p ?q n)" if "n \<in> set wire_options" for n
    using same that by (simp add: same_message_def list_all_iff)
  have observe: "IS_OPTION ?q COAP_OPTION_OBSERVE = (counter \<noteq> None)" "counter = Some n \<Longrightarrow> cp_observe ?q = n" for n
    using option [of COAP_OPTION_OBSERVE] by (auto simp: wire_options_def answer_packet_options same_option_def)
  have type: "IS_OPTION ?q COAP_OPTION_CONTENT_TYPE" "cp_content_type ?q = format"
    using option [of COAP_OPTION_CONTENT_TYPE] by (simp_all add: wire_options_def answer_packet_options same_option_def)
  have "sint format = uint format" using sint_small [OF assms(4)] by simp
  with type have "coap_get_header_content_type ?q = uint format" by (simp add: coap_get_header_content_type_def)
  moreover have "token_of ?q = tok"
    using token header assms(2)
    by (auto simp: token_of_def same_header_def min_len_length store8_zero min_len_def)
  moreover have "unat (of_nat (length body) :: u16) = length body" using assms(3) by simp
  then have "(of_nat (length body) :: u16) = 0 \<longleftrightarrow> body = []" by (auto simp: word_unat_eq_iff)
  then have "coap_payload ?q = body"
    using header by (auto simp: coap_payload_def same_header_def)
  ultimately show ?thesis
    unfolding reads_answer_def parse using header observe
    by (cases counter) (simp_all add: same_header_def)
qed

section \<open>Answers to a read\<close>

text \<open>
  A value of the application: one that \<open>cis_data_t\<close> can carry, floating point excepted, and what the
  receiver finds in the value it has parsed.
\<close>

datatype app_value = IntValue u64 | BoolValue bool | StringValue bytes | OpaqueValue bytes

fun value_data :: "app_value \<Rightarrow> cis_data" where
  "value_data (IntValue v) =
     \<lparr>cd_id = 0, cd_type = DATA_TYPE_INTEGER, cd_length = 0, cd_buffer = None, cd_value = AsInteger v\<rparr>"
| "value_data (BoolValue b) =
     \<lparr>cd_id = 0, cd_type = DATA_TYPE_BOOL, cd_length = 0, cd_buffer = None, cd_value = AsBoolean b\<rparr>"
| "value_data (StringValue bs) =
     \<lparr>cd_id = 0, cd_type = DATA_TYPE_STRING, cd_length = of_nat (length bs), cd_buffer = Some bs, cd_value = NoValue\<rparr>"
| "value_data (OpaqueValue bs) =
     \<lparr>cd_id = 0, cd_type = DATA_TYPE_OPAQUE, cd_length = of_nat (length bs), cd_buffer = Some bs, cd_value = NoValue\<rparr>"

fun reads_value :: "app_value \<Rightarrow> st_data \<Rightarrow> bool" where
  "reads_value (IntValue v) d \<longleftrightarrow> data_decode_int d = Some (Done v)"
| "reads_value (BoolValue b) d \<longleftrightarrow> data_decode_bool d = Some (Done b)"
| "reads_value (StringValue bs) d \<longleftrightarrow> sd_buffer d = bs"
| "reads_value (OpaqueValue bs) d \<longleftrightarrow> sd_buffer d = bs"

text \<open>The smallest integer has no text, and an empty text is no payload.\<close>

fun value_ok :: "et_media_type \<Rightarrow> app_value \<Rightarrow> bool" where
  "value_ok f (IntValue v) \<longleftrightarrow> (f = LWM2M_CONTENT_TEXT \<longrightarrow> sint v \<noteq> - (2 ^ 63))"
| "value_ok f (BoolValue b) \<longleftrightarrow> True"
| "value_ok f (StringValue bs) \<longleftrightarrow> bs \<noteq> [] \<and> length bs \<le> 65000"
| "value_ok f (OpaqueValue bs) \<longleftrightarrow> bs \<noteq> [] \<and> length bs \<le> 65000"

text \<open>A plain text with an opaque value in it is sent as such.\<close>

definition sent_format :: "et_media_type \<Rightarrow> app_value \<Rightarrow> et_media_type" where
  "sent_format f v =
     (if f = LWM2M_CONTENT_TEXT \<and> (case v of OpaqueValue _ \<Rightarrow> True | _ \<Rightarrow> False) then LWM2M_CONTENT_OPAQUE else f)"

lemma media_code_range [simp]: "unat (media_code f) < 2 ^ 31"
  by (cases f) simp_all

lemma payload_length:
  assumes "n < 65536"
  shows "(ucast (of_int (int n) :: u32) :: u16) = of_nat n"
proof -
  have "unat (of_nat n :: u32) = n" "unat (of_nat n :: u16) = n" using assms by simp_all
  then have "unat (ucast (of_int (int n) :: u32) :: u16) = n"
    using assms by (simp add: unsigned_ucast_eq take_bit_nat_eq_self)
  with \<open>unat (of_nat n :: u16) = n\<close> show ?thesis by (simp add: word_unat_eq_iff)
qed

lemma answer_packet_built:
  assumes "length body < 65536"
  obtains n1 n2 p1 p2 where
    "coap_set_header_token (coap_init_message COAP_TYPE_ACK code mid) tok = Some (n1, p1)"
    "coap_set_header_content_type p1 format = Some (n2, p2)"
    "snd (coap_set_payload p2 (Some body) (of_int (int (length body)))) = answer_packet code mid tok format None body"
proof
  show "coap_set_header_token (coap_init_message COAP_TYPE_ACK code mid) tok =
      Some (uint (min_len (length tok)), (coap_init_message COAP_TYPE_ACK code mid)\<lparr>
        cp_token_len := min_len (length tok), cp_token := store8 (replicate 8 0) tok,
        cp_options := mark (replicate 8 0) COAP_OPTION_TOKEN\<rparr>)"
    by (simp add: coap_set_header_token_def with_option_in coap_init_message_def coap_zero_def)
  show "coap_set_header_content_type ((coap_init_message COAP_TYPE_ACK code mid)\<lparr>
        cp_token_len := min_len (length tok), cp_token := store8 (replicate 8 0) tok,
        cp_options := mark (replicate 8 0) COAP_OPTION_TOKEN\<rparr>) format =
      Some (1, (coap_init_message COAP_TYPE_ACK code mid)\<lparr>
        cp_token_len := min_len (length tok), cp_token := store8 (replicate 8 0) tok,
        cp_content_type := format,
        cp_options := mark (mark (replicate 8 0) COAP_OPTION_TOKEN) COAP_OPTION_CONTENT_TYPE\<rparr>)"
    by (simp add: coap_set_header_content_type_def with_option_in coap_init_message_def coap_zero_def)
qed (use payload_length [OF assms] in
      \<open>simp add: coap_set_payload_def answer_packet_def coap_init_message_def coap_zero_def Let_def\<close>)

text \<open>The acknowledgement with the bytes of the value.\<close>

lemma ack_read_data_sends:
  assumes "alloc_ok (pf_malloc env)" and "send_session cx = Some (Some h)"
    and "answer_bytes env r COAP_205_CONTENT = Some (Inr (int (length body), format, body, Owned))"
    and "body \<noteq> []" and "length body < 65536" and "rq_tokenLen r \<le> 8" and "length (rq_token r) = 8"
  shows "object_asynAckReadData env cx r COAP_205_CONTENT = Some (COAP_NO_ERROR,
    [Sent h (coap_bytes (answer_packet COAP_205_CONTENT (ucast (rq_mid r))
       (take (unat (rq_tokenLen r)) (rq_token r)) (media_code format) None body))])"
proof -
  let ?tok = "take (unat (rq_tokenLen r)) (rq_token r)"
  let ?p = "answer_packet COAP_205_CONTENT (ucast (rq_mid r)) ?tok (media_code format) None body"
  have tl: "unat (rq_tokenLen r) \<le> 8" using assms(6) by (simp add: word_le_nat_alt)
  then have len: "length ?tok \<le> 8" by simp
  have tok: "token_of_request r = Some ?tok"
    using tl assms(7) by (simp add: token_of_request_def aslice_def)
  obtain code where "packet_send env cx ?p = Some (code, [Sent h (coap_bytes ?p)])"
    using packet_send_delivers [OF assms(1) answer_packet_ok [OF len assms(5)] assms(2)
        answer_packet_size [OF len assms(5) media_code_short]] by blast
  with assms(3,4) tok show ?thesis
    by (rule_tac answer_packet_built [OF assms(5), of COAP_205_CONTENT "ucast (rq_mid r)" ?tok "media_code format"])
      (simp add: object_asynAckReadData_def free_out_def)
qed

lemma data_new_one: "alloc_ok mal \<Longrightarrow> data_new mal 1 = Some [data_zero]"
  by (auto simp: data_new_def alloc_ok_def dest: spec [of _ 24])

text \<open>The slot a value is stored in, and its bytes in the two formats.\<close>

fun value_slot :: "nat \<Rightarrow> app_value \<Rightarrow> st_data" where
  "value_slot c (IntValue v) = data_encode_int v (set_id (of_nat c) data_zero)"
| "value_slot c (BoolValue b) = data_encode_bool b (set_id (of_nat c) data_zero)"
| "value_slot c (StringValue bs) = set_buffer bs (set_type DATA_TYPE_STRING (set_id (of_nat c) data_zero))"
| "value_slot c (OpaqueValue bs) = set_buffer bs (set_type DATA_TYPE_OPAQUE (set_id (of_nat c) data_zero))"

fun value_content :: "app_value \<Rightarrow> bytes" where
  "value_content (IntValue v) = utils_encodeInt v"
| "value_content (BoolValue b) = [if b then 1 else 0]"
| "value_content (StringValue bs) = bs"
| "value_content (OpaqueValue bs) = bs"

fun value_text :: "app_value \<Rightarrow> bytes" where
  "value_text (IntValue v) = int_text (sint v)"
| "value_text (BoolValue b) = int_text (if b then 1 else 0)"
| "value_text (StringValue bs) = bs"
| "value_text (OpaqueValue bs) = bs"

definition value_bytes :: "et_media_type \<Rightarrow> nat list \<Rightarrow> nat \<Rightarrow> app_value \<Rightarrow> bytes" where
  "value_bytes f ids c v =
     (if f = LWM2M_CONTENT_TEXT then value_text v
      else tlv_bytes (depth_of ids = URI_DEPTH_RESOURCE_INSTANCE) [value_slot c v])"

lemma value_slot_id [simp]: "sd_id (value_slot c v) = of_nat c"
  by (cases v) (simp_all add: data_encode_int_def data_encode_bool_def set_value_def set_type_def set_id_def set_buffer_def)

lemma value_data_known [simp]: "cd_type (value_data v) \<noteq> DATA_TYPE_UNDEFINE"
  by (cases v) simp_all

lemma value_slot_tlv:
  assumes "alloc_ok mal" and "value_ok f v"
  shows "leaf_bytes (value_slot c v) = Some (value_content v)"
    "tlv_ok [value_slot c v]" "24 * length (tlv_bytes r [value_slot c v]) < 2 ^ 31"
    "length (tlv_bytes r [value_slot c v]) < 65536"
proof -
  show d: "leaf_bytes (value_slot c v) = Some (value_content v)"
    by (cases v) (simp_all add: leaf_bytes_def data_encode_int_def data_encode_bool_def set_value_def set_type_def
        set_id_def set_buffer_def as_integer_def as_boolean_def)
  have len: "value_content v \<noteq> [] \<and> length (value_content v) \<le> 65000"
  proof (cases v)
    case (IntValue i)
    then show ?thesis using int_bytes_length [of i] by simp
  qed (use assms(2) in simp_all)
  show "tlv_ok [value_slot c v]" by (rule leaf_tlv_ok [OF d]) (use len in simp_all)
  have "length (tlv_bytes r [value_slot c v]) \<le> 65006"
    unfolding leaf_tlv_bytes [OF d] by (rule order_trans [OF item_length_le]) (use len in simp)
  then show "24 * length (tlv_bytes r [value_slot c v]) < 2 ^ 31" "length (tlv_bytes r [value_slot c v]) < 65536"
    by simp_all
qed

lemma tlv_pointer_owned:
  assumes "alloc_ok mal" and "tlv_ok ds" and "ds \<noteq> []" and "24 * length (tlv_bytes r ds) < 2 ^ 31"
  shows "tlv_pointer mal r ds = Owned"
proof -
  obtain b where "mal (of_nat (length (tlv_bytes r ds))) = Some b"
    by (rule alloc_nat [OF assms(1), of "length (tlv_bytes r ds)"]) (use assms(4) in simp_all)
  then show ?thesis
    using tlv_delivered(1) [OF assms] prv_getLength_bytes [OF assms(2), of r] tlv_bytes_ne [OF assms(3), of r]
    by (simp add: tlv_pointer_def)
qed

lemma serialize_pointer_owned:
  assumes "alloc_ok mal" and "ids_ok ids" and "length (uri_text ids) < 18"
    and "tlv_ok ds" and "ds \<noteq> []" and "24 * length (tlv_bytes (depth_of ids = URI_DEPTH_RESOURCE_INSTANCE) ds) < 2 ^ 31"
  shows "serialize_pointer mal float_text (uri_of ids) ds LWM2M_CONTENT_TLV = Owned"
proof -
  obtain tail where "uri_toString (Some (uri_of ids)) (replicate 18 0) =
      Some (int (length (uri_text ids)), uri_text ids @ tail, Some (depth_of ids))"
    using uri_toString_text [OF assms(2), of "replicate 18 0"] assms(3) by auto
  then show ?thesis
    using tlv_pointer_owned [OF assms(1,4-6)] by (simp add: serialize_pointer_def tlv_format)
qed

lemma answer_bytes_tlv:
  assumes "alloc_ok (pf_malloc env)" and "ids_ok ids" and "length (uri_text ids) < 18"
    and "tlv_ok ds" and "ds \<noteq> []" and "24 * length (tlv_bytes (depth_of ids = URI_DEPTH_RESOURCE_INSTANCE) ds) < 2 ^ 31"
    and "rq_type r = CALLBACK_TYPE_READ" and "rq_uri r = uri_of ids" and "rq_format r = LWM2M_CONTENT_TLV"
    and "rq_respData r = Some ds"
  shows "answer_bytes env r COAP_205_CONTENT =
    Some (Inr (int (length (tlv_bytes (depth_of ids = URI_DEPTH_RESOURCE_INSTANCE) ds)), LWM2M_CONTENT_TLV,
      tlv_bytes (depth_of ids = URI_DEPTH_RESOURCE_INSTANCE) ds, Owned))"
proof -
  let ?r = "depth_of ids = URI_DEPTH_RESOURCE_INSTANCE"
  have "data_serialize (pf_malloc env) (env_float_text env) (uri_of ids) ds LWM2M_CONTENT_TLV =
      Some (int (length (tlv_bytes ?r ds)), LWM2M_CONTENT_TLV, tlv_bytes ?r ds)"
    by (rule data_serialize_ids [OF assms(2,3) tlv_delivered(1) [OF assms(1,4,5,6)]])
  moreover have "serialize_pointer (pf_malloc env) (env_float_text env) (uri_of ids) ds LWM2M_CONTENT_TLV = Owned"
    by (rule serialize_pointer_owned [OF assms(1-6)])
  ultimately show ?thesis using assms(7-10) by (simp add: answer_bytes_def)
qed

text \<open>The decimal text of a value.\<close>

lemma int_text_small: "int_text 0 = [0x30]" "int_text 1 = [0x31]"
  by (simp_all add: int_text_def decimal_small digit_def)

lemma sint_zero_one: "sint (0 :: u64) = 0" "sint (1 :: u64) = 1"
  by simp_all

lemma value_text_length: "value_ok LWM2M_CONTENT_TEXT v \<Longrightarrow> value_text v \<noteq> [] \<and> length (value_text v) \<le> 65000"
proof (cases v)
  case (IntValue i)
  have dec: "length (decimal (nat x)) \<le> 20" if "x < 10 ^ 20" for x
    by (rule length_decimal) (use that in \<open>simp_all add: nat_less_iff\<close>)
  have "sint i < 10 ^ 20" "- sint i < 10 ^ 20" using sint_less [of i] sint_greater_eq [of i] by simp_all
  from dec [OF this(1)] dec [OF this(2)] show ?thesis
    unfolding IntValue value_text.simps int_text_def by simp
qed (simp_all add: int_text_small)

lemma sent_format_tlv [simp]: "sent_format LWM2M_CONTENT_TLV v = LWM2M_CONTENT_TLV"
  by (simp add: sent_format_def)

lemma value_slot_type:
  "sd_type (value_slot c v) = (case v of IntValue _ \<Rightarrow> DATA_TYPE_INTEGER | BoolValue _ \<Rightarrow> DATA_TYPE_BOOL
     | StringValue _ \<Rightarrow> DATA_TYPE_STRING | OpaqueValue _ \<Rightarrow> DATA_TYPE_OPAQUE)"
  by (cases v) (simp_all add: data_encode_int_def data_encode_bool_def set_value_def set_type_def set_id_def set_buffer_def)

lemma text_format:
  "CIS_URI_IS_SET_RESOURCE uri \<Longrightarrow> final_format uri [value_slot c v] LWM2M_CONTENT_TEXT = sent_format LWM2M_CONTENT_TEXT v"
  by (auto simp: final_format_def sent_format_def nested_type_def value_slot_type Let_def split: app_value.split)

lemma text_serialized:
  assumes "alloc_ok mal" and "value_ok LWM2M_CONTENT_TEXT v" and "\<forall>bs. v \<noteq> OpaqueValue bs"
  shows "prv_textSerialize mal float_text (value_slot c v) = Some (Done (value_text v))"
proof -
  have mal: "mal (of_nat n) \<noteq> None" if "n \<le> 65000" for n
  proof -
    have "n < 2 ^ 31" using that by simp
    then obtain b where "mal (of_nat n) = Some b" by (rule alloc_nat [OF assms(1)])
    then show ?thesis by simp
  qed
  have int: "utils_int64ToPlainText mal i = Some (Done (int_text (sint i)))" if "sint i \<noteq> - (2 ^ 63)" for i
    by (rule int64_text [OF that]) (use mal in simp)
  show ?thesis
  proof (cases v)
    case (IntValue i)
    then show ?thesis using int [of i] assms(2)
      by (simp add: prv_textSerialize_def value_slot_type as_integer_def data_encode_int_def set_value_def set_type_def)
  next
    case (BoolValue b)
    then show ?thesis using int [of "if b then 1 else 0"]
      by (simp add: prv_textSerialize_def value_slot_type as_boolean_def data_encode_bool_def set_value_def set_type_def
          utils_boolToPlainText_def split: if_splits)
  next
    case (StringValue bs)
    then show ?thesis using mal [of "length bs"] assms(2)
      by (auto simp: prv_textSerialize_def set_buffer_def set_type_def)
  qed (use assms(3) in simp)
qed

text \<open>The value on its way: written, owned by the caller, and read again.\<close>

lemma value_serialized:
  assumes "alloc_ok mal" and "ids_ok [a, b, c]" and "length (uri_text [a, b, c]) < 18" and "value_ok f v"
    and "f = LWM2M_CONTENT_TEXT \<or> f = LWM2M_CONTENT_TLV"
  shows "data_serialize mal float_text (uri_of [a, b, c]) [value_slot c v] f =
      Some (int (length (value_bytes f [a, b, c] c v)), sent_format f v, value_bytes f [a, b, c] c v)"
    and "serialize_pointer mal float_text (uri_of [a, b, c]) [value_slot c v] f = Owned"
    and "value_bytes f [a, b, c] c v \<noteq> []" and "length (value_bytes f [a, b, c] c v) < 65536"
proof -
  have res: "CIS_URI_IS_SET_RESOURCE (uri_of [a, b, c])"
    by (simp add: uri_of.simps set_object_def set_instance_def set_resource_def uri_zero_def CIS_URI_IS_SET_RESOURCE_def)
  note slot = value_slot_tlv [where c = c, OF assms(1,4)]
  show "value_bytes f [a, b, c] c v \<noteq> []" "length (value_bytes f [a, b, c] c v) < 65536"
    using assms(4,5) value_text_length [of v] tlv_bytes_ne [of "[value_slot c v]"] slot(4)
    by (auto simp: value_bytes_def)
  consider (tlv) "f = LWM2M_CONTENT_TLV" | (opaque) bs where "f = LWM2M_CONTENT_TEXT" "v = OpaqueValue bs"
    | (plain) "f = LWM2M_CONTENT_TEXT" "\<forall>bs. v \<noteq> OpaqueValue bs"
    using assms(5) by blast
  then have "data_serialize mal float_text (uri_of [a, b, c]) [value_slot c v] f =
      Some (int (length (value_bytes f [a, b, c] c v)), sent_format f v, value_bytes f [a, b, c] c v) \<and>
    serialize_pointer mal float_text (uri_of [a, b, c]) [value_slot c v] f = Owned"
  proof cases
    case tlv
    then show ?thesis
      using data_serialize_ids [OF assms(2,3) tlv_delivered(1) [OF assms(1) slot(2) _ slot(3)]]
        serialize_pointer_owned [OF assms(1-3) slot(2) _ slot(3)]
      by (simp add: value_bytes_def)
  next
    case opaque
    have "length bs < 2 ^ 31" using assms(4) opaque by simp
    then obtain d where "mal (of_nat (length bs)) = Some d" by (rule alloc_nat [OF assms(1)])
    with opaque assms(4) text_format [OF res, of c v] show ?thesis
      by (simp add: data_serialize_def serialize_pointer_def value_bytes_def sent_format_def set_buffer_def Let_def)
  next
    case plain
    have "sent_format f v = LWM2M_CONTENT_TEXT" using plain by (auto simp: sent_format_def split: app_value.split)
    with plain text_serialized [OF assms(1) _ plain(2)] assms(4) text_format [OF res, of c v] show ?thesis
      by (auto simp: data_serialize_def serialize_pointer_def text_pointer_def value_bytes_def value_slot_type Let_def
          split: app_value.split)
  qed
  then show "data_serialize mal float_text (uri_of [a, b, c]) [value_slot c v] f =
      Some (int (length (value_bytes f [a, b, c] c v)), sent_format f v, value_bytes f [a, b, c] c v)"
    and "serialize_pointer mal float_text (uri_of [a, b, c]) [value_slot c v] f = Owned" by simp_all
qed

lemma value_parsed:
  assumes "alloc_ok mal" and "value_ok f v" and "f = LWM2M_CONTENT_TEXT \<or> f = LWM2M_CONTENT_TLV"
  shows "\<exists>d. data_parse mal (uri_of [a, b, c]) (value_bytes f ids c v)
      (utils_convertMediaType (media_code (sent_format f v))) = Some [d] \<and> sd_id d = of_nat c \<and> reads_value v d"
proof (cases "f = LWM2M_CONTENT_TLV")
  case True
  let ?bs = "tlv_bytes (depth_of ids = URI_DEPTH_RESOURCE_INSTANCE) [value_slot c v]"
  note slot = value_slot_tlv [where c = c, OF assms(1,2)]
  have "tlv_parse mal (?bs @ []) = Some (received [value_slot c v])"
    by (rule tlv_delivered(2) [OF assms(1) slot(2) _ slot(3) short_rest]) simp_all
  then have "data_parse mal (uri_of [a, b, c]) ?bs LWM2M_CONTENT_TLV = Some (received [value_slot c v])"
    by (simp add: data_parse_tlv)
  then have "data_parse mal (uri_of [a, b, c]) ?bs LWM2M_CONTENT_TLV =
      Some [Data (of_nat c) DATA_TYPE_OPAQUE (value_content v) (AsInteger (snd (utils_opaqueToInt (value_content v))))]"
    by (simp only: leaf_received [OF slot(1)] value_slot_id)
  then show ?thesis
    using True by (cases v) (auto simp: value_bytes_def utils_convertMediaType_def data_decode_int_def
        data_decode_bool_def opaque_encode)
next
  case False
  with assms(3) have f: "f = LWM2M_CONTENT_TEXT" by simp
  have res: "CIS_URI_IS_SET_RESOURCE (uri_of [a, b, c])"
    by (simp add: uri_of.simps set_object_def set_instance_def set_resource_def uri_zero_def CIS_URI_IS_SET_RESOURCE_def)
  have "length (value_text v) < 2 ^ 31" using value_text_length [of v] assms(2) f by simp
  then obtain buf where mal: "mal (of_nat (length (value_text v))) = Some buf" by (rule alloc_nat [OF assms(1)])
  show ?thesis
    using f mal assms(2) res data_new_one [OF assms(1)] plain_text_int
    by (cases v) (auto simp: value_bytes_def sent_format_def utils_convertMediaType_def data_parse_def prv_setBuffer_def
        set_buffer_def set_type_def set_id_def data_decode_int_def data_decode_bool_def int_text_small Let_def)
qed

text \<open>The report of the application for the request.\<close>

definition value_report :: "u32 \<Rightarrow> u32 \<Rightarrow> st_uri \<Rightarrow> app_value \<Rightarrow> bool \<Rightarrow> st_notify" where
  "value_report nid mid uri v isResponse =
     \<lparr>nt_id = nid, nt_mid = mid, nt_result = COAP_205_CONTENT, nt_data = Some (value_data v), nt_uri = uri,
      nt_isResponse = isResponse\<rparr>"

lemma uri_of_full:
  "full_uri (uri_of [a, b, c])" "URI_IS_SET_OBJECT (uri_of [a, b, c])"
  by (simp_all add: full_uri_def URI_IS_SET_OBJECT_def uri_of.simps set_object_def set_instance_def set_resource_def
      uri_zero_def CIS_URI_IS_SET_INSTANCE_def CIS_URI_IS_SET_RESOURCE_def)

text \<open>The application's value, copied and stored.\<close>

lemma value_duplicated:
  assumes "alloc_ok (pf_malloc env)" and "pf_malloc env (env_sizeof_data env) \<noteq> None" and "value_ok f v"
  shows "prv_dataDup env 0 (value_data v) = Some (Done (value_data v))"
proof -
  have copied: "\<exists>buf. pf_malloc env (of_nat (length bs)) = Some buf \<and>
      copy_into (Some buf) 0 (Some bs) (unat (of_nat (length bs) :: u32)) = Some (Some bs)"
    if "length bs \<le> 65000" and "bs \<noteq> []" for bs
  proof -
    have "length bs < 2 ^ 31" using that by simp
    then obtain buf where "pf_malloc env (of_nat (length bs)) = Some buf" "length buf = length bs"
      by (rule alloc_nat [OF assms(1)])
    moreover have "unat (of_nat (length bs) :: u32) = length bs" using that by (intro unat_of_nat_id) simp
    ultimately show ?thesis using that by (simp add: copy_into_def aslice_def ablit_def)
  qed
  show ?thesis
    using assms(2,3) copied by (cases v) (fastforce simp: prv_dataDup_def)+
qed

lemma value_stored:
  assumes "alloc_ok (pf_malloc env)" and "value_ok f v"
  shows "put_value env (of_nat c) (value_data v) (set_id i data_zero) = Some (value_slot c v)"
proof -
  have mal: "\<exists>buf. pf_malloc env (of_nat (length bs)) = Some buf" and len: "unat (of_nat (length bs) :: u32) = length bs"
    and zero: "(of_nat (length bs) :: u32) = 0 \<longleftrightarrow> bs = []"
    if "length bs \<le> 65000" for bs :: bytes
  proof -
    have "length bs < 2 ^ 31" using that by simp
    then show "\<exists>buf. pf_malloc env (of_nat (length bs)) = Some buf" by (rule alloc_nat [OF assms(1)]) blast
    show u: "unat (of_nat (length bs) :: u32) = length bs" using that by (intro unat_of_nat_id) simp
    then show "(of_nat (length bs) :: u32) = 0 \<longleftrightarrow> bs = []" by (auto simp: word_unat_eq_iff)
  qed
  show ?thesis
  proof (cases v)
    case (StringValue bs)
    then show ?thesis using assms(2) mal [of bs] len [of bs] zero [of bs]
      by (auto simp: put_value_def set_type_def set_id_def set_buffer_def data_zero_def aslice_def Let_def)
  next
    case (OpaqueValue bs)
    then show ?thesis using assms(2) mal [of bs] len [of bs] zero [of bs]
      by (auto simp: put_value_def set_type_def set_id_def set_buffer_def data_zero_def aslice_def Let_def)
  qed (simp_all add: put_value_def data_encode_int_def data_encode_bool_def set_id_def Let_def)
qed

lemma set_id_zero: "set_id 0 data_zero = data_zero"
  by (simp add: set_id_def data_zero_def)

lemma collect_single_value:
  assumes "alloc_ok (pf_malloc env)" and "value_ok f v"
  shows "collect_answer env (uri_of [a, b, c]) obj (value_report nid mid (uri_of [a, b, c]) v isR) (value_data v) [data_zero] =
    Some (COAP_NO_ERROR, [value_slot c v])"
  using value_stored [OF assms, of c 0] uri_of_full [of a b c]
  by (simp add: collect_answer_def value_report_def aload_def set_id_zero full_uri_def Let_def)

text \<open>What a request has to be like: a read of one resource, of which nothing has been answered yet.\<close>

lemma read_report_sends:
  assumes "alloc_ok (pf_malloc env)" and "send_session cx = Some (Some h)" and "request_ok r"
    and "rq_type r = CALLBACK_TYPE_READ" and "rq_uri r = uri_of [a, b, c]"
    and "rq_format r = LWM2M_CONTENT_TEXT \<or> rq_format r = LWM2M_CONTENT_TLV" and "value_ok (rq_format r) v"
    and "rq_respData r = None" and "ids_ok [a, b, c]" and "length (uri_text [a, b, c]) < 18"
    and "prv_findObject cx (of_nat a) = Some obj"
    and "object_checkInstExisted (oj_instBitmapPtr obj) (of_nat b) = Some True"
  shows "\<exists>ds. prv_notifyReadReport env cx r (value_report nid mid (uri_of [a, b, c]) v True) =
    Some (COAP_NO_ERROR, update_request (r\<lparr>rq_respData := None\<rparr>) (update_request (r\<lparr>rq_respData := Some ds\<rparr>) cx),
      [Sent h (coap_bytes (answer_packet COAP_205_CONTENT (ucast (rq_mid r))
         (take (unat (rq_tokenLen r)) (rq_token r)) (media_code (sent_format (rq_format r) v)) None
         (value_bytes (rq_format r) [a, b, c] c v)))])"
proof -
  let ?ds = "[value_slot c v]" and ?n = "value_report nid mid (uri_of [a, b, c]) v True"
  let ?r = "r\<lparr>rq_respData := Some ?ds\<rparr>" and ?body = "value_bytes (rq_format r) [a, b, c] c v"
  note sent = value_serialized [OF assms(1,9,10,7,6)]
  have answer: "answer_bytes env ?r COAP_205_CONTENT =
      Some (Inr (int (length ?body), sent_format (rq_format r) v, ?body, Owned))"
    using sent(1,2) by (simp add: answer_bytes_def assms(4,5))
  have session: "send_session (update_request ?r cx) = Some (Some h)"
    using assms(2) by (simp add: send_session_def update_request_def split: if_splits)
  have token: "rq_tokenLen ?r \<le> 8" "length (rq_token ?r) = 8" using assms(3) by (simp_all add: request_ok_def)
  let ?sent = "[Sent h (coap_bytes (answer_packet COAP_205_CONTENT (ucast (rq_mid r))
         (take (unat (rq_tokenLen r)) (rq_token r)) (media_code (sent_format (rq_format r) v)) None ?body))]"
  have ack: "object_asynAckReadData env (update_request ?r cx) ?r COAP_205_CONTENT = Some (COAP_NO_ERROR, ?sent)"
    using ack_read_data_sends [OF assms(1) session answer sent(3,4) token] by simp
  have collect: "collect_answer env (rq_uri r) obj ?n (value_data v) [data_zero] = Some (COAP_NO_ERROR, ?ds)"
    unfolding assms(5) by (rule collect_single_value [OF assms(1,7)])
  have slots: "response_slots env r obj = Some (Some [data_zero])"
    using data_new_one [OF assms(1)] by (simp add: response_slots_def assms(5,8))
  have n: "nt_uri ?n = uri_of [a, b, c]" "nt_data ?n = Some (value_data v)" "nt_result ?n = COAP_205_CONTENT" "has_value ?n"
    by (simp_all add: value_report_def has_value_def)
  have "prv_notifyReadReport env cx r ?n =
      Some (COAP_NO_ERROR, update_request (?r\<lparr>rq_respData := None\<rparr>) (update_request ?r cx), ?sent)"
    using slots collect ack assms(11,12) n(4) uri_of_full [of a b c]
    by (simp add: prv_notifyReadReport_def n(1-3) answer_done_def)
  then show ?thesis by auto
qed

lemma uri_exist_self: "uri_exist (Some u) (Some u)"
  by (simp add: uri_exist_def)

lemma update_request_fields [simp]:
  "cx_notifyList (update_request r cx) = cx_notifyList cx" "cx_onEvent (update_request r cx) = cx_onEvent cx"
  by (simp_all add: update_request_def)

lemma find_updated:
  assumes "cis_list_ok rq_mid (cx_requestList cx)" and "cis_list_find rq_mid (cx_requestList cx) (rq_mid r) \<noteq> None"
  shows "cis_list_ok rq_mid (cx_requestList (update_request r cx))"
    and "cis_list_find rq_mid (cx_requestList (update_request r cx)) (rq_mid r) = Some r"
    and "filter (\<lambda>t. rq_mid t \<noteq> rq_mid r) (cx_requestList (update_request r cx)) =
         filter (\<lambda>t. rq_mid t \<noteq> rq_mid r) (cx_requestList cx)"
proof -
  let ?f = "\<lambda>t. if rq_mid t = rq_mid r then r else t"
  have mid: "rq_mid (?f t) = rq_mid t" for t by simp
  show ok: "cis_list_ok rq_mid (cx_requestList (update_request r cx))"
    using assms(1) unfolding update_request_def cis_list_ok_def by (simp add: sorted_wrt_map mid)
  obtain t where "t \<in> set (cx_requestList cx)" "rq_mid t = rq_mid r"
    using assms cis_list_find_iff [OF assms(1)] by auto
  then have "r \<in> set (cx_requestList (update_request r cx))" by (force simp: update_request_def)
  then show "cis_list_find rq_mid (cx_requestList (update_request r cx)) (rq_mid r) = Some r"
    using cis_list_find_iff [OF ok] by simp
  have "filter (\<lambda>t. rq_mid t \<noteq> rq_mid r) (map ?f l) = filter (\<lambda>t. rq_mid t \<noteq> rq_mid r) l" for l
    by (induction l) auto
  then show "filter (\<lambda>t. rq_mid t \<noteq> rq_mid r) (cx_requestList (update_request r cx)) =
      filter (\<lambda>t. rq_mid t \<noteq> rq_mid r) (cx_requestList cx)"
    by (simp add: update_request_def)
qed

text \<open>\<open>packet_asynRemoveRequest\<close> after the two updates.\<close>

lemma remove_updated:
  assumes "cis_list_ok rq_mid (cx_requestList cx)" and "cis_list_find rq_mid (cx_requestList cx) (rq_mid r) \<noteq> None"
    and "rq_mid r' = rq_mid r"
  shows "packet_asynRemoveRequest (update_request r' (update_request r cx)) (rq_mid r) =
    Some (cx\<lparr>cx_requestList := filter (\<lambda>t. rq_mid t \<noteq> rq_mid r) (cx_requestList cx)\<rparr>)"
proof -
  let ?cx = "update_request r cx"
  note one = find_updated [OF assms(1,2)]
  have "cis_list_find rq_mid (cx_requestList ?cx) (rq_mid r') \<noteq> None" using one(2) assms(3) by simp
  note two = find_updated [OF one(1) this]
  have same: "(update_request r' ?cx)\<lparr>cx_requestList := l\<rparr> = cx\<lparr>cx_requestList := l\<rparr>" for l
    by (simp add: update_request_def)
  show ?thesis
    using two(2,3) one(3) assms(3)
    by (simp add: packet_asynRemoveRequest_def cis_list_remove_filter [OF two(1)] same)
qed

text \<open>What is left of the list of requests after the step.\<close>

definition others_waiting :: "int \<Rightarrow> st_context \<Rightarrow> u32 \<Rightarrow> st_request list" where
  "others_waiting now cx mid =
     filter (young now) (filter (\<lambda>t. rq_mid t \<noteq> mid) (cx_requestList cx))"

text \<open>C2. A read of a single resource is answered: the value (an integer, a Boolean, a string or an opaque
  value) that the application hands to \<open>cis_response\<close> for a request that waits in the list, with nothing
  else to report, leaves with the next step as one datagram over the session of the server, in the format
  that the request accepts, plain text or TLV. The server reads from it an acknowledgement 2.05 with the
  message id and the token of its request; with the content format that it reads from the datagram it
  finds the value in the payload, for the resource that it asked for. The request is taken off the list;
  the others stay, as long as they are not stale.\<close>

theorem read_answer_delivered:
  assumes "cx_ok cx" and "cx_stateStep cx = PUMP_STATE_READY" and "cx_server cx = Some s"
    and "sv_sessionH s = Some h" and "cx_notifyList cx = []"
    and "r \<in> set (cx_requestList cx)" and "rq_type r = CALLBACK_TYPE_READ" and "rq_uri r = uri_of [a, b, c]"
    and "rq_format r = LWM2M_CONTENT_TEXT \<or> rq_format r = LWM2M_CONTENT_TLV" and "value_ok (rq_format r) v"
    and "rq_respData r = None"
    and "ids_ok [a, b, c]" and "length (uri_text [a, b, c]) < 18"
    and "prv_findObject cx (of_nat a) = Some obj"
    and "object_checkInstExisted (oj_instBitmapPtr obj) (of_nat b) = Some True"
    and "alloc_ok (pf_malloc env)" and "pf_malloc env (env_sizeof_notify env) \<noteq> None"
    and "pf_malloc env (env_sizeof_data env) \<noteq> None"
    and "list_all (\<lambda>t. time32 (now - rq_time t) \<noteq> None) (cx_requestList cx)"
  shows "\<exists>cx1 cx2 datagram format body d.
    cis_response env cx (Some (uri_of [a, b, c])) (Some (value_data v)) (rq_mid r) COAP_205_CONTENT =
      Some (CIS_RET_OK, cx1) \<and>
    packet_step env cx1 now =
      Some (cx2, Sent h datagram # core_callbackEvent cx CIS_EVENT_RESPONSE_SUCCESS (rq_mid r)) \<and>
    reads_answer (pf_malloc env) datagram COAP_205_CONTENT (ucast (rq_mid r))
      (take (unat (rq_tokenLen r)) (rq_token r)) format None body \<and>
    data_parse (pf_malloc env) (uri_of [a, b, c]) body (utils_convertMediaType format) = Some [d] \<and>
    sd_id d = of_nat c \<and> reads_value v d \<and>
    cx_requestList cx2 = others_waiting now cx (rq_mid r)"
proof -
  let ?u = "uri_of [a, b, c]" and ?mid = "rq_mid r" and ?l = "cx_requestList cx"
  let ?n = "value_report (cx_nextNotifyId cx + 1) ?mid ?u v True" and ?f = "media_code (sent_format (rq_format r) v)"
  let ?body = "value_bytes (rq_format r) [a, b, c] c v" and ?tok = "take (unat (rq_tokenLen r)) (rq_token r)"
  define cx1 where "cx1 = cx\<lparr>cx_nextNotifyId := cx_nextNotifyId cx + 1, cx_notifyList := [?n]\<rparr>"
  have response: "cis_response env cx (Some ?u) (Some (value_data v)) ?mid COAP_205_CONTENT = Some (CIS_RET_OK, cx1)"
    using assms(2,5,17) value_duplicated [OF assms(16,18,10)]
    by (simp add: cis_response_def enqueue_notify_def Let_def cx1_def value_report_def cis_list_add_def)
  have ok: "cis_list_ok rq_mid ?l" "request_ok r" using assms(1,6) by (auto simp: cx_ok_def list_all_iff)
  have found: "cis_list_find rq_mid ?l ?mid = Some r" using cis_list_find_iff [OF ok(1)] assms(6) by simp
  have cx1: "send_session cx1 = Some (Some h)" "prv_findObject cx1 (of_nat a) = Some obj"
      "cx_requestList cx1 = ?l" "cx_onEvent cx1 = cx_onEvent cx" "cx_notifyList cx1 = [?n]" "cx_server cx1 = Some s"
    using assms(2,3,4,14) by (simp_all add: cx1_def send_session_def prv_findObject_def)
  let ?datagram = "coap_bytes (answer_packet COAP_205_CONTENT (ucast ?mid) ?tok ?f None ?body)"
  obtain ds where report: "prv_notifyReadReport env cx1 r ?n =
      Some (COAP_NO_ERROR, update_request (r\<lparr>rq_respData := None\<rparr>) (update_request (r\<lparr>rq_respData := Some ds\<rparr>) cx1),
        [Sent h ?datagram])"
    using read_report_sends [OF assms(16) cx1(1) ok(2) assms(7-13) cx1(2) assms(15)] by blast
  let ?rest = "filter (\<lambda>t. rq_mid t \<noteq> ?mid) ?l"
  have removed: "packet_asynRemoveRequest
      (update_request (r\<lparr>rq_respData := None\<rparr>) (update_request (r\<lparr>rq_respData := Some ds\<rparr>) cx1)) ?mid =
      Some (cx1\<lparr>cx_requestList := ?rest\<rparr>)"
    using remove_updated [of cx1 "r\<lparr>rq_respData := Some ds\<rparr>" "r\<lparr>rq_respData := None\<rparr>"] ok found by (simp add: cx1(3))
  have "step_response env cx1 ?n = Some (cx1\<lparr>cx_requestList := ?rest\<rparr>,
      Sent h ?datagram # core_callbackEvent cx CIS_EVENT_RESPONSE_SUCCESS ?mid)"
    using found report removed uri_exist_self [of ?u] assms(7,8)
    by (simp add: step_response_def cx1(3) handle_answer_def value_report_def core_callbackEvent_def cx1(4))
  then have loop: "notify_loop env (cx_notifyList cx1) cx1 = Some (cx1\<lparr>cx_requestList := ?rest, cx_notifyList := []\<rparr>,
      Sent h ?datagram # core_callbackEvent cx CIS_EVENT_RESPONSE_SUCCESS ?mid)"
    by (simp add: cx1(5) value_report_def cis_list_remove_def)
  have rest: "cis_list_ok rq_mid ?rest" "\<forall>t \<in> set ?rest. time32 (now - rq_time t) \<noteq> None"
    using ok(1) assms(19) by (auto simp: cis_list_ok_filter list_all_iff)
  have "filter (\<lambda>t. t \<in> set ?rest \<longrightarrow> young now t) ?rest = others_waiting now cx ?mid"
    unfolding others_waiting_def by (intro filter_cong) auto
  then have step: "packet_step env cx1 now = Some (cx1\<lparr>cx_requestList := others_waiting now cx ?mid, cx_notifyList := []\<rparr>,
      Sent h ?datagram # core_callbackEvent cx CIS_EVENT_RESPONSE_SUCCESS ?mid)"
    using timeout_loop_filter [of "cx1\<lparr>cx_requestList := ?rest, cx_notifyList := []\<rparr>" ?rest now] rest loop
    by (simp add: packet_step_def cx1(6))
  have tok: "length ?tok \<le> 8" using ok(2) by (simp add: request_ok_def)
  have read: "reads_answer (pf_malloc env) ?datagram COAP_205_CONTENT (ucast ?mid) ?tok ?f None ?body"
    by (rule answer_packet_read [OF assms(16) tok value_serialized(4) [OF assms(16,12,13,10,9)]])
      (rule media_code_range)
  obtain d where d: "data_parse (pf_malloc env) ?u ?body (utils_convertMediaType ?f) = Some [d]" "sd_id d = of_nat c"
      "reads_value v d"
    using value_parsed [OF assms(16,10,9)] by blast
  show ?thesis
    by (intro exI conjI, rule response, rule step, rule read, rule d(1), rule d(2), rule d(3)) simp
qed

text \<open>The request to read \<open>/3303/0/5700\<close> with a token of two bytes and no content format.\<close>

definition read_request :: st_request where
  "read_request = \<lparr>rq_mid = 9, rq_type = CALLBACK_TYPE_READ, rq_tokenLen = 2, rq_token = [5, 6, 0, 0, 0, 0, 0, 0],
     rq_uri = uri_of [3303, 0, 5700], rq_time = 100, rq_format = utils_convertMediaType 0, rq_respData = None\<rparr>"

definition reading_context :: st_context where
  "reading_context = ready_context\<lparr>cx_requestList := [read_request]\<rparr>"

lemma reading_context_ok:
  "cx_ok reading_context" "prv_findObject reading_context 3303 = Some some_object"
  by (simp_all add: cx_ok_def reading_context_def ready_context_def blank_context_def cis_list_ok_def observations_ok_def
      request_ok_def read_request_def object_ok_def some_object_def prv_findObject_def)

lemma some_resource:
  "object_checkInstExisted (oj_instBitmapPtr some_object) 0 = Some True"
  "length (uri_text [3303, 0, 5700]) < 18" "ids_ok [3303, 0, 5700]"
  by (simp_all add: object_checkInstExisted_def bitmap_bit_def some_object_def aload_def length_uri_text decimal_small
      decimal_step ids_ok_def)

theorem read_answer_delivered_witness:
  "\<exists>cx1 cx2 datagram format body d.
    cis_response (quiet_env 100) reading_context (Some (uri_of [3303, 0, 5700])) (Some (value_data (IntValue 21))) 9
      COAP_205_CONTENT = Some (CIS_RET_OK, cx1) \<and>
    packet_step (quiet_env 100) cx1 101 = Some (cx2, Sent 1 datagram # [OnEvent CIS_EVENT_RESPONSE_SUCCESS 9]) \<and>
    reads_answer calloc datagram COAP_205_CONTENT 9 [5, 6] format None body \<and>
    data_parse calloc (uri_of [3303, 0, 5700]) body (utils_convertMediaType format) = Some [d] \<and>
    sd_id d = 5700 \<and> data_decode_int d = Some (Done 21) \<and> cx_requestList cx2 = []"
proof -
  have mem: "read_request \<in> set (cx_requestList reading_context)" by (simp add: reading_context_def)
  show ?thesis
    using read_answer_delivered [OF reading_context_ok(1) _ _ _ _ mem _ _ _ _ _ some_resource(3,2) _ _,
        of some_server 1 "IntValue 21" some_object "quiet_env 100" 101]
      reading_context_ok(2) some_resource(1)
    by (simp add: reading_context_def ready_context_def blank_context_def some_server_def read_request_def quiet_env_def
        core_callbackEvent_def others_waiting_def time32_def calloc_def utils_convertMediaType_def)
qed

section \<open>Notifications\<close>

lemma notification_built:
  assumes "length body < 65536"
  obtains n1 n2 n3 p1 p2 p3 where
    "coap_set_header_content_type (coap_init_message COAP_TYPE_ACK COAP_205_CONTENT 0) format = Some (n1, p1)"
    "coap_set_header_token ((snd (coap_set_payload p1 (Some body) (of_int (int (length body)))))\<lparr>cp_mid := mid\<rparr>) tok =
      Some (n2, p2)"
    "coap_set_header_observe p2 counter = Some (n3, answer_packet COAP_205_CONTENT mid tok format (Some (0x00FFFFFF AND counter)) body)"
proof -
  let ?p1 = "(coap_init_message COAP_TYPE_ACK COAP_205_CONTENT 0)\<lparr>cp_content_type := format,
    cp_options := mark (replicate 8 0) COAP_OPTION_CONTENT_TYPE\<rparr>"
  let ?p2 = "?p1\<lparr>cp_payload := Some body, cp_payload_len := of_nat (length body), cp_mid := mid,
    cp_token_len := min_len (length tok), cp_token := store8 (replicate 8 0) tok,
    cp_options := mark (mark (replicate 8 0) COAP_OPTION_CONTENT_TYPE) COAP_OPTION_TOKEN\<rparr>"
  have swap: "mark (mark (replicate 8 0) COAP_OPTION_CONTENT_TYPE) COAP_OPTION_TOKEN =
      mark (mark (replicate 8 0) COAP_OPTION_TOKEN) COAP_OPTION_CONTENT_TYPE"
    by code_simp
  show thesis
  proof (rule that)
    show "coap_set_header_content_type (coap_init_message COAP_TYPE_ACK COAP_205_CONTENT 0) format = Some (1, ?p1)"
      by (simp add: coap_set_header_content_type_def with_option_in coap_init_message_def coap_zero_def)
    show "coap_set_header_token ((snd (coap_set_payload ?p1 (Some body) (of_int (int (length body)))))\<lparr>cp_mid := mid\<rparr>) tok =
        Some (uint (min_len (length tok)), ?p2)"
      using payload_length [OF assms]
      by (simp add: coap_set_header_token_def coap_set_payload_def with_option_in coap_init_message_def coap_zero_def)
    show "coap_set_header_observe ?p2 counter =
        Some (1, answer_packet COAP_205_CONTENT mid tok format (Some (0x00FFFFFF AND counter)) body)"
      using swap by (simp add: coap_set_header_observe_def with_option_in coap_init_message_def coap_zero_def answer_packet_def Let_def)
  qed
qed

lemma find_observed_same:
  "map P xs = map P ys \<Longrightarrow> find_observed P xs = find_observed P ys"
proof (induction xs arbitrary: ys)
  case (Cons x xs)
  then show ?case by (cases ys) auto
qed simp

lemma find_updated_observed:
  assumes "\<And>t. ob_msgid (f t) = ob_msgid t"
  shows "observe_findByMsgid (update_observed i f cx) mid = observe_findByMsgid cx mid"
proof -
  have "map (\<lambda>t. ob_msgid t = mid) (l[i := f (l ! i)]) = map (\<lambda>t. ob_msgid t = mid) l" for l
  proof (cases "i < length l")
    case True
    then have "map (\<lambda>t. ob_msgid t = mid) (l[i := f (l ! i)]) =
        (map (\<lambda>t. ob_msgid t = mid) l)[i := map (\<lambda>t. ob_msgid t = mid) l ! i]"
      by (simp add: map_update assms)
    then show ?thesis by simp
  qed (simp add: list_update_beyond)
  from find_observed_same [OF this] show ?thesis
    unfolding observe_findByMsgid_def update_observed_def by simp
qed

text \<open>The report of an observation that has one value to say.\<close>

lemma report_sends:
  assumes "alloc_ok (pf_malloc env)" and "send_session cx = Some (Some h)"
    and "observe_findByMsgid cx (ob_msgid o') = Some i" and "cx_observedList cx ! i = o'" and "i < length (cx_observedList cx)"
    and "observed_ok o'" and "ob_uri o' = uri_of [a, b, c]"
    and "ob_reportData o' = Some [value_slot c v]" and "ids_ok [a, b, c]" and "length (uri_text [a, b, c]) < 18"
    and "value_ok LWM2M_CONTENT_TEXT v"
  shows "observe_asynReport env cx i = Some (COAP_NO_ERROR,
    update_observed i (\<lambda>t. t\<lparr>ob_lastTime := pf_time env, ob_lastMid := cx_nextMid cx, ob_counter := ob_counter t + 1\<rparr>)
      (cx\<lparr>cx_nextMid := cx_nextMid cx + 1\<rparr>),
    [Sent h (coap_bytes (answer_packet COAP_205_CONTENT (cx_nextMid cx) (take (unat (ob_tokenLen o')) (ob_token o'))
       (media_code (sent_format LWM2M_CONTENT_TEXT v)) (Some (0x00FFFFFF AND ob_counter o'))
       (value_bytes LWM2M_CONTENT_TEXT [a, b, c] c v)))])"
proof -
  let ?body = "value_bytes LWM2M_CONTENT_TEXT [a, b, c] c v" and ?tok = "take (unat (ob_tokenLen o')) (ob_token o')"
  let ?f = "sent_format LWM2M_CONTENT_TEXT v" and ?ds = "[value_slot c v]"
  let ?p = "answer_packet COAP_205_CONTENT (cx_nextMid cx) ?tok (media_code ?f) (Some (0x00FFFFFF AND ob_counter o')) ?body"
  let ?cx = "update_observed i (\<lambda>t. t\<lparr>ob_lastTime := pf_time env, ob_lastMid := cx_nextMid cx, ob_counter := ob_counter t + 1\<rparr>)
      (cx\<lparr>cx_nextMid := cx_nextMid cx + 1\<rparr>)"
  note sent = value_serialized [OF assms(1,9-11) disjI1 [OF refl]]
  have format: "ob_format o' = LWM2M_CONTENT_TEXT" using assms(6) by (simp add: observed_ok_def)
  have "unat (ob_tokenLen o') \<le> 8" "length (ob_token o') = 8"
    using assms(6) by (simp_all add: observed_ok_def word_le_nat_alt)
  then have tok: "length ?tok \<le> 8" "aslice (ob_token o') 0 (unat (ob_tokenLen o')) = Some ?tok"
    by (simp_all add: aslice_def)
  have session: "send_session ?cx = Some (Some h)"
    using assms(2) by (simp add: send_session_def update_observed_def split: if_splits)
  obtain code where packet: "packet_send env ?cx ?p = Some (code, [Sent h (coap_bytes ?p)])"
    using packet_send_delivers [OF assms(1) answer_packet_ok [OF tok(1) sent(4)] session
        answer_packet_size [OF tok(1) sent(4) media_code_short]] by blast
  obtain n1 n2 n3 p1 p2 where built:
    "coap_set_header_content_type (coap_init_message COAP_TYPE_ACK COAP_205_CONTENT 0) (media_code ?f) = Some (n1, p1)"
    "coap_set_header_token ((snd (coap_set_payload p1 (Some ?body) (of_int (int (length ?body)))))\<lparr>cp_mid := cx_nextMid cx\<rparr>) ?tok =
      Some (n2, p2)"
    "coap_set_header_observe p2 (ob_counter o') = Some (n3, ?p)"
    using notification_built [OF sent(4)] by metis
  show ?thesis
    using assms(3,4,7,8) format sent(1,2) tok(2) packet built uri_exist_self [of "uri_of [a, b, c]"]
    by (simp add: observe_asynReport_def Let_def free_out_def)
qed

lemma update_observed_at:
  "i < length (cx_observedList cx) \<Longrightarrow> cx_observedList (update_observed i f cx) ! i = f (cx_observedList cx ! i)"
  by (simp add: update_observed_def)

lemma update_observed_fields [simp]:
  "length (cx_observedList (update_observed i f cx)) = length (cx_observedList cx)"
  "cx_nextMid (update_observed i f cx) = cx_nextMid cx" "cx_onEvent (update_observed i f cx) = cx_onEvent cx"
  "cx_notifyList (update_observed i f cx) = cx_notifyList cx" "cx_requestList (update_observed i f cx) = cx_requestList cx"
  "send_session (update_observed i f cx) = send_session cx" "prv_findObject (update_observed i f cx) = prv_findObject cx"
  by (simp_all add: update_observed_def send_session_def prv_findObject_def fun_eq_iff)

lemma observe_report_sends:
  assumes "alloc_ok (pf_malloc env)" and "send_session cx = Some (Some h)"
    and "observe_findByMsgid cx (ob_msgid ob) = Some i" and "cx_observedList cx ! i = ob" and "i < length (cx_observedList cx)"
    and "observed_ok ob" and "ob_uri ob = uri_of [a, b, c]"
    and "ob_reportData ob = None" and "ids_ok [a, b, c]" and "length (uri_text [a, b, c]) < 18"
    and "prv_findObject cx (of_nat a) = Some obj"
    and "object_checkInstExisted (oj_instBitmapPtr obj) (of_nat b) = Some True"
    and "value_ok LWM2M_CONTENT_TEXT v"
  shows "yields (prv_notifyObserveReport env cx i (value_report nid mid (uri_of [a, b, c]) v False)) (\<lambda>(_, cx', evs).
    evs = [Sent h (coap_bytes (answer_packet COAP_205_CONTENT (cx_nextMid cx) (take (unat (ob_tokenLen ob)) (ob_token ob))
       (media_code (sent_format LWM2M_CONTENT_TEXT v)) (Some (0x00FFFFFF AND ob_counter ob))
       (value_bytes LWM2M_CONTENT_TEXT [a, b, c] c v)))] \<and>
    ob_counter (cx_observedList cx' ! i) = ob_counter ob + 1 \<and> cx_nextMid cx' = cx_nextMid cx + 1 \<and>
    cx_requestList cx' = cx_requestList cx \<and> cx_notifyList cx' = cx_notifyList cx \<and> cx_onEvent cx' = cx_onEvent cx)"
proof -
  let ?n = "value_report nid mid (uri_of [a, b, c]) v False" and ?d = "set_id (of_nat b) data_zero"
  let ?cxR = "update_observed i (\<lambda>t. t\<lparr>ob_reportData := Some [value_slot c v]\<rparr>)
    (update_observed i (\<lambda>t. t\<lparr>ob_reportData := Some [?d]\<rparr>) cx)"
  let ?o = "ob\<lparr>ob_reportData := Some [value_slot c v]\<rparr>"
  have o: "cx_observedList ?cxR ! i = ?o"
    using assms(4,5) by (simp add: update_observed_at)
  have report: "observe_asynReport env ?cxR i = Some (COAP_NO_ERROR,
      update_observed i (\<lambda>t. t\<lparr>ob_lastTime := pf_time env, ob_lastMid := cx_nextMid ?cxR, ob_counter := ob_counter t + 1\<rparr>)
        (?cxR\<lparr>cx_nextMid := cx_nextMid ?cxR + 1\<rparr>),
      [Sent h (coap_bytes (answer_packet COAP_205_CONTENT (cx_nextMid ?cxR) (take (unat (ob_tokenLen ?o)) (ob_token ?o))
         (media_code (sent_format LWM2M_CONTENT_TEXT v)) (Some (0x00FFFFFF AND ob_counter ?o))
         (value_bytes LWM2M_CONTENT_TEXT [a, b, c] c v)))])"
    by (rule report_sends [OF assms(1) _ _ o])
      (use assms in \<open>simp_all add: find_updated_observed observed_ok_def\<close>)
  have n: "nt_uri ?n = uri_of [a, b, c]" "nt_data ?n = Some (value_data v)" "nt_result ?n = COAP_205_CONTENT" "has_value ?n"
    by (simp_all add: value_report_def has_value_def)
  have collect: "collect_report env (uri_of [a, b, c]) obj ?n (value_data v) ?d = Some (COAP_NO_ERROR, value_slot c v)"
    using value_stored [OF assms(1,13), of c "of_nat b"] uri_of_full [of a b c]
    by (simp add: collect_report_def value_report_def full_uri_def Let_def)
  have id: "sd_id ?d = of_nat b" by (simp add: set_id_def)
  show ?thesis
    using report collect id data_new_one [OF assms(1)] assms(4,5,7,8,11,12) n(4) uri_of_full [of a b c]
    by (simp add: prv_notifyObserveReport_def n(1-3) report_done_def update_observed_at Let_def)
qed

text \<open>C5. An observation of a single resource is reported: the value (an integer, a Boolean, a string or an
  opaque value) that the application hands to \<open>cis_notify\<close> for a resource that the server observes, with
  nothing else to report and no value collected before, leaves with the next step as one datagram. The
  server reads from it a 2.05 with the token of the observation, the next message id and the counter of
  the observation as the Observe option; with the content format that it reads from the datagram it finds
  the value in the payload, for the resource it observes. The counter and the message id advance.\<close>

theorem notification_delivered:
  assumes "cx_ok cx" and "cx_stateStep cx = PUMP_STATE_READY" and "cx_server cx = Some s"
    and "sv_sessionH s = Some h" and "cx_notifyList cx = []"
    and "observe_findByMsgid cx mid = Some i" and "cx_observedList cx ! i = ob" and "ob_uri ob = uri_of [a, b, c]"
    and "ob_reportData ob = None" and "value_ok LWM2M_CONTENT_TEXT v"
    and "ids_ok [a, b, c]" and "length (uri_text [a, b, c]) < 18"
    and "prv_findObject cx (of_nat a) = Some obj"
    and "object_checkInstExisted (oj_instBitmapPtr obj) (of_nat b) = Some True"
    and "alloc_ok (pf_malloc env)" and "pf_malloc env (env_sizeof_notify env) \<noteq> None"
    and "pf_malloc env (env_sizeof_data env) \<noteq> None"
    and "list_all (\<lambda>t. time32 (now - rq_time t) \<noteq> None) (cx_requestList cx)"
  shows "\<exists>cx1 cx2 datagram format body d.
    cis_notify env cx (Some (uri_of [a, b, c])) (Some (value_data v)) mid COAP_205_CONTENT = Some (CIS_RET_OK, cx1) \<and>
    packet_step env cx1 now =
      Some (cx2, Sent h datagram # core_callbackEvent cx CIS_EVENT_NOTIFY_SUCCESS mid) \<and>
    reads_answer (pf_malloc env) datagram COAP_205_CONTENT (cx_nextMid cx)
      (take (unat (ob_tokenLen ob)) (ob_token ob)) format (Some (0x00FFFFFF AND ob_counter ob)) body \<and>
    data_parse (pf_malloc env) (uri_of [a, b, c]) body (utils_convertMediaType format) = Some [d] \<and>
    sd_id d = of_nat c \<and> reads_value v d \<and>
    ob_counter (cx_observedList cx2 ! i) = ob_counter ob + 1 \<and> cx_nextMid cx2 = cx_nextMid cx + 1"
proof -
  let ?u = "uri_of [a, b, c]" and ?l = "cx_requestList cx" and ?body = "value_bytes LWM2M_CONTENT_TEXT [a, b, c] c v"
  let ?n = "value_report (cx_nextNotifyId cx + 1) mid ?u v False" and ?tok = "take (unat (ob_tokenLen ob)) (ob_token ob)"
  let ?count = "0x00FFFFFF AND ob_counter ob" and ?f = "media_code (sent_format LWM2M_CONTENT_TEXT v)"
  define cx1 where "cx1 = cx\<lparr>cx_nextNotifyId := cx_nextNotifyId cx + 1, cx_notifyList := [?n]\<rparr>"
  have notify: "cis_notify env cx (Some ?u) (Some (value_data v)) mid COAP_205_CONTENT = Some (CIS_RET_OK, cx1)"
    using assms(2,5,16) value_duplicated [OF assms(15,17,10)]
    by (simp add: cis_notify_def enqueue_notify_def Let_def cx1_def value_report_def cis_list_add_def)
  have i: "i < length (cx_observedList cx)" "ob_msgid ob = mid"
    using find_observed_Some [of _ _ i] assms(6,7) by (auto simp: observe_findByMsgid_def)
  then have ob: "observed_ok ob" using assms(1,7) by (auto simp: cx_ok_def observations_ok_def list_all_length)
  have cx1: "send_session cx1 = Some (Some h)" "prv_findObject cx1 (of_nat a) = Some obj" "cx_requestList cx1 = ?l"
      "cx_onEvent cx1 = cx_onEvent cx" "cx_notifyList cx1 = [?n]" "cx_server cx1 = Some s" "cx_nextMid cx1 = cx_nextMid cx"
      "observe_findByMsgid cx1 (ob_msgid ob) = Some i" "cx_observedList cx1 = cx_observedList cx"
    using assms(2,3,4,6,13) i(2)
    by (simp_all add: cx1_def send_session_def prv_findObject_def observe_findByMsgid_def)
  let ?datagram = "coap_bytes (answer_packet COAP_205_CONTENT (cx_nextMid cx) ?tok ?f (Some ?count) ?body)"
  obtain code cx2 where report: "prv_notifyObserveReport env cx1 i ?n = Some (code, cx2, [Sent h ?datagram])"
      "ob_counter (cx_observedList cx2 ! i) = ob_counter ob + 1" "cx_nextMid cx2 = cx_nextMid cx + 1"
      "cx_requestList cx2 = ?l" "cx_notifyList cx2 = [?n]" "cx_onEvent cx2 = cx_onEvent cx"
    using observe_report_sends [OF assms(15) cx1(1,8) _ _ ob assms(8,9,11,12) cx1(2) assms(14,10),
        of "cx_nextNotifyId cx + 1" mid] assms(7) i(1) by (auto simp: cx1 yields_iff)
  have "step_notify env cx1 ?n = Some (cx2, Sent h ?datagram # core_callbackEvent cx CIS_EVENT_NOTIFY_SUCCESS mid)"
    using report(1,6) cx1(8,9) i(2) assms(7,8) uri_exist_self [of ?u]
    by (simp add: step_notify_def value_report_def core_callbackEvent_def)
  then have loop: "notify_loop env (cx_notifyList cx1) cx1 = Some (cx2\<lparr>cx_notifyList := []\<rparr>,
      Sent h ?datagram # core_callbackEvent cx CIS_EVENT_NOTIFY_SUCCESS mid)"
    by (simp add: cx1(5) report(5)) (simp add: value_report_def cis_list_remove_def)
  have rest: "cis_list_ok rq_mid ?l" "\<forall>t \<in> set ?l. time32 (now - rq_time t) \<noteq> None"
    using assms(1,18) by (auto simp: cx_ok_def list_all_iff)
  have step: "packet_step env cx1 now = Some
      (cx2\<lparr>cx_notifyList := [], cx_requestList := filter (\<lambda>r. r \<in> set ?l \<longrightarrow> young now r) ?l\<rparr>,
       Sent h ?datagram # core_callbackEvent cx CIS_EVENT_NOTIFY_SUCCESS mid)"
    using timeout_loop_filter [of "cx2\<lparr>cx_notifyList := []\<rparr>" ?l now] rest loop
    by (simp add: packet_step_def cx1(6) report(4))
  have tok: "length ?tok \<le> 8" using ob by (simp add: observed_ok_def word_le_nat_alt)
  have read: "reads_answer (pf_malloc env) ?datagram COAP_205_CONTENT (cx_nextMid cx) ?tok ?f (Some ?count) ?body"
    by (rule answer_packet_read [OF assms(15) tok value_serialized(4) [OF assms(15,11,12,10) disjI1 [OF refl]]])
      (rule media_code_range)
  obtain d where d: "data_parse (pf_malloc env) ?u ?body (utils_convertMediaType ?f) = Some [d]" "sd_id d = of_nat c"
      "reads_value v d"
    using value_parsed [OF assms(15,10) disjI1 [OF refl]] by blast
  show ?thesis
    by (intro exI conjI, rule notify, rule step, rule read, rule d(1), rule d(2), rule d(3))
      (use report(2,3) in simp_all)
qed

text \<open>The observation of \<open>/3303/0/5700\<close>, as the client enters it when the application agrees to the request.\<close>

definition observe_request :: st_request where
  "observe_request = \<lparr>rq_mid = 4, rq_type = CALLBACK_TYPE_OBSERVE, rq_tokenLen = 2, rq_token = [5, 6, 0, 0, 0, 0, 0, 0],
     rq_uri = uri_of [3303, 0, 5700], rq_time = 100, rq_format = utils_convertMediaType 0, rq_respData = None\<rparr>"

definition observing_context :: st_context where
  "observing_context = fst (snd (the (observe_asynAckNodata (quiet_env 100) ready_context observe_request COAP_205_CONTENT)))"

lemma ack_observe_frame:
  "keeps (ack_observe env cx request result packet)
     (\<lambda>r. case r of Inl _ \<Rightarrow> True | Inr (cx', _) \<Rightarrow> \<exists>l. cx' = cx\<lparr>cx_observedList := l\<rparr>)"
proof -
  obtain r cx' where g: "prv_getObserved env cx (rq_uri request) = (r, cx')" by fastforce
  then have "\<exists>l. cx' = cx\<lparr>cx_observedList := l\<rparr>"
    by (auto simp: prv_getObserved_def split: option.splits if_splits intro: exI [of _ "cx_observedList cx"])
  moreover have "\<exists>l. cx = cx\<lparr>cx_observedList := l\<rparr>" by (rule exI [of _ "cx_observedList cx"]) simp
  ultimately show ?thesis
    by (auto simp: ack_observe_def Let_def g update_observed_def intro!: keeps_skip split: option.split)
qed

lemma observe_ack_frame:
  assumes "rq_type request = CALLBACK_TYPE_OBSERVE"
  shows "keeps (observe_asynAckNodata env cx request result) (\<lambda>(_, cx', _). \<exists>l. cx' = cx\<lparr>cx_observedList := l\<rparr>)"
proof -
  have "\<exists>l. cx = cx\<lparr>cx_observedList := l\<rparr>" by (rule exI [of _ "cx_observedList cx"]) simp
  with assms show ?thesis
    unfolding observe_asynAckNodata_def
    by (auto intro!: keeps_skip keeps_mono [OF ack_observe_frame] split: sum.splits)
qed

lemma observing_runs:
  "map_option (\<lambda>(_, cx, _). cx_observedList cx)
     (observe_asynAckNodata (quiet_env 100) ready_context observe_request COAP_205_CONTENT) =
   Some [(new_observed (uri_of [3303, 0, 5700]))\<lparr>ob_actived := True, ob_msgid := 4, ob_tokenLen := 2,
     ob_token := [5, 6, 0, 0, 0, 0, 0, 0], ob_lastTime := 100, ob_counter := 1\<rparr>]"
  by code_simp

lemma observing_context_is:
  "observing_context = ready_context\<lparr>cx_observedList :=
     [(new_observed (uri_of [3303, 0, 5700]))\<lparr>ob_actived := True, ob_msgid := 4, ob_tokenLen := 2,
        ob_token := [5, 6, 0, 0, 0, 0, 0, 0], ob_lastTime := 100, ob_counter := 1\<rparr>]\<rparr>"
proof -
  obtain code cx evs where run: "observe_asynAckNodata (quiet_env 100) ready_context observe_request COAP_205_CONTENT =
      Some (code, cx, evs)" and l: "cx_observedList cx =
        [(new_observed (uri_of [3303, 0, 5700]))\<lparr>ob_actived := True, ob_msgid := 4, ob_tokenLen := 2,
           ob_token := [5, 6, 0, 0, 0, 0, 0, 0], ob_lastTime := 100, ob_counter := 1\<rparr>]"
    using observing_runs by auto
  have "rq_type observe_request = CALLBACK_TYPE_OBSERVE" by (simp add: observe_request_def)
  from keepsD [OF observe_ack_frame [OF this] run] obtain l' where "cx = ready_context\<lparr>cx_observedList := l'\<rparr>" by auto
  with l have "cx = ready_context\<lparr>cx_observedList := cx_observedList cx\<rparr>" by simp
  then show ?thesis using run l by (simp add: observing_context_def)
qed

lemma observing_context_ok:
  "cx_ok observing_context" "prv_findObject observing_context 3303 = Some some_object"
  by (simp_all add: cx_ok_def observing_context_is ready_context_def blank_context_def cis_list_ok_def observations_ok_def
      new_observed_def observed_ok_def object_ok_def some_object_def prv_findObject_def)

theorem notification_delivered_witness:
  "\<exists>cx1 cx2 datagram format body d.
    cis_notify (quiet_env 100) observing_context (Some (uri_of [3303, 0, 5700])) (Some (value_data (IntValue 21))) 4
      COAP_205_CONTENT = Some (CIS_RET_OK, cx1) \<and>
    packet_step (quiet_env 100) cx1 101 = Some (cx2, Sent 1 datagram # [OnEvent CIS_EVENT_NOTIFY_SUCCESS 4]) \<and>
    reads_answer calloc datagram COAP_205_CONTENT 7 [5, 6] format (Some 1) body \<and>
    data_parse calloc (uri_of [3303, 0, 5700]) body (utils_convertMediaType format) = Some [d] \<and>
    sd_id d = 5700 \<and> data_decode_int d = Some (Done 21) \<and>
    ob_counter (cx_observedList cx2 ! 0) = 2 \<and> cx_nextMid cx2 = 8"
proof -
  have found: "observe_findByMsgid observing_context 4 = Some 0"
    by (simp add: observe_findByMsgid_def observing_context_is)
  show ?thesis
    using notification_delivered [OF observing_context_ok(1) _ _ _ _ found refl _ _ _ some_resource(3,2) _ _,
        of some_server 1 "IntValue 21" some_object "quiet_env 100" 101] observing_context_ok(2) some_resource(1)
    by (simp add: observing_context_is ready_context_def blank_context_def some_server_def
        new_observed_def quiet_env_def core_callbackEvent_def calloc_def)
qed

end
