(* ===== verification/Dm_Base64.thy ===== *)
theory Dm_Base64
  imports Cis_Utils
begin

text \<open>
  \<open>dm_utils/j_base64.c\<close>: Base64 as the device management uses it, the encoding defined on the bits of
  the text as a reference, and the laws that connect the two.
\<close>

section \<open>The code\<close>

text \<open>The block is cleared before the caller tests it for the null pointer.\<close>

definition base64_malloc :: "allocator \<Rightarrow> u32 \<Rightarrow> bytes option" where
  "base64_malloc mal n = do {
     data \<leftarrow> mal n;
     ablit data 0 (replicate (unat n) 0) }"

text \<open>One round of the loop over the four characters; other characters leave \<open>x\<close> alone.\<close>

definition decode_char :: "u8 \<Rightarrow> u32 \<Rightarrow> u32" where
  "decode_char c x =
     (if 0x41 \<le> c \<and> c \<le> 0x5A then push_bit 6 x + (ucast c - 0x41 + 0)
      else if 0x61 \<le> c \<and> c \<le> 0x7A then push_bit 6 x + (ucast c - 0x61 + 26)
      else if 0x30 \<le> c \<and> c \<le> 0x39 then push_bit 6 x + (ucast c - 0x30 + 52)
      else if c = 0x2B then push_bit 6 x + 62
      else if c = 0x2F then push_bit 6 x + 63
      else if c = 0x3D then push_bit 6 x
      else x)"

definition decodeQuantum :: "bytes \<Rightarrow> nat \<Rightarrow> bytes option" where
  "decodeQuantum data pos = do {
     src \<leftarrow> aslice data pos 4;
     let x = fold decode_char src 0;
     Some [ucast (drop_bit 16 x AND 255), ucast (drop_bit 8 x AND 255), ucast (x AND 255)] }"

text \<open>All but the last group of four.\<close>

fun decode_quanta :: "bytes \<Rightarrow> nat \<Rightarrow> nat \<Rightarrow> bytes \<Rightarrow> bytes option" where
  "decode_quanta data i 0 newstr = Some newstr"
| "decode_quanta data i (Suc n) newstr = do {
     dest \<leftarrow> decodeQuantum data (4 * i);
     newstr \<leftarrow> ablit newstr (3 * i) dest;
     decode_quanta data (i + 1) n newstr }"

text \<open>The size returned, the block and the length stored; \<open>Fail\<close> is -1.\<close>

definition j_base64_decode :: "allocator \<Rightarrow> bytes \<Rightarrow> u32 \<Rightarrow> (u32 \<times> bytes \<times> u32) status option" where
  "j_base64_decode mal data dataLen =
     (if dataLen mod 4 \<noteq> 0 then Some Fail
      else (let numQuantums = unat (dataLen div 4) in
        if numQuantums = 0 then Some Fail
        else do {
          last \<leftarrow> aload data (unat dataLen - 1);
          second \<leftarrow> aload data (unat dataLen - 2);
          let equalsTerm = (if last = 0x3D then (if second = 0x3D then 2 else 1) else 0 :: nat);
          let decDataLen = (of_nat (numQuantums * 3 - equalsTerm) :: u32);
          let output_size = decDataLen + 4;
          newstr \<leftarrow> base64_malloc mal output_size;
          newstr \<leftarrow> decode_quanta data 0 (numQuantums - 1) newstr;
          lastQuantum \<leftarrow> decodeQuantum data (4 * (numQuantums - 1));
          newstr \<leftarrow> ablit newstr (3 * (numQuantums - 1)) (take (3 - equalsTerm) lastQuantum);
          newstr \<leftarrow> astore newstr (3 * (numQuantums - 1) + (3 - equalsTerm)) 0;
          Some (Done (output_size, newstr, decDataLen)) }))"

definition table64 :: bytes where
  "table64 = map (\<lambda>i. 0x41 + of_nat i) [0..<26] @ map (\<lambda>i. 0x61 + of_nat i) [0..<26] @
     map (\<lambda>i. 0x30 + of_nat i) [0..<10] @ [0x2B, 0x2F]"

definition obuf :: "u8 \<Rightarrow> u8 \<Rightarrow> u8 \<Rightarrow> bytes" where
  "obuf a b c =
     [drop_bit 2 (a AND 0xFC), push_bit 4 (a AND 0x03) OR drop_bit 4 (b AND 0xF0),
      push_bit 2 (b AND 0x0F) OR drop_bit 6 (c AND 0xC0), c AND 0x3F]"

text \<open>\<open>snprintf\<close> of the characters for \<open>inputparts\<close> bytes, with its terminating zero.\<close>

definition quantum_text :: "nat \<Rightarrow> bytes \<Rightarrow> bytes option" where
  "quantum_text inputparts ob = do {
     c0 \<leftarrow> aload table64 (unat (ob ! 0));
     c1 \<leftarrow> aload table64 (unat (ob ! 1));
     c2 \<leftarrow> aload table64 (unat (ob ! 2));
     c3 \<leftarrow> aload table64 (unat (ob ! 3));
     Some (if inputparts = 1 then [c0, c1, 0x3D, 0x3D, 0]
           else if inputparts = 2 then [c0, c1, c2, 0x3D, 0]
           else [c0, c1, c2, c3, 0]) }"

text \<open>The loop: three bytes of the input at a time, zeros where it has ended.\<close>

function encode_loop :: "bytes \<Rightarrow> bytes \<Rightarrow> nat \<Rightarrow> (bytes \<times> nat) option" where
  "encode_loop data out pos =
     (if data = [] then Some (out, pos)
      else do {
        let ibuf = take 3 (data @ [0, 0]);
        t \<leftarrow> quantum_text (min 3 (length data)) (obuf (ibuf ! 0) (ibuf ! 1) (ibuf ! 2));
        out \<leftarrow> ablit out pos t;
        encode_loop (drop 3 data) out (pos + 4) })"
  by pat_completeness auto
termination by (relation "measure (\<lambda>(data, _, _). length data)") auto

declare encode_loop.simps [simp del]

definition j_base64_encode :: "allocator \<Rightarrow> bytes \<Rightarrow> u32 \<Rightarrow> (u32 \<times> bytes \<times> u32) option" where
  "j_base64_encode mal data dataLen = do {
     let output_size = dataLen * 4 div 3 + 4;
     out \<leftarrow> base64_malloc mal output_size;
     input \<leftarrow> aslice data 0 (unat dataLen);
     (out, pos) \<leftarrow> encode_loop input out 0;
     out \<leftarrow> astore out pos 0;
     Some (output_size, out, of_nat (utils_strlen out)) }"

section \<open>The reference\<close>

text \<open>RFC 4648: the bits of the text, most significant first, six at a time, and the padding.\<close>

definition bits :: "nat \<Rightarrow> 'a::len word \<Rightarrow> bool list" where
  "bits n w = rev (map (bit w) [0..<n])"

definition of_bits :: "bool list \<Rightarrow> u8" where
  "of_bits bs = foldl (\<lambda>w b. push_bit 1 w OR (if b then 1 else 0)) 0 bs"

function sextets :: "bool list \<Rightarrow> u8 list" where
  "sextets bs = (if bs = [] then [] else of_bits (take 6 (bs @ replicate 5 False)) # sextets (drop 6 bs))"
  by pat_completeness auto
termination by (relation "measure length") auto

declare sextets.simps [simp del]

definition base64_char :: "u8 \<Rightarrow> u8" where
  "base64_char v =
     (if v < 26 then 0x41 + v else if v < 52 then 0x61 + (v - 26) else if v < 62 then 0x30 + (v - 52)
      else if v = 62 then 0x2B else 0x2F)"

definition base64 :: "bytes \<Rightarrow> bytes" where
  "base64 t =
     (let cs = map base64_char (sextets (concat (map (bits 8) t)))
      in cs @ replicate ((4 - length cs mod 4) mod 4) 0x3D)"

section \<open>The encoder computes the reference\<close>

lemma list_all_upt: "list_all P [0..<n] \<Longrightarrow> i < n \<Longrightarrow> P i"
  by (auto simp: list_all_iff)

lemma below_64:
  assumes "list_all (\<lambda>i. P (of_nat i)) [0..<64]" and "(v :: u8) < 64"
  shows "P v"
  using list_all_upt [OF assms(1), of "unat v"] assms(2) by (simp add: word_less_nat_alt)

lemma table64_char:
  assumes "v < 64" shows "aload table64 (unat v) = Some (base64_char v)"
  by (rule below_64 [OF _ assms]) code_simp

definition in_alphabet :: "u8 \<Rightarrow> bool" where
  "in_alphabet c \<longleftrightarrow> 0x41 \<le> c \<and> c \<le> 0x5A \<or> 0x61 \<le> c \<and> c \<le> 0x7A \<or> 0x30 \<le> c \<and> c \<le> 0x39 \<or>
     c = 0x2B \<or> c = 0x2F \<or> c = 0x3D"

lemma decode_char_shift:
  "decode_char c x = (if in_alphabet c then push_bit 6 x + decode_char c 0 else x)"
  unfolding decode_char_def in_alphabet_def by simp

lemma char_decoded:
  assumes "v < 64" shows "decode_char (base64_char v) x = push_bit 6 x + ucast v"
proof -
  have "in_alphabet (base64_char v) \<and> decode_char (base64_char v) 0 = ucast v"
    by (rule below_64 [OF _ assms]) code_simp
  then show ?thesis by (subst decode_char_shift) simp
qed

lemma word8_eq: "list_all (\<lambda>n. bit v n = bit w n) [0..<8] \<Longrightarrow> v = (w :: u8)"
  by (rule bit_word_eqI) (rule list_all_upt, simp_all)

lemma word8_below: "take_bit 6 v = v \<Longrightarrow> (v :: u8) < 64"
  using unsigned_take_bit_eq [of 6 v, where 'a = nat] take_bit_nat_less_exp [of 6 "unat v"]
  by (simp add: word_less_nat_alt)

lemma obuf_below [simp]:
  "obuf a b c ! 0 < 64" "obuf a b c ! Suc 0 < 64" "obuf a b c ! 2 < 64" "obuf a b c ! 3 < 64"
  by (rule word8_below, rule word8_eq, simp add: obuf_def bit_simps upt_rec)+

lemma bits_8: "bits 8 w = [bit w 7, bit w 6, bit w 5, bit w 4, bit w 3, bit w 2, bit w 1, bit w 0]"
  by (simp add: bits_def upt_rec numeral_eq_Suc)

lemma of_bits_6:
  "of_bits [b5, b4, b3, b2, b1, b0] =
     (if b5 then 32 else 0) OR (if b4 then 16 else 0) OR (if b3 then 8 else 0) OR
     (if b2 then 4 else 0) OR (if b1 then 2 else 0) OR (if b0 then 1 else 0)"
  by (simp add: of_bits_def)

text \<open>The text group by group.\<close>

fun quanta :: "bytes \<Rightarrow> bytes" where
  "quanta [] = []"
| "quanta [a] = [base64_char (obuf a 0 0 ! 0), base64_char (obuf a 0 0 ! 1), 0x3D, 0x3D]"
| "quanta [a, b] = [base64_char (obuf a b 0 ! 0), base64_char (obuf a b 0 ! 1), base64_char (obuf a b 0 ! 2), 0x3D]"
| "quanta (a # b # c # rest) = map base64_char (obuf a b c) @ quanta rest"

lemma sextets_step: "bs \<noteq> [] \<Longrightarrow> sextets bs = of_bits (take 6 (bs @ replicate 5 False)) # sextets (drop 6 bs)"
  by (subst sextets.simps) simp

lemma replicate_five: "replicate 5 x = [x, x, x, x, x]"
  by (simp add: numeral_eq_Suc)

lemma bit_if_zero: "bit (if c then x else (0 :: u8)) n \<longleftrightarrow> c \<and> bit x n"
  by simp

lemma of_bits_obuf:
  "of_bits [bit a 7, bit a 6, bit a 5, bit a 4, bit a 3, bit a 2] = obuf a b c ! 0"
  "of_bits [bit a 1, bit a 0, bit b 7, bit b 6, bit b 5, bit b 4] = obuf a b c ! 1"
  "of_bits [bit b 3, bit b 2, bit b 1, bit b 0, bit c 7, bit c 6] = obuf a b c ! 2"
  "of_bits [bit c 5, bit c 4, bit c 3, bit c 2, bit c 1, bit c 0] = obuf a b c ! 3"
  by (rule word8_eq, simp add: of_bits_6 obuf_def bit_simps bit_if_zero upt_rec split del: if_split,
      (simp add: numeral_eq_Suc)?)+

lemma obuf_nth: "obuf a b c = [obuf a b c ! 0, obuf a b c ! 1, obuf a b c ! 2, obuf a b c ! 3]"
  by (simp add: obuf_def)

lemma sextets_three: "sextets (bits 8 a @ bits 8 b @ bits 8 c @ r) = obuf a b c @ sextets r"
  by (subst obuf_nth) (simp add: bits_8 sextets_step of_bits_obuf(1,2) [of _ b c] of_bits_obuf(3) [of b c a] of_bits_obuf(4) [of c a b] del: One_nat_def)

lemma sextets_two: "sextets (bits 8 a @ bits 8 b) = take 3 (obuf a b 0)"
  using of_bits_obuf(3) [of b 0 a]
  by (subst obuf_nth) (simp add: bits_8 sextets_step of_bits_obuf(1,2) [of _ b 0] replicate_five sextets.simps [of "[]"] del: One_nat_def)

lemma sextets_one: "sextets (bits 8 a) = take 2 (obuf a 0 0)"
  using of_bits_obuf(2) [of a 0 0]
  by (subst obuf_nth) (simp add: bits_8 sextets_step of_bits_obuf(1) [of _ 0 0] replicate_five sextets.simps [of "[]"] del: One_nat_def)

lemma length_obuf [simp]: "length (obuf a b c) = 4"
  by (simp add: obuf_def)

lemma base64_quanta: "base64 t = quanta t"
proof (induction t rule: quanta.induct)
  case 1
  then show ?case by (simp add: base64_def sextets.simps [of "[]"])
next
  case (2 a)
  then show ?case by (simp add: base64_def sextets_one) (simp add: obuf_def numeral_eq_Suc)
next
  case (3 a b)
  then show ?case by (simp add: base64_def sextets_two) (simp add: obuf_def numeral_eq_Suc)
next
  case (4 a b c rest)
  have "base64 (a # b # c # rest) = map base64_char (obuf a b c) @ base64 rest"
    by (simp add: base64_def sextets_three)
  with 4 show ?case by simp
qed

lemma length_quanta: "length (quanta t) = 4 * ((length t + 2) div 3)"
  by (induction t rule: quanta.induct) (simp_all, presburger)

lemma obuf_set: "v \<in> set (obuf a b c) \<Longrightarrow> v < 64"
  by (subst (asm) obuf_nth) auto

lemma base64_char_other: "v < 64 \<Longrightarrow> base64_char v \<noteq> 0 \<and> base64_char v \<noteq> 0x3D"
  by (erule below_64 [rotated]) code_simp

lemma quanta_nonzero: "0 \<notin> set (quanta t)"
  by (induction t rule: quanta.induct) (auto dest!: obuf_set base64_char_other dest: sym simp: base64_char_other)

section \<open>The encoder\<close>

lemma quantum_text_table:
  "quantum_text k (obuf a b c) =
     Some (if k = 1 then [base64_char (obuf a b c ! 0), base64_char (obuf a b c ! 1), 0x3D, 0x3D, 0]
           else if k = 2 then [base64_char (obuf a b c ! 0), base64_char (obuf a b c ! 1), base64_char (obuf a b c ! 2), 0x3D, 0]
           else map base64_char (obuf a b c) @ [0])"
  by (simp add: quantum_text_def table64_char) (simp add: obuf_def)

lemma ablit_zeros:
  "length t \<le> k \<Longrightarrow> ablit (pre @ replicate k z) (length pre) t = Some (pre @ t @ replicate (k - length t) z)"
  by (simp add: drop_append)

lemma encode_loop_zeros:
  assumes "length (quanta data) < k"
  shows "encode_loop data (pre @ replicate k 0) (length pre) =
    Some (pre @ quanta data @ replicate (k - length (quanta data)) 0, length pre + length (quanta data))"
  using assms
proof (induction data arbitrary: pre k rule: quanta.induct)
  case 1
  then show ?case by (simp add: encode_loop.simps)
next
  case (2 a)
  then show ?case
    by (subst encode_loop.simps)
      (simp add: quantum_text_table ablit_zeros Let_def encode_loop.simps del: ablit_in flip: replicate_Suc)
next
  case (3 a b)
  then show ?case
    by (subst encode_loop.simps)
      (simp add: quantum_text_table ablit_zeros Let_def encode_loop.simps del: ablit_in flip: replicate_Suc)
next
  case (4 a b c rest)
  have "encode_loop rest ((pre @ map base64_char (obuf a b c)) @ replicate (k - 4) 0) (length (pre @ map base64_char (obuf a b c))) =
    Some ((pre @ map base64_char (obuf a b c)) @ quanta rest @ replicate (k - 4 - length (quanta rest)) 0,
      length (pre @ map base64_char (obuf a b c)) + length (quanta rest))"
    by (rule 4) (use "4.prems" in simp)
  moreover have "(0 :: u8) # replicate (k - 5) 0 = replicate (k - 4) 0"
    using "4.prems" by (simp add: Suc_diff_Suc flip: replicate_Suc)
  ultimately show ?case
    using "4.prems" by (subst encode_loop.simps) (simp add: quantum_text_table ablit_zeros del: ablit_in)
qed

lemma base64_malloc_ok:
  assumes "alloc_ok mal" and "unat n < 2 ^ 31"
  shows "base64_malloc mal n = Some (replicate (unat n) 0)"
  using assms by (auto simp: base64_malloc_def alloc_ok_def)

lemma encode_size: "n < 2 ^ 30 \<Longrightarrow> unat ((of_nat n :: u32) * 4 div 3 + 4) = 4 * n div 3 + 4"
  by (simp add: unat_add_id unat_div unat_word_ariths)

lemma encode_fits: "4 * ((n + 2) div 3) < 4 * n div 3 + (4 :: nat)"
  by presburger

text \<open>Below \<open>2 ^ 30\<close> bytes the encoder writes the Base64 text and the terminating zero, and nothing else.\<close>

lemma encode_base64:
  assumes "alloc_ok mal" and "length t < 2 ^ 30"
  shows "j_base64_encode mal (t @ rest) (of_nat (length t)) =
    Some (of_nat (4 * length t div 3 + 4),
      base64 t @ replicate (4 * length t div 3 + 4 - length (base64 t)) 0, of_nat (length (base64 t)))"
proof -
  let ?n = "of_nat (length t) * 4 div 3 + 4 :: u32" and ?k = "4 * length t div 3 + 4"
  have n: "unat ?n = ?k" by (rule encode_size [OF assms(2)])
  have u: "?n = of_nat ?k" unfolding n [symmetric] by simp
  have size: "?k < 2 ^ 31" using assms(2) by simp
  have len: "unat (of_nat (length t) :: u32) = length t" using assms(2) by simp
  have fits: "length (quanta t) < ?k" by (simp only: length_quanta encode_fits)
  have loop: "encode_loop t (replicate ?k 0) 0 =
      Some (quanta t @ replicate (?k - length (quanta t)) 0, length (quanta t))"
    using encode_loop_zeros [OF fits, of "[]"] by simp
  have "takeWhile (\<lambda>c. c \<noteq> 0) (quanta t @ replicate m 0) = quanta t" for m
    using quanta_nonzero [of t] by (cases m) (simp_all add: takeWhile_append takeWhile_eq_all_conv, (metis)+)
  moreover have "(quanta t @ replicate (?k - length (quanta t)) 0)[length (quanta t) := 0] =
      quanta t @ replicate (?k - length (quanta t)) 0"
    using fits by (simp add: list_update_append nth_append list_update_same_conv)
  ultimately show ?thesis
    using base64_malloc_ok [OF assms(1), of ?n] fits len loop size n
    by (simp add: j_base64_encode_def utils_strlen_def base64_quanta Let_def del: of_nat_add flip: u)
qed

section \<open>The decoder\<close>

lemma join_sextet:
  assumes "v < 64" shows "push_bit 6 x + ucast (v :: u8) = push_bit 6 x OR (ucast v :: u32)"
proof (rule disjunctive_add)
  have "\<not> bit v n" if "6 \<le> n" for n
  proof -
    have "unat v < 2 ^ 6" using assms by (simp add: word_less_nat_alt)
    then have "take_bit 6 (unat v) = unat v" by (simp add: take_bit_nat_eq_self)
    then have "bit (unat v) n \<longrightarrow> n < 6" by (metis bit_take_bit_iff)
    then show ?thesis using that by (simp add: bit_unsigned_iff)
  qed
  then show "\<not> bit (push_bit 6 x) n \<or> \<not> bit (ucast v :: u32) n" for n
    by (cases "n < 6") (auto simp: bit_simps)
qed

lemma char_joined: "v < 64 \<Longrightarrow> decode_char (base64_char v) x = push_bit 6 x OR ucast v"
  by (simp add: char_decoded join_sextet)

definition joined :: "bytes \<Rightarrow> u32" where
  "joined v = push_bit 6 (push_bit 6 (push_bit 6 (ucast (v ! 0)) OR ucast (v ! 1)) OR ucast (v ! 2)) OR ucast (v ! 3)"

lemma joined_obuf:
  "[ucast (drop_bit 16 (joined (obuf a b c)) AND 255), ucast (drop_bit 8 (joined (obuf a b c)) AND 255),
    ucast (joined (obuf a b c) AND 255)] = [a, b, c]"
  by (simp; intro conjI; rule word8_eq, simp add: joined_def obuf_def bit_simps upt_rec,
      (simp add: numeral_eq_Suc)?)

lemma padding_decoded: "decode_char 0x3D x = push_bit 6 x"
  by (simp add: decode_char_def)

lemma group_decoded:
  "fold decode_char (map base64_char (obuf a b c)) 0 = joined (obuf a b c)"
  by (subst obuf_nth) (simp add: char_joined joined_def)

lemma obuf_zero: "obuf a b 0 ! 3 = 0" "obuf a 0 0 ! 2 = 0"
  by (simp_all add: obuf_def)

lemma last_group_decoded:
  "fold decode_char (quanta [a]) 0 = joined (obuf a 0 0)"
  "fold decode_char (quanta [a, b]) 0 = joined (obuf a b 0)"
  by (simp_all add: char_joined joined_def padding_decoded obuf_zero)

lemma decodeQuantum_at:
  assumes "length cs = 4" and "fold decode_char cs 0 = joined (obuf a b c)"
  shows "decodeQuantum (pre @ cs @ post) (length pre) = Some [a, b, c]"
  using assms joined_obuf [of a b c] by (simp add: decodeQuantum_def)

text \<open>The rest of the decoding from the group \<open>i\<close> on.\<close>

definition decode_rest :: "bytes \<Rightarrow> nat \<Rightarrow> nat \<Rightarrow> nat \<Rightarrow> bytes \<Rightarrow> bytes option" where
  "decode_rest data i n equalsTerm newstr = do {
     newstr \<leftarrow> decode_quanta data i n newstr;
     lastQuantum \<leftarrow> decodeQuantum data (4 * (i + n));
     newstr \<leftarrow> ablit newstr (3 * (i + n)) (take (3 - equalsTerm) lastQuantum);
     astore newstr (3 * (i + n) + (3 - equalsTerm)) 0 }"

lemma decode_rest_step:
  "decode_rest data i (Suc n) e newstr = do {
     dest \<leftarrow> decodeQuantum data (4 * i);
     newstr \<leftarrow> ablit newstr (3 * i) dest;
     decode_rest data (i + 1) n e newstr }"
  by (simp add: decode_rest_def)

abbreviation padding_of :: "bytes \<Rightarrow> nat" where
  "padding_of t \<equiv> (3 - length t mod 3) mod 3"

lemma decode_rest_last:
  assumes "decodeQuantum data (4 * i) = Some q" and "length q = 3" and "length outp = 3 * i" and "3 - e < length z"
  shows "decode_rest data i 0 e (outp @ z) = Some (outp @ take (3 - e) q @ 0 # drop (Suc (3 - e)) z)"
proof -
  have "ablit (outp @ z) (3 * i) (take (3 - e) q) = Some (outp @ take (3 - e) q @ drop (3 - e) z)"
    using assms by simp
  moreover have "drop (3 - e) z = z ! (3 - e) # drop (Suc (3 - e)) z"
    using assms(4) by (simp add: Cons_nth_drop_Suc)
  ultimately show ?thesis
    using assms by (simp add: decode_rest_def list_update_append)
qed

lemma decode_rest_text:
  assumes "t \<noteq> []" and "length pre = 4 * i" and "length outp = 3 * i" and "length t < length z"
  shows "\<exists>z'. decode_rest (pre @ quanta t @ post) i (length (quanta t) div 4 - 1) (padding_of t) (outp @ z) =
    Some (outp @ t @ 0 # z') \<and> length z' = length z - length t - 1"
  using assms
proof (induction t arbitrary: pre outp i z rule: quanta.induct)
  case (2 a)
  have "decodeQuantum (pre @ quanta [a] @ post) (4 * i) = Some [a, 0, 0]"
    using decodeQuantum_at [OF _ last_group_decoded(1), of a pre post] 2 by simp
  from decode_rest_last [OF this _ 2(3), of 2 z] 2 show ?case by simp
next
  case (3 a b)
  have "decodeQuantum (pre @ quanta [a, b] @ post) (4 * i) = Some [a, b, 0]"
    using decodeQuantum_at [OF _ last_group_decoded(2), of a b pre post] 3 by simp
  from decode_rest_last [OF this _ 3(3), of 1 z] 3 show ?case by simp
next
  case (4 a b c rest)
  have q: "decodeQuantum (pre @ quanta (a # b # c # rest) @ post) (4 * i) = Some [a, b, c]"
    using decodeQuantum_at [OF _ group_decoded, of a b c pre "quanta rest @ post"] 4 by simp
  show ?case
  proof (cases "rest = []")
    case True
    from decode_rest_last [OF q _ 4(4), of 0 z] 4 True show ?thesis by simp
  next
    case False
    then have n: "length (quanta (a # b # c # rest)) div 4 - 1 = Suc (length (quanta rest) div 4 - 1)"
      by (cases rest rule: quanta.cases) (auto simp: length_quanta)
    have "\<exists>z'. decode_rest ((pre @ map base64_char (obuf a b c)) @ quanta rest @ post) (i + 1) (length (quanta rest) div 4 - 1)
        (padding_of rest) ((outp @ [a, b, c]) @ drop 3 z) =
      Some ((outp @ [a, b, c]) @ rest @ 0 # z') \<and> length z' = length (drop 3 z) - length rest - 1"
      by (rule 4(1)) (use 4 False in simp_all)
    then show ?thesis
      using 4 q unfolding n decode_rest_step by auto
  qed
qed simp


lemma quanta_long: "t \<noteq> [] \<Longrightarrow> 4 \<le> length (quanta t)"
  by (cases t rule: quanta.cases) auto

lemma quanta_last:
  assumes "t \<noteq> []"
  shows "(last (quanta t) = 0x3D \<longleftrightarrow> length t mod 3 \<noteq> 0) \<and>
    (last (butlast (quanta t)) = 0x3D \<longleftrightarrow> length t mod 3 = 1)"
  using assms
proof (induction t rule: quanta.induct)
  case (4 a b c rest)
  show ?case
  proof (cases "rest = []")
    case True
    then show ?thesis by (subst (1 2) quanta.simps, subst (1 2) obuf_nth) (simp add: base64_char_other)
  next
    case False
    then have "4 \<le> length (quanta rest)" by (rule quanta_long)
    then have "quanta rest \<noteq> []" "butlast (quanta rest) \<noteq> []" by (auto simp flip: length_0_conv)
    with 4 False show ?thesis by (simp add: butlast_append)
  qed
qed (simp_all add: base64_char_other)

lemma quanta_end:
  assumes "t \<noteq> []"
  shows "quanta t ! (length (quanta t) - 1) = 0x3D \<longleftrightarrow> length t mod 3 \<noteq> 0"
    and "quanta t ! (length (quanta t) - 2) = 0x3D \<longleftrightarrow> length t mod 3 = 1"
proof -
  have "quanta t \<noteq> []" "butlast (quanta t) \<noteq> []" using quanta_long [OF assms] by (auto simp flip: length_0_conv)
  then have "last (quanta t) = quanta t ! (length (quanta t) - 1)"
      "last (butlast (quanta t)) = quanta t ! (length (quanta t) - 2)"
    using quanta_long [OF assms] by (simp_all add: last_conv_nth nth_butlast numeral_2_eq_2)
  with quanta_last [OF assms]
  show "quanta t ! (length (quanta t) - 1) = 0x3D \<longleftrightarrow> length t mod 3 \<noteq> 0"
    and "quanta t ! (length (quanta t) - 2) = 0x3D \<longleftrightarrow> length t mod 3 = 1" by simp_all
qed

lemma padding_arith: "(n + 2) div 3 * 3 - (3 - n mod 3) mod 3 = (n :: nat)"
proof -
  define q r where "q = n div 3" and "r = n mod 3"
  then have n: "n = 3 * q + r" "r < 3" by simp_all
  then have "n mod 3 = r" "(n + 2) div 3 = q + (r + 2) div 3" by simp_all
  moreover have "r = 0 \<or> r = 1 \<or> r = 2" using n(2) by linarith
  ultimately show ?thesis using n(1) by auto
qed

text \<open>The decoder gives back the text, ended by a zero, and its length.\<close>

lemma decode_base64:
  assumes "alloc_ok mal" and "t \<noteq> []" and "length t < 2 ^ 30"
  shows "\<exists>z. j_base64_decode mal (base64 t @ post) (of_nat (length (base64 t))) =
    Some (Done (of_nat (length t) + 4, t @ 0 # z, of_nat (length t))) \<and> length z = 3"
proof -
  let ?l = "length (quanta t)"
  define m where "m = (length t + 2) div 3"
  have l: "?l = 4 * m" "m < 2 ^ 29" using assms(3) by (simp_all add: length_quanta m_def)
  then have "m \<noteq> 0" using quanta_long [OF assms(2)] by auto
  define w :: u32 where "w = of_nat (4 * m)"
  have w: "unat w = 4 * m" using l(2) unfolding w_def by (rule_tac unat_of_nat_id) simp
  then have words: "w mod 4 = 0" "unat (w div 4) = m" "unat w - 1 = 4 * m - 1" "unat w - 2 = 4 * m - 2"
    by (simp_all add: word_unat_eq_iff unat_mod unat_div)
  have lw: "of_nat (length (quanta t)) = w" by (simp only: l(1) w_def)
  have len: "m * 3 - padding_of t = length t" "padding_of t < 3" unfolding m_def by (rule padding_arith) simp
  have size: "unat (of_nat (length t) + 4 :: u32) = length t + 4" using assms(3) by (simp add: unat_add_id)
  obtain z where rest: "decode_rest (quanta t @ post) 0 (m - 1) (padding_of t) (replicate (length t + 4) 0) =
      Some (t @ 0 # z)" "length z = 3"
    using decode_rest_text [of t "[]" 0 "[]" "replicate (length t + 4) 0" post] assms(2) l(1) by auto
  have term_count: "(if quanta t ! (4 * m - 1) = 0x3D then (if quanta t ! (4 * m - 2) = 0x3D then 2 else 1) else 0) = padding_of t"
    using quanta_end [OF assms(2)] unfolding l(1) by (auto split: if_splits)
  obtain n1 q n2 where run: "decode_quanta (quanta t @ post) 0 (m - 1) (replicate (length t + 4) 0) = Some n1"
      "decodeQuantum (quanta t @ post) (4 * (m - 1)) = Some q"
      "ablit n1 (3 * (m - 1)) (take (3 - padding_of t) q) = Some n2"
      "astore n2 (3 * (m - 1) + (3 - padding_of t)) 0 = Some (t @ 0 # z)"
    using rest(1) unfolding decode_rest_def by (auto split: bind_splits)
  have load: "aload (quanta t @ post) (4 * m - 1) = Some (quanta t ! (4 * m - 1))"
      "aload (quanta t @ post) (4 * m - 2) = Some (quanta t ! (4 * m - 2))"
    using l(1) \<open>m \<noteq> 0\<close> by (simp_all add: nth_append)
  have block: "base64_malloc mal (of_nat (length t) + 4) = Some (replicate (length t + 4) 0)"
    using base64_malloc_ok [OF assms(1), of "of_nat (length t) + 4"] size assms(3) by simp
  have "j_base64_decode mal (quanta t @ post) w =
      Some (Done (of_nat (length t) + 4, t @ 0 # z, of_nat (length t)))"
    using \<open>m \<noteq> 0\<close>
    by (simp only: j_base64_decode_def words load term_count Let_def bind.bind_lunit len(1) block run if_False
        not_not simp_thms)
  then show ?thesis using rest(2) by (auto simp only: base64_quanta lw)
qed

section \<open>The properties\<close>

text \<open>C17. Base64 as the client writes and reads it: the encoder fills its block with the Base64 text that RFC 4648
  defines on the bits of the input, ended by zeros, without writing behind the block, and the decoder gives
  back exactly the input, ended by a zero, with its length.\<close>

theorem base64_delivered:
  assumes "alloc_ok mal" and "t \<noteq> []" and "length t < 2 ^ 30"
  shows "\<exists>out z. j_base64_encode mal t (of_nat (length t)) =
      Some (of_nat (4 * length t div 3 + 4), base64 t @ out, of_nat (length (base64 t))) \<and>
    list_all (\<lambda>c. c = 0) out \<and> out \<noteq> [] \<and>
    j_base64_decode mal (base64 t @ out) (of_nat (length (base64 t))) =
      Some (Done (of_nat (length t) + 4, t @ 0 # z, of_nat (length t)))"
proof -
  let ?out = "replicate (4 * length t div 3 + 4 - length (base64 t)) 0 :: bytes"
  obtain z where "j_base64_decode mal (base64 t @ ?out) (of_nat (length (base64 t))) =
      Some (Done (of_nat (length t) + 4, t @ 0 # z, of_nat (length t)))"
    using decode_base64 [OF assms] by blast
  moreover have "?out \<noteq> []" using encode_fits [of "length t"] by (simp add: base64_quanta length_quanta)
  ultimately show ?thesis
    using encode_base64 [OF assms(1,3), of "[]"] by (auto simp: list_all_iff)
qed

text \<open>Four bytes take eight characters, of which the last two are padding.\<close>

theorem base64_delivered_witness:
  "\<exists>out z. j_base64_encode calloc [0x6D, 0x6C, 0x33, 0x30] 4 =
      Some (9, [0x62, 0x57, 0x77, 0x7A, 0x4D, 0x41, 0x3D, 0x3D] @ out, 8) \<and>
    list_all (\<lambda>c. c = 0) out \<and> out \<noteq> [] \<and>
    j_base64_decode calloc ([0x62, 0x57, 0x77, 0x7A, 0x4D, 0x41, 0x3D, 0x3D] @ out) 8 =
      Some (Done (8, [0x6D, 0x6C, 0x33, 0x30] @ 0 # z, 4))"
proof -
  have "base64 [0x6D, 0x6C, 0x33, 0x30] = [0x62, 0x57, 0x77, 0x7A, 0x4D, 0x41, 0x3D, 0x3D]" by code_simp
  then show ?thesis using base64_delivered [of calloc "[0x6D, 0x6C, 0x33, 0x30]"] by simp
qed

text \<open>Characters outside the alphabet are not noticed: they decode to nothing.\<close>

theorem base64_garbage_accepted:
  "j_base64_decode calloc [0x21, 0x21, 0x21, 0x21] 4 = Some (Done (7, [0, 0, 0, 0, 0, 0, 0], 3))"
  by code_simp

text \<open>A failed allocation is cleared through the null pointer before it is tested.\<close>

theorem base64_no_memory:
  "mal (dataLen * 4 div 3 + 4) = None \<Longrightarrow> j_base64_encode mal data dataLen = None"
  by (simp add: j_base64_encode_def base64_malloc_def Let_def)

end
