(* ===== verification/Dm_Sha256.thy ===== *)
theory Dm_Sha256
  imports Cis_Utils
begin

text \<open>
  \<open>dm_utils/sha256.c\<close>: SHA-256 as the device management computes it. The streaming functions call
  \<open>mbedtls_internal_sha256_process\<close>, which the linked library provides; it is the parameter \<open>process\<close>, with
  the returned code and the new state. The compression function of the file itself,
  \<open>dm_mbedtls_internal_sha256_process\<close>, is not called; it is modelled too.
\<close>

section \<open>The code\<close>

record mbedtls_sha256_context =
  sh_total0 :: u32
  sh_total1 :: u32
  sh_state :: "u32 list"
  sh_buffer :: bytes
  sh_is224 :: int

type_synonym sha_process = "u32 list \<Rightarrow> bytes \<Rightarrow> int \<times> u32 list"

text \<open>\<open>GET_UINT32_BE\<close>, and the four bytes that \<open>PUT_UINT32_BE\<close> stores are \<open>be32\<close>.\<close>

definition GET_UINT32_BE :: "bytes \<Rightarrow> nat \<Rightarrow> u32 option" where
  "GET_UINT32_BE b i = do {
     b0 \<leftarrow> aload b i;
     b1 \<leftarrow> aload b (i + 1);
     b2 \<leftarrow> aload b (i + 2);
     b3 \<leftarrow> aload b (i + 3);
     Some (push_bit 24 (ucast b0) OR push_bit 16 (ucast b1) OR push_bit 8 (ucast b2) OR ucast b3) }"

definition mbedtls_sha256_init_ex :: mbedtls_sha256_context where
  "mbedtls_sha256_init_ex =
     \<lparr>sh_total0 = 0, sh_total1 = 0, sh_state = replicate 8 0, sh_buffer = replicate 64 0, sh_is224 = 0\<rparr>"

definition initial_state :: "int \<Rightarrow> u32 list" where
  "initial_state is224 =
     (if is224 = 0
      then [0x6A09E667, 0xBB67AE85, 0x3C6EF372, 0xA54FF53A, 0x510E527F, 0x9B05688C, 0x1F83D9AB, 0x5BE0CD19]
      else [0xC1059ED8, 0x367CD507, 0x3070DD17, 0xF70E5939, 0xFFC00B31, 0x68581511, 0x64F98FA7, 0xBEFA4FA4])"

definition dm_mbedtls_sha256_starts_ret :: "mbedtls_sha256_context \<Rightarrow> int \<Rightarrow> mbedtls_sha256_context" where
  "dm_mbedtls_sha256_starts_ret ctx is224 =
     ctx\<lparr>sh_total0 := 0, sh_total1 := 0, sh_state := initial_state is224, sh_is224 := is224\<rparr>"

definition sha256_K :: "u32 list" where
  "sha256_K = [
     0x428A2F98, 0x71374491, 0xB5C0FBCF, 0xE9B5DBA5, 0x3956C25B, 0x59F111F1, 0x923F82A4, 0xAB1C5ED5,
     0xD807AA98, 0x12835B01, 0x243185BE, 0x550C7DC3, 0x72BE5D74, 0x80DEB1FE, 0x9BDC06A7, 0xC19BF174,
     0xE49B69C1, 0xEFBE4786, 0x0FC19DC6, 0x240CA1CC, 0x2DE92C6F, 0x4A7484AA, 0x5CB0A9DC, 0x76F988DA,
     0x983E5152, 0xA831C66D, 0xB00327C8, 0xBF597FC7, 0xC6E00BF3, 0xD5A79147, 0x06CA6351, 0x14292967,
     0x27B70A85, 0x2E1B2138, 0x4D2C6DFC, 0x53380D13, 0x650A7354, 0x766A0ABB, 0x81C2C92E, 0x92722C85,
     0xA2BFE8A1, 0xA81A664B, 0xC24B8B70, 0xC76C51A3, 0xD192E819, 0xD6990624, 0xF40E3585, 0x106AA070,
     0x19A4C116, 0x1E376C08, 0x2748774C, 0x34B0BCB5, 0x391C0CB3, 0x4ED8AA4A, 0x5B9CCA4F, 0x682E6FF3,
     0x748F82EE, 0x78A5636F, 0x84C87814, 0x8CC70208, 0x90BEFFFA, 0xA4506CEB, 0xBEF9A3F7, 0xC67178F2]"

abbreviation SHR :: "u32 \<Rightarrow> nat \<Rightarrow> u32" where "SHR x n \<equiv> drop_bit n (x AND 0xFFFFFFFF)"
abbreviation ROTR :: "u32 \<Rightarrow> nat \<Rightarrow> u32" where "ROTR x n \<equiv> SHR x n OR push_bit (32 - n) x"

definition sha_S0 :: "u32 \<Rightarrow> u32" where "sha_S0 x = ROTR x 7 XOR ROTR x 18 XOR SHR x 3"
definition sha_S1 :: "u32 \<Rightarrow> u32" where "sha_S1 x = ROTR x 17 XOR ROTR x 19 XOR SHR x 10"
definition sha_S2 :: "u32 \<Rightarrow> u32" where "sha_S2 x = ROTR x 2 XOR ROTR x 13 XOR ROTR x 22"
definition sha_S3 :: "u32 \<Rightarrow> u32" where "sha_S3 x = ROTR x 6 XOR ROTR x 11 XOR ROTR x 25"
definition sha_F0 :: "u32 \<Rightarrow> u32 \<Rightarrow> u32 \<Rightarrow> u32" where "sha_F0 x y z = (x AND y) OR (z AND (x OR y))"
definition sha_F1 :: "u32 \<Rightarrow> u32 \<Rightarrow> u32 \<Rightarrow> u32" where "sha_F1 x y z = z XOR (x AND (y XOR z))"

text \<open>The macro \<open>R\<close>: the value it stores in \<open>W[t]\<close>.\<close>

definition sha_R :: "u32 list \<Rightarrow> nat \<Rightarrow> u32" where
  "sha_R W t = sha_S1 (W ! (t - 2)) + W ! (t - 7) + sha_S0 (W ! (t - 15)) + W ! (t - 16)"

text \<open>The macro \<open>P\<close> on an array and the places of its eight arguments.\<close>

definition sha_P :: "u32 list \<Rightarrow> nat \<Rightarrow> nat \<Rightarrow> nat \<Rightarrow> nat \<Rightarrow> nat \<Rightarrow> nat \<Rightarrow> nat \<Rightarrow> nat \<Rightarrow> u32 \<Rightarrow> u32 \<Rightarrow> u32 list" where
  "sha_P A a b c d e f g h x k =
     (let temp1 = A ! h + sha_S3 (A ! e) + sha_F1 (A ! e) (A ! f) (A ! g) + k + x;
          temp2 = sha_S2 (A ! a) + sha_F0 (A ! a) (A ! b) (A ! c);
          A = A[d := A ! d + temp1]
      in A[h := temp1 + temp2])"

text \<open>Eight rounds with rotating arguments, as both loops write them out.\<close>

definition eight_rounds :: "u32 list \<Rightarrow> u32 list \<Rightarrow> nat \<Rightarrow> u32 list" where
  "eight_rounds A W i =
     (let A = sha_P A 0 1 2 3 4 5 6 7 (W ! i) (sha256_K ! i);
          A = sha_P A 7 0 1 2 3 4 5 6 (W ! (i + 1)) (sha256_K ! (i + 1));
          A = sha_P A 6 7 0 1 2 3 4 5 (W ! (i + 2)) (sha256_K ! (i + 2));
          A = sha_P A 5 6 7 0 1 2 3 4 (W ! (i + 3)) (sha256_K ! (i + 3));
          A = sha_P A 4 5 6 7 0 1 2 3 (W ! (i + 4)) (sha256_K ! (i + 4));
          A = sha_P A 3 4 5 6 7 0 1 2 (W ! (i + 5)) (sha256_K ! (i + 5));
          A = sha_P A 2 3 4 5 6 7 0 1 (W ! (i + 6)) (sha256_K ! (i + 6))
      in sha_P A 1 2 3 4 5 6 7 0 (W ! (i + 7)) (sha256_K ! (i + 7)))"

text \<open>In the second loop \<open>R(i)\<close> to \<open>R(i + 7)\<close> extend \<open>W\<close>; they do not read \<open>A\<close>.\<close>

definition extend_W :: "u32 list \<Rightarrow> nat \<Rightarrow> u32 list" where
  "extend_W W i = fold (\<lambda>t W. W[t := sha_R W t]) [i..<i + 8] W"

fun second_loop :: "nat \<Rightarrow> nat \<Rightarrow> u32 list \<Rightarrow> u32 list \<Rightarrow> u32 list" where
  "second_loop 0 i A W = A"
| "second_loop (Suc n) i A W = (let W = extend_W W i in second_loop n (i + 8) (eight_rounds A W i) W)"

definition dm_mbedtls_internal_sha256_process :: "u32 list \<Rightarrow> bytes \<Rightarrow> (int \<times> u32 list) option" where
  "dm_mbedtls_internal_sha256_process state data = do {
     W \<leftarrow> those (map (\<lambda>i. GET_UINT32_BE data (4 * i)) [0..<16]);
     let W = W @ replicate 48 0;
     let A = eight_rounds (eight_rounds state W 0) W 8;
     let A = second_loop 6 16 A W;
     Some (0, map2 (+) state A) }"

text \<open>\<open>while (ilen >= 64)\<close>: the code, the state and what is left of the input.\<close>

function block_loop :: "sha_process \<Rightarrow> u32 list \<Rightarrow> bytes \<Rightarrow> int \<times> u32 list \<times> bytes" where
  "block_loop process st input =
     (if length input < 64 then (0, st, input)
      else (let (ret, st') = process st (take 64 input)
            in if ret \<noteq> 0 then (ret, st', input) else block_loop process st' (drop 64 input)))"
  by pat_completeness auto
termination by (relation "measure (\<lambda>(_, _, input). length input)") auto

declare block_loop.simps [simp del]

text \<open>The input is fed to the blocks: the rest of a block that was begun, whole blocks, what remains.\<close>

definition sha_feed ::
  "sha_process \<Rightarrow> mbedtls_sha256_context \<Rightarrow> bytes \<Rightarrow> nat \<Rightarrow> (int \<times> mbedtls_sha256_context) option" where
  "sha_feed process ctx input left = do {
     let fill = 64 - left;
     (ret, ctx, input, left) \<leftarrow>
       (if left \<noteq> 0 \<and> fill \<le> length input
        then do {
          buffer \<leftarrow> ablit (sh_buffer ctx) left (take fill input);
          let (ret, st) = process (sh_state ctx) buffer;
          Some (ret, ctx\<lparr>sh_buffer := buffer, sh_state := st\<rparr>, drop fill input, 0) }
        else Some (0, ctx, input, left));
     if ret \<noteq> 0 then Some (ret, ctx)
     else do {
       let (ret, st, input) = block_loop process (sh_state ctx) input;
       let ctx = ctx\<lparr>sh_state := st\<rparr>;
       if ret \<noteq> 0 then Some (ret, ctx)
       else if input = [] then Some (0, ctx)
       else do {
         buffer \<leftarrow> ablit (sh_buffer ctx) left input;
         Some (0, ctx\<lparr>sh_buffer := buffer\<rparr>) } } }"

definition dm_mbedtls_sha256_update_ret ::
  "sha_process \<Rightarrow> mbedtls_sha256_context \<Rightarrow> bytes \<Rightarrow> u32 \<Rightarrow> (int \<times> mbedtls_sha256_context) option" where
  "dm_mbedtls_sha256_update_ret process ctx input ilen =
     (if ilen = 0 then Some (0, ctx)
      else do {
        let left = unat (sh_total0 ctx AND 0x3F);
        let ctx = (let ctx = ctx\<lparr>sh_total0 := sh_total0 ctx + ilen\<rparr>
                   in if sh_total0 ctx < ilen then ctx\<lparr>sh_total1 := sh_total1 ctx + 1\<rparr> else ctx);
        input \<leftarrow> aslice input 0 (unat ilen);
        sha_feed process ctx input left })"

definition sha256_padding :: bytes where
  "sha256_padding = 0x80 # replicate 63 0"

text \<open>The returned code, the context and the bytes stored in \<open>output\<close>.\<close>

definition dm_mbedtls_sha256_finish_ret ::
  "sha_process \<Rightarrow> mbedtls_sha256_context \<Rightarrow> (int \<times> mbedtls_sha256_context \<times> bytes) option" where
  "dm_mbedtls_sha256_finish_ret process ctx = do {
     let high = drop_bit 29 (sh_total0 ctx) OR push_bit 3 (sh_total1 ctx);
     let low = push_bit 3 (sh_total0 ctx);
     let msglen = be32 high @ be32 low;
     let last = sh_total0 ctx AND 0x3F;
     let padn = (if last < 56 then 56 - last else 120 - last);
     (ret, ctx) \<leftarrow> dm_mbedtls_sha256_update_ret process ctx sha256_padding padn;
     if ret \<noteq> 0 then Some (ret, ctx, [])
     else do {
       (ret, ctx) \<leftarrow> dm_mbedtls_sha256_update_ret process ctx msglen 8;
       if ret \<noteq> 0 then Some (ret, ctx, [])
       else Some (0, ctx, concat (map be32 (take (if sh_is224 ctx = 0 then 8 else 7) (sh_state ctx)))) } }"

text \<open>The context is cleared at the end; the code and the digest remain.\<close>

definition dm_mbedtls_sha256_ret :: "sha_process \<Rightarrow> bytes \<Rightarrow> u32 \<Rightarrow> int \<Rightarrow> (int \<times> bytes) option" where
  "dm_mbedtls_sha256_ret process input ilen is224 = do {
     let ctx = dm_mbedtls_sha256_starts_ret mbedtls_sha256_init_ex is224;
     (ret, ctx) \<leftarrow> dm_mbedtls_sha256_update_ret process ctx input ilen;
     if ret \<noteq> 0 then Some (ret, [])
     else do {
       (ret, ctx, output) \<leftarrow> dm_mbedtls_sha256_finish_ret process ctx;
       Some (ret, output) } }"

section \<open>The reference\<close>

text \<open>FIPS 180-4, 6.2.2: the message schedule and the rounds, with the eight variables rotating.\<close>

fun schedule :: "(nat \<Rightarrow> u32) \<Rightarrow> nat \<Rightarrow> u32" where
  "schedule M t =
     (if t < 16 then M t
      else sha_S1 (schedule M (t - 2)) + schedule M (t - 7) + sha_S0 (schedule M (t - 15)) + schedule M (t - 16))"

declare schedule.simps [simp del]

definition sha_round :: "u32 \<Rightarrow> u32 \<Rightarrow> u32 list \<Rightarrow> u32 list" where
  "sha_round w k A =
     (let T1 = A ! 7 + sha_S3 (A ! 4) + sha_F1 (A ! 4) (A ! 5) (A ! 6) + k + w;
          T2 = sha_S2 (A ! 0) + sha_F0 (A ! 0) (A ! 1) (A ! 2)
      in [T1 + T2, A ! 0, A ! 1, A ! 2, A ! 3 + T1, A ! 4, A ! 5, A ! 6])"

definition message_word :: "bytes \<Rightarrow> nat \<Rightarrow> u32" where
  "message_word block t =
     push_bit 24 (ucast (block ! (4 * t))) OR push_bit 16 (ucast (block ! (4 * t + 1))) OR
     push_bit 8 (ucast (block ! (4 * t + 2))) OR ucast (block ! (4 * t + 3))"

definition sha_compress :: "u32 list \<Rightarrow> bytes \<Rightarrow> u32 list" where
  "sha_compress state block =
     map2 (+) state
       (fold (\<lambda>t. sha_round (schedule (message_word block) t) (sha256_K ! t)) [0..<64] state)"

text \<open>5.1.1 and 6.2: the padding, and the digest over the blocks of the padded message.\<close>

function sha_blocks :: "bytes \<Rightarrow> bytes list" where
  "sha_blocks m = (if length m < 64 then [] else take 64 m # sha_blocks (drop 64 m))"
  by pat_completeness auto
termination by (relation "measure length") auto

declare sha_blocks.simps [simp del]

definition sha_pad :: "bytes \<Rightarrow> bytes" where
  "sha_pad m =
     m @ [0x80] @ replicate ((119 - length m mod 64) mod 64) 0 @
     be32 (of_nat (8 * length m div 2 ^ 32)) @ be32 (of_nat (8 * length m))"

definition sha_digest :: "(u32 list \<Rightarrow> bytes \<Rightarrow> u32 list) \<Rightarrow> int \<Rightarrow> bytes \<Rightarrow> bytes" where
  "sha_digest compress is224 m =
     concat (map be32 (take (if is224 = 0 then 8 else 7)
       (fold (\<lambda>b st. compress st b) (sha_blocks (sha_pad m)) (initial_state is224))))"

section \<open>The rounds of the file are those of the standard\<close>

text \<open>The code rotates the arguments, the standard the variables: the array seen from round \<open>r\<close> on.\<close>

definition turned :: "nat \<Rightarrow> u32 list \<Rightarrow> u32 list" where
  "turned r A = map (\<lambda>j. A ! ((j + 8 - r) mod 8)) [0..<8]"

lemma length_sha_P [simp]: "length (sha_P A a b c d e f g h x k) = length A"
  by (simp add: sha_P_def Let_def)

lemma upt_8: "[0..<8] = [0, 1, 2, 3, 4, 5, 6, 7 :: nat]"
  by (simp add: upt_rec)

lemma sha_round_turned:
  assumes "length A = 8"
  shows "sha_round x k (turned 0 A) = turned 1 (sha_P A 0 1 2 3 4 5 6 7 x k)"
    "sha_round x k (turned 1 A) = turned 2 (sha_P A 7 0 1 2 3 4 5 6 x k)"
    "sha_round x k (turned 2 A) = turned 3 (sha_P A 6 7 0 1 2 3 4 5 x k)"
    "sha_round x k (turned 3 A) = turned 4 (sha_P A 5 6 7 0 1 2 3 4 x k)"
    "sha_round x k (turned 4 A) = turned 5 (sha_P A 4 5 6 7 0 1 2 3 x k)"
    "sha_round x k (turned 5 A) = turned 6 (sha_P A 3 4 5 6 7 0 1 2 x k)"
    "sha_round x k (turned 6 A) = turned 7 (sha_P A 2 3 4 5 6 7 0 1 x k)"
    "sha_round x k (turned 7 A) = turned 8 (sha_P A 1 2 3 4 5 6 7 0 x k)"
  using assms by (simp_all add: turned_def upt_8 sha_round_def sha_P_def Let_def flip: numeral_2_eq_2)

lemma turned_id: "length A = 8 \<Longrightarrow> turned 0 A = A" "length A = 8 \<Longrightarrow> turned 8 A = A"
  by (rule nth_equalityI; simp add: turned_def)+

lemma eight_rounds_eq:
  assumes "length A = 8"
  shows "eight_rounds A W i = fold (\<lambda>t. sha_round (W ! t) (sha256_K ! t)) [i..<i + 8] A"
proof -
  have range: "[i..<i + 8] = [i, i + 1, i + 2, i + 3, i + 4, i + 5, i + 6, i + 7]"
    by (simp add: upt_rec)
  have "fold (\<lambda>t. sha_round (W ! t) (sha256_K ! t)) [i..<i + 8] (turned 0 A) = turned 8 (eight_rounds A W i)"
    unfolding range fold.simps o_apply id_apply eight_rounds_def Let_def
    by (simp only: sha_round_turned length_sha_P assms)
  moreover have "length (eight_rounds A W i) = 8" by (simp add: eight_rounds_def Let_def assms)
  ultimately show ?thesis by (simp add: turned_id assms)
qed

lemma length_sha_round [simp]: "length (sha_round w k A) = 8"
  by (simp add: sha_round_def Let_def)

lemma length_rounds [simp]: "length A = 8 \<Longrightarrow> length (fold (\<lambda>t. sha_round (W t) (sha256_K ! t)) ts A) = 8"
  by (induction ts arbitrary: A) auto

definition scheduled :: "(nat \<Rightarrow> u32) \<Rightarrow> nat \<Rightarrow> u32 list \<Rightarrow> bool" where
  "scheduled M i W \<longleftrightarrow> length W = 64 \<and> (\<forall>j < i. W ! j = schedule M j)"

lemma scheduled_step:
  assumes "scheduled M t W" and "16 \<le> t" and "t < 64"
  shows "scheduled M (Suc t) (W[t := sha_R W t])"
proof -
  have "sha_R W t = schedule M t"
    using assms by (subst schedule.simps) (simp add: sha_R_def scheduled_def)
  then show ?thesis using assms by (auto simp: scheduled_def less_Suc_eq nth_list_update)
qed

lemma scheduled_range:
  "scheduled M i W \<Longrightarrow> 16 \<le> i \<Longrightarrow> i + n \<le> 64 \<Longrightarrow> scheduled M (i + n) (fold (\<lambda>t W. W[t := sha_R W t]) [i..<i + n] W)"
  by (induction n) (auto intro!: scheduled_step)

lemma extend_W_scheduled:
  "scheduled M i W \<Longrightarrow> 16 \<le> i \<Longrightarrow> i + 8 \<le> 64 \<Longrightarrow> scheduled M (i + 8) (extend_W W i)"
  unfolding extend_W_def by (rule scheduled_range)

abbreviation rounds :: "(nat \<Rightarrow> u32) \<Rightarrow> nat \<Rightarrow> nat \<Rightarrow> u32 list \<Rightarrow> u32 list" where
  "rounds M i j \<equiv> fold (\<lambda>t. sha_round (schedule M t) (sha256_K ! t)) [i..<j]"

lemma eight_rounds_scheduled:
  assumes "length A = 8" and "scheduled M (i + 8) W"
  shows "eight_rounds A W i = rounds M i (i + 8) A"
  unfolding eight_rounds_eq [OF assms(1)]
  by (rule fold_cong) (use assms(2) in \<open>auto simp: scheduled_def\<close>)

lemma rounds_append: "i \<le> j \<Longrightarrow> j \<le> k \<Longrightarrow> rounds M j k (rounds M i j A) = rounds M i k A"
  using upt_add_eq_append [of i j "k - j"] by simp

lemma second_loop_rounds:
  "length A = 8 \<Longrightarrow> scheduled M i W \<Longrightarrow> 16 \<le> i \<Longrightarrow> i + 8 * n \<le> 64 \<Longrightarrow> second_loop n i A W = rounds M i (i + 8 * n) A"
proof (induction n arbitrary: i A W)
  case (Suc n)
  have W: "scheduled M (i + 8) (extend_W W i)" using Suc.prems by (simp add: extend_W_scheduled)
  have "second_loop (Suc n) i A W = rounds M (i + 8) (i + 8 + 8 * n) (rounds M i (i + 8) A)"
    using Suc.IH [OF _ W, of "rounds M i (i + 8) A"] Suc.prems
    by (simp add: eight_rounds_scheduled [OF Suc.prems(1) W] Let_def)
  also have "\<dots> = rounds M i (i + 8 * Suc n) A"
    using rounds_append [of i "i + 8" "i + 8 + 8 * n" M A] by (simp add: add.assoc)
  finally show ?case .
qed simp

lemma message_words:
  assumes "64 \<le> length data"
  shows "those (map (\<lambda>i. GET_UINT32_BE data (4 * i)) [0..<16]) = Some (map (message_word data) [0..<16])"
proof -
  have "GET_UINT32_BE data (4 * i) = Some (message_word data i)" if "i \<in> set [0..<16]" for i
    using that assms by (simp add: GET_UINT32_BE_def message_word_def)
  then have "map (\<lambda>i. GET_UINT32_BE data (4 * i)) [0..<16] = map (Some \<circ> message_word data) [0..<16]"
    by (intro map_cong) simp_all
  moreover have "those (map (Some \<circ> f) xs) = Some (map f xs)" for f :: "nat \<Rightarrow> u32" and xs
    by (induction xs) simp_all
  ultimately show ?thesis by (simp only:)
qed

lemma process_compress:
  assumes "length state = 8" and "64 \<le> length data"
  shows "dm_mbedtls_internal_sha256_process state data = Some (0, sha_compress state data)"
proof -
  let ?M = "message_word data" and ?W = "map (message_word data) [0..<16] @ replicate 48 0"
  have W: "scheduled ?M 16 ?W" by (simp add: scheduled_def nth_append schedule.simps [of ?M])
  then have W8: "scheduled ?M (0 + 8) ?W" "scheduled ?M (8 + 8) ?W" by (auto simp: scheduled_def)
  have "eight_rounds (eight_rounds state ?W 0) ?W 8 = rounds ?M 8 16 (rounds ?M 0 8 state)"
    using eight_rounds_scheduled [OF assms(1) W8(1)] eight_rounds_scheduled [OF _ W8(2), of "rounds ?M 0 8 state"] assms(1)
    by simp
  then have "second_loop 6 16 (eight_rounds (eight_rounds state ?W 0) ?W 8) ?W = rounds ?M 0 64 state"
    using second_loop_rounds [OF _ W, of "rounds ?M 0 16 state" 6] assms(1)
      rounds_append [of 0 16 64 ?M state] rounds_append [of 0 8 16 ?M state] by simp
  then show ?thesis
    by (simp add: dm_mbedtls_internal_sha256_process_def message_words [OF assms(2)] sha_compress_def Let_def)
qed

section \<open>Streaming\<close>

text \<open>The documented behaviour of the processing function: it computes the compression and returns 0.\<close>

definition sha_process_ok :: "sha_process \<Rightarrow> (u32 list \<Rightarrow> bytes \<Rightarrow> u32 list) \<Rightarrow> bool" where
  "sha_process_ok process compress \<longleftrightarrow> (\<forall>st block. length block = 64 \<longrightarrow> process st block = (0, compress st block))"

text \<open>The context after the bytes \<open>m\<close>.\<close>

definition after_bytes :: "(u32 list \<Rightarrow> bytes \<Rightarrow> u32 list) \<Rightarrow> int \<Rightarrow> bytes \<Rightarrow> mbedtls_sha256_context \<Rightarrow> bool" where
  "after_bytes compress is224 m ctx \<longleftrightarrow>
     sh_total0 ctx = of_nat (length m) \<and> sh_total1 ctx = of_nat (length m div 2 ^ 32) \<and> sh_is224 ctx = is224 \<and>
     sh_state ctx = fold (\<lambda>b st. compress st b) (sha_blocks m) (initial_state is224) \<and>
     length (sh_buffer ctx) = 64 \<and>
     take (length m mod 64) (sh_buffer ctx) = drop (64 * (length m div 64)) m"

lemma sha_blocks_append: "64 dvd length m \<Longrightarrow> sha_blocks (m @ d) = sha_blocks m @ sha_blocks d"
proof (induction m rule: sha_blocks.induct)
  case (1 m)
  show ?case
  proof (cases "length m < 64")
    case True
    with 1 have "m = []" by (auto elim: dvdE)
    then show ?thesis by (simp add: sha_blocks.simps [of "[]"])
  next
    case False
    with 1 have "sha_blocks (drop 64 m @ d) = sha_blocks (drop 64 m) @ sha_blocks d"
      by (auto simp: dvd_diff_nat)
    with False show ?thesis by (simp add: sha_blocks.simps [of "m @ d"] sha_blocks.simps [of m])
  qed
qed

lemma sha_blocks_split:
  "sha_blocks (m @ d) = sha_blocks m @ sha_blocks (drop (64 * (length m div 64)) m @ d)"
proof -
  let ?n = "64 * (length m div 64)"
  have "?n \<le> length m" by simp
  then have "length (take ?n m) = ?n" by (simp only: length_take min_absorb2)
  then have len: "64 dvd length (take ?n m)" by (simp only: dvd_triv_left)
  have "sha_blocks (take ?n m @ drop ?n m @ d) = sha_blocks (take ?n m) @ sha_blocks (drop ?n m @ d)"
    by (rule sha_blocks_append [OF len])
  moreover have "length (drop ?n m) < 64" by (simp add: minus_mult_div_eq_mod)
  then have "sha_blocks (take ?n m @ drop ?n m) = sha_blocks (take ?n m)"
    using sha_blocks_append [OF len, of "drop ?n m"] by (simp add: sha_blocks.simps [of "drop ?n m"])
  ultimately show ?thesis by (metis append.assoc append_take_drop_id)
qed

lemma block_loop_blocks:
  assumes "sha_process_ok process compress"
  shows "block_loop process st input =
    (0, fold (\<lambda>b st. compress st b) (sha_blocks input) st, drop (64 * (length input div 64)) input)"
proof (induction input arbitrary: st rule: sha_blocks.induct)
  case (1 m)
  show ?case
  proof (cases "length m < 64")
    case True
    then show ?thesis by (simp add: block_loop.simps [of _ _ m] sha_blocks.simps [of m])
  next
    case False
    then have "process st (take 64 m) = (0, compress st (take 64 m))"
      using assms by (simp add: sha_process_ok_def)
    moreover have "64 * (length m div 64) = 64 + 64 * (length (drop 64 m) div 64)"
      using False by (simp add: le_div_geq)
    ultimately show ?thesis
      using False 1 by (simp add: block_loop.simps [of _ _ m] sha_blocks.simps [of m] add.commute)
  qed
qed

text \<open>What of the input does not fill a block yet.\<close>

abbreviation sha_tail :: "bytes \<Rightarrow> bytes" where
  "sha_tail m \<equiv> drop (64 * (length m div 64)) m"

lemma length_tail: "length (sha_tail m) = length m mod 64"
  by (simp add: minus_mult_div_eq_mod)

lemma tail_append: "64 dvd length m \<Longrightarrow> sha_tail (m @ d) = sha_tail d"
  by (auto elim!: dvdE simp: algebra_simps)

lemma tail_split: "sha_tail (m @ d) = sha_tail (sha_tail m @ d)"
proof -
  let ?n = "64 * (length m div 64)"
  have "?n \<le> length m" by simp
  then have "length (take ?n m) = ?n" by (simp only: length_take min_absorb2)
  then have "64 dvd length (take ?n m)" by (simp only: dvd_triv_left)
  from tail_append [OF this, of "sha_tail m @ d"] show ?thesis by simp
qed

lemma total_step:
  assumes "n < 2 ^ 32"
  shows "(of_nat l :: u32) + of_nat n < of_nat n \<longleftrightarrow> (l + n) div 2 ^ 32 = l div 2 ^ 32 + 1"
    and "\<not> (of_nat l :: u32) + of_nat n < of_nat n \<Longrightarrow> (l + n) div 2 ^ 32 = l div 2 ^ 32"
proof -
  let ?a = "l mod 2 ^ 32"
  have n: "unat (of_nat n :: u32) = n" using assms by simp
  have sum: "unat ((of_nat l :: u32) + of_nat n) = (?a + n) mod 2 ^ 32"
    by (simp add: unat_word_ariths unat_of_nat_mod mod_simps)
  have div: "(l + n) div 2 ^ 32 = l div 2 ^ 32 + (?a + n) div 2 ^ 32"
    using div_add1_eq [of l n "2 ^ 32"] assms by simp
  have a: "?a < 2 ^ 32" by simp
  have carry: "(?a + n) mod 2 ^ 32 < n \<longleftrightarrow> 2 ^ 32 \<le> ?a + n" "(?a + n) div 2 ^ 32 = (if 2 ^ 32 \<le> ?a + n then 1 else 0)"
  proof -
    show "(?a + n) div 2 ^ 32 = (if 2 ^ 32 \<le> ?a + n then 1 else 0)"
      using a assms by (simp add: div_nat_eqI)
    show "(?a + n) mod 2 ^ 32 < n \<longleftrightarrow> 2 ^ 32 \<le> ?a + n"
    proof (cases "2 ^ 32 \<le> ?a + n")
      case True
      then have "(?a + n) mod 2 ^ 32 = ?a + n - 2 ^ 32"
        using a assms by (subst le_mod_geq) simp_all
      with True a assms show ?thesis by linarith
    qed simp
  qed
  show "(of_nat l :: u32) + of_nat n < of_nat n \<longleftrightarrow> (l + n) div 2 ^ 32 = l div 2 ^ 32 + 1"
    and "\<not> (of_nat l :: u32) + of_nat n < of_nat n \<Longrightarrow> (l + n) div 2 ^ 32 = l div 2 ^ 32"
    using carry div by (simp_all add: word_less_nat_alt sum n)
qed

lemma total_after:
  assumes "n < 2 ^ 32" and "sh_total0 ctx = of_nat l" and "sh_total1 ctx = of_nat (l div 2 ^ 32)"
  shows "(let ctx = ctx\<lparr>sh_total0 := sh_total0 ctx + of_nat n\<rparr>
          in if sh_total0 ctx < of_nat n then ctx\<lparr>sh_total1 := sh_total1 ctx + 1\<rparr> else ctx) =
    ctx\<lparr>sh_total0 := of_nat (l + n), sh_total1 := of_nat ((l + n) div 2 ^ 32)\<rparr>"
  using assms total_step [OF assms(1), of l] by (auto simp: Let_def add.commute)

lemma tail_of_total: "unat ((of_nat l :: u32) AND 0x3F) = l mod 64"
proof -
  have "(of_nat l :: u32) AND 0x3F = take_bit 6 (of_nat l)"
    by (simp add: take_bit_eq_mask mask_eq_exp_minus_1 and.commute)
  then have "unat ((of_nat l :: u32) AND 0x3F) = take_bit 6 (l mod 2 ^ 32)"
    by (simp only: unsigned_take_bit_eq unat_of_nat_mod) simp
  then have "unat ((of_nat l :: u32) AND 0x3F) = l mod 2 ^ 32 mod 2 ^ 6"
    by (simp only: take_bit_eq_mod)
  then show ?thesis by (simp add: mod_mod_cancel)
qed

lemma sha_blocks_first: "length b = 64 \<Longrightarrow> sha_blocks (b @ r) = b # sha_blocks r"
  by (simp add: sha_blocks.simps [of "b @ r"])

lemma sha_blocks_short: "length m < 64 \<Longrightarrow> sha_blocks m = []"
  by (simp add: sha_blocks.simps [of m])

lemma feed_blocks:
  assumes process: "sha_process_ok process compress" and buf: "length (sh_buffer ctx) = 64" "take (length begun) (sh_buffer ctx) = begun"
    and begun: "length begun < 64"
  shows "\<exists>b. sha_feed process ctx d (length begun) =
      Some (0, ctx\<lparr>sh_buffer := b, sh_state := fold (\<lambda>b st. compress st b) (sha_blocks (begun @ d)) (sh_state ctx)\<rparr>) \<and>
    length b = 64 \<and> take (length (begun @ d) mod 64) b = sha_tail (begun @ d)"
proof -
  let ?l = "length begun" and ?F = "fold (\<lambda>b st. compress st b)"
  note loop = block_loop_blocks [OF process]
  consider (fill) "begun \<noteq> []" "64 - ?l \<le> length d" | (none) "begun = []" | (short) "begun \<noteq> []" "length d < 64 - ?l"
    by linarith
  then show ?thesis
  proof cases
    case fill
    define b r where "b = begun @ take (64 - ?l) d" and "r = drop (64 - ?l) d"
    have lb: "length b = 64" using fill begun by (simp add: b_def)
    have split: "begun @ d = b @ r" by (simp add: b_def r_def)
    have buffer: "ablit (sh_buffer ctx) ?l (take (64 - ?l) d) = Some b" using fill buf begun by (simp add: b_def)
    have proc: "process (sh_state ctx) b = (0, compress (sh_state ctx) b)"
      using process lb by (simp add: sha_process_ok_def)
    have tail: "sha_tail (b @ r) = sha_tail r" by (rule tail_append) (simp add: lb)
    have mod: "length (b @ r) mod 64 = length (sha_tail r)" unfolding length_tail by (simp add: lb)
    have short: "length (sha_tail r) \<le> 64" "length (sha_tail r) + length (drop (length (sha_tail r)) b) = 64"
      by (simp_all only: length_drop [of _ b] lb length_tail)
    show ?thesis
      unfolding split tail mod sha_blocks_first [OF lb]
      by (rule exI [of _ "if sha_tail r = [] then b else sha_tail r @ drop (length (sha_tail r)) b"])
        (use fill buffer proc loop lb short in \<open>simp add: sha_feed_def Let_def r_def [symmetric] del: length_drop\<close>)
  next
    case none
    have short: "length (sha_tail d) \<le> 64"
        "length (sha_tail d) + length (drop (length (sha_tail d)) (sh_buffer ctx)) = 64"
      by (simp_all only: length_drop [of _ "sh_buffer ctx"] buf length_tail)
    show ?thesis
      unfolding none append_Nil length_tail [symmetric]
      by (rule exI [of _ "if sha_tail d = [] then sh_buffer ctx else sha_tail d @ drop (length (sha_tail d)) (sh_buffer ctx)"])
        (use loop short buf(1) in \<open>simp add: sha_feed_def Let_def del: length_drop\<close>)
  next
    case short
    then have "length (begun @ d) < 64" "length d < 64" by simp_all
    moreover from this have "sha_tail (begun @ d) = begun @ d" "length (begun @ d) mod 64 = length (begun @ d)" by simp_all
    ultimately show ?thesis
      by (intro exI [of _ "if d = [] then sh_buffer ctx else begun @ d @ drop (length begun + length d) (sh_buffer ctx)"])
        (use loop short buf in \<open>simp add: sha_feed_def Let_def sha_blocks_short\<close>)
  qed
qed

lemma update_after_bytes:
  assumes process: "sha_process_ok process compress" and after: "after_bytes compress is224 m ctx" and n: "length d < 2 ^ 32"
  shows "\<exists>ctx'. dm_mbedtls_sha256_update_ret process ctx (d @ post) (of_nat (length d)) = Some (0, ctx') \<and>
    after_bytes compress is224 (m @ d) ctx'"
proof (cases "d = []")
  case True
  then show ?thesis using after by (simp add: dm_mbedtls_sha256_update_ret_def)
next
  case False
  let ?ctx = "ctx\<lparr>sh_total0 := of_nat (length m + length d), sh_total1 := of_nat ((length m + length d) div 2 ^ 32)\<rparr>"
  note ctx = after [unfolded after_bytes_def]
  have len: "unat (of_nat (length d) :: u32) = length d" using n by simp
  then have nonzero: "(of_nat (length d) :: u32) \<noteq> 0" using False by auto
  have total: "(let ctx = ctx\<lparr>sh_total0 := sh_total0 ctx + of_nat (length d)\<rparr>
      in if sh_total0 ctx < of_nat (length d) then ctx\<lparr>sh_total1 := sh_total1 ctx + 1\<rparr> else ctx) = ?ctx"
    by (rule total_after [OF n]) (use ctx in simp_all)
  have left: "unat (sh_total0 ctx AND 0x3F) = length (sha_tail m)" using ctx by (simp only: tail_of_total length_tail)
  obtain b where feed: "sha_feed process ?ctx d (length (sha_tail m)) =
      Some (0, ?ctx\<lparr>sh_buffer := b, sh_state := fold (\<lambda>b st. compress st b) (sha_blocks (sha_tail m @ d)) (sh_state ctx)\<rparr>)"
      "length b = 64" "take (length (sha_tail m @ d) mod 64) b = sha_tail (sha_tail m @ d)"
    using feed_blocks [OF process, of ?ctx "sha_tail m" d] ctx unfolding length_tail by auto
  have "length (sha_tail m @ d) mod 64 = length (m @ d) mod 64"
    unfolding length_append length_tail by (simp add: mod_simps)
  with feed ctx have "after_bytes compress is224 (m @ d)
      (?ctx\<lparr>sh_buffer := b, sh_state := fold (\<lambda>b st. compress st b) (sha_blocks (sha_tail m @ d)) (sh_state ctx)\<rparr>)"
    unfolding after_bytes_def sha_blocks_split [of m d] tail_split [of m d] by simp
  moreover have "aslice (d @ post) 0 (length d) = Some d" by simp
  ultimately show ?thesis
    using feed(1) nonzero unfolding dm_mbedtls_sha256_update_ret_def left len total by (auto simp del: aslice_in)
qed

section \<open>The digest\<close>

lemma bit_of_nat_u32: "bit (of_nat n :: u32) i \<longleftrightarrow> i < 32 \<and> bit n i"
  using bit_word_of_int_iff [of "int n" i, where 'a = 32] by (simp add: bit_of_nat_iff_bit)

lemma msglen_high:
  "drop_bit 29 (of_nat l :: u32) OR push_bit 3 (of_nat (l div 2 ^ 32)) = of_nat (8 * l div 2 ^ 32)"
proof -
  have "8 * l div 2 ^ 32 = drop_bit 29 l" by (simp add: drop_bit_eq_div)
  moreover have "l div 2 ^ 32 = drop_bit 32 l" by (simp add: drop_bit_eq_div)
  ultimately show ?thesis
    by (intro bit_word_eqI) (auto simp: bit_simps bit_of_nat_u32 simp del: of_nat_drop_bit)
qed

lemma msglen_low: "push_bit 3 (of_nat l :: u32) = of_nat (8 * l)"
  by (simp add: push_bit_eq_mult)

lemma padding_prefix: "0 < n \<Longrightarrow> n \<le> 64 \<Longrightarrow> take n sha256_padding = 0x80 # replicate (n - 1) 0"
  by (cases n) (simp_all add: sha256_padding_def)

definition pad_count :: "nat \<Rightarrow> nat" where
  "pad_count k = (if k < 56 then 56 - k else 120 - k)"

lemma pad_count_range: "k < 64 \<Longrightarrow> 0 < pad_count k \<and> pad_count k \<le> 64"
  by (cases "k < 56") (simp_all add: pad_count_def)

lemma pad_count_zeros: "k < 64 \<Longrightarrow> pad_count k - 1 = (119 - k) mod 64"
  by (cases "k < 56") (simp_all add: pad_count_def le_mod_geq)

lemma pad_count_word:
  assumes "k < 64"
  shows "(if (of_nat k :: u32) < 56 then 56 - of_nat k else 120 - of_nat k) = (of_nat (pad_count k) :: u32)"
proof -
  have "((of_nat k :: u32) < 56) = (k < 56)" using assms by (simp add: word_less_nat_alt)
  then show ?thesis using assms by (simp add: pad_count_def of_nat_diff)
qed

lemma finish_digest:
  assumes process: "sha_process_ok process compress" and after: "after_bytes compress is224 m ctx"
  shows "\<exists>ctx'. dm_mbedtls_sha256_finish_ret process ctx = Some (0, ctx', sha_digest compress is224 m)"
proof -
  let ?last = "length m mod 64" and ?l = "length m"
  let ?padn = "pad_count ?last"
  let ?msglen = "be32 (of_nat (8 * ?l div 2 ^ 32)) @ be32 (of_nat (8 * ?l))"
  note ctx = after [unfolded after_bytes_def]
  have "unat (sh_total0 ctx AND 0x3F) = ?last" using ctx by (simp only: tail_of_total)
  then have last: "sh_total0 ctx AND 0x3F = of_nat ?last" by (simp add: word_unat_eq_iff unat_of_nat_mod)
  have range: "?last < 64" by simp
  note padn = pad_count_word [OF range] and count = pad_count_range [OF range]
  define d where "d = take ?padn sha256_padding"
  have len: "length d = ?padn" using count by (simp add: d_def sha256_padding_def)
  have dd: "d = 0x80 # replicate ((119 - ?last) mod 64) 0"
    using padding_prefix [of ?padn] count pad_count_zeros [OF range] by (simp add: d_def)
  obtain ctx1 where one: "dm_mbedtls_sha256_update_ret process ctx sha256_padding (of_nat ?padn) = Some (0, ctx1)"
      "after_bytes compress is224 (m @ d) ctx1"
    using update_after_bytes [OF process after, of d "drop ?padn sha256_padding"] count
    unfolding len by (auto simp: d_def)
  obtain ctx2 where two: "dm_mbedtls_sha256_update_ret process ctx1 ?msglen 8 = Some (0, ctx2)"
      "after_bytes compress is224 (m @ d @ ?msglen) ctx2"
    using update_after_bytes [OF process one(2), of ?msglen "[]"] by auto
  have "m @ d @ ?msglen = sha_pad m" by (simp add: sha_pad_def dd)
  with two(2) have out: "concat (map be32 (take (if sh_is224 ctx2 = 0 then 8 else 7) (sh_state ctx2))) = sha_digest compress is224 m"
    by (simp add: after_bytes_def sha_digest_def)
  have msglen: "be32 (drop_bit 29 (sh_total0 ctx) OR push_bit 3 (sh_total1 ctx)) @ be32 (push_bit 3 (sh_total0 ctx)) = ?msglen"
    using ctx msglen_high [of ?l] msglen_low [of ?l] by (simp only:)
  show ?thesis
    unfolding dm_mbedtls_sha256_finish_ret_def Let_def last padn msglen
    using one two out by simp
qed

lemma after_start: "after_bytes compress is224 [] (dm_mbedtls_sha256_starts_ret mbedtls_sha256_init_ex is224)"
  by (simp add: after_bytes_def dm_mbedtls_sha256_starts_ret_def mbedtls_sha256_init_ex_def sha_blocks_short)

text \<open>A caller that hands over the message in pieces.\<close>

fun sha_updates :: "sha_process \<Rightarrow> mbedtls_sha256_context \<Rightarrow> bytes list \<Rightarrow> (int \<times> mbedtls_sha256_context) option" where
  "sha_updates process ctx [] = Some (0, ctx)"
| "sha_updates process ctx (d # ds) = do {
     (ret, ctx) \<leftarrow> dm_mbedtls_sha256_update_ret process ctx d (of_nat (length d));
     if ret \<noteq> 0 then Some (ret, ctx) else sha_updates process ctx ds }"

lemma updates_after:
  assumes "sha_process_ok process compress" and "after_bytes compress is224 m ctx" and "list_all (\<lambda>d. length d < 2 ^ 32) ds"
  shows "\<exists>ctx'. sha_updates process ctx ds = Some (0, ctx') \<and> after_bytes compress is224 (m @ concat ds) ctx'"
  using assms(2,3)
proof (induction ds arbitrary: m ctx)
  case (Cons d ds)
  then obtain ctx1 where "dm_mbedtls_sha256_update_ret process ctx d (of_nat (length d)) = Some (0, ctx1)"
      "after_bytes compress is224 (m @ d) ctx1"
    using update_after_bytes [OF assms(1) Cons.prems(1), of d "[]"] by auto
  with Cons show ?case by fastforce
qed simp

lemma sha256_ret_digest:
  assumes "sha_process_ok process compress" and "length m < 2 ^ 32"
  shows "dm_mbedtls_sha256_ret process (m @ post) (of_nat (length m)) is224 = Some (0, sha_digest compress is224 m)"
proof -
  obtain ctx1 where one: "dm_mbedtls_sha256_update_ret process (dm_mbedtls_sha256_starts_ret mbedtls_sha256_init_ex is224)
      (m @ post) (of_nat (length m)) = Some (0, ctx1)" "after_bytes compress is224 m ctx1"
    using update_after_bytes [OF assms(1) after_start assms(2), where post = post] by auto
  with finish_digest [OF assms(1) one(2)] show ?thesis by (auto simp: dm_mbedtls_sha256_ret_def)
qed

text \<open>C16. The SHA-256 of the device management is the one of the standard: however a message is cut into pieces,
  the streaming functions give the digest of FIPS 180-4 over the padded message, and the compression
  function of the file, with its unrolled rounds and rotating arguments, is that of the standard.\<close>

theorem sha256_streamed:
  assumes "sha_process_ok process compress" and "list_all (\<lambda>d. length d < 2 ^ 32) ds"
    and "length st = 8" and "64 \<le> length block"
  shows "(\<exists>ctx ctx'. sha_updates process (dm_mbedtls_sha256_starts_ret mbedtls_sha256_init_ex is224) ds = Some (0, ctx) \<and>
      dm_mbedtls_sha256_finish_ret process ctx = Some (0, ctx', sha_digest compress is224 (concat ds))) \<and>
    dm_mbedtls_internal_sha256_process st block = Some (0, sha_compress st block)"
proof -
  obtain ctx where "sha_updates process (dm_mbedtls_sha256_starts_ret mbedtls_sha256_init_ex is224) ds = Some (0, ctx)"
      "after_bytes compress is224 (concat ds) ctx"
    using updates_after [OF assms(1) after_start assms(2)] by auto
  with finish_digest [OF assms(1)] process_compress [OF assms(3,4)] show ?thesis by blast
qed

text \<open>The library's function, here the compression of the standard; the message ``abc'' in two pieces.\<close>

definition standard_process :: sha_process where
  "standard_process st block = (0, sha_compress st block)"

theorem sha256_streamed_witness:
  "\<exists>ctx ctx'. sha_updates standard_process (dm_mbedtls_sha256_starts_ret mbedtls_sha256_init_ex 0) [[0x61], [0x62, 0x63]] =
      Some (0, ctx) \<and>
    dm_mbedtls_sha256_finish_ret standard_process ctx = Some (0, ctx', sha_digest sha_compress 0 [0x61, 0x62, 0x63]) \<and>
    dm_mbedtls_internal_sha256_process (replicate 8 0) (replicate 64 0) =
      Some (0, sha_compress (replicate 8 0) (replicate 64 0))"
proof -
  have "sha_process_ok standard_process sha_compress"
    by (simp add: sha_process_ok_def standard_process_def)
  then show ?thesis
    using sha256_streamed [of standard_process sha_compress "[[0x61], [0x62, 0x63]]" "replicate 8 0" "replicate 64 0" 0]
    by simp
qed

end
