(* ===== verification/Dm_Aes.thy ===== *)
theory Dm_Aes
  imports Cis_Utils
begin

text \<open>
  \<open>dm_utils/aes.c\<close>: AES as the device management computes it, with the tables that \<open>aes_gen_tables\<close>
  makes at the first use (\<open>MBEDTLS_AES_ROM_TABLES\<close> is not defined), the key schedules, the two directions
  of the cipher, and its CBC mode.
\<close>

section \<open>The tables\<close>

record aes_tables =
  FSb :: bytes
  RSb :: bytes
  FT0 :: "u32 list"
  FT1 :: "u32 list"
  FT2 :: "u32 list"
  FT3 :: "u32 list"
  RT0 :: "u32 list"
  RT1 :: "u32 list"
  RT2 :: "u32 list"
  RT3 :: "u32 list"
  RCON :: "u32 list"

text \<open>The macros on \<open>int\<close> and \<open>uint32_t\<close>.\<close>

definition XTIME :: "int \<Rightarrow> int" where
  "XTIME x = push_bit 1 x XOR (if x AND 0x80 \<noteq> 0 then 0x1B else 0)"

definition ROTL8 :: "u32 \<Rightarrow> u32" where
  "ROTL8 x = (push_bit 8 x AND 0xFFFFFFFF) OR drop_bit 24 x"

text \<open>\<open>pow_d\<close> and \<open>log_d\<close>; \<open>log_d[1]\<close> is stored twice.\<close>

fun pow_log_loop :: "nat \<Rightarrow> nat \<Rightarrow> int \<Rightarrow> int list \<Rightarrow> int list \<Rightarrow> int list \<times> int list" where
  "pow_log_loop 0 i x pow_d log_d = (pow_d, log_d)"
| "pow_log_loop (Suc n) i x pow_d log_d =
     pow_log_loop n (i + 1) ((x XOR XTIME x) AND 0xFF) (pow_d[i := x]) (log_d[nat x := int i])"

definition pow_log :: "int list \<times> int list" where
  "pow_log = pow_log_loop 256 0 1 (replicate 256 0) (replicate 256 0)"

definition MUL :: "int list \<Rightarrow> int list \<Rightarrow> int \<Rightarrow> int \<Rightarrow> int" where
  "MUL pow_d log_d x y =
     (if x \<noteq> 0 \<and> y \<noteq> 0 then pow_d ! nat ((log_d ! nat x + log_d ! nat y) mod 255) else 0)"

fun rcon_loop :: "nat \<Rightarrow> int \<Rightarrow> u32 list" where
  "rcon_loop 0 x = []"
| "rcon_loop (Suc n) x = of_int x # rcon_loop n (XTIME x AND 0xFF)"

text \<open>One element of the S-box: the affine map on the inverse.\<close>

definition sbox_step :: "int \<Rightarrow> int" where
  "sbox_step x =
     (let y = x; y = (push_bit 1 y OR drop_bit 7 y) AND 0xFF;
          x = x XOR y; y = (push_bit 1 y OR drop_bit 7 y) AND 0xFF;
          x = x XOR y; y = (push_bit 1 y OR drop_bit 7 y) AND 0xFF;
          x = x XOR y; y = (push_bit 1 y OR drop_bit 7 y) AND 0xFF
      in x XOR (y XOR 0x63))"

fun sbox_loop :: "int list \<Rightarrow> int list \<Rightarrow> nat \<Rightarrow> nat \<Rightarrow> bytes \<Rightarrow> bytes \<Rightarrow> bytes \<times> bytes" where
  "sbox_loop pow_d log_d 0 i fsb rsb = (fsb, rsb)"
| "sbox_loop pow_d log_d (Suc n) i fsb rsb =
     (let x = sbox_step (pow_d ! nat (255 - log_d ! i))
      in sbox_loop pow_d log_d n (i + 1) (fsb[i := of_int x]) (rsb[nat x := of_nat i]))"

definition sboxes :: "int list \<Rightarrow> int list \<Rightarrow> bytes \<times> bytes" where
  "sboxes pow_d log_d =
     sbox_loop pow_d log_d 255 1 ((replicate 256 0)[0 := 0x63]) ((replicate 256 0)[0x63 := 0])"

text \<open>One element of \<open>FT0\<close> and of \<open>RT0\<close>.\<close>

definition forward_entry :: "u8 \<Rightarrow> u32" where
  "forward_entry s =
     (let x = uint s; y = XTIME x AND 0xFF; z = (y XOR x) AND 0xFF
      in of_int y XOR push_bit 8 (of_int x) XOR push_bit 16 (of_int x) XOR push_bit 24 (of_int z))"

definition reverse_entry :: "int list \<Rightarrow> int list \<Rightarrow> u8 \<Rightarrow> u32" where
  "reverse_entry pow_d log_d s =
     (let x = uint s in
      of_int (MUL pow_d log_d 0x0E x) XOR push_bit 8 (of_int (MUL pow_d log_d 0x09 x)) XOR
      push_bit 16 (of_int (MUL pow_d log_d 0x0D x)) XOR push_bit 24 (of_int (MUL pow_d log_d 0x0B x)))"

definition aes_gen_tables :: aes_tables where
  "aes_gen_tables =
     (let (pow_d, log_d) = pow_log;
          rcon = rcon_loop 10 1;
          (fsb, rsb) = sboxes pow_d log_d;
          ft0 = map (\<lambda>i. forward_entry (fsb ! i)) [0..<256];
          ft1 = map ROTL8 ft0; ft2 = map ROTL8 ft1; ft3 = map ROTL8 ft2;
          rt0 = map (\<lambda>i. reverse_entry pow_d log_d (rsb ! i)) [0..<256];
          rt1 = map ROTL8 rt0; rt2 = map ROTL8 rt1; rt3 = map ROTL8 rt2
      in \<lparr>FSb = fsb, RSb = rsb, FT0 = ft0, FT1 = ft1, FT2 = ft2, FT3 = ft3,
          RT0 = rt0, RT1 = rt1, RT2 = rt2, RT3 = rt3, RCON = rcon\<rparr>)"

section \<open>Key schedules\<close>

abbreviation MBEDTLS_ERR_AES_INVALID_KEY_LENGTH :: int where "MBEDTLS_ERR_AES_INVALID_KEY_LENGTH \<equiv> -0x0020"
abbreviation MBEDTLS_ERR_AES_INVALID_INPUT_LENGTH :: int where "MBEDTLS_ERR_AES_INVALID_INPUT_LENGTH \<equiv> -0x0022"

text \<open>The context: the number of rounds and the buffer of round keys, to which \<open>rk\<close> points.\<close>

record mbedtls_aes_context =
  aes_nr :: nat
  aes_buf :: "u32 list"

definition dm_mbedtls_aes_init :: mbedtls_aes_context where
  "dm_mbedtls_aes_init = \<lparr>aes_nr = 0, aes_buf = replicate 68 0\<rparr>"

definition GET_UINT32_LE :: "bytes \<Rightarrow> nat \<Rightarrow> u32 option" where
  "GET_UINT32_LE b i = do {
     b0 \<leftarrow> aload b i;
     b1 \<leftarrow> aload b (i + 1);
     b2 \<leftarrow> aload b (i + 2);
     b3 \<leftarrow> aload b (i + 3);
     Some (ucast b0 OR push_bit 8 (ucast b1) OR push_bit 16 (ucast b2) OR push_bit 24 (ucast b3)) }"

definition PUT_UINT32_LE :: "u32 \<Rightarrow> bytes" where
  "PUT_UINT32_LE n =
     [ucast (n AND 0xFF), ucast (drop_bit 8 n AND 0xFF), ucast (drop_bit 16 n AND 0xFF), ucast (drop_bit 24 n AND 0xFF)]"

text \<open>The byte \<open>k\<close> of a word as an index.\<close>

definition byte_of :: "nat \<Rightarrow> u32 \<Rightarrow> nat" where
  "byte_of k w = unat (drop_bit (8 * k) w AND 0xFF)"

definition sub_word :: "aes_tables \<Rightarrow> nat \<Rightarrow> nat \<Rightarrow> nat \<Rightarrow> nat \<Rightarrow> u32" where
  "sub_word T i0 i1 i2 i3 =
     ucast (FSb T ! i0) XOR push_bit 8 (ucast (FSb T ! i1)) XOR push_bit 16 (ucast (FSb T ! i2)) XOR
     push_bit 24 (ucast (FSb T ! i3))"

text \<open>The word \<open>RK[0] ^ RCON[i] ^ ...\<close> with the rotated bytes of the last word, which all three schedules begin with.\<close>

definition first_word :: "aes_tables \<Rightarrow> nat \<Rightarrow> u32 \<Rightarrow> u32 \<Rightarrow> u32" where
  "first_word T i w0 w = w0 XOR RCON T ! i XOR sub_word T (byte_of 1 w) (byte_of 2 w) (byte_of 3 w) (byte_of 0 w)"

text \<open>One iteration: the words that follow the words \<open>RK[0..]\<close> of the iteration before.\<close>

definition next_128 :: "aes_tables \<Rightarrow> nat \<Rightarrow> u32 list \<Rightarrow> u32 list" where
  "next_128 T i RK =
     (let k4 = first_word T i (RK ! 0) (RK ! 3); k5 = RK ! 1 XOR k4; k6 = RK ! 2 XOR k5; k7 = RK ! 3 XOR k6
      in [k4, k5, k6, k7])"

definition next_192 :: "aes_tables \<Rightarrow> nat \<Rightarrow> u32 list \<Rightarrow> u32 list" where
  "next_192 T i RK =
     (let k6 = first_word T i (RK ! 0) (RK ! 5); k7 = RK ! 1 XOR k6; k8 = RK ! 2 XOR k7; k9 = RK ! 3 XOR k8;
          k10 = RK ! 4 XOR k9; k11 = RK ! 5 XOR k10
      in [k6, k7, k8, k9, k10, k11])"

definition next_256 :: "aes_tables \<Rightarrow> nat \<Rightarrow> u32 list \<Rightarrow> u32 list" where
  "next_256 T i RK =
     (let k8 = first_word T i (RK ! 0) (RK ! 7); k9 = RK ! 1 XOR k8; k10 = RK ! 2 XOR k9; k11 = RK ! 3 XOR k10;
          k12 = RK ! 4 XOR sub_word T (byte_of 0 k11) (byte_of 1 k11) (byte_of 2 k11) (byte_of 3 k11);
          k13 = RK ! 5 XOR k12; k14 = RK ! 6 XOR k13; k15 = RK ! 7 XOR k14
      in [k8, k9, k10, k11, k12, k13, k14, k15])"

text \<open>The loop over the schedule; \<open>w\<close> words are written behind the \<open>w\<close> words at \<open>RK\<close>.\<close>

fun schedule_loop ::
  "(nat \<Rightarrow> u32 list \<Rightarrow> u32 list) \<Rightarrow> nat \<Rightarrow> nat \<Rightarrow> nat \<Rightarrow> u32 list \<Rightarrow> u32 list option" where
  "schedule_loop step w 0 i buf = Some buf"
| "schedule_loop step w (Suc n) i buf = do {
     RK \<leftarrow> aslice buf (w * i) w;
     buf \<leftarrow> ablit buf (w * (i + 1)) (step i RK);
     schedule_loop step w n (i + 1) buf }"

definition dm_mbedtls_aes_setkey_enc ::
  "aes_tables \<Rightarrow> mbedtls_aes_context \<Rightarrow> bytes \<Rightarrow> nat \<Rightarrow> (int \<times> mbedtls_aes_context) option" where
  "dm_mbedtls_aes_setkey_enc T ctx key keybits =
     (if keybits \<noteq> 128 \<and> keybits \<noteq> 192 \<and> keybits \<noteq> 256 then Some (MBEDTLS_ERR_AES_INVALID_KEY_LENGTH, ctx)
      else do {
        words \<leftarrow> those (map (\<lambda>i. GET_UINT32_LE key (4 * i)) [0..<keybits div 32]);
        buf \<leftarrow> ablit (aes_buf ctx) 0 words;
        buf \<leftarrow> (if keybits = 128 then schedule_loop (next_128 T) 4 10 0 buf
                 else if keybits = 192 then schedule_loop (next_192 T) 6 8 0 buf
                 else schedule_loop (next_256 T) 8 7 0 buf);
        Some (0, ctx\<lparr>aes_nr := (if keybits = 128 then 10 else if keybits = 192 then 12 else 14), aes_buf := buf\<rparr>) })"

text \<open>The inverse of the column mixing on one word, with the tables.\<close>

definition inv_mix_word :: "aes_tables \<Rightarrow> u32 \<Rightarrow> u32" where
  "inv_mix_word T w =
     RT0 T ! unat (FSb T ! byte_of 0 w) XOR RT1 T ! unat (FSb T ! byte_of 1 w) XOR
     RT2 T ! unat (FSb T ! byte_of 2 w) XOR RT3 T ! unat (FSb T ! byte_of 3 w)"

fun reverse_rounds :: "aes_tables \<Rightarrow> u32 list \<Rightarrow> nat \<Rightarrow> u32 list" where
  "reverse_rounds T SK 0 = []"
| "reverse_rounds T SK (Suc n) = map (\<lambda>j. inv_mix_word T (SK ! (4 * (n + 1) + j))) [0..<4] @ reverse_rounds T SK n"

definition dm_mbedtls_aes_setkey_dec ::
  "aes_tables \<Rightarrow> mbedtls_aes_context \<Rightarrow> bytes \<Rightarrow> nat \<Rightarrow> (int \<times> mbedtls_aes_context) option" where
  "dm_mbedtls_aes_setkey_dec T ctx key keybits = do {
     (ret, cty) \<leftarrow> dm_mbedtls_aes_setkey_enc T dm_mbedtls_aes_init key keybits;
     if ret \<noteq> 0 then Some (ret, ctx)
     else do {
       let SK = aes_buf cty;
       let nr = aes_nr cty;
       last \<leftarrow> aslice SK (4 * nr) 4;
       first \<leftarrow> aslice SK 0 4;
       buf \<leftarrow> ablit (aes_buf ctx) 0 (last @ reverse_rounds T SK (nr - 1) @ first);
       Some (0, ctx\<lparr>aes_nr := nr, aes_buf := buf\<rparr>) } }"

section \<open>The cipher\<close>

type_synonym aes_block = "u32 \<times> u32 \<times> u32 \<times> u32"

text \<open>The macros \<open>AES_FROUND\<close> and \<open>AES_RROUND\<close> with the four round keys they read.\<close>

definition AES_FROUND :: "aes_tables \<Rightarrow> u32 list \<Rightarrow> aes_block \<Rightarrow> aes_block" where
  "AES_FROUND T RK = (\<lambda>(Y0, Y1, Y2, Y3).
     (RK ! 0 XOR FT0 T ! byte_of 0 Y0 XOR FT1 T ! byte_of 1 Y1 XOR FT2 T ! byte_of 2 Y2 XOR FT3 T ! byte_of 3 Y3,
      RK ! 1 XOR FT0 T ! byte_of 0 Y1 XOR FT1 T ! byte_of 1 Y2 XOR FT2 T ! byte_of 2 Y3 XOR FT3 T ! byte_of 3 Y0,
      RK ! 2 XOR FT0 T ! byte_of 0 Y2 XOR FT1 T ! byte_of 1 Y3 XOR FT2 T ! byte_of 2 Y0 XOR FT3 T ! byte_of 3 Y1,
      RK ! 3 XOR FT0 T ! byte_of 0 Y3 XOR FT1 T ! byte_of 1 Y0 XOR FT2 T ! byte_of 2 Y1 XOR FT3 T ! byte_of 3 Y2))"

definition AES_RROUND :: "aes_tables \<Rightarrow> u32 list \<Rightarrow> aes_block \<Rightarrow> aes_block" where
  "AES_RROUND T RK = (\<lambda>(Y0, Y1, Y2, Y3).
     (RK ! 0 XOR RT0 T ! byte_of 0 Y0 XOR RT1 T ! byte_of 1 Y3 XOR RT2 T ! byte_of 2 Y2 XOR RT3 T ! byte_of 3 Y1,
      RK ! 1 XOR RT0 T ! byte_of 0 Y1 XOR RT1 T ! byte_of 1 Y0 XOR RT2 T ! byte_of 2 Y3 XOR RT3 T ! byte_of 3 Y2,
      RK ! 2 XOR RT0 T ! byte_of 0 Y2 XOR RT1 T ! byte_of 1 Y1 XOR RT2 T ! byte_of 2 Y0 XOR RT3 T ! byte_of 3 Y3,
      RK ! 3 XOR RT0 T ! byte_of 0 Y3 XOR RT1 T ! byte_of 1 Y2 XOR RT2 T ! byte_of 2 Y1 XOR RT3 T ! byte_of 3 Y0))"

text \<open>The loop over \<open>( ctx->nr >> 1 ) - 1\<close> pairs of rounds, and the round keys from \<open>pos\<close> on.\<close>

fun round_loop :: "(u32 list \<Rightarrow> aes_block \<Rightarrow> aes_block) \<Rightarrow> u32 list \<Rightarrow> nat \<Rightarrow> nat \<Rightarrow> aes_block \<Rightarrow> (aes_block \<times> nat) option" where
  "round_loop rnd rk pos 0 X = Some (X, pos)"
| "round_loop rnd rk pos (Suc n) X = do {
     k1 \<leftarrow> aslice rk pos 4;
     let Y = rnd k1 X;
     k2 \<leftarrow> aslice rk (pos + 4) 4;
     round_loop rnd rk (pos + 8) n (rnd k2 Y) }"

text \<open>The last round with a box, for the words in the order in which the direction takes them.\<close>

definition last_word :: "bytes \<Rightarrow> u32 \<Rightarrow> u32 \<Rightarrow> u32 \<Rightarrow> u32 \<Rightarrow> u32 \<Rightarrow> u32" where
  "last_word box k Y0 Y1 Y2 Y3 =
     k XOR ucast (box ! byte_of 0 Y0) XOR push_bit 8 (ucast (box ! byte_of 1 Y1)) XOR
     push_bit 16 (ucast (box ! byte_of 2 Y2)) XOR push_bit 24 (ucast (box ! byte_of 3 Y3))"

definition load_block :: "bytes \<Rightarrow> u32 list \<Rightarrow> aes_block option" where
  "load_block input RK = do {
     X0 \<leftarrow> GET_UINT32_LE input 0;
     X1 \<leftarrow> GET_UINT32_LE input 4;
     X2 \<leftarrow> GET_UINT32_LE input 8;
     X3 \<leftarrow> GET_UINT32_LE input 12;
     Some (X0 XOR RK ! 0, X1 XOR RK ! 1, X2 XOR RK ! 2, X3 XOR RK ! 3) }"

definition store_block :: "aes_block \<Rightarrow> bytes" where
  "store_block = (\<lambda>(X0, X1, X2, X3). PUT_UINT32_LE X0 @ PUT_UINT32_LE X1 @ PUT_UINT32_LE X2 @ PUT_UINT32_LE X3)"

definition dm_mbedtls_aes_encrypt :: "aes_tables \<Rightarrow> mbedtls_aes_context \<Rightarrow> bytes \<Rightarrow> bytes option" where
  "dm_mbedtls_aes_encrypt T ctx input = do {
     let rk = aes_buf ctx;
     k0 \<leftarrow> aslice rk 0 4;
     X \<leftarrow> load_block input k0;
     (X, pos) \<leftarrow> round_loop (AES_FROUND T) rk 4 (drop_bit 1 (aes_nr ctx) - 1) X;
     k1 \<leftarrow> aslice rk pos 4;
     let (Y0, Y1, Y2, Y3) = AES_FROUND T k1 X;
     k2 \<leftarrow> aslice rk (pos + 4) 4;
     let box = FSb T;
     Some (store_block
       (last_word box (k2 ! 0) Y0 Y1 Y2 Y3, last_word box (k2 ! 1) Y1 Y2 Y3 Y0,
        last_word box (k2 ! 2) Y2 Y3 Y0 Y1, last_word box (k2 ! 3) Y3 Y0 Y1 Y2)) }"

definition dm_mbedtls_aes_decrypt :: "aes_tables \<Rightarrow> mbedtls_aes_context \<Rightarrow> bytes \<Rightarrow> bytes option" where
  "dm_mbedtls_aes_decrypt T ctx input = do {
     let rk = aes_buf ctx;
     k0 \<leftarrow> aslice rk 0 4;
     X \<leftarrow> load_block input k0;
     (X, pos) \<leftarrow> round_loop (AES_RROUND T) rk 4 (drop_bit 1 (aes_nr ctx) - 1) X;
     k1 \<leftarrow> aslice rk pos 4;
     let (Y0, Y1, Y2, Y3) = AES_RROUND T k1 X;
     k2 \<leftarrow> aslice rk (pos + 4) 4;
     let box = RSb T;
     Some (store_block
       (last_word box (k2 ! 0) Y0 Y3 Y2 Y1, last_word box (k2 ! 1) Y1 Y0 Y3 Y2,
        last_word box (k2 ! 2) Y2 Y1 Y0 Y3, last_word box (k2 ! 3) Y3 Y2 Y1 Y0)) }"

text \<open>\<open>MBEDTLS_AES_ENCRYPT\<close> is 1.\<close>

definition dm_mbedtls_aes_crypt_ecb :: "aes_tables \<Rightarrow> mbedtls_aes_context \<Rightarrow> int \<Rightarrow> bytes \<Rightarrow> bytes option" where
  "dm_mbedtls_aes_crypt_ecb T ctx mode input =
     (if mode = 1 then dm_mbedtls_aes_encrypt T ctx input else dm_mbedtls_aes_decrypt T ctx input)"

definition xor_bytes :: "bytes \<Rightarrow> bytes \<Rightarrow> bytes" where
  "xor_bytes = map2 (XOR)"

text \<open>\<open>while( length > 0 )\<close>: the initialization vector and the output.\<close>

fun cbc_loop ::
  "aes_tables \<Rightarrow> mbedtls_aes_context \<Rightarrow> int \<Rightarrow> nat \<Rightarrow> nat \<Rightarrow> bytes \<Rightarrow> bytes \<Rightarrow> bytes \<Rightarrow> (bytes \<times> bytes) option" where
  "cbc_loop T ctx mode 0 pos iv input output = Some (iv, output)"
| "cbc_loop T ctx mode (Suc n) pos iv input output = do {
     block \<leftarrow> aslice input pos 16;
     if mode = 0
     then do {
       plain \<leftarrow> dm_mbedtls_aes_crypt_ecb T ctx mode block;
       output \<leftarrow> ablit output pos (xor_bytes plain iv);
       cbc_loop T ctx mode n (pos + 16) block input output }
     else do {
       cipher \<leftarrow> dm_mbedtls_aes_crypt_ecb T ctx mode (xor_bytes block iv);
       output \<leftarrow> ablit output pos cipher;
       cbc_loop T ctx mode n (pos + 16) cipher input output } }"

definition dm_mbedtls_aes_crypt_cbc ::
  "aes_tables \<Rightarrow> mbedtls_aes_context \<Rightarrow> int \<Rightarrow> nat \<Rightarrow> bytes \<Rightarrow> bytes \<Rightarrow> bytes \<Rightarrow> (int \<times> bytes \<times> bytes) option" where
  "dm_mbedtls_aes_crypt_cbc T ctx mode n iv input output =
     (if n mod 16 \<noteq> 0 then Some (MBEDTLS_ERR_AES_INVALID_INPUT_LENGTH, iv, output)
      else do {
        (iv, output) \<leftarrow> cbc_loop T ctx mode (n div 16) 0 iv input output;
        Some (0, iv, output) })"

end
