(* ===== verification/Dm_Aes_Laws.thy ===== *)
theory Dm_Aes_Laws
  imports Dm_Aes
begin

text \<open>
  What the tables of \<open>aes.c\<close> hold, and why the decryption undoes the encryption: the boxes are inverse
  permutations of the bytes, the other tables are the two column mixings, which are linear and inverse to
  each other, so that every round of one direction undoes a round of the other with the reversed schedule.
\<close>

section \<open>The generated tables\<close>

definition pow_table :: "int list" where
  "pow_table = [
     1, 3, 5, 15, 17, 51, 85, 255, 26, 46, 114, 150, 161, 248, 19, 53,
     95, 225, 56, 72, 216, 115, 149, 164, 247, 2, 6, 10, 30, 34, 102, 170,
     229, 52, 92, 228, 55, 89, 235, 38, 106, 190, 217, 112, 144, 171, 230, 49,
     83, 245, 4, 12, 20, 60, 68, 204, 79, 209, 104, 184, 211, 110, 178, 205,
     76, 212, 103, 169, 224, 59, 77, 215, 98, 166, 241, 8, 24, 40, 120, 136,
     131, 158, 185, 208, 107, 189, 220, 127, 129, 152, 179, 206, 73, 219, 118, 154,
     181, 196, 87, 249, 16, 48, 80, 240, 11, 29, 39, 105, 187, 214, 97, 163,
     254, 25, 43, 125, 135, 146, 173, 236, 47, 113, 147, 174, 233, 32, 96, 160,
     251, 22, 58, 78, 210, 109, 183, 194, 93, 231, 50, 86, 250, 21, 63, 65,
     195, 94, 226, 61, 71, 201, 64, 192, 91, 237, 44, 116, 156, 191, 218, 117,
     159, 186, 213, 100, 172, 239, 42, 126, 130, 157, 188, 223, 122, 142, 137, 128,
     155, 182, 193, 88, 232, 35, 101, 175, 234, 37, 111, 177, 200, 67, 197, 84,
     252, 31, 33, 99, 165, 244, 7, 9, 27, 45, 119, 153, 176, 203, 70, 202,
     69, 207, 74, 222, 121, 139, 134, 145, 168, 227, 62, 66, 198, 81, 243, 14,
     18, 54, 90, 238, 41, 123, 141, 140, 143, 138, 133, 148, 167, 242, 13, 23,
     57, 75, 221, 124, 132, 151, 162, 253, 28, 36, 108, 180, 199, 82, 246, 1]"

definition log_table :: "int list" where
  "log_table = [
     0, 255, 25, 1, 50, 2, 26, 198, 75, 199, 27, 104, 51, 238, 223, 3,
     100, 4, 224, 14, 52, 141, 129, 239, 76, 113, 8, 200, 248, 105, 28, 193,
     125, 194, 29, 181, 249, 185, 39, 106, 77, 228, 166, 114, 154, 201, 9, 120,
     101, 47, 138, 5, 33, 15, 225, 36, 18, 240, 130, 69, 53, 147, 218, 142,
     150, 143, 219, 189, 54, 208, 206, 148, 19, 92, 210, 241, 64, 70, 131, 56,
     102, 221, 253, 48, 191, 6, 139, 98, 179, 37, 226, 152, 34, 136, 145, 16,
     126, 110, 72, 195, 163, 182, 30, 66, 58, 107, 40, 84, 250, 133, 61, 186,
     43, 121, 10, 21, 155, 159, 94, 202, 78, 212, 172, 229, 243, 115, 167, 87,
     175, 88, 168, 80, 244, 234, 214, 116, 79, 174, 233, 213, 231, 230, 173, 232,
     44, 215, 117, 122, 235, 22, 11, 245, 89, 203, 95, 176, 156, 169, 81, 160,
     127, 12, 246, 111, 23, 196, 73, 236, 216, 67, 31, 45, 164, 118, 123, 183,
     204, 187, 62, 90, 251, 96, 177, 134, 59, 82, 161, 108, 170, 85, 41, 157,
     151, 178, 135, 144, 97, 190, 220, 252, 188, 149, 207, 205, 55, 63, 91, 209,
     83, 57, 132, 60, 65, 162, 109, 71, 20, 42, 158, 93, 86, 242, 211, 171,
     68, 17, 146, 217, 35, 32, 46, 137, 180, 124, 184, 38, 119, 153, 227, 165,
     103, 74, 237, 222, 197, 49, 254, 24, 13, 99, 140, 128, 192, 247, 112, 7]"

definition sbox_table :: bytes where
  "sbox_table = [
     0x63, 0x7C, 0x77, 0x7B, 0xF2, 0x6B, 0x6F, 0xC5, 0x30, 0x01, 0x67, 0x2B, 0xFE, 0xD7, 0xAB, 0x76,
     0xCA, 0x82, 0xC9, 0x7D, 0xFA, 0x59, 0x47, 0xF0, 0xAD, 0xD4, 0xA2, 0xAF, 0x9C, 0xA4, 0x72, 0xC0,
     0xB7, 0xFD, 0x93, 0x26, 0x36, 0x3F, 0xF7, 0xCC, 0x34, 0xA5, 0xE5, 0xF1, 0x71, 0xD8, 0x31, 0x15,
     0x04, 0xC7, 0x23, 0xC3, 0x18, 0x96, 0x05, 0x9A, 0x07, 0x12, 0x80, 0xE2, 0xEB, 0x27, 0xB2, 0x75,
     0x09, 0x83, 0x2C, 0x1A, 0x1B, 0x6E, 0x5A, 0xA0, 0x52, 0x3B, 0xD6, 0xB3, 0x29, 0xE3, 0x2F, 0x84,
     0x53, 0xD1, 0x00, 0xED, 0x20, 0xFC, 0xB1, 0x5B, 0x6A, 0xCB, 0xBE, 0x39, 0x4A, 0x4C, 0x58, 0xCF,
     0xD0, 0xEF, 0xAA, 0xFB, 0x43, 0x4D, 0x33, 0x85, 0x45, 0xF9, 0x02, 0x7F, 0x50, 0x3C, 0x9F, 0xA8,
     0x51, 0xA3, 0x40, 0x8F, 0x92, 0x9D, 0x38, 0xF5, 0xBC, 0xB6, 0xDA, 0x21, 0x10, 0xFF, 0xF3, 0xD2,
     0xCD, 0x0C, 0x13, 0xEC, 0x5F, 0x97, 0x44, 0x17, 0xC4, 0xA7, 0x7E, 0x3D, 0x64, 0x5D, 0x19, 0x73,
     0x60, 0x81, 0x4F, 0xDC, 0x22, 0x2A, 0x90, 0x88, 0x46, 0xEE, 0xB8, 0x14, 0xDE, 0x5E, 0x0B, 0xDB,
     0xE0, 0x32, 0x3A, 0x0A, 0x49, 0x06, 0x24, 0x5C, 0xC2, 0xD3, 0xAC, 0x62, 0x91, 0x95, 0xE4, 0x79,
     0xE7, 0xC8, 0x37, 0x6D, 0x8D, 0xD5, 0x4E, 0xA9, 0x6C, 0x56, 0xF4, 0xEA, 0x65, 0x7A, 0xAE, 0x08,
     0xBA, 0x78, 0x25, 0x2E, 0x1C, 0xA6, 0xB4, 0xC6, 0xE8, 0xDD, 0x74, 0x1F, 0x4B, 0xBD, 0x8B, 0x8A,
     0x70, 0x3E, 0xB5, 0x66, 0x48, 0x03, 0xF6, 0x0E, 0x61, 0x35, 0x57, 0xB9, 0x86, 0xC1, 0x1D, 0x9E,
     0xE1, 0xF8, 0x98, 0x11, 0x69, 0xD9, 0x8E, 0x94, 0x9B, 0x1E, 0x87, 0xE9, 0xCE, 0x55, 0x28, 0xDF,
     0x8C, 0xA1, 0x89, 0x0D, 0xBF, 0xE6, 0x42, 0x68, 0x41, 0x99, 0x2D, 0x0F, 0xB0, 0x54, 0xBB, 0x16]"

definition inverse_table :: bytes where
  "inverse_table = [
     0x52, 0x09, 0x6A, 0xD5, 0x30, 0x36, 0xA5, 0x38, 0xBF, 0x40, 0xA3, 0x9E, 0x81, 0xF3, 0xD7, 0xFB,
     0x7C, 0xE3, 0x39, 0x82, 0x9B, 0x2F, 0xFF, 0x87, 0x34, 0x8E, 0x43, 0x44, 0xC4, 0xDE, 0xE9, 0xCB,
     0x54, 0x7B, 0x94, 0x32, 0xA6, 0xC2, 0x23, 0x3D, 0xEE, 0x4C, 0x95, 0x0B, 0x42, 0xFA, 0xC3, 0x4E,
     0x08, 0x2E, 0xA1, 0x66, 0x28, 0xD9, 0x24, 0xB2, 0x76, 0x5B, 0xA2, 0x49, 0x6D, 0x8B, 0xD1, 0x25,
     0x72, 0xF8, 0xF6, 0x64, 0x86, 0x68, 0x98, 0x16, 0xD4, 0xA4, 0x5C, 0xCC, 0x5D, 0x65, 0xB6, 0x92,
     0x6C, 0x70, 0x48, 0x50, 0xFD, 0xED, 0xB9, 0xDA, 0x5E, 0x15, 0x46, 0x57, 0xA7, 0x8D, 0x9D, 0x84,
     0x90, 0xD8, 0xAB, 0x00, 0x8C, 0xBC, 0xD3, 0x0A, 0xF7, 0xE4, 0x58, 0x05, 0xB8, 0xB3, 0x45, 0x06,
     0xD0, 0x2C, 0x1E, 0x8F, 0xCA, 0x3F, 0x0F, 0x02, 0xC1, 0xAF, 0xBD, 0x03, 0x01, 0x13, 0x8A, 0x6B,
     0x3A, 0x91, 0x11, 0x41, 0x4F, 0x67, 0xDC, 0xEA, 0x97, 0xF2, 0xCF, 0xCE, 0xF0, 0xB4, 0xE6, 0x73,
     0x96, 0xAC, 0x74, 0x22, 0xE7, 0xAD, 0x35, 0x85, 0xE2, 0xF9, 0x37, 0xE8, 0x1C, 0x75, 0xDF, 0x6E,
     0x47, 0xF1, 0x1A, 0x71, 0x1D, 0x29, 0xC5, 0x89, 0x6F, 0xB7, 0x62, 0x0E, 0xAA, 0x18, 0xBE, 0x1B,
     0xFC, 0x56, 0x3E, 0x4B, 0xC6, 0xD2, 0x79, 0x20, 0x9A, 0xDB, 0xC0, 0xFE, 0x78, 0xCD, 0x5A, 0xF4,
     0x1F, 0xDD, 0xA8, 0x33, 0x88, 0x07, 0xC7, 0x31, 0xB1, 0x12, 0x10, 0x59, 0x27, 0x80, 0xEC, 0x5F,
     0x60, 0x51, 0x7F, 0xA9, 0x19, 0xB5, 0x4A, 0x0D, 0x2D, 0xE5, 0x7A, 0x9F, 0x93, 0xC9, 0x9C, 0xEF,
     0xA0, 0xE0, 0x3B, 0x4D, 0xAE, 0x2A, 0xF5, 0xB0, 0xC8, 0xEB, 0xBB, 0x3C, 0x83, 0x53, 0x99, 0x61,
     0x17, 0x2B, 0x04, 0x7E, 0xBA, 0x77, 0xD6, 0x26, 0xE1, 0x69, 0x14, 0x63, 0x55, 0x21, 0x0C, 0x7D]"

lemma pow_log_tables: "pow_log = (pow_table, log_table)"
  by code_simp

definition sbox_value :: "nat \<Rightarrow> int" where
  "sbox_value i = sbox_step (pow_table ! nat (255 - log_table ! i))"

lemma sbox_values: "map sbox_value [1..<256] = map uint (tl sbox_table)"
  by code_simp

lemma list_all_index: "list_all P [0..<n] \<Longrightarrow> i < n \<Longrightarrow> P i"
  by (auto simp: list_all_iff)

lemma inverse_sbox: "i < 256 \<Longrightarrow> inverse_table ! unat (sbox_table ! i) = of_nat i"
proof -
  have "list_all (\<lambda>i. inverse_table ! unat (sbox_table ! i) = of_nat i) [0..<256]" by code_simp
  then show "i < 256 \<Longrightarrow> inverse_table ! unat (sbox_table ! i) = of_nat i" by (rule list_all_index)
qed

lemma sbox_value_table:
  assumes "1 \<le> i" and "i < 256" shows "sbox_value i = uint (sbox_table ! i)"
proof -
  have "length sbox_table = 256" by (simp add: sbox_table_def)
  then have "map sbox_value [1..<256] ! (i - 1) = sbox_value i" "map uint (tl sbox_table) ! (i - 1) = uint (sbox_table ! i)"
    using assms by (simp_all add: nth_tl)
  then show ?thesis by (simp only: sbox_values)
qed

lemma sbox_inj: "i < 256 \<Longrightarrow> j < 256 \<Longrightarrow> sbox_table ! i = sbox_table ! j \<Longrightarrow> i = j"
proof -
  assume "i < 256" "j < 256" "sbox_table ! i = sbox_table ! j"
  then have "(of_nat i :: u8) = of_nat j" using inverse_sbox [of i] inverse_sbox [of j] by simp
  then have "unat (of_nat i :: u8) = unat (of_nat j :: u8)" by simp
  then show "i = j" using \<open>i < 256\<close> \<open>j < 256\<close> by simp
qed

text \<open>The loop fills both boxes with these values.\<close>

lemma sbox_loop_boxes:
  assumes "1 \<le> i" and "i + n \<le> 256" and "length fsb = 256" and "length rsb = 256"
    and "\<forall>j < i. fsb ! j = sbox_table ! j \<and> rsb ! unat (sbox_table ! j) = of_nat j"
  shows "\<exists>fsb' rsb'. sbox_loop pow_table log_table n i fsb rsb = (fsb', rsb') \<and> length fsb' = 256 \<and> length rsb' = 256 \<and>
    (\<forall>j < i + n. fsb' ! j = sbox_table ! j \<and> rsb' ! unat (sbox_table ! j) = of_nat j)"
  using assms
proof (induction n arbitrary: i fsb rsb)
  case (Suc n)
  let ?x = "sbox_value i"
  have x: "?x = uint (sbox_table ! i)" using Suc.prems by (simp add: sbox_value_table)
  then have "(of_int ?x :: u8) = sbox_table ! i" "nat ?x = unat (sbox_table ! i)" by simp_all
  moreover have "unat (sbox_table ! i) \<noteq> unat (sbox_table ! j)" if "j < i" for j
    using sbox_inj [of j i] that Suc.prems by (auto simp flip: word_unat_eq_iff)
  ultimately have "\<exists>fsb' rsb'. sbox_loop pow_table log_table n (i + 1) (fsb[i := of_int ?x]) (rsb[nat ?x := of_nat i]) = (fsb', rsb') \<and>
      length fsb' = 256 \<and> length rsb' = 256 \<and>
      (\<forall>j < i + 1 + n. fsb' ! j = sbox_table ! j \<and> rsb' ! unat (sbox_table ! j) = of_nat j)"
    using Suc.prems by (intro Suc.IH) (auto simp: less_Suc_eq)
  then show ?case by (simp add: sbox_value_def Let_def)
qed simp

lemma boxes:
  obtains fsb rsb where "sboxes pow_table log_table = (fsb, rsb)" "length fsb = 256" "length rsb = 256"
    "\<And>j. j < 256 \<Longrightarrow> fsb ! j = sbox_table ! j" "\<And>j. j < 256 \<Longrightarrow> rsb ! unat (sbox_table ! j) = of_nat j"
proof -
  have "\<exists>fsb rsb. sboxes pow_table log_table = (fsb, rsb) \<and> length fsb = 256 \<and> length rsb = 256 \<and>
      (\<forall>j < 1 + 255. fsb ! j = sbox_table ! j \<and> rsb ! unat (sbox_table ! j) = of_nat j)"
    unfolding sboxes_def by (rule sbox_loop_boxes) (simp_all add: sbox_table_def)
  then show ?thesis using that by auto
qed

text \<open>Multiplication by \<open>x\<close> in the field, and by the coefficients of the inverse column mixing.\<close>

definition xt :: "u8 \<Rightarrow> u8" where
  "xt b = push_bit 1 b XOR (if bit b 7 then 0x1B else 0)"

definition m9 :: "u8 \<Rightarrow> u8" where "m9 b = xt (xt (xt b)) XOR b"
definition m11 :: "u8 \<Rightarrow> u8" where "m11 b = xt (xt (xt b)) XOR xt b XOR b"
definition m13 :: "u8 \<Rightarrow> u8" where "m13 b = xt (xt (xt b)) XOR xt (xt b) XOR b"
definition m14 :: "u8 \<Rightarrow> u8" where "m14 b = xt (xt (xt b)) XOR xt (xt b) XOR xt b"

lemma log_pow: "1 \<le> y \<Longrightarrow> y < 256 \<Longrightarrow> 1 \<le> log_table ! y \<and> log_table ! y < 256 \<and> pow_table ! nat (log_table ! y) = int y"
proof -
  have "list_all (\<lambda>y. y = 0 \<or> 1 \<le> log_table ! y \<and> log_table ! y < 256 \<and> pow_table ! nat (log_table ! y) = int y) [0..<256]"
    by code_simp
  from list_all_index [OF this, of y]
  show "1 \<le> y \<Longrightarrow> y < 256 \<Longrightarrow> 1 \<le> log_table ! y \<and> log_table ! y < 256 \<and> pow_table ! nat (log_table ! y) = int y"
    by simp
qed

lemma log_constants: "log_table ! 14 = 223" "log_table ! 9 = 199" "log_table ! 13 = 238" "log_table ! 11 = 104"
  by (simp_all add: log_table_def)

text \<open>What the boxes are to each other.\<close>

abbreviation aes :: aes_tables where "aes \<equiv> aes_gen_tables"

definition sub :: "u8 \<Rightarrow> u8" where "sub b = FSb aes ! unat b"
definition inv_sub :: "u8 \<Rightarrow> u8" where "inv_sub b = RSb aes ! unat b"

lemma aes_parts:
  "length (FSb aes) = 256 \<and> length (RSb aes) = 256 \<and>
   (\<forall>j < 256. FSb aes ! j = sbox_table ! j \<and> RSb aes ! unat (sbox_table ! j) = of_nat j) \<and>
   FT0 aes = map (\<lambda>i. forward_entry (FSb aes ! i)) [0..<256] \<and> FT1 aes = map ROTL8 (FT0 aes) \<and>
   FT2 aes = map ROTL8 (FT1 aes) \<and> FT3 aes = map ROTL8 (FT2 aes) \<and>
   RT0 aes = map (\<lambda>i. reverse_entry pow_table log_table (RSb aes ! i)) [0..<256] \<and> RT1 aes = map ROTL8 (RT0 aes) \<and>
   RT2 aes = map ROTL8 (RT1 aes) \<and> RT3 aes = map ROTL8 (RT2 aes)"
proof -
  obtain fsb rsb where "sboxes pow_table log_table = (fsb, rsb)" "length fsb = 256" "length rsb = 256"
    "\<And>j. j < 256 \<Longrightarrow> fsb ! j = sbox_table ! j" "\<And>j. j < 256 \<Longrightarrow> rsb ! unat (sbox_table ! j) = of_nat j"
    by (rule boxes) blast
  then show ?thesis by (simp add: aes_gen_tables_def pow_log_tables Let_def)
qed

lemma inv_sub_sub [simp]: "inv_sub (sub b) = b"
  using aes_parts by (simp add: inv_sub_def sub_def)

lemma sub_inv_sub: "sub (inv_sub b) = b"
proof -
  have "inj sub" by (metis injI inv_sub_sub)
  then have "surj sub" by (rule finite_UNIV_inj_surj [rotated]) simp
  then show ?thesis by (metis inv_sub_sub surjD)
qed

section \<open>The column mixings\<close>

text \<open>The bytes of a word.\<close>

definition byte :: "nat \<Rightarrow> u32 \<Rightarrow> u8" where
  "byte k w = ucast (drop_bit (8 * k) w)"

definition join :: "u8 \<Rightarrow> u8 \<Rightarrow> u8 \<Rightarrow> u8 \<Rightarrow> u32" where
  "join b0 b1 b2 b3 = ucast b0 XOR push_bit 8 (ucast b1) XOR push_bit 16 (ucast b2) XOR push_bit 24 (ucast b3)"

lemma byte_of_byte: "byte_of k w = unat (byte k w)"
proof -
  have "drop_bit (8 * k) w AND 0xFF = ucast (byte k w)"
    by (rule bit_word_eqI) (auto simp: byte_def bit_simps bit_255)
  then show ?thesis by (simp add: byte_of_def)
qed

lemma bit_byte: "bit (byte k w) n \<longleftrightarrow> n < 8 \<and> bit w (8 * k + n)"
  by (auto simp: byte_def bit_simps)

lemma byte_xor [simp]: "byte k (v XOR w) = byte k v XOR byte k w"
  by (rule bit_word_eqI) (simp add: bit_byte bit_simps)

lemma byte_join [simp]:
  "byte 0 (join b0 b1 b2 b3) = b0" "byte (Suc 0) (join b0 b1 b2 b3) = b1"
  "byte 2 (join b0 b1 b2 b3) = b2" "byte 3 (join b0 b1 b2 b3) = b3"
  by (rule bit_word_eqI; auto simp: bit_byte join_def bit_simps dest: bit_imp_le_length)+

lemma word_eq_bytes:
  assumes "byte 0 v = byte 0 w" "byte 1 v = byte 1 w" "byte 2 v = byte 2 w" "byte 3 v = byte 3 w"
  shows "v = w"
proof (rule bit_word_eqI)
  fix n :: nat
  assume "n < LENGTH(32)"
  then have "n mod 8 < 8" "n div 8 \<in> {0, 1, 2, 3}" "n = 8 * (n div 8) + n mod 8" by auto
  then show "bit v n = bit w n" using assms bit_byte by (metis insertE singletonD)
qed

lemma bit_u8_less: "bit (b :: u8) n \<Longrightarrow> n < 8"
  using bit_imp_le_length [of b n] by simp

lemma bit_u32_beyond: "32 \<le> n \<Longrightarrow> \<not> bit (w :: u32) n"
  using bit_imp_le_length [of w n] by auto

lemma byte_ROTL8 [simp]:
  "byte 0 (ROTL8 w) = byte 3 w" "byte (Suc 0) (ROTL8 w) = byte 0 w" "byte 2 (ROTL8 w) = byte 1 w" "byte 3 (ROTL8 w) = byte 2 w"
proof -
  have "ROTL8 w = push_bit 8 w OR drop_bit 24 w"
  proof -
    have "(0xFFFFFFFF :: u32) = - 1" by simp
    then show ?thesis unfolding ROTL8_def by (simp only: and.right_neutral)
  qed
  then show "byte 0 (ROTL8 w) = byte 3 w" "byte (Suc 0) (ROTL8 w) = byte 0 w" "byte 2 (ROTL8 w) = byte 1 w"
      "byte 3 (ROTL8 w) = byte 2 w"
    by (auto intro!: bit_word_eqI simp: bit_byte bit_simps bit_u32_beyond)
qed

lemma xt_xor [simp]: "xt (a XOR b) = xt a XOR xt b"
proof (rule bit_word_eqI)
  fix n :: nat
  assume "n < LENGTH(8)"
  then show "bit (xt (a XOR b)) n = bit (xt a XOR xt b) n"
    by (auto simp: xt_def bit_simps)
qed

text \<open>The entries of the tables, byte by byte.\<close>

lemma xt_XTIME: "XTIME (uint b) AND 0xFF = uint (xt b)"
proof -
  have "uint b AND 0x80 \<noteq> 0 \<longleftrightarrow> bit b 7"
    using and_exp_eq_0_iff_not_bit [of "uint b" 7] by (simp add: bit_uint_iff)
  moreover have "x AND 0xFF = take_bit 8 x" for x :: int by (simp add: take_bit_eq_mask mask_eq_exp_minus_1)
  moreover have "take_bit 8 (uint b * 2) = uint (b * 2)" by (simp add: uint_word_ariths take_bit_eq_mod)
  ultimately show ?thesis
    by (simp add: XTIME_def xt_def take_bit_xor unsigned_xor_eq unsigned_push_bit_eq)
qed

lemma forward_entry_join: "forward_entry b = join (xt b) b b (xt b XOR b)"
proof -
  have "(uint (xt b) XOR uint b) AND 0xFF = uint (xt b XOR b)"
    by (rule bit_eqI) (auto simp: bit_simps bit_255 dest: bit_u8_less)
  then show ?thesis by (simp add: forward_entry_def xt_XTIME join_def Let_def)
qed

lemma FT_entries:
  "FT0 aes ! unat b = join (xt (sub b)) (sub b) (sub b) (xt (sub b) XOR sub b)"
  "FT1 aes ! unat b = ROTL8 (FT0 aes ! unat b)" "FT2 aes ! unat b = ROTL8 (FT1 aes ! unat b)"
  "FT3 aes ! unat b = ROTL8 (FT2 aes ! unat b)"
proof -
  have "length (FT0 aes) = 256" using aes_parts by simp
  then show "FT0 aes ! unat b = join (xt (sub b)) (sub b) (sub b) (xt (sub b) XOR sub b)"
    "FT1 aes ! unat b = ROTL8 (FT0 aes ! unat b)" "FT2 aes ! unat b = ROTL8 (FT1 aes ! unat b)"
    "FT3 aes ! unat b = ROTL8 (FT2 aes ! unat b)"
    using aes_parts by (simp_all add: forward_entry_join sub_def)
qed

lemma xor_cancel: "(a :: u8) XOR (a XOR b) = b"
  by (simp flip: xor.assoc)

lemmas xor_normal = xor.assoc xor.commute xor.left_commute xor_cancel xor_self_eq xor.right_neutral xor.left_neutral

lemma m_xor [simp]: "m9 (a XOR b) = m9 a XOR m9 b" "m11 (a XOR b) = m11 a XOR m11 b"
    "m13 (a XOR b) = m13 a XOR m13 b" "m14 (a XOR b) = m14 a XOR m14 b"
  by (simp add: m9_def m11_def m13_def m14_def; simp only: xor_normal)+

text \<open>The table of powers runs through the powers of 3, with which the coefficients commute.\<close>

definition times3 :: "u8 \<Rightarrow> u8" where
  "times3 b = xt b XOR b"

lemma power_step:
  assumes "i < 255" shows "times3 (of_int (pow_table ! i)) = of_int (pow_table ! (Suc i mod 255))"
proof -
  have "map (\<lambda>x. times3 (of_int x)) (take 255 pow_table) = map of_int (tl (take 255 pow_table) @ [1])" by code_simp
  then have "map (\<lambda>x. times3 (of_int x)) (take 255 pow_table) ! i = map of_int (tl (take 255 pow_table) @ [1]) ! i" by simp
  moreover have "length pow_table = 256" "pow_table ! 0 = 1" by (simp_all add: pow_table_def)
  ultimately show ?thesis using assms by (cases "i = 254") (simp_all add: nth_append nth_tl)
qed

lemma powers: "(times3 ^^ n) 1 = of_int (pow_table ! (n mod 255))"
proof (induction n)
  case (Suc n)
  then show ?case using power_step [of "n mod 255"] by (simp add: mod_Suc_eq)
qed (simp add: pow_table_def)

lemma coefficient_powers:
  assumes "\<And>b. f (times3 b) = times3 (f b)" and "f 1 = (times3 ^^ k) 1"
  shows "f (of_int (pow_table ! (l mod 255))) = of_int (pow_table ! ((k + l) mod 255))"
proof -
  have "f ((times3 ^^ n) b) = (times3 ^^ n) (f b)" for n b by (induction n) (simp_all add: assms(1))
  then have "f ((times3 ^^ l) 1) = (times3 ^^ (l + k)) 1" by (simp add: assms(2) funpow_add)
  then show ?thesis unfolding powers by (simp add: add.commute)
qed

lemma coefficients:
  "m14 (of_int (pow_table ! (l mod 255))) = of_int (pow_table ! ((223 + l) mod 255))"
  "m9 (of_int (pow_table ! (l mod 255))) = of_int (pow_table ! ((199 + l) mod 255))"
  "m13 (of_int (pow_table ! (l mod 255))) = of_int (pow_table ! ((238 + l) mod 255))"
  "m11 (of_int (pow_table ! (l mod 255))) = of_int (pow_table ! ((104 + l) mod 255))"
proof -
  have one: "m14 1 = 14" "m9 1 = 9" "m13 1 = 13" "m11 1 = 11" by code_simp+
  have pow: "pow_table ! 223 = 14" "pow_table ! 199 = 9" "pow_table ! 238 = 13" "pow_table ! 104 = 11"
    by (simp_all add: pow_table_def)
  have comm: "m14 (times3 b) = times3 (m14 b)" "m9 (times3 b) = times3 (m9 b)" "m13 (times3 b) = times3 (m13 b)"
    "m11 (times3 b) = times3 (m11 b)" for b
    by (simp_all add: times3_def m9_def m11_def m13_def m14_def) (simp_all only: xor_normal)
  show "m14 (of_int (pow_table ! (l mod 255))) = of_int (pow_table ! ((223 + l) mod 255))"
    by (rule coefficient_powers) (simp_all only: comm powers, simp add: one pow)
  show "m9 (of_int (pow_table ! (l mod 255))) = of_int (pow_table ! ((199 + l) mod 255))"
    by (rule coefficient_powers) (simp_all only: comm powers, simp add: one pow)
  show "m13 (of_int (pow_table ! (l mod 255))) = of_int (pow_table ! ((238 + l) mod 255))"
    by (rule coefficient_powers) (simp_all only: comm powers, simp add: one pow)
  show "m11 (of_int (pow_table ! (l mod 255))) = of_int (pow_table ! ((104 + l) mod 255))"
    by (rule coefficient_powers) (simp_all only: comm powers, simp add: one pow)
qed

lemma MUL_rotated:
  fixes f :: "u8 \<Rightarrow> u8" and b :: u8
  assumes "\<And>l. f (of_int (pow_table ! (l mod 255))) = of_int (pow_table ! ((k + l) mod 255))"
    and "log_table ! nat c = int k" and "c \<noteq> 0" and "f 0 = 0"
  shows "(of_int (MUL pow_table log_table c (uint b)) :: u8) = f b"
proof (cases "b = 0")
  case True
  then show ?thesis using assms(4) by (simp add: MUL_def)
next
  case False
  then have "uint b \<noteq> 0" by (simp add: word_uint_eq_iff)
  have "1 \<le> unat b" using False by (simp add: Suc_le_eq unat_gt_0)
  then have log: "1 \<le> log_table ! unat b" "log_table ! unat b < 256" "pow_table ! nat (log_table ! unat b) = uint b"
    using log_pow [of "unat b"] unat_u8_less [of b] by auto
  define l where "l = nat (log_table ! unat b)"
  have l: "1 \<le> l" "l < 256" "pow_table ! l = uint b" "log_table ! unat b = int l"
    using log by (simp_all add: l_def)
  have "pow_table ! 255 = pow_table ! 0" by (simp add: pow_table_def)
  then have "pow_table ! (l mod 255) = uint b"
    using l by (cases "l = 255") simp_all
  then have "f b = of_int (pow_table ! ((k + l) mod 255))" using assms(1) [of l] by simp
  moreover have "nat ((int k + int l) mod 255) = (k + l) mod 255"
    by (simp add: nat_mod_distrib nat_add_distrib)
  ultimately show ?thesis
    using assms(2,3) \<open>uint b \<noteq> 0\<close> by (simp add: MUL_def l(4))
qed

lemma MUL_small: "MUL pow_table log_table c (uint (b :: u8)) = uint (of_int (MUL pow_table log_table c (uint b)) :: u8)"
  if "c \<in> {9, 11, 13, 14}"
proof -
  have "list_all (\<lambda>x. 0 \<le> x \<and> x < 256) pow_table" by code_simp
  moreover have "length pow_table = 256" by (simp add: pow_table_def)
  ultimately have "0 \<le> pow_table ! i \<and> pow_table ! i < 256" if "i < 256" for i
    using that by (simp add: list_all_length)
  moreover have "nat (v mod 255) < 256" for v :: int by (simp add: nat_less_iff)
  ultimately have "0 \<le> MUL pow_table log_table c (uint b) \<and> MUL pow_table log_table c (uint b) < 256"
    by (simp add: MUL_def)
  then show ?thesis by (simp add: unsigned_of_int take_bit_int_eq_self)
qed

lemma xt_zero [simp]: "xt 0 = 0"
  by (simp add: xt_def)

lemma RT_entries:
  "RT0 aes ! unat b = join (m14 (inv_sub b)) (m9 (inv_sub b)) (m13 (inv_sub b)) (m11 (inv_sub b))"
  "RT1 aes ! unat b = ROTL8 (RT0 aes ! unat b)" "RT2 aes ! unat b = ROTL8 (RT1 aes ! unat b)"
  "RT3 aes ! unat b = ROTL8 (RT2 aes ! unat b)"
proof -
  let ?M = "MUL pow_table log_table"
  have mul: "(of_int (?M 14 (uint c)) :: u8) = m14 c" "(of_int (?M 9 (uint c)) :: u8) = m9 c"
      "(of_int (?M 13 (uint c)) :: u8) = m13 c" "(of_int (?M 11 (uint c)) :: u8) = m11 c" for c
    by (rule MUL_rotated [OF coefficients(1)] MUL_rotated [OF coefficients(2)]
        MUL_rotated [OF coefficients(3)] MUL_rotated [OF coefficients(4)];
        simp add: log_constants m14_def m9_def m13_def m11_def)+
  have "?M 14 (uint c) = uint (m14 c)" "?M 9 (uint c) = uint (m9 c)" "?M 13 (uint c) = uint (m13 c)"
      "?M 11 (uint c) = uint (m11 c)" for c :: u8
    using MUL_small [of 14 c] MUL_small [of 9 c] MUL_small [of 13 c] MUL_small [of 11 c] unfolding mul by simp_all
  then have entry: "reverse_entry pow_table log_table c = join (m14 c) (m9 c) (m13 c) (m11 c)" for c
    by (simp add: reverse_entry_def join_def Let_def)
  have "length (RT0 aes) = 256" using aes_parts by simp
  then show "RT0 aes ! unat b = join (m14 (inv_sub b)) (m9 (inv_sub b)) (m13 (inv_sub b)) (m11 (inv_sub b))"
    "RT1 aes ! unat b = ROTL8 (RT0 aes ! unat b)" "RT2 aes ! unat b = ROTL8 (RT1 aes ! unat b)"
    "RT3 aes ! unat b = ROTL8 (RT2 aes ! unat b)"
    using aes_parts by (simp_all add: entry inv_sub_def)
qed

text \<open>One word through the column mixing and through its inverse.\<close>

definition mix :: "u8 \<Rightarrow> u8 \<Rightarrow> u8 \<Rightarrow> u8 \<Rightarrow> u32" where
  "mix a b c d = join (xt a XOR xt b XOR b XOR c XOR d) (a XOR xt b XOR xt c XOR c XOR d)
     (a XOR b XOR xt c XOR xt d XOR d) (xt a XOR a XOR b XOR c XOR xt d)"

definition inv_mix :: "u32 \<Rightarrow> u32" where
  "inv_mix w =
     (let a = byte 0 w; b = byte 1 w; c = byte 2 w; d = byte 3 w
      in join (m14 a XOR m11 b XOR m13 c XOR m9 d) (m9 a XOR m14 b XOR m11 c XOR m13 d)
           (m13 a XOR m9 b XOR m14 c XOR m11 d) (m11 a XOR m13 b XOR m9 c XOR m14 d))"

lemma byte_mix [simp]:
  "byte 0 (mix a b c d) = xt a XOR xt b XOR b XOR c XOR d" "byte (Suc 0) (mix a b c d) = a XOR xt b XOR xt c XOR c XOR d"
  "byte 2 (mix a b c d) = a XOR b XOR xt c XOR xt d XOR d" "byte 3 (mix a b c d) = xt a XOR a XOR b XOR c XOR xt d"
  by (simp_all add: mix_def)

lemma byte_inv_mix [simp]:
  "byte 0 (inv_mix w) = m14 (byte 0 w) XOR m11 (byte 1 w) XOR m13 (byte 2 w) XOR m9 (byte 3 w)"
  "byte (Suc 0) (inv_mix w) = m9 (byte 0 w) XOR m14 (byte 1 w) XOR m11 (byte 2 w) XOR m13 (byte 3 w)"
  "byte 2 (inv_mix w) = m13 (byte 0 w) XOR m9 (byte 1 w) XOR m14 (byte 2 w) XOR m11 (byte 3 w)"
  "byte 3 (inv_mix w) = m11 (byte 0 w) XOR m13 (byte 1 w) XOR m9 (byte 2 w) XOR m14 (byte 3 w)"
  by (simp_all add: inv_mix_def Let_def)

lemma FT_mix:
  "FT0 aes ! byte_of k0 w0 XOR FT1 aes ! byte_of k1 w1 XOR FT2 aes ! byte_of k2 w2 XOR FT3 aes ! byte_of k3 w3 =
     mix (sub (byte k0 w0)) (sub (byte k1 w1)) (sub (byte k2 w2)) (sub (byte k3 w3))"
  by (rule word_eq_bytes; simp add: byte_of_byte FT_entries; simp only: xor_normal)

lemma RT_inv_mix:
  "RT0 aes ! byte_of k0 w0 XOR RT1 aes ! byte_of k1 w1 XOR RT2 aes ! byte_of k2 w2 XOR RT3 aes ! byte_of k3 w3 =
     inv_mix (join (inv_sub (byte k0 w0)) (inv_sub (byte k1 w1)) (inv_sub (byte k2 w2)) (inv_sub (byte k3 w3)))"
  by (rule word_eq_bytes; simp add: byte_of_byte RT_entries; simp only: xor_normal)

lemma inv_mix_word_mix: "inv_mix_word aes w = inv_mix w"
proof -
  have "FSb aes ! byte_of k w = sub (byte k w)" for k by (simp add: sub_def byte_of_byte)
  then have "inv_mix_word aes w = RT0 aes ! unat (sub (byte 0 w)) XOR RT1 aes ! unat (sub (byte 1 w)) XOR
      RT2 aes ! unat (sub (byte 2 w)) XOR RT3 aes ! unat (sub (byte 3 w))"
    by (simp only: inv_mix_word_def)
  also have "\<dots> = inv_mix w" by (rule word_eq_bytes; simp add: RT_entries; simp only: xor_normal)
  finally show ?thesis .
qed

lemma inv_mix_xor: "inv_mix (v XOR w) = inv_mix v XOR inv_mix w"
  by (rule word_eq_bytes; simp; simp only: xor_normal)

lemma inv_mix_mix: "inv_mix (mix a b c d) = join a b c d"
  by (rule word_eq_bytes; simp add: m9_def m11_def m13_def m14_def; simp only: xor_normal)

end
