(* ===== verification/Dm_Aes_Contract.thy ===== *)
theory Dm_Aes_Contract
  imports Dm_Aes_Laws
begin

text \<open>
  The cipher of \<open>aes.c\<close>: for every key length and every key the decryption with the decryption schedule
  gives back the block that was encrypted, and so does the CBC mode for a whole message.
\<close>

section \<open>Rounds as maps on blocks\<close>

fun add_key :: "u32 list \<Rightarrow> aes_block \<Rightarrow> aes_block" where
  "add_key k (a, b, c, d) = (k ! 0 XOR a, k ! 1 XOR b, k ! 2 XOR c, k ! 3 XOR d)"

text \<open>The S-box on every byte with the shift of the rows, and its inverse.\<close>

fun sub_shift :: "aes_block \<Rightarrow> aes_block" where
  "sub_shift (a, b, c, d) =
     (join (sub (byte 0 a)) (sub (byte 1 b)) (sub (byte 2 c)) (sub (byte 3 d)),
      join (sub (byte 0 b)) (sub (byte 1 c)) (sub (byte 2 d)) (sub (byte 3 a)),
      join (sub (byte 0 c)) (sub (byte 1 d)) (sub (byte 2 a)) (sub (byte 3 b)),
      join (sub (byte 0 d)) (sub (byte 1 a)) (sub (byte 2 b)) (sub (byte 3 c)))"

fun inv_sub_shift :: "aes_block \<Rightarrow> aes_block" where
  "inv_sub_shift (a, b, c, d) =
     (join (inv_sub (byte 0 a)) (inv_sub (byte 1 d)) (inv_sub (byte 2 c)) (inv_sub (byte 3 b)),
      join (inv_sub (byte 0 b)) (inv_sub (byte 1 a)) (inv_sub (byte 2 d)) (inv_sub (byte 3 c)),
      join (inv_sub (byte 0 c)) (inv_sub (byte 1 b)) (inv_sub (byte 2 a)) (inv_sub (byte 3 d)),
      join (inv_sub (byte 0 d)) (inv_sub (byte 1 c)) (inv_sub (byte 2 b)) (inv_sub (byte 3 a)))"

definition mix_word :: "u32 \<Rightarrow> u32" where
  "mix_word w = mix (byte 0 w) (byte 1 w) (byte 2 w) (byte 3 w)"

fun mix_block :: "aes_block \<Rightarrow> aes_block" where
  "mix_block (a, b, c, d) = (mix_word a, mix_word b, mix_word c, mix_word d)"

fun inv_mix_block :: "aes_block \<Rightarrow> aes_block" where
  "inv_mix_block (a, b, c, d) = (inv_mix a, inv_mix b, inv_mix c, inv_mix d)"

lemma join_bytes: "join (byte 0 w) (byte 1 w) (byte 2 w) (byte 3 w) = w"
  by (rule word_eq_bytes) simp_all

lemma sub_shift_back [simp]: "inv_sub_shift (sub_shift X) = X"
  by (cases X) (simp add: join_bytes [unfolded One_nat_def])

lemma mix_block_back [simp]: "inv_mix_block (mix_block X) = X"
  by (cases X) (simp add: mix_word_def inv_mix_mix join_bytes [unfolded One_nat_def])

lemma add_key_back [simp]: "add_key k (add_key k X) = X"
  by (cases X) (simp flip: xor.assoc)

lemma inv_mix_add_key:
  "length k = 4 \<Longrightarrow> inv_mix_block (add_key k X) = add_key (map inv_mix k) (inv_mix_block X)"
  by (cases X) (simp add: inv_mix_xor)

lemma forward_round: "AES_FROUND aes k X = add_key k (mix_block (sub_shift X))"
  by (cases X) (simp add: AES_FROUND_def xor.assoc FT_mix mix_word_def)

lemma reverse_round: "AES_RROUND aes k X = add_key k (inv_mix_block (inv_sub_shift X))"
  by (cases X) (simp add: AES_RROUND_def xor.assoc RT_inv_mix)

text \<open>The rounds of the decryption, on the states between the boxes.\<close>

lemma rounds_undone:
  "list_all (\<lambda>k. length k = 4) ks \<Longrightarrow>
   fold (AES_RROUND aes) (map (map inv_mix) (rev ks)) (sub_shift (fold (AES_FROUND aes) ks X)) = sub_shift X"
proof (induction ks rule: rev_induct)
  case (snoc k ks)
  let ?s = "fold (AES_FROUND aes) ks X"
  have "AES_RROUND aes (map inv_mix k) (sub_shift (AES_FROUND aes k ?s)) = sub_shift ?s"
    using snoc.prems by (simp add: forward_round reverse_round inv_mix_add_key)
  with snoc show ?case by simp
qed simp

section \<open>Loading and storing a block\<close>

lemma last_word_join:
  "last_word box k w0 w1 w2 w3 =
     k XOR join (box ! unat (byte 0 w0)) (box ! unat (byte 1 w1)) (box ! unat (byte 2 w2)) (box ! unat (byte 3 w3))"
  by (simp add: last_word_def byte_of_byte join_def xor.assoc)

lemma PUT_bytes: "PUT_UINT32_LE w = [byte 0 w, byte 1 w, byte 2 w, byte 3 w]"
  by (simp add: PUT_UINT32_LE_def byte_def) (intro conjI; rule bit_word_eqI; auto simp: bit_simps bit_255)

lemma GET_join:
  assumes "i + 3 < length b"
  shows "GET_UINT32_LE b i = Some (join (b ! i) (b ! (i + 1)) (b ! (i + 2)) (b ! (i + 3)))"
proof -
  have "ucast b0 OR push_bit 8 (ucast b1) OR push_bit 16 (ucast b2) OR push_bit 24 (ucast b3) = join b0 b1 b2 b3" for b0 b1 b2 b3 :: u8
    by (rule bit_word_eqI) (auto simp: join_def bit_simps dest: bit_u8_less)
  then show ?thesis using assms by (simp add: GET_UINT32_LE_def)
qed

lemma length_store_block [simp]: "length (store_block X) = 16"
  by (cases X) (simp add: store_block_def PUT_UINT32_LE_def)

lemma upt_16: "[0..<16] = [0, 1, 2, 3, 4, 5, 6, 7, 8, 9, 10, 11, 12, 13, 14, 15 :: nat]"
  by (simp add: upt_rec)

lemma sixteen: "length b = 16 \<Longrightarrow> b = map (\<lambda>i. b ! i) [0, 1, 2, 3, 4, 5, 6, 7, 8, 9, 10, 11, 12, 13, 14, 15]"
  using map_nth [of b] by (simp only: upt_16)

definition block_words :: "bytes \<Rightarrow> aes_block" where
  "block_words b =
     (join (b ! 0) (b ! 1) (b ! 2) (b ! 3), join (b ! 4) (b ! 5) (b ! 6) (b ! 7),
      join (b ! 8) (b ! 9) (b ! 10) (b ! 11), join (b ! 12) (b ! 13) (b ! 14) (b ! 15))"

lemma load_block_words: "16 \<le> length b \<Longrightarrow> load_block b k = Some (add_key k (block_words b))"
  by (simp add: load_block_def GET_join block_words_def xor.commute flip: numeral_2_eq_2)

lemma block_words_store: "block_words (store_block X) = X"
proof -
  obtain a b c d where "X = (a, b, c, d)" by (cases X)
  then show ?thesis
    by (simp add: block_words_def store_block_def PUT_bytes join_bytes [unfolded One_nat_def])
qed

lemma store_block_words:
  assumes "length b = 16" shows "store_block (block_words b) = b"
  by (subst (2) sixteen [OF assms]) (simp add: block_words_def store_block_def PUT_bytes)

section \<open>The two directions of the cipher\<close>

definition keys_at :: "u32 list \<Rightarrow> nat \<Rightarrow> nat \<Rightarrow> u32 list list" where
  "keys_at rk pos m = map (\<lambda>i. take 4 (drop (pos + 4 * i) rk)) [0..<m]"

lemma keys_at_Suc: "keys_at rk pos (Suc m) = take 4 (drop pos rk) # keys_at rk (pos + 4) m"
  unfolding keys_at_def map_upt_Suc by (simp add: algebra_simps)

lemma keys_at_0 [simp]: "keys_at rk pos 0 = []"
  by (simp add: keys_at_def)

lemma keys_at_snoc: "keys_at rk pos (Suc m) = keys_at rk pos m @ [take 4 (drop (pos + 4 * m) rk)]"
  by (simp add: keys_at_def)

lemma keys_at_length: "pos + 4 * m \<le> length rk \<Longrightarrow> list_all (\<lambda>k. length k = 4) (keys_at rk pos m)"
  by (simp add: keys_at_def list_all_iff)

lemma round_loop_fold:
  "pos + 8 * n \<le> length rk \<Longrightarrow> round_loop rnd rk pos n X = Some (fold rnd (keys_at rk pos (2 * n)) X, pos + 8 * n)"
  by (induction n arbitrary: pos X) (simp_all add: keys_at_Suc [of _ _ "Suc _"] keys_at_Suc add.assoc)

text \<open>A context of \<open>nr\<close> rounds.\<close>

definition rounds_ok :: "mbedtls_aes_context \<Rightarrow> bool" where
  "rounds_ok ctx \<longleftrightarrow> aes_nr ctx \<in> {10, 12, 14} \<and> length (aes_buf ctx) = 68"

abbreviation round_key :: "mbedtls_aes_context \<Rightarrow> nat \<Rightarrow> u32 list" where
  "round_key ctx i \<equiv> take 4 (drop (4 * i) (aes_buf ctx))"

abbreviation inner_keys :: "mbedtls_aes_context \<Rightarrow> u32 list list" where
  "inner_keys ctx \<equiv> keys_at (aes_buf ctx) 4 (aes_nr ctx - 1)"

lemma all_rounds:
  assumes "rounds_ok ctx"
  obtains n where "drop_bit 1 (aes_nr ctx) - 1 = n" "aes_nr ctx = 2 * n + 2" "8 * n + 12 \<le> 68"
  using assms by (auto simp: rounds_ok_def drop_bit_eq_div)

lemma encrypt_rounds:
  assumes "rounds_ok ctx" and "16 \<le> length b"
  shows "dm_mbedtls_aes_encrypt aes ctx b = Some (store_block
    (add_key (round_key ctx (aes_nr ctx)) (sub_shift (fold (AES_FROUND aes) (inner_keys ctx) (add_key (round_key ctx 0) (block_words b))))))"
proof -
  let ?rk = "aes_buf ctx"
  obtain n where n: "drop_bit 1 (aes_nr ctx) - 1 = n" "aes_nr ctx = 2 * n + 2" "8 * n + 12 \<le> 68"
    by (rule all_rounds [OF assms(1)])
  have len: "length ?rk = 68" using assms(1) by (simp add: rounds_ok_def)
  obtain a b' c d where Y: "AES_FROUND aes (take 4 (drop (4 + 8 * n) ?rk))
      (fold (AES_FROUND aes) (keys_at ?rk 4 (2 * n)) (add_key (take 4 ?rk) (block_words b))) = (a, b', c, d)"
    using prod_cases4 by blast
  have inner: "inner_keys ctx = keys_at ?rk 4 (2 * n) @ [take 4 (drop (4 + 8 * n) ?rk)]"
    using keys_at_snoc [of ?rk 4 "2 * n"] n(2) by simp
  have "4 * aes_nr ctx = 4 + 8 * n + 4" using n(2) by simp
  then show ?thesis
    unfolding inner dm_mbedtls_aes_encrypt_def Let_def n(1) using len n(3) assms(2) Y
    by (simp add: load_block_words round_loop_fold last_word_join add.commute flip: sub_def)
qed

lemma decrypt_rounds:
  assumes "rounds_ok ctx" and "16 \<le> length b"
  shows "dm_mbedtls_aes_decrypt aes ctx b = Some (store_block
    (add_key (round_key ctx (aes_nr ctx)) (inv_sub_shift (fold (AES_RROUND aes) (inner_keys ctx) (add_key (round_key ctx 0) (block_words b))))))"
proof -
  let ?rk = "aes_buf ctx"
  obtain n where n: "drop_bit 1 (aes_nr ctx) - 1 = n" "aes_nr ctx = 2 * n + 2" "8 * n + 12 \<le> 68"
    by (rule all_rounds [OF assms(1)])
  have len: "length ?rk = 68" using assms(1) by (simp add: rounds_ok_def)
  obtain a b' c d where Y: "AES_RROUND aes (take 4 (drop (4 + 8 * n) ?rk))
      (fold (AES_RROUND aes) (keys_at ?rk 4 (2 * n)) (add_key (take 4 ?rk) (block_words b))) = (a, b', c, d)"
    using prod_cases4 by blast
  have inner: "inner_keys ctx = keys_at ?rk 4 (2 * n) @ [take 4 (drop (4 + 8 * n) ?rk)]"
    using keys_at_snoc [of ?rk 4 "2 * n"] n(2) by simp
  have "4 * aes_nr ctx = 4 + 8 * n + 4" using n(2) by simp
  then show ?thesis
    unfolding inner dm_mbedtls_aes_decrypt_def Let_def n(1) using len n(3) assms(2) Y
    by (simp add: load_block_words round_loop_fold last_word_join add.commute flip: inv_sub_def)
qed

text \<open>The schedule of the decryption is the reversed one, with the inner keys mixed.\<close>

definition reversed_schedule :: "mbedtls_aes_context \<Rightarrow> mbedtls_aes_context \<Rightarrow> bool" where
  "reversed_schedule enc dec \<longleftrightarrow> rounds_ok enc \<and> rounds_ok dec \<and> aes_nr dec = aes_nr enc \<and>
     round_key dec 0 = round_key enc (aes_nr enc) \<and> round_key dec (aes_nr enc) = round_key enc 0 \<and>
     inner_keys dec = map (map inv_mix) (rev (inner_keys enc))"

lemma decrypt_encrypt:
  assumes "reversed_schedule enc dec" and "length b = 16"
  obtains c where "dm_mbedtls_aes_encrypt aes enc b = Some c" "length c = 16" "dm_mbedtls_aes_decrypt aes dec c = Some b"
proof -
  let ?Z = "sub_shift (fold (AES_FROUND aes) (inner_keys enc) (add_key (round_key enc 0) (block_words b)))"
  let ?c = "store_block (add_key (round_key enc (aes_nr enc)) ?Z)"
  have "4 + 4 * (aes_nr enc - 1) \<le> length (aes_buf enc)"
    using assms(1) by (auto simp: reversed_schedule_def rounds_ok_def)
  note undone = rounds_undone [OF keys_at_length [OF this], of "add_key (round_key enc 0) (block_words b)"]
  have "dm_mbedtls_aes_encrypt aes enc b = Some ?c"
    using assms by (subst encrypt_rounds) (simp_all add: reversed_schedule_def)
  moreover have "dm_mbedtls_aes_decrypt aes dec ?c = Some b"
  proof -
    have dec: "rounds_ok dec" "aes_nr dec = aes_nr enc" "round_key dec 0 = round_key enc (aes_nr enc)"
      "round_key dec (aes_nr enc) = round_key enc 0" "inner_keys dec = map (map inv_mix) (rev (inner_keys enc))"
      using assms(1) unfolding reversed_schedule_def by blast+
    have "dm_mbedtls_aes_decrypt aes dec ?c = Some (store_block (add_key (round_key dec (aes_nr enc))
        (inv_sub_shift (fold (AES_RROUND aes) (inner_keys dec) (add_key (round_key dec 0) (block_words ?c))))))"
      unfolding dec(2) [symmetric] by (rule decrypt_rounds) (simp_all add: dec(1))
    then show ?thesis
      unfolding dec(3-5) block_words_store add_key_back undone using assms(2) by (simp add: store_block_words)
  qed
  ultimately show ?thesis using that by simp
qed

section \<open>The key schedules\<close>

lemma length_keys_at [simp]: "length (keys_at rk pos m) = m"
  by (simp add: keys_at_def)

lemma keys_at_concat:
  "list_all (\<lambda>k. length k = 4) ks \<Longrightarrow> keys_at (pre @ concat ks @ suf) (length pre) (length ks) = ks"
proof (induction ks arbitrary: pre)
  case (Cons k ks)
  then show ?case using Cons.IH [of "pre @ k"] by (simp add: keys_at_Suc)
qed simp

lemma reverse_rounds_keys:
  "4 * (n + 1) \<le> length SK \<Longrightarrow> reverse_rounds aes SK n = concat (map (map inv_mix) (rev (keys_at SK 4 n)))"
proof (induction n)
  case (Suc n)
  have "map (\<lambda>j. inv_mix_word aes (SK ! (4 * (n + 1) + j))) [0..<4] = map inv_mix (take 4 (drop (4 + 4 * n) SK))"
    using Suc.prems by (intro nth_equalityI) (simp_all add: inv_mix_word_mix ac_simps)
  then show ?case using Suc by (simp add: keys_at_snoc)
qed simp

lemma schedule_loop_returns:
  "(\<And>i RK. length (step i RK) = w) \<Longrightarrow> w * (i + n + 1) \<le> length buf \<Longrightarrow>
   \<exists>buf'. schedule_loop step w n i buf = Some buf' \<and> length buf' = length buf"
proof (induction n arbitrary: i buf)
  case (Suc n)
  have room: "w * i + w \<le> length buf" "w * (i + 1) + w \<le> length buf"
    using Suc.prems(2) by (simp_all add: algebra_simps)
  let ?buf = "take (w * (i + 1)) buf @ step i (take w (drop (w * i) buf)) @ drop (w * (i + 1) + w) buf"
  have "length ?buf = length buf" using room Suc.prems(1) by simp
  then show ?case using Suc.IH [of "i + 1" ?buf] Suc.prems room by simp
qed simp

lemma length_nexts: "length (next_128 T i RK) = 4" "length (next_192 T i RK) = 6" "length (next_256 T i RK) = 8"
  by (simp_all add: next_128_def next_192_def next_256_def Let_def)

lemma those_map_Some: "(\<And>x. x \<in> set xs \<Longrightarrow> f x = Some (g x)) \<Longrightarrow> those (map f xs) = Some (map g xs)"
  by (induction xs) auto

lemma setkey_enc_returns:
  assumes "keybits \<in> {128, 192, 256}" and "length key = keybits div 8" and "length (aes_buf ctx) = 68"
  obtains enc where "dm_mbedtls_aes_setkey_enc T ctx key keybits = Some (0, enc)" "rounds_ok enc"
proof -
  define words where "words = map (\<lambda>i. join (key ! (4 * i)) (key ! (4 * i + 1)) (key ! (4 * i + 2)) (key ! (4 * i + 3)))
    [0..<keybits div 32]"
  have words: "those (map (\<lambda>i. GET_UINT32_LE key (4 * i)) [0..<keybits div 32]) = Some words"
    unfolding words_def using assms(1,2) by (intro those_map_Some GET_join) auto
  define buf where "buf = take 0 (aes_buf ctx) @ words @ drop (length words) (aes_buf ctx)"
  have "length words \<le> 68" using assms(1) by (auto simp: words_def)
  then have buf: "ablit (aes_buf ctx) 0 words = Some buf" "length buf = 68"
    using assms(3) by (simp_all add: buf_def)
  note loops = schedule_loop_returns [of "next_128 T" 4 0 10 buf] schedule_loop_returns [of "next_192 T" 6 0 8 buf]
    schedule_loop_returns [of "next_256 T" 8 0 7 buf]
  from assms(1) show ?thesis
    using loops buf words that by (fastforce simp: dm_mbedtls_aes_setkey_enc_def rounds_ok_def length_nexts)
qed

lemma setkey_dec_reverses:
  assumes "dm_mbedtls_aes_setkey_enc aes dm_mbedtls_aes_init key keybits = Some (0, enc)" and "rounds_ok enc"
    and "length (aes_buf ctx) = 68"
  obtains dec where "dm_mbedtls_aes_setkey_dec aes ctx key keybits = Some (0, dec)" "reversed_schedule enc dec"
proof -
  let ?SK = "aes_buf enc"
  obtain m where nr: "aes_nr enc = m + 1" "m \<in> {9, 11, 13}" and len: "length ?SK = 68"
    using assms(2) by (auto simp: rounds_ok_def)
  define ks where "ks = map (map inv_mix) (rev (keys_at ?SK 4 m))"
  have ks: "list_all (\<lambda>k. length k = 4) ks" "length ks = m"
    using keys_at_length [of 4 m ?SK] nr len by (auto simp: ks_def list_all_iff)
  then have lk: "length (concat ks) = 4 * m"
    by (induction ks arbitrary: m) auto
  have rounds: "reverse_rounds aes ?SK m = concat ks"
    using reverse_rounds_keys [of m ?SK] nr len by (auto simp: ks_def)
  let ?pre = "take 4 (drop (4 * aes_nr enc) ?SK)"
  have pre: "length ?pre = 4" using nr len by auto
  define buf where "buf = ?pre @ concat ks @ take 4 ?SK @ drop (4 * m + 8) (aes_buf ctx)"
  let ?dec = "ctx\<lparr>aes_nr := aes_nr enc, aes_buf := buf\<rparr>"
  have "dm_mbedtls_aes_setkey_dec aes ctx key keybits = Some (0, ?dec)"
    using assms(1,3) nr len lk rounds by (auto simp: dm_mbedtls_aes_setkey_dec_def Let_def buf_def)
  moreover have "reversed_schedule enc ?dec"
  proof -
    have "keys_at buf 4 m = ks"
      using keys_at_concat [OF ks(1), of ?pre] pre ks(2) by (simp add: buf_def)
    then show ?thesis
      using assms nr len lk pre by (auto simp: reversed_schedule_def rounds_ok_def buf_def ks_def)
  qed
  ultimately show ?thesis by (rule that)
qed

section \<open>Chained blocks\<close>

lemma length_xor_bytes [simp]: "length (xor_bytes a b) = min (length a) (length b)"
  by (simp add: xor_bytes_def)

lemma xor_bytes_back: "length a = length b \<Longrightarrow> xor_bytes (xor_bytes a b) b = a"
  by (auto simp: xor_bytes_def xor.assoc intro!: nth_equalityI)

lemma cbc_loops:
  assumes "reversed_schedule enc dec"
  shows "length iv = 16 \<Longrightarrow> pos + 16 * n \<le> length m \<Longrightarrow> pos + 16 * n \<le> length out \<Longrightarrow>
    \<exists>iv1 c. cbc_loop aes enc 1 n pos iv m out = Some (iv1, take pos out @ c @ drop (pos + 16 * n) out) \<and> length c = 16 * n \<and>
      (\<forall>pre suf out. length pre = pos \<longrightarrow> pos + 16 * n \<le> length out \<longrightarrow>
        (\<exists>iv2. cbc_loop aes dec 0 n pos iv (pre @ c @ suf) out =
          Some (iv2, take pos out @ take (16 * n) (drop pos m) @ drop (pos + 16 * n) out)))"
proof (induction n arbitrary: pos iv out)
  case (Suc n)
  let ?block = "take 16 (drop pos m)"
  have "length (xor_bytes ?block iv) = 16" using Suc.prems by simp
  then obtain x where x: "dm_mbedtls_aes_encrypt aes enc (xor_bytes ?block iv) = Some x" "length x = 16"
      "dm_mbedtls_aes_decrypt aes dec x = Some (xor_bytes ?block iv)"
    by (rule decrypt_encrypt [OF assms])
  let ?out = "take pos out @ x @ drop (pos + 16) out"
  have sum: "pos + 16 + 16 * n = pos + 16 * Suc n" by simp
  have out: "take (pos + 16) ?out = take pos out @ x" "drop (pos + 16 * Suc n) ?out = drop (pos + 16 * Suc n) out"
    using Suc.prems x(2) by (simp_all add: ac_simps)
  obtain iv1 c where step: "cbc_loop aes enc 1 n (pos + 16) x m ?out = Some (iv1, take pos out @ x @ c @ drop (pos + 16 * Suc n) out)"
      "length c = 16 * n"
    and undo: "\<And>pre suf out. length pre = pos + 16 \<Longrightarrow> pos + 16 * Suc n \<le> length out \<Longrightarrow>
        \<exists>iv2. cbc_loop aes dec 0 n (pos + 16) x (pre @ c @ suf) out =
          Some (iv2, take (pos + 16) out @ take (16 * n) (drop (pos + 16) m) @ drop (pos + 16 * Suc n) out)"
  proof -
    have "pos + 16 + 16 * n \<le> length m" "pos + 16 + 16 * n \<le> length ?out" using Suc.prems x(2) by simp_all
    from Suc.IH [OF x(2) this] show ?thesis
      unfolding sum out append.assoc by (elim exE conjE) (rule that, assumption+, blast)
  qed
  have split: "take (16 * Suc n) (drop pos m) = ?block @ take (16 * n) (drop (pos + 16) m)"
    by (simp add: take_add add.commute)
  have "\<exists>iv2. cbc_loop aes dec 0 (Suc n) pos iv (pre @ (x @ c) @ suf) out' =
      Some (iv2, take pos out' @ take (16 * Suc n) (drop pos m) @ drop (pos + 16 * Suc n) out')"
    if "length pre = pos" "pos + 16 * Suc n \<le> length out'" for pre suf out' :: bytes
    using undo [of "pre @ x" "take pos out' @ ?block @ drop (pos + 16) out'" suf] that x Suc.prems
    unfolding split by (simp add: dm_mbedtls_aes_crypt_ecb_def xor_bytes_back ac_simps)
  moreover have "cbc_loop aes enc 1 (Suc n) pos iv m out = Some (iv1, take pos out @ (x @ c) @ drop (pos + 16 * Suc n) out)"
    using step x Suc.prems by (simp add: dm_mbedtls_aes_crypt_ecb_def)
  moreover have "length (x @ c) = 16 * Suc n" using step(2) x(2) by simp
  ultimately show ?case by blast
qed simp

lemma cbc_back:
  assumes "reversed_schedule enc dec" and "length iv = 16" and "length m mod 16 = 0" and "length m \<le> length out"
  obtains iv1 c where "dm_mbedtls_aes_crypt_cbc aes enc 1 (length m) iv m out = Some (0, iv1, c @ drop (length m) out)"
    "length c = length m"
    "\<And>suf out. length m \<le> length out \<Longrightarrow>
      \<exists>iv2. dm_mbedtls_aes_crypt_cbc aes dec 0 (length m) iv (c @ suf) out = Some (0, iv2, m @ drop (length m) out)"
proof -
  let ?n = "length m div 16"
  have n: "16 * ?n = length m" using assms(3) by auto
  obtain iv1 c where c: "cbc_loop aes enc 1 ?n 0 iv m out = Some (iv1, c @ drop (length m) out)" "length c = length m"
    and undo: "\<And>suf out. length m \<le> length out \<Longrightarrow>
        \<exists>iv2. cbc_loop aes dec 0 ?n 0 iv (c @ suf) out = Some (iv2, m @ drop (length m) out)"
    using cbc_loops [OF assms(1,2), of 0 ?n m out] assms(4) n by auto
  show ?thesis
  proof (rule that)
    show "dm_mbedtls_aes_crypt_cbc aes enc 1 (length m) iv m out = Some (0, iv1, c @ drop (length m) out)"
      using c assms(3) by (simp add: dm_mbedtls_aes_crypt_cbc_def)
    show "length c = length m" by (rule c(2))
    show "\<exists>iv2. dm_mbedtls_aes_crypt_cbc aes dec 0 (length m) iv (c @ suf) out = Some (0, iv2, m @ drop (length m) out)"
      if "length m \<le> length out" for suf out
      using undo [OF that, of suf] assms(3) by (auto simp: dm_mbedtls_aes_crypt_cbc_def)
  qed
qed

text \<open>C13. CBC undone: for every 128, 192 or 256 bit key both key schedules of \<open>aes.c\<close> succeed, and for every
  initialization vector and every message of whole blocks \<open>dm_mbedtls_aes_crypt_cbc\<close> encrypts the message
  without leaving its buffers, and decrypting the result with the schedule of \<open>setkey_dec\<close> gives back the
  message exactly.\<close>
theorem aes_cbc_roundtrip:
  assumes "keybits \<in> {128, 192, 256}" and "length key = keybits div 8" and "length iv = 16"
    and "length m mod 16 = 0" and "length out = length m"
  shows "\<exists>enc dec iv1 c iv2.
    dm_mbedtls_aes_setkey_enc aes_gen_tables dm_mbedtls_aes_init key keybits = Some (0, enc) \<and>
    dm_mbedtls_aes_setkey_dec aes_gen_tables dm_mbedtls_aes_init key keybits = Some (0, dec) \<and>
    dm_mbedtls_aes_crypt_cbc aes_gen_tables enc 1 (length m) iv m out = Some (0, iv1, c) \<and> length c = length m \<and>
    dm_mbedtls_aes_crypt_cbc aes_gen_tables dec 0 (length m) iv c out = Some (0, iv2, m)"
proof -
  have init: "length (aes_buf dm_mbedtls_aes_init) = 68" by (simp add: dm_mbedtls_aes_init_def)
  obtain enc where enc: "dm_mbedtls_aes_setkey_enc aes dm_mbedtls_aes_init key keybits = Some (0, enc)" "rounds_ok enc"
    by (rule setkey_enc_returns [OF assms(1,2) init])
  obtain dec where dec: "dm_mbedtls_aes_setkey_dec aes dm_mbedtls_aes_init key keybits = Some (0, dec)" "reversed_schedule enc dec"
    by (rule setkey_dec_reverses [OF enc init])
  have room: "length m \<le> length out" using assms(5) by simp
  show ?thesis
  proof (rule cbc_back [OF dec(2) assms(3,4) room])
    fix iv1 c
    assume c: "dm_mbedtls_aes_crypt_cbc aes enc 1 (length m) iv m out = Some (0, iv1, c @ drop (length m) out)"
      "length c = length m"
      and undo: "\<And>suf out. length m \<le> length out \<Longrightarrow>
        \<exists>iv2. dm_mbedtls_aes_crypt_cbc aes dec 0 (length m) iv (c @ suf) out = Some (0, iv2, m @ drop (length m) out)"
    from undo [OF room, of "[]"] show ?thesis using enc(1) dec(1) c assms(5) by auto
  qed
qed

theorem aes_cbc_roundtrip_witness:
  "\<exists>enc dec iv1 c iv2.
    dm_mbedtls_aes_setkey_enc aes_gen_tables dm_mbedtls_aes_init (map of_nat [0..<32]) 256 = Some (0, enc) \<and>
    dm_mbedtls_aes_setkey_dec aes_gen_tables dm_mbedtls_aes_init (map of_nat [0..<32]) 256 = Some (0, dec) \<and>
    dm_mbedtls_aes_crypt_cbc aes_gen_tables enc 1 48 (replicate 16 0) (replicate 48 7) (replicate 48 0) = Some (0, iv1, c) \<and>
    length c = 48 \<and>
    dm_mbedtls_aes_crypt_cbc aes_gen_tables dec 0 48 (replicate 16 0) c (replicate 48 0) = Some (0, iv2, replicate 48 7)"
  using aes_cbc_roundtrip [of 256 "map of_nat [0..<32]" "replicate 16 0" "replicate 48 7" "replicate 48 0"]
  by (simp only: length_replicate length_map length_upt) simp

end
