(* ===== verification/Dm_Endpoint.thy ===== *)
theory Dm_Endpoint
  imports Cis_Packet Dm_Base64 Dm_Sha256 Dm_Aes_Contract
begin

text \<open>
  \<open>dm_utils/dm_endpoint.c\<close>: the names under which a device-management client registers and updates, and
  the encoding of the values it reports. All three are encrypted with a key made from the password and
  written in Base64. The laws say what a server needs to read them: the password, and nothing else.
\<close>

section \<open>The code\<close>

text \<open>A text in an array; an array without a zero has no end.\<close>

definition cstr :: "bytes \<Rightarrow> bytes option" where
  "cstr a = (if 0 \<in> set a then Some (takeWhile (\<lambda>c. c \<noteq> 0) a) else None)"

text \<open>The options of the application, the arrays with their sizes 64, 64, 16, 64, 64 and 64.\<close>

record dm_options =
  szCMEI_IMEI :: bytes
  szIMSI :: bytes
  szDMv :: bytes
  szAppKey :: bytes
  szPwd :: bytes
  szCMEI_IMEI2 :: bytes

definition dmSdkInit :: "bytes \<Rightarrow> bytes \<Rightarrow> dm_options \<Rightarrow> dm_options option" where
  "dmSdkInit global_imei global_imsi g_opt = do {
     imei \<leftarrow> aslice global_imei 0 30;
     a \<leftarrow> ablit (replicate 64 0) 0 imei;
     imsi \<leftarrow> aslice global_imsi 0 30;
     b \<leftarrow> ablit (replicate 64 0) 0 imsi;
     Some (g_opt\<lparr>szCMEI_IMEI := a, szIMSI := b\<rparr>) }"

text \<open>The code returned, the output array, and \<open>*outlen\<close> where it is set.\<close>

definition my_aes_encrypt ::
  "allocator \<Rightarrow> bytes \<Rightarrow> bytes \<Rightarrow> bytes \<Rightarrow> nat \<Rightarrow> (int \<times> bytes \<times> nat option) option" where
  "my_aes_encrypt mal enckey encbuf decbuf inlen = do {
     k \<leftarrow> cstr enckey;
     key \<leftarrow> ablit (replicate 34 0) 0 k;
     let nBei = inlen div 16 + 1;
     let nTotal = nBei * 16;
     case mal (of_nat nTotal) of
       None \<Rightarrow> Some (-1, decbuf, None)
     | Some enc_s \<Rightarrow> do {
         let nNumber = (if inlen mod 16 > 0 then nTotal - inlen else 16);
         enc_s \<leftarrow> ablit enc_s 0 (replicate nTotal (of_nat nNumber));
         plain \<leftarrow> aslice encbuf 0 inlen;
         enc_s \<leftarrow> ablit enc_s 0 plain;
         (_, ctx) \<leftarrow> dm_mbedtls_aes_setkey_enc aes_gen_tables dm_mbedtls_aes_init key 256;
         (_, _, decbuf) \<leftarrow> dm_mbedtls_aes_crypt_cbc aes_gen_tables ctx 1 nTotal (replicate 16 0) enc_s decbuf;
         Some (0, decbuf, Some nTotal) } }"

definition my_sha256 :: "sha_process \<Rightarrow> bytes \<Rightarrow> nat \<Rightarrow> bytes \<Rightarrow> bytes option" where
  "my_sha256 process src srclen resultT = do {
     (_, out) \<leftarrow> dm_mbedtls_sha256_ret process src (of_nat srclen) 0;
     ablit resultT 0 out }"

abbreviation EP_MEM_SIZE :: nat where "EP_MEM_SIZE \<equiv> 264"

text \<open>\<open>cissys_malloc\<close> with \<open>cis_memset(..., 0, ...)\<close>; \<open>Fail\<close> for no memory.\<close>

definition ep_malloc :: "allocator \<Rightarrow> nat \<Rightarrow> bytes status option" where
  "ep_malloc mal n =
     (case mal (of_nat n) of
        None \<Rightarrow> Some Fail
      | Some b \<Rightarrow> map_option Done (ablit b 0 (replicate n 0)))"

definition default_passwd :: bytes where
  "default_passwd = replicate 32 0x30"

definition passwd_of :: "bytes \<Rightarrow> bytes option" where
  "passwd_of pwd = map_option (\<lambda>p. if p = [] then default_passwd @ [0] else pwd) (cstr pwd)"

text \<open>The part that the three functions share: from the password to \<open>base64tmp\<close>.\<close>

definition ep_encode :: "sha_process \<Rightarrow> allocator \<Rightarrow> bytes \<Rightarrow> bytes \<Rightarrow> bytes \<Rightarrow> bytes status option" where
  "ep_encode process mal pwd szEpname ciphertext = do {
     passwd \<leftarrow> passwd_of pwd;
     key \<leftarrow> my_sha256 process passwd (utils_strlen passwd) (replicate 64 0);
     plaintext \<leftarrow> cstr szEpname;
     (_, ciphertext, outlen) \<leftarrow> my_aes_encrypt mal key szEpname ciphertext (length plaintext);
     base64tmp \<leftarrow> ep_malloc mal EP_MEM_SIZE;
     case base64tmp of
       Fail \<Rightarrow> Some Fail
     | Done base64tmp \<Rightarrow> do {
         ciphertext_len \<leftarrow> outlen;
         (_, encData, encDataLen) \<leftarrow> j_base64_encode mal ciphertext (of_nat ciphertext_len);
         encData \<leftarrow> aslice encData 0 (unat encDataLen);
         map_option Done (ablit base64tmp 0 encData) } }"

text \<open>The part behind it: the text in \<open>epnametmp\<close>, copied into a block of its size.\<close>

definition ep_result :: "allocator \<Rightarrow> bytes \<Rightarrow> bytes status option" where
  "ep_result mal text = do {
     epnametmp \<leftarrow> ep_malloc mal (EP_MEM_SIZE * 4);
     case epnametmp of
       Fail \<Rightarrow> Some Fail
     | Done epnametmp \<Rightarrow> do {
         epnametmp \<leftarrow> ablit epnametmp 0 text;
         name \<leftarrow> cstr epnametmp;
         data \<leftarrow> ep_malloc mal (length name + 1);
         case data of
           Fail \<Rightarrow> Some Fail
         | Done data \<Rightarrow> map_option Done (ablit data 0 name) } }"

text \<open>\<open>snprintf\<close>: at most \<open>n - 1\<close> characters and the terminating zero.\<close>

definition printed :: "nat \<Rightarrow> bytes \<Rightarrow> bytes" where
  "printed n text = take (n - 1) text @ [0]"

definition or_stars :: "bytes \<Rightarrow> bytes option" where
  "or_stars field = map_option (\<lambda>f. if f = [] then ascii ''****'' else f) (cstr field)"

text \<open>The text \<open>L@#@name@#@key@#@imei@#@version\<close>.\<close>

definition ep_text :: "dm_options \<Rightarrow> bytes \<Rightarrow> bytes option" where
  "ep_text g_opt base64tmp = do {
     b \<leftarrow> cstr base64tmp;
     key \<leftarrow> cstr (szAppKey g_opt);
     imei \<leftarrow> cstr (szCMEI_IMEI g_opt);
     dmv \<leftarrow> cstr (szDMv g_opt);
     Some (ascii ''L@#@'' @ b @ ascii ''@#@'' @ key @ ascii ''@#@'' @ imei @ ascii ''@#@'' @ dmv) }"

definition genDmRegEndpointName :: "sha_process \<Rightarrow> allocator \<Rightarrow> dm_options \<Rightarrow> bytes status option" where
  "genDmRegEndpointName process mal g_opt = do {
     szEpname \<leftarrow> ep_malloc mal EP_MEM_SIZE;
     ciphertext \<leftarrow> ep_malloc mal EP_MEM_SIZE;
     case (szEpname, ciphertext) of
       (Done szEpname, Done ciphertext) \<Rightarrow> do {
         imei \<leftarrow> or_stars (szCMEI_IMEI g_opt);
         imei2 \<leftarrow> or_stars (szCMEI_IMEI2 g_opt);
         imsi \<leftarrow> or_stars (szIMSI g_opt);
         dmv \<leftarrow> or_stars (szDMv g_opt);
         szEpname \<leftarrow> ablit szEpname 0 (imei @ [0x2D] @ imei2 @ [0x2D] @ imsi @ [0x2D] @ dmv @ [0]);
         base64tmp \<leftarrow> ep_encode process mal (szPwd g_opt) szEpname ciphertext;
         case base64tmp of
           Fail \<Rightarrow> Some Fail
         | Done base64tmp \<Rightarrow> do {
             t \<leftarrow> ep_text g_opt base64tmp;
             ep_result mal (printed (EP_MEM_SIZE * 4) t) } }
     | _ \<Rightarrow> Some Fail }"

definition genDmUpdateEndpointName :: "sha_process \<Rightarrow> allocator \<Rightarrow> dm_options \<Rightarrow> bytes status option" where
  "genDmUpdateEndpointName process mal g_opt = do {
     szEpname \<leftarrow> ep_malloc mal EP_MEM_SIZE;
     ciphertext \<leftarrow> ep_malloc mal EP_MEM_SIZE;
     case (szEpname, ciphertext) of
       (Done szEpname, Done ciphertext) \<Rightarrow> do {
         imei \<leftarrow> or_stars (szCMEI_IMEI g_opt);
         imei2 \<leftarrow> or_stars (szCMEI_IMEI2 g_opt);
         imsi \<leftarrow> or_stars (szIMSI g_opt);
         szEpname \<leftarrow> ablit szEpname 0
           (printed EP_MEM_SIZE (imei @ [0x2D] @ imei2 @ [0x2D] @ imsi @ [0x2D] @ ascii ''****''));
         base64tmp \<leftarrow> ep_encode process mal (szPwd g_opt) szEpname ciphertext;
         case base64tmp of
           Fail \<Rightarrow> Some Fail
         | Done base64tmp \<Rightarrow> do {
             t \<leftarrow> ep_text g_opt base64tmp;
             ep_result mal (t @ [0]) } }
     | _ \<Rightarrow> Some Fail }"

definition dm_read_info_encode :: "sha_process \<Rightarrow> allocator \<Rightarrow> bytes \<Rightarrow> bytes \<Rightarrow> bytes status option" where
  "dm_read_info_encode process mal szin pwd = do {
     szEpname \<leftarrow> ep_malloc mal EP_MEM_SIZE;
     ciphertext \<leftarrow> ep_malloc mal EP_MEM_SIZE;
     case (szEpname, ciphertext) of
       (Done szEpname, Done ciphertext) \<Rightarrow> do {
         s \<leftarrow> cstr szin;
         szEpname \<leftarrow> ablit szEpname 0 (s @ [0]);
         base64tmp \<leftarrow> ep_encode process mal pwd szEpname ciphertext;
         case base64tmp of
           Fail \<Rightarrow> Some Fail
         | Done base64tmp \<Rightarrow> do {
             t \<leftarrow> cstr base64tmp;
             ep_result mal (printed (EP_MEM_SIZE * 4) t) } }
     | _ \<Rightarrow> Some Fail }"

text \<open>The query of an update; \<open>priv\<close> is \<open>DMprivData\<close>, the name made by \<open>genDmUpdateEndpointName\<close>.\<close>

definition prv_getDmUpdateQueryLength :: "bytes \<Rightarrow> nat" where
  "prv_getDmUpdateQueryLength priv = length (ascii ''epi='') + utils_strlen priv + 1"

definition prv_getDmUpdateQuery :: "bytes \<Rightarrow> bytes \<Rightarrow> nat \<Rightarrow> (nat \<times> bytes) option" where
  "prv_getDmUpdateQuery priv buffer len = do {
     (index, buffer) \<leftarrow> utils_stringCopy buffer len (ascii ''epi='');
     if index < 0 then Some (0, buffer)
     else do {
       (res, tail) \<leftarrow> utils_stringCopy (drop (nat index) buffer) (len - nat index) priv;
       let buffer = take (nat index) buffer @ tail;
       if res < 0 then Some (0, buffer)
       else do {
         let index = nat (index + res);
         if index < len
         then do {
           buffer \<leftarrow> astore buffer index 0;
           Some (index + 1, buffer) }
         else Some (0, buffer) } } }"

section \<open>What a server reads\<close>

text \<open>The key that the client really uses: the digest up to its first zero byte.\<close>

definition dm_key :: "bytes \<Rightarrow> bytes" where
  "dm_key p = take 32 (takeWhile (\<lambda>c. c \<noteq> 0) (sha_digest sha_compress 0 (if p = [] then default_passwd else p)) @ replicate 32 0)"

text \<open>Base64, the cipher and the padding undone, with the password \<open>p\<close>.\<close>

definition server_decode :: "allocator \<Rightarrow> bytes \<Rightarrow> bytes \<Rightarrow> bytes option" where
  "server_decode mal p b = do {
     r \<leftarrow> j_base64_decode mal b (of_nat (length b));
     (case r of
        Fail \<Rightarrow> None
      | Done (_, data, n) \<Rightarrow> do {
          (_, dec) \<leftarrow> dm_mbedtls_aes_setkey_dec aes_gen_tables dm_mbedtls_aes_init (dm_key p) 256;
          (_, _, plain) \<leftarrow> dm_mbedtls_aes_crypt_cbc aes_gen_tables dec 0 (unat n) (replicate 16 0) data (replicate (unat n) 0);
          Some (take (length plain - unat (last plain)) plain) }) }"

lemma cstr_append: "0 \<notin> set t \<Longrightarrow> cstr (t @ 0 # rest) = Some t"
  by (auto simp: cstr_def takeWhile_append)

lemma cstr_split:
  assumes "cstr a = Some t"
  obtains rest where "a = t @ 0 # rest" "0 \<notin> set t"
proof -
  have z: "0 \<in> set a" and t: "t = takeWhile (\<lambda>c. c \<noteq> 0) a"
    using assms by (auto simp: cstr_def split: if_splits)
  obtain xs ys where a: "a = xs @ 0 # ys" "0 \<notin> set xs"
    using split_list_first [OF z] by blast
  then have "t = xs" unfolding t by (auto simp: takeWhile_append)
  with a show ?thesis using that by blast
qed

lemma cstr_zeros: "0 \<notin> set t \<Longrightarrow> 0 < k \<Longrightarrow> cstr (t @ replicate k 0) = Some t"
  by (cases k) (simp_all add: cstr_append)

lemma takeWhile_zeros: "takeWhile (\<lambda>c. c \<noteq> 0) (t @ replicate k 0) = takeWhile (\<lambda>c. c \<noteq> (0 :: u8)) t"
  by (induction t) (simp_all add: takeWhile_replicate)

lemma ep_malloc_ok: "alloc_ok mal \<Longrightarrow> n < 2 ^ 31 \<Longrightarrow> ep_malloc mal n = Some (Done (replicate n 0))"
  using alloc_ok_def [of mal] by (auto simp: ep_malloc_def dest!: spec [of _ "of_nat n"])

lemma length_sha_compress: "length hs = 8 \<Longrightarrow> length (sha_compress hs b) = 8"
proof -
  have "length (fold (\<lambda>t. sha_round (schedule (message_word b) t) (sha256_K ! t)) ts hs) = 8" if "length hs = 8" for ts hs
    using that by (induction ts arbitrary: hs) simp_all
  then show "length hs = 8 \<Longrightarrow> ?thesis" by (simp add: sha_compress_def)
qed

lemma length_digest: "length (sha_digest sha_compress 0 m) = 32"
proof -
  have "length (fold (\<lambda>b hs. sha_compress hs b) bs hs) = 8" if "length hs = 8" for bs hs
    using that by (induction bs arbitrary: hs) (simp_all add: length_sha_compress)
  moreover have "length (initial_state 0) = 8" by (simp add: initial_state_def)
  ultimately have "length (fold (\<lambda>b hs. sha_compress hs b) (sha_blocks (sha_pad m)) (initial_state 0)) = 8" by blast
  moreover have "length (concat (map be32 ws)) = 4 * length ws" for ws
    by (induction ws) (simp_all add: be32_def)
  ultimately show ?thesis by (simp add: sha_digest_def)
qed

lemma setkey_enc_prefix:
  assumes "keybits \<in> {128, 192, 256}" and "length key = keybits div 8"
  shows "dm_mbedtls_aes_setkey_enc T ctx (key @ post) keybits = dm_mbedtls_aes_setkey_enc T ctx key keybits"
proof -
  have "map (\<lambda>i. GET_UINT32_LE (key @ post) (4 * i)) [0..<keybits div 32] = map (\<lambda>i. GET_UINT32_LE key (4 * i)) [0..<keybits div 32]"
    using assms by (auto simp: GET_join nth_append)
  then show ?thesis by (simp only: dm_mbedtls_aes_setkey_enc_def)
qed

text \<open>The password becomes the key array.\<close>

lemma password_key:
  assumes "sha_process_ok process sha_compress" and "cstr pwd = Some p" and "length p < 2 ^ 32"
  obtains passwd k where "passwd_of pwd = Some passwd"
    "my_sha256 process passwd (utils_strlen passwd) (replicate 64 0) = Some k"
    "cstr k = Some (takeWhile (\<lambda>c. c \<noteq> 0) (sha_digest sha_compress 0 (if p = [] then default_passwd else p)))"
proof -
  define q where "q = (if p = [] then default_passwd else p)"
  obtain rest where rest: "pwd = p @ 0 # rest" "0 \<notin> set p" by (rule cstr_split [OF assms(2)])
  have q: "0 \<notin> set q" "length q < 2 ^ 32" using rest(2) assms(3) by (simp_all add: q_def default_passwd_def)
  have "\<exists>post. passwd_of pwd = Some (q @ 0 # post)" using assms(2) rest(1) by (auto simp: passwd_of_def q_def)
  then obtain post where passwd: "passwd_of pwd = Some (q @ 0 # post)" by blast
  let ?d = "sha_digest sha_compress 0 q"
  have "utils_strlen (q @ 0 # post) = length q" using q(1) by (auto simp: utils_strlen_def takeWhile_append)
  then have "my_sha256 process (q @ 0 # post) (utils_strlen (q @ 0 # post)) (replicate 64 0) = Some (?d @ replicate 32 0)"
    using sha256_ret_digest [OF assms(1) q(2)] by (simp add: my_sha256_def length_digest)
  moreover have "cstr (?d @ replicate 32 0) = Some (takeWhile (\<lambda>c. c \<noteq> 0) ?d)"
    by (simp add: cstr_def takeWhile_zeros)
  ultimately show ?thesis using passwd that unfolding q_def by blast
qed

lemma dm_key_array:
  fixes k p
  defines "k \<equiv> takeWhile (\<lambda>c. c \<noteq> 0) (sha_digest sha_compress 0 (if p = [] then default_passwd else p))"
  shows "length k \<le> 32" "k @ replicate (34 - length k) 0 = dm_key p @ [0, 0]" "length (dm_key p) = 32"
proof -
  show len: "length k \<le> 32"
    using length_takeWhile_le [of "\<lambda>c. c \<noteq> 0" "sha_digest sha_compress 0 (if p = [] then default_passwd else p)"]
    by (simp add: k_def length_digest)
  have key: "dm_key p = k @ replicate (32 - length k) 0"
    using len by (simp add: dm_key_def k_def)
  then show "length (dm_key p) = 32" using len by simp
  have "34 - length k = (32 - length k) + 2" using len by simp
  then have "replicate (34 - length k) 0 = replicate (32 - length k) 0 @ [0 :: u8, 0]"
    by (simp only: replicate_add) (simp add: numeral_2_eq_2)
  then show "k @ replicate (34 - length k) 0 = dm_key p @ [0, 0]" by (simp add: key)
qed

abbreviation padded :: "bytes \<Rightarrow> bytes" where
  "padded t \<equiv> t @ replicate (16 - length t mod 16) (of_nat (16 - length t mod 16))"

lemma length_padded: "length (padded t) = (length t div 16 + 1) * 16"
  by (simp only: length_append length_replicate) presburger

lemma encrypt_padded:
  assumes "alloc_ok mal" and "cstr key = Some (takeWhile (\<lambda>c. c \<noteq> 0) (sha_digest sha_compress 0 (if p = [] then default_passwd else p)))"
    and "length (padded t) \<le> length out" and "length t < 2 ^ 30"
  obtains c dec where "my_aes_encrypt mal key (t @ post) out (length t) =
      Some (0, c @ drop (length c) out, Some (length c))" "length c = length (padded t)"
    "dm_mbedtls_aes_setkey_dec aes_gen_tables dm_mbedtls_aes_init (dm_key p) 256 = Some (0, dec)"
    "\<And>suf out. length c \<le> length out \<Longrightarrow> \<exists>iv.
      dm_mbedtls_aes_crypt_cbc aes_gen_tables dec 0 (length c) (replicate 16 0) (c @ suf) out = Some (0, iv, padded t @ drop (length c) out)"
proof -
  let ?n = "length t"
  let ?k = "takeWhile (\<lambda>c. c \<noteq> 0) (sha_digest sha_compress 0 (if p = [] then default_passwd else p))"
  let ?total = "(?n div 16 + 1) * 16"
  have init: "length (aes_buf dm_mbedtls_aes_init) = 68" by (simp add: dm_mbedtls_aes_init_def)
  have bits: "256 \<in> {128, 192, 256 :: nat}" "length (dm_key p) = 256 div 8" by (simp_all add: dm_key_array)
  obtain enc where enc: "dm_mbedtls_aes_setkey_enc aes dm_mbedtls_aes_init (dm_key p) 256 = Some (0, enc)" "rounds_ok enc"
    by (rule setkey_enc_returns [OF bits init])
  obtain dec where dec: "dm_mbedtls_aes_setkey_dec aes dm_mbedtls_aes_init (dm_key p) 256 = Some (0, dec)" "reversed_schedule enc dec"
    by (rule setkey_dec_reverses [OF enc init])
  have enc': "dm_mbedtls_aes_setkey_enc aes dm_mbedtls_aes_init (dm_key p @ [0, 0]) 256 = Some (0, enc)"
    using enc(1) by (simp only: setkey_enc_prefix [OF bits])
  have key: "ablit (replicate 34 0) 0 ?k = Some (dm_key p @ [0, 0])"
    using dm_key_array(1,2) [of p] by simp
  have len: "length (padded t) = ?total" by (rule length_padded)
  have iv: "length (replicate 16 (0 :: u8)) = 16" by simp
  have blocks: "length (padded t) mod 16 = 0" unfolding len by simp
  obtain iv1 c where c: "dm_mbedtls_aes_crypt_cbc aes enc 1 (length (padded t)) (replicate 16 0) (padded t) out =
      Some (0, iv1, c @ drop (length (padded t)) out)" "length c = length (padded t)"
    and undo: "\<And>suf out. length (padded t) \<le> length out \<Longrightarrow> \<exists>iv2. dm_mbedtls_aes_crypt_cbc aes dec 0 (length (padded t))
      (replicate 16 0) (c @ suf) out = Some (0, iv2, padded t @ drop (length (padded t)) out)"
    by (rule cbc_back [OF dec(2) iv blocks assms(3)]) (rule that)
  have "?total < 2 ^ 31" using assms(4) div_mult_mod_eq [of ?n 16] by simp
  then obtain s where s: "mal (of_nat ?total) = Some s" "length s = ?total"
    using assms(1) unfolding alloc_ok_def by (auto dest: spec [of _ "of_nat ?total"] simp del: of_nat_mult of_nat_add)
  have number: "?total - ?n = 16 - ?n mod 16" by presburger
  then have count: "(if ?n mod 16 > 0 then ?total - ?n else 16) = 16 - ?n mod 16" by simp
  have fits: "?n \<le> ?total" using len by simp
  have "my_aes_encrypt mal key (t @ post) out ?n = Some (0, c @ drop (length c) out, Some (length c))"
    unfolding my_aes_encrypt_def Let_def count using assms(2) key s c enc' fits number len
    by (simp del: mult_Suc_right add: drop_append)
  then show ?thesis using that c(2) dec(1) undo by metis
qed

text \<open>The shared part: the Base64 text of the cipher in a block of 264 bytes.\<close>

lemma ep_encode_text:
  assumes "alloc_ok mal" and "sha_process_ok process sha_compress" and "cstr pwd = Some p" and "length p < 2 ^ 32"
    and "0 \<notin> set t" and "length t < 256"
  obtains c dec where "ep_encode process mal pwd (t @ 0 # rest) (replicate 264 0) =
      map_option Done (ablit (replicate 264 0) 0 (base64 c))" "length c = length (padded t)"
    "dm_mbedtls_aes_setkey_dec aes_gen_tables dm_mbedtls_aes_init (dm_key p) 256 = Some (0, dec)"
    "\<And>suf out. length c \<le> length out \<Longrightarrow> \<exists>iv.
      dm_mbedtls_aes_crypt_cbc aes_gen_tables dec 0 (length c) (replicate 16 0) (c @ suf) out = Some (0, iv, padded t @ drop (length c) out)"
proof -
  obtain passwd k where key: "passwd_of pwd = Some passwd"
      "my_sha256 process passwd (utils_strlen passwd) (replicate 64 0) = Some k"
      "cstr k = Some (takeWhile (\<lambda>c. c \<noteq> 0) (sha_digest sha_compress 0 (if p = [] then default_passwd else p)))"
    by (rule password_key [OF assms(2-4)])
  have fits: "length (padded t) \<le> 256"
    using assms(6) by (simp only: length_padded) presburger
  then have "length (padded t) \<le> length (replicate 264 (0 :: u8))" "length t < 2 ^ 30" using assms(6) by simp_all
  from encrypt_padded [OF assms(1) key(3) this, of "0 # rest"] obtain c dec where
    enc: "my_aes_encrypt mal k (t @ 0 # rest) (replicate 264 0) (length t) =
        Some (0, c @ drop (length c) (replicate 264 0), Some (length c))" "length c = length (padded t)"
    and dec: "dm_mbedtls_aes_setkey_dec aes_gen_tables dm_mbedtls_aes_init (dm_key p) 256 = Some (0, dec)"
      "\<And>suf out. length c \<le> length out \<Longrightarrow> \<exists>iv.
        dm_mbedtls_aes_crypt_cbc aes_gen_tables dec 0 (length c) (replicate 16 0) (c @ suf) out = Some (0, iv, padded t @ drop (length c) out)"
    by blast
  have small: "length c < 2 ^ 30" using enc(2) fits by simp
  have "length (base64 c) < 2 ^ 32" using enc(2) fits by (simp add: base64_quanta length_quanta)
  then have "unat (of_nat (length (base64 c)) :: u32) = length (base64 c)" by simp
  then have "ep_encode process mal pwd (t @ 0 # rest) (replicate 264 0) = map_option Done (ablit (replicate 264 0) 0 (base64 c))"
    using key(1,2) enc(1) cstr_append [OF assms(5)] ep_malloc_ok [OF assms(1)] encode_base64 [OF assms(1) small]
    by (simp add: ep_encode_def)
  with enc(2) dec that show ?thesis by blast
qed

lemma ep_encode_read:
  assumes "alloc_ok mal" and "sha_process_ok process sha_compress" and "cstr pwd = Some p" and "length p < 2 ^ 32"
    and "0 \<notin> set t" and "length t < 192"
  obtains b where "ep_encode process mal pwd (t @ 0 # rest) (replicate 264 0) = Some (Done (b @ replicate (264 - length b) 0))"
    "0 \<notin> set b" "length b \<le> 256" "server_decode mal p b = Some t"
proof -
  have "length t < 256" using assms(6) by simp
  from ep_encode_text [OF assms(1-5) this, of rest] obtain c dec where
    enc: "ep_encode process mal pwd (t @ 0 # rest) (replicate 264 0) = map_option Done (ablit (replicate 264 0) 0 (base64 c))"
      "length c = length (padded t)"
    and dec: "dm_mbedtls_aes_setkey_dec aes_gen_tables dm_mbedtls_aes_init (dm_key p) 256 = Some (0, dec)"
      "\<And>suf out. length c \<le> length out \<Longrightarrow> \<exists>iv.
        dm_mbedtls_aes_crypt_cbc aes_gen_tables dec 0 (length c) (replicate 16 0) (c @ suf) out = Some (0, iv, padded t @ drop (length c) out)"
    by blast
  have "length (padded t) \<le> 192" "0 < length (padded t)" using assms(6) by (simp_all only: length_padded) presburger+
  then have c: "length c \<le> 192" "c \<noteq> []" "length c < 2 ^ 30" using enc(2) by auto
  have b: "0 \<notin> set (base64 c)" "length (base64 c) \<le> 256"
    using c(1) quanta_nonzero by (simp_all add: base64_quanta length_quanta)
  obtain z where d: "j_base64_decode mal (base64 c) (of_nat (length (base64 c))) =
      Some (Done (of_nat (length c) + 4, c @ 0 # z, of_nat (length c)))"
    using decode_base64 [OF assms(1) c(2,3), of "[]"] by auto
  have n: "unat (of_nat (length c) :: u32) = length c" using c(1) by simp
  obtain iv where plain: "dm_mbedtls_aes_crypt_cbc aes_gen_tables dec 0 (length c) (replicate 16 0) (c @ 0 # z) (replicate (length c) 0) =
      Some (0, iv, padded t)"
    using dec(2) [of "replicate (length c) 0" "0 # z"] by auto
  define k where "k = 16 - length t mod 16"
  have "0 < k" "k \<le> 16" by (simp_all add: k_def)
  then have "last (t @ replicate k (of_nat k)) = (of_nat k :: u8)" "unat (of_nat k :: u8) = k"
    by (simp_all add: last_append)
  then have "server_decode mal p (base64 c) = Some t"
    using d dec(1) n plain unfolding k_def [symmetric] by (simp add: server_decode_def)
  then show ?thesis using that [of "base64 c"] enc(1) b by simp
qed

lemma ep_encode_overflow:
  assumes "alloc_ok mal" and "sha_process_ok process sha_compress" and "cstr pwd = Some p" and "length p < 2 ^ 32"
    and "0 \<notin> set t" and "192 \<le> length t" and "length t < 256"
  shows "ep_encode process mal pwd (t @ 0 # rest) (replicate 264 0) = None"
proof -
  have "208 \<le> length (padded t)" using assms(6) by (simp only: length_padded) presburger
  moreover obtain c where
    "ep_encode process mal pwd (t @ 0 # rest) (replicate 264 0) = map_option Done (ablit (replicate 264 0) 0 (base64 c))"
      "length c = length (padded t)"
    by (rule ep_encode_text [OF assms(1-5,7), of rest])
  ultimately have "ep_encode process mal pwd (t @ 0 # rest) (replicate 264 0) = map_option Done (ablit (replicate 264 0) 0 (base64 c))"
    "264 < length (base64 c)" by (simp_all only: base64_quanta length_quanta) presburger
  then show ?thesis by (simp add: ablit_def)
qed

lemma ep_result_text:
  assumes "alloc_ok mal" and "0 \<notin> set s" and "length s < 1056"
  shows "ep_result mal (s @ [0]) = Some (Done (s @ [0]))"
proof -
  have "drop (length s) (replicate (Suc (length s)) 0) = [0 :: u8]" by (simp only: drop_replicate) simp
  then show ?thesis using assms by (simp add: ep_result_def ep_malloc_ok cstr_append)
qed

section \<open>Reported values and names\<close>

lemma value_read_back_or_overflow:
  assumes "alloc_ok mal" and "sha_process_ok process sha_compress"
    and "cstr szin = Some t" and "length t < 256" and "cstr pwd = Some p" and "length p < 2 ^ 32"
  shows "if length t < 192
    then \<exists>b. dm_read_info_encode process mal szin pwd = Some (Done (b @ [0])) \<and> 0 \<notin> set b \<and> length b \<le> 256 \<and> server_decode mal p b = Some t
    else dm_read_info_encode process mal szin pwd = None"
proof -
  have t: "0 \<notin> set t" by (rule cstr_split [OF assms(3)])
  have blit: "ablit (replicate 264 0) 0 (t @ [0]) = Some (t @ 0 # replicate (263 - length t) 0)"
    using assms(4) by simp
  note block = ep_malloc_ok [OF assms(1)]
  show ?thesis
  proof (cases "length t < 192")
    case True
    obtain b where b: "ep_encode process mal pwd (t @ 0 # replicate (263 - length t) 0) (replicate 264 0) =
        Some (Done (b @ replicate (264 - length b) 0))" "0 \<notin> set b" "length b \<le> 256" "server_decode mal p b = Some t"
      by (rule ep_encode_read [OF assms(1,2,5,6) t True])
    have "cstr (b @ replicate (264 - length b) 0) = Some b" using b(2,3) by (simp add: cstr_zeros)
    moreover have "printed (EP_MEM_SIZE * 4) b = b @ [0]" using b(3) by (simp add: printed_def)
    moreover have "ep_result mal (b @ [0]) = Some (Done (b @ [0]))" using ep_result_text [OF assms(1) b(2)] b(3) by simp
    ultimately have "dm_read_info_encode process mal szin pwd = Some (Done (b @ [0]))"
      using assms(3) blit block b(1) by (simp add: dm_read_info_encode_def)
    with True b show ?thesis by auto
  next
    case False
    then have "ep_encode process mal pwd (t @ 0 # replicate (263 - length t) 0) (replicate 264 0) = None"
      using ep_encode_overflow [OF assms(1,2,5,6) t _ assms(4)] by simp
    with False show ?thesis using assms(3) blit block by (simp add: dm_read_info_encode_def)
  qed
qed

lemma value_read_back:
  assumes "alloc_ok mal" and "sha_process_ok process sha_compress"
    and "cstr szin = Some t" and "length t < 192" and "cstr pwd = Some p" and "length p < 2 ^ 32"
  obtains b where "dm_read_info_encode process mal szin pwd = Some (Done (b @ [0]))" "0 \<notin> set b" "length b \<le> 256"
    "server_decode mal p b = Some t"
  using value_read_back_or_overflow [OF assms(1-3) _ assms(5,6)] assms(4) by auto

text \<open>C19. Reported values: a value of the device-management object shorter than 192 characters is encoded into a
  text from which a server that knows the password gets the value back; a longer one overflows the block of
  264 bytes for the Base64 text.\<close>
theorem dm_value_delivered:
  assumes "alloc_ok mal" and "sha_process_ok process sha_compress"
    and "cstr szin = Some t" and "length t < 256" and "cstr pwd = Some p" and "length p < 2 ^ 32"
  shows "if length t < 192
    then \<exists>b. dm_read_info_encode process mal szin pwd = Some (Done (b @ [0])) \<and> 0 \<notin> set b \<and> server_decode mal p b = Some t
    else dm_read_info_encode process mal szin pwd = None"
  using value_read_back_or_overflow [OF assms] by (auto split: if_splits)

text \<open>The process function of the standard stands for the library's.\<close>

lemma standard_process_ok: "sha_process_ok standard_process sha_compress"
  by (simp add: sha_process_ok_def standard_process_def)

theorem dm_value_delivered_witness:
  "(\<exists>b. dm_read_info_encode standard_process calloc [0x34, 0x47, 0x42, 0] [0x70, 0x77, 0] = Some (Done (b @ [0])) \<and> 0 \<notin> set b \<and>
      server_decode calloc [0x70, 0x77] b = Some [0x34, 0x47, 0x42])"
  using dm_value_delivered [OF alloc_ok_calloc standard_process_ok, of "[0x34, 0x47, 0x42, 0]" "[0x34, 0x47, 0x42]" "[0x70, 0x77, 0]" "[0x70, 0x77]"]
  by (simp add: cstr_def)

definition stars :: "bytes \<Rightarrow> bytes" where
  "stars f = (if f = [] then ascii ''****'' else f)"

lemma or_stars_text: "cstr a = Some f \<Longrightarrow> or_stars a = Some (stars f)"
  by (simp add: or_stars_def stars_def)

lemma stars_no_zero: "0 \<notin> set f \<Longrightarrow> 0 \<notin> set (stars f)"
  by (simp add: stars_def ascii_def of_char_def)

lemma length_stars: "length f \<le> n \<Longrightarrow> 4 \<le> n \<Longrightarrow> length (stars f) \<le> n"
  by (simp add: stars_def ascii_def)

lemma dmSdkInit_fields:
  assumes "dmSdkInit imei imsi g0 = Some g"
  shows "cstr (szCMEI_IMEI g) = Some (takeWhile (\<lambda>c. c \<noteq> 0) (take 30 imei))"
    "cstr (szIMSI g) = Some (takeWhile (\<lambda>c. c \<noteq> 0) (take 30 imsi))"
    "szDMv g = szDMv g0" "szAppKey g = szAppKey g0" "szPwd g = szPwd g0" "szCMEI_IMEI2 g = szCMEI_IMEI2 g0"
proof -
  have "cstr (take 30 (a :: bytes) @ replicate 34 0) = Some (takeWhile (\<lambda>c. c \<noteq> 0) (take 30 a))" for a
    by (simp only: cstr_def takeWhile_zeros) simp
  then show "cstr (szCMEI_IMEI g) = Some (takeWhile (\<lambda>c. c \<noteq> 0) (take 30 imei))"
    "cstr (szIMSI g) = Some (takeWhile (\<lambda>c. c \<noteq> 0) (take 30 imsi))"
    "szDMv g = szDMv g0" "szAppKey g = szAppKey g0" "szPwd g = szPwd g0" "szCMEI_IMEI2 g = szCMEI_IMEI2 g0"
    using assms by (auto simp: dmSdkInit_def aslice_def split: if_splits)
qed

lemma identity_text:
  "length (takeWhile (\<lambda>c. c \<noteq> 0) (take 30 (a :: bytes))) \<le> 30" "0 \<notin> set (takeWhile (\<lambda>c. c \<noteq> 0) (take 30 a))"
proof -
  have "length (take 30 a) \<le> 30" by simp
  then show "length (takeWhile (\<lambda>c. c \<noteq> 0) (take 30 a)) \<le> 30" by (rule order_trans [OF length_takeWhile_le])
  show "0 \<notin> set (takeWhile (\<lambda>c. c \<noteq> 0) (take 30 a))" by (auto dest: set_takeWhileD)
qed

lemma cstr_short:
  assumes "cstr a = Some f" shows "length f < length a" "0 \<notin> set f"
  by (rule cstr_split [OF assms]; simp)+

text \<open>C14. Names: after \<open>dmSdkInit\<close>, with options that are texts in arrays of their sizes, both names are made without
  leaving a buffer; each has the five fields, and from its second field a server that knows the password
  gets back the identities of the device, stars for what is unknown.\<close>
theorem dm_names_delivered:
  assumes "alloc_ok mal" and "sha_process_ok process sha_compress"
    and "dmSdkInit imei imsi g0 = Some g" and "i = takeWhile (\<lambda>c. c \<noteq> 0) (take 30 imei)" and "s = takeWhile (\<lambda>c. c \<noteq> 0) (take 30 imsi)"
    and "cstr (szCMEI_IMEI2 g0) = Some i2" and "length (szCMEI_IMEI2 g0) = 64"
    and "cstr (szDMv g0) = Some v" and "length (szDMv g0) = 16"
    and "cstr (szAppKey g0) = Some k" and "length (szAppKey g0) = 64"
    and "cstr (szPwd g0) = Some p" and "length (szPwd g0) = 64"
  shows "\<exists>b c.
    genDmRegEndpointName process mal g =
      Some (Done (ascii ''L@#@'' @ b @ ascii ''@#@'' @ k @ ascii ''@#@'' @ i @ ascii ''@#@'' @ v @ [0])) \<and>
    server_decode mal p b = Some (stars i @ [0x2D] @ stars i2 @ [0x2D] @ stars s @ [0x2D] @ stars v) \<and>
    genDmUpdateEndpointName process mal g =
      Some (Done (ascii ''L@#@'' @ c @ ascii ''@#@'' @ k @ ascii ''@#@'' @ i @ ascii ''@#@'' @ v @ [0])) \<and>
    server_decode mal p c = Some (stars i @ [0x2D] @ stars i2 @ [0x2D] @ stars s @ [0x2D] @ ascii ''****'')"
proof -
  note init = dmSdkInit_fields [OF assms(3)]
  note i = init(1) [folded assms(4)] and s = init(2) [folded assms(5)]
  note texts = cstr_short [OF assms(6)] cstr_short [OF assms(8)] cstr_short [OF assms(10)] cstr_short [OF assms(12)]
  have ids: "length i \<le> 30" "0 \<notin> set i" "length s \<le> 30" "0 \<notin> set s"
    unfolding assms(4,5) by (simp_all add: identity_text)
  let ?head = "stars i @ [0x2D] @ stars i2 @ [0x2D] @ stars s @ [0x2D]"
  have head: "0 \<notin> set ?head" "length ?head \<le> 126"
    using ids texts assms(7) length_stars [of i 30] length_stars [of i2 63] length_stars [of s 30] by (auto dest: stars_no_zero)
  have v: "0 \<notin> set (stars v)" "length (stars v) \<le> 15"
    using texts assms(9) length_stars [of v 15] by (auto dest: stars_no_zero)
  have four: "0 \<notin> set (ascii ''****'')" "length (ascii ''****'') = 4" by (simp_all add: ascii_def of_char_def)
  have pwd: "cstr (szPwd g) = Some p" "length p < 2 ^ 32" using init assms(12,13) texts by simp_all
  have full: "0 \<notin> set (?head @ stars v)" "length (?head @ stars v) < 192" using head v by simp_all
  have short: "0 \<notin> set (?head @ ascii ''****'')" "length (?head @ ascii ''****'') < 192" using head four by simp_all
  obtain b where b: "ep_encode process mal (szPwd g) ((?head @ stars v) @ 0 # replicate (263 - length (?head @ stars v)) 0) (replicate 264 0) =
      Some (Done (b @ replicate (264 - length b) 0))" "0 \<notin> set b" "length b \<le> 256" "server_decode mal p b = Some (?head @ stars v)"
    by (rule ep_encode_read [OF assms(1,2) pwd full])
  obtain c where c: "ep_encode process mal (szPwd g) ((?head @ ascii ''****'') @ 0 # replicate (263 - length (?head @ ascii ''****'')) 0) (replicate 264 0) =
      Some (Done (c @ replicate (264 - length c) 0))" "0 \<notin> set c" "length c \<le> 256" "server_decode mal p c = Some (?head @ ascii ''****'')"
    by (rule ep_encode_read [OF assms(1,2) pwd short])
  let ?name = "\<lambda>b. ascii ''L@#@'' @ b @ ascii ''@#@'' @ k @ ascii ''@#@'' @ i @ ascii ''@#@'' @ v"
  have name: "ep_text g (b @ replicate (264 - length b) 0) = Some (?name b)" "0 \<notin> set (?name b)" "length (?name b) < 1055"
    if "0 \<notin> set b" "length b \<le> 256" for b
    using that i init assms texts ids by (simp_all add: ep_text_def cstr_zeros ascii_def of_char_def)
  have res: "ep_result mal (?name b @ [0]) = Some (Done (?name b @ [0]))" "printed (EP_MEM_SIZE * 4) (?name b) = ?name b @ [0]"
    if "0 \<notin> set b" "length b \<le> 256" for b
    using ep_result_text [OF assms(1), of "?name b"] name(2,3) [OF that] by (simp_all only: printed_def) simp_all
  note stars_g = or_stars_text [OF i] or_stars_text [OF s] or_stars_text [of "szCMEI_IMEI2 g" i2] or_stars_text [of "szDMv g" v]
  have blit: "ablit (replicate 264 0) 0 (t @ [0]) = Some (t @ 0 # replicate (263 - length t) 0)" if "length t < 264" for t :: bytes
    using that by simp
  have blits: "ablit (replicate 264 0) 0 ((?head @ stars v) @ [0]) = Some ((?head @ stars v) @ 0 # replicate (263 - length (?head @ stars v)) 0)"
    "ablit (replicate 264 0) 0 (printed EP_MEM_SIZE (?head @ ascii ''****'')) =
       Some ((?head @ ascii ''****'') @ 0 # replicate (263 - length (?head @ ascii ''****'')) 0)"
    using head v four blit [of "?head @ stars v"] blit [of "?head @ ascii ''****''"] by (simp_all add: printed_def)
  have "genDmRegEndpointName process mal g = Some (Done (?name b @ [0]))"
    using stars_g init(3,6) assms(6,8) blits(1) b(1) name(1) [OF b(2,3)] res [OF b(2,3)] ep_malloc_ok [OF assms(1), of 264]
    by (simp add: genDmRegEndpointName_def)
  moreover have "genDmUpdateEndpointName process mal g = Some (Done (?name c @ [0]))"
    using stars_g init(3,6) assms(6,8) blits(2) c(1) name(1) [OF c(2,3)] res [OF c(2,3)] ep_malloc_ok [OF assms(1), of 264]
    by (simp add: genDmUpdateEndpointName_def)
  ultimately show ?thesis using b(4) c(4) by (intro exI [of _ b] exI [of _ c]) simp
qed

definition sample_options :: dm_options where
  "sample_options = \<lparr>szCMEI_IMEI = replicate 64 0, szIMSI = replicate 64 0, szDMv = ascii ''v2.0'' @ replicate 12 0,
     szAppKey = ascii ''M1'' @ replicate 62 0, szPwd = ascii ''pw'' @ replicate 62 0, szCMEI_IMEI2 = replicate 64 0\<rparr>"

theorem dm_names_delivered_witness:
  "\<exists>g b c. dmSdkInit (ascii ''86'' @ replicate 28 0) (replicate 30 0) sample_options = Some g \<and>
    genDmRegEndpointName standard_process calloc g =
      Some (Done (ascii ''L@#@'' @ b @ ascii ''@#@'' @ ascii ''M1'' @ ascii ''@#@'' @ ascii ''86'' @ ascii ''@#@'' @ ascii ''v2.0'' @ [0])) \<and>
    server_decode calloc (ascii ''pw'') b = Some (stars (ascii ''86'') @ [0x2D] @ stars [] @ [0x2D] @ stars [] @ [0x2D] @ stars (ascii ''v2.0'')) \<and>
    genDmUpdateEndpointName standard_process calloc g =
      Some (Done (ascii ''L@#@'' @ c @ ascii ''@#@'' @ ascii ''M1'' @ ascii ''@#@'' @ ascii ''86'' @ ascii ''@#@'' @ ascii ''v2.0'' @ [0])) \<and>
    server_decode calloc (ascii ''pw'') c = Some (stars (ascii ''86'') @ [0x2D] @ stars [] @ [0x2D] @ stars [] @ [0x2D] @ ascii ''****'')"
proof -
  obtain g where g: "dmSdkInit (ascii ''86'' @ replicate 28 0) (replicate 30 0) sample_options = Some g"
    by (simp add: dmSdkInit_def ascii_def of_char_def)
  have fields: "ascii ''86'' = takeWhile (\<lambda>c. c \<noteq> 0) (take 30 (ascii ''86'' @ replicate 28 0))" "[] = takeWhile (\<lambda>c. c \<noteq> 0) (take 30 (replicate 30 (0 :: u8)))"
    "cstr (szCMEI_IMEI2 sample_options) = Some []" "length (szCMEI_IMEI2 sample_options) = 64"
    "cstr (szDMv sample_options) = Some (ascii ''v2.0'')" "length (szDMv sample_options) = 16"
    "cstr (szAppKey sample_options) = Some (ascii ''M1'')" "length (szAppKey sample_options) = 64"
    "cstr (szPwd sample_options) = Some (ascii ''pw'')" "length (szPwd sample_options) = 64"
    by code_simp+
  from dm_names_delivered [OF alloc_ok_calloc standard_process_ok g fields] g show ?thesis by blast
qed

lemma utils_stringCopy_whole:
  "0 \<notin> set t \<Longrightarrow> takeWhile (\<lambda>c. c \<noteq> 0) str = t \<Longrightarrow> length t < n \<Longrightarrow> n \<le> length buffer \<Longrightarrow>
   utils_stringCopy buffer n str = Some (int (length t), t @ 0 # drop (length t + 1) buffer)"
  by (simp add: utils_stringCopy_def Let_def)

lemma utils_stringCopy_short:
  "takeWhile (\<lambda>c. c \<noteq> 0) str = t \<Longrightarrow> n \<le> length t \<Longrightarrow> n \<le> length buffer \<Longrightarrow>
   utils_stringCopy buffer n str = Some (-1, take n t @ drop n buffer)"
  by (simp add: utils_stringCopy_def Let_def)

text \<open>The query of an update: a buffer of the length that \<open>prv_getDmUpdateQueryLength\<close> announces, or more,
  receives the whole name behind \<open>epi=\<close> and the length returned is the one announced; in a smaller one
  nothing is stored beyond its end, and 0 is returned.\<close>
theorem dm_update_query_exact:
  assumes "cstr priv = Some name"
  shows "if prv_getDmUpdateQueryLength priv \<le> length buffer
    then prv_getDmUpdateQuery priv buffer (length buffer) =
      Some (prv_getDmUpdateQueryLength priv, ascii ''epi='' @ name @ 0 # drop (prv_getDmUpdateQueryLength priv) buffer)
    else \<exists>b. prv_getDmUpdateQuery priv buffer (length buffer) = Some (0, b) \<and> length b = length buffer"
proof -
  have name: "takeWhile (\<lambda>c. c \<noteq> 0) priv = name" using assms by (simp add: cstr_def split: if_splits)
  have zero: "0 \<notin> set name" by (rule cstr_short [OF assms])
  have epi: "takeWhile (\<lambda>c. c \<noteq> 0) (ascii ''epi='') = ascii ''epi=''" "length (ascii ''epi='') = 4" "0 \<notin> set (ascii ''epi='')"
    by (simp_all add: ascii_def of_char_def)
  have len: "prv_getDmUpdateQueryLength priv = length name + 5"
    by (simp add: prv_getDmUpdateQueryLength_def utils_strlen_def name epi)
  let ?b = "ascii ''epi='' @ 0 # drop 5 buffer"
  consider "length buffer \<le> 4" | "4 < length buffer" "length buffer \<le> length name + 4" | "length name + 5 \<le> length buffer"
    by linarith
  then show ?thesis
  proof cases
    case 1
    then show ?thesis
      using utils_stringCopy_short [OF epi(1), of "length buffer" buffer] epi(2)
      by (simp add: prv_getDmUpdateQuery_def len)
  next
    case 2
    then show ?thesis
      using utils_stringCopy_whole [OF epi(3,1), of "length buffer" buffer] epi(2)
        utils_stringCopy_short [OF name, of "length buffer - 4" "0 # drop 5 buffer"]
      by (simp add: prv_getDmUpdateQuery_def len)
  next
    case 3
    have index: "nat (4 + int (length name)) = length name + 4" "nat (int (length name) + 4) = length name + 4" by arith+
    from 3 show ?thesis
      using utils_stringCopy_whole [OF epi(3,1), of "length buffer" buffer] epi(2)
        utils_stringCopy_whole [OF zero name, of "length buffer - 4" "0 # drop 5 buffer"]
      by (simp add: prv_getDmUpdateQuery_def len list_update_append Let_def index)
  qed
qed

text \<open>A digest that begins with a zero byte makes the key of zeros, whatever the password.\<close>

theorem dm_key_of_zeros:
  "p \<noteq> [] \<Longrightarrow> sha_digest sha_compress 0 p = 0 # d \<Longrightarrow> dm_key p = replicate 32 0"
  by (simp add: dm_key_def)

end
