(* ===== verification/Dm_Object.thy ===== *)
theory Dm_Object
  imports Dm_Endpoint
begin

text \<open>
  \<open>std_object/object_dm.c\<close> and the registry of its instances in \<open>std_object.c\<close>: the device-management
  object 666, whose resources are reported in the encoding of \<open>Dm_Endpoint\<close>.
\<close>

section \<open>The instances\<close>

text \<open>The arrays behind \<open>app_info\<close> in \<open>dm_others\<close>; nothing reads the arrays.\<close>

record dm_device_data =
  dm_instanceId :: u16
  dm_state :: u32
  dm_result :: u32
  dm_dev_info :: bytes
  dm_app_info :: bytes
  dm_others :: "bytes list"

abbreviation dm_id :: "dm_device_data \<Rightarrow> u32" where
  "dm_id d \<equiv> ucast (dm_instanceId d)"

text \<open>The head of the list is overwritten with the node found.\<close>

definition std_object_get_dm :: "dm_device_data list \<Rightarrow> u16 \<Rightarrow> dm_device_data option \<times> dm_device_data list" where
  "std_object_get_dm dm_inst instanceId =
     (let dm_inst = list_from dm_id dm_inst (ucast instanceId)
      in (case dm_inst of [] \<Rightarrow> None | h # t \<Rightarrow> Some h, dm_inst))"

definition std_object_put_dm :: "dm_device_data list \<Rightarrow> dm_device_data \<Rightarrow> dm_device_data list" where
  "std_object_put_dm dm_inst target = cis_list_add dm_id dm_inst target"

definition std_object_remove_dm :: "dm_device_data list \<Rightarrow> dm_device_data \<Rightarrow> dm_device_data list" where
  "std_object_remove_dm dm_inst target = fst (cis_list_remove dm_id dm_inst (dm_id target))"

definition prv_dm_find :: "dm_device_data list \<Rightarrow> u16 \<Rightarrow> dm_device_data option \<times> dm_device_data list" where
  "prv_dm_find dm_inst instanceId = std_object_get_dm dm_inst instanceId"

text \<open>The loop over the bits begins at the new instance and counts the whole list.\<close>

fun dm_add_bits :: "nat \<Rightarrow> dm_device_data list \<Rightarrow> bytes \<Rightarrow> bytes option" where
  "dm_add_bits 0 ts bitmap = Some bitmap"
| "dm_add_bits (Suc n) [] bitmap = None"
| "dm_add_bits (Suc n) (t # ts) bitmap = do {
     let iid = unat (dm_instanceId t);
     let pos = unat (of_nat (iid div 8) :: u8);
     b \<leftarrow> aload bitmap pos;
     bitmap \<leftarrow> astore bitmap pos (b + push_bit (7 - iid mod 8) 1);
     dm_add_bits n ts bitmap }"

definition new_dm_device :: "int \<Rightarrow> dm_device_data" where
  "new_dm_device instanceId = \<lparr>dm_instanceId = of_int instanceId, dm_state = 1, dm_result = 0,
     dm_dev_info = replicate 512 0, dm_app_info = ascii ''2.0'' @ replicate 509 0, dm_others = replicate 12 (replicate 512 0)\<rparr>"

text \<open>\<open>sizeof(dm_device_data_t)\<close> is 7184 on the 32-bit target. A count of the instances is a byte.\<close>

definition std_dm_create ::
  "allocator \<Rightarrow> dm_device_data list \<Rightarrow> int \<Rightarrow> st_object option \<Rightarrow> (bool \<times> dm_device_data list \<times> st_object option) option" where
  "std_dm_create mal dm_inst instanceId dmObj =
     (case dmObj of
        None \<Rightarrow> Some (False, dm_inst, None)
      | Some obj \<Rightarrow>
          if mal 7184 = None then Some (False, dm_inst, Some obj)
          else do {
            let target = new_dm_device instanceId;
            let dm_inst = std_object_put_dm dm_inst target;
            let instCount = (ucast (cis_list_count dm_inst) :: u8);
            if instCount = 0 then Some (False, dm_inst, Some obj)
            else if instCount = 1 then Some (True, dm_inst, Some obj)
            else do {
              let obj = obj\<lparr>oj_instBitmapCount := ucast instCount\<rparr>;
              let instBytes = (instCount - 1) div 8 + 1;
              let obj = (if oj_instBitmapBytes obj < ucast instBytes
                         then obj\<lparr>oj_instBitmapPtr := mal (ucast instBytes), oj_instBitmapBytes := ucast instBytes\<rparr>
                         else obj);
              old \<leftarrow> oj_instBitmapPtr obj;
              zeroed \<leftarrow> ablit old 0 (replicate (unat instBytes) 0);
              bitmap \<leftarrow> dm_add_bits (unat instCount) (list_from dm_id dm_inst (dm_id target)) zeroed;
              Some (True, dm_inst, Some (obj\<lparr>oj_instBitmapPtr := Some bitmap\<rparr>)) } })"

fun dm_clean_loop :: "dm_device_data list \<Rightarrow> dm_device_data list \<Rightarrow> dm_device_data list" where
  "dm_clean_loop [] dm_inst = dm_inst"
| "dm_clean_loop (t # ts) dm_inst = dm_clean_loop ts (std_object_remove_dm dm_inst t)"

definition std_dm_clean :: "dm_device_data list \<Rightarrow> dm_device_data list" where
  "std_dm_clean dm_inst = dm_clean_loop dm_inst dm_inst"

section \<open>Reading\<close>

definition dm_resources :: "u16 list" where
  "dm_resources = [6601, 6602, 6603, 6604, 6605, 6606, 6607, 6608, 6609, 6610, 6611, 6612, 6613, 6614]"

text \<open>The fixed texts of the resources.\<close>

definition dm_device_text :: "u16 \<Rightarrow> bytes option" where
  "dm_device_text resId =
     (if resId = 6601 then Some []
      else if resId = 6602
      then Some (ascii ''app_name1|pak_name1|1234000|3'' @ [0x0D, 0x0A] @ ascii ''app_name2|pak_name2|2234000|5'' @ [0x0D, 0x0A])
      else if resId = 6603 then Some (ascii ''00:50:56:C0:00:01'')
      else if resId = 6604 then Some (ascii ''4GB'')
      else if resId = 6605 then Some (ascii ''2GB'')
      else if resId = 6606 then Some (ascii ''ARM'')
      else if resId = 6607 then Some (ascii ''LINUX 2.6.18'')
      else if resId = 6608 then Some (ascii ''1.20.1'')
      else if resId = 6609 then Some (ascii ''X-A10'')
      else if resId = 6610 then Some (ascii ''0'')
      else if resId = 6611 then Some (ascii ''4G'')
      else if resId = 6612 then Some (ascii ''Account'')
      else if resId = 6613 then Some (ascii ''13812345678'')
      else if resId = 6614 then Some (ascii ''25.77701556036132,123.52958679200002,GPS'')
      else None)"

text \<open>The code and the block; the block is cleared without a look at the pointer.\<close>

definition read_dm_device_info :: "allocator \<Rightarrow> u16 \<Rightarrow> (u8 \<times> bytes option) option" where
  "read_dm_device_info mal resId =
     (case dm_device_text resId of
        None \<Rightarrow> Some (COAP_404_NOT_FOUND, None)
      | Some text \<Rightarrow> do {
          buff \<leftarrow> ablit (replicate 256 0) 0 (printed 256 text);
          t \<leftarrow> cstr buff;
          outbuff \<leftarrow> mal (of_nat (length t + 1));
          outbuff \<leftarrow> ablit outbuff 0 (replicate (length t + 1) 0);
          outbuff \<leftarrow> ablit outbuff 0 t;
          Some (COAP_205_CONTENT, Some outbuff) })"

definition get_dm_encode_info :: "sha_process \<Rightarrow> allocator \<Rightarrow> u16 \<Rightarrow> bytes \<Rightarrow> (u8 \<times> bytes option) option" where
  "get_dm_encode_info process mal resId pwd = do {
     (result, szvalbuf) \<leftarrow> read_dm_device_info mal resId;
     if result \<noteq> COAP_205_CONTENT then Some (COAP_404_NOT_FOUND, None)
     else do {
       szvalbuf \<leftarrow> szvalbuf;
       t \<leftarrow> cstr szvalbuf;
       if t = [] then Some (COAP_IGNORE, None)
       else do {
         out \<leftarrow> dm_read_info_encode process mal szvalbuf pwd;
         Some (case out of
                 Fail \<Rightarrow> (COAP_500_INTERNAL_SERVER_ERROR, None)
               | Done outbuff \<Rightarrow> (COAP_205_CONTENT, Some outbuff)) } } }"

text \<open>The loop over the values; an empty text leaves the value untouched and counts as a success.\<close>

fun dm_value_loop :: "sha_process \<Rightarrow> allocator \<Rightarrow> bytes \<Rightarrow> u8 \<Rightarrow> st_data list \<Rightarrow> (u8 \<times> st_data list) option" where
  "dm_value_loop process mal pwd result [] = Some (result, [])"
| "dm_value_loop process mal pwd result (d # ds) =
     (if sd_id d \<in> set dm_resources
      then do {
        (result, outbuff) \<leftarrow> get_dm_encode_info process mal (sd_id d) pwd;
        if result \<noteq> COAP_205_CONTENT \<and> result \<noteq> COAP_IGNORE then Some (result, d # ds)
        else do {
          let d = (if result = COAP_205_CONTENT then data_encode_string mal outbuff d else d);
          (result, ds) \<leftarrow> dm_value_loop process mal pwd COAP_205_CONTENT ds;
          Some (result, d # ds) } }
      else Some (COAP_404_NOT_FOUND, d # ds))"

definition prv_dm_get_value :: "sha_process \<Rightarrow> allocator \<Rightarrow> bytes \<Rightarrow> nat \<Rightarrow> st_data list \<Rightarrow> (u8 \<times> st_data list) option" where
  "prv_dm_get_value process mal pwd number ds = do {
     now \<leftarrow> aslice ds 0 number;
     (result, now) \<leftarrow> dm_value_loop process mal pwd 0 now;
     Some (result, now @ drop number ds) }"

text \<open>The code, the head of the instances and the values; \<open>ds = []\<close> asks for the whole object.\<close>

definition std_dm_read ::
  "sha_process \<Rightarrow> allocator \<Rightarrow> bytes \<Rightarrow> dm_device_data list \<Rightarrow> u16 \<Rightarrow> st_data list \<Rightarrow>
   (u8 \<times> dm_device_data list \<times> st_data list) option" where
  "std_dm_read process mal pwd dm_inst instanceId ds =
     (let (target, dm_inst) = prv_dm_find dm_inst instanceId in
      if instanceId \<noteq> 0 \<or> target = None then Some (COAP_404_NOT_FOUND, dm_inst, ds)
      else if ds = []
      then (case data_new mal (length dm_resources) of
              None \<Rightarrow> Some (COAP_500_INTERNAL_SERVER_ERROR, dm_inst, [])
            | Some ds \<Rightarrow> do {
                (result, ds) \<leftarrow> prv_dm_get_value process mal pwd (length dm_resources) (map2 set_id dm_resources ds);
                Some (if result \<noteq> COAP_205_CONTENT then COAP_500_INTERNAL_SERVER_ERROR else COAP_205_CONTENT, dm_inst, ds) })
      else do {
        (result, ds) \<leftarrow> prv_dm_get_value process mal pwd 1 ds;
        Some (result, dm_inst, ds) })"

section \<open>Discovery, writing and execution\<close>

text \<open>A child of the answer, with the link it carries.\<close>

record dm_link =
  dl_id :: u16
  dl_type :: et_data_type
  dl_objectId :: u32
  dl_instId :: u16

text \<open>The children for the whole object, where the value of the caller becomes an instance, or the code for its values.\<close>

definition std_dm_discover ::
  "allocator \<Rightarrow> st_data list \<Rightarrow> nat \<Rightarrow> (u8 \<times> nat \<times> st_data list \<times> dm_link list) option" where
  "std_dm_discover mal ds numData =
     (if numData = 0
      then (case ds of
              [] \<Rightarrow> None
            | d # rest \<Rightarrow> do {
                children \<leftarrow> data_new mal (length dm_resources);
                Some (COAP_205_CONTENT, length dm_resources, set_type DATA_TYPE_OBJECT_INSTANCE (set_id 0 d) # rest,
                  map (\<lambda>r. \<lparr>dl_id = r, dl_type = DATA_TYPE_LINK, dl_objectId = 3, dl_instId = 0\<rparr>) dm_resources) })
      else do {
        now \<leftarrow> aslice ds 0 numData;
        Some (if list_all (\<lambda>d. sd_id d \<in> set dm_resources) now then COAP_205_CONTENT else COAP_404_NOT_FOUND, numData, ds, []) })"

definition std_dm_write :: u8 where "std_dm_write = COAP_400_BAD_REQUEST"
definition std_dmd_execute :: u8 where "std_dmd_execute = COAP_400_BAD_REQUEST"

section \<open>Laws\<close>

lemma device_text: "r \<in> set dm_resources \<Longrightarrow> r \<noteq> 6601 \<Longrightarrow>
    \<exists>t. dm_device_text r = Some t \<and> t \<noteq> [] \<and> 0 \<notin> set t \<and> length t < 192"
  by (auto simp: dm_resources_def dm_device_text_def ascii_def of_char_def)

lemma read_text:
  assumes "alloc_ok mal" and "dm_device_text r = Some t" and "0 \<notin> set t" and "length t < 192"
  shows "read_dm_device_info mal r = Some (COAP_205_CONTENT, Some (t @ [0]))"
proof -
  have "unat (of_nat (length t + 1) :: u32) = length t + 1" using assms(4) by (intro unat_of_nat_id) simp
  then obtain b where "mal (of_nat (length t + 1)) = Some b" "length b = length t + 1"
    using assms(1,4) by (auto simp: alloc_ok_def dest!: spec [of _ "of_nat (length t + 1)"])
  moreover have "drop (length t) (replicate (Suc (length t)) 0) = [0 :: u8]" by (simp only: drop_replicate) simp
  ultimately show ?thesis
    using assms by (simp add: read_dm_device_info_def printed_def cstr_append)
qed

lemma encode_info_text:
  assumes "alloc_ok mal" and "sha_process_ok process sha_compress" and "cstr pwd = Some p" and "length p < 2 ^ 32"
    and "r \<in> set dm_resources" and "r \<noteq> 6601"
  obtains t b where "dm_device_text r = Some t" "get_dm_encode_info process mal r pwd = Some (COAP_205_CONTENT, Some (b @ [0]))"
    "0 \<notin> set b" "server_decode mal p b = Some t" "length b < 2 ^ 31"
proof -
  obtain t where t: "dm_device_text r = Some t" "t \<noteq> []" "0 \<notin> set t" "length t < 192"
    using device_text [OF assms(5,6)] by blast
  obtain b where "dm_read_info_encode process mal (t @ [0]) pwd = Some (Done (b @ [0]))" "0 \<notin> set b" "length b \<le> 256" "server_decode mal p b = Some t"
    by (rule value_read_back [OF assms(1,2) cstr_append [OF t(3)] t(4) assms(3,4)])
  with t that show ?thesis
    using read_text [OF assms(1) t(1,3,4)] by (simp add: get_dm_encode_info_def cstr_append)
qed

lemma encode_info_empty:
  assumes "alloc_ok mal" shows "get_dm_encode_info process mal 6601 pwd = Some (COAP_IGNORE, None)"
  using read_text [OF assms, of 6601 "[]"] by (simp add: get_dm_encode_info_def dm_device_text_def cstr_def)

text \<open>What a value is after the read: the one without a text is left alone.\<close>

definition dm_reported :: "allocator \<Rightarrow> bytes \<Rightarrow> st_data \<Rightarrow> st_data \<Rightarrow> bool" where
  "dm_reported mal p d d' \<longleftrightarrow>
     (if sd_id d = 6601 then d' = d
      else sd_id d' = sd_id d \<and> sd_type d' = DATA_TYPE_STRING \<and>
        server_decode mal p (sd_buffer d') = dm_device_text (sd_id d) \<and> dm_device_text (sd_id d) \<noteq> None)"

lemma string_encoded:
  assumes "alloc_ok mal" and "0 \<notin> set b" and "length b < 2 ^ 31"
  shows "sd_id (data_encode_string mal (Some (b @ [0])) d) = sd_id d"
    "sd_type (data_encode_string mal (Some (b @ [0])) d) = DATA_TYPE_STRING"
    "sd_buffer (data_encode_string mal (Some (b @ [0])) d) = b"
proof -
  have "take (utils_strlen (b @ [0])) (b @ [0]) = b" using assms(2) by (simp add: utils_strlen_def takeWhile_append)
  moreover have "mal (of_nat (length b)) \<noteq> None"
    using assms(1,3) by (auto simp: alloc_ok_def dest!: spec [of _ "of_nat (length b)"])
  ultimately show "sd_id (data_encode_string mal (Some (b @ [0])) d) = sd_id d"
    "sd_type (data_encode_string mal (Some (b @ [0])) d) = DATA_TYPE_STRING"
    "sd_buffer (data_encode_string mal (Some (b @ [0])) d) = b"
    by (auto simp: data_encode_string_def prv_setBuffer_def set_type_def set_buffer_def)
qed

lemma value_loop_reported:
  assumes "alloc_ok mal" and "sha_process_ok process sha_compress" and "cstr pwd = Some p" and "length p < 2 ^ 32"
  shows "list_all (\<lambda>d. sd_id d \<in> set dm_resources) ds \<Longrightarrow>
    \<exists>ds'. dm_value_loop process mal pwd result ds = Some (if ds = [] then result else COAP_205_CONTENT, ds') \<and>
      list_all2 (dm_reported mal p) ds ds'"
proof (induction ds arbitrary: result)
  case (Cons d ds)
  then have "list_all (\<lambda>d. sd_id d \<in> set dm_resources) ds" by simp
  from Cons.IH [OF this, of COAP_205_CONTENT] obtain ds' where
    ds': "dm_value_loop process mal pwd COAP_205_CONTENT ds = Some (COAP_205_CONTENT, ds')" "list_all2 (dm_reported mal p) ds ds'"
    by auto
  show ?case
  proof (cases "sd_id d = 6601")
    case True
    then have "dm_reported mal p d d" by (simp add: dm_reported_def)
    with True Cons.prems ds' encode_info_empty [OF assms(1), of process pwd] show ?thesis by simp
  next
    case False
    have "sd_id d \<in> set dm_resources" using Cons.prems by simp
    from encode_info_text [OF assms this False] obtain t b where
      b: "dm_device_text (sd_id d) = Some t" "get_dm_encode_info process mal (sd_id d) pwd = Some (COAP_205_CONTENT, Some (b @ [0]))"
        "0 \<notin> set b" "server_decode mal p b = Some t" "length b < 2 ^ 31" by blast
    with False string_encoded [OF assms(1) b(3,5), of d]
    have "dm_reported mal p d (data_encode_string mal (Some (b @ [0])) d)" by (simp add: dm_reported_def)
    with Cons.prems ds' b(2) show ?thesis by simp
  qed
qed simp

text \<open>C18. The object's life: \<open>std_dm_create\<close> makes its one instance and leaves the bitmap alone; reading the whole
  object then answers 2.05 with the fourteen resources in order, and from every one but the empty 6601 a
  server that knows the password gets back the text of the device; a single resource likewise; the
  instance is still there afterwards, until \<open>std_dm_clean\<close> has removed it.\<close>
theorem dm_object_delivered:
  assumes "alloc_ok mal" and "sha_process_ok process sha_compress" and "cstr pwd = Some p" and "length p < 2 ^ 32"
    and "sd_id d \<in> set dm_resources"
  shows "\<exists>inst ds d'. std_dm_create mal [] 0 (Some obj) = Some (True, [inst], Some obj) \<and>
    std_dm_read process mal pwd [inst] 0 [] = Some (COAP_205_CONTENT, [inst], ds) \<and>
    list_all2 (dm_reported mal p) (map (\<lambda>r. set_id r data_zero) dm_resources) ds \<and>
    std_dm_read process mal pwd [inst] 0 [d] = Some (COAP_205_CONTENT, [inst], [d']) \<and> dm_reported mal p d d' \<and>
    std_dm_clean [inst] = []"
proof -
  define inst where "inst = new_dm_device 0"
  have id: "dm_instanceId inst = 0" by (simp add: inst_def new_dm_device_def)
  have "mal 7184 \<noteq> None" using assms(1) by (auto simp: alloc_ok_def dest: spec [of _ 7184])
  then have create: "std_dm_create mal [] 0 (Some obj) = Some (True, [inst], Some obj)"
    by (simp add: std_dm_create_def inst_def std_object_put_dm_def cis_list_add_def cis_list_count_def)
  have find: "prv_dm_find [inst] 0 = (Some inst, [inst])"
    by (simp add: prv_dm_find_def std_object_get_dm_def id)
  have "mal 336 \<noteq> None" using assms(1) by (auto simp: alloc_ok_def dest: spec [of _ 336])
  then have data: "data_new mal (length dm_resources) = Some (replicate (length dm_resources) data_zero)"
    by (auto simp: data_new_def dm_resources_def)
  let ?all = "map (\<lambda>r. set_id r data_zero) dm_resources"
  have all: "map2 set_id dm_resources (replicate (length dm_resources) data_zero) = ?all"
    by (simp add: zip_replicate2 comp_def)
  have ids: "list_all (\<lambda>d. sd_id d \<in> set dm_resources) ?all" by (simp add: list_all_iff set_id_def)
  obtain ds where ds: "dm_value_loop process mal pwd 0 ?all = Some (COAP_205_CONTENT, ds)" "list_all2 (dm_reported mal p) ?all ds"
    using value_loop_reported [OF assms(1-4) ids, of 0] by (auto simp: dm_resources_def)
  have "list_all (\<lambda>d. sd_id d \<in> set dm_resources) [d]" using assms(5) by simp
  from value_loop_reported [OF assms(1-4) this, of 0] obtain d' where
    d': "dm_value_loop process mal pwd 0 [d] = Some (COAP_205_CONTENT, [d'])" "dm_reported mal p d d'"
    by (auto simp: list_all2_Cons1)
  have "std_dm_read process mal pwd [inst] 0 [] = Some (COAP_205_CONTENT, [inst], ds)"
    using find data all ds(1) by (simp add: std_dm_read_def prv_dm_get_value_def)
  moreover have "std_dm_read process mal pwd [inst] 0 [d] = Some (COAP_205_CONTENT, [inst], [d'])"
    using find d'(1) by (simp add: std_dm_read_def prv_dm_get_value_def)
  moreover have "std_dm_clean [inst] = []"
    by (simp add: std_dm_clean_def std_object_remove_dm_def cis_list_remove_def)
  ultimately show ?thesis using create ds(2) d'(2) by blast
qed

definition dm_object :: st_object where
  "dm_object = \<lparr>oj_objID = 666, oj_instBitmapBytes = 0, oj_instBitmapCount = 0, oj_instBitmapPtr = None,
     oj_instValidCount = 0, oj_attributeCount = 0, oj_actionCount = 0\<rparr>"

theorem dm_object_delivered_witness:
  "\<exists>inst ds d'. std_dm_create calloc [] 0 (Some dm_object) = Some (True, [inst], Some dm_object) \<and>
    std_dm_read standard_process calloc [0x70, 0] [inst] 0 [] = Some (COAP_205_CONTENT, [inst], ds) \<and>
    list_all2 (dm_reported calloc [0x70]) (map (\<lambda>r. set_id r data_zero) dm_resources) ds \<and>
    std_dm_read standard_process calloc [0x70, 0] [inst] 0 [set_id 6606 data_zero] = Some (COAP_205_CONTENT, [inst], [d']) \<and>
    dm_reported calloc [0x70] (set_id 6606 data_zero) d' \<and> std_dm_clean [inst] = []"
  by (rule dm_object_delivered [OF alloc_ok_calloc standard_process_ok]) (simp_all add: cstr_def dm_resources_def set_id_def)

text \<open>Looking for an instance that is not there empties the list: every later read answers 4.04.\<close>
theorem dm_instance_lost:
  assumes "cis_list_find dm_id dm_inst (ucast i) = None"
  shows "\<exists>head. std_dm_read process mal pwd dm_inst i ds = Some (COAP_404_NOT_FOUND, head, ds) \<and> head = [] \<and>
    std_dm_read process mal pwd head 0 ds' = Some (COAP_404_NOT_FOUND, [], ds')"
proof -
  have "list_from dm_id dm_inst (ucast i) = []" using assms
    by (induction dm_inst) (auto split: if_splits)
  then show ?thesis by (simp add: std_dm_read_def prv_dm_find_def std_object_get_dm_def)
qed

text \<open>A second instance behind the first runs off the end of the list.\<close>

theorem dm_second_instance_undefined:
  assumes "mal 7184 \<noteq> None" and "0 < i" and "i < 65536"
  shows "std_dm_create mal [new_dm_device 0] i (Some obj) = None"
proof -
  have i: "(0 :: u16) < of_int i" using assms(2,3)
    by (simp add: word_less_def unsigned_of_int take_bit_int_eq_self)
  define a b where "a = new_dm_device 0" and "b = new_dm_device i"
  have id: "dm_instanceId a = 0" "0 < dm_instanceId b" using i by (simp_all add: a_def b_def new_dm_device_def)
  then have ids: "dm_id a < dm_id b" by (simp add: word_less_nat_alt unsigned_ucast_eq)
  then have lists: "std_object_put_dm [a] b = [a, b]" "list_from dm_id [a, b] (dm_id b) = [b]"
    by (simp_all add: std_object_put_dm_def cis_list_add_def)
  have count: "(ucast (cis_list_count [a, b]) :: u8) = 2" by (simp add: cis_list_count_def)
  have "dm_add_bits (Suc (Suc 0)) [b] z = None" for z by (simp add: Let_def split: bind_splits)
  then have bits: "dm_add_bits (unat (2 :: u8)) [b] z = None" for z by (simp flip: numeral_2_eq_2)
  show ?thesis
    unfolding std_dm_create_def Let_def a_def [symmetric] b_def [symmetric] lists count option.case bits
    using assms(1) by (simp split: bind_splits)
qed

end
