(* ===== verification/Spec2Isabelle.thy ===== *)
theory Spec2Isabelle
  imports Cis_List Edp_Contract Cis_Tlv_Contract Cis_Transaction_Contract Cis_Client_Faults Cis_Request_Contract
    Cis_Register_Contract Cis_Answer_Contract Dm_Object
begin

text \<open>
  A verification library for the ML302 OpenCPU SDK: the EDP client kit and the core of the LwM2M
  client, two protocol stacks written in C that talk to the OneNET cloud, and the device management on top of
  the second. Paths below are relative to
  \<open>src/demo\<close> in the repository; \<open>ciscore\<close> stands for \<open>dm/ciscore\<close>.

  \<^bold>\<open>The program.\<close> The EDP kit (\<open>edp/src/EdpKit.c\<close>) packs and unpacks the packets of a TCP protocol in a
  growable buffer; the application collects received bytes in such a buffer and cuts packets off its
  front. The LwM2M client (\<open>ciscore\<close>) keeps its objects, requests, observations and transactions in one
  kind of sorted list (\<open>cis_list.c\<close>); it speaks CoAP (\<open>er-coap-13\<close>); a request names a resource by a URI
  (\<open>cis_uri.c\<close>), carries values as TLV records or text (\<open>cis_tlv.c\<close>, \<open>cis_data.c\<close>, \<open>cis_utils.c\<close>), and is
  sent, repeated and matched with its answer as a transaction (\<open>cis_transaction.c\<close>).

  \<^bold>\<open>Conventions.\<close> A C array is a list of the size of the allocation, and an operation of option type is
  \<open>None\<close> exactly when the C code has undefined behaviour or stops in a failed assertion
  (\<open>Prelude\<close>). Error codes are values; a function that reports a failure by 0, -1 or the null pointer and
  otherwise fills its outputs returns \<open>Fail\<close> or \<open>Done\<close> (\<open>Cis_Types\<close>). Fixed-width integers are words,
  lengths of lists natural numbers where the code cannot reach their bound. \<open>float\<close> and \<open>double\<close> are
  their IEEE bit patterns. The allocator is a parameter that returns the block or \<open>None\<close>; cJSON, the
  network, the clock and the application's callbacks are parameters or events. The target is a 32-bit
  little-endian machine with unsigned \<open>char\<close>.

  \<^bold>\<open>Theories and code.\<close>
  \<^item> \<open>Prelude\<close>: the integer types, bounds-checked arrays, \<open>yields\<close> and its rules \<open>wp\<close>, allocators, and the
    interface \<open>prefix_codec\<close> of a self-delimiting encoding.
  \<^item> \<open>Cis_List\<close>: \<open>cis_list.c\<close>. The interface \<open>id_registry\<close> says what its clients rely on while identifiers are
    fresh, \<open>id_bags\<close> what becomes of nodes with the same identifier; the sorted list is the interpretation
    of both, a finite map in the first case and a list of nodes per identifier in the second.
  \<^item> \<open>Edp_Buffer\<close>, \<open>Edp_Packet\<close>, \<open>Edp_Unpack\<close>: the buffer with its readers and writers, the packers, and
    framing with the unpackers, in the order of \<open>EdpKit.c\<close>. \<open>Edp_Buffer_Laws\<close>, \<open>Edp_Packet_Laws\<close> and
    \<open>Edp_Unpack_Laws\<close> give each writer the bytes it emits and each reader the bytes it consumes (four
    interpretations of \<open>prefix_codec\<close>); \<open>Edp_Contract\<close> states what a sender and a receiver promise each
    other.
  \<^item> \<open>Coap_Codes\<close>, \<open>Coap_Message\<close>, \<open>Coap_Codec\<close>, \<open>Coap_Headers\<close>: the packet, the option encodings, serializing and
    parsing, and the setters and getters of \<open>er-coap-13.c\<close>. \<open>Coap_Laws\<close> proves that the parser inverts the
    serializer option by option; \<open>Coap_Contract\<close> and \<open>Coap_Client\<close> state it for whole messages and for
    the packets that the setters build (the inductive \<open>coap_built\<close>). The interface \<open>wire_getter\<close>
    has an interpretation for each of eleven getters.
  \<^item> \<open>Cis_Types\<close>, \<open>Cis_Utils\<close>, \<open>Cis_Uri\<close>: the shared data of \<open>cis_internals.h\<close> and \<open>cis_api.h\<close>, the
    conversions of \<open>cis_utils.c\<close>, and \<open>cis_uri.c\<close>; \<open>Cis_Utils_Laws\<close> and \<open>Cis_Uri_Laws\<close> relate them to
    decimal notation, \<open>Cis_Uri_Contract\<close> follows a path through the CoAP codec.
  \<^item> \<open>Cis_Data\<close>, \<open>Cis_Tlv\<close>, \<open>Cis_Format\<close>: the values of \<open>cis_data.c\<close>, the TLV codec of \<open>cis_tlv.c\<close> and
    \<open>data_parse\<close> and \<open>data_serialize\<close>; every read of a received record is checked. \<open>Cis_Tlv_Laws\<close> interprets \<open>prefix_codec\<close> for one record and extends
    it to trees; \<open>Cis_Tlv_Contract\<close> holds the properties.
  \<^item> \<open>Cis_Transaction\<close>: \<open>cis_transaction.c\<close> as functions on the list that return the new list and the
    events. \<open>Cis_Transaction_Laws\<close> proves that the walk over the list, which changes it on the way, polls
    each node independently, follows an unanswered request through its retransmissions, and proves the
    invariant of the lists reachable by \<open>trans_reach\<close>; \<open>Cis_Transaction_Contract\<close> holds the properties.
  \<^item> \<open>Cis_Block1\<close>: \<open>cis_block1.c\<close>, the reassembly of block-wise requests, with its properties.
  \<^item> \<open>Cis_Context\<close>: the record \<open>st_context\<close> with the servers, objects, requests, notifications and
    observations of \<open>cis_internals.h\<close>, the events, and \<open>packet_send\<close>.
  \<^item> \<open>Cis_Request\<close>, \<open>Cis_Observe\<close>, \<open>Cis_Instances\<close>, \<open>Cis_Objects\<close>, \<open>Cis_Management\<close>: what the server asks of
    the client (\<open>cis_packet.c\<close>, \<open>cis_observe.c\<close>, \<open>cis_objects.c\<close>, \<open>cis_discover.c\<close>, \<open>cis_management.c\<close>), handed
    to the application and answered later.
  \<^item> \<open>Cis_Security\<close>, \<open>Cis_Monitor\<close>: the standard objects that the client answers for itself
    (\<open>std_object_security.c\<close>, \<open>cis_object_conn_moniter.c\<close>, \<open>cis_object_extend_moniter.c\<close>) and their handlers in
    \<open>std_object.c\<close>. A node of an instance is known by the object it was made for, because the code stores
    nodes of one list in the other.
  \<^item> \<open>Cis_Registration\<close>, \<open>Cis_Bootstrap\<close>: what the client asks of its servers (\<open>cis_registration.c\<close>,
    \<open>cis_bootstrap.c\<close>), as transactions whose answers change the state of the server.
  \<^item> \<open>Cis_Report\<close>, \<open>Cis_Packet\<close>, \<open>Cis_Pump\<close>: \<open>packet_step\<close>, \<open>packet_handle_packet\<close> and \<open>cis_pump\<close>, the state machine
    that drives everything.
  \<^item> \<open>Cis_Config\<close>, \<open>Cis_Core\<close>: the configuration record (\<open>cis_config.c\<close>, with the round trip of its parser), and
    \<open>cis_init\<close> and \<open>cis_deinit\<close> of \<open>cis_core.c\<close>.
  \<^item> \<open>Cis_Invariant\<close>, \<open>Cis_Reach\<close>, \<open>Cis_Client\<close>: the invariant \<open>cx_ok\<close> of the context. \<open>keeps m Q\<close> says that \<open>Q\<close>
    holds of the result of \<open>m\<close>, if it has one; every operation keeps the invariant. Callers see their
    callees through the interface \<open>client_property\<close>, a property of contexts that the writes of the
    registration and the bootstrap leave alone; it is interpreted on the invariant and on the state of
    the pump. \<open>client_reach\<close> are the contexts that \<open>cis_init\<close> without device management, the pump, the
    public functions and the network bring about.
  \<^item> \<open>Cis_Client_Contract\<close>, \<open>Cis_Request_Contract\<close>, \<open>Cis_Register_Contract\<close>, \<open>Cis_Client_Faults\<close>: what the client
    promises (who can make it call the application, which requests it drops, which attributes it reads,
    which text it registers with), and where it fails: inputs with undefined behaviour, a state without
    an exit, a node freed twice, an error that is not reported. \<open>Cis_Answer_Contract\<close> follows a value (integer,
    Boolean, string or opaque) from \<open>cis_response\<close> and \<open>cis_notify\<close> through the pump, the text or TLV format and
    the CoAP codec to what the server reads from the datagram.
  \<^item> \<open>Dm_Base64\<close>, \<open>Dm_Sha256\<close>, \<open>Dm_Aes\<close>: \<open>ciscore/dm_utils\<close>, the device management's own Base64, SHA-256 and AES
    with the tables it generates, each with its standard as reference: the encoder computes the text of
    RFC 4648, any sequence of updates the digest of FIPS 180-4, and \<open>Dm_Aes_Laws\<close> and \<open>Dm_Aes_Contract\<close>
    prove from the generated tables that decryption undoes encryption, block by block and chained.
  \<^item> \<open>Dm_Endpoint\<close>, \<open>Dm_Object\<close>: \<open>dm_endpoint.c\<close> and the object 666 of \<open>std_object/object_dm.c\<close> built on them;
    \<open>server_decode\<close> is what a server with the password computes from a name or a reported value.

  \<^bold>\<open>Bounds and fuel.\<close> Loops are structural recursions or functions with a measure. Only
  \<open>UnpackUpdateResp\<close>, whose C loop runs while bytes are unread, has fuel, and a property states that
  the number of bytes plus one is always enough. Properties that allocate assume an allocator that
  serves requests below half the address space (\<open>alloc_ok\<close>) or any request (\<open>mallocs\<close>), and bound the
  total length accordingly.

  \<^bold>\<open>Not modelled.\<close> The packers and unpackers that macros generate around cJSON trees; the texts of
  floating-point numbers, \<open>utils_opaqueToFloat\<close> and \<open>data_decode_float\<close>, which compute in floating point;
  \<open>utils_vsnprintf\<close>; functions that only free; JSON, which is not compiled. Of the LwM2M client:
  the branch of \<open>cis_init\<close> for the device management (\<open>DMconf\<close> is null there; in a context with device
  management the query on an update is the parameter \<open>env_dm_query\<close>, which \<open>prv_getDmUpdateQuery\<close> fills, and
  the values of a read \<open>env_dm_read\<close>; object 666 itself is modelled apart from the context), the readings of
  the modem (\<open>env_reading\<close>), DTLS (\<open>isDTLS\<close> is off), the firmware update and
  \<open>CIS_ENABLE_CMIOT_OTA\<close> with their standard objects (not compiled), and the locks. The compression function that \<open>sha256.c\<close> calls belongs to
  the mbed TLS library and is a parameter. The drivers, the vendored libraries (wolfSSL, tinydtls, MQTT, HTTP) and the demonstrations
  are left aside.
\<close>

end
